(* ===== verification/Fnm_Prelude.thy ===== *)
theory Fnm_Prelude
  imports Main "HOL-Library.Word" "HOL-Library.Product_Lexorder"
begin

text \<open>
  Shared vocabulary of the development: the fixed-width integer types of the C++ sources, the
  memory layout of such integers on the little-endian hosts the program is built for, byte order
  conversions, decimal and hexadecimal printing as done by the C++ streams, and the collections
  of rewrite rules the component theories fill.
\<close>

unbundle bit_operations_syntax

section \<open>Machine integers\<close>

type_synonym u8 = "8 word"
type_synonym u16 = "16 word"
type_synonym u32 = "32 word"
type_synonym u64 = "64 word"
type_synonym bytes = "u8 list"

named_theorems wire_simps \<open>rewrite rules for the wire formats\<close>
named_theorems map_laws \<open>laws of the ordered map model\<close>
named_theorems rule_state \<open>facts on the states of FlowSpec rules\<close>

lemma unat_lt_2p: "unat (w :: 'a::len word) < 2 ^ LENGTH('a)"
  by simp

lemma unat_ucast_up:
  fixes w :: "'a::len word"
  assumes "LENGTH('a) \<le> LENGTH('b::len)"
  shows "unat (ucast w :: 'b word) = unat w"
proof -
  have "unat w < 2 ^ LENGTH('b)"
    using unat_lt_2p [of w] assms by (meson less_le_trans one_le_numeral power_increasing)
  then show ?thesis
    by (simp add: unsigned_ucast_eq take_bit_nat_eq_self)
qed

section \<open>Bytes of an integer in memory\<close>

text \<open>
  \<open>mem16\<close> and \<open>mem32\<close> list the bytes of an integer in address order on a little-endian host:
  what \<^verbatim>\<open>memcpy\<close> reads from the address of the variable. \<open>of_mem16\<close> and \<open>of_mem32\<close> read
  the integer back.
\<close>

definition mem16 :: "u16 \<Rightarrow> bytes" where
  "mem16 w = [ucast w, ucast (drop_bit 8 w)]"

definition mem32 :: "u32 \<Rightarrow> bytes" where
  "mem32 w = [ucast w, ucast (drop_bit 8 w), ucast (drop_bit 16 w), ucast (drop_bit 24 w)]"

definition of_mem16 :: "u8 \<Rightarrow> u8 \<Rightarrow> u16" where
  "of_mem16 a b = ucast a OR push_bit 8 (ucast b)"

definition of_mem32 :: "u8 \<Rightarrow> u8 \<Rightarrow> u8 \<Rightarrow> u8 \<Rightarrow> u32" where
  "of_mem32 a b c d =
     ucast a OR push_bit 8 (ucast b) OR push_bit 16 (ucast c) OR push_bit 24 (ucast d)"

text \<open>\<^verbatim>\<open>htons\<close>/\<^verbatim>\<open>ntohs\<close> and \<^verbatim>\<open>htonl\<close>/\<^verbatim>\<open>ntohl\<close> swap the bytes on such a host.\<close>

definition htons :: "u16 \<Rightarrow> u16" where
  "htons w = of_mem16 (ucast (drop_bit 8 w)) (ucast w)"

definition htonl :: "u32 \<Rightarrow> u32" where
  "htonl w = of_mem32 (ucast (drop_bit 24 w)) (ucast (drop_bit 16 w)) (ucast (drop_bit 8 w)) (ucast w)"

lemma length_mem16 [simp]: "length (mem16 w) = 2"
  by (simp add: mem16_def)

lemma length_mem32 [simp]: "length (mem32 w) = 4"
  by (simp add: mem32_def)

lemma of_mem16_bytes [wire_simps]: "of_mem16 (ucast w) (ucast (drop_bit 8 w)) = w"
  by (rule bit_word_eqI) (auto simp: of_mem16_def bit_simps)

lemma of_mem32_bytes [wire_simps]:
  "of_mem32 (ucast w) (ucast (drop_bit 8 w)) (ucast (drop_bit 16 w)) (ucast (drop_bit 24 w)) = w"
proof (rule bit_word_eqI)
  fix n assume "n < LENGTH(32)"
  then consider "n < 8" | "8 \<le> n" "n < 16" | "16 \<le> n" "n < 24" | "24 \<le> n" "n < 32"
    by force
  then show "bit (of_mem32 (ucast w) (ucast (drop_bit 8 w)) (ucast (drop_bit 16 w))
      (ucast (drop_bit 24 w))) n \<longleftrightarrow> bit w n"
    by cases (auto simp: of_mem32_def bit_simps)
qed

lemma ucast_of_mem16 [wire_simps]:
  "ucast (of_mem16 a b) = a" "ucast (drop_bit 8 (of_mem16 a b)) = b"
  by (rule bit_word_eqI; auto simp: of_mem16_def bit_simps dest: bit_imp_le_length)+

lemma ucast_of_mem32 [wire_simps]:
  "ucast (of_mem32 a b c d) = a" "ucast (drop_bit 8 (of_mem32 a b c d)) = b"
  "ucast (drop_bit 16 (of_mem32 a b c d)) = c" "ucast (drop_bit 24 (of_mem32 a b c d)) = d"
  by (rule bit_word_eqI; auto simp: of_mem32_def bit_simps dest: bit_imp_le_length)+

lemma htons_htons [simp]: "htons (htons w) = w"
  by (simp add: htons_def wire_simps)

lemma htonl_htonl [simp]: "htonl (htonl w) = w"
  by (simp add: htonl_def wire_simps)

text \<open>In network byte order the most significant byte comes first.\<close>

lemma mem16_htons [wire_simps]: "mem16 (htons w) = [ucast (drop_bit 8 w), ucast w]"
  by (simp add: mem16_def htons_def wire_simps)

lemma mem32_htonl [wire_simps]:
  "mem32 (htonl w) = [ucast (drop_bit 24 w), ucast (drop_bit 16 w), ucast (drop_bit 8 w), ucast w]"
  by (simp add: mem32_def htonl_def wire_simps)

section \<open>Printing numbers\<close>

text \<open>Decimal digits, as \<^verbatim>\<open>std::to_string\<close> and \<^verbatim>\<open>operator<<\<close> print an unsigned integer.\<close>

fun dec_string :: "nat \<Rightarrow> string" where
  "dec_string n =
     (if n < 10 then [char_of (48 + n)]
      else dec_string (n div 10) @ [char_of (48 + n mod 10)])"

declare dec_string.simps [simp del]

definition hex_digit :: "nat \<Rightarrow> char" where
  "hex_digit n = (if n < 10 then char_of (48 + n) else char_of (87 + n))"

text \<open>Two lower-case hexadecimal digits: \<^verbatim>\<open>std::hex << std::setw(2) << std::setfill('0')\<close>.\<close>

definition hex2 :: "u8 \<Rightarrow> string" where
  "hex2 b = [hex_digit (unat b div 16), hex_digit (unat b mod 16)]"

section \<open>Lists\<close>

lemma take_append_length [simp]: "n = length xs \<Longrightarrow> take n (xs @ ys) = xs"
  by simp

lemma drop_append_length [simp]: "n = length xs \<Longrightarrow> drop n (xs @ ys) = ys"
  by simp

text \<open>\<open>zeros\<close> pads a short read of an integer, as \<^verbatim>\<open>memcpy\<close> into a zeroed variable does.\<close>

definition pad_to :: "nat \<Rightarrow> bytes \<Rightarrow> bytes" where
  "pad_to n bs = take n bs @ replicate (n - length bs) 0"

lemma length_pad_to [simp]: "length (pad_to n bs) = n"
  by (simp add: pad_to_def)

section \<open>Reading numbers\<close>

definition is_digit :: "char \<Rightarrow> bool" where
  "is_digit c \<longleftrightarrow> 48 \<le> (of_char c :: nat) \<and> (of_char c :: nat) \<le> 57"

text \<open>\<^verbatim>\<open>isspace\<close> in the classic locale\<close>

definition is_space :: "char \<Rightarrow> bool" where
  "is_space c \<longleftrightarrow> (of_char c :: nat) = 32 \<or> (9 \<le> (of_char c :: nat) \<and> (of_char c :: nat) \<le> 13)"

definition digits_value :: "string \<Rightarrow> nat" where
  "digits_value s = foldl (\<lambda>n c. 10 * n + (of_char c - 48)) 0 s"

text \<open>
  \<^verbatim>\<open>std::from_chars\<close> for an unsigned type of \<open>w\<close> bits: it reads the longest run of digits and
  fails when there is none (\<^verbatim>\<open>invalid_argument\<close>) or when its value does not fit
  (\<^verbatim>\<open>result_out_of_range\<close>); otherwise it yields the value and the rest of the input.
\<close>

definition from_chars :: "nat \<Rightarrow> string \<Rightarrow> (nat \<times> string) option" where
  "from_chars w s =
     (let ds = takeWhile is_digit s in
      if ds = [] \<or> digits_value ds \<ge> 2 ^ w then None
      else Some (digits_value ds, dropWhile is_digit s))"

lemma is_digit_char: "d < (10::nat) \<Longrightarrow> is_digit (char_of (48 + d)) \<and> of_char (char_of (48 + d) :: char) = 48 + d"
  by (simp add: is_digit_def)

lemma dec_string_digits: "list_all is_digit (dec_string n)"
proof (induction n rule: dec_string.induct)
  case (1 n)
  then show ?case
    using is_digit_char [of n] is_digit_char [of "n mod 10"] by (subst dec_string.simps) simp
qed

lemma dec_string_not_Nil [simp]: "dec_string n \<noteq> []"
  by (subst dec_string.simps) simp

lemma digits_value_snoc: "digits_value (s @ [c]) = 10 * digits_value s + (of_char c - 48)"
  by (simp add: digits_value_def)

lemma digits_value_dec_string [simp]: "digits_value (dec_string n) = n"
proof (induction n rule: dec_string.induct)
  case (1 n)
  show ?case
  proof (cases "n < 10")
    case True
    then show ?thesis
      using is_digit_char [of n] by (subst dec_string.simps) (simp add: digits_value_def)
  next
    case False
    then show ?thesis
      using 1 is_digit_char [of "n mod 10"] by (subst dec_string.simps) (simp add: digits_value_snoc)
  qed
qed

lemma dec_string_inj: "dec_string m = dec_string n \<longleftrightarrow> m = n"
  using digits_value_dec_string by metis

lemma takeWhile_digits:
  "list_all is_digit ds \<Longrightarrow> s = [] \<or> \<not> is_digit (hd s) \<Longrightarrow>
     takeWhile is_digit (ds @ s) = ds \<and> dropWhile is_digit (ds @ s) = s"
  by (induction ds; cases s) auto

lemma from_chars_dec_string:
  "n < 2 ^ w \<Longrightarrow> s = [] \<or> \<not> is_digit (hd s) \<Longrightarrow> from_chars w (dec_string n @ s) = Some (n, s)"
  using takeWhile_digits [OF dec_string_digits, of s n] by (auto simp: from_chars_def Let_def)

lemma from_chars_all:
  "from_chars w s = Some (n, []) \<Longrightarrow> list_all is_digit s \<and> s \<noteq> [] \<and> digits_value s = n \<and> n < 2 ^ w"
proof -
  assume ok: "from_chars w s = Some (n, [])"
  then have "dropWhile is_digit s = []"
    by (auto simp: from_chars_def Let_def split: if_splits)
  then have "takeWhile is_digit s = s"
    by (metis append_Nil2 takeWhile_dropWhile_id)
  with ok show ?thesis
    by (auto simp: from_chars_def Let_def not_le list_all_iff split: if_splits
        dest: set_takeWhileD [of _ is_digit s])
qed

lemma digits_no_colon: "list_all is_digit s \<Longrightarrow> CHR '':'' \<notin> set s"
  by (auto simp: list_all_iff is_digit_def dest!: bspec)

lemma split_at_colon:
  "CHR '':'' \<notin> set s \<Longrightarrow> takeWhile (\<lambda>c. c \<noteq> CHR '':'') (s @ CHR '':'' # t) = s
     \<and> dropWhile (\<lambda>c. c \<noteq> CHR '':'') (s @ CHR '':'' # t) = CHR '':'' # t"
  by (induction s) auto

end
