(* ===== verification/Flow_Spec_Types.thy ===== *)
theory Flow_Spec_Types
  imports Fnm_Prelude
begin

text \<open>
  The data the FlowSpec code works on: networks (\<^verbatim>\<open>fastnetmon_networks.hpp\<close>), IP protocol
  numbers, parsed packets, attack details, and the FlowSpec rule with its action
  (\<^verbatim>\<open>bgp_protocol_flow_spec.hpp\<close>), with its setters, its comparison operators and its
  string conversions.
\<close>

section \<open>Networks\<close>

text \<open>The address is kept in network byte order: its first octet is its lowest byte in memory.\<close>

record subnet_cidr_mask_t =
  subnet_address :: u32
  cidr_prefix_length :: u32

definition subnet_cidr_mask :: "u32 \<Rightarrow> u32 \<Rightarrow> subnet_cidr_mask_t" where
  "subnet_cidr_mask address len = \<lparr>subnet_address = address, cidr_prefix_length = len\<rparr>"

text \<open>An IPv6 address is its sixteen bytes in address order.\<close>

definition is_zero_ipv6_address :: "bytes \<Rightarrow> bool" where
  "is_zero_ipv6_address address \<longleftrightarrow> list_all (\<lambda>b. b = 0) (take 16 address)"

record subnet_ipv6_cidr_mask_t =
  subnet_address6 :: bytes
  cidr_prefix_length6 :: u32

definition subnet_ipv6_default :: subnet_ipv6_cidr_mask_t where
  "subnet_ipv6_default = \<lparr>subnet_address6 = replicate 16 0, cidr_prefix_length6 = 128\<rparr>"

text \<open>
  The comparison operators: prefixes compare first, then addresses. An IPv4 address compares as
  the integer of its network byte order representation.
\<close>

definition subnet_less :: "subnet_cidr_mask_t \<Rightarrow> subnet_cidr_mask_t \<Rightarrow> bool" where
  "subnet_less lhs rhs =
     (if cidr_prefix_length lhs < cidr_prefix_length rhs then True
      else if cidr_prefix_length lhs = cidr_prefix_length rhs
      then subnet_address lhs < subnet_address rhs
      else False)"

definition subnet_eq :: "subnet_cidr_mask_t \<Rightarrow> subnet_cidr_mask_t \<Rightarrow> bool" where
  "subnet_eq lhs rhs =
     (if cidr_prefix_length lhs \<noteq> cidr_prefix_length rhs then False
      else subnet_address lhs = subnet_address rhs)"

definition subnet6_eq :: "subnet_ipv6_cidr_mask_t \<Rightarrow> subnet_ipv6_cidr_mask_t \<Rightarrow> bool" where
  "subnet6_eq lhs rhs =
     (if cidr_prefix_length6 lhs \<noteq> cidr_prefix_length6 rhs then False
      else subnet_address6 lhs = subnet_address6 rhs)"

definition is_zero_subnet :: "subnet_cidr_mask_t \<Rightarrow> bool" where
  "is_zero_subnet s \<longleftrightarrow> subnet_address s = 0 \<and> cidr_prefix_length s = 0"

lemma subnet_eq_iff [simp]: "subnet_eq s t \<longleftrightarrow> s = t"
  by (cases s; cases t) (auto simp: subnet_eq_def)

lemma subnet6_eq_iff [simp]: "subnet6_eq s t \<longleftrightarrow> s = t"
  by (cases s; cases t) (auto simp: subnet6_eq_def)

section \<open>IP protocols\<close>

text \<open>
  \<^verbatim>\<open>enum class ip_protocol_t : uint8_t\<close> has a fixed underlying type and names all 256 numbers,
  so its values are exactly the bytes.
\<close>

type_synonym ip_protocol_t = u8

definition HOPOPT :: ip_protocol_t where "HOPOPT = 0"
definition ICMP :: ip_protocol_t where "ICMP = 1"
definition TCP :: ip_protocol_t where "TCP = 6"
definition UDP :: ip_protocol_t where "UDP = 17"

lemmas protocol_defs = HOPOPT_def ICMP_def TCP_def UDP_def

definition get_ip_protocol_enum_type_from_integer :: "u8 \<Rightarrow> ip_protocol_t" where
  "get_ip_protocol_enum_type_from_integer n = n"

section \<open>Packets and attacks\<close>

datatype direction_t = INCOMING | OUTGOING | INTERNAL | OTHER

datatype source_t = UNKNOWN | MIRROR | SFLOW | NETFLOW | TERAFLOW

datatype forwarding_status_t = fwd_unknown | fwd_forwarded | fwd_dropped | fwd_consumed

text \<open>A payload pointer is the bytes it points to, \<open>None\<close> for the null pointer.\<close>

record simple_packet_t =
  source :: source_t
  sample_ratio :: u32
  src_ip :: u32
  dst_ip :: u32
  src_ipv6 :: bytes
  dst_ipv6 :: bytes
  source_mac :: bytes
  destination_mac :: bytes
  src_asn :: u32
  dst_asn :: u32
  src_country :: string
  dst_country :: string
  input_interface :: u32
  output_interface :: u32
  ip_protocol_version :: u8
  ttl :: u8
  source_port :: u16
  destination_port :: u16
  protocol :: u32
  length' :: u64
  ip_length :: u64
  number_of_packets :: u64
  flags :: u8
  tcp_sequence_number :: u32
  tcp_ack_number :: u32
  tcp_window_size :: u16
  ip_fragmented :: bool
  ip_more_fragments :: bool
  ip_dont_fragment :: bool
  ip_fragment_offset :: u16
  icmp_type :: u8
  icmp_code :: u8
  arrival_time :: int
  ts :: "int \<times> int"
  payload_pointer :: "bytes option"
  captured_payload_length :: int
  payload_full_length :: u32
  l4_payload_pointer :: "bytes option"
  l4_payload_length :: u32
  forwarding_status :: forwarding_status_t
  vlan :: u32
  flow_start :: int
  flow_end :: int
  packet_direction :: direction_t
  agent_ipv4_address :: u32
  agent_ipv6_address :: bytes

definition simple_packet_default :: simple_packet_t where
  "simple_packet_default =
     \<lparr>source = UNKNOWN, sample_ratio = 1, src_ip = 0, dst_ip = 0, src_ipv6 = replicate 16 0,
      dst_ipv6 = replicate 16 0, source_mac = replicate 6 0, destination_mac = replicate 6 0,
      src_asn = 0, dst_asn = 0, src_country = [], dst_country = [], input_interface = 0,
      output_interface = 0, ip_protocol_version = 4, ttl = 0, source_port = 0, destination_port = 0,
      protocol = 0, length' = 0, ip_length = 0, number_of_packets = 1, flags = 0,
      tcp_sequence_number = 0, tcp_ack_number = 0, tcp_window_size = 0, ip_fragmented = False,
      ip_more_fragments = False, ip_dont_fragment = False, ip_fragment_offset = 0, icmp_type = 0,
      icmp_code = 0, arrival_time = 0, ts = (0, 0), payload_pointer = None,
      captured_payload_length = 0, payload_full_length = 0, l4_payload_pointer = None,
      l4_payload_length = 0, forwarding_status = fwd_unknown, vlan = 0, flow_start = 0, flow_end = 0,
      packet_direction = OTHER, agent_ipv4_address = 0, agent_ipv6_address = replicate 16 0\<rparr>"

text \<open>
  The counters of one kind of traffic, and of all kinds (\<^verbatim>\<open>subnet_counter.hpp\<close>). The members of
  \<^verbatim>\<open>subnet_counter_t\<close> carry the prefix \<^verbatim>\<open>counter_\<close>.
\<close>

record traffic_counter_element_t =
  in_bytes :: u64
  out_bytes :: u64
  in_packets :: u64
  out_packets :: u64

definition counter_element_zero :: traffic_counter_element_t where
  "counter_element_zero = \<lparr>in_bytes = 0, out_bytes = 0, in_packets = 0, out_packets = 0\<rparr>"

record subnet_counter_t =
  last_update_time :: int
  counter_total :: traffic_counter_element_t
  counter_tcp :: traffic_counter_element_t
  counter_udp :: traffic_counter_element_t
  counter_icmp :: traffic_counter_element_t
  counter_fragmented :: traffic_counter_element_t
  counter_tcp_syn :: traffic_counter_element_t
  counter_dropped :: traffic_counter_element_t
  in_flows :: u64
  out_flows :: u64

definition subnet_counter_default :: subnet_counter_t where
  "subnet_counter_default = \<lparr>last_update_time = 0, counter_total = counter_element_zero,
     counter_tcp = counter_element_zero, counter_udp = counter_element_zero, counter_icmp = counter_element_zero,
     counter_fragmented = counter_element_zero, counter_tcp_syn = counter_element_zero,
     counter_dropped = counter_element_zero, in_flows = 0, out_flows = 0\<rparr>"

datatype attack_detection_source_t = Automatic | Manual | Other_source

datatype attack_severity_t = ATTACK_SEVERITY_LOW | ATTACK_SEVERITY_MIDDLE | ATTACK_SEVERITY_HIGH

datatype attack_detection_direction_type_t = direction_unknown | direction_incoming | direction_outgoing

datatype attack_detection_threshold_type_t =
  threshold_unknown | packets_per_second | bytes_per_second | flows_per_second
| tcp_packets_per_second | udp_packets_per_second | icmp_packets_per_second
| tcp_bytes_per_second | udp_bytes_per_second | icmp_bytes_per_second
| tcp_syn_packets_per_second | tcp_syn_bytes_per_second
| ip_fragments_packets_per_second | ip_fragments_bytes_per_second

text \<open>Of \<^verbatim>\<open>attack_details_t\<close> only the dump of the attack's packets is left out.\<close>

record attack_details_t =
  host_group :: string
  parent_host_group :: string
  attack_direction :: direction_t
  attack_power :: u64
  max_attack_power :: u64
  attack_protocol :: u32
  traffic_counters :: subnet_counter_t
  ban_timestamp :: int
  unban_enabled :: bool
  ban_time :: int
  ipv6 :: bool
  customer_network :: subnet_cidr_mask_t
  attack_detection_source :: attack_detection_source_t
  attack_uuid :: bytes
  attack_severity :: attack_severity_t
  attack_detection_threshold :: attack_detection_threshold_type_t
  attack_detection_direction :: attack_detection_direction_type_t

definition attack_details_default :: attack_details_t where
  "attack_details_default = \<lparr>host_group = [], parent_host_group = [], attack_direction = OTHER,
     attack_power = 0, max_attack_power = 0, attack_protocol = 0, traffic_counters = subnet_counter_default,
     ban_timestamp = 0, unban_enabled = True, ban_time = 0, ipv6 = False, customer_network = subnet_cidr_mask 0 0,
     attack_detection_source = Automatic, attack_uuid = replicate 16 0, attack_severity = ATTACK_SEVERITY_MIDDLE,
     attack_detection_threshold = threshold_unknown, attack_detection_direction = direction_unknown\<rparr>"

definition get_protocol_name :: "attack_details_t \<Rightarrow> string" where
  "get_protocol_name a = (if ipv6 a then ''IPv6'' else ''IPv4'')"

section \<open>FlowSpec rules\<close>

record flow_spec_tcp_flagset_t =
  syn_flag :: bool
  ack_flag :: bool
  fin_flag :: bool
  psh_flag :: bool
  rst_flag :: bool
  urg_flag :: bool

definition flagset_empty :: flow_spec_tcp_flagset_t where
  "flagset_empty = \<lparr>syn_flag = False, ack_flag = False, fin_flag = False, psh_flag = False,
     rst_flag = False, urg_flag = False\<rparr>"

definition we_have_least_one_flag_enabled :: "flow_spec_tcp_flagset_t \<Rightarrow> bool" where
  "we_have_least_one_flag_enabled f \<longleftrightarrow>
     syn_flag f \<or> fin_flag f \<or> urg_flag f \<or> ack_flag f \<or> psh_flag f \<or> rst_flag f"

datatype flow_spec_fragmentation_types_t =
  FLOW_SPEC_DONT_FRAGMENT | FLOW_SPEC_IS_A_FRAGMENT | FLOW_SPEC_FIRST_FRAGMENT
| FLOW_SPEC_LAST_FRAGMENT | FLOW_SPEC_NOT_A_FRAGMENT

datatype bgp_flow_spec_action_types_t =
  FLOW_SPEC_ACTION_DISCARD | FLOW_SPEC_ACTION_ACCEPT | FLOW_SPEC_ACTION_RATE_LIMIT
| FLOW_SPEC_ACTION_REDIRECT | FLOW_SPEC_ACTION_REDIRECT_VRF | FLOW_SPEC_ACTION_MARK

record bgp_flow_spec_action_t =
  action_type :: bgp_flow_spec_action_types_t
  rate_limit :: u32
  redirect_as :: u16
  redirect_value :: u32
  redirect_rt_as :: u32
  redirect_rt_value :: u32

definition action_default :: bgp_flow_spec_action_t where
  "action_default = \<lparr>action_type = FLOW_SPEC_ACTION_ACCEPT, rate_limit = 0, redirect_as = 0,
     redirect_value = 0, redirect_rt_as = 0, redirect_rt_value = 0\<rparr>"

record flow_spec_rule_t =
  source_subnet_ipv4 :: subnet_cidr_mask_t
  source_subnet_ipv4_used :: bool
  source_subnet_ipv6 :: subnet_ipv6_cidr_mask_t
  source_subnet_ipv6_used :: bool
  destination_subnet_ipv4 :: subnet_cidr_mask_t
  destination_subnet_ipv4_used :: bool
  destination_subnet_ipv6 :: subnet_ipv6_cidr_mask_t
  destination_subnet_ipv6_used :: bool
  agent_addresses :: "u32 list"
  source_ports :: "u16 list"
  destination_ports :: "u16 list"
  packet_lengths :: "u16 list"
  vlans :: "u16 list"
  ttls :: "u8 list"
  source_asns :: "u32 list"
  destination_asns :: "u32 list"
  input_interfaces :: "u32 list"
  output_interfaces :: "u32 list"
  ipv4_nexthops :: "u32 list"
  protocols :: "ip_protocol_t list"
  fragmentation_flags :: "flow_spec_fragmentation_types_t list"
  tcp_flags :: "flow_spec_tcp_flagset_t list"
  set_match_bit_for_tcp_flags :: bool
  set_match_bit_for_fragmentation_flags :: bool
  action :: bgp_flow_spec_action_t
  announce_uuid :: bytes

definition flow_spec_rule_default :: flow_spec_rule_t where
  "flow_spec_rule_default =
     \<lparr>source_subnet_ipv4 = subnet_cidr_mask 0 0, source_subnet_ipv4_used = False,
      source_subnet_ipv6 = subnet_ipv6_default, source_subnet_ipv6_used = False,
      destination_subnet_ipv4 = subnet_cidr_mask 0 0, destination_subnet_ipv4_used = False,
      destination_subnet_ipv6 = subnet_ipv6_default, destination_subnet_ipv6_used = False,
      agent_addresses = [], source_ports = [], destination_ports = [], packet_lengths = [],
      vlans = [], ttls = [], source_asns = [], destination_asns = [], input_interfaces = [],
      output_interfaces = [], ipv4_nexthops = [], protocols = [], fragmentation_flags = [],
      tcp_flags = [], set_match_bit_for_tcp_flags = False,
      set_match_bit_for_fragmentation_flags = False, action = action_default,
      announce_uuid = replicate 16 0\<rparr>"

subsection \<open>Setters\<close>

definition set_source_subnet_ipv4 :: "subnet_cidr_mask_t \<Rightarrow> flow_spec_rule_t \<Rightarrow> flow_spec_rule_t" where
  "set_source_subnet_ipv4 s r = r\<lparr>source_subnet_ipv4 := s, source_subnet_ipv4_used := True\<rparr>"

definition set_source_subnet_ipv6 :: "subnet_ipv6_cidr_mask_t \<Rightarrow> flow_spec_rule_t \<Rightarrow> flow_spec_rule_t" where
  "set_source_subnet_ipv6 s r = r\<lparr>source_subnet_ipv6 := s, source_subnet_ipv6_used := True\<rparr>"

definition set_destination_subnet_ipv4 :: "subnet_cidr_mask_t \<Rightarrow> flow_spec_rule_t \<Rightarrow> flow_spec_rule_t" where
  "set_destination_subnet_ipv4 s r =
     r\<lparr>destination_subnet_ipv4 := s, destination_subnet_ipv4_used := True\<rparr>"

definition set_destination_subnet_ipv6 :: "subnet_ipv6_cidr_mask_t \<Rightarrow> flow_spec_rule_t \<Rightarrow> flow_spec_rule_t" where
  "set_destination_subnet_ipv6 s r =
     r\<lparr>destination_subnet_ipv6 := s, destination_subnet_ipv6_used := True\<rparr>"

definition add_source_port :: "u16 \<Rightarrow> flow_spec_rule_t \<Rightarrow> flow_spec_rule_t" where
  "add_source_port p r = r\<lparr>source_ports := source_ports r @ [p]\<rparr>"

definition add_destination_port :: "u16 \<Rightarrow> flow_spec_rule_t \<Rightarrow> flow_spec_rule_t" where
  "add_destination_port p r = r\<lparr>destination_ports := destination_ports r @ [p]\<rparr>"

definition add_packet_length :: "u16 \<Rightarrow> flow_spec_rule_t \<Rightarrow> flow_spec_rule_t" where
  "add_packet_length n r = r\<lparr>packet_lengths := packet_lengths r @ [n]\<rparr>"

definition add_ipv4_nexthop :: "u32 \<Rightarrow> flow_spec_rule_t \<Rightarrow> flow_spec_rule_t" where
  "add_ipv4_nexthop ip r = r\<lparr>ipv4_nexthops := ipv4_nexthops r @ [ip]\<rparr>"

definition add_protocol :: "ip_protocol_t \<Rightarrow> flow_spec_rule_t \<Rightarrow> flow_spec_rule_t" where
  "add_protocol p r = r\<lparr>protocols := protocols r @ [p]\<rparr>"

definition add_fragmentation_flag :: "flow_spec_fragmentation_types_t \<Rightarrow> flow_spec_rule_t \<Rightarrow> flow_spec_rule_t" where
  "add_fragmentation_flag f r = r\<lparr>fragmentation_flags := fragmentation_flags r @ [f]\<rparr>"

definition add_tcp_flagset :: "flow_spec_tcp_flagset_t \<Rightarrow> flow_spec_rule_t \<Rightarrow> flow_spec_rule_t" where
  "add_tcp_flagset f r = r\<lparr>tcp_flags := tcp_flags r @ [f]\<rparr>"

definition set_action :: "bgp_flow_spec_action_t \<Rightarrow> flow_spec_rule_t \<Rightarrow> flow_spec_rule_t" where
  "set_action a r = r\<lparr>action := a\<rparr>"

lemmas rule_setters =
  set_source_subnet_ipv4_def set_source_subnet_ipv6_def set_destination_subnet_ipv4_def
  set_destination_subnet_ipv6_def add_source_port_def add_destination_port_def
  add_packet_length_def add_ipv4_nexthop_def add_protocol_def add_fragmentation_flag_def
  add_tcp_flagset_def set_action_def

end
