(* ===== verification/Ordered_Map.thy ===== *)
theory Ordered_Map
  imports Fnm_Prelude
begin

text \<open>
  The \<^verbatim>\<open>std::map\<close> of the sources: the entries in ascending key order, which is the order the
  range-based loops of the program visit them in. The locale states what the components rely on;
  the interpretation at the end discharges it for the model.
\<close>

section \<open>The model\<close>

type_synonym ('k, 'v) std_map = "('k \<times> 'v) list"

text \<open>\<^verbatim>\<open>find\<close>/\<^verbatim>\<open>count\<close>\<close>

definition map_find :: "('k, 'v) std_map \<Rightarrow> 'k \<Rightarrow> 'v option" where
  "map_find m k = map_of m k"

text \<open>\<^verbatim>\<open>operator[]\<close> used for assignment, which overwrites\<close>

fun map_put :: "'k::linorder \<Rightarrow> 'v \<Rightarrow> ('k, 'v) std_map \<Rightarrow> ('k, 'v) std_map" where
  "map_put k v [] = [(k, v)]"
| "map_put k v (e # m) =
     (if fst e < k then e # map_put k v m
      else if fst e = k then (k, v) # m
      else (k, v) # e # m)"

text \<open>\<^verbatim>\<open>emplace\<close>, which keeps an existing entry\<close>

definition map_emplace :: "'k::linorder \<Rightarrow> 'v \<Rightarrow> ('k, 'v) std_map \<Rightarrow> ('k, 'v) std_map" where
  "map_emplace k v m = (if map_find m k = None then map_put k v m else m)"

text \<open>\<^verbatim>\<open>erase\<close> of a key\<close>

definition map_erase :: "'k \<Rightarrow> ('k, 'v) std_map \<Rightarrow> ('k, 'v) std_map" where
  "map_erase k m = filter (\<lambda>e. fst e \<noteq> k) m"

text \<open>An in-place update of the mapped values while iterating over the map\<close>

definition map_adjust :: "('k \<Rightarrow> 'v \<Rightarrow> 'v) \<Rightarrow> ('k, 'v) std_map \<Rightarrow> ('k, 'v) std_map" where
  "map_adjust f m = map (\<lambda>(k, v). (k, f k v)) m"

definition ordered :: "('k::linorder, 'v) std_map \<Rightarrow> bool" where
  "ordered m \<longleftrightarrow> sorted_wrt (<) (map fst m)"

section \<open>The interface\<close>

locale ordered_map =
  fixes find :: "'m \<Rightarrow> 'k::linorder \<Rightarrow> 'v option"
    and put :: "'k \<Rightarrow> 'v \<Rightarrow> 'm \<Rightarrow> 'm"
    and emplace :: "'k \<Rightarrow> 'v \<Rightarrow> 'm \<Rightarrow> 'm"
    and erase :: "'k \<Rightarrow> 'm \<Rightarrow> 'm"
    and entries :: "'m \<Rightarrow> ('k \<times> 'v) list"
    and invar :: "'m \<Rightarrow> bool"
  assumes find_put: "invar m \<Longrightarrow> find (put k v m) k' = (if k' = k then Some v else find m k')"
    and find_emplace: "invar m \<Longrightarrow> find (emplace k v m) k' =
        (if k' = k \<and> find m k = None then Some v else find m k')"
    and find_erase: "invar m \<Longrightarrow> find (erase k m) k' = (if k' = k then None else find m k')"
    and entries_find: "invar m \<Longrightarrow> (k, v) \<in> set (entries m) \<longleftrightarrow> find m k = Some v"
    and entries_order: "invar m \<Longrightarrow> sorted_wrt (<) (map fst (entries m))"
    and invar_put: "invar m \<Longrightarrow> invar (put k v m)"
    and invar_emplace: "invar m \<Longrightarrow> invar (emplace k v m)"
    and invar_erase: "invar m \<Longrightarrow> invar (erase k m)"
begin

lemma keys_find: "invar m \<Longrightarrow> k \<in> fst ` set (entries m) \<longleftrightarrow> find m k \<noteq> None"
  using entries_find by force

lemma distinct_keys: "invar m \<Longrightarrow> distinct (map fst (entries m))"
  using entries_order strict_sorted_iff by blast

lemma size_entries: "invar m \<Longrightarrow> length (entries m) = card {k. find m k \<noteq> None}"
proof -
  assume inv: "invar m"
  then have "{k. find m k \<noteq> None} = set (map fst (entries m))"
    using keys_find by auto
  with distinct_keys [OF inv] show ?thesis
    by (metis distinct_card length_map)
qed

lemma invar_fold_emplace: "invar m \<Longrightarrow> invar (fold (\<lambda>e. emplace (fst e) (snd e)) es m)"
  by (induction es arbitrary: m) (auto intro: invar_emplace)

lemma find_fold_emplace:
  "invar m \<Longrightarrow> find (fold (\<lambda>e. emplace (fst e) (snd e)) es m) k =
     (if find m k = None then map_of es k else find m k)"
  by (induction es arbitrary: m) (auto simp: find_emplace invar_emplace)

end

section \<open>The model satisfies the interface\<close>

lemma ordered_Nil [simp]: "ordered []"
  by (simp add: ordered_def)

lemma ordered_Cons [simp]: "ordered (e # m) \<longleftrightarrow> (\<forall>e' \<in> set m. fst e < fst e') \<and> ordered m"
  by (auto simp: ordered_def)

lemma map_find_Nil [simp]: "map_find [] k = None"
  by (simp add: map_find_def)

lemma map_find_Cons [simp]:
  "map_find (e # m) k = (if k = fst e then Some (snd e) else map_find m k)"
  by (cases e) (auto simp: map_find_def)

lemma map_find_above: "\<forall>e \<in> set m. (k :: 'k::linorder) < fst e \<Longrightarrow> map_find m k = None"
  by (induction m) auto

lemma map_find_mem: "map_find m k = Some v \<Longrightarrow> (k, v) \<in> set m"
  unfolding map_find_def by (rule map_of_SomeD)

lemma map_find_put: "ordered m \<Longrightarrow>
    map_find (map_put k v m) k' = (if k' = k then Some v else map_find m k')"
  by (induction m) (auto simp: map_find_above)

lemma set_map_put: "e \<in> set (map_put k v m) \<Longrightarrow> e = (k, v) \<or> e \<in> set m"
  by (induction m) (auto split: if_splits)

lemma ordered_map_put: "ordered m \<Longrightarrow> ordered (map_put k v m)"
proof (induction m)
  case (Cons e m)
  have "fst e < k \<Longrightarrow> e' \<in> set (map_put k v m) \<Longrightarrow> fst e < fst e'" for e'
    using set_map_put [of e' k v m] Cons.prems by auto
  with Cons show ?case
    by (auto simp: neq_iff intro: less_trans)
qed simp

lemma map_find_filter_key: "map_find (filter (\<lambda>e. P (fst e)) m) k = (if P k then map_find m k else None)"
  by (induction m) auto

lemma map_find_erase: "map_find (map_erase k m) k' = (if k' = k then None else map_find m k')"
  by (induction m) (auto simp: map_erase_def)

lemma ordered_filter: "ordered m \<Longrightarrow> ordered (filter P m)"
  by (induction m) auto

lemma ordered_find_mem: "ordered m \<Longrightarrow> (k, v) \<in> set m \<longleftrightarrow> map_find m k = Some v"
  by (induction m) auto

lemma map_find_adjust: "map_find (map_adjust f m) k = map_option (f k) (map_find m k)"
  by (induction m) (auto simp: map_adjust_def)

lemma ordered_adjust: "ordered (map_adjust f m) \<longleftrightarrow> ordered m"
  by (induction m) (auto simp: map_adjust_def)

lemma length_map_adjust [simp]: "length (map_adjust f m) = length m"
  by (simp add: map_adjust_def)

lemma map_find_emplace: "ordered m \<Longrightarrow> map_find (map_emplace k v m) k' =
    (if k' = k \<and> map_find m k = None then Some v else map_find m k')"
  by (auto simp: map_emplace_def map_find_put)

lemma ordered_emplace: "ordered m \<Longrightarrow> ordered (map_emplace k v m)"
  by (simp add: map_emplace_def ordered_map_put)

lemma ordered_erase: "ordered m \<Longrightarrow> ordered (map_erase k m)"
  by (simp add: map_erase_def ordered_filter)

interpretation std: ordered_map map_find map_put map_emplace map_erase "\<lambda>m. m" ordered
proof unfold_locales
  show "sorted_wrt (<) (map fst m)" if "ordered m" for m :: "('k::linorder \<times> 'v) list"
    using that by (simp add: ordered_def)
qed (simp_all add: map_find_put map_find_emplace map_find_erase ordered_find_mem
    ordered_map_put ordered_emplace ordered_erase)

lemmas map_model_laws [map_laws] =
  map_find_put map_find_emplace map_find_erase map_find_adjust
  ordered_map_put ordered_emplace ordered_erase ordered_adjust

end
