(* ===== verification/Reachability.thy ===== *)
theory Reachability
  imports Main
begin

text \<open>
  Reachable states of a step relation and the interface every stateful component of the
  development is verified through: an invariant that holds initially and that every step keeps.
\<close>

inductive reach :: "('s \<Rightarrow> bool) \<Rightarrow> ('s \<Rightarrow> 's \<Rightarrow> bool) \<Rightarrow> 's \<Rightarrow> bool"
  for init :: "'s \<Rightarrow> bool" and step :: "'s \<Rightarrow> 's \<Rightarrow> bool" where
  reach_init: "init s \<Longrightarrow> reach init step s"
| reach_step: "reach init step s \<Longrightarrow> step s t \<Longrightarrow> reach init step t"

locale invariant_system =
  fixes init :: "'s \<Rightarrow> bool" and step :: "'s \<Rightarrow> 's \<Rightarrow> bool" and inv :: "'s \<Rightarrow> bool"
  assumes inv_init: "init s \<Longrightarrow> inv s"
    and inv_step: "inv s \<Longrightarrow> step s t \<Longrightarrow> inv t"
begin

lemma inv_reach: "reach init step s \<Longrightarrow> inv s"
  by (induction rule: reach.induct) (auto intro: inv_init inv_step)

lemma inv_steps: "step\<^sup>*\<^sup>* s t \<Longrightarrow> inv s \<Longrightarrow> inv t"
  by (induction rule: rtranclp_induct) (auto intro: inv_step)

end

text \<open>A deterministic component: operations applied one after the other.\<close>

definition run_ops :: "('op \<Rightarrow> 's \<Rightarrow> 's) \<Rightarrow> 'op list \<Rightarrow> 's \<Rightarrow> 's" where
  "run_ops app ops s = fold app ops s"

locale invariant_ops =
  fixes start :: 's and app :: "'op \<Rightarrow> 's \<Rightarrow> 's" and inv :: "'s \<Rightarrow> bool" and legal :: "'op \<Rightarrow> bool"
  assumes inv_start: "inv start"
    and inv_app: "inv s \<Longrightarrow> legal a \<Longrightarrow> inv (app a s)"
begin

lemma inv_run_from: "inv s \<Longrightarrow> list_all legal ops \<Longrightarrow> inv (run_ops app ops s)"
  by (induction ops arbitrary: s) (auto simp: run_ops_def intro: inv_app)

lemma inv_run: "list_all legal ops \<Longrightarrow> inv (run_ops app ops start)"
  using inv_run_from inv_start by blast

end

text \<open>Operations that do what the operations of a more abstract component do.\<close>

locale refining_ops = invariant_ops start app inv legal
  for start :: 's and app :: "'op \<Rightarrow> 's \<Rightarrow> 's" and inv :: "'s \<Rightarrow> bool" and legal :: "'op \<Rightarrow> bool" +
  fixes abs :: "'s \<Rightarrow> 'a" and spec_start :: 'a and spec_app :: "'op \<Rightarrow> 'a \<Rightarrow> 'a"
  assumes abs_start: "abs start = spec_start"
    and abs_app: "inv s \<Longrightarrow> legal a \<Longrightarrow> abs (app a s) = spec_app a (abs s)"
begin

lemma abs_run_from: "inv s \<Longrightarrow> list_all legal ops \<Longrightarrow> abs (run_ops app ops s) = run_ops spec_app ops (abs s)"
  by (induction ops arbitrary: s) (simp_all add: run_ops_def abs_app inv_app)

lemma abs_run: "list_all legal ops \<Longrightarrow> abs (run_ops app ops start) = run_ops spec_app ops spec_start"
  using abs_run_from [OF inv_start] abs_start by simp

end

end
