(* ===== verification/Lifecycle.thy ===== *)
theory Lifecycle
  imports Flow_Spec_Types Ordered_Map Reachability
begin

text \<open>
  \<^verbatim>\<open>src/actions/gobgp_flowspec_lifecycle.{hpp,cpp}\<close>: the table of FlowSpec rules announced for
  banned hosts. Each method of the class holds one mutex, so it is one atomic step on the record
  \<open>lifecycle\<close>; concurrent threads are arbitrary interleavings of these steps.
\<close>

section \<open>Rule keys\<close>

record gobgp_flowspec_rule_key_t =
  destination_ipv4 :: u32
  protocol_present :: bool
  key_protocol :: ip_protocol_t
  destination_port_present :: bool
  key_destination_port :: u16

definition rule_key_default :: gobgp_flowspec_rule_key_t where
  "rule_key_default = \<lparr>destination_ipv4 = 0, protocol_present = False, key_protocol = HOPOPT,
     destination_port_present = False, key_destination_port = 0\<rparr>"

text \<open>\<^verbatim>\<open>operator<\<close> compares the fields in declaration order with \<^verbatim>\<open>std::tie\<close>.\<close>

definition rule_key_tie ::
    "'a gobgp_flowspec_rule_key_t_scheme \<Rightarrow> u32 \<times> bool \<times> ip_protocol_t \<times> bool \<times> u16 \<times> 'a" where
  "rule_key_tie k = (destination_ipv4 k, protocol_present k, key_protocol k,
     destination_port_present k, key_destination_port k, gobgp_flowspec_rule_key_t.more k)"

lemma rule_key_tie_inj: "rule_key_tie k = rule_key_tie k' \<longleftrightarrow> k = k'"
  by (cases k; cases k') (auto simp: rule_key_tie_def)

instantiation gobgp_flowspec_rule_key_t_ext :: (linorder) linorder
begin

definition less_eq_gobgp_flowspec_rule_key_t_ext ::
    "'a gobgp_flowspec_rule_key_t_scheme \<Rightarrow> 'a gobgp_flowspec_rule_key_t_scheme \<Rightarrow> bool" where
  "less_eq_gobgp_flowspec_rule_key_t_ext k k' \<longleftrightarrow> rule_key_tie k \<le> rule_key_tie k'"

definition less_gobgp_flowspec_rule_key_t_ext ::
    "'a gobgp_flowspec_rule_key_t_scheme \<Rightarrow> 'a gobgp_flowspec_rule_key_t_scheme \<Rightarrow> bool" where
  "less_gobgp_flowspec_rule_key_t_ext k k' \<longleftrightarrow> rule_key_tie k < rule_key_tie k'"

instance
  by standard
    (auto simp: less_eq_gobgp_flowspec_rule_key_t_ext_def less_gobgp_flowspec_rule_key_t_ext_def
      rule_key_tie_inj dest: order.antisym)

end

text \<open>\<open>None\<close> where the C++ function returns \<^verbatim>\<open>false\<close>.\<close>

definition build_gobgp_flowspec_rule_key :: "flow_spec_rule_t \<Rightarrow> gobgp_flowspec_rule_key_t option" where
  "build_gobgp_flowspec_rule_key r =
     (if \<not> destination_subnet_ipv4_used r \<or> cidr_prefix_length (destination_subnet_ipv4 r) \<noteq> 32
         \<or> length (protocols r) > 1 \<or> length (destination_ports r) > 1 then None
      else
        let key = rule_key_default\<lparr>destination_ipv4 := subnet_address (destination_subnet_ipv4 r)\<rparr>;
            key = (case protocols r of [] \<Rightarrow> key
                   | p # _ \<Rightarrow> key\<lparr>protocol_present := True, key_protocol := p\<rparr>)
        in case destination_ports r of [] \<Rightarrow> Some key
           | port # _ \<Rightarrow>
               if \<not> protocol_present key then None
               else Some (key\<lparr>destination_port_present := True, key_destination_port := port\<rparr>))"

section \<open>State\<close>

datatype gobgp_flowspec_rule_state_type_t = announcing | installed | withdraw_requested | withdrawing

record gobgp_flowspec_rule_state_t =
  state :: gobgp_flowspec_rule_state_type_t
  flow_spec_rule :: flow_spec_rule_t
  add_path_uuid :: string

record lifecycle =
  rules :: "(gobgp_flowspec_rule_key_t, gobgp_flowspec_rule_state_t) std_map"
  victims_withdraw_requested :: "u32 set"
  victims_refresh_in_progress :: "u32 set"

definition lifecycle_init :: lifecycle where
  "lifecycle_init = \<lparr>rules = [], victims_withdraw_requested = {}, victims_refresh_in_progress = {}\<rparr>"

record gobgp_flowspec_withdraw_request_t =
  withdraw_key :: gobgp_flowspec_rule_key_t
  withdraw_rule :: flow_spec_rule_t
  withdraw_uuid :: string

datatype gobgp_flowspec_announce_completion_t =
  announce_installed | withdraw_required | announce_ignored

datatype gobgp_flowspec_withdraw_completion_t =
  erased | retry_pending | withdraw_ignored

record gobgp_flowspec_withdraw_start_result_t =
  withdraw_requests :: "gobgp_flowspec_withdraw_request_t list"
  deferred_rules :: "flow_spec_rule_t list"
  in_progress_rules :: "flow_spec_rule_t list"

record gobgp_flowspec_announce_request_t =
  request_key :: gobgp_flowspec_rule_key_t
  request_rule :: flow_spec_rule_t

datatype gobgp_flowspec_refresh_protocol_action_t =
  add_port_rules | escalate_protocol_only | protocol_only_covers | no_new_port_rules
| withdraw_in_progress

record gobgp_flowspec_refresh_protocol_plan_t =
  plan_action :: gobgp_flowspec_refresh_protocol_action_t
  existing_port_rule_count :: nat
  new_port_rule_count :: nat
  announce_requests :: "gobgp_flowspec_announce_request_t list"

definition plan_default :: gobgp_flowspec_refresh_protocol_plan_t where
  "plan_default = \<lparr>plan_action = no_new_port_rules, existing_port_rule_count = 0,
     new_port_rule_count = 0, announce_requests = []\<rparr>"

text \<open>The entry a successful reservation stores.\<close>

definition announcing_state :: "flow_spec_rule_t \<Rightarrow> gobgp_flowspec_rule_state_t" where
  "announcing_state r = \<lparr>state = announcing, flow_spec_rule = r, add_path_uuid = []\<rparr>"

section \<open>Operations\<close>

definition victim_has_rules_locked :: "u32 \<Rightarrow> lifecycle \<Rightarrow> bool" where
  "victim_has_rules_locked victim lc \<longleftrightarrow> list_ex (\<lambda>e. destination_ipv4 (fst e) = victim) (rules lc)"

definition clear_withdraw_fence_if_finished_locked :: "u32 \<Rightarrow> lifecycle \<Rightarrow> lifecycle" where
  "clear_withdraw_fence_if_finished_locked victim lc =
     (if victim_has_rules_locked victim lc \<or> victim \<in> victims_refresh_in_progress lc then lc
      else lc\<lparr>victims_withdraw_requested := victims_withdraw_requested lc - {victim}\<rparr>)"

definition begin_announce ::
    "gobgp_flowspec_rule_key_t \<Rightarrow> flow_spec_rule_t \<Rightarrow> lifecycle \<Rightarrow> bool \<times> lifecycle" where
  "begin_announce key r lc =
     (if destination_ipv4 key \<in> victims_withdraw_requested lc then (False, lc)
      else if map_find (rules lc) key \<noteq> None then (False, lc)
      else (True, lc\<lparr>rules := map_emplace key (announcing_state r) (rules lc)\<rparr>))"

definition begin_refresh_announce ::
    "gobgp_flowspec_rule_key_t \<Rightarrow> flow_spec_rule_t \<Rightarrow> lifecycle \<Rightarrow> bool \<times> lifecycle" where
  "begin_refresh_announce key r lc =
     (if destination_ipv4 key \<in> victims_withdraw_requested lc then (False, lc)
      else if map_find (rules lc) key \<noteq> None then (False, lc)
      else (True, lc\<lparr>rules := map_emplace key (announcing_state r) (rules lc)\<rparr>))"

definition begin_refresh_capture :: "u32 \<Rightarrow> lifecycle \<Rightarrow> bool \<times> lifecycle" where
  "begin_refresh_capture victim lc =
     (if victim \<in> victims_withdraw_requested lc \<or> victim \<in> victims_refresh_in_progress lc
      then (False, lc)
      else (True, lc\<lparr>victims_refresh_in_progress := insert victim (victims_refresh_in_progress lc)\<rparr>))"

definition complete_refresh_capture :: "u32 \<Rightarrow> lifecycle \<Rightarrow> lifecycle" where
  "complete_refresh_capture victim lc =
     lc\<lparr>victims_refresh_in_progress := victims_refresh_in_progress lc - {victim}\<rparr>"

definition finish_refresh_capture :: "u32 \<Rightarrow> lifecycle \<Rightarrow> lifecycle" where
  "finish_refresh_capture victim lc =
     clear_withdraw_fence_if_finished_locked victim
       (lc\<lparr>victims_refresh_in_progress := victims_refresh_in_progress lc - {victim}\<rparr>)"

definition fail_announce :: "gobgp_flowspec_rule_key_t \<Rightarrow> lifecycle \<Rightarrow> lifecycle" where
  "fail_announce key lc =
     (case map_find (rules lc) key of
        None \<Rightarrow> lc
      | Some st \<Rightarrow>
          if state st = announcing \<or> (state st = withdraw_requested \<and> add_path_uuid st = [])
          then clear_withdraw_fence_if_finished_locked (destination_ipv4 key)
                 (lc\<lparr>rules := map_erase key (rules lc)\<rparr>)
          else lc)"

definition complete_announce :: "gobgp_flowspec_rule_key_t \<Rightarrow> string \<Rightarrow> lifecycle
    \<Rightarrow> gobgp_flowspec_announce_completion_t \<times> lifecycle" where
  "complete_announce key uuid lc =
     (case map_find (rules lc) key of
        None \<Rightarrow> (announce_ignored, lc)
      | Some st \<Rightarrow>
          if uuid = [] then (announce_ignored, lc)
          else if state st = announcing
          then (announce_installed,
                lc\<lparr>rules := map_put key (st\<lparr>add_path_uuid := uuid, state := installed\<rparr>) (rules lc)\<rparr>)
          else if state st = withdraw_requested \<and> add_path_uuid st = []
          then (withdraw_required,
                lc\<lparr>rules := map_put key (st\<lparr>add_path_uuid := uuid, state := withdrawing\<rparr>) (rules lc)\<rparr>)
          else (announce_ignored, lc))"

text \<open>The loop of \<open>begin_withdraw_for_victim\<close> over the rules, which updates them in place.\<close>

fun withdraw_loop ::
    "u32 \<Rightarrow> (gobgp_flowspec_rule_key_t, gobgp_flowspec_rule_state_t) std_map
     \<Rightarrow> (gobgp_flowspec_rule_key_t, gobgp_flowspec_rule_state_t) std_map
        \<times> gobgp_flowspec_withdraw_start_result_t" where
  "withdraw_loop victim [] = ([], \<lparr>withdraw_requests = [], deferred_rules = [], in_progress_rules = []\<rparr>)"
| "withdraw_loop victim ((key, st) # rest) =
     (let (rest', res) = withdraw_loop victim rest in
      if destination_ipv4 key \<noteq> victim then ((key, st) # rest', res)
      else if state st = announcing
      then ((key, st\<lparr>state := withdraw_requested\<rparr>) # rest',
            res\<lparr>deferred_rules := flow_spec_rule st # deferred_rules res\<rparr>)
      else if state st = installed \<or> (state st = withdraw_requested \<and> add_path_uuid st \<noteq> [])
      then ((key, st\<lparr>state := withdrawing\<rparr>) # rest',
            res\<lparr>withdraw_requests :=
                  \<lparr>withdraw_key = key, withdraw_rule = flow_spec_rule st, withdraw_uuid = add_path_uuid st\<rparr>
                  # withdraw_requests res\<rparr>)
      else if state st = withdraw_requested
      then ((key, st) # rest', res\<lparr>deferred_rules := flow_spec_rule st # deferred_rules res\<rparr>)
      else ((key, st) # rest', res\<lparr>in_progress_rules := flow_spec_rule st # in_progress_rules res\<rparr>))"

definition begin_withdraw_for_victim ::
    "u32 \<Rightarrow> lifecycle \<Rightarrow> gobgp_flowspec_withdraw_start_result_t \<times> lifecycle" where
  "begin_withdraw_for_victim victim lc =
     (let lc = lc\<lparr>victims_withdraw_requested := insert victim (victims_withdraw_requested lc)\<rparr>;
          (rules', res) = withdraw_loop victim (rules lc)
      in (res, clear_withdraw_fence_if_finished_locked victim (lc\<lparr>rules := rules'\<rparr>)))"

definition complete_withdraw :: "gobgp_flowspec_rule_key_t \<Rightarrow> string \<Rightarrow> bool \<Rightarrow> lifecycle
    \<Rightarrow> gobgp_flowspec_withdraw_completion_t \<times> lifecycle" where
  "complete_withdraw key uuid success lc =
     (case map_find (rules lc) key of
        None \<Rightarrow> (withdraw_ignored, lc)
      | Some st \<Rightarrow>
          if state st \<noteq> withdrawing \<or> add_path_uuid st \<noteq> uuid then (withdraw_ignored, lc)
          else if success
          then (erased, clear_withdraw_fence_if_finished_locked (destination_ipv4 key)
                          (lc\<lparr>rules := map_erase key (rules lc)\<rparr>))
          else (retry_pending,
                lc\<lparr>rules := map_put key (st\<lparr>state := withdraw_requested\<rparr>) (rules lc)\<rparr>))"

text \<open>
  The first loop of \<open>begin_refresh_protocol_rules\<close>: the number of port rules of the victim and
  protocol counted so far, and whether a protocol-only rule ended the loop.
\<close>

fun existing_scan ::
    "gobgp_flowspec_rule_key_t \<Rightarrow> (gobgp_flowspec_rule_key_t, gobgp_flowspec_rule_state_t) std_map
     \<Rightarrow> nat \<Rightarrow> bool \<times> nat" where
  "existing_scan only_key [] n = (False, n)"
| "existing_scan only_key ((key, st) # rest) n =
     (if destination_ipv4 key \<noteq> destination_ipv4 only_key \<or> \<not> protocol_present key
         \<or> key_protocol key \<noteq> key_protocol only_key
      then existing_scan only_key rest n
      else if \<not> destination_port_present key then (True, n)
      else existing_scan only_key rest (Suc n))"

text \<open>Its second loop: the requested port rules that are not in the table, once per key.\<close>

fun new_port_rules ::
    "gobgp_flowspec_rule_key_t \<Rightarrow> lifecycle \<Rightarrow> gobgp_flowspec_announce_request_t list
     \<Rightarrow> (gobgp_flowspec_rule_key_t, gobgp_flowspec_announce_request_t) std_map
     \<Rightarrow> (gobgp_flowspec_rule_key_t, gobgp_flowspec_announce_request_t) std_map" where
  "new_port_rules only_key lc [] m = m"
| "new_port_rules only_key lc (req # reqs) m =
     (let key = request_key req in
      if destination_ipv4 key \<noteq> destination_ipv4 only_key \<or> \<not> protocol_present key
         \<or> key_protocol key \<noteq> key_protocol only_key \<or> \<not> destination_port_present key
      then new_port_rules only_key lc reqs m
      else if map_find (rules lc) key = None
      then new_port_rules only_key lc reqs (map_emplace key req m)
      else new_port_rules only_key lc reqs m)"

text \<open>\<^verbatim>\<open>existing + new > max_port_rules\<close> compares \<^verbatim>\<open>size_t\<close> counts with a \<^verbatim>\<open>uint64_t\<close>.\<close>

definition begin_refresh_protocol_rules ::
    "gobgp_flowspec_announce_request_t \<Rightarrow> gobgp_flowspec_announce_request_t list \<Rightarrow> u64 \<Rightarrow> lifecycle
     \<Rightarrow> gobgp_flowspec_refresh_protocol_plan_t \<times> lifecycle" where
  "begin_refresh_protocol_rules only reqs max_port_rules lc =
     (let only_key = request_key only; plan = plan_default in
      if destination_ipv4 only_key \<in> victims_withdraw_requested lc
      then (plan\<lparr>plan_action := withdraw_in_progress\<rparr>, lc)
      else
        let (covered, n) = existing_scan only_key (rules lc) 0;
            plan = plan\<lparr>existing_port_rule_count := n\<rparr>
        in if covered then (plan\<lparr>plan_action := protocol_only_covers\<rparr>, lc)
        else
          let fresh = new_port_rules only_key lc reqs [];
              plan = plan\<lparr>new_port_rule_count := length fresh\<rparr>
          in if fresh = [] then (plan\<lparr>plan_action := no_new_port_rules\<rparr>, lc)
          else if n + length fresh > unat max_port_rules
          then (plan\<lparr>plan_action := escalate_protocol_only, announce_requests := [only]\<rparr>,
                lc\<lparr>rules := map_emplace only_key (announcing_state (request_rule only)) (rules lc)\<rparr>)
          else (plan\<lparr>plan_action := add_port_rules, announce_requests := map snd fresh\<rparr>,
                lc\<lparr>rules := fold (\<lambda>e. map_emplace (fst e) (announcing_state (request_rule (snd e))))
                                fresh (rules lc)\<rparr>))"

text \<open>The loop of \<open>begin_protocol_only_escalation_cleanup\<close> over the rules.\<close>

fun cleanup_loop ::
    "gobgp_flowspec_rule_key_t \<Rightarrow> (gobgp_flowspec_rule_key_t, gobgp_flowspec_rule_state_t) std_map
     \<Rightarrow> (gobgp_flowspec_rule_key_t, gobgp_flowspec_rule_state_t) std_map
        \<times> gobgp_flowspec_withdraw_request_t list" where
  "cleanup_loop only_key [] = ([], [])"
| "cleanup_loop only_key ((key, st) # rest) =
     (let (rest', reqs) = cleanup_loop only_key rest in
      if destination_ipv4 key \<noteq> destination_ipv4 only_key \<or> \<not> protocol_present key
         \<or> key_protocol key \<noteq> key_protocol only_key \<or> \<not> destination_port_present key
      then ((key, st) # rest', reqs)
      else if state st = announcing then ((key, st\<lparr>state := withdraw_requested\<rparr>) # rest', reqs)
      else if state st = installed \<or> (state st = withdraw_requested \<and> add_path_uuid st \<noteq> [])
      then ((key, st\<lparr>state := withdrawing\<rparr>) # rest',
            \<lparr>withdraw_key = key, withdraw_rule = flow_spec_rule st, withdraw_uuid = add_path_uuid st\<rparr> # reqs)
      else ((key, st) # rest', reqs))"

definition begin_protocol_only_escalation_cleanup ::
    "gobgp_flowspec_rule_key_t \<Rightarrow> lifecycle \<Rightarrow> gobgp_flowspec_withdraw_request_t list \<times> lifecycle" where
  "begin_protocol_only_escalation_cleanup only_key lc =
     (case map_find (rules lc) only_key of
        None \<Rightarrow> ([], lc)
      | Some st \<Rightarrow>
          if state st \<noteq> installed \<or> destination_ipv4 only_key \<in> victims_withdraw_requested lc
          then ([], lc)
          else let (rules', reqs) = cleanup_loop only_key (rules lc)
               in (reqs, lc\<lparr>rules := rules'\<rparr>))"

definition get_state :: "gobgp_flowspec_rule_key_t \<Rightarrow> lifecycle
    \<Rightarrow> (gobgp_flowspec_rule_state_type_t \<times> string) option" where
  "get_state key lc =
     (case map_find (rules lc) key of None \<Rightarrow> None | Some st \<Rightarrow> Some (state st, add_path_uuid st))"

definition lifecycle_size :: "lifecycle \<Rightarrow> nat" where
  "lifecycle_size lc = length (rules lc)"

section \<open>The loops as updates of the table\<close>

definition withdraw_next :: "u32 \<Rightarrow> gobgp_flowspec_rule_key_t \<Rightarrow> gobgp_flowspec_rule_state_t
    \<Rightarrow> gobgp_flowspec_rule_state_t" where
  "withdraw_next victim key st =
     (if destination_ipv4 key \<noteq> victim then st
      else if state st = announcing then st\<lparr>state := withdraw_requested\<rparr>
      else if state st = installed \<or> (state st = withdraw_requested \<and> add_path_uuid st \<noteq> [])
      then st\<lparr>state := withdrawing\<rparr> else st)"

definition same_protocol :: "gobgp_flowspec_rule_key_t \<Rightarrow> gobgp_flowspec_rule_key_t \<Rightarrow> bool" where
  "same_protocol only_key key \<longleftrightarrow> destination_ipv4 key = destination_ipv4 only_key
     \<and> protocol_present key \<and> key_protocol key = key_protocol only_key"

definition cleanup_next :: "gobgp_flowspec_rule_key_t \<Rightarrow> gobgp_flowspec_rule_key_t
    \<Rightarrow> gobgp_flowspec_rule_state_t \<Rightarrow> gobgp_flowspec_rule_state_t" where
  "cleanup_next only_key key st =
     (if \<not> same_protocol only_key key \<or> \<not> destination_port_present key then st
      else if state st = announcing then st\<lparr>state := withdraw_requested\<rparr>
      else if state st = installed \<or> (state st = withdraw_requested \<and> add_path_uuid st \<noteq> [])
      then st\<lparr>state := withdrawing\<rparr> else st)"

text \<open>The request a rule yields when its path is to be deleted now.\<close>

definition deletable :: "gobgp_flowspec_rule_state_t \<Rightarrow> bool" where
  "deletable st \<longleftrightarrow> state st = installed \<or> (state st = withdraw_requested \<and> add_path_uuid st \<noteq> [])"

definition request_of :: "gobgp_flowspec_rule_key_t \<times> gobgp_flowspec_rule_state_t
    \<Rightarrow> gobgp_flowspec_withdraw_request_t" where
  "request_of e = \<lparr>withdraw_key = fst e, withdraw_rule = flow_spec_rule (snd e),
     withdraw_uuid = add_path_uuid (snd e)\<rparr>"

lemma withdraw_loop_rules: "fst (withdraw_loop victim m) = map_adjust (withdraw_next victim) m"
  by (induction victim m rule: withdraw_loop.induct)
    (auto simp: map_adjust_def withdraw_next_def Let_def split: prod.splits)

lemma withdraw_loop_requests:
  "withdraw_requests (snd (withdraw_loop victim m)) =
     map request_of (filter (\<lambda>e. destination_ipv4 (fst e) = victim \<and> deletable (snd e)) m)"
  by (induction victim m rule: withdraw_loop.induct)
    (auto simp: request_of_def deletable_def Let_def split: prod.splits)

lemma withdraw_loop_deferred:
  "deferred_rules (snd (withdraw_loop victim m)) =
     map (flow_spec_rule \<circ> snd) (filter (\<lambda>e. destination_ipv4 (fst e) = victim
        \<and> (state (snd e) = announcing \<or> (state (snd e) = withdraw_requested \<and> add_path_uuid (snd e) = []))) m)"
proof (induction victim m rule: withdraw_loop.induct)
  case (2 victim key st rest)
  then show ?case
    by (cases "state st") (auto simp: Let_def split: prod.splits)
qed simp

lemma cleanup_loop_rules: "fst (cleanup_loop only_key m) = map_adjust (cleanup_next only_key) m"
  by (induction only_key m rule: cleanup_loop.induct)
    (auto simp: map_adjust_def cleanup_next_def same_protocol_def Let_def split: prod.splits)

lemma cleanup_loop_requests:
  "snd (cleanup_loop only_key m) = map request_of (filter (\<lambda>e. same_protocol only_key (fst e)
      \<and> destination_port_present (fst e) \<and> deletable (snd e)) m)"
  by (induction only_key m rule: cleanup_loop.induct)
    (auto simp: request_of_def deletable_def same_protocol_def Let_def split: prod.splits)

lemma begin_withdraw_eq:
  "begin_withdraw_for_victim victim lc =
     (snd (withdraw_loop victim (rules lc)),
      clear_withdraw_fence_if_finished_locked victim
        (lc\<lparr>rules := map_adjust (withdraw_next victim) (rules lc),
            victims_withdraw_requested := insert victim (victims_withdraw_requested lc)\<rparr>))"
  by (cases lc) (simp add: begin_withdraw_for_victim_def Let_def withdraw_loop_rules [symmetric] split: prod.split)

lemma cleanup_eq:
  "begin_protocol_only_escalation_cleanup only_key lc =
     (if (\<exists>st. map_find (rules lc) only_key = Some st \<and> state st = installed)
         \<and> destination_ipv4 only_key \<notin> victims_withdraw_requested lc
      then (snd (cleanup_loop only_key (rules lc)),
            lc\<lparr>rules := map_adjust (cleanup_next only_key) (rules lc)\<rparr>)
      else ([], lc))"
  by (auto simp: begin_protocol_only_escalation_cleanup_def cleanup_loop_rules [symmetric]
      split: option.splits prod.splits)

lemma clear_fence_simps [simp]:
  "rules (clear_withdraw_fence_if_finished_locked v lc) = rules lc"
  "victims_refresh_in_progress (clear_withdraw_fence_if_finished_locked v lc) = victims_refresh_in_progress lc"
  by (simp_all add: clear_withdraw_fence_if_finished_locked_def)

lemma clear_fence_subset:
  "victims_withdraw_requested (clear_withdraw_fence_if_finished_locked v lc) \<subseteq> victims_withdraw_requested lc"
  by (auto simp: clear_withdraw_fence_if_finished_locked_def)

section \<open>Invariants\<close>

text \<open>
  The UUID of a rule is known exactly from the moment its AddPath is confirmed; a rule of a
  victim whose withdrawal was requested is on its way out.
\<close>

definition uuid_ok :: "gobgp_flowspec_rule_state_t \<Rightarrow> bool" where
  "uuid_ok st \<longleftrightarrow> (state st = announcing \<longrightarrow> add_path_uuid st = [])
     \<and> (state st = installed \<or> state st = withdrawing \<longrightarrow> add_path_uuid st \<noteq> [])"

definition leaving :: "gobgp_flowspec_rule_state_t \<Rightarrow> bool" where
  "leaving st \<longleftrightarrow> state st = withdraw_requested \<or> state st = withdrawing"

definition lifecycle_wf :: "lifecycle \<Rightarrow> bool" where
  "lifecycle_wf lc \<longleftrightarrow> ordered (rules lc)
     \<and> (\<forall>k st. map_find (rules lc) k = Some st \<longrightarrow> uuid_ok st
           \<and> (destination_ipv4 k \<in> victims_withdraw_requested lc \<longrightarrow> leaving st))"

text \<open>A withdrawal fence is only kept while something still has to happen for the victim.\<close>

definition fence_live :: "lifecycle \<Rightarrow> bool" where
  "fence_live lc \<longleftrightarrow> (\<forall>v \<in> victims_withdraw_requested lc.
      victim_has_rules_locked v lc \<or> v \<in> victims_refresh_in_progress lc)"

lemma lifecycle_wfI:
  assumes "ordered (rules lc)"
    and "\<And>k st. map_find (rules lc) k = Some st \<Longrightarrow> uuid_ok st"
    and "\<And>k st. map_find (rules lc) k = Some st \<Longrightarrow> destination_ipv4 k \<in> victims_withdraw_requested lc
        \<Longrightarrow> leaving st"
  shows "lifecycle_wf lc"
  using assms by (auto simp: lifecycle_wf_def)

lemma lifecycle_wfD:
  assumes "lifecycle_wf lc"
  shows "ordered (rules lc)"
    and "map_find (rules lc) k = Some st \<Longrightarrow> uuid_ok st"
    and "map_find (rules lc) k = Some st \<Longrightarrow> destination_ipv4 k \<in> victims_withdraw_requested lc \<Longrightarrow> leaving st"
  using assms by (auto simp: lifecycle_wf_def)

lemma victim_has_rules_find:
  "ordered (rules lc) \<Longrightarrow> victim_has_rules_locked v lc \<longleftrightarrow>
     (\<exists>k. map_find (rules lc) k \<noteq> None \<and> destination_ipv4 k = v)"
proof -
  assume ord: "ordered (rules lc)"
  have "victim_has_rules_locked v lc \<longleftrightarrow> (\<exists>k st. (k, st) \<in> set (rules lc) \<and> destination_ipv4 k = v)"
    by (force simp: victim_has_rules_locked_def list_ex_iff)
  then show ?thesis
    using ordered_find_mem [OF ord] by auto
qed

lemma wf_clear_fence: "lifecycle_wf lc \<Longrightarrow> lifecycle_wf (clear_withdraw_fence_if_finished_locked v lc)"
  using clear_fence_subset [of v lc] by (auto simp: lifecycle_wf_def)

lemma wf_refresh_set: "lifecycle_wf (lc\<lparr>victims_refresh_in_progress := R\<rparr>) = lifecycle_wf lc"
  by (simp add: lifecycle_wf_def)

lemma wf_erase: "lifecycle_wf lc \<Longrightarrow> lifecycle_wf (lc\<lparr>rules := map_erase k (rules lc)\<rparr>)"
  by (auto simp: lifecycle_wf_def map_laws)

lemma wf_emplace:
  "lifecycle_wf lc \<Longrightarrow> destination_ipv4 k \<notin> victims_withdraw_requested lc \<Longrightarrow>
     lifecycle_wf (lc\<lparr>rules := map_emplace k (announcing_state r) (rules lc)\<rparr>)"
  by (auto simp: lifecycle_wf_def map_laws uuid_ok_def announcing_state_def split: if_splits)

lemma wf_put:
  "lifecycle_wf lc \<Longrightarrow> uuid_ok st \<Longrightarrow> destination_ipv4 k \<notin> victims_withdraw_requested lc \<or> leaving st \<Longrightarrow>
     lifecycle_wf (lc\<lparr>rules := map_put k st (rules lc)\<rparr>)"
  by (auto simp: lifecycle_wf_def map_laws split: if_splits)

lemma wf_adjust:
  assumes "lifecycle_wf lc"
    and "\<And>k st. map_find (rules lc) k = Some st \<Longrightarrow> uuid_ok (f k st)"
    and "\<And>k st. map_find (rules lc) k = Some st \<Longrightarrow> leaving st \<Longrightarrow> leaving (f k st)"
  shows "lifecycle_wf (lc\<lparr>rules := map_adjust f (rules lc)\<rparr>)"
  using assms by (auto simp: lifecycle_wf_def map_laws)

lemma uuid_ok_withdraw_next: "uuid_ok st \<Longrightarrow> uuid_ok (withdraw_next v k st)"
  by (auto simp: uuid_ok_def withdraw_next_def)

lemma uuid_ok_cleanup_next: "uuid_ok st \<Longrightarrow> uuid_ok (cleanup_next only k st)"
  by (auto simp: uuid_ok_def cleanup_next_def)

lemma leaving_withdraw_next: "leaving st \<or> destination_ipv4 k = v \<Longrightarrow> leaving (withdraw_next v k st)"
  by (cases "state st") (auto simp: leaving_def withdraw_next_def)

lemma leaving_cleanup_next: "leaving st \<Longrightarrow> leaving (cleanup_next only k st)"
  by (auto simp: leaving_def cleanup_next_def)

lemma wf_fence_insert:
  "lifecycle_wf lc \<Longrightarrow> (\<And>k st. map_find (rules lc) k = Some st \<Longrightarrow> destination_ipv4 k = v \<Longrightarrow> leaving st)
    \<Longrightarrow> lifecycle_wf (lc\<lparr>victims_withdraw_requested := insert v (victims_withdraw_requested lc)\<rparr>)"
  by (auto simp: lifecycle_wf_def)

section \<open>Every operation keeps the invariant\<close>

lemma wf_begin_announce: "lifecycle_wf lc \<Longrightarrow> lifecycle_wf (snd (begin_announce k r lc))"
  by (auto simp: begin_announce_def intro: wf_emplace)

lemma begin_refresh_announce_eq: "begin_refresh_announce = begin_announce"
  by (simp add: begin_refresh_announce_def begin_announce_def fun_eq_iff)

lemma wf_begin_refresh_capture: "lifecycle_wf lc \<Longrightarrow> lifecycle_wf (snd (begin_refresh_capture v lc))"
  by (auto simp: begin_refresh_capture_def wf_refresh_set)

lemma wf_finish_refresh_capture: "lifecycle_wf lc \<Longrightarrow> lifecycle_wf (finish_refresh_capture v lc)"
  by (auto simp: finish_refresh_capture_def wf_refresh_set intro: wf_clear_fence)

lemma wf_fail_announce: "lifecycle_wf lc \<Longrightarrow> lifecycle_wf (fail_announce k lc)"
  by (auto simp: fail_announce_def wf_erase intro: wf_clear_fence split: option.split)

lemma wf_complete_announce:
  assumes "lifecycle_wf lc" shows "lifecycle_wf (snd (complete_announce k uuid lc))"
proof (cases "map_find (rules lc) k")
  case (Some st)
  show ?thesis
    using lifecycle_wfD(2,3) [OF assms, of k st] assms Some
    by (auto simp: complete_announce_def uuid_ok_def leaving_def intro!: wf_put)
qed (simp add: complete_announce_def assms)

lemma wf_begin_withdraw:
  assumes "lifecycle_wf lc" shows "lifecycle_wf (snd (begin_withdraw_for_victim v lc))"
proof -
  let ?lc = "lc\<lparr>rules := map_adjust (withdraw_next v) (rules lc)\<rparr>"
  have "lifecycle_wf ?lc"
    using assms by (intro wf_adjust) (auto simp: uuid_ok_withdraw_next leaving_withdraw_next lifecycle_wfD)
  then have "lifecycle_wf (?lc\<lparr>victims_withdraw_requested := insert v (victims_withdraw_requested ?lc)\<rparr>)"
    by (rule wf_fence_insert) (auto simp: map_laws leaving_withdraw_next)
  then show ?thesis
    by (simp add: begin_withdraw_eq wf_clear_fence)
qed

lemma wf_complete_withdraw:
  assumes "lifecycle_wf lc" shows "lifecycle_wf (snd (complete_withdraw k uuid ok lc))"
proof (cases "map_find (rules lc) k")
  case (Some st)
  show ?thesis
    using lifecycle_wfD(2,3) [OF assms, of k st] assms Some
    by (auto simp: complete_withdraw_def uuid_ok_def leaving_def wf_erase intro!: wf_put wf_clear_fence)
qed (simp add: complete_withdraw_def assms)

lemma wf_cleanup:
  assumes "lifecycle_wf lc" shows "lifecycle_wf (snd (begin_protocol_only_escalation_cleanup k lc))"
  using assms by (auto simp: cleanup_eq uuid_ok_cleanup_next leaving_cleanup_next lifecycle_wfD intro!: wf_adjust)

lemma fold_emplace_wf:
  "lifecycle_wf lc \<Longrightarrow> (\<And>e. e \<in> set es \<Longrightarrow> destination_ipv4 (fst e) \<notin> victims_withdraw_requested lc) \<Longrightarrow>
     lifecycle_wf (lc\<lparr>rules := fold (\<lambda>e. map_emplace (fst e) (announcing_state (request_rule (snd e))))
                       es (rules lc)\<rparr>)"
proof (induction es arbitrary: lc)
  case (Cons e es)
  then have "lifecycle_wf (lc\<lparr>rules := map_emplace (fst e) (announcing_state (request_rule (snd e))) (rules lc)\<rparr>)"
    by (intro wf_emplace) auto
  from Cons.IH [OF this] Cons.prems show ?case
    by simp
qed simp

lemma new_port_rules_ordered: "ordered m \<Longrightarrow> ordered (new_port_rules only lc reqs m)"
  by (induction only lc reqs m rule: new_port_rules.induct) (auto simp: Let_def map_laws)

lemma new_port_rules_find:
  "ordered m \<Longrightarrow> map_find (new_port_rules only lc reqs m) k = Some req \<Longrightarrow>
     map_find m k = Some req \<or> (req \<in> set reqs \<and> request_key req = k \<and> same_protocol only k
       \<and> destination_port_present k \<and> map_find (rules lc) k = None)"
  by (induction only lc reqs m rule: new_port_rules.induct)
    (auto simp: Let_def map_laws same_protocol_def split: if_splits)

lemma new_port_rules_mem:
  assumes "(k, req) \<in> set (new_port_rules only lc reqs [])"
  shows "req \<in> set reqs" "request_key req = k" "same_protocol only k" "destination_port_present k"
    "map_find (rules lc) k = None"
proof -
  have "map_find (new_port_rules only lc reqs []) k = Some req"
    using assms by (simp add: ordered_find_mem [symmetric] new_port_rules_ordered)
  from new_port_rules_find [OF _ this]
  show "req \<in> set reqs" "request_key req = k" "same_protocol only k" "destination_port_present k"
    "map_find (rules lc) k = None"
    by auto
qed

lemma wf_begin_refresh_protocol_rules:
  assumes "lifecycle_wf lc" shows "lifecycle_wf (snd (begin_refresh_protocol_rules only reqs mx lc))"
  using assms
  by (auto simp: begin_refresh_protocol_rules_def Let_def same_protocol_def wf_emplace
      intro!: fold_emplace_wf dest!: new_port_rules_mem(3) split: prod.split)

section \<open>Withdrawal fences do not outlive their purpose\<close>

lemma fence_liveI:
  "(\<And>v. v \<in> victims_withdraw_requested lc \<Longrightarrow> v \<notin> victims_refresh_in_progress lc
      \<Longrightarrow> victim_has_rules_locked v lc) \<Longrightarrow> fence_live lc"
  by (auto simp: fence_live_def)

lemma has_rules_update:
  "(\<And>k. destination_ipv4 k = v \<Longrightarrow> map_find (rules lc) k \<noteq> None \<Longrightarrow> map_find (rules lc') k \<noteq> None)
    \<Longrightarrow> ordered (rules lc) \<Longrightarrow> ordered (rules lc') \<Longrightarrow> victim_has_rules_locked v lc \<Longrightarrow> victim_has_rules_locked v lc'"
  by (metis victim_has_rules_find)

text \<open>An update that loses no rule and opens no fence keeps the fences live.\<close>

lemma fence_live_mono:
  assumes "fence_live lc" "lifecycle_wf lc" "ordered (rules lc')"
    and "\<And>k. map_find (rules lc) k \<noteq> None \<Longrightarrow> map_find (rules lc') k \<noteq> None"
    and "victims_withdraw_requested lc' = victims_withdraw_requested lc"
    and "victims_refresh_in_progress lc \<subseteq> victims_refresh_in_progress lc'"
  shows "fence_live lc'"
proof (rule fence_liveI)
  fix v assume "v \<in> victims_withdraw_requested lc'" "v \<notin> victims_refresh_in_progress lc'"
  with assms(1,5,6) have "victim_has_rules_locked v lc"
    by (auto simp: fence_live_def)
  with assms(2,3,4) show "victim_has_rules_locked v lc'"
    by (meson has_rules_update lifecycle_wfD(1))
qed

text \<open>An update that concerns one victim only and then clears its fence keeps the fences live.\<close>

lemma has_rules_clear_fence [simp]:
  "victim_has_rules_locked w (clear_withdraw_fence_if_finished_locked v lc) = victim_has_rules_locked w lc"
  by (simp add: victim_has_rules_locked_def)

lemma fence_live_clear:
  assumes "fence_live lc" "lifecycle_wf lc" "ordered (rules lc')"
    and "\<And>k. destination_ipv4 k \<noteq> v \<Longrightarrow> map_find (rules lc) k \<noteq> None \<Longrightarrow> map_find (rules lc') k \<noteq> None"
    and "victims_withdraw_requested lc' - {v} \<subseteq> victims_withdraw_requested lc"
    and "victims_refresh_in_progress lc - {v} \<subseteq> victims_refresh_in_progress lc'"
  shows "fence_live (clear_withdraw_fence_if_finished_locked v lc')"
proof (rule fence_liveI)
  fix w assume w: "w \<in> victims_withdraw_requested (clear_withdraw_fence_if_finished_locked v lc')"
    "w \<notin> victims_refresh_in_progress (clear_withdraw_fence_if_finished_locked v lc')"
  show "victim_has_rules_locked w (clear_withdraw_fence_if_finished_locked v lc')"
  proof (cases "w = v")
    case True
    with w show ?thesis
      by (auto simp: clear_withdraw_fence_if_finished_locked_def split: if_splits)
  next
    case False
    have "w \<in> victims_withdraw_requested lc" "w \<notin> victims_refresh_in_progress lc"
      using False w assms(5,6) clear_fence_subset [of v lc'] by auto
    with assms(1) have "victim_has_rules_locked w lc"
      by (auto simp: fence_live_def)
    then have "victim_has_rules_locked w lc'"
      using assms(2,3,4) False by (intro has_rules_update [of w lc lc']) (auto simp: lifecycle_wfD)
    then show ?thesis
      by simp
  qed
qed

section \<open>Sequences of operations\<close>

text \<open>One constructor per public method of the class that changes its state.\<close>

datatype lifecycle_op =
  op_begin_announce gobgp_flowspec_rule_key_t flow_spec_rule_t
| op_begin_refresh_announce gobgp_flowspec_rule_key_t flow_spec_rule_t
| op_begin_refresh_capture u32
| op_complete_refresh_capture u32
| op_finish_refresh_capture u32
| op_fail_announce gobgp_flowspec_rule_key_t
| op_complete_announce gobgp_flowspec_rule_key_t string
| op_begin_withdraw u32
| op_complete_withdraw gobgp_flowspec_rule_key_t string bool
| op_begin_refresh_protocol gobgp_flowspec_announce_request_t "gobgp_flowspec_announce_request_t list" u64
| op_cleanup gobgp_flowspec_rule_key_t

fun apply_op :: "lifecycle_op \<Rightarrow> lifecycle \<Rightarrow> lifecycle" where
  "apply_op (op_begin_announce k r) lc = snd (begin_announce k r lc)"
| "apply_op (op_begin_refresh_announce k r) lc = snd (begin_refresh_announce k r lc)"
| "apply_op (op_begin_refresh_capture v) lc = snd (begin_refresh_capture v lc)"
| "apply_op (op_complete_refresh_capture v) lc = complete_refresh_capture v lc"
| "apply_op (op_finish_refresh_capture v) lc = finish_refresh_capture v lc"
| "apply_op (op_fail_announce k) lc = fail_announce k lc"
| "apply_op (op_complete_announce k u) lc = snd (complete_announce k u lc)"
| "apply_op (op_begin_withdraw v) lc = snd (begin_withdraw_for_victim v lc)"
| "apply_op (op_complete_withdraw k u b) lc = snd (complete_withdraw k u b lc)"
| "apply_op (op_begin_refresh_protocol q qs n) lc = snd (begin_refresh_protocol_rules q qs n lc)"
| "apply_op (op_cleanup k) lc = snd (begin_protocol_only_escalation_cleanup k lc)"

lemma apply_op_wf: "lifecycle_wf lc \<Longrightarrow> lifecycle_wf (apply_op a lc)"
  by (cases a)
    (simp_all add: wf_begin_announce begin_refresh_announce_eq wf_begin_refresh_capture
      complete_refresh_capture_def wf_refresh_set wf_finish_refresh_capture wf_fail_announce
      wf_complete_announce wf_begin_withdraw wf_complete_withdraw wf_begin_refresh_protocol_rules wf_cleanup)

lemma lifecycle_wf_init: "lifecycle_wf lifecycle_init"
  by (simp add: lifecycle_wf_def lifecycle_init_def)

interpretation lc: invariant_ops lifecycle_init apply_op lifecycle_wf "\<lambda>_. True"
  by unfold_locales (simp_all add: lifecycle_wf_init apply_op_wf)

text \<open>
  \<open>complete_refresh_capture\<close> is called by unit tests only: the program ends every capture with
  \<open>finish_refresh_capture\<close>.
\<close>

fun used_by_program :: "lifecycle_op \<Rightarrow> bool" where
  "used_by_program (op_complete_refresh_capture v) = False"
| "used_by_program _ = True"

lemma find_fold_emplace_announcing:
  "ordered m \<Longrightarrow> ordered (fold (\<lambda>e. map_emplace (fst e) (g e)) es m)
    \<and> (map_find m k \<noteq> None \<longrightarrow> map_find (fold (\<lambda>e. map_emplace (fst e) (g e)) es m) k = map_find m k)"
  by (induction es arbitrary: m) (auto simp: map_laws)

lemma fence_live_emplace: "lifecycle_wf lc \<Longrightarrow> fence_live lc \<Longrightarrow> fence_live (lc\<lparr>rules := map_emplace k st (rules lc)\<rparr>)"
  by (rule fence_live_mono [of lc]) (auto simp: map_laws lifecycle_wfD)

lemma fence_live_put: "lifecycle_wf lc \<Longrightarrow> fence_live lc \<Longrightarrow> fence_live (lc\<lparr>rules := map_put k st (rules lc)\<rparr>)"
  by (rule fence_live_mono [of lc]) (auto simp: map_laws lifecycle_wfD)

lemma fence_live_adjust: "lifecycle_wf lc \<Longrightarrow> fence_live lc \<Longrightarrow> fence_live (lc\<lparr>rules := map_adjust f (rules lc)\<rparr>)"
  by (rule fence_live_mono [of lc]) (auto simp: map_laws lifecycle_wfD)

lemma fence_live_fold:
  "lifecycle_wf lc \<Longrightarrow> fence_live lc \<Longrightarrow> fence_live (lc\<lparr>rules := fold (\<lambda>e. map_emplace (fst e) (g e)) es (rules lc)\<rparr>)"
  by (rule fence_live_mono [of lc]) (auto simp: find_fold_emplace_announcing lifecycle_wfD)

lemma fence_live_erase:
  "lifecycle_wf lc \<Longrightarrow> fence_live lc \<Longrightarrow>
     fence_live (clear_withdraw_fence_if_finished_locked (destination_ipv4 k) (lc\<lparr>rules := map_erase k (rules lc)\<rparr>))"
  by (rule fence_live_clear [of lc]) (auto simp: map_laws lifecycle_wfD)

lemmas fence_live_updates = fence_live_emplace fence_live_put fence_live_adjust fence_live_fold fence_live_erase

lemma fence_live_begin_withdraw:
  "lifecycle_wf lc \<Longrightarrow> fence_live lc \<Longrightarrow> fence_live (snd (begin_withdraw_for_victim v lc))"
  unfolding begin_withdraw_eq snd_conv
  by (rule fence_live_clear [of lc]) (auto simp: map_laws lifecycle_wfD)

lemma fence_live_finish: "lifecycle_wf lc \<Longrightarrow> fence_live lc \<Longrightarrow> fence_live (finish_refresh_capture v lc)"
  unfolding finish_refresh_capture_def by (rule fence_live_clear [of lc]) (auto simp: lifecycle_wfD)

lemma fence_live_capture: "lifecycle_wf lc \<Longrightarrow> fence_live lc \<Longrightarrow> fence_live (snd (begin_refresh_capture v lc))"
  by (auto simp: begin_refresh_capture_def fence_live_def victim_has_rules_locked_def)

interpretation fence: invariant_ops lifecycle_init apply_op "\<lambda>lc. lifecycle_wf lc \<and> fence_live lc" used_by_program
proof unfold_locales
  show "lifecycle_wf lifecycle_init \<and> fence_live lifecycle_init"
    by (simp add: lifecycle_wf_init) (simp add: fence_live_def lifecycle_init_def)
next
  fix lc a assume "lifecycle_wf lc \<and> fence_live lc" and "used_by_program a"
  then show "lifecycle_wf (apply_op a lc) \<and> fence_live (apply_op a lc)"
    using apply_op_wf [of lc a]
    by (cases a)
      (auto simp: fence_live_begin_withdraw fence_live_finish fence_live_capture fence_live_updates
        begin_refresh_announce_eq begin_announce_def fail_announce_def complete_announce_def
        complete_withdraw_def begin_refresh_protocol_rules_def cleanup_eq Let_def
        split: option.splits prod.splits)
qed

section \<open>Properties\<close>

text \<open>
  C6. After any sequence of calls of the lifecycle's methods, in any order and with any arguments,
  the table is ordered by key without duplicates, a rule has a path UUID exactly from its
  confirmation on, and every rule of a victim with a withdrawal fence is on its way out.
\<close>

theorem lifecycle_invariant: "lifecycle_wf (run_ops apply_op ops lifecycle_init)"
  by (rule lc.inv_run) (simp add: list_all_iff)

lemma begin_announce_ok_iff:
  "fst (begin_announce k r lc) \<longleftrightarrow>
     destination_ipv4 k \<notin> victims_withdraw_requested lc \<and> map_find (rules lc) k = None"
  by (simp add: begin_announce_def)

text \<open>
  C7. No withdrawal fence is left behind: after any sequence of the operations the program uses,
  a victim that has no rule in the table and no refresh capture in progress can be banned again.
\<close>

theorem reban_possible:
  assumes "list_all used_by_program ops"
    and "lc = run_ops apply_op ops lifecycle_init"
    and "\<not> victim_has_rules_locked (destination_ipv4 k) lc"
    and "destination_ipv4 k \<notin> victims_refresh_in_progress lc"
  shows "fst (begin_announce k r lc)"
proof -
  have "lifecycle_wf lc \<and> fence_live lc"
    unfolding assms(2) using assms(1) by (rule fence.inv_run)
  moreover from this have "map_find (rules lc) k = None"
    using assms(3) victim_has_rules_find lifecycle_wfD(1) by blast
  moreover have "destination_ipv4 k \<notin> victims_withdraw_requested lc"
    using calculation(1) assms(3,4) by (auto simp: fence_live_def)
  ultimately show ?thesis
    by (simp add: begin_announce_ok_iff)
qed

definition example_key :: gobgp_flowspec_rule_key_t where
  "example_key = rule_key_default\<lparr>destination_ipv4 := 16909060, protocol_present := True, key_protocol := UDP\<rparr>"

lemma reban_possible_witness:
  "fst (begin_announce example_key flow_spec_rule_default
     (run_ops apply_op
        [op_begin_announce example_key flow_spec_rule_default, op_begin_withdraw 16909060,
         op_complete_announce example_key ''u'', op_complete_withdraw example_key ''u'' True]
        lifecycle_init))"
  by (rule reban_possible [OF _ refl])
    (simp_all add: run_ops_def example_key_def rule_key_default_def lifecycle_init_def begin_announce_def
      begin_withdraw_for_victim_def complete_announce_def complete_withdraw_def map_emplace_def
      announcing_state_def clear_withdraw_fence_if_finished_locked_def victim_has_rules_locked_def
      map_erase_def)

lemma withdraw_next_other: "destination_ipv4 k \<noteq> v \<Longrightarrow> withdraw_next v k = id"
  by (simp add: fun_eq_iff withdraw_next_def)

lemma withdraw_next_deletable:
  "destination_ipv4 k = v \<Longrightarrow> deletable st \<Longrightarrow> withdraw_next v k st = st\<lparr>state := withdrawing\<rparr>"
  by (auto simp: withdraw_next_def deletable_def)

text \<open>
  C8. An UNBAN is complete: afterwards no rule of the victim is announcing or installed, the
  withdrawal requests returned are, in key order and once each, exactly the rules whose path GoBGP
  still has and for which no deletion is running, each with the non-empty UUID of its path, and
  the rules of other victims are as before.
\<close>

theorem unban_complete:
  assumes "lifecycle_wf lc" and "begin_withdraw_for_victim v lc = (res, lc')"
  shows "(\<forall>k st. map_find (rules lc') k = Some st \<and> destination_ipv4 k = v \<longrightarrow> leaving st)
    \<and> (\<forall>req. req \<in> set (withdraw_requests res) \<longleftrightarrow>
         (\<exists>st. map_find (rules lc) (withdraw_key req) = Some st \<and> destination_ipv4 (withdraw_key req) = v
            \<and> deletable st \<and> withdraw_rule req = flow_spec_rule st \<and> withdraw_uuid req = add_path_uuid st))
    \<and> sorted_wrt (<) (map withdraw_key (withdraw_requests res))
    \<and> (\<forall>req \<in> set (withdraw_requests res). withdraw_uuid req \<noteq> [])
    \<and> (\<forall>k. destination_ipv4 k \<noteq> v \<longrightarrow> map_find (rules lc') k = map_find (rules lc) k)"
proof (intro conjI)
  note ord = lifecycle_wfD(1) [OF assms(1)]
  define es where "es = filter (\<lambda>e. destination_ipv4 (fst e) = v \<and> deletable (snd e)) (rules lc)"
  have reqs: "withdraw_requests res = map request_of es"
    using assms(2) by (auto simp: begin_withdraw_eq withdraw_loop_requests es_def)
  have rules': "rules lc' = map_adjust (withdraw_next v) (rules lc)"
    using assms(2) by (auto simp: begin_withdraw_eq)
  show "\<forall>k st. map_find (rules lc') k = Some st \<and> destination_ipv4 k = v \<longrightarrow> leaving st"
    by (auto simp: rules' map_laws leaving_withdraw_next)
  have mem: "(k, st) \<in> set es \<longleftrightarrow> map_find (rules lc) k = Some st \<and> destination_ipv4 k = v \<and> deletable st" for k st
    using ord by (auto simp: es_def ordered_find_mem)
  show iff: "\<forall>req. req \<in> set (withdraw_requests res) \<longleftrightarrow>
         (\<exists>st. map_find (rules lc) (withdraw_key req) = Some st \<and> destination_ipv4 (withdraw_key req) = v
            \<and> deletable st \<and> withdraw_rule req = flow_spec_rule st \<and> withdraw_uuid req = add_path_uuid st)"
    (is "\<forall>req. _ \<longleftrightarrow> (\<exists>st. ?ok req st)")
  proof (intro allI iffI)
    fix req assume "req \<in> set (withdraw_requests res)"
    then obtain k st where "(k, st) \<in> set es" "req = request_of (k, st)"
      by (auto simp: reqs)
    then show "\<exists>st. ?ok req st"
      by (auto simp: mem request_of_def)
  next
    fix req assume "\<exists>st. ?ok req st"
    then obtain st where st: "?ok req st" ..
    then have "req = request_of (withdraw_key req, st)"
      by (cases req) (simp add: request_of_def)
    with st show "req \<in> set (withdraw_requests res)"
      unfolding reqs set_map by (metis image_eqI mem)
  qed
  have "ordered es"
    using ord by (simp add: es_def ordered_filter)
  moreover have "withdraw_key \<circ> request_of = fst"
    by (simp add: fun_eq_iff request_of_def)
  ultimately show "sorted_wrt (<) (map withdraw_key (withdraw_requests res))"
    by (simp add: reqs ordered_def)
  show "\<forall>req \<in> set (withdraw_requests res). withdraw_uuid req \<noteq> []"
    using iff lifecycle_wfD(2) [OF assms(1)] by (fastforce simp: deletable_def uuid_ok_def)
  show "\<forall>k. destination_ipv4 k \<noteq> v \<longrightarrow> map_find (rules lc') k = map_find (rules lc) k"
    by (simp add: rules' map_laws withdraw_next_other option.map_id)
qed


text \<open>The states the examples start from: one installed protocol-only rule.\<close>

definition example_state :: "gobgp_flowspec_rule_state_type_t \<Rightarrow> gobgp_flowspec_rule_state_t" where
  "example_state s = \<lparr>state = s, flow_spec_rule = flow_spec_rule_default, add_path_uuid = ''u''\<rparr>"

definition example_lifecycle :: lifecycle where
  "example_lifecycle = lifecycle_init\<lparr>rules := [(example_key, example_state installed)]\<rparr>"

lemma example_lifecycle_wf: "lifecycle_wf example_lifecycle"
  by (auto simp: lifecycle_wf_def example_lifecycle_def example_state_def lifecycle_init_def uuid_ok_def)

lemma unban_complete_witness:
  "withdraw_requests (fst (begin_withdraw_for_victim 16909060 example_lifecycle)) =
     [\<lparr>withdraw_key = example_key, withdraw_rule = flow_spec_rule_default, withdraw_uuid = ''u''\<rparr>]
   \<and> list_all (\<lambda>req. withdraw_uuid req \<noteq> [])
        (withdraw_requests (fst (begin_withdraw_for_victim 16909060 example_lifecycle)))"
proof -
  obtain res lc' where run: "begin_withdraw_for_victim 16909060 example_lifecycle = (res, lc')"
    by fastforce
  have "withdraw_requests res = [\<lparr>withdraw_key = example_key, withdraw_rule = flow_spec_rule_default,
      withdraw_uuid = ''u''\<rparr>]"
    using run by (auto simp: begin_withdraw_for_victim_def example_lifecycle_def example_state_def
        lifecycle_init_def example_key_def)
  then show ?thesis
    using unban_complete [OF example_lifecycle_wf run] run by (simp add: list_all_iff)
qed

text \<open>The rules of a victim are settled when no AddPath and no DeletePath is in flight for it.\<close>

definition settled :: "u32 \<Rightarrow> lifecycle \<Rightarrow> bool" where
  "settled v lc \<longleftrightarrow> list_all (\<lambda>e. destination_ipv4 (fst e) = v \<longrightarrow> deletable (snd e)) (rules lc)
     \<and> v \<notin> victims_refresh_in_progress lc"

text \<open>The completions the program reports when GoBGP deletes every requested path.\<close>

definition confirm_all :: "gobgp_flowspec_withdraw_request_t list \<Rightarrow> lifecycle \<Rightarrow> lifecycle" where
  "confirm_all reqs lc = fold (\<lambda>req lc. snd (complete_withdraw (withdraw_key req) (withdraw_uuid req) True lc)) reqs lc"

lemma confirm_all_step:
  assumes "map_find (rules lc) (withdraw_key req) = Some st" "state st = withdrawing"
    and "add_path_uuid st = withdraw_uuid req"
  shows "rules (snd (complete_withdraw (withdraw_key req) (withdraw_uuid req) True lc)) = map_erase (withdraw_key req) (rules lc)"
    and "victims_refresh_in_progress (snd (complete_withdraw (withdraw_key req) (withdraw_uuid req) True lc)) =
      victims_refresh_in_progress lc"
  using assms by (simp_all add: complete_withdraw_def)

lemma confirm_all_rules:
  "(\<And>req. req \<in> set reqs \<Longrightarrow> \<exists>st. map_find (rules lc) (withdraw_key req) = Some st \<and> state st = withdrawing
      \<and> add_path_uuid st = withdraw_uuid req) \<Longrightarrow> distinct (map withdraw_key reqs) \<Longrightarrow>
    rules (confirm_all reqs lc) = filter (\<lambda>e. fst e \<notin> withdraw_key ` set reqs) (rules lc)
    \<and> victims_refresh_in_progress (confirm_all reqs lc) = victims_refresh_in_progress lc"
proof (induction reqs arbitrary: lc)
  case (Cons req reqs)
  let ?lc = "snd (complete_withdraw (withdraw_key req) (withdraw_uuid req) True lc)"
  obtain st where st: "map_find (rules lc) (withdraw_key req) = Some st" "state st = withdrawing"
      "add_path_uuid st = withdraw_uuid req"
    using Cons.prems(1) by auto
  note step = confirm_all_step [OF this]
  have "\<exists>st. map_find (rules ?lc) (withdraw_key r) = Some st \<and> state st = withdrawing
      \<and> add_path_uuid st = withdraw_uuid r" if "r \<in> set reqs" for r
  proof -
    have "withdraw_key r \<noteq> withdraw_key req"
      using that Cons.prems(2) by (metis distinct.simps(2) image_eqI list.set_map list.simps(9))
    then show ?thesis
      using that Cons.prems(1) [of r] by (simp add: step map_find_erase)
  qed
  from Cons.IH [OF this] Cons.prems(2) show ?case
    by (simp add: confirm_all_def step map_erase_def conj_commute)
qed (simp add: confirm_all_def)


lemma confirm_all_ops:
  "confirm_all reqs lc =
     run_ops apply_op (map (\<lambda>req. op_complete_withdraw (withdraw_key req) (withdraw_uuid req) True) reqs) lc"
  by (induction reqs arbitrary: lc) (simp_all add: confirm_all_def run_ops_def)

text \<open>
  C9. An UNBAN drains: when the victim's rules are settled (each can be deleted, so that no announcement and no deletion
  is in flight, and no refresh of the victim is running) and GoBGP confirms every deletion the UNBAN asks for, the victim has no rule left, its fence is gone, and no rule of another victim
  was touched.
\<close>

theorem unban_drains:
  assumes "lifecycle_wf lc" "fence_live lc" "settled v lc"
    and "begin_withdraw_for_victim v lc = (res, lc1)" "lc2 = confirm_all (withdraw_requests res) lc1"
  shows "\<not> victim_has_rules_locked v lc2 \<and> v \<notin> victims_withdraw_requested lc2
    \<and> (\<forall>k. destination_ipv4 k \<noteq> v \<longrightarrow> map_find (rules lc2) k = map_find (rules lc) k)"
proof (intro conjI)
  note ord = lifecycle_wfD(1) [OF assms(1)]
  let ?es = "filter (\<lambda>e. destination_ipv4 (fst e) = v \<and> deletable (snd e)) (rules lc)"
  have reqs: "withdraw_requests res = map request_of ?es"
    and rules1: "rules lc1 = map_adjust (withdraw_next v) (rules lc)"
    and cap: "victims_refresh_in_progress lc1 = victims_refresh_in_progress lc"
    using assms(4) by (auto simp: begin_withdraw_eq withdraw_loop_requests)
  have keys: "withdraw_key ` set (withdraw_requests res) = {k. \<exists>st. map_find (rules lc) k = Some st \<and> destination_ipv4 k = v}"
    using assms(3) ord by (force simp: reqs request_of_def settled_def list_all_iff ordered_find_mem [OF ord, symmetric])
  have "withdraw_key \<circ> request_of = fst"
    by (simp add: fun_eq_iff request_of_def)
  then have dist: "distinct (map withdraw_key (withdraw_requests res))"
    using std.distinct_keys [OF ordered_filter [OF ord]] by (simp add: reqs)
  have pending: "\<exists>st. map_find (rules lc1) (withdraw_key req) = Some st \<and> state st = withdrawing
      \<and> add_path_uuid st = withdraw_uuid req" if "req \<in> set (withdraw_requests res)" for req
    using that ord by (auto simp: reqs request_of_def rules1 map_laws withdraw_next_deletable ordered_find_mem)
  have final: "rules lc2 = filter (\<lambda>e. fst e \<notin> withdraw_key ` set (withdraw_requests res)) (rules lc1)"
    "victims_refresh_in_progress lc2 = victims_refresh_in_progress lc"
    unfolding assms(5) using confirm_all_rules [OF pending dist] cap by auto
  have find: "map_find (rules lc2) k = (if destination_ipv4 k = v then None else map_find (rules lc) k)" for k
    using map_find_filter_key [of "\<lambda>k. k \<notin> withdraw_key ` set (withdraw_requests res)" "rules lc1" k]
    by (auto simp: final(1) keys rules1 map_laws withdraw_next_other option.map_id split: if_splits)
  then show "\<forall>k. destination_ipv4 k \<noteq> v \<longrightarrow> map_find (rules lc2) k = map_find (rules lc) k"
    by simp
  have "lifecycle_wf lc1 \<and> fence_live lc1"
    using fence.inv_app [of lc "op_begin_withdraw v"] assms(1,2,4) by simp
  then have "lifecycle_wf lc2 \<and> fence_live lc2"
    unfolding assms(5) confirm_all_ops by (intro fence.inv_run_from) (auto simp: list_all_iff)
  moreover from this show none: "\<not> victim_has_rules_locked v lc2"
    using find victim_has_rules_find lifecycle_wfD(1) by force
  ultimately show "v \<notin> victims_withdraw_requested lc2"
    using assms(3) final(2) by (auto simp: fence_live_def settled_def)
qed

lemma unban_drains_witness:
  "rules (confirm_all (withdraw_requests (fst (begin_withdraw_for_victim 16909060 example_lifecycle)))
      (snd (begin_withdraw_for_victim 16909060 example_lifecycle))) = []
   \<and> 16909060 \<notin> victims_withdraw_requested
      (confirm_all (withdraw_requests (fst (begin_withdraw_for_victim 16909060 example_lifecycle)))
        (snd (begin_withdraw_for_victim 16909060 example_lifecycle)))"
proof -
  have "fence_live example_lifecycle" "settled 16909060 example_lifecycle"
    by (auto simp: fence_live_def settled_def example_lifecycle_def lifecycle_init_def example_state_def deletable_def)
  from unban_drains [OF example_lifecycle_wf this surjective_pairing refl]
  show ?thesis
    by (auto simp: begin_withdraw_for_victim_def confirm_all_def complete_withdraw_def example_lifecycle_def
        example_state_def example_key_def lifecycle_init_def map_erase_def rule_key_default_def
        victim_has_rules_locked_def clear_withdraw_fence_if_finished_locked_def)
qed

lemma clear_fence_kept:
  "w \<in> victims_withdraw_requested lc \<Longrightarrow> victim_has_rules_locked w lc \<Longrightarrow>
     w \<in> victims_withdraw_requested (clear_withdraw_fence_if_finished_locked v lc)"
  by (auto simp: clear_withdraw_fence_if_finished_locked_def)

lemma fence_kept:
  "v \<in> victims_withdraw_requested lc \<Longrightarrow> victim_has_rules_locked v (apply_op a lc) \<Longrightarrow>
     v \<in> victims_withdraw_requested (apply_op a lc)"
  by (cases a)
    (auto simp: begin_refresh_announce_eq begin_announce_def begin_refresh_capture_def
      complete_refresh_capture_def finish_refresh_capture_def fail_announce_def complete_announce_def
      begin_withdraw_eq complete_withdraw_def begin_refresh_protocol_rules_def cleanup_eq Let_def
      intro: clear_fence_kept split: option.splits prod.splits)

lemma find_fold_emplace_none:
  "ordered m \<Longrightarrow> k \<notin> fst ` set es \<Longrightarrow> map_find (fold (\<lambda>e. map_emplace (fst e) (g e)) es m) k = map_find m k"
  by (induction es arbitrary: m) (auto simp: map_laws)

lemma refresh_rules_fenced:
  "destination_ipv4 k \<in> victims_withdraw_requested lc \<Longrightarrow> ordered (rules lc) \<Longrightarrow>
     map_find (rules (snd (begin_refresh_protocol_rules only reqs mx lc))) k = map_find (rules lc) k"
  by (auto simp: begin_refresh_protocol_rules_def Let_def map_laws same_protocol_def
      intro!: find_fold_emplace_none dest!: new_port_rules_mem(3) split: prod.split)

lemma no_new_rule_when_fenced:
  "ordered (rules lc) \<Longrightarrow> destination_ipv4 k \<in> victims_withdraw_requested lc \<Longrightarrow>
     map_find (rules (apply_op a lc)) k \<noteq> None \<Longrightarrow> map_find (rules lc) k \<noteq> None"
  by (cases a)
    (auto simp: begin_refresh_announce_eq begin_announce_def begin_refresh_capture_def
      complete_refresh_capture_def finish_refresh_capture_def fail_announce_def complete_announce_def
      begin_withdraw_eq complete_withdraw_def refresh_rules_fenced cleanup_eq Let_def map_laws
      split: option.splits if_splits)

text \<open>
  C10. A fenced victim gets no new rule: while the withdrawal of a victim is unfinished, no
  operation of the lifecycle adds a rule for it, and a rule of the victim never returns to the
  announcing or installed state.
\<close>

theorem fence_blocks_new_rules:
  assumes "lifecycle_wf lc" "destination_ipv4 k \<in> victims_withdraw_requested lc"
    and "map_find (rules (apply_op a lc)) k = Some st"
  shows "map_find (rules lc) k \<noteq> None \<and> leaving st"
proof
  show "map_find (rules lc) k \<noteq> None"
    using no_new_rule_when_fenced [OF lifecycle_wfD(1) [OF assms(1)] assms(2)] assms(3)
    by (metis option.distinct(1))
  have wf: "lifecycle_wf (apply_op a lc)"
    using assms(1) by (rule apply_op_wf)
  then have "victim_has_rules_locked (destination_ipv4 k) (apply_op a lc)"
    using assms(3) victim_has_rules_find lifecycle_wfD(1) by (metis option.discI)
  then have "destination_ipv4 k \<in> victims_withdraw_requested (apply_op a lc)"
    using assms(2) by (rule_tac fence_kept)
  then show "leaving st"
    using lifecycle_wfD(3) [OF wf assms(3)] by blast
qed

text \<open>An UNBAN that found the rule's AddPath still running.\<close>

definition example_fenced :: lifecycle where
  "example_fenced = lifecycle_init\<lparr>rules := [(example_key, (example_state withdraw_requested)\<lparr>add_path_uuid := []\<rparr>)],
     victims_withdraw_requested := {16909060}\<rparr>"

lemma fence_blocks_new_rules_witness:
  "map_find (rules example_fenced) example_key \<noteq> None \<and>
     leaving (the (map_find (rules (apply_op (op_complete_announce example_key ''u'') example_fenced)) example_key))"
proof -
  have "lifecycle_wf example_fenced"
    by (auto simp: lifecycle_wf_def example_fenced_def example_state_def lifecycle_init_def uuid_ok_def leaving_def)
  then show ?thesis
    by (rule fence_blocks_new_rules [where a = "op_complete_announce example_key ''u''"])
      (simp_all add: example_fenced_def example_key_def lifecycle_init_def complete_announce_def
        example_state_def rule_key_default_def)
qed

subsection \<open>The refresh plan\<close>

definition port_rules_of :: "gobgp_flowspec_rule_key_t \<Rightarrow> lifecycle \<Rightarrow> gobgp_flowspec_rule_key_t set" where
  "port_rules_of only_key lc = {k. map_find (rules lc) k \<noteq> None \<and> same_protocol only_key k \<and> destination_port_present k}"

definition protocol_only_rule :: "gobgp_flowspec_rule_key_t \<Rightarrow> lifecycle \<Rightarrow> bool" where
  "protocol_only_rule only_key lc \<longleftrightarrow>
     (\<exists>k. map_find (rules lc) k \<noteq> None \<and> same_protocol only_key k \<and> \<not> destination_port_present k)"

lemma existing_scan_eq:
  "existing_scan only m n =
     (let (before, rest) = (takeWhile (\<lambda>e. \<not> (same_protocol only (fst e) \<and> \<not> destination_port_present (fst e))) m,
                            dropWhile (\<lambda>e. \<not> (same_protocol only (fst e) \<and> \<not> destination_port_present (fst e))) m)
      in (rest \<noteq> [], n + length (filter (\<lambda>e. same_protocol only (fst e) \<and> destination_port_present (fst e)) before)))"
  by (induction only m n rule: existing_scan.induct) (auto simp: same_protocol_def)

lemma existing_scan_covered:
  "fst (existing_scan only m n) \<longleftrightarrow> (\<exists>e \<in> set m. same_protocol only (fst e) \<and> \<not> destination_port_present (fst e))"
  by (auto simp: existing_scan_eq dropWhile_eq_Nil_conv)

lemma existing_scan_count:
  "\<not> fst (existing_scan only m n) \<Longrightarrow> snd (existing_scan only m n) =
     n + length (filter (\<lambda>e. same_protocol only (fst e) \<and> destination_port_present (fst e)) m)"
  by (simp add: existing_scan_eq dropWhile_eq_Nil_conv takeWhile_eq_all_conv [THEN iffD2])

lemma existing_scan_table:
  assumes "ordered (rules lc)"
  shows "fst (existing_scan only (rules lc) 0) \<longleftrightarrow> protocol_only_rule only lc"
    and "\<not> protocol_only_rule only lc \<Longrightarrow> snd (existing_scan only (rules lc) 0) = card (port_rules_of only lc)"
proof -
  show iff: "fst (existing_scan only (rules lc) 0) \<longleftrightarrow> protocol_only_rule only lc"
    using std.keys_find [OF assms] by (force simp: existing_scan_covered protocol_only_rule_def)
  let ?P = "\<lambda>k. same_protocol only k \<and> destination_port_present k"
  have "length (filter (\<lambda>e. ?P (fst e)) (rules lc)) = card {k. map_find (filter (\<lambda>e. ?P (fst e)) (rules lc)) k \<noteq> None}"
    using std.size_entries [OF ordered_filter [OF assms]] by blast
  also have "{k. map_find (filter (\<lambda>e. ?P (fst e)) (rules lc)) k \<noteq> None} = port_rules_of only lc"
    unfolding map_find_filter_key [of ?P] by (auto simp: port_rules_of_def)
  finally show "\<not> protocol_only_rule only lc \<Longrightarrow> snd (existing_scan only (rules lc) 0) = card (port_rules_of only lc)"
    using existing_scan_count [of only "rules lc" 0] iff by simp
qed

lemma find_fold_emplace_some:
  "ordered m \<Longrightarrow> map_find (fold (\<lambda>e. map_emplace (fst e) (g e)) es m) k \<noteq> None \<longleftrightarrow>
     map_find m k \<noteq> None \<or> k \<in> fst ` set es"
  by (induction es arbitrary: m) (auto simp: map_laws)

lemma find_fold_emplace_new:
  "ordered m \<Longrightarrow> map_find m k = None \<Longrightarrow> k \<in> fst ` set es \<Longrightarrow>
     \<exists>e \<in> set es. map_find (fold (\<lambda>e. map_emplace (fst e) (g e)) es m) k = Some (g e)"
proof (induction es arbitrary: m)
  case (Cons e es)
  show ?case
  proof (cases "fst e = k")
    case True
    then have "map_find (map_emplace (fst e) (g e) m) k = Some (g e)"
      using Cons.prems by (simp add: map_laws)
    then show ?thesis
      using find_fold_emplace_announcing [where m = "map_emplace (fst e) (g e) m" and k = k and g = g and es = es]
        Cons.prems(1)
      by (simp add: map_laws)
  next
    case False
    then show ?thesis
      using Cons.IH [of "map_emplace (fst e) (g e) m"] Cons.prems by (auto simp: map_laws)
  qed
qed simp

lemma finite_port_rules: "finite (port_rules_of only lc)"
proof -
  have "port_rules_of only lc \<subseteq> fst ` set (rules lc)"
    by (auto simp: port_rules_of_def image_iff dest!: map_find_mem) force
  then show ?thesis
    using finite_subset by blast
qed

lemma new_port_rules_find_mem:
  assumes "(k, r) \<in> set (new_port_rules only lc reqs [])"
  shows "k \<notin> port_rules_of only lc"
  using new_port_rules_mem(5) [OF assms] by (simp add: port_rules_of_def)

lemma port_rules_after_fold:
  assumes "ordered (rules lc)"
  shows "port_rules_of only (lc\<lparr>rules := fold (\<lambda>e. map_emplace (fst e) (g e)) (new_port_rules only lc reqs []) (rules lc)\<rparr>)
     = port_rules_of only lc \<union> fst ` set (new_port_rules only lc reqs [])"
proof -
  have "\<And>k. k \<in> fst ` set (new_port_rules only lc reqs []) \<Longrightarrow> same_protocol only k \<and> destination_port_present k"
    using new_port_rules_mem(3,4) by (metis imageE prod.collapse)
  then show ?thesis
    by (simp add: port_rules_of_def find_fold_emplace_some [OF assms] del: not_None_eq) blast
qed

lemma card_port_rules_after_fold:
  assumes "ordered (rules lc)"
  shows "card (port_rules_of only (lc\<lparr>rules := fold (\<lambda>e. map_emplace (fst e) (g e))
      (new_port_rules only lc reqs []) (rules lc)\<rparr>))
    = card (port_rules_of only lc) + length (new_port_rules only lc reqs [])"
proof -
  have "distinct (map fst (new_port_rules only lc reqs []))"
    by (rule std.distinct_keys) (simp add: new_port_rules_ordered)
  then have "card (fst ` set (new_port_rules only lc reqs [])) = length (new_port_rules only lc reqs [])"
    by (metis distinct_card length_map list.set_map)
  moreover have "port_rules_of only lc \<inter> fst ` set (new_port_rules only lc reqs []) = {}"
    using new_port_rules_find_mem by fastforce
  ultimately show ?thesis
    by (simp add: port_rules_after_fold [OF assms] card_Un_disjoint finite_port_rules)
qed

text \<open>A well-formed protocol-only request, as \<^verbatim>\<open>refresh_gobgp_flow_spec_rules\<close> builds it.\<close>

definition protocol_only_key :: "gobgp_flowspec_rule_key_t \<Rightarrow> bool" where
  "protocol_only_key k \<longleftrightarrow> protocol_present k \<and> \<not> destination_port_present k"

lemma refresh_plan_cases:
  assumes "begin_refresh_protocol_rules only reqs mx lc = (plan, lc')" "ordered (rules lc)"
  obtains (fenced) "plan_action plan = withdraw_in_progress" "lc' = lc" "announce_requests plan = []"
  | (covered) "plan_action plan = protocol_only_covers" "lc' = lc" "announce_requests plan = []"
      "protocol_only_rule (request_key only) lc"
  | (unchanged) "plan_action plan = no_new_port_rules" "lc' = lc" "announce_requests plan = []"
  | (escalate) "plan_action plan = escalate_protocol_only" "announce_requests plan = [only]"
      "\<not> protocol_only_rule (request_key only) lc"
      "lc' = lc\<lparr>rules := map_emplace (request_key only) (announcing_state (request_rule only)) (rules lc)\<rparr>"
      "card (port_rules_of (request_key only) lc) + length (new_port_rules (request_key only) lc reqs []) > unat mx"
  | (add) "plan_action plan = add_port_rules" "\<not> protocol_only_rule (request_key only) lc"
      "announce_requests plan = map snd (new_port_rules (request_key only) lc reqs [])"
      "lc' = lc\<lparr>rules := fold (\<lambda>e. map_emplace (fst e) (announcing_state (request_rule (snd e))))
                (new_port_rules (request_key only) lc reqs []) (rules lc)\<rparr>"
      "card (port_rules_of (request_key only) lc) + length (new_port_rules (request_key only) lc reqs []) \<le> unat mx"
proof -
  obtain cov n where scan: "existing_scan (request_key only) (rules lc) 0 = (cov, n)"
    by fastforce
  then have "cov \<longleftrightarrow> protocol_only_rule (request_key only) lc"
    and "\<not> cov \<Longrightarrow> n = card (port_rules_of (request_key only) lc)"
    using existing_scan_table [OF assms(2), of "request_key only"] by auto
  note scanned = this
  let ?fenced = "destination_ipv4 (request_key only) \<in> victims_withdraw_requested lc"
  let ?fresh = "new_port_rules (request_key only) lc reqs []"
  note run = assms(1) [unfolded begin_refresh_protocol_rules_def Let_def scan prod.case plan_default_def]
  consider "?fenced" | "\<not> ?fenced" "cov" | "\<not> ?fenced" "\<not> cov" "?fresh = []"
    | "\<not> ?fenced" "\<not> cov" "?fresh \<noteq> []" "n + length ?fresh > unat mx"
    | "\<not> ?fenced" "\<not> cov" "?fresh \<noteq> []" "\<not> n + length ?fresh > unat mx"
    by blast
  then show thesis
  proof cases
    case 1 then show ?thesis by (rule_tac fenced) (use run in auto)
  next
    case 2 then show ?thesis by (rule_tac covered) (use run scanned(1) in auto)
  next
    case 3 then show ?thesis by (rule_tac unchanged) (use run in auto)
  next
    case 4 then show ?thesis by (rule_tac escalate) (use run scanned in auto)
  next
    case 5 then show ?thesis by (rule_tac add) (use run scanned in auto)
  qed
qed


lemma escalated_plan:
  assumes "ordered (rules lc)" "protocol_only_key (request_key only)" "\<not> protocol_only_rule (request_key only) lc"
  defines "lc' \<equiv> lc\<lparr>rules := map_emplace (request_key only) (announcing_state (request_rule only)) (rules lc)\<rparr>"
  shows "map_option state (map_find (rules lc') (request_key only)) = Some announcing"
    "port_rules_of (request_key only) lc' = port_rules_of (request_key only) lc"
proof -
  have "map_find (rules lc) (request_key only) = None"
    using assms(2,3) by (auto simp: protocol_only_rule_def protocol_only_key_def same_protocol_def)
  then show "map_option state (map_find (rules lc') (request_key only)) = Some announcing"
    using assms(1) by (simp add: lc'_def map_laws announcing_state_def)
  show "port_rules_of (request_key only) lc' = port_rules_of (request_key only) lc"
    using assms(1,2) by (auto simp: lc'_def port_rules_of_def map_laws protocol_only_key_def split: if_splits)
qed

lemma added_ports:
  fixes reqs
  assumes "ordered (rules lc)" "\<not> protocol_only_rule (request_key only) lc"
  defines "fresh \<equiv> new_port_rules (request_key only) lc reqs []"
  defines "lc' \<equiv> lc\<lparr>rules := fold (\<lambda>e. map_emplace (fst e) (announcing_state (request_rule (snd e)))) fresh (rules lc)\<rparr>"
  shows "\<not> protocol_only_rule (request_key only) lc'"
    "\<forall>req \<in> set (map snd fresh). map_find (rules lc) (request_key req) = None
       \<and> map_option state (map_find (rules lc') (request_key req)) = Some announcing"
proof -
  show "\<not> protocol_only_rule (request_key only) lc'"
    using assms(2) new_port_rules_mem(4)
    by (force simp: protocol_only_rule_def lc'_def fresh_def find_fold_emplace_some [OF assms(1)] simp del: not_None_eq)
  have "map_find (rules lc) (request_key req) = None \<and> map_option state (map_find (rules lc') (request_key req)) = Some announcing"
    if k: "(k, req) \<in> set fresh" for k req
  proof -
    note mem = new_port_rules_mem [OF k [unfolded fresh_def]]
    then show ?thesis
      using find_fold_emplace_new [OF assms(1), of k _ "\<lambda>e. announcing_state (request_rule (snd e))"] k
      by (force simp: lc'_def announcing_state_def)
  qed
  then show "\<forall>req \<in> set (map snd fresh). map_find (rules lc) (request_key req) = None
       \<and> map_option state (map_find (rules lc') (request_key req)) = Some announcing"
    by auto
qed

text \<open>The ports a refresh wants to add: requested for the victim and protocol, and without a rule so far.\<close>

definition wanted_ports ::
    "gobgp_flowspec_rule_key_t \<Rightarrow> gobgp_flowspec_announce_request_t list \<Rightarrow> lifecycle \<Rightarrow> gobgp_flowspec_rule_key_t set" where
  "wanted_ports only_key reqs lc =
     {k \<in> request_key ` set reqs. same_protocol only_key k \<and> destination_port_present k \<and> map_find (rules lc) k = None}"

lemma new_port_rules_found:
  "ordered m \<Longrightarrow> map_find (new_port_rules only lc reqs m) k \<noteq> None \<longleftrightarrow> map_find m k \<noteq> None \<or> k \<in> wanted_ports only reqs lc"
  by (induction only lc reqs m rule: new_port_rules.induct)
    (auto simp: Let_def map_laws same_protocol_def wanted_ports_def simp del: not_None_eq)

lemma new_port_rules_wanted:
  "fst ` set (new_port_rules only lc reqs []) = wanted_ports only reqs lc"
  "length (new_port_rules only lc reqs []) = card (wanted_ports only reqs lc)"
  "new_port_rules only lc reqs [] = [] \<longleftrightarrow> wanted_ports only reqs lc = {}"
proof -
  have ord: "ordered (new_port_rules only lc reqs [])"
    by (simp add: new_port_rules_ordered)
  show keys: "fst ` set (new_port_rules only lc reqs []) = wanted_ports only reqs lc"
    using std.keys_find [OF ord] new_port_rules_found [of "[]" only lc reqs] by auto
  show "length (new_port_rules only lc reqs []) = card (wanted_ports only reqs lc)"
    using distinct_card [OF std.distinct_keys [OF ord]] by (simp add: keys)
  show "new_port_rules only lc reqs [] = [] \<longleftrightarrow> wanted_ports only reqs lc = {}"
    using keys by auto
qed

lemma new_port_rules_requests:
  "request_key ` set (map snd (new_port_rules only lc reqs [])) = wanted_ports only reqs lc"
  unfolding new_port_rules_wanted(1) [symmetric] using new_port_rules_mem(2) by (force simp: image_iff)

lemma refresh_plan_action:
  assumes "ordered (rules lc)"
  shows "plan_action (fst (begin_refresh_protocol_rules only reqs mx lc)) =
    (if destination_ipv4 (request_key only) \<in> victims_withdraw_requested lc then withdraw_in_progress
     else if protocol_only_rule (request_key only) lc then protocol_only_covers
     else if wanted_ports (request_key only) reqs lc = {} then no_new_port_rules
     else if card (port_rules_of (request_key only) lc) + card (wanted_ports (request_key only) reqs lc) > unat mx
     then escalate_protocol_only else add_port_rules)"
  using existing_scan_table [OF assms, of "request_key only"]
  by (auto simp: begin_refresh_protocol_rules_def Let_def new_port_rules_wanted split: prod.split)

text \<open>
  C11. The refresh uses its budget of port rules and escalates beyond it. Its plan is decided by the state alone: a
  fence or a rule for the whole protocol stops it, and so does a request without a new port; when the port rules
  of the victim and protocol together with the new ports exceed \<open>max_port_rules\<close> it reserves exactly one rule for
  the whole protocol and leaves the port rules alone; otherwise it reserves exactly the new ports, so that the victim
  has at most \<open>max_port_rules\<close> of them. The requests returned are exactly the reservations made, each
  in state announcing, and in the other cases the table stays as it is.
\<close>

theorem refresh_plan_within_budget:
  assumes "lifecycle_wf lc" "protocol_only_key (request_key only)"
    and "begin_refresh_protocol_rules only reqs mx lc = (plan, lc')"
  shows "plan_action plan =
          (if destination_ipv4 (request_key only) \<in> victims_withdraw_requested lc then withdraw_in_progress
           else if protocol_only_rule (request_key only) lc then protocol_only_covers
           else if wanted_ports (request_key only) reqs lc = {} then no_new_port_rules
           else if card (port_rules_of (request_key only) lc) + card (wanted_ports (request_key only) reqs lc) > unat mx
           then escalate_protocol_only else add_port_rules)
     \<and> (plan_action plan = add_port_rules \<longrightarrow>
            port_rules_of (request_key only) lc' = port_rules_of (request_key only) lc \<union> wanted_ports (request_key only) reqs lc
          \<and> card (port_rules_of (request_key only) lc') \<le> unat mx \<and> \<not> protocol_only_rule (request_key only) lc'
          \<and> request_key ` set (announce_requests plan) = wanted_ports (request_key only) reqs lc
          \<and> (\<forall>req \<in> set (announce_requests plan). map_find (rules lc) (request_key req) = None
               \<and> map_option state (map_find (rules lc') (request_key req)) = Some announcing))
     \<and> (plan_action plan = escalate_protocol_only \<longrightarrow>
            announce_requests plan = [only] \<and> \<not> protocol_only_rule (request_key only) lc
          \<and> map_option state (map_find (rules lc') (request_key only)) = Some announcing
          \<and> port_rules_of (request_key only) lc' = port_rules_of (request_key only) lc)
     \<and> (plan_action plan \<notin> {add_port_rules, escalate_protocol_only} \<longrightarrow> lc' = lc \<and> announce_requests plan = [])"
proof -
  note ord = lifecycle_wfD(1) [OF assms(1)]
  note decided = refresh_plan_action [OF ord, of only reqs mx, unfolded assms(3) fst_conv]
  from assms(3) ord show ?thesis
  proof (cases rule: refresh_plan_cases)
    case escalate
    then show ?thesis
      using escalated_plan [OF ord assms(2) escalate(3)] by (intro conjI [OF decided]) simp
  next
    case add
    then show ?thesis
      using added_ports [OF ord add(2), of reqs] new_port_rules_requests [of "request_key only" lc reqs]
        card_Un_le [of "port_rules_of (request_key only) lc" "wanted_ports (request_key only) reqs lc"]
      by (intro conjI [OF decided]) (simp add: port_rules_after_fold [OF ord] new_port_rules_wanted)
  qed (rule conjI [OF decided], simp)+
qed

definition example_port_request :: gobgp_flowspec_announce_request_t where
  "example_port_request = \<lparr>request_key = example_key\<lparr>destination_port_present := True, key_destination_port := 53\<rparr>,
     request_rule = flow_spec_rule_default\<rparr>"

lemma refresh_plan_within_budget_witness:
  "\<exists>plan lc'. begin_refresh_protocol_rules \<lparr>request_key = example_key, request_rule = flow_spec_rule_default\<rparr> [example_port_request] 10
       lifecycle_init = (plan, lc')
   \<and> plan_action plan = add_port_rules \<and> request_key ` set (announce_requests plan) = {request_key example_port_request}"
proof -
  let ?only = "\<lparr>request_key = example_key, request_rule = flow_spec_rule_default\<rparr>"
  obtain plan lc' where run: "begin_refresh_protocol_rules ?only [example_port_request] 10 lifecycle_init = (plan, lc')"
    by fastforce
  note defs = example_port_request_def example_key_def rule_key_default_def lifecycle_init_def
  have key: "protocol_only_key (request_key ?only)"
    by (simp add: protocol_only_key_def defs)
  have action: "plan_action plan = add_port_rules"
    using run by (auto simp: begin_refresh_protocol_rules_def Let_def map_emplace_def defs)
  have "wanted_ports (request_key ?only) [example_port_request] lifecycle_init = {request_key example_port_request}"
    by (auto simp: wanted_ports_def same_protocol_def defs)
  then show ?thesis
    using refresh_plan_within_budget [OF lifecycle_wf_init key run, THEN conjunct2, THEN conjunct1, rule_format, OF action] run action
    by simp
qed

text \<open>
  Escalation keeps the victim covered: when the cleanup removes port rules it does so only
  while the protocol-only rule that replaces them is installed; that rule, every rule for another
  protocol or victim and every rule without a port stay as they are, and the requests returned are
  deletions of port rules of that protocol with their UUIDs.
\<close>

lemma escalation_keeps_coverage:
  assumes "lifecycle_wf lc" "protocol_only_key only_key"
    and "begin_protocol_only_escalation_cleanup only_key lc = (reqs, lc')" "lc' \<noteq> lc \<or> reqs \<noteq> []"
  shows "map_option state (map_find (rules lc') only_key) = Some installed
    \<and> (\<forall>k. \<not> (same_protocol only_key k \<and> destination_port_present k) \<longrightarrow> map_find (rules lc') k = map_find (rules lc) k)
    \<and> (\<forall>k st. map_find (rules lc') k = Some st \<and> same_protocol only_key k \<and> destination_port_present k \<longrightarrow> leaving st)
    \<and> (\<forall>req \<in> set reqs. same_protocol only_key (withdraw_key req) \<and> destination_port_present (withdraw_key req)
         \<and> withdraw_uuid req \<noteq> [])"
proof (intro conjI)
  let ?enabled = "(\<exists>st. map_find (rules lc) only_key = Some st \<and> state st = installed)
    \<and> destination_ipv4 only_key \<notin> victims_withdraw_requested lc"
  have enabled: ?enabled
    using assms(3,4) cleanup_eq [of only_key lc] by (cases ?enabled) (simp_all add: if_not_P)
  then obtain st0 where st0: "map_find (rules lc) only_key = Some st0" "state st0 = installed"
    by blast
  have run: "rules lc' = map_adjust (cleanup_next only_key) (rules lc)"
      "reqs = map request_of (filter (\<lambda>e. same_protocol only_key (fst e) \<and> destination_port_present (fst e)
         \<and> deletable (snd e)) (rules lc))"
    using assms(3) by (auto simp: cleanup_eq if_P [OF enabled] cleanup_loop_requests)
  have same: "map_find (rules lc') k = map_find (rules lc) k"
    if "\<not> (same_protocol only_key k \<and> destination_port_present k)" for k
    using that by (cases "map_find (rules lc) k") (auto simp: run map_laws cleanup_next_def)
  then show "\<forall>k. \<not> (same_protocol only_key k \<and> destination_port_present k) \<longrightarrow> map_find (rules lc') k = map_find (rules lc) k"
    by blast
  show "map_option state (map_find (rules lc') only_key) = Some installed"
    using same [of only_key] st0 assms(2) by (simp add: protocol_only_key_def)
  have "leaving (cleanup_next only_key k st)" if "same_protocol only_key k" "destination_port_present k" for k st
    using that by (cases "state st") (auto simp: cleanup_next_def leaving_def)
  then show "\<forall>k st. map_find (rules lc') k = Some st \<and> same_protocol only_key k \<and> destination_port_present k \<longrightarrow> leaving st"
    by (auto simp: run map_laws)
  have "uuid_ok st" if "(k, st) \<in> set (rules lc)" for k st
    using that lifecycle_wfD(2) [OF assms(1)] ordered_find_mem [OF lifecycle_wfD(1) [OF assms(1)]] by blast
  then show "\<forall>req \<in> set reqs. same_protocol only_key (withdraw_key req) \<and> destination_port_present (withdraw_key req)
         \<and> withdraw_uuid req \<noteq> []"
    by (auto simp: run request_of_def deletable_def uuid_ok_def)
qed

definition example_port_state :: lifecycle where
  "example_port_state = example_lifecycle\<lparr>rules :=
     [(example_key, example_state installed), (request_key example_port_request, example_state installed)]\<rparr>"

lemma escalation_keeps_coverage_witness:
  "map (key_destination_port \<circ> withdraw_key) (fst (begin_protocol_only_escalation_cleanup example_key example_port_state)) = [53]
   \<and> map_option state (map_find (rules (snd (begin_protocol_only_escalation_cleanup example_key example_port_state))) example_key)
      = Some installed"
proof -
  obtain reqs lc' where run: "begin_protocol_only_escalation_cleanup example_key example_port_state = (reqs, lc')"
    by fastforce
  note defs = example_port_state_def example_lifecycle_def lifecycle_init_def example_state_def
    example_port_request_def example_key_def rule_key_default_def
  have "lifecycle_wf example_port_state"
    by (auto simp: lifecycle_wf_def defs uuid_ok_def less_gobgp_flowspec_rule_key_t_ext_def rule_key_tie_def
        split: if_splits)
  moreover have "protocol_only_key example_key"
    by (simp add: protocol_only_key_def defs)
  moreover have reqs: "map (key_destination_port \<circ> withdraw_key) reqs = [53]"
    using run by (auto simp: begin_protocol_only_escalation_cleanup_def defs)
  ultimately show ?thesis
    using escalation_keeps_coverage [OF _ _ run] run by fastforce
qed

subsection \<open>Rule keys\<close>

lemma build_key_fields:
  assumes "build_gobgp_flowspec_rule_key r = Some k"
  shows "destination_ipv4 k = subnet_address (destination_subnet_ipv4 r)"
    and "protocols r = (if protocol_present k then [key_protocol k] else [])"
    and "destination_ports r = (if destination_port_present k then [key_destination_port k] else [])"
    and "\<not> protocol_present k \<Longrightarrow> key_protocol k = HOPOPT"
    and "\<not> destination_port_present k \<Longrightarrow> key_destination_port k = 0"
  using assms
  by (auto simp: build_gobgp_flowspec_rule_key_def rule_key_default_def Let_def
      split: if_splits list.splits)

text \<open>
  The key of a rule identifies what it matches: rules that have a key have the same key only
  when they agree on the destination host, the protocol and the destination port.
\<close>

lemma rule_key_identifies_match:
  assumes "build_gobgp_flowspec_rule_key r = Some k" "build_gobgp_flowspec_rule_key r' = Some k'"
  shows "k = k' \<longleftrightarrow> subnet_address (destination_subnet_ipv4 r) = subnet_address (destination_subnet_ipv4 r')
     \<and> protocols r = protocols r' \<and> destination_ports r = destination_ports r'"
  using build_key_fields [OF assms(1)] build_key_fields [OF assms(2)]
  by (cases k; cases k') (auto split: if_splits)


end
