(* ===== verification/Rule_Builder.thy ===== *)
theory Rule_Builder
  imports Lifecycle
begin

text \<open>
  \<^verbatim>\<open>src/actions/gobgp_flowspec_protocol_admission.{hpp,cpp}\<close> decides which protocols of a victim
  are attacked, and \<^verbatim>\<open>src/actions/gobgp_flowspec_rule_builder.{hpp,cpp}\<close> turns a victim, an
  attack and the configured action into the FlowSpec rule to announce.
\<close>

section \<open>Protocol admission\<close>

record gobgp_flowspec_protocol_admission_snapshot_t =
  snapshot_victim_ipv4 :: u32
  snapshot_host_group_name :: string
  total_in_pps :: u64
  tcp_in_pps :: u64
  udp_in_pps :: u64
  icmp_in_pps :: u64
  tcp_pps_enabled :: bool
  tcp_pps_threshold :: u32
  udp_pps_enabled :: bool
  udp_pps_threshold :: u32
  icmp_pps_enabled :: bool
  icmp_pps_threshold :: u32

text \<open>\<^verbatim>\<open>std::set::insert\<close> on the ascending list of the elements.\<close>

definition set_insert :: "'a::linorder \<Rightarrow> 'a list \<Rightarrow> 'a list" where
  "set_insert x xs = (if x \<in> set xs then xs else insort x xs)"

text \<open>The 64-bit rates are compared with the thresholds converted to 64 bits.\<close>

definition get_gobgp_flowspec_active_protocols ::
    "gobgp_flowspec_protocol_admission_snapshot_t \<Rightarrow> ip_protocol_t list" where
  "get_gobgp_flowspec_active_protocols snapshot =
     (let active = [];
          active = (if tcp_pps_enabled snapshot \<and> tcp_in_pps snapshot > ucast (tcp_pps_threshold snapshot)
                    then set_insert TCP active else active);
          active = (if udp_pps_enabled snapshot \<and> udp_in_pps snapshot > ucast (udp_pps_threshold snapshot)
                    then set_insert UDP active else active);
          active = (if icmp_pps_enabled snapshot \<and> icmp_in_pps snapshot > ucast (icmp_pps_threshold snapshot)
                    then set_insert ICMP active else active)
      in active)"

section \<open>Parsing the configuration\<close>

definition parse_uint32_strict :: "string \<Rightarrow> u32 option" where
  "parse_uint32_strict value_text =
     (if value_text = [] then None
      else case from_chars 32 value_text of
             Some (n, []) \<Rightarrow> Some (of_nat n)
           | _ \<Rightarrow> None)"

definition parse_gobgp_flowspec_action :: "string \<Rightarrow> bgp_flow_spec_action_types_t option" where
  "parse_gobgp_flowspec_action action_name =
     (if action_name = ''redirect'' then Some FLOW_SPEC_ACTION_REDIRECT
      else if action_name = ''discard'' then Some FLOW_SPEC_ACTION_DISCARD
      else if action_name = ''redirect-vrf'' then Some FLOW_SPEC_ACTION_REDIRECT_VRF
      else None)"

text \<open>\<open>find\<close> and \<open>rfind\<close> of the colon agree when the text holds exactly one.\<close>

definition parse_gobgp_flowspec_redirect_rt :: "string \<Rightarrow> (u32 \<times> u32) option" where
  "parse_gobgp_flowspec_redirect_rt route_target =
     (let front = takeWhile (\<lambda>c. c \<noteq> CHR '':'') route_target;
          back = dropWhile (\<lambda>c. c \<noteq> CHR '':'') route_target
      in if back = [] \<or> CHR '':'' \<in> set (tl back) then None
         else case (parse_uint32_strict front, parse_uint32_strict (tl back)) of
                (Some asn, Some v) \<Rightarrow> if asn \<le> 65535 \<or> v \<le> 65535 then Some (asn, v) else None
              | _ \<Rightarrow> None)"

section \<open>Building a rule\<close>

definition build_gobgp_flowspec_ipv4_rule ::
    "u32 \<Rightarrow> attack_details_t \<Rightarrow> u32 \<Rightarrow> u16 option \<Rightarrow> bgp_flow_spec_action_types_t \<Rightarrow> u32 \<Rightarrow> u32
     \<Rightarrow> flow_spec_rule_t" where
  "build_gobgp_flowspec_ipv4_rule victim_ipv4 current_attack redirect_ipv4 port action_ty rt_as rt_value =
     (let r = set_destination_subnet_ipv4 (subnet_cidr_mask victim_ipv4 32) flow_spec_rule_default;
          a = action_default\<lparr>action_type := action_ty, redirect_rt_as := rt_as, redirect_rt_value := rt_value\<rparr>;
          r = set_action a r;
          r = (if action_ty = FLOW_SPEC_ACTION_REDIRECT then add_ipv4_nexthop redirect_ipv4 r else r)
      in if attack_protocol current_attack = ucast TCP
         then let r = add_protocol TCP r in (case port of Some p \<Rightarrow> add_destination_port p r | None \<Rightarrow> r)
         else if attack_protocol current_attack = ucast UDP
         then let r = add_protocol UDP r in (case port of Some p \<Rightarrow> add_destination_port p r | None \<Rightarrow> r)
         else if attack_protocol current_attack = ucast ICMP then add_protocol ICMP r
         else r)"

section \<open>Facts\<close>

lemma set_set_insert [simp]: "set (set_insert x xs) = insert x (set xs)"
  by (auto simp: set_insert_def set_insort_key)

lemma sorted_set_insert: "sorted_wrt (<) xs \<Longrightarrow> sorted_wrt (<) (set_insert x xs)"
  by (auto simp: set_insert_def strict_sorted_iff sorted_insort distinct_insort)

lemma parse_uint32_dec_string:
  "parse_uint32_strict (dec_string (unat w)) = Some w"
  using from_chars_dec_string [of "unat w" 32 "[]"] unat_lt_2p [of w] by (simp add: parse_uint32_strict_def)

lemma parse_uint32_digits:
  "parse_uint32_strict s = Some w \<longleftrightarrow>
     s \<noteq> [] \<and> list_all is_digit s \<and> digits_value s < 2 ^ 32 \<and> w = of_nat (digits_value s)"
proof
  assume "parse_uint32_strict s = Some w"
  then obtain n where "from_chars 32 s = Some (n, [])" "w = of_nat n"
    by (auto simp: parse_uint32_strict_def split: if_splits option.splits list.splits prod.splits)
  then show "s \<noteq> [] \<and> list_all is_digit s \<and> digits_value s < 2 ^ 32 \<and> w = of_nat (digits_value s)"
    using from_chars_all [of 32 s n] by auto
next
  assume s: "s \<noteq> [] \<and> list_all is_digit s \<and> digits_value s < 2 ^ 32 \<and> w = of_nat (digits_value s)"
  then have "takeWhile is_digit s = s" and "dropWhile is_digit s = []"
    using takeWhile_digits [of s "[]"] by auto
  with s have "from_chars 32 s = Some (digits_value s, [])"
    unfolding from_chars_def Let_def \<open>takeWhile is_digit s = s\<close> by simp
  with s show "parse_uint32_strict s = Some w"
    by (simp add: parse_uint32_strict_def)
qed

lemma parse_redirect_rt_colon:
  assumes "CHR '':'' \<notin> set s" "CHR '':'' \<notin> set t"
  shows "parse_gobgp_flowspec_redirect_rt (s @ CHR '':'' # t) =
    (case (parse_uint32_strict s, parse_uint32_strict t) of
       (Some asn, Some v) \<Rightarrow> if asn \<le> 65535 \<or> v \<le> 65535 then Some (asn, v) else None | _ \<Rightarrow> None)"
  using split_at_colon [OF assms(1), of t] assms(2) by (simp add: parse_gobgp_flowspec_redirect_rt_def)

lemma built_rule_key:
  "build_gobgp_flowspec_rule_key (build_gobgp_flowspec_ipv4_rule victim attack redirect port a rt_as rt_value) =
     Some (let p = attack_protocol attack; known = (p = ucast TCP \<or> p = ucast UDP \<or> p = ucast ICMP);
               ported = ((p = ucast TCP \<or> p = ucast UDP) \<and> port \<noteq> None)
           in \<lparr>destination_ipv4 = victim, protocol_present = known,
               key_protocol = (if known then ucast p else HOPOPT),
               destination_port_present = ported, key_destination_port = (if ported then the port else 0)\<rparr>)"
  by (cases port)
    (auto simp: build_gobgp_flowspec_rule_key_def build_gobgp_flowspec_ipv4_rule_def rule_setters
      flow_spec_rule_default_def subnet_cidr_mask_def rule_key_default_def Let_def protocol_defs)

section \<open>Properties\<close>

text \<open>
  A protocol is admitted exactly when its threshold is enabled and its rate is strictly above
  it; the admitted protocols come in ascending order, each once.
\<close>

lemma admission_exact:
  "set (get_gobgp_flowspec_active_protocols s) =
     {p. (p = TCP \<and> tcp_pps_enabled s \<and> unat (tcp_in_pps s) > unat (tcp_pps_threshold s))
       \<or> (p = UDP \<and> udp_pps_enabled s \<and> unat (udp_in_pps s) > unat (udp_pps_threshold s))
       \<or> (p = ICMP \<and> icmp_pps_enabled s \<and> unat (icmp_in_pps s) > unat (icmp_pps_threshold s))}
   \<and> sorted_wrt (<) (get_gobgp_flowspec_active_protocols s)"
proof -
  have "(ucast t < (x :: u64)) = (unat (t :: u32) < unat x)" for t x
    by (simp add: word_less_nat_alt unat_ucast_up)
  then show ?thesis
    by (auto simp: get_gobgp_flowspec_active_protocols_def Let_def intro!: sorted_set_insert split: if_splits)
qed

text \<open>
  Route targets round-trip: the printed form of two numbers is read back as those numbers, and
  is accepted exactly when one of the two fits in 16 bits.
\<close>

lemma redirect_rt_roundtrip:
  "parse_gobgp_flowspec_redirect_rt (dec_string (unat asn) @ '':'' @ dec_string (unat v)) =
     (if asn \<le> 65535 \<or> v \<le> 65535 then Some (asn, v) else None)"
  using parse_redirect_rt_colon [OF digits_no_colon digits_no_colon, OF dec_string_digits dec_string_digits, of "unat asn" "unat v"]
  by (simp add: parse_uint32_dec_string)

text \<open>
  Nothing else is accepted as a route target: an accepted text is two runs of decimal digits
  around one colon, whose values fit in 32 bits and are returned, and one of them fits in 16 bits.
\<close>

lemma redirect_rt_strict:
  assumes "parse_gobgp_flowspec_redirect_rt text = Some (asn, v)"
  shows "\<exists>s t. text = s @ '':'' @ t \<and> s \<noteq> [] \<and> t \<noteq> [] \<and> list_all is_digit s \<and> list_all is_digit t
     \<and> digits_value s = unat asn \<and> digits_value t = unat v \<and> (unat asn < 2 ^ 16 \<or> unat v < 2 ^ 16)"
proof -
  let ?s = "takeWhile (\<lambda>c. c \<noteq> CHR '':'') text" and ?b = "dropWhile (\<lambda>c. c \<noteq> CHR '':'') text"
  have ok: "?b \<noteq> []" "parse_uint32_strict ?s = Some asn" "parse_uint32_strict (tl ?b) = Some v"
    "asn \<le> 65535 \<or> v \<le> 65535"
    using assms by (auto simp: parse_gobgp_flowspec_redirect_rt_def Let_def split: if_splits option.splits)
  have "hd ?b = CHR '':''"
    using hd_dropWhile [OF ok(1)] by simp
  then have "text = ?s @ '':'' @ tl ?b"
    using ok(1) by (metis append_Cons append_Nil list.collapse takeWhile_dropWhile_id)
  moreover have "unat asn < 2 ^ 16 \<or> unat v < 2 ^ 16"
    using ok(4) by (auto simp: word_le_nat_alt)
  moreover have "?s \<noteq> []" "tl ?b \<noteq> []" "list_all is_digit ?s" "list_all is_digit (tl ?b)"
      "digits_value ?s = unat asn" "digits_value (tl ?b) = unat v"
    using ok(2,3) unfolding parse_uint32_digits by (auto simp: unsigned_of_nat take_bit_nat_eq_self)
  ultimately show ?thesis
    by blast
qed

lemma redirect_rt_strict_witness:
  "\<exists>s t. ''65001:7'' = s @ '':'' @ t \<and> s \<noteq> [] \<and> t \<noteq> [] \<and> list_all is_digit s \<and> list_all is_digit t
     \<and> digits_value s = unat (65001 :: u32) \<and> digits_value t = unat (7 :: u32)
     \<and> (unat (65001 :: u32) < 2 ^ 16 \<or> unat (7 :: u32) < 2 ^ 16)"
  by (rule redirect_rt_strict)
    (simp add: parse_gobgp_flowspec_redirect_rt_def parse_uint32_strict_def from_chars_def is_digit_def digits_value_def)

text \<open>
  Every rule the builder makes has a lifecycle key, and the key says what the attack asked
  for: the victim as a single host, the protocol when it is TCP, UDP or ICMP, and the port only
  for TCP and UDP.
\<close>

lemma built_rule_has_key:
  "build_gobgp_flowspec_rule_key (build_gobgp_flowspec_ipv4_rule victim attack redirect port a rt_as rt_value) =
     Some (let p = attack_protocol attack; known = (p = ucast TCP \<or> p = ucast UDP \<or> p = ucast ICMP);
               ported = ((p = ucast TCP \<or> p = ucast UDP) \<and> port \<noteq> None)
           in \<lparr>destination_ipv4 = victim, protocol_present = known,
               key_protocol = (if known then ucast p else HOPOPT),
               destination_port_present = ported, key_destination_port = (if ported then the port else 0)\<rparr>)"
  by (rule built_rule_key)

end
