(* ===== verification/Ip_Text.thy ===== *)
theory Ip_Text
  imports Flow_Spec_Types
begin

text \<open>
  The text forms of addresses, as \<^verbatim>\<open>src/fast_library.cpp\<close> prints and reads them with
  \<^verbatim>\<open>inet_ntoa\<close> and \<^verbatim>\<open>inet_aton\<close>. Addresses are kept in network byte order: the first byte in
  memory is the first number of the dotted form.
\<close>

section \<open>Printing\<close>

fun join :: "string \<Rightarrow> string list \<Rightarrow> string" where
  "join sep [] = []"
| "join sep [x] = x"
| "join sep (x # y # xs) = x @ sep @ join sep (y # xs)"

text \<open>\<^verbatim>\<open>inet_ntoa\<close>\<close>

definition convert_ip_as_uint_to_string :: "u32 \<Rightarrow> string" where
  "convert_ip_as_uint_to_string ip_as_integer = join ''.'' (map (dec_string \<circ> unat) (mem32 ip_as_integer))"

definition convert_ipv4_subnet_to_string :: "subnet_cidr_mask_t \<Rightarrow> string" where
  "convert_ipv4_subnet_to_string subnet =
     convert_ip_as_uint_to_string (subnet_address subnet) @ ''/'' @ dec_string (unat (cidr_prefix_length subnet))"

section \<open>Reading\<close>

text \<open>
  \<^verbatim>\<open>strtoul(s, &end, 0)\<close> on a text that starts with a digit: hexadecimal after \<^verbatim>\<open>0x\<close>, octal
  after \<^verbatim>\<open>0\<close>, decimal otherwise; the value and the rest of the text.
\<close>

definition is_octal :: "char \<Rightarrow> bool" where
  "is_octal c \<longleftrightarrow> 48 \<le> (of_char c :: nat) \<and> (of_char c :: nat) \<le> 55"

definition is_hex :: "char \<Rightarrow> bool" where
  "is_hex c \<longleftrightarrow> is_digit c \<or> (65 \<le> (of_char c :: nat) \<and> (of_char c :: nat) \<le> 70)
     \<or> (97 \<le> (of_char c :: nat) \<and> (of_char c :: nat) \<le> 102)"

definition hex_value :: "char \<Rightarrow> nat" where
  "hex_value c = (if is_digit c then of_char c - 48
     else if of_char c \<le> (70 :: nat) then of_char c - 55 else of_char c - 87)"

definition base_value :: "nat \<Rightarrow> string \<Rightarrow> nat" where
  "base_value b s = foldl (\<lambda>n c. b * n + hex_value c) 0 s"

definition strtoul_any_base :: "string \<Rightarrow> nat \<times> string" where
  "strtoul_any_base s =
     (if hd s \<noteq> CHR ''0'' then (base_value 10 (takeWhile is_digit s), dropWhile is_digit s)
      else if length s > 2 \<and> (s ! 1 = CHR ''x'' \<or> s ! 1 = CHR ''X'') \<and> is_hex (s ! 2)
      then (base_value 16 (takeWhile is_hex (drop 2 s)), dropWhile is_hex (drop 2 s))
      else (base_value 8 (takeWhile is_octal s), dropWhile is_octal s))"

text \<open>
  \<^verbatim>\<open>inet_aton\<close>: up to four numbers separated by dots, all but the last of one byte; the last one
  fills the remaining bytes and may be followed by white space. The first argument bounds the
  dots that may still come, \<open>parts\<close> are the bytes read so far.
\<close>

fun aton_parts :: "nat \<Rightarrow> nat list \<Rightarrow> string \<Rightarrow> nat option" where
  "aton_parts dots parts s =
     (if s = [] \<or> \<not> is_digit (hd s) then None
      else let (v, rest) = strtoul_any_base s in
        if v \<ge> 2 ^ 32 then None
        else if rest \<noteq> [] \<and> hd rest = CHR ''.''
        then (case dots of 0 \<Rightarrow> None
              | Suc d \<Rightarrow> if v > 255 then None else aton_parts d (parts @ [v]) (tl rest))
        else if rest \<noteq> [] \<and> \<not> is_space (hd rest) then None
        else if v \<ge> 256 ^ (4 - length parts) then None
        else Some (foldl (\<lambda>n b. 256 * n + b) 0 parts * 256 ^ (4 - length parts) + v))"

declare aton_parts.simps [simp del]

definition convert_ip_as_string_to_uint_safe :: "string \<Rightarrow> u32 option" where
  "convert_ip_as_string_to_uint_safe ip =
     map_option (htonl \<circ> of_nat) (aton_parts 3 [] (takeWhile (\<lambda>c. c \<noteq> CHR 0x00) ip))"

section \<open>Facts\<close>

lemma dec_string_leading_zero: "hd (dec_string n) = CHR ''0'' \<longleftrightarrow> n = 0"
proof (induction n rule: dec_string.induct)
  case (1 n)
  have "char_of (48 + n) = CHR ''0'' \<longleftrightarrow> n = 0" if "n < 10"
    using that by (simp add: char_of_eq_iff take_bit_nat_eq_self)
  then show ?case
    using 1 by (subst (1) dec_string.simps) (simp add: div_greater_zero_iff)
qed

lemma digit_facts: "is_digit c \<Longrightarrow> is_hex c \<and> hex_value c = of_char c - 48 \<and> c \<noteq> CHR ''.'' \<and> c \<noteq> CHR 0x00"
  by (auto simp: is_hex_def hex_value_def is_digit_def)

lemma base_value_digits: "list_all is_digit s \<Longrightarrow> base_value 10 s = digits_value s"
  unfolding base_value_def digits_value_def
  by (rule foldl_cong) (auto simp: list_all_iff digit_facts)

lemma strtoul_dec_string:
  assumes "rest = [] \<or> hd rest = CHR ''.''"
  shows "strtoul_any_base (dec_string n @ rest) = (n, rest)"
proof (cases "n = 0")
  case True
  then have n: "dec_string n = ''0''"
    by (subst dec_string.simps) (simp add: char_of_eq_iff)
  have "rest = [] \<or> \<not> is_octal (hd rest)" "length (''0'' @ rest) > 2 \<Longrightarrow> hd rest = CHR ''.''"
    using assms by (auto simp: is_octal_def)
  then show ?thesis
    unfolding n using True
    by (cases rest) (auto simp: strtoul_any_base_def is_octal_def base_value_def hex_value_def is_digit_def)
next
  case False
  have "rest = [] \<or> \<not> is_digit (hd rest)"
    using assms by (auto simp: is_digit_def)
  note run = takeWhile_digits [OF dec_string_digits this, of n]
  have "hd (dec_string n @ rest) \<noteq> CHR ''0''"
    using False dec_string_leading_zero [of n] by (simp add: hd_append)
  then show ?thesis
    using run by (simp add: strtoul_any_base_def base_value_digits dec_string_digits)
qed

lemma dec_string_starts_with_digit: "is_digit (hd (dec_string n @ s))"
  using dec_string_digits [of n] dec_string_not_Nil [of n] by (cases "dec_string n") auto

lemma aton_parts_dot:
  "n < 256 \<Longrightarrow> aton_parts (Suc d) parts (dec_string n @ CHR ''.'' # s) = aton_parts d (parts @ [n]) s"
  using strtoul_dec_string [of "CHR ''.'' # s" n] dec_string_starts_with_digit [of n "CHR ''.'' # s"]
  by (subst aton_parts.simps) simp

lemma aton_parts_last:
  "n < 256 \<Longrightarrow> aton_parts 0 [a, b, c] (dec_string n) = Some (((a * 256 + b) * 256 + c) * 256 + n)"
  using strtoul_dec_string [of "[]" n] dec_string_starts_with_digit [of n "[]"]
  by (subst aton_parts.simps) (simp add: algebra_simps)

lemma join_chars: "c \<in> set (join sep xs) \<Longrightarrow> c \<in> set sep \<or> (\<exists>x \<in> set xs. c \<in> set x)"
  by (induction sep xs rule: join.induct) auto

lemma ip_string_chars:
  "c \<in> set (convert_ip_as_uint_to_string w) \<Longrightarrow> is_digit c \<or> c = CHR ''.''"
  using dec_string_digits
  by (auto simp: convert_ip_as_uint_to_string_def list_all_iff dest!: join_chars)

lemma of_nat_mem32: 
  "of_nat (((unat a * 256 + unat b) * 256 + unat c) * 256 + unat d) = htonl (of_mem32 a b c d)" for a b c d :: u8
proof -
  have or: "x + push_bit n y = x OR push_bit n y" if "\<And>i. bit x i \<Longrightarrow> i < n" for x y :: u32 and n
    using that by (intro disjunctive_add) (force simp: bit_push_bit_iff)
  have "htonl (of_mem32 a b c d) = of_mem32 d c b a"
    by (simp add: htonl_def wire_simps)
  also have "\<dots> = ucast d + push_bit 8 (ucast c) + push_bit 16 (ucast b) + push_bit 24 (ucast a)"
    unfolding of_mem32_def
    by (subst or; (subst or)?; (subst or)?) (auto simp: bit_simps or.assoc dest: bit_imp_le_length)
  finally show ?thesis
    by (simp add: push_bit_eq_mult algebra_simps)
qed

lemma read_ip_string:
  "convert_ip_as_string_to_uint_safe (convert_ip_as_uint_to_string w) = Some w"
proof -
  let ?b = "\<lambda>n. ucast (drop_bit n w) :: u8"
  have b: "unat (x :: u8) < 256" for x
    using unat_lt_2p [of x] by simp
  have dotted: "convert_ip_as_uint_to_string w = dec_string (unat (ucast w :: u8)) @ CHR ''.'' #
      dec_string (unat (?b 8)) @ CHR ''.'' # dec_string (unat (?b 16)) @ CHR ''.'' # dec_string (unat (?b 24))"
    by (simp add: convert_ip_as_uint_to_string_def mem32_def)
  have "takeWhile (\<lambda>c. c \<noteq> CHR 0x00) (convert_ip_as_uint_to_string w) = convert_ip_as_uint_to_string w"
    using ip_string_chars digit_facts by (auto simp: takeWhile_eq_all_conv)
  moreover have "aton_parts 3 [] (convert_ip_as_uint_to_string w) =
      Some (((unat (ucast w :: u8) * 256 + unat (?b 8)) * 256 + unat (?b 16)) * 256 + unat (?b 24))"
    unfolding dotted numeral_3_eq_3 by (simp add: aton_parts_dot aton_parts_last b)
  ultimately show ?thesis
    by (simp only: convert_ip_as_string_to_uint_safe_def option.map o_apply of_nat_mem32 htonl_htonl of_mem32_bytes)
qed

lemma ip_string_inj: "convert_ip_as_uint_to_string v = convert_ip_as_uint_to_string w \<longleftrightarrow> v = w"
  by (metis option.inject read_ip_string)

end
