(* ===== verification/Binary_Buffer.thy ===== *)
theory Binary_Buffer
  imports Fnm_Prelude
begin

text \<open>
  \<^verbatim>\<open>src/dynamic_binary_buffer.hpp\<close>, the append-only buffer all BGP messages are built in, the
  result type of the encoders and decoders, and the interface every wire format of the
  development is verified against.
\<close>

section \<open>Results\<close>

text \<open>
  \<open>Done\<close> for a function that returns \<^verbatim>\<open>true\<close>, \<open>Failed\<close> for one that returns
  \<^verbatim>\<open>false\<close>, \<open>Undefined\<close> where the C++ code reads outside of an object, shifts by the width of
  the type or converts a floating point number out of range.
\<close>

datatype 'a outcome = Done 'a | Failed | Undefined

fun and_then :: "'a outcome \<Rightarrow> ('a \<Rightarrow> 'b outcome) \<Rightarrow> 'b outcome" where
  "and_then (Done x) f = f x"
| "and_then Failed f = Failed"
| "and_then Undefined f = Undefined"

fun of_option :: "'a option \<Rightarrow> 'a outcome" where
  "of_option (Some x) = Done x"
| "of_option None = Failed"

lemma and_then_Done_iff: "and_then m f = Done y \<longleftrightarrow> (\<exists>x. m = Done x \<and> f x = Done y)"
  by (cases m) auto

lemma of_option_Done_iff [simp]: "of_option m = Done x \<longleftrightarrow> m = Some x"
  by (cases m) auto

section \<open>The buffer\<close>

text \<open>
  \<open>buffer_data\<close> are the used bytes of \<^verbatim>\<open>byte_storage\<close>, so \<^verbatim>\<open>internal_data_shift\<close> is their
  number; the bytes behind them are never read. \<open>buffer_allocated\<close> says that
  \<^verbatim>\<open>byte_storage\<close> is not null. Memory exhaustion is not modelled: an allocation succeeds.
\<close>

record dynamic_binary_buffer_t =
  buffer_data :: bytes
  buffer_allocated :: bool
  internal_storage_size :: nat
  errors_occured :: bool

definition new_buffer :: dynamic_binary_buffer_t where
  "new_buffer = \<lparr>buffer_data = [], buffer_allocated = False, internal_storage_size = 0, errors_occured = False\<rparr>"

text \<open>The move constructor returns the new object and the emptied source.\<close>

definition move_buffer :: "dynamic_binary_buffer_t \<Rightarrow> dynamic_binary_buffer_t \<times> dynamic_binary_buffer_t" where
  "move_buffer source_buffer = (source_buffer, new_buffer)"

definition set_buffer_size_in_bytes :: "nat \<Rightarrow> dynamic_binary_buffer_t \<Rightarrow> bool \<times> dynamic_binary_buffer_t" where
  "set_buffer_size_in_bytes sz b =
     (if buffer_allocated b then (False, b)
      else (True, b\<lparr>buffer_allocated := True, internal_storage_size := sz\<rparr>))"

text \<open>The copy constructor copies the storage and the position; the error flag starts cleared.\<close>

definition copy_buffer :: "dynamic_binary_buffer_t \<Rightarrow> dynamic_binary_buffer_t" where
  "copy_buffer that =
     (let this = new_buffer\<lparr>internal_storage_size := internal_storage_size that, buffer_data := buffer_data that\<rparr>
      in if internal_storage_size this > 0
         then snd (set_buffer_size_in_bytes (internal_storage_size this) this) else this)"

definition append_data_as_pointer :: "bytes \<Rightarrow> dynamic_binary_buffer_t \<Rightarrow> bool \<times> dynamic_binary_buffer_t" where
  "append_data_as_pointer data b =
     (if length (buffer_data b) + length data > internal_storage_size b
      then (False, b\<lparr>errors_occured := True\<rparr>)
      else (True, b\<lparr>buffer_data := buffer_data b @ data\<rparr>))"

definition append_byte :: "u8 \<Rightarrow> dynamic_binary_buffer_t \<Rightarrow> bool \<times> dynamic_binary_buffer_t" where
  "append_byte byte b =
     (if length (buffer_data b) + 1 > internal_storage_size b
      then (False, b\<lparr>errors_occured := True\<rparr>)
      else (True, b\<lparr>buffer_data := buffer_data b @ [byte]\<rparr>))"

text \<open>An object is the list of its bytes in memory.\<close>

definition append_data_as_object_ptr :: "bytes \<Rightarrow> dynamic_binary_buffer_t \<Rightarrow> bool \<times> dynamic_binary_buffer_t" where
  "append_data_as_object_ptr obj b =
     (if length (buffer_data b) + length obj > internal_storage_size b
      then (False, b\<lparr>errors_occured := True\<rparr>)
      else (True, b\<lparr>buffer_data := buffer_data b @ obj\<rparr>))"

definition get_used_size :: "dynamic_binary_buffer_t \<Rightarrow> nat" where
  "get_used_size b = length (buffer_data b)"

definition get_full_size :: "dynamic_binary_buffer_t \<Rightarrow> nat" where
  "get_full_size b = internal_storage_size b"

definition is_failed :: "dynamic_binary_buffer_t \<Rightarrow> bool" where
  "is_failed b = errors_occured b"

definition append_dynamic_buffer ::
    "dynamic_binary_buffer_t \<Rightarrow> dynamic_binary_buffer_t \<Rightarrow> bool \<times> dynamic_binary_buffer_t" where
  "append_dynamic_buffer other b =
     (if length (buffer_data b) + get_used_size other > internal_storage_size b
      then (False, b\<lparr>errors_occured := True\<rparr>)
      else append_data_as_pointer (buffer_data other) b)"

text \<open>A call whose return value the caller drops.\<close>

definition allocate :: "nat \<Rightarrow> dynamic_binary_buffer_t \<Rightarrow> dynamic_binary_buffer_t" where
  "allocate sz b = snd (set_buffer_size_in_bytes sz b)"

definition put_byte :: "u8 \<Rightarrow> dynamic_binary_buffer_t \<Rightarrow> dynamic_binary_buffer_t" where
  "put_byte byte b = snd (append_byte byte b)"

definition put_object :: "bytes \<Rightarrow> dynamic_binary_buffer_t \<Rightarrow> dynamic_binary_buffer_t" where
  "put_object obj b = snd (append_data_as_object_ptr obj b)"

definition put_buffer :: "dynamic_binary_buffer_t \<Rightarrow> dynamic_binary_buffer_t \<Rightarrow> dynamic_binary_buffer_t" where
  "put_buffer other b = snd (append_dynamic_buffer other b)"

section \<open>The buffer as a bounded list of bytes\<close>

text \<open>The appends a buffer can receive.\<close>

datatype buffer_op = op_byte u8 | op_object bytes | op_pointer bytes | op_buffer dynamic_binary_buffer_t

fun buffer_op_data :: "buffer_op \<Rightarrow> bytes" where
  "buffer_op_data (op_byte x) = [x]"
| "buffer_op_data (op_object bs) = bs"
| "buffer_op_data (op_pointer bs) = bs"
| "buffer_op_data (op_buffer c) = buffer_data c"

fun buffer_apply :: "buffer_op \<Rightarrow> dynamic_binary_buffer_t \<Rightarrow> dynamic_binary_buffer_t" where
  "buffer_apply (op_byte x) b = snd (append_byte x b)"
| "buffer_apply (op_object bs) b = snd (append_data_as_object_ptr bs b)"
| "buffer_apply (op_pointer bs) b = snd (append_data_as_pointer bs b)"
| "buffer_apply (op_buffer c) b = snd (append_dynamic_buffer c b)"

lemma buffer_apply_cases:
  "buffer_apply a b =
     (if length (buffer_data b) + length (buffer_op_data a) \<le> internal_storage_size b
      then b\<lparr>buffer_data := buffer_data b @ buffer_op_data a\<rparr> else b\<lparr>errors_occured := True\<rparr>)"
  by (cases a)
    (simp_all add: append_byte_def append_data_as_object_ptr_def append_data_as_pointer_def
      append_dynamic_buffer_def get_used_size_def)

lemma buffer_apply_fits:
  "length (buffer_data b) + length (buffer_op_data a) \<le> internal_storage_size b \<Longrightarrow>
     buffer_apply a b = b\<lparr>buffer_data := buffer_data b @ buffer_op_data a\<rparr>"
  using buffer_apply_cases by simp

lemma buffer_apply_full:
  "\<not> length (buffer_data b) + length (buffer_op_data a) \<le> internal_storage_size b \<Longrightarrow>
     buffer_apply a b = b\<lparr>errors_occured := True\<rparr>"
  using buffer_apply_cases by simp

lemma buffer_run_failed: "errors_occured b \<Longrightarrow> errors_occured (fold buffer_apply ops b)"
proof (induction ops arbitrary: b)
  case (Cons a ops)
  have "errors_occured (buffer_apply a b)"
    using Cons.prems buffer_apply_cases [of a b] by simp
  then show ?case
    using Cons.IH by simp
qed simp

lemma buffer_run_size:
  "length (buffer_data b) \<le> internal_storage_size b \<Longrightarrow>
     length (buffer_data (fold buffer_apply ops b)) \<le> internal_storage_size b"
proof (induction ops arbitrary: b)
  case (Cons a ops)
  have "length (buffer_data (buffer_apply a b)) \<le> internal_storage_size b"
    and "internal_storage_size (buffer_apply a b) = internal_storage_size b"
    using Cons.prems buffer_apply_cases [of a b] by auto
  then show ?case
    using Cons.IH [of "buffer_apply a b"] by simp
qed simp

text \<open>Once a piece did not fit the error flag is set for good.\<close>

lemma buffer_run_cases:
  "if length (buffer_data b) + length (concat (map buffer_op_data ops)) \<le> internal_storage_size b
   then fold buffer_apply ops b = b\<lparr>buffer_data := buffer_data b @ concat (map buffer_op_data ops)\<rparr>
   else length (buffer_data b) \<le> internal_storage_size b \<longrightarrow> errors_occured (fold buffer_apply ops b)"
proof (induction ops arbitrary: b)
  case (Cons a ops)
  show ?case
  proof (cases "length (buffer_data b) + length (buffer_op_data a) \<le> internal_storage_size b")
    case True
    then show ?thesis
      using Cons.IH [of "b\<lparr>buffer_data := buffer_data b @ buffer_op_data a\<rparr>"]
      by (simp add: buffer_apply_fits add.assoc)
  next
    case False
    then show ?thesis
      by (simp add: buffer_apply_full buffer_run_failed)
  qed
qed simp

lemma put_as_op:
  "put_byte x = buffer_apply (op_byte x)" "put_object bs = buffer_apply (op_object bs)"
  "put_buffer c = buffer_apply (op_buffer c)"
  by (simp_all add: fun_eq_iff put_byte_def put_object_def put_buffer_def)

lemma put_fits:
  "length (buffer_data b) + length bs \<le> internal_storage_size b \<Longrightarrow>
     put_object bs b = b\<lparr>buffer_data := buffer_data b @ bs\<rparr>"
  "length (buffer_data b) + 1 \<le> internal_storage_size b \<Longrightarrow>
     put_byte x b = b\<lparr>buffer_data := buffer_data b @ [x]\<rparr>"
  "length (buffer_data b) + length (buffer_data c) \<le> internal_storage_size b \<Longrightarrow>
     put_buffer c b = b\<lparr>buffer_data := buffer_data b @ buffer_data c\<rparr>"
  by (simp_all add: put_object_def append_data_as_object_ptr_def put_byte_def append_byte_def put_buffer_def
      append_dynamic_buffer_def append_data_as_pointer_def get_used_size_def)

text \<open>A freshly allocated buffer with some content.\<close>

definition buffer_with :: "nat \<Rightarrow> bytes \<Rightarrow> dynamic_binary_buffer_t" where
  "buffer_with sz bs = \<lparr>buffer_data = bs, buffer_allocated = True, internal_storage_size = sz, errors_occured = False\<rparr>"

lemma buffer_with_simps [simp]:
  "buffer_data (buffer_with n bs) = bs" "internal_storage_size (buffer_with n bs) = n"
  "errors_occured (buffer_with n bs) = False" "buffer_allocated (buffer_with n bs) = True"
  by (simp_all add: buffer_with_def)

lemma buffer_with_update [simp]: "(buffer_with n bs)\<lparr>buffer_data := cs\<rparr> = buffer_with n cs"
  by (simp add: buffer_with_def)

lemma allocate_new [simp]: "allocate n new_buffer = buffer_with n []"
  by (simp add: allocate_def set_buffer_size_in_bytes_def new_buffer_def buffer_with_def)

lemma buffer_with_put [simp]:
  "length bs + length cs \<le> n \<Longrightarrow> put_object cs (buffer_with n bs) = buffer_with n (bs @ cs)"
  "length bs + 1 \<le> n \<Longrightarrow> put_byte x (buffer_with n bs) = buffer_with n (bs @ [x])"
  "length bs + length (buffer_data c) \<le> n \<Longrightarrow> put_buffer c (buffer_with n bs) = buffer_with n (bs @ buffer_data c)"
  by (simp_all add: put_fits buffer_with_def)

lemma fold_put_object:
  "length bs + length (concat (map f xs)) \<le> n \<Longrightarrow>
     fold (\<lambda>x. put_object (f x)) xs (buffer_with n bs) = buffer_with n (bs @ concat (map f xs))"
  by (induction xs arbitrary: bs) simp_all

lemma copy_buffer_with [simp]: "n > 0 \<Longrightarrow> copy_buffer (buffer_with n bs) = buffer_with n bs"
  by (simp add: copy_buffer_def new_buffer_def set_buffer_size_in_bytes_def buffer_with_def)

section \<open>Wire formats\<close>

text \<open>
  A wire format: an encoder, and a decoder that reads one value from the front of its input and
  gives back the rest.
\<close>

locale codec =
  fixes enc :: "'a \<Rightarrow> bytes" and dec :: "bytes \<Rightarrow> ('a \<times> bytes) option" and valid :: "'a \<Rightarrow> bool"
  assumes dec_enc: "valid x \<Longrightarrow> dec (enc x @ rest) = Some (x, rest)"
begin

lemma prefix_free:
  "valid x \<Longrightarrow> valid y \<Longrightarrow> enc x @ r = enc y @ s \<Longrightarrow> x = y \<and> r = s"
  by (metis dec_enc option.inject prod.inject)

lemma enc_inj: "valid x \<Longrightarrow> valid y \<Longrightarrow> enc x = enc y \<Longrightarrow> x = y"
  using prefix_free [of x y "[]" "[]"] by simp

lemma dec_enc_all: "valid x \<Longrightarrow> dec (enc x) = Some (x, [])"
  using dec_enc [of x "[]"] by simp

end

section \<open>Properties\<close>

text \<open>
  A buffer never overflows and never loses data silently: after any sequence of appends the
  used bytes fit the allocated size, and the buffer reports success exactly when the whole data
  was stored, in order.
\<close>

lemma buffer_never_silently_truncates:
  "length (buffer_data (fold buffer_apply ops (allocate n new_buffer))) \<le> n
   \<and> (if length (concat (map buffer_op_data ops)) \<le> n
        then \<not> is_failed (fold buffer_apply ops (allocate n new_buffer))
          \<and> buffer_data (fold buffer_apply ops (allocate n new_buffer)) = concat (map buffer_op_data ops)
        else is_failed (fold buffer_apply ops (allocate n new_buffer)))"
proof -
  let ?b = "fold buffer_apply ops (buffer_with n [])"
  have "length (buffer_data ?b) \<le> n"
    using buffer_run_size [of "buffer_with n []" ops] by simp
  moreover have "if length (concat (map buffer_op_data ops)) \<le> n
      then ?b = buffer_with n (concat (map buffer_op_data ops)) else errors_occured ?b"
    using buffer_run_cases [of "buffer_with n []" ops] by (simp split: if_splits)
  ultimately show ?thesis
    by (cases "length (concat (map buffer_op_data ops)) \<le> n") (simp_all add: is_failed_def)
qed

section \<open>Reading memory\<close>

text \<open>
  The access through a pointer: \<open>n\<close> bytes at position \<open>i\<close> of the bytes that may be read, as \<open>layout\<close> takes them. Outside of
  these bytes it is undefined.
\<close>

definition deref :: "nat \<Rightarrow> (bytes \<Rightarrow> 'h) \<Rightarrow> bytes \<Rightarrow> nat \<Rightarrow> 'h outcome" where
  "deref n layout bs i = (if i + n \<le> length bs then Done (layout (take n (drop i bs))) else Undefined)"

lemma deref_inside [simp]: "i + n \<le> length bs \<Longrightarrow> deref n layout bs i = Done (layout (take n (drop i bs)))"
  by (simp add: deref_def)

end
