(* ===== verification/Gobgp_Config.thy ===== *)
theory Gobgp_Config
  imports Rule_Builder Ip_Text Binary_Buffer
begin

text \<open>
  The configuration of the GoBGP action: its fields of
  \<^verbatim>\<open>src/fastnetmon_configuration_scheme.hpp\<close> and their reading and validation by
  \<^verbatim>\<open>gobgp_action_init\<close> of \<^verbatim>\<open>src/actions/gobgp_action.cpp\<close>. A run that ends in
  \<^verbatim>\<open>exit(1)\<close> is \<open>None\<close>.
\<close>

section \<open>State\<close>

record gobgp_configuration =
  gobgp :: bool
  gobgp_flowspec :: bool
  gobgp_flowspec_action :: string
  gobgp_flowspec_redirect_ipv4 :: string
  gobgp_flowspec_redirect_rt :: string
  gobgp_flowspec_port_detection :: bool
  gobgp_flowspec_port_min_samples :: u64
  gobgp_flowspec_port_dominance_percent :: u8
  gobgp_flowspec_notify_script_path :: string
  gobgp_flowspec_rule_refresh :: bool
  gobgp_flowspec_rule_refresh_interval :: u64
  gobgp_flowspec_refresh_port_min_share_percent :: u8
  gobgp_flowspec_max_port_rules_per_protocol :: u64
  gobgp_announce_host :: bool
  gobgp_announce_whole_subnet :: bool
  gobgp_community_host :: string
  gobgp_community_subnet :: string
  gobgp_next_hop :: string
  gobgp_next_hop_host_ipv4 :: string
  gobgp_next_hop_subnet_ipv4 :: string
  gobgp_announce_host_ipv6 :: bool
  gobgp_announce_whole_subnet_ipv6 :: bool
  gobgp_next_hop_ipv6 :: string
  gobgp_next_hop_host_ipv6 :: string
  gobgp_next_hop_subnet_ipv6 :: string
  gobgp_community_host_ipv6 :: string
  gobgp_community_subnet_ipv6 :: string

definition gobgp_configuration_default :: gobgp_configuration where
  "gobgp_configuration_default =
     \<lparr>gobgp = False, gobgp_flowspec = False, gobgp_flowspec_action = ''redirect'',
      gobgp_flowspec_redirect_ipv4 = ''0.0.0.0'', gobgp_flowspec_redirect_rt = [],
      gobgp_flowspec_port_detection = True, gobgp_flowspec_port_min_samples = 10,
      gobgp_flowspec_port_dominance_percent = 70, gobgp_flowspec_notify_script_path = [],
      gobgp_flowspec_rule_refresh = False, gobgp_flowspec_rule_refresh_interval = 5,
      gobgp_flowspec_refresh_port_min_share_percent = 20, gobgp_flowspec_max_port_rules_per_protocol = 4,
      gobgp_announce_host = False, gobgp_announce_whole_subnet = False,
      gobgp_community_host = ''65001:668'', gobgp_community_subnet = ''65001:667'',
      gobgp_next_hop = ''0.0.0.0'', gobgp_next_hop_host_ipv4 = ''0.0.0.0'',
      gobgp_next_hop_subnet_ipv4 = ''0.0.0.0'', gobgp_announce_host_ipv6 = False,
      gobgp_announce_whole_subnet_ipv6 = False, gobgp_next_hop_ipv6 = ''100::1'',
      gobgp_next_hop_host_ipv6 = ''::0'', gobgp_next_hop_subnet_ipv6 = ''::0'',
      gobgp_community_host_ipv6 = ''65001:668'', gobgp_community_subnet_ipv6 = ''65001:667''\<rparr>"

type_synonym configuration_map = "string \<rightharpoonup> string"

section \<open>Reading options\<close>

text \<open>
  \<^verbatim>\<open>strtoull(s, &end, 10)\<close>: white space, a sign and digits. \<open>None\<close> when there are no digits
  (\<^verbatim>\<open>end\<close> is then the start of the text); otherwise whether the value is out of range, the
  value (negated modulo \<open>2 ^ 64\<close> after a minus sign) and the rest of the text.
\<close>

definition strtoull :: "string \<Rightarrow> (bool \<times> nat \<times> string) option" where
  "strtoull s =
     (let s = dropWhile is_space s;
          negative = (s \<noteq> [] \<and> hd s = CHR ''-'');
          s = (if s \<noteq> [] \<and> (hd s = CHR ''-'' \<or> hd s = CHR ''+'') then tl s else s);
          ds = takeWhile is_digit s;
          v = digits_value ds
      in if ds = [] then None
         else Some (v \<ge> 2 ^ 64, if negative then (2 ^ 64 - v) mod 2 ^ 64 else v, dropWhile is_digit s))"

definition parse_positive_gobgp_flowspec_option :: "string \<Rightarrow> nat \<Rightarrow> u64 option" where
  "parse_positive_gobgp_flowspec_option option_value maximum_value =
     (case strtoull (takeWhile (\<lambda>c. c \<noteq> CHR 0x00) option_value) of
        None \<Rightarrow> None
      | Some (out_of_range, v, rest) \<Rightarrow>
          if option_value = [] \<or> hd option_value = CHR ''-'' \<or> out_of_range \<or> rest \<noteq> [] \<or> v = 0
             \<or> v > maximum_value then None
          else Some (of_nat v))"

definition get_configured_gobgp_flowspec_action :: "gobgp_configuration \<Rightarrow> bgp_flow_spec_action_types_t option" where
  "get_configured_gobgp_flowspec_action c = parse_gobgp_flowspec_action (gobgp_flowspec_action c)"

definition get_configured_gobgp_flowspec_redirect_ipv4 :: "gobgp_configuration \<Rightarrow> u32 option" where
  "get_configured_gobgp_flowspec_redirect_ipv4 c =
     (case convert_ip_as_string_to_uint_safe (gobgp_flowspec_redirect_ipv4 c) of
        None \<Rightarrow> None | Some ip \<Rightarrow> if ip = 0 then None else Some ip)"

definition get_configured_gobgp_flowspec_redirect_rt :: "gobgp_configuration \<Rightarrow> (u32 \<times> u32) option" where
  "get_configured_gobgp_flowspec_redirect_rt c = parse_gobgp_flowspec_redirect_rt (gobgp_flowspec_redirect_rt c)"

section \<open>Initialisation\<close>

definition read_text :: "configuration_map \<Rightarrow> string \<Rightarrow> string \<Rightarrow> string" where
  "read_text m key old = (case m key of Some v \<Rightarrow> v | None \<Rightarrow> old)"

definition read_flag :: "configuration_map \<Rightarrow> string \<Rightarrow> bool \<Rightarrow> bool" where
  "read_flag m key old = (case m key of Some v \<Rightarrow> v = ''on'' | None \<Rightarrow> old)"

text \<open>The texts and switches, which are read first.\<close>

definition read_gobgp_options :: "configuration_map \<Rightarrow> gobgp_configuration \<Rightarrow> gobgp_configuration" where
  "read_gobgp_options m c =
     c\<lparr>gobgp_next_hop := read_text m ''gobgp_next_hop'' (gobgp_next_hop c),
       gobgp_next_hop_ipv6 := read_text m ''gobgp_next_hop_ipv6'' (gobgp_next_hop_ipv6 c),
       gobgp_next_hop_host_ipv6 := read_text m ''gobgp_next_hop_host_ipv6'' (gobgp_next_hop_host_ipv6 c),
       gobgp_next_hop_subnet_ipv6 := read_text m ''gobgp_next_hop_subnet_ipv6'' (gobgp_next_hop_subnet_ipv6 c),
       gobgp_announce_host := read_flag m ''gobgp_announce_host'' (gobgp_announce_host c),
       gobgp_announce_whole_subnet := read_flag m ''gobgp_announce_whole_subnet'' (gobgp_announce_whole_subnet c),
       gobgp_announce_host_ipv6 := read_flag m ''gobgp_announce_host_ipv6'' (gobgp_announce_host_ipv6 c),
       gobgp_announce_whole_subnet_ipv6 :=
         read_flag m ''gobgp_announce_whole_subnet_ipv6'' (gobgp_announce_whole_subnet_ipv6 c),
       gobgp_community_host := read_text m ''gobgp_community_host'' (gobgp_community_host c),
       gobgp_community_subnet := read_text m ''gobgp_community_subnet'' (gobgp_community_subnet c),
       gobgp_community_host_ipv6 := read_text m ''gobgp_community_host_ipv6'' (gobgp_community_host_ipv6 c),
       gobgp_community_subnet_ipv6 := read_text m ''gobgp_community_subnet_ipv6'' (gobgp_community_subnet_ipv6 c),
       gobgp_flowspec_redirect_ipv4 := read_text m ''gobgp_flowspec_redirect_ipv4'' (gobgp_flowspec_redirect_ipv4 c),
       gobgp_flowspec_action := read_text m ''gobgp_flowspec_action'' (gobgp_flowspec_action c),
       gobgp_flowspec_redirect_rt := read_text m ''gobgp_flowspec_redirect_rt'' (gobgp_flowspec_redirect_rt c),
       gobgp_flowspec_notify_script_path :=
         read_text m ''gobgp_flowspec_notify_script_path'' (gobgp_flowspec_notify_script_path c),
       gobgp_flowspec_port_detection := read_flag m ''gobgp_flowspec_port_detection'' (gobgp_flowspec_port_detection c),
       gobgp_flowspec_rule_refresh := read_flag m ''gobgp_flowspec_rule_refresh'' (gobgp_flowspec_rule_refresh c)\<rparr>"

text \<open>The action needs a target address or a route target that can be read.\<close>

definition action_target_valid :: "bgp_flow_spec_action_types_t \<Rightarrow> gobgp_configuration \<Rightarrow> bool" where
  "action_target_valid a c =
     (if a = FLOW_SPEC_ACTION_REDIRECT
      then (case convert_ip_as_string_to_uint_safe (gobgp_flowspec_redirect_ipv4 c) of
              None \<Rightarrow> False | Some ip \<Rightarrow> ip \<noteq> 0)
      else if a = FLOW_SPEC_ACTION_REDIRECT_VRF
      then parse_gobgp_flowspec_redirect_rt (gobgp_flowspec_redirect_rt c) \<noteq> None
      else True)"

text \<open>A number: \<open>None\<close> when it is present and refused, the old value when it is absent.\<close>

definition read_number :: "configuration_map \<Rightarrow> string \<Rightarrow> nat \<Rightarrow> u64 \<Rightarrow> u64 option" where
  "read_number m key maximum old =
     (case m key of None \<Rightarrow> Some old | Some v \<Rightarrow> parse_positive_gobgp_flowspec_option v maximum)"

definition u64_limit :: nat where
  "u64_limit = 2 ^ 64 - 1"

definition read_flowspec_numbers :: "configuration_map \<Rightarrow> gobgp_configuration \<Rightarrow> gobgp_configuration option" where
  "read_flowspec_numbers m c =
     (case read_number m ''gobgp_flowspec_port_min_samples'' u64_limit (gobgp_flowspec_port_min_samples c) of
        None \<Rightarrow> None
      | Some samples \<Rightarrow>
     (case read_number m ''gobgp_flowspec_port_dominance_percent'' 100 (ucast (gobgp_flowspec_port_dominance_percent c)) of
        None \<Rightarrow> None
      | Some dominance \<Rightarrow>
     (case read_number m ''gobgp_flowspec_refresh_port_min_share_percent'' 100
             (ucast (gobgp_flowspec_refresh_port_min_share_percent c)) of
        None \<Rightarrow> None
      | Some share \<Rightarrow>
     (case read_number m ''gobgp_flowspec_max_port_rules_per_protocol'' u64_limit
             (gobgp_flowspec_max_port_rules_per_protocol c) of
        None \<Rightarrow> None
      | Some port_rules \<Rightarrow>
          let c = c\<lparr>gobgp_flowspec_port_min_samples := samples,
                     gobgp_flowspec_port_dominance_percent := ucast dominance,
                     gobgp_flowspec_refresh_port_min_share_percent := ucast share,
                     gobgp_flowspec_max_port_rules_per_protocol := port_rules\<rparr>
          in if gobgp_flowspec_rule_refresh c
             then (case read_number m ''gobgp_flowspec_rule_refresh_interval'' u64_limit
                          (gobgp_flowspec_rule_refresh_interval c) of
                     None \<Rightarrow> None
                   | Some interval \<Rightarrow> Some (c\<lparr>gobgp_flowspec_rule_refresh_interval := interval\<rparr>))
             else Some c))))"

definition gobgp_action_init :: "configuration_map \<Rightarrow> gobgp_configuration \<Rightarrow> gobgp_configuration option" where
  "gobgp_action_init m c =
     (let c = read_gobgp_options m c in
      case get_configured_gobgp_flowspec_action c of
        None \<Rightarrow> None
      | Some a \<Rightarrow>
          if gobgp_flowspec c
          then if action_target_valid a c then read_flowspec_numbers m c else None
          else if gobgp_flowspec_rule_refresh c then None
          else Some c)"

section \<open>Facts\<close>

lemma parse_option_range:
  "parse_positive_gobgp_flowspec_option s n = Some v \<Longrightarrow> n < 2 ^ 64 \<Longrightarrow> 1 \<le> unat v \<and> unat v \<le> n"
  by (auto simp: parse_positive_gobgp_flowspec_option_def unsigned_of_nat take_bit_nat_eq_self
      split: option.splits if_splits)

lemma read_number_range:
  "read_number m key n old = Some v \<Longrightarrow> n < 2 ^ 64 \<Longrightarrow> 1 \<le> unat old \<Longrightarrow> unat old \<le> n
     \<Longrightarrow> 1 \<le> unat v \<and> unat v \<le> n"
  using parse_option_range by (fastforce simp: read_number_def split: option.splits)

lemma dec_string_no_space: "dropWhile is_space (dec_string n) = dec_string n"
    "hd (dec_string n) \<noteq> CHR ''-''" "hd (dec_string n) \<noteq> CHR ''+''" "takeWhile (\<lambda>c. c \<noteq> CHR 0x00) (dec_string n) = dec_string n"
proof -
  obtain c s where cs: "dec_string n = c # s"
    by (cases "dec_string n") auto
  have digits: "list_all is_digit (dec_string n)"
    by (rule dec_string_digits)
  then have c: "is_digit c"
    by (simp add: cs)
  show "dropWhile is_space (dec_string n) = dec_string n" "hd (dec_string n) \<noteq> CHR ''-''" "hd (dec_string n) \<noteq> CHR ''+''"
    using c by (auto simp: cs is_space_def is_digit_def)
  show "takeWhile (\<lambda>c. c \<noteq> CHR 0x00) (dec_string n) = dec_string n"
    using digits digit_facts by (auto simp: list_all_iff takeWhile_eq_all_conv)
qed

lemma strtoull_dec_string: "strtoull (dec_string n) = Some (n \<ge> 2 ^ 64, n, [])"
proof -
  have run: "takeWhile is_digit (dec_string n) = dec_string n" "dropWhile is_digit (dec_string n) = []"
    using takeWhile_digits [OF dec_string_digits, of "[]" n] by simp_all
  show ?thesis
    by (simp add: strtoull_def Let_def dec_string_no_space run)
qed

text \<open>What a successful initialisation guarantees to the handlers.\<close>

definition valid_configuration :: "gobgp_configuration \<Rightarrow> bool" where
  "valid_configuration c \<longleftrightarrow> (case get_configured_gobgp_flowspec_action c of
     None \<Rightarrow> False
   | Some a \<Rightarrow> (a = FLOW_SPEC_ACTION_REDIRECT \<longrightarrow> get_configured_gobgp_flowspec_redirect_ipv4 c \<noteq> None)
       \<and> (a = FLOW_SPEC_ACTION_REDIRECT_VRF \<longrightarrow> get_configured_gobgp_flowspec_redirect_rt c \<noteq> None))"

definition numbers_in_range :: "gobgp_configuration \<Rightarrow> bool" where
  "numbers_in_range c \<longleftrightarrow> 1 \<le> unat (gobgp_flowspec_port_min_samples c)
     \<and> 1 \<le> unat (gobgp_flowspec_port_dominance_percent c) \<and> unat (gobgp_flowspec_port_dominance_percent c) \<le> 100
     \<and> 1 \<le> unat (gobgp_flowspec_refresh_port_min_share_percent c)
     \<and> unat (gobgp_flowspec_refresh_port_min_share_percent c) \<le> 100
     \<and> 1 \<le> unat (gobgp_flowspec_max_port_rules_per_protocol c)
     \<and> 1 \<le> unat (gobgp_flowspec_rule_refresh_interval c)"

lemma valid_configuration_iff:
  "get_configured_gobgp_flowspec_action c = Some a \<Longrightarrow> valid_configuration c \<longleftrightarrow> action_target_valid a c"
  by (auto simp: valid_configuration_def action_target_valid_def get_configured_gobgp_flowspec_redirect_ipv4_def
      get_configured_gobgp_flowspec_redirect_rt_def split: option.splits)

lemma read_gobgp_options_keeps:
  "gobgp_flowspec (read_gobgp_options m c) = gobgp_flowspec c"
  "numbers_in_range (read_gobgp_options m c) = numbers_in_range c"
  by (simp_all add: read_gobgp_options_def numbers_in_range_def)

lemma read_flowspec_numbers_keeps:
  assumes "read_flowspec_numbers m c = Some c'"
  shows "valid_configuration c' = valid_configuration c"
proof -
  have "gobgp_flowspec_action c' = gobgp_flowspec_action c"
    "gobgp_flowspec_redirect_ipv4 c' = gobgp_flowspec_redirect_ipv4 c"
    "gobgp_flowspec_redirect_rt c' = gobgp_flowspec_redirect_rt c"
    using assms by (auto simp: read_flowspec_numbers_def Let_def split: option.splits if_splits)
  then show ?thesis
    by (simp add: valid_configuration_def get_configured_gobgp_flowspec_action_def
        get_configured_gobgp_flowspec_redirect_ipv4_def get_configured_gobgp_flowspec_redirect_rt_def split: option.split)
qed

lemma percent_range:
  "1 \<le> unat v \<Longrightarrow> unat v \<le> 100 \<Longrightarrow> unat (ucast (v :: u64) :: u8) = unat v"
  by (simp add: unsigned_ucast_eq take_bit_nat_eq_self)

lemma read_flowspec_numbers_range:
  assumes "read_flowspec_numbers m c = Some c'" "numbers_in_range c"
  shows "numbers_in_range c'"
proof -
  have lim: "u64_limit < 2 ^ 64" "unat (x :: u64) \<le> u64_limit" for x
    using unat_lt_2p [of x] by (simp_all add: u64_limit_def)
  have up: "unat (ucast (p :: u8) :: u64) = unat p" for p
    by (simp add: unat_ucast_up)
  obtain n d p k where parts:
      "read_number m ''gobgp_flowspec_port_min_samples'' u64_limit (gobgp_flowspec_port_min_samples c) = Some n"
      "read_number m ''gobgp_flowspec_port_dominance_percent'' 100 (ucast (gobgp_flowspec_port_dominance_percent c)) = Some d"
      "read_number m ''gobgp_flowspec_refresh_port_min_share_percent'' 100
         (ucast (gobgp_flowspec_refresh_port_min_share_percent c)) = Some p"
      "read_number m ''gobgp_flowspec_max_port_rules_per_protocol'' u64_limit
         (gobgp_flowspec_max_port_rules_per_protocol c) = Some k"
      and fields: "gobgp_flowspec_port_min_samples c' = n" "gobgp_flowspec_port_dominance_percent c' = ucast d"
        "gobgp_flowspec_refresh_port_min_share_percent c' = ucast p"
        "gobgp_flowspec_max_port_rules_per_protocol c' = k"
      and interval: "read_number m ''gobgp_flowspec_rule_refresh_interval'' u64_limit
           (gobgp_flowspec_rule_refresh_interval c) = Some (gobgp_flowspec_rule_refresh_interval c')
         \<or> gobgp_flowspec_rule_refresh_interval c' = gobgp_flowspec_rule_refresh_interval c"
    using assms(1) by (auto simp: read_flowspec_numbers_def Let_def split: option.splits if_splits)
  have ranges: "1 \<le> unat n" "1 \<le> unat d" "unat d \<le> 100" "1 \<le> unat p" "unat p \<le> 100" "1 \<le> unat k"
      "1 \<le> unat (gobgp_flowspec_rule_refresh_interval c')"
    using parts [THEN read_number_range] interval read_number_range [of m _ u64_limit] assms(2) lim
    by (auto simp: numbers_in_range_def up)
  then show ?thesis
    by (simp add: numbers_in_range_def fields percent_range)
qed

section \<open>Properties\<close>

text \<open>
  C31. A configuration that passes the initialisation is complete: when FlowSpec is on and the numbers start
  within their ranges, the action can be read and its target with it, so that no handler gives up on its
  configuration later, and all numbers, as they were parsed, are within their documented ranges.
\<close>

theorem init_validates_configuration:
  assumes "gobgp_action_init m c = Some c'" "gobgp_flowspec c" "numbers_in_range c"
  shows "valid_configuration c' \<and> numbers_in_range c'"
proof -
  let ?c = "read_gobgp_options m c"
  obtain a where "get_configured_gobgp_flowspec_action ?c = Some a" "action_target_valid a ?c"
      and numbers: "read_flowspec_numbers m ?c = Some c'"
    using assms(1,2) by (auto simp: gobgp_action_init_def Let_def read_gobgp_options_keeps split: option.splits if_splits)
  then have "valid_configuration ?c"
    by (simp add: valid_configuration_iff)
  then show ?thesis
    using read_flowspec_numbers_keeps [OF numbers] read_flowspec_numbers_range [OF numbers] assms(3)
    by (simp add: read_gobgp_options_keeps)
qed

definition example_options :: configuration_map where
  "example_options = [''gobgp_flowspec_action'' \<mapsto> ''redirect-vrf'', ''gobgp_flowspec_redirect_rt'' \<mapsto> ''65001:7'']"

lemma init_validates_configuration_witness:
  "\<exists>c'. gobgp_action_init example_options (gobgp_configuration_default\<lparr>gobgp_flowspec := True\<rparr>) = Some c'
     \<and> valid_configuration c' \<and> numbers_in_range c'"
proof -
  have rt: "parse_gobgp_flowspec_redirect_rt ''65001:7'' = Some (65001, 7)"
    by (simp add: parse_gobgp_flowspec_redirect_rt_def parse_uint32_strict_def from_chars_def is_digit_def digits_value_def)
  obtain c' where "gobgp_action_init example_options (gobgp_configuration_default\<lparr>gobgp_flowspec := True\<rparr>) = Some c'"
    by (simp add: gobgp_action_init_def read_gobgp_options_def read_text_def read_flag_def example_options_def rt
        gobgp_configuration_default_def get_configured_gobgp_flowspec_action_def parse_gobgp_flowspec_action_def
        action_target_valid_def read_flowspec_numbers_def read_number_def)
  with init_validates_configuration [of example_options "gobgp_configuration_default\<lparr>gobgp_flowspec := True\<rparr>" c']
  show ?thesis
    by (simp add: gobgp_configuration_default_def numbers_in_range_def)
qed

text \<open>
  Numeric options are read exactly: the decimal form of a number is accepted when it is between
  one and the maximum, and yields that number; everything else in decimal form is refused.
\<close>

lemma option_number_exact:
  "parse_positive_gobgp_flowspec_option (dec_string n) (unat (maximum :: u64)) =
     (if 1 \<le> n \<and> n \<le> unat maximum then Some (of_nat n) else None)"
  using unat_lt_2p [of maximum]
  by (auto simp: parse_positive_gobgp_flowspec_option_def strtoull_dec_string dec_string_no_space)

text \<open>
  The next hops of their own for IPv4 hosts and subnets, which \<^verbatim>\<open>src/fastnetmon.conf\<close> offers, are never
  read: they keep the values they had.
\<close>

lemma ipv4_next_hop_options_ignored:
  assumes "gobgp_action_init m c = Some c'"
  shows "gobgp_next_hop_host_ipv4 c' = gobgp_next_hop_host_ipv4 c" "gobgp_next_hop_subnet_ipv4 c' = gobgp_next_hop_subnet_ipv4 c"
proof -
  have "gobgp_next_hop_host_ipv4 d' = gobgp_next_hop_host_ipv4 d \<and> gobgp_next_hop_subnet_ipv4 d' = gobgp_next_hop_subnet_ipv4 d"
    if "read_flowspec_numbers m d = Some d'" for d d'
    using that by (auto simp: read_flowspec_numbers_def Let_def split: option.splits if_splits)
  then show "gobgp_next_hop_host_ipv4 c' = gobgp_next_hop_host_ipv4 c" "gobgp_next_hop_subnet_ipv4 c' = gobgp_next_hop_subnet_ipv4 c"
    using assms by (auto simp: gobgp_action_init_def read_gobgp_options_def Let_def split: option.splits if_splits)
qed

text \<open>
  A negative number is refused only when the minus sign is the first character: after white space
  it wraps around and is accepted where the maximum is the largest 64-bit number.
\<close>

lemma negative_number_accepted:
  "parse_positive_gobgp_flowspec_option '' -5'' u64_limit = Some (- 5)"
  by (simp add: parse_positive_gobgp_flowspec_option_def strtoull_def is_space_def is_digit_def digits_value_def
      u64_limit_def)

end
