(* ===== verification/Bgp_Protocol.thy ===== *)
theory Bgp_Protocol
  imports Binary_Buffer Flow_Spec_Types
begin

text \<open>
  \<^verbatim>\<open>src/bgp_protocol.{hpp,cpp}\<close>: BGP path attributes, the encoding of prefixes, unicast
  announces for IPv4 and IPv6 and communities, with \<^verbatim>\<open>convert_cidr_to_binary_netmask\<close> and the
  integer parser of \<^verbatim>\<open>src/fast_library.cpp\<close> they rely on. Packed structures are the list of their
  bytes; bit fields start at the least significant bit, as the compilers for little-endian hosts
  lay them out.
\<close>

section \<open>Constants\<close>

definition AFI_IP :: u16 where "AFI_IP = 1"
definition AFI_IP6 :: u16 where "AFI_IP6 = 2"
definition SAFI_UNICAST :: u8 where "SAFI_UNICAST = 1"
definition SAFI_FLOW_SPEC_UNICAST :: u8 where "SAFI_FLOW_SPEC_UNICAST = 133"

definition BGP_ATTRIBUTE_ORIGIN :: u8 where "BGP_ATTRIBUTE_ORIGIN = 1"
definition BGP_ATTRIBUTE_AS_PATH :: u8 where "BGP_ATTRIBUTE_AS_PATH = 2"
definition BGP_ATTRIBUTE_NEXT_HOP :: u8 where "BGP_ATTRIBUTE_NEXT_HOP = 3"
definition BGP_ATTRIBUTE_COMMUNITY :: u8 where "BGP_ATTRIBUTE_COMMUNITY = 8"
definition BGP_ATTRIBUTE_MP_REACH_NLRI :: u8 where "BGP_ATTRIBUTE_MP_REACH_NLRI = 14"
definition BGP_ATTRIBUTE_EXTENDED_COMMUNITY :: u8 where "BGP_ATTRIBUTE_EXTENDED_COMMUNITY = 16"
definition BGP_ORIGIN_INCOMPLETE :: u8 where "BGP_ORIGIN_INCOMPLETE = 2"

lemmas bgp_constants = AFI_IP_def AFI_IP6_def SAFI_UNICAST_def SAFI_FLOW_SPEC_UNICAST_def
  BGP_ATTRIBUTE_ORIGIN_def BGP_ATTRIBUTE_AS_PATH_def BGP_ATTRIBUTE_NEXT_HOP_def
  BGP_ATTRIBUTE_COMMUNITY_def BGP_ATTRIBUTE_MP_REACH_NLRI_def
  BGP_ATTRIBUTE_EXTENDED_COMMUNITY_def BGP_ORIGIN_INCOMPLETE_def

definition get_origin_name_by_value :: "u8 \<Rightarrow> string" where
  "get_origin_name_by_value v =
     (if v = 0 then ''BGP_ORIGIN_IGP'' else if v = 1 then ''BGP_ORIGIN_EGP''
      else if v = 2 then ''BGP_ORIGIN_INCOMPLETE'' else ''Unknown'')"

definition get_bgp_attribute_name_by_number :: "u8 \<Rightarrow> string" where
  "get_bgp_attribute_name_by_number t =
     (if t = 1 then ''BGP_ATTRIBUTE_ORIGIN'' else if t = 2 then ''BGP_ATTRIBUTE_AS_PATH''
      else if t = 3 then ''BGP_ATTRIBUTE_NEXT_HOP'' else if t = 4 then ''BGP_ATTRIBUTE_MULTI_EXIT_DISC''
      else if t = 5 then ''BGP_ATTRIBUTE_LOCAL_PREF'' else if t = 6 then ''BGP_ATTRIBUTE_ATOMIC_AGGREGATE''
      else if t = 7 then ''BGP_ATTRIBUTE_AGGREGATOR'' else if t = 8 then ''BGP_ATTRIBUTE_COMMUNITY''
      else if t = 14 then ''BGP_ATTRIBUTE_MP_REACH_NLRI''
      else if t = 16 then ''BGP_ATTRIBUTE_EXTENDED_COMMUNITY'' else ''UNKNOWN'')"

section \<open>Prefixes\<close>

text \<open>
  \<^verbatim>\<open>convert_cidr_to_binary_netmask\<close>. For a prefix above 32 the unsigned difference
  \<^verbatim>\<open>32 - cidr\<close> wraps and the shift is undefined.
\<close>

definition convert_cidr_to_binary_netmask :: "u32 \<Rightarrow> u32 outcome" where
  "convert_cidr_to_binary_netmask cidr =
     (if cidr = 0 then Done 0
      else if unat (32 - cidr) \<ge> 32 then Undefined
      else Done (htonl (push_bit (unat (32 - cidr)) 0xFFFFFFFF)))"

text \<open>\<^verbatim>\<open>ceil(float(n) / 8)\<close>, which is exact for these small numbers.\<close>

definition how_much_bytes_we_need_for_storing_certain_subnet_mask :: "u8 \<Rightarrow> nat" where
  "how_much_bytes_we_need_for_storing_certain_subnet_mask n = (unat n + 7) div 8"

text \<open>\<^verbatim>\<open>memcpy\<close> of at most four bytes to the address of a zeroed \<^verbatim>\<open>uint32_t\<close>.\<close>

definition load32 :: "bytes \<Rightarrow> u32" where
  "load32 bs = (let ps = pad_to 4 bs in of_mem32 (ps ! 0) (ps ! 1) (ps ! 2) (ps ! 3))"

text \<open>The same copy out of memory; more than four bytes do not fit into the variable.\<close>

definition memcpy_u32 :: "nat \<Rightarrow> bytes \<Rightarrow> nat \<Rightarrow> u32 outcome" where
  "memcpy_u32 n bs i = (if n \<le> 4 then deref n load32 bs i else Undefined)"

text \<open>The value is the prefix and the number of bytes read.\<close>

definition decode_bgp_subnet_encoding_ipv4 :: "bytes \<Rightarrow> (subnet_cidr_mask_t \<times> nat) outcome" where
  "decode_bgp_subnet_encoding_ipv4 value =
     (if value = [] then Failed
      else
        and_then (deref 1 hd value 0) (\<lambda>prefix_cidr_length.
        if prefix_cidr_length > 32 then Failed
        else
          let prefix_byte_length = how_much_bytes_we_need_for_storing_certain_subnet_mask prefix_cidr_length;
              full_nlri_length = prefix_byte_length + 1
          in if length value < full_nlri_length then Failed
             else
               and_then (memcpy_u32 prefix_byte_length value 1) (\<lambda>prefix_ipv4.
               and_then (convert_cidr_to_binary_netmask (ucast prefix_cidr_length)) (\<lambda>mask.
               Done (subnet_cidr_mask (prefix_ipv4 AND mask) (ucast prefix_cidr_length), full_nlri_length)))))"

text \<open>
  \<^verbatim>\<open>encode_bgp_subnet_encoding\<close> writes into a buffer it allocates itself; for a prefix above 32
  the computation of the mask is undefined.
\<close>

definition encode_bgp_subnet_encoding ::
    "subnet_cidr_mask_t \<Rightarrow> dynamic_binary_buffer_t \<Rightarrow> dynamic_binary_buffer_t outcome" where
  "encode_bgp_subnet_encoding prefix b =
     (let prefix_bit_length = cidr_prefix_length prefix;
          prefix_byte_length = (unat prefix_bit_length + 7) div 8;
          full_nlri_length = 1 + prefix_byte_length;
          (allocation_result, b) = set_buffer_size_in_bytes full_nlri_length b
      in if \<not> allocation_result then Failed
         else
           let b = put_byte (ucast prefix_bit_length) b in
           and_then (convert_cidr_to_binary_netmask prefix_bit_length) (\<lambda>mask.
             Done (put_object (take prefix_byte_length (mem32 (subnet_address prefix AND mask))) b)))"

section \<open>Attribute headers\<close>

record bgp_attribute_flags =
  extended_length_bit :: bool
  partial_bit :: bool
  transitive_bit :: bool
  optional_bit :: bool

definition flags_byte :: "bgp_attribute_flags \<Rightarrow> u8" where
  "flags_byte f = push_bit 4 (of_bool (extended_length_bit f)) OR push_bit 5 (of_bool (partial_bit f))
     OR push_bit 6 (of_bool (transitive_bit f)) OR push_bit 7 (of_bool (optional_bit f))"

definition flags_of_byte :: "u8 \<Rightarrow> bgp_attribute_flags" where
  "flags_of_byte b = \<lparr>extended_length_bit = bit b 4, partial_bit = bit b 5, transitive_bit = bit b 6,
     optional_bit = bit b 7\<rparr>"

text \<open>The lengths are small non-negative numbers, so the 32-bit sums do not wrap.\<close>

record bgp_attibute_common_header_t =
  attribute_flags :: u8
  attribute_type :: u8
  length_of_length_field :: nat
  attribute_value_length :: nat
  attribute_body_shift :: nat

definition attribute_flag_and_type_length :: nat where
  "attribute_flag_and_type_length = 2"

definition parse_raw_bgp_attribute :: "bytes \<Rightarrow> bgp_attibute_common_header_t option" where
  "parse_raw_bgp_attribute value =
     (if length value < attribute_flag_and_type_length then None
      else
        let fl = value ! 0; ty = value ! 1;
            len_len = (if extended_length_bit (flags_of_byte fl) then 2 else 1)
        in if length value < attribute_flag_and_type_length + len_len then None
           else
             let value_length =
                   (if len_len = 1 then unat (value ! 2)
                    else unat (htons (of_mem16 (value ! 2) (value ! 3))));
                 total_length = attribute_flag_and_type_length + len_len + value_length
             in if length value < total_length then None
                else Some \<lparr>attribute_flags = fl, attribute_type = ty, length_of_length_field = len_len,
                           attribute_value_length = value_length,
                           attribute_body_shift = attribute_flag_and_type_length + len_len\<rparr>)"

definition parse_raw_bgp_attribute_binary_buffer ::
    "dynamic_binary_buffer_t \<Rightarrow> bgp_attibute_common_header_t option" where
  "parse_raw_bgp_attribute_binary_buffer b = parse_raw_bgp_attribute (buffer_data (copy_buffer b))"

text \<open>The packed attribute structures.\<close>

definition transitive_flags :: bgp_attribute_flags where
  "transitive_flags = \<lparr>extended_length_bit = False, partial_bit = False, transitive_bit = True, optional_bit = False\<rparr>"

definition bgp_attribute_origin :: "u8 \<Rightarrow> bytes" where
  "bgp_attribute_origin v = [flags_byte transitive_flags, BGP_ATTRIBUTE_ORIGIN, 1, v]"

definition bgp_attribute_next_hop_ipv4 :: "u32 \<Rightarrow> bytes" where
  "bgp_attribute_next_hop_ipv4 next_hop_value =
     [flags_byte transitive_flags, BGP_ATTRIBUTE_NEXT_HOP, 4] @ mem32 next_hop_value"

definition bgp_attribute_as_path_t :: "u8 \<Rightarrow> bytes" where
  "bgp_attribute_as_path_t len = [flags_byte transitive_flags, BGP_ATTRIBUTE_AS_PATH, len]"

definition bgp_as_path_segment_element_t :: "u8 \<Rightarrow> bytes" where
  "bgp_as_path_segment_element_t len = [2, len]"

definition bgp_attribute_community_t :: "u8 \<Rightarrow> bytes" where
  "bgp_attribute_community_t len =
     [flags_byte (transitive_flags\<lparr>optional_bit := True\<rparr>), BGP_ATTRIBUTE_COMMUNITY, len]"

definition bgp_extended_community_attribute_t :: "u8 \<Rightarrow> bytes" where
  "bgp_extended_community_attribute_t len =
     [flags_byte (transitive_flags\<lparr>optional_bit := True\<rparr>), BGP_ATTRIBUTE_EXTENDED_COMMUNITY, len]"

definition bgp_attribute_multiprotocol_extensions_t :: "u8 \<Rightarrow> bytes" where
  "bgp_attribute_multiprotocol_extensions_t len =
     [flags_byte (transitive_flags\<lparr>transitive_bit := False, optional_bit := True\<rparr>), BGP_ATTRIBUTE_MP_REACH_NLRI, len]"

definition bgp_mp_reach_short_header_t :: bytes where
  "bgp_mp_reach_short_header_t = mem16 (htons AFI_IP6) @ [SAFI_UNICAST, 16]"

section \<open>Communities\<close>

record bgp_community_attribute_element_t =
  asn_number :: u16
  community_number :: u16

definition community_bytes :: "bgp_community_attribute_element_t \<Rightarrow> bytes" where
  "community_bytes c = mem16 (htons (asn_number c)) @ mem16 (htons (community_number c))"

text \<open>
  \<^verbatim>\<open>std::stoi\<close>: white space, an optional sign and digits are read, what follows is ignored; it
  throws when there are no digits or the number does not fit an \<^verbatim>\<open>int\<close>.
\<close>

definition stoi :: "string \<Rightarrow> int option" where
  "stoi s =
     (let s = dropWhile is_space s;
          negative = (s \<noteq> [] \<and> hd s = CHR ''-'');
          s = (if s \<noteq> [] \<and> (hd s = CHR ''-'' \<or> hd s = CHR ''+'') then tl s else s);
          ds = takeWhile is_digit s;
          n = (if negative then - int (digits_value ds) else int (digits_value ds))
      in if ds = [] \<or> n < - (2 ^ 31) \<or> n \<ge> 2 ^ 31 then None else Some n)"

definition convert_string_to_positive_integer_safe :: "string \<Rightarrow> int option" where
  "convert_string_to_positive_integer_safe line =
     (case stoi line of None \<Rightarrow> None | Some n \<Rightarrow> if n \<ge> 0 then Some n else None)"

text \<open>
  \<open>split\<close> is \<^verbatim>\<open>boost::split\<close> with \<^verbatim>\<open>is_any_of\<close> of its first argument and
  \<^verbatim>\<open>token_compress_on\<close>.
\<close>

definition read_bgp_community_from_string ::
    "(string \<Rightarrow> string \<Rightarrow> string list) \<Rightarrow> string \<Rightarrow> bgp_community_attribute_element_t option" where
  "read_bgp_community_from_string split s =
     (case split '':'' s of
        [first, second] \<Rightarrow>
          (case convert_string_to_positive_integer_safe first of
             None \<Rightarrow> None
           | Some asn \<Rightarrow>
               (case convert_string_to_positive_integer_safe second of
                  None \<Rightarrow> None
                | Some number \<Rightarrow>
                    if asn < 0 \<or> number < 0 then None
                    else if asn > 65535 then None
                    else if number > 65535 then None
                    else Some \<lparr>asn_number = of_int asn, community_number = of_int number\<rparr>))
      | _ \<Rightarrow> None)"

definition is_bgp_community_valid :: "(string \<Rightarrow> string \<Rightarrow> string list) \<Rightarrow> string \<Rightarrow> bool" where
  "is_bgp_community_valid split s \<longleftrightarrow> read_bgp_community_from_string split s \<noteq> None"

section \<open>IPv4 announces\<close>

record IPv4UnicastAnnounce =
  next_hop :: u32
  prefix :: subnet_cidr_mask_t
  origin :: u8
  is_withdraw :: bool
  community_list :: "bgp_community_attribute_element_t list"
  as_path_asns :: "u32 list"

definition ipv4_announce_default :: IPv4UnicastAnnounce where
  "ipv4_announce_default = \<lparr>next_hop = 0, prefix = subnet_cidr_mask 0 0, origin = BGP_ORIGIN_INCOMPLETE,
     is_withdraw = False, community_list = [], as_path_asns = []\<rparr>"

definition generate_nlri :: "IPv4UnicastAnnounce \<Rightarrow> dynamic_binary_buffer_t \<Rightarrow> dynamic_binary_buffer_t outcome" where
  "generate_nlri a b = encode_bgp_subnet_encoding (prefix a) b"

text \<open>The AS_PATH attribute; \<open>None\<close> when it is too long.\<close>

definition as_path_attribute :: "u32 list \<Rightarrow> dynamic_binary_buffer_t option" where
  "as_path_attribute asns =
     (let long_attribute_length = 2 + length asns * 4 in
      if long_attribute_length > 255 then None
      else
        let len = (of_nat long_attribute_length :: u8);
            b = allocate (3 + unat len) new_buffer;
            b = put_object (bgp_attribute_as_path_t len) b;
            b = put_object (bgp_as_path_segment_element_t (of_nat (length asns))) b
        in Some (fold (\<lambda>asn. put_object (mem32 (htonl asn))) asns b))"

text \<open>\<^verbatim>\<open>attribute_length\<close> is a \<^verbatim>\<open>uint8_t\<close>: four times the number of communities modulo 256.\<close>

definition community_attribute :: "bgp_community_attribute_element_t list \<Rightarrow> dynamic_binary_buffer_t" where
  "community_attribute communities =
     (let len = (of_nat (length communities * 4) :: u8);
          b = allocate (3 + unat len) new_buffer;
          b = put_object (bgp_attribute_community_t len) b
      in fold (\<lambda>c. put_object (community_bytes c)) communities b)"

definition get_attributes :: "IPv4UnicastAnnounce \<Rightarrow> dynamic_binary_buffer_t list option" where
  "get_attributes a =
     (let origin_buffer = put_object (bgp_attribute_origin (origin a)) (allocate 4 new_buffer);
          next_hop_buffer = put_object (bgp_attribute_next_hop_ipv4 (next_hop a)) (allocate 7 new_buffer);
          communities = (if community_list a = [] then [] else [community_attribute (community_list a)])
      in if as_path_asns a = [] then Some ([origin_buffer, next_hop_buffer] @ communities)
         else case as_path_attribute (as_path_asns a) of
                None \<Rightarrow> None
              | Some as_path_buffer \<Rightarrow> Some ([origin_buffer, as_path_buffer, next_hop_buffer] @ communities))"

text \<open>The loop over the communities of an attribute.\<close>

fun read_communities :: "nat \<Rightarrow> bytes \<Rightarrow> bgp_community_attribute_element_t list" where
  "read_communities 0 data = []"
| "read_communities (Suc n) data =
     \<lparr>asn_number = htons (of_mem16 (data ! 0) (data ! 1)), community_number = htons (of_mem16 (data ! 2) (data ! 3))\<rparr>
     # read_communities n (drop 4 data)"

definition decode_attributes_to_ipv4_announce :: "bytes \<Rightarrow> IPv4UnicastAnnounce \<Rightarrow> IPv4UnicastAnnounce option" where
  "decode_attributes_to_ipv4_announce value a =
     (case parse_raw_bgp_attribute value of
        None \<Rightarrow> None
      | Some h \<Rightarrow>
          let body = drop (attribute_flag_and_type_length + length_of_length_field h) value in
          if attribute_type h = BGP_ATTRIBUTE_ORIGIN
          then if attribute_value_length h \<noteq> 1 then None else Some (a\<lparr>origin := body ! 0\<rparr>)
          else if attribute_type h = BGP_ATTRIBUTE_NEXT_HOP
          then if attribute_value_length h = 4 then Some (a\<lparr>next_hop := load32 (take 4 body)\<rparr>)
               else if attribute_value_length h = 16 then Some a
               else None
          else if attribute_type h = BGP_ATTRIBUTE_COMMUNITY
          then if attribute_value_length h mod 4 \<noteq> 0 then None
               else Some (a\<lparr>community_list := community_list a @ read_communities (attribute_value_length h div 4) body\<rparr>)
          else Some a)"

section \<open>IPv6 announces\<close>

record IPv6UnicastAnnounce =
  next_hop6 :: subnet_ipv6_cidr_mask_t
  prefix6 :: subnet_ipv6_cidr_mask_t
  origin6 :: u8
  is_withdraw6 :: bool
  community_list6 :: "bgp_community_attribute_element_t list"
  as_path_asns6 :: "u32 list"

definition ipv6_announce_default :: IPv6UnicastAnnounce where
  "ipv6_announce_default = \<lparr>next_hop6 = subnet_ipv6_default, prefix6 = subnet_ipv6_default,
     origin6 = BGP_ORIGIN_INCOMPLETE, is_withdraw6 = False, community_list6 = [], as_path_asns6 = []\<rparr>"

text \<open>
  \<^verbatim>\<open>encode_ipv6_prefix\<close>. A prefix length above 128 (modulo 256) makes the copy read behind the
  sixteen bytes of the address.
\<close>

definition encode_ipv6_prefix ::
    "subnet_ipv6_cidr_mask_t \<Rightarrow> dynamic_binary_buffer_t \<Rightarrow> dynamic_binary_buffer_t outcome" where
  "encode_ipv6_prefix p b =
     (let prefix_length = (ucast (cidr_prefix_length6 p) :: u8);
          (ok, b) = append_byte prefix_length b
      in if \<not> ok then Failed
         else
           let n = how_much_bytes_we_need_for_storing_certain_subnet_mask prefix_length in
           if length (buffer_data b) + n > internal_storage_size b then Failed
           else if n > length (subnet_address6 p) then Undefined
           else Done (snd (append_data_as_pointer (take n (subnet_address6 p)) b)))"

definition encode_ipv6_announces_into_bgp_mp_reach_attribute_internal ::
    "IPv6UnicastAnnounce \<Rightarrow> dynamic_binary_buffer_t \<Rightarrow> dynamic_binary_buffer_t outcome" where
  "encode_ipv6_announces_into_bgp_mp_reach_attribute_internal a b =
     (let b = allocate 2048 b;
          b = put_object bgp_mp_reach_short_header_t b;
          b = snd (append_data_as_pointer (subnet_address6 (next_hop6 a)) b);
          b = put_byte 0 b
      in encode_ipv6_prefix (prefix6 a) b)"

definition encode_ipv6_announces_into_bgp_mp_reach_attribute ::
    "IPv6UnicastAnnounce \<Rightarrow> dynamic_binary_buffer_t \<Rightarrow> dynamic_binary_buffer_t outcome" where
  "encode_ipv6_announces_into_bgp_mp_reach_attribute a b =
     and_then (encode_ipv6_announces_into_bgp_mp_reach_attribute_internal a new_buffer) (\<lambda>nlri.
       let b = allocate 2048 b;
           b = put_object (bgp_attribute_multiprotocol_extensions_t (of_nat (get_used_size nlri))) b;
           b = put_buffer nlri b
       in if is_failed b then Failed else Done b)"

definition decode_mp_reach_attribute_to_ipv6_announce ::
    "bytes \<Rightarrow> bgp_attibute_common_header_t \<Rightarrow> IPv6UnicastAnnounce \<Rightarrow> IPv6UnicastAnnounce option" where
  "decode_mp_reach_attribute_to_ipv6_announce data h a =
     (let mp = attribute_body_shift h in
      if mp + 4 > length data then None
      else
        let afi = htons (of_mem16 (data ! mp) (data ! (mp + 1)));
            safi = data ! (mp + 2);
            hop_length = unat (data ! (mp + 3))
        in if \<not> (afi = AFI_IP6 \<and> safi = SAFI_UNICAST) then None
        else if hop_length \<noteq> 16 \<and> hop_length \<noteq> 32 then None
        else if mp + 4 + hop_length > length data then None
        else
          let a = a\<lparr>next_hop6 := \<lparr>subnet_address6 = take 16 (drop (mp + 4) data), cidr_prefix_length6 = 128\<rparr>\<rparr> in
          if mp + 4 + hop_length + 1 > length data then None
          else if mp + 4 + hop_length + 1 + 1 > length data then None
          else
            let prefix_length = data ! (mp + 4 + hop_length + 1) in
            if prefix_length > 128 then None
            else
              let n = how_much_bytes_we_need_for_storing_certain_subnet_mask prefix_length in
              if mp + 4 + hop_length + 1 + 1 + n > length data then None
              else Some (a\<lparr>prefix6 := \<lparr>subnet_address6 = pad_to 16 (take n (drop (mp + 4 + hop_length + 1 + 1) data)),
                                      cidr_prefix_length6 = ucast prefix_length\<rparr>\<rparr>))"

fun decode_ipv6_announce_from_binary_encoded_atributes ::
    "dynamic_binary_buffer_t list \<Rightarrow> IPv6UnicastAnnounce \<Rightarrow> IPv6UnicastAnnounce option" where
  "decode_ipv6_announce_from_binary_encoded_atributes [] a = Some a"
| "decode_ipv6_announce_from_binary_encoded_atributes (b # bs) a =
     (case parse_raw_bgp_attribute_binary_buffer b of
        None \<Rightarrow> None
      | Some h \<Rightarrow>
          if attribute_type h = BGP_ATTRIBUTE_MP_REACH_NLRI
          then case decode_mp_reach_attribute_to_ipv6_announce (buffer_data (copy_buffer b)) h a of
                 None \<Rightarrow> None
               | Some a' \<Rightarrow> decode_ipv6_announce_from_binary_encoded_atributes bs a'
          else decode_ipv6_announce_from_binary_encoded_atributes bs a)"

section \<open>Bits of prefixes\<close>

lemma byte_cases: "(i::nat) < 32 \<Longrightarrow> i < 8 \<or> (8 \<le> i \<and> i < 16) \<or> (16 \<le> i \<and> i < 24) \<or> 24 \<le> i"
  by linarith

lemma bit_of_mem32:
  "bit (of_mem32 a b c d) i \<longleftrightarrow> (if i < 8 then bit a i else if i < 16 then bit b (i - 8)
     else if i < 24 then bit c (i - 16) else bit d (i - 24))"
  by (auto simp: of_mem32_def bit_simps dest: bit_imp_le_length)

text \<open>Reversing the bytes moves bit \<open>i\<close> from the mirrored byte.\<close>

lemma bit_htonl:
  "bit (htonl w) i \<longleftrightarrow> (if i < 8 then bit w (24 + i) else if i < 16 then bit w (8 + i)
     else if i < 24 then bit w (i - 8) else i < 32 \<and> bit w (i - 24))"
  by (auto simp: htonl_def bit_of_mem32 bit_simps ac_simps)

lemma netmask_defined: "unat c \<le> 32 \<Longrightarrow> \<exists>m. convert_cidr_to_binary_netmask c = Done m"
proof -
  assume "unat c \<le> 32"
  then have "c \<noteq> 0 \<Longrightarrow> unat (32 - c) < 32"
    by (simp add: unat_sub word_le_nat_alt unat_gt_0)
  then show ?thesis
    by (cases "c = 0") (auto simp: convert_cidr_to_binary_netmask_def not_le)
qed

text \<open>
  Seen as memory, the mask of a prefix of \<open>c\<close> bits has the first \<open>c\<close> bits set, counted from the
  most significant bit of each byte.
\<close>

lemma bit_netmask:
  assumes "convert_cidr_to_binary_netmask c = Done m" "unat c \<le> 32"
  shows "bit m i \<longleftrightarrow> i < 32 \<and> 8 * (i div 8) + (7 - i mod 8) < unat c"
proof (cases "c = 0")
  case False
  then have "unat (32 - c) = 32 - unat c"
    using assms(2) by (simp add: unat_sub word_le_nat_alt)
  then have m: "m = htonl (push_bit (32 - unat c) 0xFFFFFFFF)"
    using assms False by (auto simp: convert_cidr_to_binary_netmask_def split: if_splits)
  have all_ones: "(0xFFFFFFFF :: u32) = - 1"
    by simp
  show ?thesis
  proof (cases "i < 32")
    case True
    define q r where "q = i div 8" and "r = i mod 8"
    have i: "i = 8 * q + r" "r < 8" "q < 4"
      using True by (auto simp: q_def r_def)
    then consider "q = 0" | "q = 1" | "q = 2" | "q = 3"
      by linarith
    then have "bit m (8 * q + r) \<longleftrightarrow> 8 * q + (7 - r) < unat c"
      using i(2) assms(2) by cases (auto simp: m all_ones bit_htonl bit_push_bit_iff bit_not_iff bit_mask_iff)
    then show ?thesis
      using True unfolding i(1) [symmetric] by (simp add: q_def r_def)
  next
    case False
    then show ?thesis
      using bit_imp_le_length [of m i] by auto
  qed
qed (use assms in \<open>simp add: convert_cidr_to_binary_netmask_def\<close>)


lemma take_drop_mem32: "pad_to 4 (take n (mem32 w)) ! k = (if k < n \<and> k < 4 then mem32 w ! k else 0)" if "k < 4"
  using that by (auto simp: pad_to_def nth_append min_def)

lemma mem32_nth: "k < 4 \<Longrightarrow> bit (mem32 w ! k) j \<longleftrightarrow> j < 8 \<and> bit w (8 * k + j)"
  by (auto simp: mem32_def less_Suc_eq numeral_eq_Suc bit_simps)

lemma bit_load32_take:
  "bit (load32 (take n (mem32 w))) i \<longleftrightarrow> i < 8 * n \<and> bit w i"
proof (cases "i < 32")
  case True
  define q r where "q = i div 8" and "r = i mod 8"
  have i: "i = 8 * q + r" "r < 8" "q < 4"
    using True by (auto simp: q_def r_def)
  then consider "q = 0" | "q = 1" | "q = 2" | "q = 3"
    by linarith
  then show ?thesis
    unfolding i(1) using i(2)
    by cases (auto simp: load32_def Let_def bit_of_mem32 take_drop_mem32 mem32_nth)
next
  case False
  then show ?thesis
    using bit_imp_le_length [of w i] bit_imp_le_length [of "load32 (take n (mem32 w))" i] by auto
qed

lemma load32_mem32 [simp]: "load32 (mem32 w) = w"
  using bit_load32_take [of 4 w] by (intro bit_word_eqI) simp

lemma byte_bound: "8 * (i div 8) + (7 - i mod 8) < c \<Longrightarrow> i < 8 * ((c + 7) div 8)" for i c :: nat
proof -
  assume c: "8 * (i div 8) + (7 - i mod 8) < c"
  have "i mod 8 < 8" and i: "i = 8 * (i div 8) + i mod 8"
    by simp_all
  moreover have "8 * q + (7 - r) < c \<Longrightarrow> r < 8 \<Longrightarrow> 8 * (q + 1) \<le> c + 7" for q r :: nat
    by arith
  ultimately have "8 * (i div 8 + 1) \<le> c + 7"
    using c by blast
  then have "i div 8 + 1 \<le> (c + 7) div 8"
    by (simp add: less_eq_div_iff_mult_less_eq mult.commute)
  then show ?thesis
    using i \<open>i mod 8 < 8\<close> by linarith
qed

text \<open>Only the bytes a prefix needs are sent, and nothing of the network is lost by it.\<close>

lemma masked_load32:
  assumes "convert_cidr_to_binary_netmask c = Done m" "unat c \<le> 32"
  shows "load32 (take ((unat c + 7) div 8) (mem32 (w AND m))) AND m = w AND m"
proof (rule bit_word_eqI)
  fix i
  show "bit (load32 (take ((unat c + 7) div 8) (mem32 (w AND m))) AND m) i = bit (w AND m) i"
    using bit_netmask [OF assms, of i] byte_bound [of i "unat c"] by (auto simp: bit_load32_take bit_and_iff)
qed

section \<open>Prefixes as a wire format\<close>

text \<open>The network a prefix stands for: its address without host bits.\<close>

definition network_of :: "subnet_cidr_mask_t \<Rightarrow> subnet_cidr_mask_t" where
  "network_of s = (case convert_cidr_to_binary_netmask (cidr_prefix_length s) of
     Done m \<Rightarrow> subnet_cidr_mask (subnet_address s AND m) (cidr_prefix_length s) | _ \<Rightarrow> s)"

definition valid_subnet :: "subnet_cidr_mask_t \<Rightarrow> bool" where
  "valid_subnet s \<longleftrightarrow> cidr_prefix_length s \<le> 32 \<and> network_of s = s"

definition subnet_bytes :: "subnet_cidr_mask_t \<Rightarrow> bytes" where
  "subnet_bytes s = ucast (cidr_prefix_length s) # take ((unat (cidr_prefix_length s) + 7) div 8)
     (mem32 (subnet_address (network_of s)))"

definition read_subnet :: "bytes \<Rightarrow> (subnet_cidr_mask_t \<times> bytes) option" where
  "read_subnet bs = (case decode_bgp_subnet_encoding_ipv4 bs of Done (s, n) \<Rightarrow> Some (s, drop n bs) | _ \<Rightarrow> None)"

lemma prefix_le_32: "cidr_prefix_length s \<le> 32 \<longleftrightarrow> unat (cidr_prefix_length s) \<le> 32"
  by (simp add: word_le_nat_alt)

lemma network_of_netmask:
  "cidr_prefix_length s \<le> 32 \<Longrightarrow> \<exists>m. convert_cidr_to_binary_netmask (cidr_prefix_length s) = Done m
     \<and> network_of s = subnet_cidr_mask (subnet_address s AND m) (cidr_prefix_length s)"
  using netmask_defined [of "cidr_prefix_length s"] by (auto simp: network_of_def prefix_le_32)

lemma network_of_idem: "cidr_prefix_length s \<le> 32 \<Longrightarrow> valid_subnet (network_of s)"
proof -
  assume le: "cidr_prefix_length s \<le> 32"
  then obtain m where "convert_cidr_to_binary_netmask (cidr_prefix_length s) = Done m"
      "network_of s = subnet_cidr_mask (subnet_address s AND m) (cidr_prefix_length s)"
    using network_of_netmask by blast
  with le show ?thesis
    by (simp add: valid_subnet_def network_of_def subnet_cidr_mask_def and.assoc)
qed

lemma encode_subnet_bytes:
  assumes "cidr_prefix_length s \<le> 32"
  shows "encode_bgp_subnet_encoding s new_buffer =
    Done (buffer_with (1 + (unat (cidr_prefix_length s) + 7) div 8) (subnet_bytes s))"
proof -
  obtain m where m: "convert_cidr_to_binary_netmask (cidr_prefix_length s) = Done m"
      "network_of s = subnet_cidr_mask (subnet_address s AND m) (cidr_prefix_length s)"
    using network_of_netmask [OF assms] by blast
  let ?n = "(unat (cidr_prefix_length s) + 7) div 8"
  have alloc: "set_buffer_size_in_bytes (1 + ?n) new_buffer = (True, buffer_with (1 + ?n) [])"
    by (simp add: set_buffer_size_in_bytes_def new_buffer_def buffer_with_def)
  have "?n \<le> 4"
    using assms by (simp add: prefix_le_32)
  then show ?thesis
    unfolding encode_bgp_subnet_encoding_def Let_def alloc
    by (simp add: m subnet_bytes_def subnet_cidr_mask_def)
qed

lemma decode_subnet_bytes:
  assumes "cidr_prefix_length s \<le> 32"
  shows "decode_bgp_subnet_encoding_ipv4 (subnet_bytes s @ rest) = Done (network_of s, length (subnet_bytes s))"
proof -
  obtain m where m: "convert_cidr_to_binary_netmask (cidr_prefix_length s) = Done m"
      "network_of s = subnet_cidr_mask (subnet_address s AND m) (cidr_prefix_length s)"
    using network_of_netmask [OF assms] by blast
  let ?n = "(unat (cidr_prefix_length s) + 7) div 8"
  have le: "unat (cidr_prefix_length s) \<le> 32" "?n \<le> 4"
    using assms by (auto simp: prefix_le_32)
  have c8: "unat (ucast (cidr_prefix_length s) :: u8) = unat (cidr_prefix_length s)"
    using le(1) by (simp add: unsigned_ucast_eq take_bit_nat_eq_self)
  have restored: "ucast (ucast (cidr_prefix_length s) :: u8) = cidr_prefix_length s"
    using unat_ucast_up [where 'b = 32, of "ucast (cidr_prefix_length s) :: u8"] c8 by (simp add: word_unat_eq_iff)
  have "ucast (cidr_prefix_length s) \<le> (32 :: u8)"
    using le(1) c8 by (simp add: word_le_nat_alt)
  moreover have "load32 (take ?n (mem32 (subnet_address s AND m))) AND m = subnet_address s AND m"
    using masked_load32 [OF m(1) le(1)] .
  moreover have "length (subnet_bytes s) = ?n + 1"
    using le(2) by (simp add: subnet_bytes_def)
  moreover have "take ?n (take ?n (mem32 (subnet_address s AND m)) @ rest) = take ?n (mem32 (subnet_address s AND m))"
    using le(2) by simp
  moreover have "subnet_bytes s @ rest =
      ucast (cidr_prefix_length s) # take ?n (mem32 (subnet_address s AND m)) @ rest"
    by (simp add: subnet_bytes_def m subnet_cidr_mask_def)
  ultimately show ?thesis
    using le(2)
    by (simp add: decode_bgp_subnet_encoding_ipv4_def how_much_bytes_we_need_for_storing_certain_subnet_mask_def
        memcpy_u32_def c8 restored m not_less Let_def)
qed

interpretation subnet: codec subnet_bytes read_subnet valid_subnet
  by unfold_locales (simp add: read_subnet_def decode_subnet_bytes valid_subnet_def)

section \<open>Attributes\<close>

lemma flags_byte_roundtrip: "flags_of_byte (flags_byte f) = f"
  by (cases f) (auto simp: flags_of_byte_def flags_byte_def bit_simps)

lemma parse_short_attribute:
  "\<not> bit fl 4 \<Longrightarrow> unat len \<le> length body \<Longrightarrow> parse_raw_bgp_attribute (fl # ty # len # body) =
     Some \<lparr>attribute_flags = fl, attribute_type = ty, length_of_length_field = 1,
           attribute_value_length = unat len, attribute_body_shift = 3\<rparr>"
  by (simp add: parse_raw_bgp_attribute_def attribute_flag_and_type_length_def flags_of_byte_def)

lemma flag_bytes [simp]:
  "\<not> bit (flags_byte transitive_flags) 4" "\<not> bit (flags_byte (transitive_flags\<lparr>optional_bit := True\<rparr>)) 4"
  "\<not> bit (flags_byte (transitive_flags\<lparr>transitive_bit := False, optional_bit := True\<rparr>)) 4"
  by (simp_all add: flags_byte_def transitive_flags_def bit_simps)

lemma length_community_bytes [simp]: "length (community_bytes c) = 4"
  by (simp add: community_bytes_def)

lemma length_concat_const: "(\<And>x. x \<in> set xs \<Longrightarrow> length (f x) = k) \<Longrightarrow> length (concat (map f xs)) = k * length xs"
  by (induction xs) auto

lemma read_communities_bytes:
  "read_communities (length cs) (concat (map community_bytes cs) @ rest) = cs"
proof (induction cs)
  case (Cons c cs)
  then show ?case
    by (simp add: community_bytes_def mem16_def wire_simps)
qed simp

lemma unat_of_nat_u8 [simp]: "n < 256 \<Longrightarrow> unat (of_nat n :: u8) = n"
  by (simp add: unsigned_of_nat take_bit_nat_eq_self)

lemma community_attribute_bytes:
  "length cs * 4 = n \<Longrightarrow> n < 256 \<Longrightarrow> community_attribute cs =
     buffer_with (3 + n) (bgp_attribute_community_t (of_nat n) @ concat (map community_bytes cs))"
  by (simp add: community_attribute_def Let_def bgp_attribute_community_t_def fold_put_object
      length_concat_const [where k = 4])

lemma as_path_attribute_bytes:
  "2 + length asns * 4 = n \<Longrightarrow> n < 256 \<Longrightarrow> as_path_attribute asns =
     Some (buffer_with (3 + n) (bgp_attribute_as_path_t (of_nat n)
       @ bgp_as_path_segment_element_t (of_nat (length asns)) @ concat (map (\<lambda>asn. mem32 (htonl asn)) asns)))"
  by (simp add: as_path_attribute_def Let_def bgp_attribute_as_path_t_def bgp_as_path_segment_element_t_def
      fold_put_object length_concat_const [where k = 4])

text \<open>The attributes of an announce, decoded one after the other.\<close>

fun decode_all :: "dynamic_binary_buffer_t list \<Rightarrow> IPv4UnicastAnnounce \<Rightarrow> IPv4UnicastAnnounce option" where
  "decode_all [] a = Some a"
| "decode_all (b # bs) a = (case decode_attributes_to_ipv4_announce (buffer_data b) a of
     None \<Rightarrow> None | Some a' \<Rightarrow> decode_all bs a')"

lemma decode_origin: "decode_attributes_to_ipv4_announce (bgp_attribute_origin v) a = Some (a\<lparr>origin := v\<rparr>)"
  by (simp add: bgp_attribute_origin_def decode_attributes_to_ipv4_announce_def parse_short_attribute
      bgp_constants attribute_flag_and_type_length_def)

lemma decode_next_hop:
  "decode_attributes_to_ipv4_announce (bgp_attribute_next_hop_ipv4 v) a = Some (a\<lparr>next_hop := v\<rparr>)"
  by (simp add: bgp_attribute_next_hop_ipv4_def decode_attributes_to_ipv4_announce_def parse_short_attribute
      bgp_constants attribute_flag_and_type_length_def)

lemma decode_as_path:
  "unat len \<le> length body \<Longrightarrow> decode_attributes_to_ipv4_announce (bgp_attribute_as_path_t len @ body) a = Some a"
  by (simp add: bgp_attribute_as_path_t_def decode_attributes_to_ipv4_announce_def parse_short_attribute
      bgp_constants attribute_flag_and_type_length_def)

lemma decode_communities:
  "length cs * 4 = n \<Longrightarrow> n < 256 \<Longrightarrow> decode_attributes_to_ipv4_announce
     (bgp_attribute_community_t (of_nat n) @ concat (map community_bytes cs)) a =
     Some (a\<lparr>community_list := community_list a @ cs\<rparr>)"
  using read_communities_bytes [of cs "[]"]
  by (auto simp: bgp_attribute_community_t_def decode_attributes_to_ipv4_announce_def parse_short_attribute
      bgp_constants attribute_flag_and_type_length_def length_concat_const [where k = 4])

section \<open>Properties\<close>

text \<open>
  Prefixes round-trip: whatever follows it in the message, the encoding of an IPv4 prefix is
  decoded to the network of the prefix (its address without host bits), consuming exactly the
  bytes that were written.
\<close>

lemma subnet_roundtrip:
  assumes "cidr_prefix_length s \<le> 32"
  shows "\<exists>b. encode_bgp_subnet_encoding s new_buffer = Done b \<and> \<not> is_failed b
     \<and> decode_bgp_subnet_encoding_ipv4 (buffer_data b @ rest) = Done (network_of s, get_used_size b)"
  using encode_subnet_bytes [OF assms] decode_subnet_bytes [OF assms]
  by (simp add: is_failed_def get_used_size_def)

text \<open>
  A parsed attribute lies inside the message: the body of an accepted attribute ends within
  the bytes that were received.
\<close>

lemma attribute_within_message:
  assumes "parse_raw_bgp_attribute value = Some h"
  shows "attribute_body_shift h + attribute_value_length h \<le> length value
     \<and> attribute_body_shift h = attribute_flag_and_type_length + length_of_length_field h
     \<and> attribute_value_length h < 2 ^ 16"
proof -
  have "unat (w :: u8) < 2 ^ 16" "unat (x :: u16) < 2 ^ 16" for w x
    using unat_lt_2p [of w] unat_lt_2p [of x] by auto
  then show ?thesis
    using assms by (auto simp: parse_raw_bgp_attribute_def Let_def split: if_splits)
qed

text \<open>
  The attributes of an IPv4 announce round-trip: with at most 63 communities and at most 63
  autonomous systems in the path, the attribute list is built and decoding it attribute by
  attribute recovers origin, next hop and communities.
\<close>

lemma ipv4_attributes_roundtrip:
  assumes "length (community_list a) \<le> 63" "length (as_path_asns a) \<le> 63"
  shows "\<exists>attrs. get_attributes a = Some attrs \<and> decode_all attrs ipv4_announce_default =
     Some (ipv4_announce_default\<lparr>origin := origin a, next_hop := next_hop a, community_list := community_list a\<rparr>)"
proof -
  have "length (bgp_attribute_origin v) = 4" "length (bgp_attribute_next_hop_ipv4 w) = 7" for v w
    by (simp_all add: bgp_attribute_origin_def bgp_attribute_next_hop_ipv4_def)
  moreover have "length (bgp_as_path_segment_element_t k @ concat (map (\<lambda>asn. mem32 (htonl asn)) (as_path_asns a)))
      = 2 + length (as_path_asns a) * 4" for k
    by (simp add: bgp_as_path_segment_element_t_def length_concat_const [where k = 4])
  moreover obtain n where "length (community_list a) * 4 = n" "n < 256"
    using assms(1) by simp
  moreover obtain k where "2 + length (as_path_asns a) * 4 = k" "k < 256"
    using assms(2) by simp
  ultimately show ?thesis
    by (cases "as_path_asns a = []"; cases "community_list a = []")
      (simp_all add: get_attributes_def Let_def as_path_attribute_bytes community_attribute_bytes decode_origin
        decode_next_hop decode_as_path decode_communities ipv4_announce_default_def)
qed

text \<open>
  Communities are lost when there are 64 of them: the length field wraps to 0, the attribute
  holds its header only, and decoding it yields no community.
\<close>

lemma communities_lost_at_64:
  assumes "length (community_list a) = 64" "as_path_asns a = []"
  shows "\<exists>attrs. get_attributes a = Some attrs \<and>
     map_option community_list (decode_all attrs ipv4_announce_default) = Some []"
proof -
  have full: "buffer_data (fold (\<lambda>c. put_object (community_bytes c)) cs b) = buffer_data b"
    if "length (buffer_data b) = 3" "internal_storage_size b = 3" for cs b
    using that
    by (induction cs arbitrary: b) (simp_all add: put_object_def append_data_as_object_ptr_def)
  have "(of_nat (length (community_list a) * 4) :: u8) = 0"
    using assms(1) by simp
  then have "buffer_data (community_attribute (community_list a)) = bgp_attribute_community_t 0"
    unfolding community_attribute_def Let_def
    by (subst full) (simp_all add: bgp_attribute_community_t_def)
  moreover have "decode_attributes_to_ipv4_announce (bgp_attribute_community_t 0) x = Some x" for x
    using decode_communities [of "[]" 0 x] by simp
  moreover have "community_list a \<noteq> []"
    using assms(1) by auto
  moreover have "length (bgp_attribute_origin v) = 4" "length (bgp_attribute_next_hop_ipv4 w) = 7" for v w
    by (simp_all add: bgp_attribute_origin_def bgp_attribute_next_hop_ipv4_def)
  ultimately show ?thesis
    using assms(2)
    by (simp add: get_attributes_def Let_def decode_origin decode_next_hop ipv4_announce_default_def)
qed

section \<open>IPv6 announces\<close>

text \<open>An IPv6 prefix whose address has no bytes behind those the prefix length needs.\<close>

definition valid_subnet6 :: "subnet_ipv6_cidr_mask_t \<Rightarrow> bool" where
  "valid_subnet6 p \<longleftrightarrow> length (subnet_address6 p) = 16 \<and> cidr_prefix_length6 p \<le> 128
     \<and> pad_to 16 (take ((unat (cidr_prefix_length6 p) + 7) div 8) (subnet_address6 p)) = subnet_address6 p"

definition mp_reach_body :: "IPv6UnicastAnnounce \<Rightarrow> bytes" where
  "mp_reach_body a = bgp_mp_reach_short_header_t @ subnet_address6 (next_hop6 a) @ [0, ucast (cidr_prefix_length6 (prefix6 a))]
     @ take ((unat (cidr_prefix_length6 (prefix6 a)) + 7) div 8) (subnet_address6 (prefix6 a))"

lemma prefix6_byte:
  assumes "cidr_prefix_length6 p \<le> 128"
  shows "unat (ucast (cidr_prefix_length6 p) :: u8) = unat (cidr_prefix_length6 p)"
    and "ucast (ucast (cidr_prefix_length6 p) :: u8) = cidr_prefix_length6 p"
proof -
  have "unat (cidr_prefix_length6 p) \<le> 128"
    using assms by (simp add: word_le_nat_alt)
  then show c8: "unat (ucast (cidr_prefix_length6 p) :: u8) = unat (cidr_prefix_length6 p)"
    by (simp add: unsigned_ucast_eq take_bit_nat_eq_self)
  then show "ucast (ucast (cidr_prefix_length6 p) :: u8) = cidr_prefix_length6 p"
    using unat_ucast_up [where 'b = 32, of "ucast (cidr_prefix_length6 p) :: u8"] by (simp add: word_unat_eq_iff)
qed

lemma mp_reach_internal_bytes:
  assumes "valid_subnet6 (prefix6 a)" "length (subnet_address6 (next_hop6 a)) = 16"
  shows "encode_ipv6_announces_into_bgp_mp_reach_attribute_internal a new_buffer = Done (buffer_with 2048 (mp_reach_body a))"
proof -
  let ?n = "(unat (cidr_prefix_length6 (prefix6 a)) + 7) div 8"
  have p: "cidr_prefix_length6 (prefix6 a) \<le> 128" "length (subnet_address6 (prefix6 a)) = 16"
    using assms(1) by (simp_all add: valid_subnet6_def)
  then have "?n \<le> 16"
    by (simp add: word_le_nat_alt)
  moreover have "append_data_as_pointer bs (buffer_with 2048 cs) = (True, buffer_with 2048 (cs @ bs))"
    if "length cs + length bs \<le> 2048" for bs cs
    using that by (simp add: append_data_as_pointer_def)
  moreover have "append_byte x (buffer_with 2048 cs) = (True, buffer_with 2048 (cs @ [x]))"
    if "length cs < 2048" for x cs
    using that by (simp add: append_byte_def)
  moreover have "length bgp_mp_reach_short_header_t = 4"
    by (simp add: bgp_mp_reach_short_header_t_def)
  ultimately show ?thesis
    using assms(2) p
    by (simp add: encode_ipv6_announces_into_bgp_mp_reach_attribute_internal_def encode_ipv6_prefix_def Let_def
        how_much_bytes_we_need_for_storing_certain_subnet_mask_def prefix6_byte mp_reach_body_def)
qed

lemma mp_reach_decode:
  assumes "length nh = 16" "pl \<le> 128" "attribute_body_shift h = 3"
    and "length pre = how_much_bytes_we_need_for_storing_certain_subnet_mask pl"
  shows "decode_mp_reach_attribute_to_ipv6_announce
      (x # y # z # bgp_mp_reach_short_header_t @ nh @ 0 # pl # pre) h a =
    Some (a\<lparr>next_hop6 := \<lparr>subnet_address6 = nh, cidr_prefix_length6 = 128\<rparr>,
             prefix6 := \<lparr>subnet_address6 = pad_to 16 pre, cidr_prefix_length6 = ucast pl\<rparr>\<rparr>)"
proof -
  have header: "bgp_mp_reach_short_header_t = [0, 2, 1, 16]"
    by (simp add: bgp_mp_reach_short_header_t_def wire_simps bgp_constants)
  have afi: "htons (of_mem16 0 2) = 2"
    by (simp add: htons_def of_mem16_def)
  show ?thesis
    unfolding decode_mp_reach_attribute_to_ipv6_announce_def header Let_def assms(3)
    using assms(1,2,4) by (simp add: afi bgp_constants not_less nth_append)
qed

text \<open>
  IPv6 announces round-trip: the MP_REACH_NLRI attribute built for an announce with a prefix of
  at most 128 bits is decoded to the same next hop and prefix.
\<close>

lemma ipv6_mp_reach_roundtrip:
  assumes "valid_subnet6 (prefix6 a)" "length (subnet_address6 (next_hop6 a)) = 16"
  shows "\<exists>b. encode_ipv6_announces_into_bgp_mp_reach_attribute a new_buffer = Done b
     \<and> decode_ipv6_announce_from_binary_encoded_atributes [b] a0 =
         Some (a0\<lparr>next_hop6 := \<lparr>subnet_address6 = subnet_address6 (next_hop6 a), cidr_prefix_length6 = 128\<rparr>,
                   prefix6 := prefix6 a\<rparr>)"
proof -
  let ?n = "(unat (cidr_prefix_length6 (prefix6 a)) + 7) div 8"
  let ?len = "of_nat (length (mp_reach_body a)) :: u8"
  have p: "cidr_prefix_length6 (prefix6 a) \<le> 128" "length (subnet_address6 (prefix6 a)) = 16"
    "pad_to 16 (take ?n (subnet_address6 (prefix6 a))) = subnet_address6 (prefix6 a)"
    using assms(1) by (simp_all add: valid_subnet6_def)
  then have n: "?n \<le> 16"
    by (simp add: word_le_nat_alt)
  have len: "length (mp_reach_body a) = 22 + ?n"
    using assms(2) n p(2) by (simp add: mp_reach_body_def bgp_mp_reach_short_header_t_def)
  define b where "b = buffer_with 2048 (bgp_attribute_multiprotocol_extensions_t ?len @ mp_reach_body a)"
  have enc: "encode_ipv6_announces_into_bgp_mp_reach_attribute a new_buffer = Done b"
    using len n by (simp add: encode_ipv6_announces_into_bgp_mp_reach_attribute_def b_def is_failed_def
        mp_reach_internal_bytes [OF assms] get_used_size_def Let_def bgp_attribute_multiprotocol_extensions_t_def)
  have data: "buffer_data (copy_buffer b) = bgp_attribute_multiprotocol_extensions_t ?len @ mp_reach_body a"
    by (simp add: b_def)
  have parsed: "parse_raw_bgp_attribute_binary_buffer b = Some
      \<lparr>attribute_flags = flags_byte (transitive_flags\<lparr>transitive_bit := False, optional_bit := True\<rparr>),
       attribute_type = BGP_ATTRIBUTE_MP_REACH_NLRI, length_of_length_field = 1,
       attribute_value_length = length (mp_reach_body a), attribute_body_shift = 3\<rparr>"
    unfolding parse_raw_bgp_attribute_binary_buffer_def data
    using len n by (simp add: bgp_attribute_multiprotocol_extensions_t_def parse_short_attribute del: of_nat_add)
  have prefix_le: "ucast (cidr_prefix_length6 (prefix6 a)) \<le> (128 :: u8)"
    using p(1) by (simp add: word_le_nat_alt prefix6_byte)
  have "buffer_data (copy_buffer b) = flags_byte (transitive_flags\<lparr>transitive_bit := False, optional_bit := True\<rparr>)
      # BGP_ATTRIBUTE_MP_REACH_NLRI # ?len # bgp_mp_reach_short_header_t @ subnet_address6 (next_hop6 a)
      @ 0 # ucast (cidr_prefix_length6 (prefix6 a)) # take ?n (subnet_address6 (prefix6 a))"
    unfolding data by (simp add: bgp_attribute_multiprotocol_extensions_t_def mp_reach_body_def)
  then show ?thesis
    using enc parsed n p prefix_le assms(2)
    by (simp add: mp_reach_decode how_much_bytes_we_need_for_storing_certain_subnet_mask_def prefix6_byte)
qed


definition example_ipv6_announce :: IPv6UnicastAnnounce where
  "example_ipv6_announce = ipv6_announce_default\<lparr>
     next_hop6 := \<lparr>subnet_address6 = 0x20 # 1 # replicate 14 0, cidr_prefix_length6 = 128\<rparr>,
     prefix6 := \<lparr>subnet_address6 = 0x2A # 2 # replicate 14 0, cidr_prefix_length6 = 32\<rparr>\<rparr>"

section \<open>Communities as text\<close>

lemma not_digit_facts: "is_digit c \<Longrightarrow> \<not> is_space c \<and> c \<noteq> CHR ''-'' \<and> c \<noteq> CHR ''+''"
  by (auto simp: is_digit_def is_space_def)

lemma stoi_dec_string:
  assumes "n < 2 ^ 31"
  shows "stoi (dec_string n) = Some (int n)"
proof -
  obtain c cs where s: "dec_string n = c # cs"
    using dec_string_not_Nil [of n] by (cases "dec_string n") auto
  then have c: "\<not> is_space c" "c \<noteq> CHR ''-''" "c \<noteq> CHR ''+''"
    using dec_string_digits [of n] not_digit_facts by auto
  then have "dropWhile is_space (dec_string n) = dec_string n"
    by (simp add: s)
  moreover have all_digits: "takeWhile is_digit (dec_string n) = dec_string n"
    using takeWhile_digits [OF dec_string_digits, of "[]" n] by simp
  moreover have "hd (dec_string n) \<noteq> CHR ''-''" "hd (dec_string n) \<noteq> CHR ''+''"
    using c by (simp_all add: s)
  moreover have "int n < 2 ^ 31"
    using assms by simp
  ultimately show ?thesis
    unfolding stoi_def Let_def by (simp add: all_digits)
qed

text \<open>
  Communities round-trip through their text form, whatever the splitter does on other inputs,
  provided it splits a text with one colon at that colon.
\<close>

lemma community_text_roundtrip:
  assumes split_at_colon: "\<And>s t. CHR '':'' \<notin> set s \<Longrightarrow> CHR '':'' \<notin> set t \<Longrightarrow>
      s \<noteq> [] \<Longrightarrow> t \<noteq> [] \<Longrightarrow> split '':'' (s @ '':'' @ t) = [s, t]"
  shows "read_bgp_community_from_string split
     (dec_string (unat (asn_number c)) @ '':'' @ dec_string (unat (community_number c))) = Some c"
proof -
  have digits: "CHR '':'' \<notin> set (dec_string n)" for n
    using dec_string_digits by (rule digits_no_colon)
  have num: "unat w < 65536" "unat w < 2 ^ 31" for w :: u16
    using unat_lt_2p [of w] by simp_all
  have "convert_string_to_positive_integer_safe (dec_string (unat w)) = Some (int (unat w))" for w :: u16
    using stoi_dec_string [OF num(2), of w] by (simp add: convert_string_to_positive_integer_safe_def)
  moreover have "split '':'' (dec_string (unat (asn_number c)) @ '':'' @ dec_string (unat (community_number c))) =
      [dec_string (unat (asn_number c)), dec_string (unat (community_number c))]"
    by (rule split_at_colon) (simp_all add: digits)
  moreover have "uint w \<le> 65535" for w :: u16
    using uint_bounded [of w] by simp
  ultimately show ?thesis
    by (simp add: read_bgp_community_from_string_def not_less)
qed

text \<open>A splitter with the documented behaviour on texts with one delimiter.\<close>

definition split_once :: "string \<Rightarrow> string \<Rightarrow> string list" where
  "split_once ds s = (case dropWhile (\<lambda>c. c \<notin> set ds) s of [] \<Rightarrow> [s] | _ # t \<Rightarrow> [takeWhile (\<lambda>c. c \<notin> set ds) s, t])"

lemma community_text_roundtrip_witness:
  "read_bgp_community_from_string split_once
     (dec_string (unat (65001 :: u16)) @ '':'' @ dec_string (unat (666 :: u16))) =
     Some \<lparr>asn_number = 65001, community_number = 666\<rparr>"
proof -
  have "split_once '':'' (s @ '':'' @ t) = [s, t]" if "CHR '':'' \<notin> set s" for s t
    using split_at_colon [OF that, of t] by (simp add: split_once_def)
  then show ?thesis
    using community_text_roundtrip [of split_once "\<lparr>asn_number = 65001, community_number = 666\<rparr>"] by simp
qed

end
