(* ===== verification/Flow_Spec_Codec.thy ===== *)
theory Flow_Spec_Codec
  imports Bgp_Protocol
begin

text \<open>
  The wire format part of \<^verbatim>\<open>src/bgp_protocol_flow_spec.{hpp,cpp}\<close>: the NLRI of a FlowSpec rule, the
  extended communities that carry its action, the attribute lists built for GoBGP, and the
  decoders of both.
\<close>

section \<open>Operator bytes and bit fields\<close>

definition FLOW_SPEC_ENTITY_DESTINATION_PREFIX :: u8 where "FLOW_SPEC_ENTITY_DESTINATION_PREFIX = 1"
definition FLOW_SPEC_ENTITY_SOURCE_PREFIX :: u8 where "FLOW_SPEC_ENTITY_SOURCE_PREFIX = 2"
definition FLOW_SPEC_ENTITY_IP_PROTOCOL :: u8 where "FLOW_SPEC_ENTITY_IP_PROTOCOL = 3"
definition FLOW_SPEC_ENTITY_PORT :: u8 where "FLOW_SPEC_ENTITY_PORT = 4"
definition FLOW_SPEC_ENTITY_DESTINATION_PORT :: u8 where "FLOW_SPEC_ENTITY_DESTINATION_PORT = 5"
definition FLOW_SPEC_ENTITY_SOURCE_PORT :: u8 where "FLOW_SPEC_ENTITY_SOURCE_PORT = 6"
definition FLOW_SPEC_ENTITY_TCP_FLAGS :: u8 where "FLOW_SPEC_ENTITY_TCP_FLAGS = 9"
definition FLOW_SPEC_ENTITY_PACKET_LENGTH :: u8 where "FLOW_SPEC_ENTITY_PACKET_LENGTH = 10"
definition FLOW_SPEC_ENTITY_FRAGMENT :: u8 where "FLOW_SPEC_ENTITY_FRAGMENT = 12"

lemmas entity_defs = FLOW_SPEC_ENTITY_DESTINATION_PREFIX_def FLOW_SPEC_ENTITY_SOURCE_PREFIX_def
  FLOW_SPEC_ENTITY_IP_PROTOCOL_def FLOW_SPEC_ENTITY_PORT_def FLOW_SPEC_ENTITY_DESTINATION_PORT_def
  FLOW_SPEC_ENTITY_SOURCE_PORT_def FLOW_SPEC_ENTITY_TCP_FLAGS_def FLOW_SPEC_ENTITY_PACKET_LENGTH_def
  FLOW_SPEC_ENTITY_FRAGMENT_def

definition get_flow_spec_type_name_by_number :: "u8 \<Rightarrow> string" where
  "get_flow_spec_type_name_by_number t =
     (if t = 1 then ''FLOW_SPEC_ENTITY_DESTINATION_PREFIX'' else if t = 2 then ''FLOW_SPEC_ENTITY_SOURCE_PREFIX''
      else if t = 3 then ''FLOW_SPEC_ENTITY_IP_PROTOCOL'' else if t = 4 then ''FLOW_SPEC_ENTITY_PORT''
      else if t = 5 then ''FLOW_SPEC_ENTITY_DESTINATION_PORT'' else if t = 6 then ''FLOW_SPEC_ENTITY_SOURCE_PORT''
      else if t = 7 then ''FLOW_SPEC_ENTITY_ICMP_TYPE'' else if t = 8 then ''FLOW_SPEC_ENTITY_ICMP_CODE''
      else if t = 9 then ''FLOW_SPEC_ENTITY_TCP_FLAGS'' else if t = 10 then ''FLOW_SPEC_ENTITY_PACKET_LENGTH''
      else if t = 11 then ''FLOW_SPEC_ENTITY_DSCP'' else if t = 12 then ''FLOW_SPEC_ENTITY_FRAGMENT''
      else ''UNKNOWN'')"

text \<open>The numeric operator byte; \<open>bit_shift_len\<close> is a field of two bits.\<close>

record bgp_flow_spec_operator_byte_t =
  equal_bit :: bool
  greater_than :: bool
  less_than :: bool
  reserved_bit :: bool
  bit_shift_len :: nat
  and_bit :: bool
  end_of_list :: bool

definition operator_default :: bgp_flow_spec_operator_byte_t where
  "operator_default = \<lparr>equal_bit = False, greater_than = False, less_than = False, reserved_bit = False,
     bit_shift_len = 0, and_bit = False, end_of_list = False\<rparr>"

definition operator_byte :: "bgp_flow_spec_operator_byte_t \<Rightarrow> u8" where
  "operator_byte x = of_bool (equal_bit x) OR push_bit 1 (of_bool (greater_than x))
     OR push_bit 2 (of_bool (less_than x)) OR push_bit 3 (of_bool (reserved_bit x))
     OR push_bit 4 (of_nat (bit_shift_len x)) OR push_bit 6 (of_bool (and_bit x))
     OR push_bit 7 (of_bool (end_of_list x))"

definition operator_of_byte :: "u8 \<Rightarrow> bgp_flow_spec_operator_byte_t" where
  "operator_of_byte b = \<lparr>equal_bit = bit b 0, greater_than = bit b 1, less_than = bit b 2, reserved_bit = bit b 3,
     bit_shift_len = of_bool (bit b 4) + 2 * of_bool (bit b 5), and_bit = bit b 6, end_of_list = bit b 7\<rparr>"

text \<open>\<^verbatim>\<open>set_length_in_bytes\<close> leaves the byte unchanged when it returns \<^verbatim>\<open>false\<close>.\<close>

definition set_length_in_bytes :: "nat \<Rightarrow> bgp_flow_spec_operator_byte_t \<Rightarrow> bool \<times> bgp_flow_spec_operator_byte_t" where
  "set_length_in_bytes n x =
     (if n = 1 then (True, x\<lparr>bit_shift_len := 0\<rparr>)
      else if n = 2 then (True, x\<lparr>bit_shift_len := 1\<rparr>)
      else if n = 4 then (True, x\<lparr>bit_shift_len := 2\<rparr>)
      else (False, x))"

definition get_value_length :: "bgp_flow_spec_operator_byte_t \<Rightarrow> nat" where
  "get_value_length x = 2 ^ bit_shift_len x"

text \<open>The operator byte of the bit mask types.\<close>

record bgp_flow_spec_bitmask_operator_byte_t =
  match_bit :: bool
  not_bit :: bool
  reserved2 :: bool
  reserved1 :: bool
  bitmask_shift_len :: nat
  bitmask_and_bit :: bool
  bitmask_end_of_list :: bool

definition bitmask_default :: bgp_flow_spec_bitmask_operator_byte_t where
  "bitmask_default = \<lparr>match_bit = False, not_bit = False, reserved2 = False, reserved1 = False,
     bitmask_shift_len = 0, bitmask_and_bit = False, bitmask_end_of_list = False\<rparr>"

definition bitmask_byte :: "bgp_flow_spec_bitmask_operator_byte_t \<Rightarrow> u8" where
  "bitmask_byte x = of_bool (match_bit x) OR push_bit 1 (of_bool (not_bit x))
     OR push_bit 2 (of_bool (reserved2 x)) OR push_bit 3 (of_bool (reserved1 x))
     OR push_bit 4 (of_nat (bitmask_shift_len x)) OR push_bit 6 (of_bool (bitmask_and_bit x))
     OR push_bit 7 (of_bool (bitmask_end_of_list x))"

definition bitmask_set_length_in_bytes ::
    "nat \<Rightarrow> bgp_flow_spec_bitmask_operator_byte_t \<Rightarrow> bool \<times> bgp_flow_spec_bitmask_operator_byte_t" where
  "bitmask_set_length_in_bytes n x =
     (if n = 1 then (True, x\<lparr>bitmask_shift_len := 0\<rparr>)
      else if n = 2 then (True, x\<lparr>bitmask_shift_len := 1\<rparr>)
      else if n = 4 then (True, x\<lparr>bitmask_shift_len := 2\<rparr>)
      else (False, x))"

record bgp_flow_spec_fragmentation_entity_t =
  dont_fragment :: bool
  is_fragment :: bool
  first_fragment :: bool
  last_fragment :: bool

definition fragmentation_default :: bgp_flow_spec_fragmentation_entity_t where
  "fragmentation_default = \<lparr>dont_fragment = False, is_fragment = False, first_fragment = False, last_fragment = False\<rparr>"

definition fragmentation_byte :: "bgp_flow_spec_fragmentation_entity_t \<Rightarrow> u8" where
  "fragmentation_byte x = of_bool (dont_fragment x) OR push_bit 1 (of_bool (is_fragment x))
     OR push_bit 2 (of_bool (first_fragment x)) OR push_bit 3 (of_bool (last_fragment x))"

definition fragmentation_of_byte :: "u8 \<Rightarrow> bgp_flow_spec_fragmentation_entity_t" where
  "fragmentation_of_byte b = \<lparr>dont_fragment = bit b 0, is_fragment = bit b 1, first_fragment = bit b 2, last_fragment = bit b 3\<rparr>"

section \<open>TCP flags\<close>

definition extract_bit_value :: "u8 \<Rightarrow> nat \<Rightarrow> bool" where
  "extract_bit_value num i = (if i > 0 \<and> i \<le> 8 then bit (drop_bit (i - 1) num) 0 else False)"

definition uint8t_representation_of_tcp_flags_to_flow_spec ::
    "u8 \<Rightarrow> flow_spec_tcp_flagset_t \<Rightarrow> flow_spec_tcp_flagset_t" where
  "uint8t_representation_of_tcp_flags_to_flow_spec fl s =
     (let s = (if extract_bit_value fl 2 then s\<lparr>syn_flag := True\<rparr> else s);
          s = (if extract_bit_value fl 1 then s\<lparr>fin_flag := True\<rparr> else s);
          s = (if extract_bit_value fl 3 then s\<lparr>rst_flag := True\<rparr> else s);
          s = (if extract_bit_value fl 4 then s\<lparr>psh_flag := True\<rparr> else s);
          s = (if extract_bit_value fl 5 then s\<lparr>ack_flag := True\<rparr> else s);
          s = (if extract_bit_value fl 6 then s\<lparr>urg_flag := True\<rparr> else s)
      in s)"

text \<open>The structure with one bit per flag, from FIN in the lowest bit to CWR in the highest.\<close>

definition return_in_one_byte_encoding :: "flow_spec_tcp_flagset_t \<Rightarrow> u8" where
  "return_in_one_byte_encoding s = of_bool (fin_flag s) OR push_bit 1 (of_bool (syn_flag s))
     OR push_bit 2 (of_bool (rst_flag s)) OR push_bit 3 (of_bool (psh_flag s))
     OR push_bit 4 (of_bool (ack_flag s)) OR push_bit 5 (of_bool (urg_flag s))"

definition convert_one_byte_encoding_to_flowset :: "u8 \<Rightarrow> flow_spec_tcp_flagset_t" where
  "convert_one_byte_encoding_to_flowset b =
     \<lparr>syn_flag = bit b 1, ack_flag = bit b 4, fin_flag = bit b 0, psh_flag = bit b 3,
      rst_flag = bit b 2, urg_flag = bit b 5\<rparr>"

section \<open>Encoding the NLRI\<close>

text \<open>One definition per component, in the order of the source; \<open>is_last\<close> is \<^verbatim>\<open>std::distance(itr, end) == 1\<close>.\<close>

definition value_operator :: "nat \<Rightarrow> bool \<Rightarrow> u8" where
  "value_operator n is_last =
     operator_byte ((snd (set_length_in_bytes n operator_default))\<lparr>equal_bit := True, end_of_list := is_last\<rparr>)"

definition flags_operator :: "bool \<Rightarrow> bool \<Rightarrow> u8" where
  "flags_operator match is_last =
     bitmask_byte ((snd (bitmask_set_length_in_bytes 1 bitmask_default))\<lparr>bitmask_end_of_list := is_last, match_bit := match\<rparr>)"

definition encode_destination_prefix ::
    "flow_spec_rule_t \<Rightarrow> dynamic_binary_buffer_t \<Rightarrow> dynamic_binary_buffer_t outcome" where
  "encode_destination_prefix r b =
     (if destination_subnet_ipv4_used r
      then let b = put_byte FLOW_SPEC_ENTITY_DESTINATION_PREFIX b in
           and_then (encode_bgp_subnet_encoding (destination_subnet_ipv4 r) new_buffer) (\<lambda>p. Done (put_buffer p b))
      else Done b)"

definition encode_source_prefix ::
    "flow_spec_rule_t \<Rightarrow> dynamic_binary_buffer_t \<Rightarrow> dynamic_binary_buffer_t outcome" where
  "encode_source_prefix r b =
     (if source_subnet_ipv4_used r
      then let b = put_byte FLOW_SPEC_ENTITY_SOURCE_PREFIX b in
           and_then (encode_bgp_subnet_encoding (source_subnet_ipv4 r) new_buffer) (\<lambda>p. Done (put_buffer p b))
      else Done b)"

fun encode_protocols_loop :: "ip_protocol_t list \<Rightarrow> dynamic_binary_buffer_t \<Rightarrow> dynamic_binary_buffer_t" where
  "encode_protocols_loop [] b = b"
| "encode_protocols_loop (p # ps) b =
     encode_protocols_loop ps (put_byte p (put_object [value_operator 1 (ps = [])] b))"

definition encode_protocols :: "flow_spec_rule_t \<Rightarrow> dynamic_binary_buffer_t \<Rightarrow> dynamic_binary_buffer_t" where
  "encode_protocols r b =
     (if protocols r \<noteq> [] then encode_protocols_loop (protocols r) (put_byte FLOW_SPEC_ENTITY_IP_PROTOCOL b) else b)"

text \<open>The loops over destination ports, source ports and packet lengths are the same code.\<close>

fun encode_two_byte_loop :: "u16 list \<Rightarrow> dynamic_binary_buffer_t \<Rightarrow> dynamic_binary_buffer_t" where
  "encode_two_byte_loop [] b = b"
| "encode_two_byte_loop (v # vs) b =
     encode_two_byte_loop vs (put_object (mem16 (htons v)) (put_object [value_operator 2 (vs = [])] b))"

definition encode_destination_ports :: "flow_spec_rule_t \<Rightarrow> dynamic_binary_buffer_t \<Rightarrow> dynamic_binary_buffer_t" where
  "encode_destination_ports r b =
     (if destination_ports r \<noteq> []
      then encode_two_byte_loop (destination_ports r) (put_byte FLOW_SPEC_ENTITY_DESTINATION_PORT b) else b)"

definition encode_source_ports :: "flow_spec_rule_t \<Rightarrow> dynamic_binary_buffer_t \<Rightarrow> dynamic_binary_buffer_t" where
  "encode_source_ports r b =
     (if source_ports r \<noteq> []
      then encode_two_byte_loop (source_ports r) (put_byte FLOW_SPEC_ENTITY_SOURCE_PORT b) else b)"

fun encode_tcp_flags_loop ::
    "bool \<Rightarrow> flow_spec_tcp_flagset_t list \<Rightarrow> dynamic_binary_buffer_t \<Rightarrow> dynamic_binary_buffer_t outcome" where
  "encode_tcp_flags_loop match [] b = Done b"
| "encode_tcp_flags_loop match (s # ss) b =
     (let b = put_object [flags_operator match (ss = [])] b in
      if \<not> we_have_least_one_flag_enabled s then Failed
      else encode_tcp_flags_loop match ss (put_object [return_in_one_byte_encoding s] b))"

definition encode_tcp_flags :: "flow_spec_rule_t \<Rightarrow> dynamic_binary_buffer_t \<Rightarrow> dynamic_binary_buffer_t outcome" where
  "encode_tcp_flags r b =
     (if tcp_flags r \<noteq> []
      then encode_tcp_flags_loop (set_match_bit_for_tcp_flags r) (tcp_flags r) (put_byte FLOW_SPEC_ENTITY_TCP_FLAGS b)
      else Done b)"

definition encode_packet_lengths :: "flow_spec_rule_t \<Rightarrow> dynamic_binary_buffer_t \<Rightarrow> dynamic_binary_buffer_t" where
  "encode_packet_lengths r b =
     (if packet_lengths r \<noteq> []
      then encode_two_byte_loop (packet_lengths r) (put_byte FLOW_SPEC_ENTITY_PACKET_LENGTH b) else b)"

fun fragmentation_entity :: "flow_spec_fragmentation_types_t \<Rightarrow> bgp_flow_spec_fragmentation_entity_t" where
  "fragmentation_entity FLOW_SPEC_DONT_FRAGMENT = fragmentation_default\<lparr>dont_fragment := True\<rparr>"
| "fragmentation_entity FLOW_SPEC_IS_A_FRAGMENT = fragmentation_default\<lparr>is_fragment := True\<rparr>"
| "fragmentation_entity FLOW_SPEC_FIRST_FRAGMENT = fragmentation_default\<lparr>first_fragment := True\<rparr>"
| "fragmentation_entity FLOW_SPEC_LAST_FRAGMENT = fragmentation_default\<lparr>last_fragment := True\<rparr>"
| "fragmentation_entity FLOW_SPEC_NOT_A_FRAGMENT = fragmentation_default"

fun encode_fragmentation_loop ::
    "bool \<Rightarrow> flow_spec_fragmentation_types_t list \<Rightarrow> dynamic_binary_buffer_t \<Rightarrow> dynamic_binary_buffer_t" where
  "encode_fragmentation_loop match [] b = b"
| "encode_fragmentation_loop match (f # fs) b =
     encode_fragmentation_loop match fs
       (put_object [fragmentation_byte (fragmentation_entity f)] (put_object [flags_operator match (fs = [])] b))"

definition encode_fragmentation :: "flow_spec_rule_t \<Rightarrow> dynamic_binary_buffer_t \<Rightarrow> dynamic_binary_buffer_t" where
  "encode_fragmentation r b =
     (if fragmentation_flags r \<noteq> []
      then encode_fragmentation_loop (set_match_bit_for_fragmentation_flags r) (fragmentation_flags r)
             (put_byte FLOW_SPEC_ENTITY_FRAGMENT b)
      else b)"

definition encode_bgp_flow_spec_elements_as_mp_nlri ::
    "flow_spec_rule_t \<Rightarrow> dynamic_binary_buffer_t \<Rightarrow> dynamic_binary_buffer_t outcome" where
  "encode_bgp_flow_spec_elements_as_mp_nlri r b =
     and_then (encode_destination_prefix r (allocate 2048 b)) (\<lambda>b.
     and_then (encode_source_prefix r b) (\<lambda>b.
     and_then (encode_tcp_flags r (encode_source_ports r (encode_destination_ports r (encode_protocols r b)))) (\<lambda>b.
       let b = encode_fragmentation r (encode_packet_lengths r b)
       in if is_failed b then Failed else Done b)))"

text \<open>\<^verbatim>\<open>bgp_mp_ext_flow_spec_header_t\<close> in network byte order.\<close>

definition bgp_mp_ext_flow_spec_header_t :: bytes where
  "bgp_mp_ext_flow_spec_header_t = mem16 (htons AFI_IP) @ [SAFI_FLOW_SPEC_UNICAST, 0, 0]"

text \<open>\<open>nlri_length\<close> and \<open>attribute_length\<close> are \<^verbatim>\<open>uint8_t\<close>: the size is reduced modulo 256.\<close>

definition encode_bgp_flow_spec_elements_into_bgp_mp_attribute ::
    "flow_spec_rule_t \<Rightarrow> dynamic_binary_buffer_t \<Rightarrow> bool \<Rightarrow> dynamic_binary_buffer_t outcome" where
  "encode_bgp_flow_spec_elements_into_bgp_mp_attribute r b add_preamble =
     and_then (encode_bgp_flow_spec_elements_as_mp_nlri r new_buffer) (\<lambda>nlri.
       let nlri_length = (of_nat (get_used_size nlri) :: u8) in
       if nlri_length \<ge> 240 then Failed
       else
         let attr = bgp_attribute_multiprotocol_extensions_t (of_nat (5 + 1 + get_used_size nlri));
             b = allocate 2048 b;
             b = (if add_preamble then put_object bgp_mp_ext_flow_spec_header_t (put_object attr b) else b);
             b = put_object [nlri_length] b;
             b = put_buffer nlri b
         in if is_failed b then Failed else Done b)"

section \<open>Decoding the NLRI\<close>

text \<open>\<open>value_length\<close> stays 0 for a value of two bytes, as in the source.\<close>

record flow_spec_enumerable_lement =
  one_byte_value :: u8
  two_byte_value :: u16
  value_length :: nat
  element_operator :: bgp_flow_spec_operator_byte_t

text \<open>The value of one or two bytes behind its operator.\<close>

definition read_element :: "bgp_flow_spec_operator_byte_t \<Rightarrow> bytes \<Rightarrow> flow_spec_enumerable_lement outcome" where
  "read_element opr data =
     (if get_value_length opr = 1
      then deref 1 (\<lambda>d. \<lparr>one_byte_value = d ! 0, two_byte_value = ucast (d ! 0), value_length = 1, element_operator = opr\<rparr>) data 1
      else deref 2 (\<lambda>d. \<lparr>one_byte_value = 0, two_byte_value = htons (of_mem16 (d ! 0) (d ! 1)), value_length = 0,
        element_operator = opr\<rparr>) data 1)"

text \<open>The loop runs at most 100 times; running out of iterations is not an error.\<close>

fun read_values_loop :: "nat \<Rightarrow> bytes \<Rightarrow> flow_spec_enumerable_lement list
    \<Rightarrow> (flow_spec_enumerable_lement list \<times> bytes) outcome" where
  "read_values_loop 0 data items = Done (items, data)"
| "read_values_loop (Suc i) data items =
     (if length data < 1 then Failed
      else and_then (deref 1 (\<lambda>d. operator_of_byte (d ! 0)) data 0) (\<lambda>opr.
        if less_than opr \<or> greater_than opr then Failed
        else if and_bit opr then Failed
        else if get_value_length opr \<noteq> 2 \<and> get_value_length opr \<noteq> 1 then Failed
        else if length data < 1 + get_value_length opr then Failed
        else and_then (read_element opr data) (\<lambda>element.
          let rest = drop (1 + get_value_length opr) data
          in if end_of_list opr then Done (items @ [element], rest)
             else read_values_loop i rest (items @ [element]))))"

definition read_one_or_more_values_encoded_with_operator_byte ::
    "bytes \<Rightarrow> (flow_spec_enumerable_lement list \<times> bytes) outcome" where
  "read_one_or_more_values_encoded_with_operator_byte data = read_values_loop 100 data []"

text \<open>What the decoder does with the values of each component type.\<close>

fun add_protocols :: "flow_spec_enumerable_lement list \<Rightarrow> flow_spec_rule_t \<Rightarrow> flow_spec_rule_t option" where
  "add_protocols [] r = Some r"
| "add_protocols (x # xs) r =
     (if two_byte_value x > 255 then None
      else add_protocols xs (add_protocol (get_ip_protocol_enum_type_from_integer (ucast (two_byte_value x))) r))"

fun add_tcp_flags :: "flow_spec_enumerable_lement list \<Rightarrow> flow_spec_rule_t \<Rightarrow> flow_spec_rule_t option" where
  "add_tcp_flags [] r = Some r"
| "add_tcp_flags (x # xs) r =
     (if value_length x \<noteq> 1 then None
      else let s = convert_one_byte_encoding_to_flowset (one_byte_value x)
           in add_tcp_flags xs (if we_have_least_one_flag_enabled s then add_tcp_flagset s r else r))"

fun add_fragmentation :: "flow_spec_enumerable_lement list \<Rightarrow> flow_spec_rule_t \<Rightarrow> flow_spec_rule_t option" where
  "add_fragmentation [] r = Some r"
| "add_fragmentation (x # xs) r =
     (if value_length x \<noteq> 1 then None
      else
        let e = fragmentation_of_byte (one_byte_value x);
            r = (if last_fragment e then add_fragmentation_flag FLOW_SPEC_LAST_FRAGMENT r else r);
            r = (if first_fragment e then add_fragmentation_flag FLOW_SPEC_FIRST_FRAGMENT r else r);
            r = (if is_fragment e then add_fragmentation_flag FLOW_SPEC_IS_A_FRAGMENT r else r);
            r = (if dont_fragment e then add_fragmentation_flag FLOW_SPEC_DONT_FRAGMENT r else r);
            r = (if \<not> last_fragment e \<and> \<not> first_fragment e \<and> \<not> is_fragment e \<and> \<not> dont_fragment e
                 then add_fragmentation_flag FLOW_SPEC_NOT_A_FRAGMENT r else r)
        in add_fragmentation xs r)"

definition add_values :: "(u16 \<Rightarrow> flow_spec_rule_t \<Rightarrow> flow_spec_rule_t) \<Rightarrow> flow_spec_enumerable_lement list
    \<Rightarrow> flow_spec_rule_t \<Rightarrow> flow_spec_rule_t option" where
  "add_values add xs r = Some (fold (\<lambda>x. add (two_byte_value x)) xs r)"

text \<open>
  The branches for the types with operator bytes are the same code up to the function applied to
  the values; \<open>None\<close> for any other type.
\<close>

definition value_component :: "u8 \<Rightarrow> (flow_spec_enumerable_lement list \<Rightarrow> flow_spec_rule_t \<Rightarrow> flow_spec_rule_t option) option" where
  "value_component t =
     (if t = FLOW_SPEC_ENTITY_IP_PROTOCOL then Some add_protocols
      else if t = FLOW_SPEC_ENTITY_TCP_FLAGS then Some add_tcp_flags
      else if t = FLOW_SPEC_ENTITY_FRAGMENT then Some add_fragmentation
      else if t = FLOW_SPEC_ENTITY_PACKET_LENGTH then Some (add_values add_packet_length)
      else if t = FLOW_SPEC_ENTITY_SOURCE_PORT then Some (add_values add_source_port)
      else if t = FLOW_SPEC_ENTITY_DESTINATION_PORT then Some (add_values add_destination_port)
      else None)"

text \<open>The branch for a prefix: the prefix and the remaining data.\<close>

definition prefix_component :: "bytes \<Rightarrow> (subnet_cidr_mask_t \<times> bytes) outcome" where
  "prefix_component data =
     (if length data < 2 then Failed
      else and_then (decode_bgp_subnet_encoding_ipv4 (tl data)) (\<lambda>(p, n). Done (p, drop n (tl data))))"

lemma read_values_loop_length:
  "read_values_loop i data items = Done (items', rest) \<Longrightarrow> length rest \<le> length data"
proof (induction i arbitrary: data items)
  case (Suc i)
  then show ?case
    by (fastforce simp: Let_def and_then_Done_iff split: if_splits)
qed simp

lemma read_values_length:
  "data \<noteq> [] \<Longrightarrow> read_one_or_more_values_encoded_with_operator_byte (tl data) = Done (items, rest)
     \<Longrightarrow> length rest < length data"
  using read_values_loop_length [of 100 "tl data" "[]" items rest]
  by (cases data) (auto simp: read_one_or_more_values_encoded_with_operator_byte_def)

lemma prefix_component_length: "prefix_component data = Done (p, rest) \<Longrightarrow> length rest < length data"
  by (auto simp: prefix_component_def and_then_Done_iff split: if_splits)

text \<open>An element out of order only produces a warning.\<close>

function flow_spec_decode_nlri_value :: "bytes \<Rightarrow> flow_spec_rule_t \<Rightarrow> flow_spec_rule_t outcome" where
  "flow_spec_decode_nlri_value data r =
     (if data = [] then Done r
      else (case deref 1 hd data 0 of Failed \<Rightarrow> Failed | Undefined \<Rightarrow> Undefined | Done t \<Rightarrow>
        if t = FLOW_SPEC_ENTITY_SOURCE_PREFIX
        then if source_subnet_ipv4_used r then Failed
             else (case prefix_component data of
                     Done (p, rest) \<Rightarrow> flow_spec_decode_nlri_value rest (set_source_subnet_ipv4 p r)
                   | Failed \<Rightarrow> Failed | Undefined \<Rightarrow> Undefined)
        else if t = FLOW_SPEC_ENTITY_DESTINATION_PREFIX
        then if destination_subnet_ipv4_used r then Failed
             else (case prefix_component data of
                     Done (p, rest) \<Rightarrow> flow_spec_decode_nlri_value rest (set_destination_subnet_ipv4 p r)
                   | Failed \<Rightarrow> Failed | Undefined \<Rightarrow> Undefined)
        else if t = FLOW_SPEC_ENTITY_PORT then Failed
        else (case value_component t of
                None \<Rightarrow> Failed
              | Some add \<Rightarrow>
                  (case read_one_or_more_values_encoded_with_operator_byte (tl data) of
                     Done (items, rest) \<Rightarrow>
                       (case add items r of
                          None \<Rightarrow> Failed
                        | Some r' \<Rightarrow> flow_spec_decode_nlri_value rest r')
                   | Failed \<Rightarrow> Failed | Undefined \<Rightarrow> Undefined))))"
  by pat_completeness auto
termination
  by (relation "measure (\<lambda>(data, _). length data)") (auto simp: prefix_component_length read_values_length)

declare flow_spec_decode_nlri_value.simps [simp del]

section \<open>Single precision numbers\<close>

text \<open>
  A \<^verbatim>\<open>float\<close> is its IEEE 754 bit pattern: sign in bit 31, biased exponent in bits 23 to 30,
  fraction below.
\<close>

fun floor_log2 :: "nat \<Rightarrow> nat" where
  "floor_log2 n = (if n < 2 then 0 else Suc (floor_log2 (n div 2)))"

declare floor_log2.simps [simp del]

text \<open>The conversion of an unsigned integer rounds to the nearest number, ties to even.\<close>

definition round_shift :: "nat \<Rightarrow> nat \<Rightarrow> nat" where
  "round_shift n k =
     (let q = n div 2 ^ k; r = n mod 2 ^ k
      in if 2 * r > 2 ^ k \<or> (2 * r = 2 ^ k \<and> odd q) then q + 1 else q)"

definition float_of_uint :: "u32 \<Rightarrow> u32" where
  "float_of_uint w =
     (let n = unat w; e = floor_log2 n
      in if n = 0 then 0
         else if e \<le> 23 then of_nat ((e + 127) * 2 ^ 23 + (n * 2 ^ (23 - e) - 2 ^ 23))
         else of_nat ((e + 127) * 2 ^ 23 + (round_shift n (e - 23) - 2 ^ 23)))"

definition float_exponent :: "u32 \<Rightarrow> nat" where
  "float_exponent f = unat f div 2 ^ 23 mod 2 ^ 8"

definition float_fraction :: "u32 \<Rightarrow> nat" where
  "float_fraction f = unat f mod 2 ^ 23"

text \<open>\<^verbatim>\<open>f < 0\<close>: false for negative zero and for values that are not numbers.\<close>

definition float_negative :: "u32 \<Rightarrow> bool" where
  "float_negative f \<longleftrightarrow> bit f 31 \<and> \<not> (float_exponent f = 0 \<and> float_fraction f = 0)
     \<and> \<not> (float_exponent f = 255 \<and> float_fraction f \<noteq> 0)"

text \<open>
  \<^verbatim>\<open>int(f)\<close> of a number that is not negative truncates; it is undefined for infinity, for values
  that are not numbers and for results that do not fit an \<^verbatim>\<open>int\<close>.
\<close>

definition float_to_int :: "u32 \<Rightarrow> nat outcome" where
  "float_to_int f =
     (let e = float_exponent f; m = float_fraction f
      in if e = 255 then Undefined
         else let v = (if e = 0 then 0
                       else if e \<ge> 150 then (2 ^ 23 + m) * 2 ^ (e - 150)
                       else (2 ^ 23 + m) div 2 ^ (150 - e))
              in if v \<ge> 2 ^ 31 then Undefined else Done v)"

section \<open>Extended communities\<close>

definition EXTENDED_COMMUNITY_TRANSITIVE_IPV4_ADDRESS_SPECIFIC :: u8 where
  "EXTENDED_COMMUNITY_TRANSITIVE_IPV4_ADDRESS_SPECIFIC = 1"
definition EXTENDED_COMMUNITY_TRANSITIVE_EXPEREMENTAL :: u8 where
  "EXTENDED_COMMUNITY_TRANSITIVE_EXPEREMENTAL = 128"
definition EXTENDED_COMMUNITY_TRANSITIVE_EXPEREMENTAL_PART_3 :: u8 where
  "EXTENDED_COMMUNITY_TRANSITIVE_EXPEREMENTAL_PART_3 = 130"
definition FLOW_SPEC_EXTENDED_COMMUNITY_SUBTYPE_TRAFFIC_RATE :: u8 where
  "FLOW_SPEC_EXTENDED_COMMUNITY_SUBTYPE_TRAFFIC_RATE = 6"
definition FLOW_SPEC_EXTENDED_COMMUNITY_SUBTYPE_REDIRECT_AS_TWO_BYTE :: u8 where
  "FLOW_SPEC_EXTENDED_COMMUNITY_SUBTYPE_REDIRECT_AS_TWO_BYTE = 8"
definition BGP_IPV4_EXTENDED_COMMUNITY_SUBTYPE_FLOW_SPEC_REDIRECT_IPv4 :: u8 where
  "BGP_IPV4_EXTENDED_COMMUNITY_SUBTYPE_FLOW_SPEC_REDIRECT_IPv4 = 0x0c"

lemmas community_defs = EXTENDED_COMMUNITY_TRANSITIVE_IPV4_ADDRESS_SPECIFIC_def
  EXTENDED_COMMUNITY_TRANSITIVE_EXPEREMENTAL_def EXTENDED_COMMUNITY_TRANSITIVE_EXPEREMENTAL_PART_3_def
  FLOW_SPEC_EXTENDED_COMMUNITY_SUBTYPE_TRAFFIC_RATE_def
  FLOW_SPEC_EXTENDED_COMMUNITY_SUBTYPE_REDIRECT_AS_TWO_BYTE_def
  BGP_IPV4_EXTENDED_COMMUNITY_SUBTYPE_FLOW_SPEC_REDIRECT_IPv4_def

definition bgp_extended_community_element_flow_spec_rate_t :: "u32 \<Rightarrow> bytes" where
  "bgp_extended_community_element_flow_spec_rate_t rate =
     [EXTENDED_COMMUNITY_TRANSITIVE_EXPEREMENTAL, FLOW_SPEC_EXTENDED_COMMUNITY_SUBTYPE_TRAFFIC_RATE, 0, 0]
     @ mem32 (htonl rate)"

definition bgp_extended_community_element_flow_spec_redirect :: "u16 \<Rightarrow> u32 \<Rightarrow> bytes" where
  "bgp_extended_community_element_flow_spec_redirect target_as target_value =
     [EXTENDED_COMMUNITY_TRANSITIVE_EXPEREMENTAL, FLOW_SPEC_EXTENDED_COMMUNITY_SUBTYPE_REDIRECT_AS_TWO_BYTE]
     @ mem16 (htons target_as) @ mem32 (htonl target_value)"

definition bgp_extended_community_element_flow_spec_redirect_rt_as_2byte_t :: "u16 \<Rightarrow> u32 \<Rightarrow> bytes" where
  "bgp_extended_community_element_flow_spec_redirect_rt_as_2byte_t target_as target_value =
     [EXTENDED_COMMUNITY_TRANSITIVE_EXPEREMENTAL, FLOW_SPEC_EXTENDED_COMMUNITY_SUBTYPE_REDIRECT_AS_TWO_BYTE]
     @ mem16 (htons target_as) @ mem32 (htonl target_value)"

definition bgp_extended_community_element_flow_spec_redirect_rt_as_4byte_t :: "u32 \<Rightarrow> u16 \<Rightarrow> bytes" where
  "bgp_extended_community_element_flow_spec_redirect_rt_as_4byte_t target_as target_value =
     [EXTENDED_COMMUNITY_TRANSITIVE_EXPEREMENTAL_PART_3, FLOW_SPEC_EXTENDED_COMMUNITY_SUBTYPE_REDIRECT_AS_TWO_BYTE]
     @ mem32 (htonl target_as) @ mem16 (htons target_value)"

text \<open>The next hop is kept in network byte order and copied as it is.\<close>

definition bgp_extended_community_element_flow_spec_ipv4_next_hop_t :: "u32 \<Rightarrow> bytes" where
  "bgp_extended_community_element_flow_spec_ipv4_next_hop_t hop =
     [EXTENDED_COMMUNITY_TRANSITIVE_IPV4_ADDRESS_SPECIFIC,
      BGP_IPV4_EXTENDED_COMMUNITY_SUBTYPE_FLOW_SPEC_REDIRECT_IPv4] @ mem32 hop @ mem16 0"

definition encode_bgp_flow_spec_redirect_rt_as_extended_attribute ::
    "bgp_flow_spec_action_t \<Rightarrow> dynamic_binary_buffer_t \<Rightarrow> dynamic_binary_buffer_t outcome" where
  "encode_bgp_flow_spec_redirect_rt_as_extended_attribute a b =
     (let attr = bgp_extended_community_attribute_t 8 in
      if redirect_rt_as a \<le> 65535
      then Done (put_object (bgp_extended_community_element_flow_spec_redirect_rt_as_2byte_t
                   (ucast (redirect_rt_as a)) (redirect_rt_value a)) (put_object attr (allocate 11 b)))
      else if redirect_rt_value a > 65535 then Failed
      else Done (put_object (bgp_extended_community_element_flow_spec_redirect_rt_as_4byte_t
                   (redirect_rt_as a) (ucast (redirect_rt_value a))) (put_object attr (allocate 11 b))))"

definition encode_bgp_flow_spec_action_as_extended_attribute ::
    "bgp_flow_spec_action_t \<Rightarrow> dynamic_binary_buffer_t \<Rightarrow> dynamic_binary_buffer_t outcome" where
  "encode_bgp_flow_spec_action_as_extended_attribute a b =
     (let b = allocate 11 b; attr = bgp_extended_community_attribute_t 8 in
      case action_type a of
        FLOW_SPEC_ACTION_DISCARD \<Rightarrow>
          Done (put_object (bgp_extended_community_element_flow_spec_rate_t (float_of_uint 0)) (put_object attr b))
      | FLOW_SPEC_ACTION_RATE_LIMIT \<Rightarrow>
          Done (put_object (bgp_extended_community_element_flow_spec_rate_t (float_of_uint (rate_limit a)))
                 (put_object attr b))
      | FLOW_SPEC_ACTION_REDIRECT \<Rightarrow>
          Done (put_object (bgp_extended_community_element_flow_spec_redirect (redirect_as a) (redirect_value a))
                 (put_object attr b))
      | FLOW_SPEC_ACTION_REDIRECT_VRF \<Rightarrow> encode_bgp_flow_spec_redirect_rt_as_extended_attribute a b
      | _ \<Rightarrow> Failed)"

definition encode_bgp_flow_spec_next_hop_as_extended_attribute ::
    "u32 \<Rightarrow> dynamic_binary_buffer_t \<Rightarrow> dynamic_binary_buffer_t outcome" where
  "encode_bgp_flow_spec_next_hop_as_extended_attribute hop b =
     Done (put_object (bgp_extended_community_element_flow_spec_ipv4_next_hop_t hop)
            (put_object (bgp_extended_community_attribute_t 8) (allocate 11 b)))"

section \<open>Attribute lists\<close>

text \<open>The result vector holds copies of the buffers; an empty vector reports an error.\<close>

definition origin_attribute_buffer :: dynamic_binary_buffer_t where
  "origin_attribute_buffer = put_object (bgp_attribute_origin BGP_ORIGIN_INCOMPLETE) (allocate 4 new_buffer)"

fun or_empty :: "dynamic_binary_buffer_t outcome \<Rightarrow> (dynamic_binary_buffer_t \<Rightarrow> dynamic_binary_buffer_t list)
    \<Rightarrow> dynamic_binary_buffer_t list outcome" where
  "or_empty (Done b) f = Done (map copy_buffer (f b))"
| "or_empty Failed f = Done []"
| "or_empty Undefined f = Undefined"

definition build_attributes_for_flowspec_announce :: "flow_spec_rule_t \<Rightarrow> dynamic_binary_buffer_t list outcome" where
  "build_attributes_for_flowspec_announce r =
     (case encode_bgp_flow_spec_elements_into_bgp_mp_attribute r new_buffer True of
        Failed \<Rightarrow> Done []
      | Undefined \<Rightarrow> Undefined
      | Done mp \<Rightarrow>
          if action_type (action r) = FLOW_SPEC_ACTION_ACCEPT
          then if ipv4_nexthops r \<noteq> []
               then or_empty (encode_bgp_flow_spec_next_hop_as_extended_attribute (ipv4_nexthops r ! 0) new_buffer)
                      (\<lambda>hop. [origin_attribute_buffer, mp, hop])
               else Done (map copy_buffer [origin_attribute_buffer, mp])
          else or_empty (encode_bgp_flow_spec_action_as_extended_attribute (action r) new_buffer)
                 (\<lambda>ext. [origin_attribute_buffer, mp, ext]))"

definition build_attributes_for_gobgp_flowspec_announce :: "flow_spec_rule_t \<Rightarrow> dynamic_binary_buffer_t list outcome" where
  "build_attributes_for_gobgp_flowspec_announce r =
     (let carrier = put_object (bgp_attribute_next_hop_ipv4 0) (allocate 7 new_buffer);
          ty = action_type (action r)
      in if ty = FLOW_SPEC_ACTION_DISCARD
         then or_empty (encode_bgp_flow_spec_action_as_extended_attribute (action r) new_buffer)
                (\<lambda>ext. [origin_attribute_buffer, carrier, ext])
         else if ty = FLOW_SPEC_ACTION_REDIRECT_VRF
         then or_empty (encode_bgp_flow_spec_redirect_rt_as_extended_attribute (action r) new_buffer)
                (\<lambda>ext. [origin_attribute_buffer, carrier, ext])
         else if ty \<noteq> FLOW_SPEC_ACTION_REDIRECT \<and> ty \<noteq> FLOW_SPEC_ACTION_ACCEPT then Done []
         else if length (ipv4_nexthops r) \<noteq> 1 then Done []
         else or_empty (encode_bgp_flow_spec_next_hop_as_extended_attribute (ipv4_nexthops r ! 0) new_buffer)
                (\<lambda>ext. [origin_attribute_buffer, carrier, ext]))"

section \<open>Decoding attribute lists\<close>

text \<open>The eight bytes of the extended community element.\<close>

definition decode_extended_community :: "bytes \<Rightarrow> flow_spec_rule_t \<Rightarrow> flow_spec_rule_t outcome" where
  "decode_extended_community e r =
     (if e ! 0 = EXTENDED_COMMUNITY_TRANSITIVE_EXPEREMENTAL
      then if e ! 1 = FLOW_SPEC_EXTENDED_COMMUNITY_SUBTYPE_TRAFFIC_RATE
           then let rate = htonl (of_mem32 (e ! 4) (e ! 5) (e ! 6) (e ! 7)) in
                if float_negative rate then Failed
                else and_then (float_to_int rate) (\<lambda>v.
                  Done (set_action
                    (if v = 0 then action_default\<lparr>action_type := FLOW_SPEC_ACTION_DISCARD\<rparr>
                     else action_default\<lparr>action_type := FLOW_SPEC_ACTION_RATE_LIMIT, rate_limit := of_nat v\<rparr>) r))
           else if e ! 1 = FLOW_SPEC_EXTENDED_COMMUNITY_SUBTYPE_REDIRECT_AS_TWO_BYTE
           then Done (set_action (action_default\<lparr>action_type := FLOW_SPEC_ACTION_REDIRECT,
                  redirect_as := htons (of_mem16 (e ! 2) (e ! 3)),
                  redirect_value := htonl (of_mem32 (e ! 4) (e ! 5) (e ! 6) (e ! 7))\<rparr>) r)
           else Done r
      else Done r)"

text \<open>
  The MP_REACH_NLRI branch trusts the length byte of the NLRI: when the attribute is shorter than
  it says, the decoder is given a range that ends behind the received bytes.
\<close>

definition decode_flow_spec_mp_reach :: "bytes \<Rightarrow> flow_spec_rule_t \<Rightarrow> flow_spec_rule_t outcome" where
  "decode_flow_spec_mp_reach body r =
     (if length body < 3 then Undefined
      else if \<not> (htons (of_mem16 (body ! 0) (body ! 1)) = AFI_IP \<and> body ! 2 = SAFI_FLOW_SPEC_UNICAST) then Failed
      else if length body < 6 then Undefined
      else if body ! 5 \<ge> 240 then Failed
      else if length body < 6 + unat (body ! 5) then Undefined
      else flow_spec_decode_nlri_value (take (unat (body ! 5)) (drop 6 body)) r)"

fun decode_native_flow_spec_announce_from_binary_encoded_atributes ::
    "dynamic_binary_buffer_t list \<Rightarrow> flow_spec_rule_t \<Rightarrow> flow_spec_rule_t outcome" where
  "decode_native_flow_spec_announce_from_binary_encoded_atributes [] r = Done r"
| "decode_native_flow_spec_announce_from_binary_encoded_atributes (b # bs) r =
     (let b = copy_buffer b in
      case parse_raw_bgp_attribute_binary_buffer b of
        None \<Rightarrow> Failed
      | Some h \<Rightarrow>
          let body = drop (attribute_body_shift h) (buffer_data b) in
          if attribute_type h = BGP_ATTRIBUTE_EXTENDED_COMMUNITY
          then if attribute_value_length h mod 8 \<noteq> 0 then Failed
               else if attribute_value_length h div 8 \<noteq> 1 then Failed
               else and_then (decode_extended_community body r)
                      (decode_native_flow_spec_announce_from_binary_encoded_atributes bs)
          else if attribute_type h = BGP_ATTRIBUTE_MP_REACH_NLRI
          then and_then (decode_flow_spec_mp_reach body r)
                 (decode_native_flow_spec_announce_from_binary_encoded_atributes bs)
          else decode_native_flow_spec_announce_from_binary_encoded_atributes bs r)"

section \<open>What an encoder writes\<close>

text \<open>
  \<open>writes F bs\<close>: the buffer transformer \<open>F\<close> is a sequence of appends of \<open>bs\<close> in order.
\<close>

definition writes :: "(dynamic_binary_buffer_t \<Rightarrow> dynamic_binary_buffer_t) \<Rightarrow> bytes \<Rightarrow> bool" where
  "writes F bs \<longleftrightarrow> (\<exists>ops. (\<forall>b. F b = fold buffer_apply ops b) \<and> concat (map buffer_op_data ops) = bs)"

lemma writesI: "(\<And>b. F b = fold buffer_apply ops b) \<Longrightarrow> concat (map buffer_op_data ops) = bs \<Longrightarrow> writes F bs"
  by (auto simp: writes_def)

lemma writes_id [intro]: "writes (\<lambda>b. b) []"
  by (rule writesI [of _ "[]"]) auto

lemma writes_comp: "writes F bs \<Longrightarrow> writes G cs \<Longrightarrow> writes (\<lambda>b. G (F b)) (bs @ cs)"
  unfolding writes_def
proof (elim exE conjE)
  fix ops1 ops2
  assume "\<forall>b. F b = fold buffer_apply ops1 b" "concat (map buffer_op_data ops1) = bs"
    "\<forall>b. G b = fold buffer_apply ops2 b" "concat (map buffer_op_data ops2) = cs"
  then show "\<exists>ops. (\<forall>b. G (F b) = fold buffer_apply ops b) \<and> concat (map buffer_op_data ops) = bs @ cs"
    by (intro exI [of _ "ops1 @ ops2"]) auto
qed

lemma writes_put [intro]:
  "writes (put_byte x) [x]" "writes (put_object bs) bs" "writes (put_buffer c) (buffer_data c)"
  by (auto simp: put_as_op intro: writesI [of _ "[op_byte x]"] writesI [of _ "[op_object bs]"]
      writesI [of _ "[op_buffer c]"])

lemma writes_then:
  "writes F cs \<Longrightarrow> writes (\<lambda>b. F (put_byte x b)) (x # cs)"
  "writes F cs \<Longrightarrow> writes (\<lambda>b. F (put_object bs b)) (bs @ cs)"
  using writes_comp [OF writes_put(1)] writes_comp [OF writes_put(2)] by force+

lemma writes_result:
  assumes "writes F bs"
  shows "length bs \<le> n \<Longrightarrow> F (buffer_with n []) = buffer_with n bs"
    and "length bs > n \<Longrightarrow> is_failed (F (buffer_with n []))"
proof -
  obtain ops where F: "F b = fold buffer_apply ops b" and bs: "concat (map buffer_op_data ops) = bs" for b
    using assms by (auto simp: writes_def)
  note run = buffer_run_cases [of "buffer_with n []" ops, unfolded bs]
  show "length bs \<le> n \<Longrightarrow> F (buffer_with n []) = buffer_with n bs"
    using run by (simp add: F)
  show "length bs > n \<Longrightarrow> is_failed (F (buffer_with n []))"
    using run by (simp add: F is_failed_def)
qed

section \<open>Lists of values\<close>

text \<open>The last element of a list carries the end of list bit.\<close>

fun enc_list :: "(bool \<Rightarrow> 'a \<Rightarrow> bytes) \<Rightarrow> 'a list \<Rightarrow> bytes" where
  "enc_list f [] = []"
| "enc_list f (x # xs) = f (xs = []) x @ enc_list f xs"

fun elements :: "(bool \<Rightarrow> 'a \<Rightarrow> flow_spec_enumerable_lement) \<Rightarrow> 'a list \<Rightarrow> flow_spec_enumerable_lement list" where
  "elements g [] = []"
| "elements g (x # xs) = g (xs = []) x # elements g xs"

lemma map_elements: "(\<And>l x. h (g l x) = k x) \<Longrightarrow> map h (elements g xs) = map k xs"
  by (induction xs) auto

text \<open>A kind of list element: how one is written, and the element the decoder makes of it.\<close>

locale value_list =
  fixes f :: "bool \<Rightarrow> 'a \<Rightarrow> bytes" and g :: "bool \<Rightarrow> 'a \<Rightarrow> flow_spec_enumerable_lement"
  assumes step: "read_values_loop (Suc i) (f is_last x @ rest) items =
    (if is_last then Done (items @ [g is_last x], rest) else read_values_loop i rest (items @ [g is_last x]))"
begin

lemma read_loop:
  "xs \<noteq> [] \<Longrightarrow> length xs \<le> n \<Longrightarrow>
     read_values_loop n (enc_list f xs @ rest) items = Done (items @ elements g xs, rest)"
proof (induction xs arbitrary: n items)
  case (Cons x xs)
  then obtain i where "n = Suc i"
    by (cases n) auto
  then show ?case
    using Cons by (cases "xs = []") (simp_all add: step del: read_values_loop.simps)
qed simp

lemma read_list:
  "xs \<noteq> [] \<Longrightarrow> length xs \<le> 100 \<Longrightarrow>
     read_one_or_more_values_encoded_with_operator_byte (enc_list f xs @ rest) = Done (elements g xs, rest)"
  by (simp add: read_one_or_more_values_encoded_with_operator_byte_def read_loop)

end

definition one_byte_item :: "bool \<Rightarrow> u8 \<Rightarrow> bytes" where
  "one_byte_item is_last v = [value_operator 1 is_last, v]"

definition two_byte_item :: "bool \<Rightarrow> u16 \<Rightarrow> bytes" where
  "two_byte_item is_last v = value_operator 2 is_last # mem16 (htons v)"

definition flag_item :: "bool \<Rightarrow> ('a \<Rightarrow> u8) \<Rightarrow> bool \<Rightarrow> 'a \<Rightarrow> bytes" where
  "flag_item match enc is_last s = [flags_operator match is_last, enc s]"

definition one_byte_element :: "(bool \<Rightarrow> u8) \<Rightarrow> bool \<Rightarrow> u8 \<Rightarrow> flow_spec_enumerable_lement" where
  "one_byte_element opr is_last v = \<lparr>one_byte_value = v, two_byte_value = ucast v, value_length = 1,
     element_operator = operator_of_byte (opr is_last)\<rparr>"

definition two_byte_element :: "bool \<Rightarrow> u16 \<Rightarrow> flow_spec_enumerable_lement" where
  "two_byte_element is_last v = \<lparr>one_byte_value = 0, two_byte_value = v, value_length = 0,
     element_operator = operator_of_byte (value_operator 2 is_last)\<rparr>"

lemma value_operator_fields:
  "n = 1 \<or> n = 2 \<Longrightarrow> operator_of_byte (value_operator n l) = operator_default\<lparr>equal_bit := True,
     bit_shift_len := n - 1, end_of_list := l\<rparr>"
  by (cases l) (auto simp: operator_of_byte_def value_operator_def operator_byte_def set_length_in_bytes_def
      operator_default_def bit_simps)

lemma flags_operator_fields:
  "operator_of_byte (flags_operator m l) = operator_default\<lparr>equal_bit := m, end_of_list := l\<rparr>"
  by (cases l; cases m) (auto simp: operator_of_byte_def flags_operator_def bitmask_byte_def
      bitmask_set_length_in_bytes_def bitmask_default_def operator_default_def bit_simps)

interpretation one_byte: value_list one_byte_item "one_byte_element (value_operator 1)"
  by unfold_locales
    (simp add: one_byte_item_def one_byte_element_def value_operator_fields operator_default_def get_value_length_def read_element_def)

interpretation two_byte: value_list two_byte_item two_byte_element
  by unfold_locales
    (simp add: two_byte_item_def two_byte_element_def value_operator_fields operator_default_def get_value_length_def read_element_def
      mem16_def wire_simps)

interpretation flag_list: value_list "flag_item match enc" "\<lambda>l s. one_byte_element (flags_operator match) l (enc s)"
  for match :: bool and enc :: "'a \<Rightarrow> u8"
  by unfold_locales
    (simp add: flag_item_def one_byte_element_def flags_operator_fields operator_default_def get_value_length_def read_element_def)

section \<open>The bytes of a rule\<close>

definition component :: "u8 \<Rightarrow> bytes \<Rightarrow> bytes" where
  "component t bs = (if bs = [] then [] else t # bs)"

definition nlri_bytes :: "flow_spec_rule_t \<Rightarrow> bytes" where
  "nlri_bytes r =
     (if destination_subnet_ipv4_used r then 1 # subnet_bytes (destination_subnet_ipv4 r) else [])
     @ (if source_subnet_ipv4_used r then 2 # subnet_bytes (source_subnet_ipv4 r) else [])
     @ component 3 (enc_list one_byte_item (protocols r))
     @ component 5 (enc_list two_byte_item (destination_ports r))
     @ component 6 (enc_list two_byte_item (source_ports r))
     @ component 9 (enc_list (flag_item (set_match_bit_for_tcp_flags r) return_in_one_byte_encoding) (tcp_flags r))
     @ component 10 (enc_list two_byte_item (packet_lengths r))
     @ component 12 (enc_list (flag_item (set_match_bit_for_fragmentation_flags r)
          (\<lambda>f. fragmentation_byte (fragmentation_entity f))) (fragmentation_flags r))"

text \<open>What the encoder needs: prefixes of at most 32 bits and no empty set of TCP flags.\<close>

definition encodable :: "flow_spec_rule_t \<Rightarrow> bool" where
  "encodable r \<longleftrightarrow> (destination_subnet_ipv4_used r \<longrightarrow> cidr_prefix_length (destination_subnet_ipv4 r) \<le> 32)
     \<and> (source_subnet_ipv4_used r \<longrightarrow> cidr_prefix_length (source_subnet_ipv4 r) \<le> 32)
     \<and> list_all we_have_least_one_flag_enabled (tcp_flags r)"

lemma writes_protocols: "writes (encode_protocols_loop ps) (enc_list one_byte_item ps)"
proof (induction ps)
  case (Cons p ps)
  show ?case
    using writes_then(2) [OF writes_then(1) [OF Cons, of p], of "[value_operator 1 (ps = [])]"]
    by (simp add: one_byte_item_def)
qed (auto simp: fun_eq_iff)

lemma writes_two_byte: "writes (encode_two_byte_loop vs) (enc_list two_byte_item vs)"
proof (induction vs)
  case (Cons v vs)
  show ?case
    using writes_then(2) [OF writes_then(2) [OF Cons, of "mem16 (htons v)"], of "[value_operator 2 (vs = [])]"]
    by (simp add: two_byte_item_def)
qed (auto simp: fun_eq_iff)

lemma writes_fragmentation:
  "writes (encode_fragmentation_loop m fs) (enc_list (flag_item m (\<lambda>f. fragmentation_byte (fragmentation_entity f))) fs)"
proof (induction fs)
  case (Cons f fs)
  show ?case
    using writes_then(2) [OF writes_then(2) [OF Cons, of "[fragmentation_byte (fragmentation_entity f)]"],
        of "[flags_operator m (fs = [])]"]
    by (simp add: flag_item_def)
qed (auto simp: fun_eq_iff)

lemma writes_tcp_flags:
  "list_all we_have_least_one_flag_enabled ss \<Longrightarrow>
     \<exists>F. (\<forall>b. encode_tcp_flags_loop m ss b = Done (F b)) \<and> writes F (enc_list (flag_item m return_in_one_byte_encoding) ss)"
proof (induction ss)
  case (Cons s ss)
  then obtain F where F: "\<forall>b. encode_tcp_flags_loop m ss b = Done (F b)"
      "writes F (enc_list (flag_item m return_in_one_byte_encoding) ss)"
    by auto
  have "writes (\<lambda>b. F (put_object [return_in_one_byte_encoding s] (put_object [flags_operator m (ss = [])] b)))
      (enc_list (flag_item m return_in_one_byte_encoding) (s # ss))"
    using writes_then(2) [OF writes_then(2) [OF F(2), of "[return_in_one_byte_encoding s]"],
        of "[flags_operator m (ss = [])]"]
    by (simp add: flag_item_def)
  then show ?case
    using Cons.prems F(1) by (intro exI conjI) (auto simp: Let_def)
qed auto

lemma enc_list_Nil_iff: "(\<And>l x. f l x \<noteq> []) \<Longrightarrow> enc_list f xs = [] \<longleftrightarrow> xs = []"
  by (cases xs) auto

lemma item_not_Nil [simp]: "one_byte_item l v \<noteq> []" "two_byte_item l w \<noteq> []" "flag_item m e l s \<noteq> []"
  by (simp_all add: one_byte_item_def two_byte_item_def flag_item_def)

lemma writes_component:
  assumes "writes F (enc_list f xs)" "\<And>l x. f l x \<noteq> []"
  shows "writes (\<lambda>b. if xs \<noteq> [] then F (put_byte t b) else b) (component t (enc_list f xs))"
  using writes_then(1) [OF assms(1), of t] enc_list_Nil_iff [of f xs, OF assms(2)]
  by (cases "xs = []") (auto simp: component_def)

lemma writes_value_components:
  "writes (encode_protocols r) (component 3 (enc_list one_byte_item (protocols r)))"
  "writes (encode_destination_ports r) (component 5 (enc_list two_byte_item (destination_ports r)))"
  "writes (encode_source_ports r) (component 6 (enc_list two_byte_item (source_ports r)))"
  "writes (encode_packet_lengths r) (component 10 (enc_list two_byte_item (packet_lengths r)))"
  "writes (encode_fragmentation r) (component 12 (enc_list (flag_item (set_match_bit_for_fragmentation_flags r)
      (\<lambda>f. fragmentation_byte (fragmentation_entity f))) (fragmentation_flags r)))"
  unfolding encode_protocols_def [abs_def] encode_destination_ports_def [abs_def] encode_source_ports_def [abs_def]
    encode_packet_lengths_def [abs_def] encode_fragmentation_def [abs_def] entity_defs
  by (rule writes_component; simp add: writes_protocols writes_two_byte writes_fragmentation)+

lemma writes_prefix:
  assumes "used \<longrightarrow> cidr_prefix_length s \<le> 32"
  shows "\<exists>F. (\<forall>b. (if used then (let b = put_byte t b in and_then (encode_bgp_subnet_encoding s new_buffer)
      (\<lambda>p. Done (put_buffer p b))) else Done b) = Done (F b)) \<and> writes F (if used then t # subnet_bytes s else [])"
proof (cases used)
  case True
  let ?p = "buffer_with (1 + (unat (cidr_prefix_length s) + 7) div 8) (subnet_bytes s)"
  have "writes (\<lambda>b. put_buffer ?p (put_byte t b)) (t # subnet_bytes s)"
    using writes_then(1) [OF writes_put(3) [of ?p], of t] by simp
  then show ?thesis
    using True assms encode_subnet_bytes [of s] by (intro exI conjI) (auto simp: Let_def)
next
  case False
  then show ?thesis
    by (intro exI [of _ "\<lambda>b. b"]) auto
qed

lemma writes_nlri:
  assumes "encodable r"
  shows "\<exists>F. (\<forall>b. encode_bgp_flow_spec_elements_as_mp_nlri r b =
       (let b' = F (allocate 2048 b) in if is_failed b' then Failed else Done b')) \<and> writes F (nlri_bytes r)"
proof -
  have "\<exists>F. (\<forall>b. encode_destination_prefix r b = Done (F b)) \<and>
      writes F (if destination_subnet_ipv4_used r then 1 # subnet_bytes (destination_subnet_ipv4 r) else [])"
    unfolding encode_destination_prefix_def entity_defs
    by (rule writes_prefix) (use assms in \<open>simp add: encodable_def\<close>)
  then obtain D where D: "\<And>b. encode_destination_prefix r b = Done (D b)"
      "writes D (if destination_subnet_ipv4_used r then 1 # subnet_bytes (destination_subnet_ipv4 r) else [])"
    by blast
  have "\<exists>F. (\<forall>b. encode_source_prefix r b = Done (F b)) \<and>
      writes F (if source_subnet_ipv4_used r then 2 # subnet_bytes (source_subnet_ipv4 r) else [])"
    unfolding encode_source_prefix_def entity_defs
    by (rule writes_prefix) (use assms in \<open>simp add: encodable_def\<close>)
  then obtain S where S: "\<And>b. encode_source_prefix r b = Done (S b)"
      "writes S (if source_subnet_ipv4_used r then 2 # subnet_bytes (source_subnet_ipv4 r) else [])"
    by blast
  let ?enc = "enc_list (flag_item (set_match_bit_for_tcp_flags r) return_in_one_byte_encoding) (tcp_flags r)"
  obtain T0 where T0: "\<And>b. encode_tcp_flags_loop (set_match_bit_for_tcp_flags r) (tcp_flags r) b = Done (T0 b)"
      "writes T0 ?enc"
    using writes_tcp_flags [of "tcp_flags r"] assms by (auto simp: encodable_def)
  define T where "T = (\<lambda>b. if tcp_flags r \<noteq> [] then T0 (put_byte 9 b) else b)"
  have T: "encode_tcp_flags r b = Done (T b)" "writes T (component 9 ?enc)" for b
    using T0 writes_component [OF T0(2), of 9] by (simp_all add: encode_tcp_flags_def T_def entity_defs)
  note parts = writes_value_components [of r]
  show ?thesis
    unfolding nlri_bytes_def
    using writes_comp [OF D(2) writes_comp [OF S(2) writes_comp [OF parts(1) writes_comp [OF parts(2)
        writes_comp [OF parts(3) writes_comp [OF T(2) writes_comp [OF parts(4) parts(5)]]]]]]]
    by (intro exI conjI) (auto simp: encode_bgp_flow_spec_elements_as_mp_nlri_def D(1) S(1) T(1) Let_def)
qed

lemma encode_nlri_bytes:
  assumes "encodable r"
  shows "encode_bgp_flow_spec_elements_as_mp_nlri r new_buffer =
     (if length (nlri_bytes r) \<le> 2048 then Done (buffer_with 2048 (nlri_bytes r)) else Failed)"
proof -
  obtain F where F: "\<And>b. encode_bgp_flow_spec_elements_as_mp_nlri r b =
      (let b' = F (allocate 2048 b) in if is_failed b' then Failed else Done b')" "writes F (nlri_bytes r)"
    using writes_nlri [OF assms] by blast
  show ?thesis
    using writes_result [OF F(2), of 2048] by (auto simp: F(1) Let_def is_failed_def)
qed


section \<open>Reading the bytes of a rule\<close>

lemma decode_empty [simp]: "flow_spec_decode_nlri_value [] r = Done r"
  by (simp add: flow_spec_decode_nlri_value.simps)

lemma decode_destination:
  "cidr_prefix_length s \<le> 32 \<Longrightarrow> \<not> destination_subnet_ipv4_used r \<Longrightarrow>
     flow_spec_decode_nlri_value (1 # subnet_bytes s @ rest) r =
     flow_spec_decode_nlri_value rest (set_destination_subnet_ipv4 (network_of s) r)"
  by (subst flow_spec_decode_nlri_value.simps)
    (simp add: entity_defs prefix_component_def decode_subnet_bytes, simp add: subnet_bytes_def)

lemma decode_source:
  "cidr_prefix_length s \<le> 32 \<Longrightarrow> \<not> source_subnet_ipv4_used r \<Longrightarrow>
     flow_spec_decode_nlri_value (2 # subnet_bytes s @ rest) r =
     flow_spec_decode_nlri_value rest (set_source_subnet_ipv4 (network_of s) r)"
  by (subst flow_spec_decode_nlri_value.simps)
    (simp add: entity_defs prefix_component_def decode_subnet_bytes, simp add: subnet_bytes_def)

lemma decode_values:
  assumes "value_component t = Some add" "t \<notin> {1, 2, 4}"
    and "read_one_or_more_values_encoded_with_operator_byte (bs @ rest) = Done (items, rest)"
    and "add items r = Some r'"
  shows "flow_spec_decode_nlri_value (t # bs @ rest) r = flow_spec_decode_nlri_value rest r'"
  using assms by (subst flow_spec_decode_nlri_value.simps) (simp add: entity_defs)

lemma decode_component:
  assumes "value_component t = Some add" "t \<notin> {1, 2, 4}" "\<And>l x. f l x \<noteq> []"
    and "xs \<noteq> [] \<Longrightarrow> read_one_or_more_values_encoded_with_operator_byte (enc_list f xs @ rest) = Done (elements g xs, rest)"
    and "add (elements g xs) r = Some r'" "xs = [] \<Longrightarrow> r' = r"
  shows "flow_spec_decode_nlri_value (component t (enc_list f xs) @ rest) r = flow_spec_decode_nlri_value rest r'"
  using decode_values [OF assms(1,2,4,5)] enc_list_Nil_iff [of f xs, OF assms(3)] assms(6)
  by (cases "xs = []") (auto simp: component_def)

lemma add_protocols_elements:
  "add_protocols (elements (one_byte_element opr) ps) r = Some (r\<lparr>protocols := protocols r @ ps\<rparr>)"
proof (induction ps arbitrary: r)
  case (Cons p ps)
  have "\<not> (255 :: u16) < ucast p"
    using unat_lt_2p [of p] by (auto simp: word_less_nat_alt unat_ucast_up)
  moreover have "(ucast (ucast p :: u16) :: u8) = p"
    by (rule bit_word_eqI) (auto simp: bit_simps)
  ultimately show ?case
    using Cons by (simp add: one_byte_element_def get_ip_protocol_enum_type_from_integer_def add_protocol_def)
qed simp

lemma add_values_elements:
  "add_values add (elements two_byte_element vs) r = Some (fold add vs r)"
  by (induction vs arbitrary: r) (simp_all add: add_values_def two_byte_element_def)

lemma fold_add_ports:
  "fold add_destination_port vs r = r\<lparr>destination_ports := destination_ports r @ vs\<rparr>"
  "fold add_source_port vs r = r\<lparr>source_ports := source_ports r @ vs\<rparr>"
  "fold add_packet_length vs r = r\<lparr>packet_lengths := packet_lengths r @ vs\<rparr>"
  by (induction vs arbitrary: r) (simp_all add: add_destination_port_def add_source_port_def add_packet_length_def)

lemma tcp_flags_byte [simp]: "convert_one_byte_encoding_to_flowset (return_in_one_byte_encoding s) = s"
  by (cases s) (simp add: convert_one_byte_encoding_to_flowset_def return_in_one_byte_encoding_def bit_simps)

lemma add_tcp_flags_elements:
  "list_all we_have_least_one_flag_enabled ss \<Longrightarrow>
     add_tcp_flags (elements (\<lambda>l s. one_byte_element opr l (return_in_one_byte_encoding s)) ss) r =
     Some (r\<lparr>tcp_flags := tcp_flags r @ ss\<rparr>)"
  by (induction ss arbitrary: r) (simp_all add: one_byte_element_def add_tcp_flagset_def)

lemma fragmentation_roundtrip [simp]: "fragmentation_of_byte (fragmentation_byte e) = e"
  by (cases e) (simp add: fragmentation_of_byte_def fragmentation_byte_def bit_simps)

lemma add_fragmentation_elements:
  "add_fragmentation (elements (\<lambda>l f. one_byte_element opr l (fragmentation_byte (fragmentation_entity f))) fs) r =
     Some (r\<lparr>fragmentation_flags := fragmentation_flags r @ fs\<rparr>)"
proof (induction fs arbitrary: r)
  case (Cons f fs)
  then show ?case
    by (cases f) (simp_all add: one_byte_element_def fragmentation_default_def add_fragmentation_flag_def)
qed simp


text \<open>What the decoder can read back: at most 100 values per component.\<close>

definition decodable :: "flow_spec_rule_t \<Rightarrow> bool" where
  "decodable r \<longleftrightarrow> encodable r \<and> length (protocols r) \<le> 100 \<and> length (destination_ports r) \<le> 100
     \<and> length (source_ports r) \<le> 100 \<and> length (tcp_flags r) \<le> 100 \<and> length (packet_lengths r) \<le> 100
     \<and> length (fragmentation_flags r) \<le> 100"

text \<open>The part of a rule an NLRI carries: what traffic it matches.\<close>

definition matched_part :: "flow_spec_rule_t \<Rightarrow> flow_spec_rule_t" where
  "matched_part r = flow_spec_rule_default\<lparr>
     source_subnet_ipv4 := (if source_subnet_ipv4_used r then network_of (source_subnet_ipv4 r) else subnet_cidr_mask 0 0),
     source_subnet_ipv4_used := source_subnet_ipv4_used r,
     destination_subnet_ipv4 := (if destination_subnet_ipv4_used r then network_of (destination_subnet_ipv4 r) else subnet_cidr_mask 0 0),
     destination_subnet_ipv4_used := destination_subnet_ipv4_used r,
     protocols := protocols r, destination_ports := destination_ports r, source_ports := source_ports r,
     tcp_flags := tcp_flags r, packet_lengths := packet_lengths r, fragmentation_flags := fragmentation_flags r\<rparr>"

lemmas value_component_simps = value_component_def entity_defs

lemma decode_value_parts:
  "length ps \<le> 100 \<Longrightarrow> flow_spec_decode_nlri_value (component 3 (enc_list one_byte_item ps) @ rest) r =
     flow_spec_decode_nlri_value rest (r\<lparr>protocols := protocols r @ ps\<rparr>)"
  "length vs \<le> 100 \<Longrightarrow> flow_spec_decode_nlri_value (component 5 (enc_list two_byte_item vs) @ rest) r =
     flow_spec_decode_nlri_value rest (r\<lparr>destination_ports := destination_ports r @ vs\<rparr>)"
  "length vs \<le> 100 \<Longrightarrow> flow_spec_decode_nlri_value (component 6 (enc_list two_byte_item vs) @ rest) r =
     flow_spec_decode_nlri_value rest (r\<lparr>source_ports := source_ports r @ vs\<rparr>)"
  "length vs \<le> 100 \<Longrightarrow> flow_spec_decode_nlri_value (component 10 (enc_list two_byte_item vs) @ rest) r =
     flow_spec_decode_nlri_value rest (r\<lparr>packet_lengths := packet_lengths r @ vs\<rparr>)"
  "length ss \<le> 100 \<Longrightarrow> list_all we_have_least_one_flag_enabled ss \<Longrightarrow>
     flow_spec_decode_nlri_value (component 9 (enc_list (flag_item m return_in_one_byte_encoding) ss) @ rest) r =
     flow_spec_decode_nlri_value rest (r\<lparr>tcp_flags := tcp_flags r @ ss\<rparr>)"
  "length fs \<le> 100 \<Longrightarrow> flow_spec_decode_nlri_value (component 12
       (enc_list (flag_item m (\<lambda>f. fragmentation_byte (fragmentation_entity f))) fs) @ rest) r =
     flow_spec_decode_nlri_value rest (r\<lparr>fragmentation_flags := fragmentation_flags r @ fs\<rparr>)"
  by (rule decode_component, simp add: value_component_simps, simp, simp,
      simp add: one_byte.read_list two_byte.read_list flag_list.read_list,
      simp add: add_protocols_elements add_values_elements fold_add_ports add_tcp_flags_elements
        add_fragmentation_elements, simp)+

lemma decode_nlri_bytes:
  assumes "decodable r"
  shows "flow_spec_decode_nlri_value (nlri_bytes r) flow_spec_rule_default = Done (matched_part r)"
proof -
  let ?parts = "component 3 (enc_list one_byte_item (protocols r))
     @ component 5 (enc_list two_byte_item (destination_ports r))
     @ component 6 (enc_list two_byte_item (source_ports r))
     @ component 9 (enc_list (flag_item (set_match_bit_for_tcp_flags r) return_in_one_byte_encoding) (tcp_flags r))
     @ component 10 (enc_list two_byte_item (packet_lengths r))
     @ component 12 (enc_list (flag_item (set_match_bit_for_fragmentation_flags r)
          (\<lambda>f. fragmentation_byte (fragmentation_entity f))) (fragmentation_flags r))"
  have lists: "length (protocols r) \<le> 100" "length (destination_ports r) \<le> 100" "length (source_ports r) \<le> 100"
      "length (tcp_flags r) \<le> 100" "length (packet_lengths r) \<le> 100" "length (fragmentation_flags r) \<le> 100"
      "list_all we_have_least_one_flag_enabled (tcp_flags r)"
    and prefixes: "destination_subnet_ipv4_used r \<longrightarrow> cidr_prefix_length (destination_subnet_ipv4 r) \<le> 32"
      "source_subnet_ipv4_used r \<longrightarrow> cidr_prefix_length (source_subnet_ipv4 r) \<le> 32"
    using assms by (simp_all add: decodable_def encodable_def)
  have "flow_spec_decode_nlri_value ?parts x = Done (x\<lparr>protocols := protocols x @ protocols r,
      destination_ports := destination_ports x @ destination_ports r, source_ports := source_ports x @ source_ports r,
      tcp_flags := tcp_flags x @ tcp_flags r, packet_lengths := packet_lengths x @ packet_lengths r,
      fragmentation_flags := fragmentation_flags x @ fragmentation_flags r\<rparr>)" for x
    using decode_value_parts(6) [OF lists(6), of _ "[]"]
    by (simp add: decode_value_parts(1-5) lists)
  then show ?thesis
    using prefixes
    by (cases "destination_subnet_ipv4_used r"; cases "source_subnet_ipv4_used r")
      (simp_all add: nlri_bytes_def decode_destination decode_source matched_part_def flow_spec_rule_default_def
        set_destination_subnet_ipv4_def set_source_subnet_ipv4_def)
qed

section \<open>Rates\<close>

lemma floor_log2_bounds: "n > 0 \<Longrightarrow> 2 ^ floor_log2 n \<le> n \<and> n < 2 ^ Suc (floor_log2 n)"
proof (induction n rule: floor_log2.induct)
  case (1 n)
  show ?case
  proof (cases "n < 2")
    case True
    with 1 show ?thesis
      by (simp add: floor_log2.simps)
  next
    case False
    then have "2 ^ floor_log2 (n div 2) \<le> n div 2" "n div 2 < 2 ^ Suc (floor_log2 (n div 2))"
      using 1 by auto
    then have "2 * 2 ^ floor_log2 (n div 2) \<le> n" "n < 2 * 2 ^ Suc (floor_log2 (n div 2))"
      by linarith+
    with False show ?thesis
      by (subst (1 2) floor_log2.simps) simp
  qed
qed

text \<open>Integers below \<open>2 ^ 24\<close> are exact in single precision.\<close>

lemma float_of_small:
  assumes "0 < unat w" "unat w < 2 ^ 24"
  defines "e \<equiv> floor_log2 (unat w)"
  shows "e \<le> 23" "float_exponent (float_of_uint w) = e + 127"
    "float_fraction (float_of_uint w) = unat w * 2 ^ (23 - e) - 2 ^ 23"
    "2 ^ 23 \<le> unat w * 2 ^ (23 - e)" "bit (float_of_uint w) 31 = False"
proof -
  have b: "2 ^ e \<le> unat w" "unat w < 2 ^ Suc e"
    using floor_log2_bounds [OF assms(1)] by (simp_all add: e_def)
  have "(2::nat) ^ e < 2 ^ 24"
    using b(1) assms(2) by linarith
  then have "e < 24"
    by (rule power_less_imp_less_exp [rotated]) simp
  then show e: "e \<le> 23"
    by simp
  let ?m = "unat w * 2 ^ (23 - e)"
  have "(2::nat) ^ e * 2 ^ (23 - e) = 2 ^ 23" "(2::nat) ^ Suc e * 2 ^ (23 - e) = 2 ^ 24"
    using e by (simp_all flip: power_add)
  then have m: "2 ^ 23 \<le> ?m" "?m < 2 ^ 24"
    using b by (metis mult_le_mono1, metis mult_less_mono1 zero_less_numeral zero_less_power)
  show "2 ^ 23 \<le> ?m"
    by (rule m(1))
  let ?bits = "(e + 127) * 2 ^ 23 + (?m - 2 ^ 23)"
  have "?bits < 151 * 2 ^ 23"
    using e m by simp
  moreover have "unat (of_nat k :: u32) = k" if "k < 151 * 2 ^ 23" for k
    using that by (simp add: unsigned_of_nat take_bit_nat_eq_self)
  moreover have "float_of_uint w = of_nat ?bits"
    unfolding float_of_uint_def Let_def e_def [symmetric] using e assms(1) by simp
  ultimately have bits: "unat (float_of_uint w) = ?bits"
    by metis
  have f: "?m - 2 ^ 23 < 2 ^ 23"
    using m by simp
  have "(k * 2 ^ 23 + x) div 2 ^ 23 = k \<and> (k * 2 ^ 23 + x) mod 2 ^ 23 = x" if "x < 2 ^ 23" for k x :: nat
    using that by simp
  from this [OF f, of "e + 127"] have "?bits div 2 ^ 23 = e + 127" "?bits mod 2 ^ 23 = ?m - 2 ^ 23"
    by blast+
  then show "float_exponent (float_of_uint w) = e + 127" "float_fraction (float_of_uint w) = ?m - 2 ^ 23"
    using e by (simp_all add: float_exponent_def float_fraction_def bits)
  have "unat (float_of_uint w) < 2 ^ 31"
    using \<open>?bits < 151 * 2 ^ 23\<close> bits by simp
  then show "bit (float_of_uint w) 31 = False"
    using bit_iff_odd [of "unat (float_of_uint w)" 31] by (simp add: bit_simps)
qed

lemma float_roundtrip:
  assumes "0 < unat w" "unat w < 2 ^ 24"
  shows "\<not> float_negative (float_of_uint w)" "float_to_int (float_of_uint w) = Done (unat w)"
proof -
  define e where "e = floor_log2 (unat w)"
  note f = float_of_small [OF assms, folded e_def]
  show "\<not> float_negative (float_of_uint w)"
    by (simp add: float_negative_def f(5))
  have m: "2 ^ 23 + float_fraction (float_of_uint w) = unat w * 2 ^ (23 - e)"
    using f(3,4) by simp
  show "float_to_int (float_of_uint w) = Done (unat w)"
  proof (cases "e = 23")
    case True
    then show ?thesis
      using f m assms(2) by (simp add: float_to_int_def Let_def)
  next
    case False
    then have "150 - (e + 127) = 23 - e"
      using f(1) by simp
    then show ?thesis
      using f m assms(2) False by (simp add: float_to_int_def Let_def)
  qed
qed

lemma float_zero: "float_of_uint 0 = 0" "float_to_int 0 = Done 0" "\<not> float_negative 0"
  by (simp_all add: float_of_uint_def float_to_int_def float_negative_def float_exponent_def)


section \<open>Attributes\<close>

lemma parse_ext_attribute:
  "length e = 8 \<Longrightarrow> parse_raw_bgp_attribute_binary_buffer (buffer_with 11 (bgp_extended_community_attribute_t 8 @ e)) =
     Some \<lparr>attribute_flags = flags_byte (transitive_flags\<lparr>optional_bit := True\<rparr>),
       attribute_type = BGP_ATTRIBUTE_EXTENDED_COMMUNITY, length_of_length_field = 1,
       attribute_value_length = 8, attribute_body_shift = 3\<rparr>"
  by (simp add: parse_raw_bgp_attribute_binary_buffer_def bgp_extended_community_attribute_t_def parse_short_attribute)

lemma decode_ext_attribute:
  "length e = 8 \<Longrightarrow> decode_native_flow_spec_announce_from_binary_encoded_atributes
       (buffer_with 11 (bgp_extended_community_attribute_t 8 @ e) # bs) r =
     and_then (decode_extended_community e r) (decode_native_flow_spec_announce_from_binary_encoded_atributes bs)"
  by (simp add: parse_ext_attribute) (simp add: bgp_extended_community_attribute_t_def)

lemma origin_buffer: "origin_attribute_buffer = buffer_with 4 (bgp_attribute_origin BGP_ORIGIN_INCOMPLETE)"
  by (simp add: origin_attribute_buffer_def bgp_attribute_origin_def)

lemma decode_origin_attribute:
  "decode_native_flow_spec_announce_from_binary_encoded_atributes (origin_attribute_buffer # bs) r =
     decode_native_flow_spec_announce_from_binary_encoded_atributes bs r"
  unfolding origin_buffer
  by (simp add: parse_raw_bgp_attribute_binary_buffer_def bgp_attribute_origin_def parse_short_attribute bgp_constants)

text \<open>The extended community written for an action, and what it is read back as.\<close>

definition action_element :: "bgp_flow_spec_action_t \<Rightarrow> bytes" where
  "action_element a = (case action_type a of
     FLOW_SPEC_ACTION_RATE_LIMIT \<Rightarrow> bgp_extended_community_element_flow_spec_rate_t (float_of_uint (rate_limit a))
   | FLOW_SPEC_ACTION_REDIRECT \<Rightarrow> bgp_extended_community_element_flow_spec_redirect (redirect_as a) (redirect_value a)
   | _ \<Rightarrow> bgp_extended_community_element_flow_spec_rate_t 0)"

definition announced_action :: "bgp_flow_spec_action_t \<Rightarrow> bgp_flow_spec_action_t" where
  "announced_action a = (case action_type a of
     FLOW_SPEC_ACTION_RATE_LIMIT \<Rightarrow> action_default\<lparr>action_type := FLOW_SPEC_ACTION_RATE_LIMIT, rate_limit := rate_limit a\<rparr>
   | FLOW_SPEC_ACTION_REDIRECT \<Rightarrow> action_default\<lparr>action_type := FLOW_SPEC_ACTION_REDIRECT,
       redirect_as := redirect_as a, redirect_value := redirect_value a\<rparr>
   | _ \<Rightarrow> action_default\<lparr>action_type := action_type a\<rparr>)"

text \<open>Actions the native announce carries without loss.\<close>

definition announceable_action :: "bgp_flow_spec_action_t \<Rightarrow> bool" where
  "announceable_action a \<longleftrightarrow> action_type a \<in> {FLOW_SPEC_ACTION_ACCEPT, FLOW_SPEC_ACTION_DISCARD, FLOW_SPEC_ACTION_REDIRECT}
     \<or> (action_type a = FLOW_SPEC_ACTION_RATE_LIMIT \<and> 0 < rate_limit a \<and> unat (rate_limit a) < 2 ^ 24)"

lemma length_action_element [simp]: "length (action_element a) = 8"
  by (simp add: action_element_def bgp_extended_community_element_flow_spec_rate_t_def
      bgp_extended_community_element_flow_spec_redirect_def split: bgp_flow_spec_action_types_t.split)

lemma encode_action_bytes:
  assumes "announceable_action a" "action_type a \<noteq> FLOW_SPEC_ACTION_ACCEPT"
  shows "encode_bgp_flow_spec_action_as_extended_attribute a new_buffer =
     Done (buffer_with 11 (bgp_extended_community_attribute_t 8 @ action_element a))"
  using assms length_action_element [of a]
  by (cases "action_type a") (auto simp: announceable_action_def encode_bgp_flow_spec_action_as_extended_attribute_def
      action_element_def float_zero bgp_extended_community_attribute_t_def)

lemma decode_action_element:
  assumes "announceable_action a" "action_type a \<noteq> FLOW_SPEC_ACTION_ACCEPT"
  shows "decode_extended_community (action_element a) r = Done (r\<lparr>action := announced_action a\<rparr>)"
proof -
  have rate: "htonl (of_mem32 (ucast (drop_bit 24 w)) (ucast (drop_bit 16 w)) (ucast (drop_bit 8 w)) (ucast w)) = w" for w
    by (simp add: htonl_def [symmetric])
  have as2: "htons (of_mem16 (ucast (drop_bit 8 w)) (ucast w)) = w" for w
    by (simp add: htons_def [symmetric])
  have zero: "htonl (of_mem32 0 0 0 0) = 0"
    by (simp add: htonl_def of_mem32_def)
  have "0 < rate_limit a \<Longrightarrow> 0 < unat (rate_limit a)"
    by (simp add: unat_gt_0 word_neq_0_conv)
  then show ?thesis
    using assms float_roundtrip [of "rate_limit a"]
    by (cases "action_type a")
      (auto simp: announceable_action_def action_element_def announced_action_def decode_extended_community_def
        bgp_extended_community_element_flow_spec_rate_t_def bgp_extended_community_element_flow_spec_redirect_def
        community_defs wire_simps rate as2 zero float_zero set_action_def Let_def)
qed

lemma mp_attribute_bytes:
  assumes "encodable r" "length (nlri_bytes r) = n" "n < 240" "6 + n = k"
  shows "encode_bgp_flow_spec_elements_into_bgp_mp_attribute r new_buffer pre =
     Done (buffer_with 2048 ((if pre then bgp_attribute_multiprotocol_extensions_t (of_nat k) @ bgp_mp_ext_flow_spec_header_t
        else []) @ of_nat n # nlri_bytes r))"
proof -
  have nlri: "encode_bgp_flow_spec_elements_as_mp_nlri r new_buffer = Done (buffer_with 2048 (nlri_bytes r))"
    using encode_nlri_bytes [OF assms(1)] assms(2,3) by simp
  have "\<not> (240 :: u8) \<le> of_nat n"
    using assms(3) by (simp add: word_le_nat_alt)
  moreover have "length (bgp_attribute_multiprotocol_extensions_t k) = 3" "length bgp_mp_ext_flow_spec_header_t = 5" for k
    by (simp_all add: bgp_attribute_multiprotocol_extensions_t_def bgp_mp_ext_flow_spec_header_t_def)
  ultimately show ?thesis
    using assms(2-4)
    by (auto simp: encode_bgp_flow_spec_elements_into_bgp_mp_attribute_def nlri get_used_size_def is_failed_def Let_def)
qed

lemma decode_mp_body:
  "length bs = n \<Longrightarrow> n < 240 \<Longrightarrow> decode_flow_spec_mp_reach (bgp_mp_ext_flow_spec_header_t @ of_nat n # bs) r =
     flow_spec_decode_nlri_value bs r"
proof -
  assume n: "length bs = n" "n < 240"
  have header: "bgp_mp_ext_flow_spec_header_t = [0, 1, 133, 0, 0]"
    by (simp add: bgp_mp_ext_flow_spec_header_t_def wire_simps bgp_constants)
  have afi: "htons (of_mem16 0 1) = 1"
    by (simp add: htons_def of_mem16_def)
  have "\<not> (240 :: u8) \<le> of_nat n"
    using n(2) by (simp add: word_le_nat_alt)
  then show ?thesis
    using n by (simp add: decode_flow_spec_mp_reach_def header afi bgp_constants)
qed

lemma decode_mp_attribute:
  assumes "length bs = n" "n < 240" "6 + n = k"
  shows "decode_native_flow_spec_announce_from_binary_encoded_atributes
      (buffer_with 2048 (bgp_attribute_multiprotocol_extensions_t (of_nat k) @ bgp_mp_ext_flow_spec_header_t
         @ of_nat n # bs) # rest) r =
    and_then (flow_spec_decode_nlri_value bs r) (decode_native_flow_spec_announce_from_binary_encoded_atributes rest)"
proof -
  have "length bgp_mp_ext_flow_spec_header_t = 5"
    by (simp add: bgp_mp_ext_flow_spec_header_t_def)
  then have "unat (of_nat k :: u8) \<le> length (bgp_mp_ext_flow_spec_header_t @ of_nat n # bs)"
    using assms by simp
  then show ?thesis
    by (simp add: parse_raw_bgp_attribute_binary_buffer_def bgp_attribute_multiprotocol_extensions_t_def
        parse_short_attribute decode_mp_body [OF assms(1,2)] bgp_constants)
qed

section \<open>Properties\<close>

text \<open>
  C33. The NLRI of a rule round-trips: a rule with prefixes of at most 32 bits, without empty TCP
  flag sets, with at most 100 values per component and at most 2048 bytes is encoded, and decoding
  the result recovers exactly what the rule matches (with the host bits of its prefixes cleared).
\<close>

theorem nlri_roundtrip:
  assumes "decodable r" "length (nlri_bytes r) \<le> 2048"
  shows "\<exists>b. encode_bgp_flow_spec_elements_as_mp_nlri r new_buffer = Done b
     \<and> flow_spec_decode_nlri_value (buffer_data b) flow_spec_rule_default = Done (matched_part r)"
  using encode_nlri_bytes [of r] decode_nlri_bytes [OF assms(1)] assms by (simp add: decodable_def)

definition example_rule :: flow_spec_rule_t where
  "example_rule = flow_spec_rule_default\<lparr>destination_subnet_ipv4 := subnet_cidr_mask 0x0100A8C0 32,
     destination_subnet_ipv4_used := True, protocols := [TCP], destination_ports := [80, 443],
     tcp_flags := [flagset_empty\<lparr>syn_flag := True\<rparr>], fragmentation_flags := [FLOW_SPEC_IS_A_FRAGMENT],
     action := action_default\<lparr>action_type := FLOW_SPEC_ACTION_RATE_LIMIT, rate_limit := 1024\<rparr>\<rparr>"

lemma example_rule_decodable: "decodable example_rule" "length (nlri_bytes example_rule) = 22"
  by (simp_all add: decodable_def encodable_def example_rule_def flow_spec_rule_default_def subnet_cidr_mask_def
      flagset_empty_def we_have_least_one_flag_enabled_def nlri_bytes_def component_def one_byte_item_def
      two_byte_item_def flag_item_def subnet_bytes_def)

lemma nlri_roundtrip_witness:
  "\<exists>b. encode_bgp_flow_spec_elements_as_mp_nlri example_rule new_buffer = Done b
     \<and> flow_spec_decode_nlri_value (buffer_data b) flow_spec_rule_default = Done (matched_part example_rule)"
  by (rule nlri_roundtrip) (simp_all add: example_rule_decodable)



lemma netmask_u8: "c \<le> (32 :: u8) \<Longrightarrow> \<exists>m. convert_cidr_to_binary_netmask (ucast c) = Done m"
  by (rule netmask_defined) (simp add: word_le_nat_alt unat_ucast_up)

lemma prefix_bytes_fit: "c \<le> 32 \<Longrightarrow> how_much_bytes_we_need_for_storing_certain_subnet_mask c \<le> 4"
  by (simp add: how_much_bytes_we_need_for_storing_certain_subnet_mask_def word_le_nat_alt)

lemma prefix_component_defined: "prefix_component data \<noteq> Undefined"
proof -
  have "decode_bgp_subnet_encoding_ipv4 bs \<noteq> Undefined" for bs
  proof (cases "bs = [] \<or> bs ! 0 > 32")
    case False
    then obtain m where "convert_cidr_to_binary_netmask (ucast (bs ! 0)) = Done m"
      using netmask_u8 [of "bs ! 0"] by (auto simp: not_less)
    then show ?thesis
      using prefix_bytes_fit [of "bs ! 0"] False
      by (cases bs) (simp_all add: decode_bgp_subnet_encoding_ipv4_def memcpy_u32_def Let_def not_less)
  qed (cases bs, auto simp: decode_bgp_subnet_encoding_ipv4_def)
  then show ?thesis
    by (cases "decode_bgp_subnet_encoding_ipv4 (tl data)") (auto simp: prefix_component_def)
qed

lemma read_element_defined:
  "1 + get_value_length opr \<le> length data \<Longrightarrow> get_value_length opr = 1 \<or> get_value_length opr = 2 \<Longrightarrow> \<exists>e. read_element opr data = Done e"
  by (auto simp: read_element_def)

lemma read_values_loop_defined: "read_values_loop i data items \<noteq> Undefined"
proof (induction i arbitrary: data items)
  case (Suc i)
  show ?case
  proof (cases data)
    case (Cons a list)
    let ?opr = "operator_of_byte a"
    show ?thesis
    proof (cases "1 + get_value_length ?opr \<le> length data \<and> (get_value_length ?opr = 1 \<or> get_value_length ?opr = 2)")
      case True
      then obtain e where "read_element ?opr data = Done e"
        using read_element_defined by blast
      with Suc show ?thesis
        by (simp add: Cons Let_def)
    next
      case False
      then show ?thesis
        by (auto simp: Cons Suc_le_eq)
    qed
  qed simp
qed simp

lemma read_values_defined: "read_one_or_more_values_encoded_with_operator_byte data \<noteq> Undefined"
  by (simp add: read_one_or_more_values_encoded_with_operator_byte_def read_values_loop_defined)

text \<open>
  C35. The NLRI decoder is safe on every input: whatever bytes arrive, it returns a rule or reports
  an error, without reading outside of the NLRI.
\<close>

theorem nlri_decoder_safe: "flow_spec_decode_nlri_value data r \<noteq> Undefined"
proof (induction data r rule: flow_spec_decode_nlri_value.induct)
  case (1 data r)
  then show ?case
    using prefix_component_defined [of data] read_values_defined [of "tl data"]
    by (subst flow_spec_decode_nlri_value.simps)
      (cases data, auto split: outcome.splits option.splits prod.splits)
qed

text \<open>
  The length check of the NLRI sees the size modulo 256: an NLRI of 256 to 495 bytes, which
  needs a length field of two bytes, passes the check and is sent with a length byte that is 256
  too small.
\<close>

lemma long_nlri_sent_with_wrong_length:
  assumes "encodable r" "length (nlri_bytes r) = 256 + n" "n < 240"
  shows "encode_bgp_flow_spec_elements_into_bgp_mp_attribute r new_buffer False =
     Done (buffer_with 2048 (of_nat n # nlri_bytes r))"
proof -
  have nlri: "encode_bgp_flow_spec_elements_as_mp_nlri r new_buffer = Done (buffer_with 2048 (nlri_bytes r))"
    using encode_nlri_bytes [OF assms(1)] assms(2,3) by simp
  have "(of_nat (length (nlri_bytes r)) :: u8) = of_nat n"
    unfolding assms(2) of_nat_add by simp
  moreover have "length (nlri_bytes r) \<le> 2047"
    using assms(2,3) by simp
  moreover have "\<not> (240 :: u8) \<le> of_nat n"
    using assms(3) by (simp add: word_le_nat_alt)
  ultimately show ?thesis
    by (simp add: encode_bgp_flow_spec_elements_into_bgp_mp_attribute_def nlri get_used_size_def is_failed_def Let_def)
qed

definition many_ports_rule :: flow_spec_rule_t where
  "many_ports_rule = flow_spec_rule_default\<lparr>destination_ports := replicate 90 53\<rparr>"

lemma length_enc_list: "(\<And>l x. length (f l x) = k) \<Longrightarrow> length (enc_list f xs) = k * length xs"
  by (induction xs) simp_all

lemma many_ports_bytes: "length (nlri_bytes many_ports_rule) = 256 + 15"
proof -
  have "length (enc_list two_byte_item (replicate 90 53)) = 3 * 90"
    using length_enc_list [of two_byte_item 3 "replicate 90 53"] by (simp add: two_byte_item_def)
  moreover from this have "enc_list two_byte_item (replicate 90 53) \<noteq> []"
    by (metis length_0_conv mult_eq_0_iff zero_neq_numeral)
  ultimately show ?thesis
    by (simp add: nlri_bytes_def many_ports_rule_def flow_spec_rule_default_def component_def)
qed

lemma long_nlri_sent_with_wrong_length_witness:
  "encode_bgp_flow_spec_elements_into_bgp_mp_attribute many_ports_rule new_buffer False =
     Done (buffer_with 2048 (15 # nlri_bytes many_ports_rule))"
proof -
  have "encodable many_ports_rule"
    by (simp add: encodable_def many_ports_rule_def flow_spec_rule_default_def)
  from long_nlri_sent_with_wrong_length [OF this many_ports_bytes] show ?thesis
    by simp
qed

text \<open>
  The decoder of announces trusts the NLRI length: an MP_REACH_NLRI attribute that ends before
  the length in its NLRI says makes it read behind the received bytes.
\<close>

lemma short_mp_reach_overread:
  assumes "length bs < n" "n < 240"
  shows "decode_native_flow_spec_announce_from_binary_encoded_atributes
     [buffer_with 2048 (bgp_attribute_multiprotocol_extensions_t (of_nat (6 + length bs))
        @ bgp_mp_ext_flow_spec_header_t @ of_nat n # bs)] r = Undefined"
proof -
  define k where "k = 6 + length bs"
  have k: "k < 256" "6 + length bs = k"
    using assms by (simp_all add: k_def)
  have header: "bgp_mp_ext_flow_spec_header_t = [0, 1, 133, 0, 0]"
    by (simp add: bgp_mp_ext_flow_spec_header_t_def wire_simps bgp_constants)
  have afi: "htons (of_mem16 0 1) = 1"
    by (simp add: htons_def of_mem16_def)
  have "\<not> (240 :: u8) \<le> of_nat n"
    using assms(2) by (simp add: word_le_nat_alt)
  then have "decode_flow_spec_mp_reach (bgp_mp_ext_flow_spec_header_t @ of_nat n # bs) r = Undefined"
    using assms by (simp add: decode_flow_spec_mp_reach_def header afi bgp_constants)
  moreover have "unat (of_nat k :: u8) \<le> length (bgp_mp_ext_flow_spec_header_t @ of_nat n # bs)"
    using k by (simp add: header)
  ultimately show ?thesis
    unfolding k(2)
    by (simp add: parse_raw_bgp_attribute_binary_buffer_def bgp_attribute_multiprotocol_extensions_t_def
        parse_short_attribute bgp_constants)
qed

lemma short_mp_reach_overread_witness:
  "decode_native_flow_spec_announce_from_binary_encoded_atributes
     [buffer_with 2048 (bgp_attribute_multiprotocol_extensions_t (of_nat (6 + length [1 :: u8]))
        @ bgp_mp_ext_flow_spec_header_t @ of_nat 5 # [1])] flow_spec_rule_default = Undefined"
  by (rule short_mp_reach_overread) simp_all

text \<open>
  Every set of TCP flags survives its one byte encoding, and the flags a captured packet
  carries are read into the same set as their encoding.
\<close>

lemma tcp_flags_roundtrip:
  "convert_one_byte_encoding_to_flowset (return_in_one_byte_encoding s) = s
   \<and> uint8t_representation_of_tcp_flags_to_flow_spec fl flagset_empty = convert_one_byte_encoding_to_flowset fl"
proof
  have "extract_bit_value fl (Suc i) = bit fl i" if "i < 8" for i
    using that by (simp add: extract_bit_value_def bit_drop_bit_eq)
  from this [of 0] this [of 1] this [of 2] this [of 3] this [of 4] this [of 5]
  show "uint8t_representation_of_tcp_flags_to_flow_spec fl flagset_empty = convert_one_byte_encoding_to_flowset fl"
    by (simp add: uint8t_representation_of_tcp_flags_to_flow_spec_def
        convert_one_byte_encoding_to_flowset_def flagset_empty_def Let_def eval_nat_numeral)
qed simp

end
