(* ===== verification/Gobgp_Client.thy ===== *)
theory Gobgp_Client
  imports Rule_Builder Flow_Spec_Codec
begin

text \<open>
  \<^verbatim>\<open>src/gobgp_client/gobgp_client.cpp\<close>: the requests sent to the GoBGP daemon. The gRPC stubs are
  parameters of the model. \<open>add_path\<close> answers an \<^verbatim>\<open>AddPathRequest\<close> with the UUID of the
  response, or \<open>None\<close> when the status is not ok (the deadline of five seconds included);
  \<open>delete_path\<close> answers a \<^verbatim>\<open>DeletePathRequest\<close> with whether the status is ok.
\<close>

section \<open>Requests\<close>

text \<open>
  The fields of \<^verbatim>\<open>apipb::Path\<close> the client sets. The table is always \<^verbatim>\<open>GLOBAL\<close> and the VRF is
  always empty.
\<close>

record path_request =
  path_is_withdraw :: bool
  path_afi :: u16
  path_safi :: u8
  nlri_binary :: bytes
  pattrs_binary :: "bytes list"

definition is_empty_buffer :: "dynamic_binary_buffer_t \<Rightarrow> bool" where
  "is_empty_buffer b \<longleftrightarrow> get_used_size b = 0 \<or> \<not> buffer_allocated b"

text \<open>\<open>Done\<close> for \<^verbatim>\<open>return true\<close>, \<open>Failed\<close> for \<^verbatim>\<open>return false\<close>.\<close>

definition AnnounceCommonPrefix ::
    "(path_request \<Rightarrow> string option) \<Rightarrow> dynamic_binary_buffer_t \<Rightarrow> dynamic_binary_buffer_t list \<Rightarrow> bool
     \<Rightarrow> u16 \<Rightarrow> u8 \<Rightarrow> unit outcome" where
  "AnnounceCommonPrefix add_path binary_nlri bgp_attributes is_withdrawal afi safi =
     (if afi \<noteq> AFI_IP \<and> afi \<noteq> AFI_IP6 then Failed
      else if safi \<noteq> SAFI_UNICAST \<and> safi \<noteq> SAFI_FLOW_SPEC_UNICAST then Failed
      else case add_path \<lparr>path_is_withdraw = is_withdrawal, path_afi = afi, path_safi = safi,
                  nlri_binary = buffer_data binary_nlri,
                  pattrs_binary = map (buffer_data \<circ> copy_buffer) bgp_attributes\<rparr> of
             None \<Rightarrow> Failed
           | Some _ \<Rightarrow> Done ())"

section \<open>FlowSpec\<close>

text \<open>\<open>Done uuid\<close> when the call returns \<^verbatim>\<open>true\<close> with that UUID.\<close>

definition AnnounceFlowSpecIPv4 :: "(path_request \<Rightarrow> string option) \<Rightarrow> flow_spec_rule_t \<Rightarrow> string outcome" where
  "AnnounceFlowSpecIPv4 add_path r =
     and_then (encode_bgp_flow_spec_elements_into_bgp_mp_attribute r new_buffer False) (\<lambda>binary_nlri.
       if is_empty_buffer binary_nlri then Failed
       else and_then (build_attributes_for_gobgp_flowspec_announce r) (\<lambda>bgp_attributes.
         if length bgp_attributes \<noteq> 3 then Failed
         else if list_ex is_empty_buffer bgp_attributes then Failed
         else case add_path \<lparr>path_is_withdraw = False, path_afi = AFI_IP, path_safi = SAFI_FLOW_SPEC_UNICAST,
                     nlri_binary = buffer_data binary_nlri, pattrs_binary = map buffer_data bgp_attributes\<rparr> of
                None \<Rightarrow> Failed
              | Some uuid \<Rightarrow> Done uuid))"

definition WithdrawFlowSpecIPv4 :: "(string \<Rightarrow> bool) \<Rightarrow> string \<Rightarrow> bool" where
  "WithdrawFlowSpecIPv4 delete_path uuid = (if uuid = [] then False else delete_path uuid)"

section \<open>Unicast\<close>

definition AnnounceUnicastPrefixLowLevelIPv4 ::
    "(path_request \<Rightarrow> string option) \<Rightarrow> IPv4UnicastAnnounce \<Rightarrow> bool \<Rightarrow> unit outcome" where
  "AnnounceUnicastPrefixLowLevelIPv4 add_path a is_withdrawal =
     and_then (generate_nlri a new_buffer) (\<lambda>binary_nlri.
       if is_empty_buffer binary_nlri then Failed
       else case get_attributes a of
              None \<Rightarrow> Failed
            | Some bgp_attributes \<Rightarrow>
                if bgp_attributes = [] then Failed
                else AnnounceCommonPrefix add_path binary_nlri bgp_attributes is_withdrawal AFI_IP SAFI_UNICAST)"

text \<open>
  Unlike for IPv4 announces, the length of the AS_PATH attribute is not checked: it is stored
  modulo 256, also in the size of the buffer, and a failed buffer is only logged.
\<close>

definition as_path_attribute6 :: "u32 list \<Rightarrow> dynamic_binary_buffer_t" where
  "as_path_attribute6 asns =
     (let len = (of_nat (2 + length asns * 4) :: u8);
          b = allocate (3 + unat len) new_buffer;
          b = put_object (bgp_attribute_as_path_t len) b;
          b = put_object (bgp_as_path_segment_element_t (of_nat (length asns))) b
      in fold (\<lambda>asn. put_object (mem32 (htonl asn))) asns b)"

definition AnnounceUnicastPrefixLowLevelIPv6 ::
    "(path_request \<Rightarrow> string option) \<Rightarrow> IPv6UnicastAnnounce \<Rightarrow> bool \<Rightarrow> unit outcome" where
  "AnnounceUnicastPrefixLowLevelIPv6 add_path a is_withdrawal =
     and_then (encode_ipv6_prefix (prefix6 a) (allocate 256 new_buffer)) (\<lambda>ipv6_nlri.
     and_then (encode_ipv6_announces_into_bgp_mp_reach_attribute a new_buffer) (\<lambda>mp_reach.
       let origin_buffer = put_object (bgp_attribute_origin BGP_ORIGIN_INCOMPLETE) (allocate 4 new_buffer);
           as_path = (if as_path_asns6 a = [] then [] else [as_path_attribute6 (as_path_asns6 a)]);
           communities = (if community_list6 a = [] then [] else [community_attribute (community_list6 a)])
       in AnnounceCommonPrefix add_path ipv6_nlri
            (map copy_buffer ([mp_reach, origin_buffer] @ as_path @ communities)) is_withdrawal AFI_IP6 SAFI_UNICAST))"

section \<open>Requests for the rules of the rule builder\<close>

text \<open>The configured actions: for a VRF, one of the two numbers of the route target fits 16 bits.\<close>

definition configurable_action :: "bgp_flow_spec_action_types_t \<Rightarrow> u32 \<Rightarrow> u32 \<Rightarrow> bool" where
  "configurable_action a rt_as rt_value \<longleftrightarrow> a = FLOW_SPEC_ACTION_DISCARD \<or> a = FLOW_SPEC_ACTION_REDIRECT
     \<or> (a = FLOW_SPEC_ACTION_REDIRECT_VRF \<and> (rt_as \<le> 65535 \<or> rt_value \<le> 65535))"

lemma built_rule_fields:
  fixes victim attack hop port a rt_as rt_value
  defines "r \<equiv> build_gobgp_flowspec_ipv4_rule victim attack hop port a rt_as rt_value"
  shows "action r = action_default\<lparr>action_type := a, redirect_rt_as := rt_as, redirect_rt_value := rt_value\<rparr>"
    and "ipv4_nexthops r = (if a = FLOW_SPEC_ACTION_REDIRECT then [hop] else [])"
    and "destination_subnet_ipv4_used r" "destination_subnet_ipv4 r = subnet_cidr_mask victim 32"
    and "\<not> source_subnet_ipv4_used r"
    and "length (protocols r) \<le> 1" "length (destination_ports r) \<le> 1"
    and "source_ports r = []" "tcp_flags r = []" "packet_lengths r = []" "fragmentation_flags r = []"
  unfolding r_def
  by (auto simp: build_gobgp_flowspec_ipv4_rule_def rule_setters flow_spec_rule_default_def Let_def split: option.splits)

lemma built_rule_decodable:
  "decodable (build_gobgp_flowspec_ipv4_rule victim attack hop port a rt_as rt_value)"
  using built_rule_fields [of victim attack hop port a rt_as rt_value]
  by (auto simp: decodable_def encodable_def subnet_cidr_mask_def)

lemma length_short_enc_list:
  "length xs \<le> 1 \<Longrightarrow> (\<And>l x. length (f l x) \<le> n) \<Longrightarrow> length (component t (enc_list f xs)) \<le> Suc n"
  by (cases xs) (auto simp: component_def)

lemma built_rule_nlri_short:
  "length (nlri_bytes (build_gobgp_flowspec_ipv4_rule victim attack hop port a rt_as rt_value)) < 240"
proof -
  let ?r = "build_gobgp_flowspec_ipv4_rule victim attack hop port a rt_as rt_value"
  note fields = built_rule_fields [of victim attack hop port a rt_as rt_value]
  have "length (component 3 (enc_list one_byte_item (protocols ?r))) \<le> 3"
    using length_short_enc_list [OF fields(6), of one_byte_item 2 3] by (simp add: one_byte_item_def)
  moreover have "length (component 5 (enc_list two_byte_item (destination_ports ?r))) \<le> 4"
    using length_short_enc_list [OF fields(7), of two_byte_item 3 5] by (simp add: two_byte_item_def)
  moreover have "length (subnet_bytes (destination_subnet_ipv4 ?r)) \<le> 5"
    by (simp add: subnet_bytes_def fields(4) subnet_cidr_mask_def)
  ultimately show ?thesis
    using fields by (simp add: nlri_bytes_def component_def)
qed

text \<open>The extended community that carries a configured action.\<close>

definition gobgp_action_element :: "flow_spec_rule_t \<Rightarrow> bytes" where
  "gobgp_action_element r =
     (if action_type (action r) = FLOW_SPEC_ACTION_DISCARD then bgp_extended_community_element_flow_spec_rate_t 0
      else if action_type (action r) = FLOW_SPEC_ACTION_REDIRECT_VRF
      then if redirect_rt_as (action r) \<le> 65535
           then bgp_extended_community_element_flow_spec_redirect_rt_as_2byte_t
                  (ucast (redirect_rt_as (action r))) (redirect_rt_value (action r))
           else bgp_extended_community_element_flow_spec_redirect_rt_as_4byte_t
                  (redirect_rt_as (action r)) (ucast (redirect_rt_value (action r)))
      else bgp_extended_community_element_flow_spec_ipv4_next_hop_t (hd (ipv4_nexthops r)))"

definition flowspec_request :: "flow_spec_rule_t \<Rightarrow> path_request" where
  "flowspec_request r =
     \<lparr>path_is_withdraw = False, path_afi = AFI_IP, path_safi = SAFI_FLOW_SPEC_UNICAST,
      nlri_binary = of_nat (length (nlri_bytes r)) # nlri_bytes r,
      pattrs_binary = [bgp_attribute_origin BGP_ORIGIN_INCOMPLETE, bgp_attribute_next_hop_ipv4 0,
        bgp_extended_community_attribute_t 8 @ gobgp_action_element r]\<rparr>"

lemmas gobgp_element_defs =
  bgp_extended_community_element_flow_spec_rate_t_def
  bgp_extended_community_element_flow_spec_redirect_rt_as_2byte_t_def
  bgp_extended_community_element_flow_spec_redirect_rt_as_4byte_t_def
  bgp_extended_community_element_flow_spec_ipv4_next_hop_t_def bgp_extended_community_attribute_t_def

lemma element_lengths [simp]:
  "length (bgp_extended_community_element_flow_spec_rate_t x) = 8"
  "length (bgp_extended_community_element_flow_spec_redirect_rt_as_2byte_t y z) = 8"
  "length (bgp_extended_community_element_flow_spec_redirect_rt_as_4byte_t v w) = 8"
  "length (bgp_extended_community_element_flow_spec_ipv4_next_hop_t h) = 8"
  "length (bgp_extended_community_attribute_t l) = 3"
  "length (bgp_attribute_origin t) = 4"
  "length (bgp_attribute_next_hop_ipv4 h) = 7"
  by (simp_all add: gobgp_element_defs bgp_attribute_origin_def bgp_attribute_next_hop_ipv4_def)

text \<open>The three attributes of a rule whose action is carried by \<open>element\<close>.\<close>

definition gobgp_attribute_buffers :: "bytes \<Rightarrow> dynamic_binary_buffer_t list" where
  "gobgp_attribute_buffers element =
     [buffer_with 4 (bgp_attribute_origin BGP_ORIGIN_INCOMPLETE), buffer_with 7 (bgp_attribute_next_hop_ipv4 0),
      buffer_with 11 (bgp_extended_community_attribute_t 8 @ element)]"

lemma gobgp_attributes:
  assumes "action_type (action r) = FLOW_SPEC_ACTION_DISCARD
    \<or> action_type (action r) = FLOW_SPEC_ACTION_REDIRECT \<and> ipv4_nexthops r = [hop]
    \<or> action_type (action r) = FLOW_SPEC_ACTION_REDIRECT_VRF
        \<and> (redirect_rt_as (action r) \<le> 65535 \<or> redirect_rt_value (action r) \<le> 65535)"
  shows "build_attributes_for_gobgp_flowspec_announce r = Done (gobgp_attribute_buffers (gobgp_action_element r))"
  using assms
  by (elim disjE conjE)
    (auto simp: build_attributes_for_gobgp_flowspec_announce_def gobgp_attribute_buffers_def
      encode_bgp_flow_spec_action_as_extended_attribute_def encode_bgp_flow_spec_redirect_rt_as_extended_attribute_def
      encode_bgp_flow_spec_next_hop_as_extended_attribute_def float_zero origin_attribute_buffer_def
      gobgp_action_element_def)

lemma gobgp_attribute_buffers_data:
  assumes "bs = gobgp_attribute_buffers (gobgp_action_element r)"
  shows "length bs = 3" "\<not> list_ex is_empty_buffer bs" "map buffer_data bs = pattrs_binary (flowspec_request r)"
  unfolding assms
  by (simp_all add: gobgp_attribute_buffers_def is_empty_buffer_def get_used_size_def flowspec_request_def
      bgp_attribute_origin_def bgp_attribute_next_hop_ipv4_def bgp_extended_community_attribute_t_def)

lemma announce_built_rule:
  fixes victim attack hop port
  assumes "configurable_action a rt_as rt_value"
  defines "r \<equiv> build_gobgp_flowspec_ipv4_rule victim attack hop port a rt_as rt_value"
  shows "AnnounceFlowSpecIPv4 add_path r =
    (case add_path (flowspec_request r) of Some uuid \<Rightarrow> Done uuid | None \<Rightarrow> Failed)"
proof -
  have enc: "encodable r"
    using built_rule_decodable unfolding r_def decodable_def by blast
  have nlri: "encode_bgp_flow_spec_elements_into_bgp_mp_attribute r new_buffer False =
      Done (buffer_with 2048 (of_nat (length (nlri_bytes r)) # nlri_bytes r))"
    using mp_attribute_bytes [OF enc refl _ refl, of False] built_rule_nlri_short unfolding r_def by simp
  define bs where "bs = gobgp_attribute_buffers (gobgp_action_element r)"
  have attributes: "build_attributes_for_gobgp_flowspec_announce r = Done bs"
    unfolding bs_def r_def
    by (rule gobgp_attributes [where hop = hop])
      (use assms(1) in \<open>auto simp: built_rule_fields configurable_action_def\<close>)
  note bs = attributes gobgp_attribute_buffers_data [OF bs_def]
  have full: "\<not> is_empty_buffer (buffer_with 2048 (of_nat (length (nlri_bytes r)) # nlri_bytes r))"
    by (simp add: is_empty_buffer_def get_used_size_def)
  show ?thesis
    using bs full by (simp add: AnnounceFlowSpecIPv4_def nlri flowspec_request_def split: option.split)
qed

section \<open>Properties\<close>

text \<open>
  Every rule the rule builder makes for a configured action reaches GoBGP: the announcement
  sends exactly one well-formed request, whose NLRI carries its length and is decoded to the match
  of the rule and whose three attributes are the origin, the next hop and the action, and the call
  returns what GoBGP answers.
\<close>

lemma built_rule_reaches_gobgp:
  assumes "configurable_action a rt_as rt_value"
  shows "AnnounceFlowSpecIPv4 add_path (build_gobgp_flowspec_ipv4_rule victim attack hop port a rt_as rt_value) =
      (case add_path (flowspec_request (build_gobgp_flowspec_ipv4_rule victim attack hop port a rt_as rt_value))
       of Some uuid \<Rightarrow> Done uuid | None \<Rightarrow> Failed)
    \<and> (let r = build_gobgp_flowspec_ipv4_rule victim attack hop port a rt_as rt_value;
           nlri = nlri_binary (flowspec_request r)
        in unat (hd nlri) = length (tl nlri) \<and> flow_spec_decode_nlri_value (tl nlri) flow_spec_rule_default = Done (matched_part r))"
proof -
  let ?r = "build_gobgp_flowspec_ipv4_rule victim attack hop port a rt_as rt_value"
  have "unat (of_nat (length (nlri_bytes ?r)) :: u8) = length (nlri_bytes ?r)"
    using built_rule_nlri_short [of victim attack hop port a rt_as rt_value]
    by (simp add: unsigned_of_nat take_bit_nat_eq_self)
  then show ?thesis
    using announce_built_rule [OF assms] decode_nlri_bytes [OF built_rule_decodable]
    by (simp add: flowspec_request_def Let_def)
qed

definition example_attack :: attack_details_t where
  "example_attack = attack_details_default\<lparr>attack_direction := INCOMING, attack_protocol := ucast UDP\<rparr>"

lemma built_rule_reaches_gobgp_witness:
  "AnnounceFlowSpecIPv4 (\<lambda>_. Some ''u'')
     (build_gobgp_flowspec_ipv4_rule 16909060 example_attack 0 (Some 53) FLOW_SPEC_ACTION_REDIRECT_VRF 65001 7) = Done ''u''"
  using built_rule_reaches_gobgp [of FLOW_SPEC_ACTION_REDIRECT_VRF 65001 7 "\<lambda>_. Some ''u''"
      16909060 example_attack 0 "Some 53"]
  by (simp add: configurable_action_def)

end
