(* ===== verification/Ip_Protocols.thy ===== *)
theory Ip_Protocols
  imports Flow_Spec_Types
begin

text \<open>
  The protocol tables of \<^verbatim>\<open>src/iana/iana_ip_protocols.cpp\<close>: the name of a protocol number, the
  name of an enumerator, and the reader of such names. Each switch and each chain of comparisons
  is the list of its branches in source order, with the enumerators replaced by their values.
\<close>

text \<open>The branches of the switch over the numbers 0 to 255.\<close>

definition iana_cases :: "(nat \<times> string) list" where
  "iana_cases =
  [(0, ''HOPOPT''), (1, ''ICMP''), (2, ''IGMP''), (3, ''GGP''), (4, ''IPV4''), (5, ''ST''), (6, ''TCP''),
   (7, ''CBT''), (8, ''EGP''), (9, ''IGP''), (10, ''BBN_RCC_MON''), (11, ''NVP_II''), (12, ''PUP''),
   (13, ''ARGUS_DEPRECATED''), (14, ''EMCON''), (15, ''XNET''), (16, ''CHAOS''), (17, ''UDP''),
   (18, ''MUX''), (19, ''DCN_MEAS''), (20, ''HMP''), (21, ''PRM''), (22, ''XNS_IDP''), (23, ''TRUNK_1''),
   (24, ''TRUNK_2''), (25, ''LEAF_1''), (26, ''LEAF_2''), (27, ''RDP''), (28, ''IRTP''), (29, ''ISO_TP4''),
   (30, ''NETBLT''), (31, ''MFE_NSP''), (32, ''MERIT_INP''), (33, ''DCCP''), (34, ''THREEPC''),
   (35, ''IDPR''), (36, ''XTP''), (37, ''DDP''), (38, ''IDPR_CMTP''), (39, ''TPPPPP''), (40, ''IL''),
   (41, ''IPV6''), (42, ''SDRP''), (43, ''IPV6_ROUTE''), (44, ''IPV6_FRAG''), (45, ''IDRP''),
   (46, ''RSVP''), (47, ''GRE''), (48, ''DSR''), (49, ''BNA''), (50, ''ESP''), (51, ''AH''),
   (52, ''I_NLSP''), (53, ''SWIPE_DEPRECATED''), (54, ''NARP''), (55, ''MOBILE''), (56, ''TLSP''),
   (57, ''SKIP''), (58, ''IPV6_ICMP''), (59, ''IPV6_NONXT''), (60, ''IPV6_OPTS''), (61, ''UNKNOWN_61''),
   (62, ''CFTP''), (63, ''UNKNOWN_63''), (64, ''SAT_EXPAK''), (65, ''KRYPTOLAN''), (66, ''RVD''),
   (67, ''IPPC''), (68, ''UNKNOWN_68''), (69, ''SAT_MON''), (70, ''VISA''), (71, ''IPCV''), (72, ''CPNX''),
   (73, ''CPHB''), (74, ''WSN''), (75, ''PVP''), (76, ''BR_SAT_MON''), (77, ''SUN_ND''), (78, ''WB_MON''),
   (79, ''WB_EXPAK''), (80, ''ISO_IP''), (81, ''VMTP''), (82, ''SECURE_VMTP''), (83, ''VINES''),
   (84, ''IPTM_OR_TTP''), (85, ''NSFNET_IGP''), (86, ''DGP''), (87, ''TCF''), (88, ''EIGRP''),
   (89, ''OSPFIGP''), (90, ''SPRITE_RPC''), (91, ''LARP''), (92, ''MTP''), (93, ''AX_25''), (94, ''IPIP''),
   (95, ''MICP_DEPRECATED''), (96, ''SCC_SP''), (97, ''ETHERIP''), (98, ''ENCAP''), (99, ''UNKNOWN_99''),
   (100, ''GMTP''), (101, ''IFMP''), (102, ''PNNI''), (103, ''PIM''), (104, ''ARIS''), (105, ''SCPS''),
   (106, ''QNX''), (107, ''A_N''), (108, ''IPCOMP''), (109, ''SNP''), (110, ''COMPAQ_PEER''),
   (111, ''IPX_IN_IP''), (112, ''VRRP''), (113, ''PGM''), (114, ''UNKNOWN_114''), (115, ''L2TP''),
   (116, ''DDX''), (117, ''IATP''), (118, ''STP''), (119, ''SRP''), (120, ''UTI''), (121, ''SMP''),
   (122, ''SM_DEPRECATED''), (123, ''PTP''), (124, ''ISISOVERIPV4''), (125, ''FIRE''), (126, ''CRTP''),
   (127, ''CRUDP''), (128, ''SSCOPMCE''), (129, ''IPLT''), (130, ''SPS''), (131, ''PIPE''),
   (132, ''SCTP''), (133, ''FC''), (134, ''RSVP_E2E_IGNORE''), (135, ''MOBILITYHEADER''),
   (136, ''UDPLITE''), (137, ''MPLS_IN_IP''), (138, ''MANET''), (139, ''HIP''), (140, ''SHIM6''),
   (141, ''WESP''), (142, ''ROHC''), (143, ''ETHERNET''), (144, ''UNASSIGNED_144''),
   (145, ''UNASSIGNED_145''), (146, ''UNASSIGNED_146''), (147, ''UNASSIGNED_147''),
   (148, ''UNASSIGNED_148''), (149, ''UNASSIGNED_149''), (150, ''UNASSIGNED_150''),
   (151, ''UNASSIGNED_151''), (152, ''UNASSIGNED_152''), (153, ''UNASSIGNED_153''),
   (154, ''UNASSIGNED_154''), (155, ''UNASSIGNED_155''), (156, ''UNASSIGNED_156''),
   (157, ''UNASSIGNED_157''), (158, ''UNASSIGNED_158''), (159, ''UNASSIGNED_159''),
   (160, ''UNASSIGNED_160''), (161, ''UNASSIGNED_161''), (162, ''UNASSIGNED_162''),
   (163, ''UNASSIGNED_163''), (164, ''UNASSIGNED_164''), (165, ''UNASSIGNED_165''),
   (166, ''UNASSIGNED_166''), (167, ''UNASSIGNED_167''), (168, ''UNASSIGNED_168''),
   (169, ''UNASSIGNED_169''), (170, ''UNASSIGNED_170''), (171, ''UNASSIGNED_171''),
   (172, ''UNASSIGNED_172''), (173, ''UNASSIGNED_173''), (174, ''UNASSIGNED_174''),
   (175, ''UNASSIGNED_175''), (176, ''UNASSIGNED_176''), (177, ''UNASSIGNED_177''),
   (178, ''UNASSIGNED_178''), (179, ''UNASSIGNED_179''), (180, ''UNASSIGNED_180''),
   (181, ''UNASSIGNED_181''), (182, ''UNASSIGNED_182''), (183, ''UNASSIGNED_183''),
   (184, ''UNASSIGNED_184''), (185, ''UNASSIGNED_185''), (186, ''UNASSIGNED_186''),
   (187, ''UNASSIGNED_187''), (188, ''UNASSIGNED_188''), (189, ''UNASSIGNED_189''),
   (190, ''UNASSIGNED_190''), (191, ''UNASSIGNED_191''), (192, ''UNASSIGNED_192''),
   (193, ''UNASSIGNED_193''), (194, ''UNASSIGNED_194''), (195, ''UNASSIGNED_195''),
   (196, ''UNASSIGNED_196''), (197, ''UNASSIGNED_197''), (198, ''UNASSIGNED_198''),
   (199, ''UNASSIGNED_199''), (200, ''UNASSIGNED_200''), (201, ''UNASSIGNED_201''),
   (202, ''UNASSIGNED_202''), (203, ''UNASSIGNED_203''), (204, ''UNASSIGNED_204''),
   (205, ''UNASSIGNED_205''), (206, ''UNASSIGNED_206''), (207, ''UNASSIGNED_207''),
   (208, ''UNASSIGNED_208''), (209, ''UNASSIGNED_209''), (210, ''UNASSIGNED_210''),
   (211, ''UNASSIGNED_211''), (212, ''UNASSIGNED_212''), (213, ''UNASSIGNED_213''),
   (214, ''UNASSIGNED_214''), (215, ''UNASSIGNED_215''), (216, ''UNASSIGNED_216''),
   (217, ''UNASSIGNED_217''), (218, ''UNASSIGNED_218''), (219, ''UNASSIGNED_219''),
   (220, ''UNASSIGNED_220''), (221, ''UNASSIGNED_221''), (222, ''UNASSIGNED_222''),
   (223, ''UNASSIGNED_223''), (224, ''UNASSIGNED_224''), (225, ''UNASSIGNED_225''),
   (226, ''UNASSIGNED_226''), (227, ''UNASSIGNED_227''), (228, ''UNASSIGNED_228''),
   (229, ''UNASSIGNED_229''), (230, ''UNASSIGNED_230''), (231, ''UNASSIGNED_231''),
   (232, ''UNASSIGNED_232''), (233, ''UNASSIGNED_233''), (234, ''UNASSIGNED_234''),
   (235, ''UNASSIGNED_235''), (236, ''UNASSIGNED_236''), (237, ''UNASSIGNED_237''),
   (238, ''UNASSIGNED_238''), (239, ''UNASSIGNED_239''), (240, ''UNASSIGNED_240''),
   (241, ''UNASSIGNED_241''), (242, ''UNASSIGNED_242''), (243, ''UNASSIGNED_243''),
   (244, ''UNASSIGNED_244''), (245, ''UNASSIGNED_245''), (246, ''UNASSIGNED_246''),
   (247, ''UNASSIGNED_247''), (248, ''UNASSIGNED_248''), (249, ''UNASSIGNED_249''),
   (250, ''UNASSIGNED_250''), (251, ''UNASSIGNED_251''), (252, ''UNASSIGNED_252''), (253, ''UNKNOWN_253''),
   (254, ''UNKNOWN_254''), (255, ''RESERVED'')]"

text \<open>The branches of the switch over the enumerators.\<close>

definition enum_cases :: "(nat \<times> string) list" where
  "enum_cases =
  [(0, ''HOPOPT''), (1, ''ICMP''), (2, ''IGMP''), (3, ''GGP''), (4, ''IPV4''), (5, ''ST''), (6, ''TCP''),
   (7, ''CBT''), (8, ''EGP''), (9, ''IGP''), (10, ''BBN_RCC_MON''), (11, ''NVP_II''), (12, ''PUP''),
   (13, ''ARGUS_DEPRECATED''), (14, ''EMCON''), (15, ''XNET''), (16, ''CHAOS''), (17, ''UDP''),
   (18, ''MUX''), (19, ''DCN_MEAS''), (20, ''HMP''), (21, ''PRM''), (22, ''XNS_IDP''), (23, ''TRUNK_1''),
   (24, ''TRUNK_2''), (25, ''LEAF_1''), (26, ''LEAF_2''), (27, ''RDP''), (28, ''IRTP''), (29, ''ISO_TP4''),
   (30, ''NETBLT''), (31, ''MFE_NSP''), (32, ''MERIT_INP''), (33, ''DCCP''), (34, ''THREEPC''),
   (35, ''IDPR''), (36, ''XTP''), (37, ''DDP''), (38, ''IDPR_CMTP''), (39, ''TPPPPP''), (40, ''IL''),
   (41, ''IPV6''), (42, ''SDRP''), (43, ''IPV6_ROUTE''), (44, ''IPV6_FRAG''), (45, ''IDRP''),
   (46, ''RSVP''), (47, ''GRE''), (48, ''DSR''), (49, ''BNA''), (50, ''ESP''), (51, ''AH''),
   (52, ''I_NLSP''), (53, ''SWIPE_DEPRECATED''), (54, ''NARP''), (55, ''MOBILE''), (56, ''TLSP''),
   (57, ''SKIP''), (58, ''IPV6_ICMP''), (59, ''IPV6_NONXT''), (60, ''IPV6_OPTS''), (61, ''UNKNOWN_61''),
   (62, ''CFTP''), (63, ''UNKNOWN_63''), (64, ''SAT_EXPAK''), (65, ''KRYPTOLAN''), (66, ''RVD''),
   (67, ''IPPC''), (68, ''UNKNOWN_68''), (69, ''SAT_MON''), (70, ''VISA''), (71, ''IPCV''), (72, ''CPNX''),
   (73, ''CPHB''), (74, ''WSN''), (75, ''PVP''), (76, ''BR_SAT_MON''), (77, ''SUN_ND''), (78, ''WB_MON''),
   (79, ''WB_EXPAK''), (80, ''ISO_IP''), (81, ''VMTP''), (82, ''SECURE_VMTP''), (83, ''VINES''),
   (84, ''IPTM_OR_TTP''), (85, ''NSFNET_IGP''), (86, ''DGP''), (87, ''TCF''), (88, ''EIGRP''),
   (89, ''OSPFIGP''), (90, ''SPRITE_RPC''), (91, ''LARP''), (92, ''MTP''), (93, ''AX_25''), (94, ''IPIP''),
   (95, ''MICP_DEPRECATED''), (96, ''SCC_SP''), (97, ''ETHERIP''), (98, ''ENCAP''), (99, ''UNKNOWN_99''),
   (100, ''GMTP''), (101, ''IFMP''), (102, ''PNNI''), (103, ''PIM''), (104, ''ARIS''), (105, ''SCPS''),
   (106, ''QNX''), (107, ''A_N''), (108, ''IPCOMP''), (109, ''SNP''), (110, ''COMPAQ_PEER''),
   (111, ''IPX_IN_IP''), (112, ''VRRP''), (113, ''PGM''), (114, ''UNKNOWN_114''), (115, ''L2TP''),
   (116, ''DDX''), (117, ''IATP''), (118, ''STP''), (119, ''SRP''), (120, ''UTI''), (121, ''SMP''),
   (122, ''SM_DEPRECATED''), (123, ''PTP''), (124, ''ISISOVERIPV4''), (125, ''FIRE''), (126, ''CRTP''),
   (127, ''CRUDP''), (128, ''SSCOPMCE''), (129, ''IPLT''), (130, ''SPS''), (131, ''PIPE''),
   (132, ''SCTP''), (133, ''FC''), (134, ''RSVP_E2E_IGNORE''), (135, ''MOBILITYHEADER''),
   (136, ''UDPLITE''), (137, ''MPLS_IN_IP''), (138, ''MANET''), (139, ''HIP''), (140, ''SHIM6''),
   (141, ''WESP''), (142, ''ROHC''), (143, ''ETHERNET''), (144, ''UNASSIGNED_144''),
   (145, ''UNASSIGNED_145''), (146, ''UNASSIGNED_146''), (147, ''UNASSIGNED_147''),
   (148, ''UNASSIGNED_148''), (149, ''UNASSIGNED_149''), (150, ''UNASSIGNED_150''),
   (151, ''UNASSIGNED_151''), (152, ''UNASSIGNED_152''), (153, ''UNASSIGNED_153''),
   (154, ''UNASSIGNED_154''), (155, ''UNASSIGNED_155''), (156, ''UNASSIGNED_156''),
   (157, ''UNASSIGNED_157''), (158, ''UNASSIGNED_158''), (159, ''UNASSIGNED_159''),
   (160, ''UNASSIGNED_160''), (161, ''UNASSIGNED_161''), (162, ''UNASSIGNED_162''),
   (163, ''UNASSIGNED_163''), (164, ''UNASSIGNED_164''), (165, ''UNASSIGNED_165''),
   (166, ''UNASSIGNED_166''), (167, ''UNASSIGNED_167''), (168, ''UNASSIGNED_168''),
   (169, ''UNASSIGNED_169''), (170, ''UNASSIGNED_170''), (171, ''UNASSIGNED_171''),
   (172, ''UNASSIGNED_172''), (173, ''UNASSIGNED_173''), (174, ''UNASSIGNED_174''),
   (175, ''UNASSIGNED_175''), (176, ''UNASSIGNED_176''), (177, ''UNASSIGNED_177''),
   (178, ''UNASSIGNED_178''), (179, ''UNASSIGNED_179''), (180, ''UNASSIGNED_180''),
   (181, ''UNASSIGNED_181''), (182, ''UNASSIGNED_182''), (183, ''UNASSIGNED_183''),
   (184, ''UNASSIGNED_184''), (185, ''UNASSIGNED_185''), (186, ''UNASSIGNED_186''),
   (187, ''UNASSIGNED_187''), (188, ''UNASSIGNED_188''), (189, ''UNASSIGNED_189''),
   (190, ''UNASSIGNED_190''), (191, ''UNASSIGNED_191''), (192, ''UNASSIGNED_192''),
   (193, ''UNASSIGNED_193''), (194, ''UNASSIGNED_194''), (195, ''UNASSIGNED_195''),
   (196, ''UNASSIGNED_196''), (197, ''UNASSIGNED_197''), (198, ''UNASSIGNED_198''),
   (199, ''UNASSIGNED_199''), (200, ''UNASSIGNED_200''), (201, ''UNASSIGNED_201''),
   (202, ''UNASSIGNED_202''), (203, ''UNASSIGNED_203''), (204, ''UNASSIGNED_204''),
   (205, ''UNASSIGNED_205''), (206, ''UNASSIGNED_206''), (207, ''UNASSIGNED_207''),
   (208, ''UNASSIGNED_208''), (209, ''UNASSIGNED_209''), (210, ''UNASSIGNED_210''),
   (211, ''UNASSIGNED_211''), (212, ''UNASSIGNED_212''), (213, ''UNASSIGNED_213''),
   (214, ''UNASSIGNED_214''), (215, ''UNASSIGNED_215''), (216, ''UNASSIGNED_216''),
   (217, ''UNASSIGNED_217''), (218, ''UNASSIGNED_218''), (219, ''UNASSIGNED_219''),
   (220, ''UNASSIGNED_220''), (221, ''UNASSIGNED_221''), (222, ''UNASSIGNED_222''),
   (223, ''UNASSIGNED_223''), (224, ''UNASSIGNED_224''), (225, ''UNASSIGNED_225''),
   (226, ''UNASSIGNED_226''), (227, ''UNASSIGNED_227''), (228, ''UNASSIGNED_228''),
   (229, ''UNASSIGNED_229''), (230, ''UNASSIGNED_230''), (231, ''UNASSIGNED_231''),
   (232, ''UNASSIGNED_232''), (233, ''UNASSIGNED_233''), (234, ''UNASSIGNED_234''),
   (235, ''UNASSIGNED_235''), (236, ''UNASSIGNED_236''), (237, ''UNASSIGNED_237''),
   (238, ''UNASSIGNED_238''), (239, ''UNASSIGNED_239''), (240, ''UNASSIGNED_240''),
   (241, ''UNASSIGNED_241''), (242, ''UNASSIGNED_242''), (243, ''UNASSIGNED_243''),
   (244, ''UNASSIGNED_244''), (245, ''UNASSIGNED_245''), (246, ''UNASSIGNED_246''),
   (247, ''UNASSIGNED_247''), (248, ''UNASSIGNED_248''), (249, ''UNASSIGNED_249''),
   (250, ''UNASSIGNED_250''), (251, ''UNASSIGNED_251''), (252, ''UNASSIGNED_252''), (253, ''UNKNOWN_253''),
   (254, ''UNKNOWN_254''), (255, ''RESERVED'')]"

text \<open>The comparisons of the reader.\<close>

definition name_cases :: "(string \<times> nat) list" where
  "name_cases =
  [(''hopopt'', 0), (''icmp'', 1), (''igmp'', 2), (''ggp'', 3), (''ipv4'', 4), (''st'', 5), (''tcp'', 6),
   (''cbt'', 7), (''egp'', 8), (''igp'', 9), (''bbn_rcc_mon'', 10), (''nvp_ii'', 11), (''pup'', 12),
   (''argus_deprecated'', 13), (''emcon'', 14), (''xnet'', 15), (''chaos'', 16), (''udp'', 17),
   (''mux'', 18), (''dcn_meas'', 19), (''hmp'', 20), (''prm'', 21), (''xns_idp'', 22), (''trunk_1'', 23),
   (''trunk_2'', 24), (''leaf_1'', 25), (''leaf_2'', 26), (''rdp'', 27), (''irtp'', 28), (''iso_tp4'', 29),
   (''netblt'', 30), (''mfe_nsp'', 31), (''merit_inp'', 32), (''dccp'', 33), (''threepc'', 34),
   (''idpr'', 35), (''xtp'', 36), (''ddp'', 37), (''idpr_cmtp'', 38), (''tppppp'', 39), (''il'', 40),
   (''ipv6'', 41), (''sdrp'', 42), (''ipv6_route'', 43), (''ipv6_frag'', 44), (''idrp'', 45),
   (''rsvp'', 46), (''gre'', 47), (''dsr'', 48), (''bna'', 49), (''esp'', 50), (''ah'', 51),
   (''i_nlsp'', 52), (''swipe_deprecated'', 53), (''narp'', 54), (''mobile'', 55), (''tlsp'', 56),
   (''skip'', 57), (''ipv6_icmp'', 58), (''ipv6_nonxt'', 59), (''ipv6_opts'', 60), (''unknown_61'', 61),
   (''cftp'', 62), (''unknown_63'', 63), (''sat_expak'', 64), (''kryptolan'', 65), (''rvd'', 66),
   (''ippc'', 67), (''unknown_68'', 68), (''sat_mon'', 69), (''visa'', 70), (''ipcv'', 71), (''cpnx'', 72),
   (''cphb'', 73), (''wsn'', 74), (''pvp'', 75), (''br_sat_mon'', 76), (''sun_nd'', 77), (''wb_mon'', 78),
   (''wb_expak'', 79), (''iso_ip'', 80), (''vmtp'', 81), (''secure_vmtp'', 82), (''vines'', 83),
   (''iptm_or_ttp'', 84), (''nsfnet_igp'', 85), (''dgp'', 86), (''tcf'', 87), (''eigrp'', 88),
   (''ospfigp'', 89), (''sprite_rpc'', 90), (''larp'', 91), (''mtp'', 92), (''ax_25'', 93), (''ipip'', 94),
   (''micp_deprecated'', 95), (''scc_sp'', 96), (''etherip'', 97), (''encap'', 98), (''unknown_99'', 99),
   (''gmtp'', 100), (''ifmp'', 101), (''pnni'', 102), (''pim'', 103), (''aris'', 104), (''scps'', 105),
   (''qnx'', 106), (''a_n'', 107), (''ipcomp'', 108), (''snp'', 109), (''compaq_peer'', 110),
   (''ipx_in_ip'', 111), (''vrrp'', 112), (''pgm'', 113), (''unknown_114'', 114), (''l2tp'', 115),
   (''ddx'', 116), (''iatp'', 117), (''stp'', 118), (''srp'', 119), (''uti'', 120), (''smp'', 121),
   (''sm_deprecated'', 122), (''ptp'', 123), (''isisoveripv4'', 124), (''fire'', 125), (''crtp'', 126),
   (''crudp'', 127), (''sscopmce'', 128), (''iplt'', 129), (''sps'', 130), (''pipe'', 131),
   (''sctp'', 132), (''fc'', 133), (''rsvp_e2e_ignore'', 134), (''mobilityheader'', 135),
   (''udplite'', 136), (''mpls_in_ip'', 137), (''manet'', 138), (''hip'', 139), (''shim6'', 140),
   (''wesp'', 141), (''rohc'', 142), (''ethernet'', 143), (''unassigned_144'', 144),
   (''unassigned_145'', 145), (''unassigned_146'', 146), (''unassigned_147'', 147),
   (''unassigned_148'', 148), (''unassigned_149'', 149), (''unassigned_150'', 150),
   (''unassigned_151'', 151), (''unassigned_152'', 152), (''unassigned_153'', 153),
   (''unassigned_154'', 154), (''unassigned_155'', 155), (''unassigned_156'', 156),
   (''unassigned_157'', 157), (''unassigned_158'', 158), (''unassigned_159'', 159),
   (''unassigned_160'', 160), (''unassigned_161'', 161), (''unassigned_162'', 162),
   (''unassigned_163'', 163), (''unassigned_164'', 164), (''unassigned_165'', 165),
   (''unassigned_166'', 166), (''unassigned_167'', 167), (''unassigned_168'', 168),
   (''unassigned_169'', 169), (''unassigned_170'', 170), (''unassigned_171'', 171),
   (''unassigned_172'', 172), (''unassigned_173'', 173), (''unassigned_174'', 174),
   (''unassigned_175'', 175), (''unassigned_176'', 176), (''unassigned_177'', 177),
   (''unassigned_178'', 178), (''unassigned_179'', 179), (''unassigned_180'', 180),
   (''unassigned_181'', 181), (''unassigned_182'', 182), (''unassigned_183'', 183),
   (''unassigned_184'', 184), (''unassigned_185'', 185), (''unassigned_186'', 186),
   (''unassigned_187'', 187), (''unassigned_188'', 188), (''unassigned_189'', 189),
   (''unassigned_190'', 190), (''unassigned_191'', 191), (''unassigned_192'', 192),
   (''unassigned_193'', 193), (''unassigned_194'', 194), (''unassigned_195'', 195),
   (''unassigned_196'', 196), (''unassigned_197'', 197), (''unassigned_198'', 198),
   (''unassigned_199'', 199), (''unassigned_200'', 200), (''unassigned_201'', 201),
   (''unassigned_202'', 202), (''unassigned_203'', 203), (''unassigned_204'', 204),
   (''unassigned_205'', 205), (''unassigned_206'', 206), (''unassigned_207'', 207),
   (''unassigned_208'', 208), (''unassigned_209'', 209), (''unassigned_210'', 210),
   (''unassigned_211'', 211), (''unassigned_212'', 212), (''unassigned_213'', 213),
   (''unassigned_214'', 214), (''unassigned_215'', 215), (''unassigned_216'', 216),
   (''unassigned_217'', 217), (''unassigned_218'', 218), (''unassigned_219'', 219),
   (''unassigned_220'', 220), (''unassigned_221'', 221), (''unassigned_222'', 222),
   (''unassigned_223'', 223), (''unassigned_224'', 224), (''unassigned_225'', 225),
   (''unassigned_226'', 226), (''unassigned_227'', 227), (''unassigned_228'', 228),
   (''unassigned_229'', 229), (''unassigned_230'', 230), (''unassigned_231'', 231),
   (''unassigned_232'', 232), (''unassigned_233'', 233), (''unassigned_234'', 234),
   (''unassigned_235'', 235), (''unassigned_236'', 236), (''unassigned_237'', 237),
   (''unassigned_238'', 238), (''unassigned_239'', 239), (''unassigned_240'', 240),
   (''unassigned_241'', 241), (''unassigned_242'', 242), (''unassigned_243'', 243),
   (''unassigned_244'', 244), (''unassigned_245'', 245), (''unassigned_246'', 246),
   (''unassigned_247'', 247), (''unassigned_248'', 248), (''unassigned_249'', 249),
   (''unassigned_250'', 250), (''unassigned_251'', 251), (''unassigned_252'', 252), (''unknown_253'', 253),
   (''unknown_254'', 254), (''reserved'', 255)]"

text \<open>\<^verbatim>\<open>boost::algorithm::to_lower_copy\<close> in the classic locale.\<close>

definition to_lower :: "char \<Rightarrow> char" where
  "to_lower c = (if 65 \<le> (of_char c :: nat) \<and> (of_char c :: nat) \<le> 90 then char_of (of_char c + 32 :: nat) else c)"

definition to_lower_copy :: "string \<Rightarrow> string" where
  "to_lower_copy s = map to_lower s"

text \<open>All 256 values have a branch (below), so control never reaches the end of a switch.\<close>

definition get_ip_protocol_name_by_number_iana :: "u8 \<Rightarrow> string" where
  "get_ip_protocol_name_by_number_iana protocol_number =
     (case map_of iana_cases (unat protocol_number) of Some name \<Rightarrow> name | None \<Rightarrow> [])"

definition get_ip_protocol_name :: "ip_protocol_t \<Rightarrow> string" where
  "get_ip_protocol_name p = (case map_of enum_cases (unat p) of Some name \<Rightarrow> name | None \<Rightarrow> [])"

definition read_protocol_from_string :: "string \<Rightarrow> ip_protocol_t option" where
  "read_protocol_from_string text =
     (let lower = to_lower_copy text in
      if lower = [] then None else map_option of_nat (map_of name_cases lower))"


section \<open>The tables\<close>

lemma enum_cases_keys: "map fst enum_cases = [0..<256]"
proof -
  have "[0..<256] = 0 # 1 # [2..<256]"
    by (simp add: upt_conv_Cons numeral_2_eq_2)
  then show ?thesis
    unfolding enum_cases_def by (simp add: upt_rec_numeral)
qed

lemma enum_cases_named: "list_all (\<lambda>e. snd e \<noteq> []) enum_cases"
  unfolding enum_cases_def by simp

lemma iana_cases_enum_cases: "iana_cases = enum_cases"
  unfolding iana_cases_def enum_cases_def by (rule refl)

lemma to_lower_names:
  "to_lower CHR ''0'' = CHR ''0''"
  "to_lower CHR ''1'' = CHR ''1''"
  "to_lower CHR ''2'' = CHR ''2''"
  "to_lower CHR ''3'' = CHR ''3''"
  "to_lower CHR ''4'' = CHR ''4''"
  "to_lower CHR ''5'' = CHR ''5''"
  "to_lower CHR ''6'' = CHR ''6''"
  "to_lower CHR ''7'' = CHR ''7''"
  "to_lower CHR ''8'' = CHR ''8''"
  "to_lower CHR ''9'' = CHR ''9''"
  "to_lower CHR ''A'' = CHR ''a''"
  "to_lower CHR ''B'' = CHR ''b''"
  "to_lower CHR ''C'' = CHR ''c''"
  "to_lower CHR ''D'' = CHR ''d''"
  "to_lower CHR ''E'' = CHR ''e''"
  "to_lower CHR ''F'' = CHR ''f''"
  "to_lower CHR ''G'' = CHR ''g''"
  "to_lower CHR ''H'' = CHR ''h''"
  "to_lower CHR ''I'' = CHR ''i''"
  "to_lower CHR ''K'' = CHR ''k''"
  "to_lower CHR ''L'' = CHR ''l''"
  "to_lower CHR ''M'' = CHR ''m''"
  "to_lower CHR ''N'' = CHR ''n''"
  "to_lower CHR ''O'' = CHR ''o''"
  "to_lower CHR ''P'' = CHR ''p''"
  "to_lower CHR ''Q'' = CHR ''q''"
  "to_lower CHR ''R'' = CHR ''r''"
  "to_lower CHR ''S'' = CHR ''s''"
  "to_lower CHR ''T'' = CHR ''t''"
  "to_lower CHR ''U'' = CHR ''u''"
  "to_lower CHR ''V'' = CHR ''v''"
  "to_lower CHR ''W'' = CHR ''w''"
  "to_lower CHR ''X'' = CHR ''x''"
  "to_lower CHR ''Y'' = CHR ''y''"
  "to_lower CHR ''_'' = CHR ''_''"
  by (simp_all add: to_lower_def char_of_def bit_0)

lemma name_cases_enum_cases: "name_cases = map (\<lambda>(n, s). (to_lower_copy s, n)) enum_cases"
  unfolding name_cases_def enum_cases_def to_lower_copy_def by (simp only: list.map prod.case to_lower_names)

text \<open>A numeric code of the names shows that no two of them are equal.\<close>

definition name_code :: "string \<Rightarrow> int" where
  "name_code s = foldl (\<lambda>n c. n * 128 + of_char c) 0 s"

lemma of_char_names:
  "(of_char CHR ''0'' :: int) = 48"
  "(of_char CHR ''1'' :: int) = 49"
  "(of_char CHR ''2'' :: int) = 50"
  "(of_char CHR ''3'' :: int) = 51"
  "(of_char CHR ''4'' :: int) = 52"
  "(of_char CHR ''5'' :: int) = 53"
  "(of_char CHR ''6'' :: int) = 54"
  "(of_char CHR ''7'' :: int) = 55"
  "(of_char CHR ''8'' :: int) = 56"
  "(of_char CHR ''9'' :: int) = 57"
  "(of_char CHR ''_'' :: int) = 95"
  "(of_char CHR ''a'' :: int) = 97"
  "(of_char CHR ''b'' :: int) = 98"
  "(of_char CHR ''c'' :: int) = 99"
  "(of_char CHR ''d'' :: int) = 100"
  "(of_char CHR ''e'' :: int) = 101"
  "(of_char CHR ''f'' :: int) = 102"
  "(of_char CHR ''g'' :: int) = 103"
  "(of_char CHR ''h'' :: int) = 104"
  "(of_char CHR ''i'' :: int) = 105"
  "(of_char CHR ''k'' :: int) = 107"
  "(of_char CHR ''l'' :: int) = 108"
  "(of_char CHR ''m'' :: int) = 109"
  "(of_char CHR ''n'' :: int) = 110"
  "(of_char CHR ''o'' :: int) = 111"
  "(of_char CHR ''p'' :: int) = 112"
  "(of_char CHR ''q'' :: int) = 113"
  "(of_char CHR ''r'' :: int) = 114"
  "(of_char CHR ''s'' :: int) = 115"
  "(of_char CHR ''t'' :: int) = 116"
  "(of_char CHR ''u'' :: int) = 117"
  "(of_char CHR ''v'' :: int) = 118"
  "(of_char CHR ''w'' :: int) = 119"
  "(of_char CHR ''x'' :: int) = 120"
  "(of_char CHR ''y'' :: int) = 121"
  by simp_all

lemma name_codes: "map (name_code \<circ> fst) name_cases =
  [3603445839988, 221837040, 221902576, 1700848, 222051124, 14836, 1913328, 1634676, 1668080, 1733616, 116609849610313515366382, 3811483055337, 1850096, 3971172801463550246615268028396260, 27342206958, 253473524, 26794817523, 1929840, 1800952, 56734207249576179, 1718000, 1849709, 531576223593072, 514122044862385, 514122044862386, 3738168831921, 3738168831922, 1880688, 222083696, 465776251058228, 3806928090740, 482919076051440, 7911640711843968880, 211350000, 513777623201891, 221853810, 1981040, 1651312, 7622838893254769264, 4016031152240, 13548, 222051126, 242825584, 976591183286026205797, 7629618619396960487, 221854064, 240974704, 1702245, 1653234, 1619809, 1669616, 12520, 3633506367984, 4702928963375767056654404517966564, 232290672, 3775215072869, 245053936, 242939120, 7629618619403007728, 976591183284952349812, 7629618619415804531, 1087121586932420172593, 209304176, 1087121586932420172595, 8341742924779499755, 7774874900039938286, 1882980, 222050403, 1087121586932420172600, 509139582941166, 249199073, 222048758, 209467256, 209466466, 1964526, 1850224, 912159014717249779694, 3983009118052, 4115316570094, 67425344555856107, 3638876959984, 249264752, 136706797030052323883632, 31897400051, 125003558307568396614256, 1022915455550425297904, 1651696, 1913318, 27333884272, 492164813059056, 1068822876873163585635, 228096368, 1800816, 26291460405, 222049520, 34805378241014807770041740505828, 3978154211824, 448216558253296, 27344302320, 1087121586932420172985, 217807472, 221886192, 236697449, 1848557, 205305075, 242808947, 1865592, 1601518, 3638046750448, 1898352, 117910282505778416415474, 7629628826940077296, 249346416, 1848301, 139151563127349782010036, 227326576, 1651320, 221805168, 1899120, 1898864, 1931881, 1898224, 2241008208265711110546338532, 1849968, 16003896222521609806428980, 215644517, 209500784, 26816115312, 65248451639341541, 222049908, 1898611, 236615781, 242809456, 13155, 36415067805540507133546801658213, 272032915127015001191117042418, 518037708634725, 1013479310212329895152, 29464703732, 1717488, 31089915574, 251230704, 240907363, 57371719456502516, 291820473697212244294898571828, 291820473697212244294898571829, 291820473697212244294898571830, 291820473697212244294898571831, 291820473697212244294898571832, 291820473697212244294898571833, 291820473697212244294898571952, 291820473697212244294898571953, 291820473697212244294898571954, 291820473697212244294898571955, 291820473697212244294898571956, 291820473697212244294898571957, 291820473697212244294898571958, 291820473697212244294898571959, 291820473697212244294898571960, 291820473697212244294898571961, 291820473697212244294898572080, 291820473697212244294898572081, 291820473697212244294898572082, 291820473697212244294898572083, 291820473697212244294898572084, 291820473697212244294898572085, 291820473697212244294898572086, 291820473697212244294898572087, 291820473697212244294898572088, 291820473697212244294898572089, 291820473697212244294898572208, 291820473697212244294898572209, 291820473697212244294898572210, 291820473697212244294898572211, 291820473697212244294898572212, 291820473697212244294898572213, 291820473697212244294898572214, 291820473697212244294898572215, 291820473697212244294898572216, 291820473697212244294898572217, 291820473697212244294898572336, 291820473697212244294898572337, 291820473697212244294898572338, 291820473697212244294898572339, 291820473697212244294898572340, 291820473697212244294898572341, 291820473697212244294898572342, 291820473697212244294898572343, 291820473697212244294898572344, 291820473697212244294898572345, 291820473697212244294898572464, 291820473697212244294898572465, 291820473697212244294898572466, 291820473697212244294898572467, 291820473697212244294898572468, 291820473697212244294898572469, 291820473697212244294898572470, 291820473697212244294898572471, 291820473697212244294898572472, 291820473697212244294898572473, 291820473697212244294898587696, 291820473697212244294898587697, 291820473697212244294898587698, 291820473697212244294898587699, 291820473697212244294898587700, 291820473697212244294898587701, 291820473697212244294898587702, 291820473697212244294898587703, 291820473697212244294898587704, 291820473697212244294898587705, 291820473697212244294898587824, 291820473697212244294898587825, 291820473697212244294898587826, 291820473697212244294898587827, 291820473697212244294898587828, 291820473697212244294898587829, 291820473697212244294898587830, 291820473697212244294898587831, 291820473697212244294898587832, 291820473697212244294898587833, 291820473697212244294898587952, 291820473697212244294898587953, 291820473697212244294898587954, 291820473697212244294898587955, 291820473697212244294898587956, 291820473697212244294898587957, 291820473697212244294898587958, 291820473697212244294898587959, 291820473697212244294898587960, 291820473697212244294898587961, 291820473697212244294898588080, 291820473697212244294898588081, 291820473697212244294898588082, 291820473697212244294898588083, 291820473697212244294898588084, 291820473697212244294898588085, 291820473697212244294898588086, 291820473697212244294898588087, 291820473697212244294898588088, 291820473697212244294898588089, 291820473697212244294898588208, 291820473697212244294898588209, 291820473697212244294898588210, 291820473697212244294898588211, 291820473697212244294898588212, 291820473697212244294898588213, 291820473697212244294898588214, 291820473697212244294898588215, 291820473697212244294898588216, 291820473697212244294898588217, 291820473697212244294898588336, 291820473697212244294898588337, 291820473697212244294898588338, 139151563127349782026931, 139151563127349782026932, 64624476110566116]"
  unfolding name_cases_def by (simp add: name_code_def of_char_names del: of_char_Char)

lemma name_cases_distinct: "distinct (map fst name_cases)"
proof -
  have "distinct (map (name_code \<circ> fst) name_cases)"
    unfolding name_codes by simp
  then show ?thesis
    by (simp add: distinct_map inj_on_def)
qed

lemma enum_cases_lookup:
  "n < 256 \<Longrightarrow> map_of enum_cases n = Some (snd (enum_cases ! n)) \<and> (n, snd (enum_cases ! n)) \<in> set enum_cases"
proof -
  assume n: "n < 256"
  have len: "length enum_cases = 256"
    using enum_cases_keys by (metis diff_zero length_map length_upt)
  have "fst (enum_cases ! n) = n"
    using enum_cases_keys n len by (metis add.left_neutral nth_map nth_upt)
  then have mem: "(n, snd (enum_cases ! n)) \<in> set enum_cases"
    using n len by (metis nth_mem prod.collapse)
  have "distinct (map fst enum_cases)"
    by (simp add: enum_cases_keys)
  with mem show ?thesis
    by simp
qed

lemma unat_of_nat_protocol: "n < 256 \<Longrightarrow> unat (of_nat n :: ip_protocol_t) = n"
  by (simp add: unsigned_of_nat take_bit_nat_eq_self)

lemma protocol_name_entry: "(unat p, get_ip_protocol_name p) \<in> set enum_cases"
  using enum_cases_lookup [of "unat p"] unat_lt_2p [of p] by (simp add: get_ip_protocol_name_def)

lemma enum_cases_entry:
  assumes "(n, name) \<in> set enum_cases"
  shows "n < 256 \<and> get_ip_protocol_name (of_nat n) = name"
proof -
  have "n \<in> set (map fst enum_cases)"
    using assms by force
  then have n: "n < 256"
    by (simp add: enum_cases_keys)
  have "map_of enum_cases n = Some name"
    using assms by (simp add: enum_cases_keys)
  with n show ?thesis
    by (simp add: get_ip_protocol_name_def unat_of_nat_protocol)
qed

lemma name_cases_lookup:
  "map_of name_cases text = Some n \<longleftrightarrow>
     n < 256 \<and> text = to_lower_copy (get_ip_protocol_name (of_nat n))"
proof -
  have "map_of name_cases text = Some n \<longleftrightarrow> (text, n) \<in> set name_cases"
    using name_cases_distinct by simp
  also have "\<dots> \<longleftrightarrow> (\<exists>name. (n, name) \<in> set enum_cases \<and> text = to_lower_copy name)"
    unfolding name_cases_enum_cases by force
  also have "\<dots> \<longleftrightarrow> n < 256 \<and> text = to_lower_copy (get_ip_protocol_name (of_nat n))"
    using enum_cases_entry [of n] protocol_name_entry [of "of_nat n"] unat_of_nat_protocol [of n] by metis
  finally show ?thesis .
qed

lemma protocol_name_not_empty: "get_ip_protocol_name p \<noteq> []"
  using protocol_name_entry [of p] enum_cases_named by (auto simp: list_all_iff)

lemma enum_cases_plain: "list_all (\<lambda>e. CHR '' '' \<notin> set (snd e) \<and> snd e \<noteq> ''ANY'') enum_cases"
  unfolding enum_cases_def by simp

lemma protocol_name_plain: "CHR '' '' \<notin> set (get_ip_protocol_name p)" "get_ip_protocol_name p \<noteq> ''ANY''"
  using protocol_name_entry [of p] enum_cases_plain by (auto simp: list_all_iff)

lemma protocol_name_inj: "get_ip_protocol_name p = get_ip_protocol_name q \<longleftrightarrow> p = q"
proof
  assume same: "get_ip_protocol_name p = get_ip_protocol_name q"
  have "map_of name_cases (to_lower_copy (get_ip_protocol_name r)) = Some (unat r)" for r
    using unat_lt_2p [of r] by (auto simp: name_cases_lookup)
  from this [of p] this [of q] same show "p = q"
    by (simp add: word_unat_eq_iff)
qed simp

section \<open>Properties\<close>

text \<open>
  The protocol tables agree: every protocol has a name, the switch over numbers and the switch
  over enumerators give the same one, and the reader returns a protocol exactly for the texts that
  differ from its name only in the case of letters.
\<close>

lemma protocol_names_roundtrip:
  "get_ip_protocol_name p \<noteq> [] \<and> get_ip_protocol_name_by_number_iana p = get_ip_protocol_name p
   \<and> (read_protocol_from_string text = Some p \<longleftrightarrow> to_lower_copy text = to_lower_copy (get_ip_protocol_name p))"
proof -
  have "read_protocol_from_string text = Some p \<longleftrightarrow>
      to_lower_copy text \<noteq> [] \<and> map_of name_cases (to_lower_copy text) = Some (unat p)"
  proof (cases "map_of name_cases (to_lower_copy text)")
    case (Some n)
    then have "unat (of_nat n :: ip_protocol_t) = n"
      using name_cases_lookup unat_of_nat_protocol by blast
    then have "(of_nat n :: ip_protocol_t) = p \<longleftrightarrow> n = unat p"
      by auto
    with Some show ?thesis
      by (simp add: read_protocol_from_string_def Let_def)
  qed (simp add: read_protocol_from_string_def Let_def)
  also have "\<dots> \<longleftrightarrow> to_lower_copy text = to_lower_copy (get_ip_protocol_name p)"
    using unat_lt_2p [of p] protocol_name_not_empty [of p] by (auto simp: name_cases_lookup to_lower_copy_def)
  finally show ?thesis
    using protocol_name_not_empty
    by (simp add: iana_cases_enum_cases get_ip_protocol_name_by_number_iana_def get_ip_protocol_name_def)
qed

end
