(* ===== verification/Port_Classifier.thy ===== *)
theory Port_Classifier
  imports Flow_Spec_Types Ordered_Map
begin

text \<open>
  \<^verbatim>\<open>src/actions/gobgp_flowspec_port_classifier.{hpp,cpp}\<close>: which destination ports of a sampled
  attack are worth a FlowSpec rule of their own. The weights are 64-bit counters that saturate;
  the percentage test is done without a 128-bit product. The lemmas relate both to exact
  arithmetic on natural numbers, and the classifier to an abstract statement of its decision.
\<close>

section \<open>Saturating counters and percentages\<close>

definition u64_max :: u64 where
  "u64_max = - 1"

definition saturating_add :: "u64 \<Rightarrow> u64 \<Rightarrow> u64" where
  "saturating_add first second =
     (if u64_max - first < second then u64_max else first + second)"

definition saturating_multiply :: "u64 \<Rightarrow> u64 \<Rightarrow> u64" where
  "saturating_multiply first second =
     (if first \<noteq> 0 \<and> second > u64_max div first then u64_max else first * second)"

definition meets_dominance_percent :: "u64 \<Rightarrow> u64 \<Rightarrow> u8 \<Rightarrow> bool" where
  "meets_dominance_percent numerator denominator percent =
     (if denominator = 0 then False
      else let denominator_hundreds = denominator div 100;
               denominator_remainder = denominator mod 100;
               threshold = denominator_hundreds * ucast percent
                           + (denominator_remainder * ucast percent + 99) div 100
           in numerator \<ge> threshold)"

text \<open>The loop of \<open>calculate_dominance_percent\<close> from a given candidate on.\<close>

function dominance_loop :: "u64 \<Rightarrow> u64 \<Rightarrow> nat \<Rightarrow> u8 \<Rightarrow> u8" where
  "dominance_loop numerator denominator candidate result =
     (if candidate \<le> 100 \<and> meets_dominance_percent numerator denominator (of_nat candidate)
      then dominance_loop numerator denominator (Suc candidate) (of_nat candidate)
      else result)"
  by pat_completeness auto
termination
  by (relation "measure (\<lambda>(n, d, c, r). 101 - c)") auto

declare dominance_loop.simps [simp del]

definition calculate_dominance_percent :: "u64 \<Rightarrow> u64 \<Rightarrow> u8" where
  "calculate_dominance_percent numerator denominator = dominance_loop numerator denominator 1 0"

definition is_tcp_or_udp_attack :: "u32 \<Rightarrow> bool" where
  "is_tcp_or_udp_attack p \<longleftrightarrow> p = ucast TCP \<or> p = ucast UDP"

section \<open>The classifier of the initial ban\<close>

datatype gobgp_flowspec_port_classifier_reason_t =
  selected | port_detection_disabled | not_incoming | unsupported_protocol
| no_qualifying_samples | insufficient_samples | below_dominance | ambiguous_dominant_port

fun get_gobgp_flowspec_port_classifier_reason_name ::
    "gobgp_flowspec_port_classifier_reason_t \<Rightarrow> string" where
  "get_gobgp_flowspec_port_classifier_reason_name selected = ''selected''"
| "get_gobgp_flowspec_port_classifier_reason_name port_detection_disabled = ''disabled''"
| "get_gobgp_flowspec_port_classifier_reason_name not_incoming = ''not_incoming''"
| "get_gobgp_flowspec_port_classifier_reason_name unsupported_protocol = ''unsupported_protocol''"
| "get_gobgp_flowspec_port_classifier_reason_name no_qualifying_samples = ''no_qualifying_samples''"
| "get_gobgp_flowspec_port_classifier_reason_name insufficient_samples = ''insufficient_samples''"
| "get_gobgp_flowspec_port_classifier_reason_name below_dominance = ''below_dominance''"
| "get_gobgp_flowspec_port_classifier_reason_name ambiguous_dominant_port = ''ambiguous_dominant_port''"

record gobgp_flowspec_port_classifier_config_t =
  min_samples :: u64
  config_dominance_percent :: u8

record gobgp_flowspec_port_classifier_result_t =
  selected_destination_port :: "u16 option"
  qualifying_sample_count :: u64
  total_weight :: u64
  dominant_port :: "u16 option"
  dominant_weight :: u64
  dominance_percent :: u8
  reason :: gobgp_flowspec_port_classifier_reason_t

definition classifier_result_default :: gobgp_flowspec_port_classifier_result_t where
  "classifier_result_default =
     \<lparr>selected_destination_port = None, qualifying_sample_count = 0, total_weight = 0,
      dominant_port = None, dominant_weight = 0, dominance_percent = 0,
      reason = no_qualifying_samples\<rparr>"

text \<open>The negation of the guard that skips a packet sample.\<close>

definition packet_qualifies :: "u32 \<Rightarrow> u32 \<Rightarrow> simple_packet_t \<Rightarrow> bool" where
  "packet_qualifies victim_ipv4 wanted_protocol packet \<longleftrightarrow>
     \<not> (ip_protocol_version packet \<noteq> 4 \<or> packet_direction packet \<noteq> INCOMING
        \<or> dst_ip packet \<noteq> victim_ipv4 \<or> protocol packet \<noteq> wanted_protocol
        \<or> destination_port packet = 0
        \<or> (ip_fragmented packet \<and> ip_fragment_offset packet \<noteq> 0))"

text \<open>The counters the sample loop keeps: sample count, total weight, weight per port.\<close>

type_synonym sample_counters = "u64 \<times> u64 \<times> (u16, u64) std_map"

definition packet_weight :: "simple_packet_t \<Rightarrow> u64" where
  "packet_weight packet = saturating_multiply (number_of_packets packet) (ucast (sample_ratio packet))"

definition map_at :: "(u16, u64) std_map \<Rightarrow> u16 \<Rightarrow> u64" where
  "map_at m k = (case map_find m k of Some v \<Rightarrow> v | None \<Rightarrow> 0)"

fun count_sample :: "simple_packet_t \<Rightarrow> sample_counters \<Rightarrow> sample_counters" where
  "count_sample packet (count, total_w, weights) =
     (let weight = packet_weight packet; port = destination_port packet
      in (saturating_add count 1,
          saturating_add total_w weight,
          map_put port (saturating_add (map_at weights port) weight) weights))"

fun count_samples :: "u32 \<Rightarrow> u32 \<Rightarrow> simple_packet_t list \<Rightarrow> sample_counters \<Rightarrow> sample_counters" where
  "count_samples victim_ipv4 wanted_protocol [] c = c"
| "count_samples victim_ipv4 wanted_protocol (packet # samples) c =
     (if packet_qualifies victim_ipv4 wanted_protocol packet
      then count_samples victim_ipv4 wanted_protocol samples (count_sample packet c)
      else count_samples victim_ipv4 wanted_protocol samples c)"

text \<open>The loop over the weights: dominant port, its weight, and whether another port ties.\<close>

fun dominant_scan :: "(u16, u64) std_map \<Rightarrow> u16 option \<times> u64 \<times> bool \<Rightarrow> u16 option \<times> u64 \<times> bool" where
  "dominant_scan [] acc = acc"
| "dominant_scan ((port, weight) # rest) (dominant, best, tied) =
     (if dominant = None \<or> weight > best then dominant_scan rest (Some port, weight, False)
      else if weight = best then dominant_scan rest (dominant, best, True)
      else dominant_scan rest (dominant, best, tied))"

definition classify_gobgp_flowspec_destination_port ::
    "u32 \<Rightarrow> attack_details_t \<Rightarrow> simple_packet_t list \<Rightarrow> gobgp_flowspec_port_classifier_config_t
     \<Rightarrow> gobgp_flowspec_port_classifier_result_t" where
  "classify_gobgp_flowspec_destination_port victim_ipv4 current_attack packet_samples config =
     (let result = classifier_result_default in
      if attack_direction current_attack \<noteq> INCOMING then result\<lparr>reason := not_incoming\<rparr>
      else if \<not> is_tcp_or_udp_attack (attack_protocol current_attack)
        then result\<lparr>reason := unsupported_protocol\<rparr>
      else
        let (count, total_w, weights) =
              count_samples victim_ipv4 (attack_protocol current_attack) packet_samples (0, 0, []);
            result = result\<lparr>qualifying_sample_count := count, total_weight := total_w\<rparr>
        in
        if weights = [] \<or> total_w = 0 then result\<lparr>reason := no_qualifying_samples\<rparr>
        else
          let (dominant, best, tied) = dominant_scan weights (None, 0, False);
              result = result\<lparr>dominant_port := dominant, dominant_weight := best,
                              dominance_percent := calculate_dominance_percent best total_w\<rparr>
          in
          if count < min_samples config then result\<lparr>reason := insufficient_samples\<rparr>
          else if tied then result\<lparr>reason := ambiguous_dominant_port\<rparr>
          else if \<not> meets_dominance_percent best total_w (config_dominance_percent config)
            then result\<lparr>reason := below_dominance\<rparr>
          else result\<lparr>selected_destination_port := dominant, reason := selected\<rparr>)"

section \<open>The classifier of the refresh\<close>

record gobgp_flowspec_refresh_candidate_t =
  candidate_protocol :: ip_protocol_t
  candidate_destination_port :: "u16 option"
  port_classifier_result :: "gobgp_flowspec_port_classifier_result_t option"
  port_weight :: u64
  port_share_percent :: u8

record gobgp_flowspec_refresh_protocol_result_t =
  result_protocol :: ip_protocol_t
  result_qualifying_sample_count :: u64
  result_total_weight :: u64
  result_reason :: gobgp_flowspec_port_classifier_reason_t
  significant_ports :: "gobgp_flowspec_refresh_candidate_t list"

definition refresh_result_default :: "ip_protocol_t \<Rightarrow> gobgp_flowspec_refresh_protocol_result_t" where
  "refresh_result_default p = \<lparr>result_protocol = p, result_qualifying_sample_count = 0,
     result_total_weight = 0, result_reason = no_qualifying_samples, significant_ports = []\<rparr>"

text \<open>The loop that collects the ports with a sufficient share of the total weight.\<close>

fun significant_scan :: "ip_protocol_t \<Rightarrow> u64 \<Rightarrow> u8 \<Rightarrow> (u16, u64) std_map
    \<Rightarrow> gobgp_flowspec_refresh_candidate_t list" where
  "significant_scan p total_w share [] = []"
| "significant_scan p total_w share ((port, weight) # rest) =
     (if \<not> meets_dominance_percent weight total_w share then significant_scan p total_w share rest
      else \<lparr>candidate_protocol = p, candidate_destination_port = Some port,
            port_classifier_result = None, port_weight = weight,
            port_share_percent = calculate_dominance_percent weight total_w\<rparr>
           # significant_scan p total_w share rest)"

definition classify_refresh_protocol ::
    "u32 \<Rightarrow> ip_protocol_t \<Rightarrow> simple_packet_t list \<Rightarrow> gobgp_flowspec_port_classifier_config_t \<Rightarrow> u8
     \<Rightarrow> gobgp_flowspec_refresh_protocol_result_t" where
  "classify_refresh_protocol victim_ipv4 p packet_samples config share =
     (let result = refresh_result_default p in
      if p = ICMP then result\<lparr>result_reason := selected\<rparr>
      else if p \<noteq> TCP \<and> p \<noteq> UDP then result\<lparr>result_reason := unsupported_protocol\<rparr>
      else
        let (count, total_w, weights) =
              count_samples victim_ipv4 (ucast p) packet_samples (0, 0, []);
            result = result\<lparr>result_qualifying_sample_count := count, result_total_weight := total_w\<rparr>
        in
        if weights = [] \<or> total_w = 0 then result\<lparr>result_reason := no_qualifying_samples\<rparr>
        else if count < min_samples config then result\<lparr>result_reason := insufficient_samples\<rparr>
        else
          let ports = significant_scan p total_w share weights
          in result\<lparr>significant_ports := ports,
                    result_reason := (if ports = [] then below_dominance else selected)\<rparr>)"

text \<open>\<^verbatim>\<open>std::set<ip_protocol_t>\<close> is its elements in ascending order.\<close>

definition classify_gobgp_flowspec_refresh_protocols ::
    "u32 \<Rightarrow> ip_protocol_t list \<Rightarrow> simple_packet_t list \<Rightarrow> gobgp_flowspec_port_classifier_config_t
     \<Rightarrow> u8 \<Rightarrow> gobgp_flowspec_refresh_protocol_result_t list" where
  "classify_gobgp_flowspec_refresh_protocols victim_ipv4 active_protocols packet_samples config share =
     map (\<lambda>p. classify_refresh_protocol victim_ipv4 p packet_samples config share) active_protocols"

definition build_gobgp_flowspec_refresh_candidates ::
    "u32 \<Rightarrow> ip_protocol_t list \<Rightarrow> simple_packet_t list \<Rightarrow> gobgp_flowspec_port_classifier_config_t
     \<Rightarrow> gobgp_flowspec_refresh_candidate_t list" where
  "build_gobgp_flowspec_refresh_candidates victim_ipv4 active_protocols packet_samples config =
     concat (map (\<lambda>result.
         if result_protocol result = ICMP
         then [\<lparr>candidate_protocol = result_protocol result, candidate_destination_port = None,
                port_classifier_result = None, port_weight = 0, port_share_percent = 0\<rparr>]
         else significant_ports result)
       (classify_gobgp_flowspec_refresh_protocols victim_ipv4 active_protocols packet_samples
          config (config_dominance_percent config)))"

section \<open>Exact arithmetic\<close>

lemma unat_u64_max: "unat u64_max = 2 ^ 64 - 1"
  by (simp add: u64_max_def unsigned_minus_1_eq_mask mask_eq_exp_minus_1)

lemma le_u64_max [simp]: "x \<le> u64_max"
  by (simp add: u64_max_def)

lemma unat_saturating_add: "unat (saturating_add a b) = min (2 ^ 64 - 1) (unat a + unat b)"
proof -
  have a: "unat a < 2 ^ 64" and b: "unat b < 2 ^ 64"
    using unat_lt_2p [of a] unat_lt_2p [of b] by simp_all
  have sub: "unat (u64_max - a) = 2 ^ 64 - 1 - unat a"
    by (simp add: unat_sub unat_u64_max)
  show ?thesis
  proof (cases "u64_max - a < b")
    case True
    then have "2 ^ 64 - 1 - unat a < unat b"
      by (metis sub word_less_nat_alt)
    with True show ?thesis
      by (simp add: saturating_add_def unat_u64_max)
  next
    case False
    then have "unat b \<le> 2 ^ 64 - 1 - unat a"
      by (metis sub word_less_nat_alt not_less)
    with a have "unat a + unat b < 2 ^ 64"
      by linarith
    with False show ?thesis
      by (simp add: saturating_add_def unat_word_ariths)
  qed
qed

lemma unat_saturating_multiply: "unat (saturating_multiply a b) = min (2 ^ 64 - 1) (unat a * unat b)"
proof (cases "a = 0")
  case True
  then show ?thesis by (simp add: saturating_multiply_def)
next
  case False
  then have pos: "0 < unat a"
    by (simp add: unat_gt_0)
  have q: "unat (u64_max div a) = (2 ^ 64 - 1) div unat a"
    by (simp add: unat_div unat_u64_max)
  show ?thesis
  proof (cases "u64_max div a < b")
    case True
    then have "(2 ^ 64 - 1) div unat a < unat b"
      by (metis q word_less_nat_alt)
    with pos have "2 ^ 64 - 1 < unat a * unat b"
      by (metis div_less_iff_less_mult mult.commute)
    with True False show ?thesis
      by (simp add: saturating_multiply_def unat_u64_max)
  next
    case le: False
    then have "unat b \<le> (2 ^ 64 - 1) div unat a"
      by (metis q word_less_nat_alt not_less)
    with pos have "unat a * unat b \<le> 2 ^ 64 - 1"
      by (metis div_less_iff_less_mult mult.commute not_less)
    with le False show ?thesis
      by (simp add: saturating_multiply_def unat_word_ariths)
  qed
qed

lemma ceil_div_100: "a + (b + 99) div 100 \<le> n \<longleftrightarrow> 100 * a + b \<le> n * (100::nat)"
  by linarith

lemma threshold_bound:
  fixes d p :: nat
  assumes "d < 2 ^ 64" "p \<le> 100"
  shows "d div 100 * p + (d mod 100 * p + 99) div 100 < 2 ^ 64"
proof -
  have "d div 100 * p \<le> d div 100 * 100" "d mod 100 * p \<le> d mod 100 * 100"
    using assms(2) by (simp_all add: mult_le_mono2)
  moreover have "(d mod 100 * p + 99) div 100 \<le> d mod 100"
    using calculation(2) by linarith
  ultimately have "d div 100 * p + (d mod 100 * p + 99) div 100 \<le> d div 100 * 100 + d mod 100"
    by linarith
  also have "\<dots> = d" by simp
  finally show ?thesis using assms(1) by linarith
qed

lemma meets_dominance_percent_iff:
  assumes "unat percent \<le> 100" "denominator \<noteq> 0"
  shows "meets_dominance_percent numerator denominator percent \<longleftrightarrow>
     unat numerator * 100 \<ge> unat denominator * unat percent"
proof -
  let ?d = "unat denominator" and ?p = "unat percent"
  have d: "?d < 2 ^ 64" using unat_lt_2p [of denominator] by simp
  have p: "unat (ucast percent :: u64) = ?p"
    by (simp add: unat_ucast_up)
  note bound = threshold_bound [OF d assms(1)]
  have h: "unat (denominator div 100) = ?d div 100"
    by (simp add: unat_div)
  have r: "unat (denominator mod 100) = ?d mod 100"
    by (simp add: unat_mod)
  have r100: "?d mod 100 * ?p + 99 < 2 ^ 64"
  proof -
    have "?d mod 100 \<le> 100" by (simp add: order_less_imp_le)
    with assms(1) have "?d mod 100 * ?p \<le> 100 * 100" by (rule_tac mult_le_mono) simp_all
    then show ?thesis by simp
  qed
  have e1: "unat (denominator mod 100 * ucast percent + 99) = ?d mod 100 * ?p + 99"
    using r100 by (simp add: unat_word_ariths r p)
  have e2: "unat ((denominator mod 100 * ucast percent + 99) div 100) = (?d mod 100 * ?p + 99) div 100"
    by (simp add: unat_div e1)
  have e3: "unat (denominator div 100 * ucast percent) = ?d div 100 * ?p"
    using bound by (simp add: unat_word_ariths(2) h p)
  have t: "unat (denominator div 100 * ucast percent
      + (denominator mod 100 * ucast percent + 99) div 100)
    = ?d div 100 * ?p + (?d mod 100 * ?p + 99) div 100"
    using bound by (simp add: unat_word_ariths(1) e2 e3)
  have "meets_dominance_percent numerator denominator percent \<longleftrightarrow>
      unat numerator \<ge> ?d div 100 * ?p + (?d mod 100 * ?p + 99) div 100"
    using assms(2) by (simp add: meets_dominance_percent_def Let_def word_le_nat_alt t)
  also have "\<dots> \<longleftrightarrow> unat numerator * 100 \<ge> 100 * (?d div 100 * ?p) + ?d mod 100 * ?p"
    by (rule ceil_div_100)
  also have "100 * (?d div 100 * ?p) + ?d mod 100 * ?p = ?d * ?p"
    by (metis add_mult_distrib mult.assoc mult_div_mod_eq)
  finally show ?thesis .
qed


lemma dominance_loop_spec:
  assumes "den \<noteq> 0" "1 \<le> c" "c \<le> 101" "res = of_nat (c - 1)"
    and "\<forall>k. 1 \<le> k \<and> k < c \<longrightarrow> unat den * k \<le> unat num * 100"
  shows "unat (dominance_loop num den c res) = min 100 (unat num * 100 div unat den)"
  using assms
proof (induction num den c res rule: dominance_loop.induct)
  case (1 num den c res)
  have pos: "0 < unat den" using 1(2) by (simp add: unat_gt_0)
  have q: "unat den * k \<le> unat num * 100 \<longleftrightarrow> k \<le> unat num * 100 div unat den" for k
    using pos by (simp add: less_eq_div_iff_mult_less_eq mult.commute)
  show ?case
  proof (cases "c \<le> 100 \<and> meets_dominance_percent num den (of_nat c)")
    case True
    have "unat (of_nat c :: u8) = c"
      using True by (simp add: unsigned_of_nat take_bit_nat_eq_self)
    with True 1(2) have "unat den * c \<le> unat num * 100"
      using meets_dominance_percent_iff [of "of_nat c" den num] by simp
    then have "unat (dominance_loop num den (Suc c) (of_nat c)) = min 100 (unat num * 100 div unat den)"
      using 1(2,3,6) True by (intro 1(1)) (auto simp: less_Suc_eq)
    with True show ?thesis by (simp add: dominance_loop.simps [of num den c res])
  next
    case False
    have res: "unat res = c - 1"
      using 1(4,5) by (simp add: unsigned_of_nat take_bit_nat_eq_self)
    have le: "c - 1 \<le> unat num * 100 div unat den"
    proof (cases "c = 1")
      case True then show ?thesis by simp
    next
      case c: False
      then show ?thesis using 1(3,6) q [of "c - 1"] by auto
    qed
    show ?thesis
    proof (cases "c \<le> 100")
      case c: True
      have "unat (of_nat c :: u8) = c"
        using c by (simp add: unsigned_of_nat take_bit_nat_eq_self)
      with False c have "\<not> unat den * c \<le> unat num * 100"
        using meets_dominance_percent_iff [of "of_nat c" den num] 1(2) by simp
      then have "unat num * 100 div unat den < c"
        by (simp add: q)
      with le res c 1(3) False show ?thesis
        by (simp add: dominance_loop.simps [of num den c res])
    next
      case c: False
      with le res 1(4) False show ?thesis
        by (simp add: dominance_loop.simps [of num den c res])
    qed
  qed
qed

lemma calculate_dominance_percent_eq:
  "denominator \<noteq> 0 \<Longrightarrow>
     unat (calculate_dominance_percent numerator denominator)
       = min 100 (unat numerator * 100 div unat denominator)"
  unfolding calculate_dominance_percent_def by (rule dominance_loop_spec) auto

section \<open>What the sample loop counts\<close>

text \<open>The samples that count for an attack, and their weights over the natural numbers.\<close>

definition qualifying :: "u32 \<Rightarrow> u32 \<Rightarrow> simple_packet_t list \<Rightarrow> simple_packet_t list" where
  "qualifying victim p samples = filter (packet_qualifies victim p) samples"

definition exact_weight :: "simple_packet_t list \<Rightarrow> nat" where
  "exact_weight qs = (\<Sum>x\<leftarrow>qs. unat (number_of_packets x) * unat (sample_ratio x))"

definition exact_port_weight :: "simple_packet_t list \<Rightarrow> u16 \<Rightarrow> nat" where
  "exact_port_weight qs port = exact_weight (filter (\<lambda>x. destination_port x = port) qs)"

definition sample_ports :: "simple_packet_t list \<Rightarrow> u16 set" where
  "sample_ports qs = destination_port ` set qs"

lemma qualifying_simps [simp]:
  "qualifying v p [] = []"
  "qualifying v p (x # xs) = (if packet_qualifies v p x then x # qualifying v p xs else qualifying v p xs)"
  by (simp_all add: qualifying_def)

lemma exact_weight_simps [simp]:
  "exact_weight [] = 0"
  "exact_weight (x # xs) = unat (number_of_packets x) * unat (sample_ratio x) + exact_weight xs"
  by (simp_all add: exact_weight_def)

lemma exact_port_weight_simps [simp]:
  "exact_port_weight [] k = 0"
  "exact_port_weight (x # xs) k =
     (if destination_port x = k then unat (number_of_packets x) * unat (sample_ratio x) else 0)
     + exact_port_weight xs k"
  by (simp_all add: exact_port_weight_def)

lemma sample_ports_simps [simp]:
  "sample_ports [] = {}"
  "sample_ports (x # xs) = insert (destination_port x) (sample_ports xs)"
  by (simp_all add: sample_ports_def)

lemma exact_port_weight_le: "exact_port_weight qs k \<le> exact_weight qs"
  by (induction qs) auto

lemma unat_packet_weight:
  "unat (packet_weight x) = min (2 ^ 64 - 1) (unat (number_of_packets x) * unat (sample_ratio x))"
  by (simp add: packet_weight_def unat_saturating_multiply unat_ucast_up)

lemma map_at_put: "ordered m \<Longrightarrow> map_at (map_put k v m) k' = (if k' = k then v else map_at m k')"
  by (simp add: map_at_def map_find_put)

text \<open>The counters after the samples \<open>qs\<close>: every one is the exact value, capped.\<close>

fun counts :: "simple_packet_t list \<Rightarrow> sample_counters \<Rightarrow> bool" where
  "counts qs (c, t, m) \<longleftrightarrow>
     unat c = min (2 ^ 64 - 1) (length qs) \<and> unat t = min (2 ^ 64 - 1) (exact_weight qs)
     \<and> ordered m \<and> (\<forall>k. map_find m k \<noteq> None \<longleftrightarrow> k \<in> sample_ports qs)
     \<and> (\<forall>k. unat (map_at m k) = min (2 ^ 64 - 1) (exact_port_weight qs k))"

lemma min_cap: "min M (min M a + min M b) = min M (a + b)" for a b M :: nat
  by simp

lemma weights_append [simp]:
  "exact_weight (xs @ ys) = exact_weight xs + exact_weight ys"
  "exact_port_weight (xs @ ys) k = exact_port_weight xs k + exact_port_weight ys k"
  "sample_ports (xs @ ys) = sample_ports xs \<union> sample_ports ys"
  by (auto simp: exact_weight_def exact_port_weight_def sample_ports_def)

lemma counts_step: "counts qs st \<Longrightarrow> counts (qs @ [x]) (count_sample x st)"
proof -
  assume st: "counts qs st"
  obtain c t m where eq: "st = (c, t, m)" by (cases st) auto
  have w: "unat (packet_weight x) = min (2 ^ 64 - 1) (exact_weight [x])"
    by (simp add: unat_packet_weight)
  have "unat (saturating_add c 1) = min (2 ^ 64 - 1) (length (qs @ [x]))"
    using st by (simp add: eq unat_saturating_add)
  moreover have "unat (saturating_add t (packet_weight x)) = min (2 ^ 64 - 1) (exact_weight (qs @ [x]))"
    using st by (simp only: eq counts.simps unat_saturating_add w min_cap weights_append)
  moreover have "unat (map_at (map_put (destination_port x)
        (saturating_add (map_at m (destination_port x)) (packet_weight x)) m) k)
      = min (2 ^ 64 - 1) (exact_port_weight (qs @ [x]) k)" for k
    using st by (auto simp add: eq map_at_put unat_saturating_add w min_cap)
  ultimately show ?thesis
    using st by (simp add: eq Let_def map_find_put ordered_map_put)
qed

lemma counts_loop: "counts qs st \<Longrightarrow> counts (qs @ qualifying v p samples) (count_samples v p samples st)"
proof (induction samples arbitrary: qs st)
  case (Cons x xs)
  show ?case
  proof (cases "packet_qualifies v p x")
    case True
    with Cons.IH [OF counts_step [OF Cons.prems, of x]] show ?thesis by simp
  next
    case False
    with Cons.IH [OF Cons.prems] show ?thesis by simp
  qed
qed simp

lemma count_samples_counts:
  "count_samples v p samples (0, 0, []) = (c, t, m) \<Longrightarrow> counts (qualifying v p samples) (c, t, m)"
  using counts_loop [of "[]" "(0, 0, [])" v p samples] by (simp add: map_at_def)

lemma counts_find:
  assumes "counts qs (c, t, m)"
  shows "map_find m k = Some w \<longleftrightarrow> k \<in> sample_ports qs \<and> w = map_at m k"
proof -
  have "map_find m k \<noteq> None \<longleftrightarrow> k \<in> sample_ports qs"
    using assms by simp
  then show ?thesis
    by (cases "map_find m k") (auto simp: map_at_def)
qed

section \<open>The dominant port\<close>

fun scanned :: "(u16, u64) std_map \<Rightarrow> u16 option \<times> u64 \<times> bool \<Rightarrow> bool" where
  "scanned pre (None, best, tied) \<longleftrightarrow> pre = [] \<and> \<not> tied"
| "scanned pre (Some port, best, tied) \<longleftrightarrow> (port, best) \<in> set pre
     \<and> (\<forall>e \<in> set pre. snd e \<le> best) \<and> (tied \<longleftrightarrow> (\<exists>q. q \<noteq> port \<and> (q, best) \<in> set pre))"

lemma dominant_scan_spec:
  "scanned pre acc \<Longrightarrow> distinct (map fst (pre @ m)) \<Longrightarrow> scanned (pre @ m) (dominant_scan m acc)"
proof (induction m acc arbitrary: pre rule: dominant_scan.induct)
  case (2 port weight rest dominant best tied)
  have d: "distinct (map fst ((pre @ [(port, weight)]) @ rest))" using 2(5) by simp
  have new: "(port, w) \<notin> set pre" for w using 2(5) by force
  consider (first) "dominant = None" | (more) p where "dominant = Some p" "best < weight"
    | (tie) p where "dominant = Some p" "weight = best" | (less) p where "dominant = Some p" "weight < best"
    by (metis not_None_eq neqE)
  then show ?case
  proof cases
    case first
    with 2(4) have "scanned (pre @ [(port, weight)]) (Some port, weight, False)" by simp
    from 2(1) [OF _ this d] first show ?thesis by simp
  next
    case more
    with 2(4) have "scanned (pre @ [(port, weight)]) (Some port, weight, False)" by fastforce
    from 2(1) [OF _ this d] more show ?thesis by simp
  next
    case tie
    with 2(4) new have "port \<noteq> p" by auto
    with tie 2(4) have inv: "scanned (pre @ [(port, weight)]) (dominant, best, True)" by auto
    have g: "\<not> (dominant = None \<or> best < weight)" "weight = best" using tie by auto
    from 2(2) [OF g inv d] g show ?thesis by auto
  next
    case less
    with 2(4) have inv: "scanned (pre @ [(port, weight)]) (dominant, best, tied)" by auto
    have g: "\<not> (dominant = None \<or> best < weight)" "weight \<noteq> best" using less by auto
    from 2(3) [OF g inv d] g show ?thesis by auto
  qed
qed simp

lemma dominant_scan_map:
  assumes "ordered m" "m \<noteq> []" "dominant_scan m (None, 0, False) = (dominant, best, tied)"
  shows "\<exists>port. dominant = Some port \<and> map_find m port = Some best
     \<and> (\<forall>q w. map_find m q = Some w \<longrightarrow> w \<le> best)
     \<and> (tied \<longleftrightarrow> (\<exists>q. q \<noteq> port \<and> map_find m q = Some best))"
proof -
  have "scanned m (dominant, best, tied)"
    using dominant_scan_spec [of "[]" "(None, 0, False)" m] assms std.distinct_keys [of m] by simp
  with assms(1,2) show ?thesis
    by (cases dominant) (auto simp: ordered_find_mem [symmetric])
qed

section \<open>What the classifier decides\<close>

definition unsaturated :: "simple_packet_t list \<Rightarrow> bool" where
  "unsaturated qs \<longleftrightarrow> length qs < 2 ^ 64 \<and> exact_weight qs < 2 ^ 64"

lemma counts_unsaturated:
  assumes "counts qs (c, t, m)" "unsaturated qs"
  shows "unat c = length qs" "unat t = exact_weight qs" "unat (map_at m k) = exact_port_weight qs k"
  using assms exact_port_weight_le [of qs k] by (auto simp: unsaturated_def)

text \<open>The port the classifier should select, stated over exact weights.\<close>

definition dominates :: "gobgp_flowspec_port_classifier_config_t \<Rightarrow> simple_packet_t list \<Rightarrow> u16 \<Rightarrow> bool" where
  "dominates config qs port \<longleftrightarrow>
     unat (min_samples config) \<le> length qs \<and> 0 < exact_weight qs \<and> port \<in> sample_ports qs
     \<and> (\<forall>q \<in> sample_ports qs. q \<noteq> port \<longrightarrow> exact_port_weight qs q < exact_port_weight qs port)
     \<and> exact_weight qs * unat (config_dominance_percent config) \<le> exact_port_weight qs port * 100"

lemma classify_on_counts:
  assumes cnt: "counts qs (c, t, m)" and uns: "unsaturated qs"
    and pc: "unat (config_dominance_percent config) \<le> 100"
    and ne: "m \<noteq> []" "t \<noteq> 0"
    and scan: "dominant_scan m (None, 0, False) = (dominant, best, tied)"
  shows "dominant = Some port \<and> \<not> c < min_samples config \<and> \<not> tied
      \<and> meets_dominance_percent best t (config_dominance_percent config)
    \<longleftrightarrow> dominates config qs port"
proof -
  note exact = counts_unsaturated [OF cnt uns]
  have om: "ordered m" using cnt by simp
  obtain d where d: "dominant = Some d" "map_find m d = Some best"
      "\<And>q w. map_find m q = Some w \<Longrightarrow> w \<le> best"
      "tied \<longleftrightarrow> (\<exists>q. q \<noteq> d \<and> map_find m q = Some best)"
    using dominant_scan_map [OF om ne(1) scan] by blast
  have best: "best = map_at m d" "d \<in> sample_ports qs"
    using d(2) counts_find [OF cnt] by auto
  have max: "exact_port_weight qs q \<le> exact_port_weight qs d" if "q \<in> sample_ports qs" for q
    using d(3) [of q "map_at m q"] counts_find [OF cnt] that best
    by (simp add: word_le_nat_alt exact(3))
  have tie: "tied \<longleftrightarrow> (\<exists>q \<in> sample_ports qs. q \<noteq> d \<and> exact_port_weight qs q = exact_port_weight qs d)"
    using counts_find [OF cnt] d(4) by (auto simp: best word_unat_eq_iff exact(3))
  have small: "c < min_samples config \<longleftrightarrow> length qs < unat (min_samples config)"
    by (simp add: word_less_nat_alt exact(1))
  have meets: "meets_dominance_percent best t (config_dominance_percent config)
      \<longleftrightarrow> exact_weight qs * unat (config_dominance_percent config) \<le> exact_port_weight qs d * 100"
    using meets_dominance_percent_iff [OF pc ne(2)] by (simp add: exact best(1))
  have pos: "0 < exact_weight qs" using ne(2) exact(2) by (metis gr0I unat_eq_zero)
  show ?thesis
  proof (cases "port = d")
    case True
    have "\<not> tied \<longleftrightarrow> (\<forall>q \<in> sample_ports qs. q \<noteq> d \<longrightarrow> exact_port_weight qs q < exact_port_weight qs d)"
      using max tie by (metis le_neq_implies_less less_irrefl)
    with True d(1) best(2) pos show ?thesis
      by (simp add: dominates_def small meets not_less)
  next
    case False
    with d(1) max [of port] best(2) show ?thesis
      by (auto simp: dominates_def not_less [symmetric])
  qed
qed

lemma classifier_selects_iff:
  assumes "unsaturated (qualifying victim (attack_protocol attack) samples)"
    and "unat (config_dominance_percent config) \<le> 100"
  shows "selected_destination_port
      (classify_gobgp_flowspec_destination_port victim attack samples config) = Some port
    \<longleftrightarrow> attack_direction attack = INCOMING \<and> is_tcp_or_udp_attack (attack_protocol attack)
       \<and> dominates config (qualifying victim (attack_protocol attack) samples) port"
proof -
  let ?qs = "qualifying victim (attack_protocol attack) samples"
  obtain c t m where cs: "count_samples victim (attack_protocol attack) samples (0, 0, []) = (c, t, m)"
    by (metis prod_cases3)
  obtain d b td where sc: "dominant_scan m (None, 0, False) = (d, b, td)"
    by (metis prod_cases3)
  note cnt = count_samples_counts [OF cs]
  have empty: "m = [] \<Longrightarrow> sample_ports ?qs = {}"
    using counts_find [OF cnt] by fastforce
  have zero: "t = 0 \<Longrightarrow> exact_weight ?qs = 0"
    using counts_unsaturated(2) [OF cnt assms(1)] by simp
  show ?thesis
  proof (cases "m = [] \<or> t = 0")
    case True
    then have "\<not> dominates config ?qs port"
      using empty zero by (auto simp: dominates_def)
    with True show ?thesis
      by (auto simp: classify_gobgp_flowspec_destination_port_def Let_def cs classifier_result_default_def)
  next
    case False
    then show ?thesis
      using classify_on_counts [OF cnt assms _ _ sc, of port]
      by (auto simp: classify_gobgp_flowspec_destination_port_def Let_def cs sc classifier_result_default_def)
  qed
qed


section \<open>The ports of a refresh\<close>

lemma significant_scan_ports:
  "map candidate_destination_port (significant_scan p t share m) =
     map (\<lambda>e. Some (fst e)) (filter (\<lambda>e. meets_dominance_percent (snd e) t share) m)"
  by (induction p t share m rule: significant_scan.induct) auto

lemma significant_scan_mem:
  "x \<in> set (significant_scan p t share m) \<Longrightarrow> candidate_protocol x = p \<and>
     (\<exists>k w. (k, w) \<in> set m \<and> candidate_destination_port x = Some k \<and> port_weight x = w
        \<and> port_share_percent x = calculate_dominance_percent w t)"
  by (induction p t share m rule: significant_scan.induct) (auto split: if_splits)

definition refresh_ports :: "gobgp_flowspec_refresh_protocol_result_t \<Rightarrow> u16 list" where
  "refresh_ports r = map (\<lambda>c. the (candidate_destination_port c)) (significant_ports r)"

lemma refresh_ports_scan:
  "map (\<lambda>c. the (candidate_destination_port c)) (significant_scan p t share m) =
     map fst (filter (\<lambda>e. meets_dominance_percent (snd e) t share) m)"
  by (induction p t share m rule: significant_scan.induct) auto

lemma sum_exact_port_weight:
  "finite K \<Longrightarrow> (\<Sum>k\<in>K. exact_port_weight qs k) \<le> exact_weight qs"
proof (induction qs)
  case (Cons x xs)
  let ?w = "unat (number_of_packets x) * unat (sample_ratio x)"
  have "(\<Sum>k\<in>K. exact_port_weight (x # xs) k)
      = (\<Sum>k\<in>K. if destination_port x = k then ?w else 0) + (\<Sum>k\<in>K. exact_port_weight xs k)"
    by (simp add: sum.distrib)
  also have "(\<Sum>k\<in>K. if destination_port x = k then ?w else 0) \<le> ?w"
    using Cons.prems by (simp add: sum.delta')
  finally show ?case using Cons by simp
qed simp

text \<open>The ports a refresh should add rules for, over exact weights.\<close>

definition significant :: "gobgp_flowspec_port_classifier_config_t \<Rightarrow> u8 \<Rightarrow> simple_packet_t list \<Rightarrow> u16 \<Rightarrow> bool" where
  "significant config share qs port \<longleftrightarrow>
     unat (min_samples config) \<le> length qs \<and> 0 < exact_weight qs \<and> port \<in> sample_ports qs
     \<and> exact_weight qs * unat share \<le> exact_port_weight qs port * 100"

lemma refresh_ports_spec:
  assumes "p = TCP \<or> p = UDP" "unsaturated (qualifying victim (ucast p) samples)" "unat share \<le> 100"
  shows "sorted_wrt (<) (refresh_ports (classify_refresh_protocol victim p samples config share))"
    and "set (refresh_ports (classify_refresh_protocol victim p samples config share))
      = {port. significant config share (qualifying victim (ucast p) samples) port}"
proof -
  let ?r = "classify_refresh_protocol victim p samples config share"
  let ?qs = "qualifying victim (ucast p) samples"
  obtain c t m where cs: "count_samples victim (ucast p) samples (0, 0, []) = (c, t, m)"
    by (metis prod_cases3)
  note cnt = count_samples_counts [OF cs]
  note exact = counts_unsaturated [OF cnt assms(2)]
  have om: "ordered m" using cnt by simp
  have np: "p \<noteq> ICMP" using assms(1) by (auto simp: protocol_defs)
  have small: "c < min_samples config \<longleftrightarrow> length ?qs < unat (min_samples config)"
    by (simp add: word_less_nat_alt exact(1))
  have rp: "refresh_ports ?r = (if m = [] \<or> t = 0 \<or> c < min_samples config then []
      else map fst (filter (\<lambda>e. meets_dominance_percent (snd e) t share) m))"
    using assms(1) np
    by (auto simp: refresh_ports_def classify_refresh_protocol_def Let_def cs
        refresh_result_default_def refresh_ports_scan)
  show "sorted_wrt (<) (refresh_ports ?r)"
    using om by (auto simp: rp ordered_def sorted_wrt_map sorted_wrt_filter)
  have mem: "port \<in> fst ` set (filter (\<lambda>e. meets_dominance_percent (snd e) t share) m) \<longleftrightarrow>
      port \<in> sample_ports ?qs \<and> exact_weight ?qs * unat share \<le> exact_port_weight ?qs port * 100"
    if "t \<noteq> 0" for port
    using counts_find [OF cnt] meets_dominance_percent_iff [OF assms(3) that]
    by (force simp: image_iff ordered_find_mem [OF om] exact)
  have empty: "m = [] \<Longrightarrow> sample_ports ?qs = {}"
    using counts_find [OF cnt] by fastforce
  have zero: "t = 0 \<longleftrightarrow> exact_weight ?qs = 0"
    using exact(2) by (metis unat_eq_zero unat_0)
  show "set (refresh_ports ?r) = {port. significant config share ?qs port}"
  proof (cases "m = [] \<or> t = 0 \<or> c < min_samples config")
    case True
    then show ?thesis using empty zero small by (auto simp: rp significant_def)
  next
    case False
    then have "0 < exact_weight ?qs" "unat (min_samples config) \<le> length ?qs"
      using zero small by auto
    with False mem show ?thesis by (auto simp: rp significant_def)
  qed
qed

lemma refresh_ports_count:
  assumes "p = TCP \<or> p = UDP" "unsaturated (qualifying victim (ucast p) samples)" "unat share \<le> 100"
  shows "length (significant_ports (classify_refresh_protocol victim p samples config share))
    * unat share \<le> 100"
proof -
  let ?qs = "qualifying victim (ucast p) samples"
  let ?ps = "refresh_ports (classify_refresh_protocol victim p samples config share)"
  note ex = refresh_ports_spec [OF assms, where config = config]
  have dist: "distinct ?ps" using ex(1) strict_sorted_iff by blast
  have w: "exact_weight ?qs * unat share \<le> exact_port_weight ?qs k * 100" if "k \<in> set ?ps" for k
    using that by (simp add: ex(2) significant_def)
  show ?thesis
  proof (cases "?ps = []")
    case True then show ?thesis by (simp add: refresh_ports_def)
  next
    case False
    then obtain k where "k \<in> set ?ps" by (meson last_in_set)
    then have pos: "0 < exact_weight ?qs" by (simp add: ex(2) significant_def)
    have "length ?ps * (exact_weight ?qs * unat share) = (\<Sum>k\<in>set ?ps. exact_weight ?qs * unat share)"
      using distinct_card [OF dist] by simp
    also have "\<dots> \<le> (\<Sum>k\<in>set ?ps. exact_port_weight ?qs k * 100)"
      by (rule sum_mono) (rule w)
    also have "\<dots> = (\<Sum>k\<in>set ?ps. exact_port_weight ?qs k) * 100"
      by (simp add: sum_distrib_right)
    also have "\<dots> \<le> exact_weight ?qs * 100"
      using sum_exact_port_weight [of "set ?ps" ?qs] by simp
    finally have "exact_weight ?qs * (length ?ps * unat share) \<le> exact_weight ?qs * 100"
      by (simp add: mult_ac)
    with pos have "length ?ps * unat share \<le> 100" by simp
    then show ?thesis by (simp add: refresh_ports_def)
  qed
qed

section \<open>Properties\<close>

definition sample_tcp :: "u16 \<Rightarrow> u64 \<Rightarrow> simple_packet_t" where
  "sample_tcp port n = simple_packet_default\<lparr>dst_ip := 0x0A0A0A0A, protocol := 6, destination_port := port,
     number_of_packets := n, sample_ratio := 10, packet_direction := INCOMING\<rparr>"

text \<open>
  The percentage test that avoids a 128-bit product decides exactly \<open>numerator * 100
  \<ge> denominator * percent\<close> over the natural numbers, for every percentage up to 100
  and every non-zero denominator.
\<close>

lemma dominance_test_exact:
  assumes "unat percent \<le> 100" "denominator \<noteq> 0"
  shows "meets_dominance_percent numerator denominator percent \<longleftrightarrow>
     unat denominator * unat percent \<le> unat numerator * 100"
  by (rule meets_dominance_percent_iff [OF assms])

text \<open>
  The loop that reports a dominance percentage terminates with the integer percentage of
  the weight, capped at 100.
\<close>

lemma dominance_percent_exact:
  assumes "denominator \<noteq> 0"
  shows "unat (calculate_dominance_percent numerator denominator)
    = min 100 (unat numerator * 100 div unat denominator)"
  by (rule calculate_dominance_percent_eq [OF assms])

theorem dominance_percent_exact_witness:
  "unat (calculate_dominance_percent 7 9) = min 100 (unat (7 :: u64) * 100 div unat (9 :: u64))"
  by (rule dominance_percent_exact) simp

text \<open>
  C32. The initial-ban classifier selects a destination port exactly when the attack is an
  incoming TCP or UDP attack, enough samples qualify, the port outweighs every other port
  strictly, and its share reaches the configured percentage of the exact total weight.
\<close>

theorem classifier_selects_dominant_port:
  assumes "unsaturated (qualifying victim (attack_protocol attack) samples)"
    and "unat (config_dominance_percent config) \<le> 100"
  shows "selected_destination_port
      (classify_gobgp_flowspec_destination_port victim attack samples config) = Some port
    \<longleftrightarrow> attack_direction attack = INCOMING \<and> is_tcp_or_udp_attack (attack_protocol attack)
       \<and> dominates config (qualifying victim (attack_protocol attack) samples) port"
  by (rule classifier_selects_iff [OF assms])

theorem classifier_selects_dominant_port_witness:
  "selected_destination_port
     (classify_gobgp_flowspec_destination_port 0x0A0A0A0A
        (attack_details_default\<lparr>attack_direction := INCOMING, attack_protocol := 6\<rparr>)
        [sample_tcp 80 7, sample_tcp 443 2, sample_tcp 80 1]
        \<lparr>min_samples = 3, config_dominance_percent = 70\<rparr>) = Some 80"
proof -
  let ?s = "[sample_tcp 80 7, sample_tcp 443 2, sample_tcp 80 1]"
  let ?a = "attack_details_default\<lparr>attack_direction := INCOMING, attack_protocol := 6\<rparr>"
  let ?c = "\<lparr>min_samples = 3, config_dominance_percent = 70\<rparr> :: gobgp_flowspec_port_classifier_config_t"
  have q: "qualifying 0x0A0A0A0A 6 ?s = ?s"
    by (simp add: sample_tcp_def packet_qualifies_def simple_packet_default_def)
  have u: "unsaturated (qualifying 0x0A0A0A0A (attack_protocol ?a) ?s)"
    by (simp add: q unsaturated_def sample_tcp_def)
  have "dominates ?c ?s 80"
    by (simp add: dominates_def sample_tcp_def)
  then show ?thesis
    using classifier_selects_dominant_port [OF u, of ?c 80] q
    by (simp add: is_tcp_or_udp_attack_def TCP_def)
qed

text \<open>
  For TCP and UDP the refresh returns, in ascending order and without repetition, exactly
  the ports whose share of the exact weight reaches the configured minimum.
\<close>

lemma refresh_selects_significant_ports:
  assumes "p = TCP \<or> p = UDP" "unsaturated (qualifying victim (ucast p) samples)" "unat share \<le> 100"
  shows "sorted_wrt (<) (refresh_ports (classify_refresh_protocol victim p samples config share))
    \<and> set (refresh_ports (classify_refresh_protocol victim p samples config share))
      = {port. significant config share (qualifying victim (ucast p) samples) port}"
  using refresh_ports_spec [OF assms] by blast

theorem refresh_selects_significant_ports_witness:
  "443 \<in> set (refresh_ports (classify_refresh_protocol 0x0A0A0A0A TCP
       [sample_tcp 80 7, sample_tcp 443 3] \<lparr>min_samples = 2, config_dominance_percent = 70\<rparr> 20))"
proof -
  let ?s = "[sample_tcp 80 7, sample_tcp 443 3]"
  let ?c = "\<lparr>min_samples = 2, config_dominance_percent = 70\<rparr> :: gobgp_flowspec_port_classifier_config_t"
  have q: "qualifying 0x0A0A0A0A (ucast TCP) ?s = ?s"
    by (simp add: sample_tcp_def packet_qualifies_def simple_packet_default_def TCP_def)
  have u: "unsaturated (qualifying 0x0A0A0A0A (ucast TCP) ?s)"
    by (simp only: q) (simp add: unsaturated_def sample_tcp_def)
  have "significant ?c 20 ?s 443"
    by (simp add: significant_def sample_tcp_def)
  then show ?thesis
    using refresh_selects_significant_ports [OF _ u, of 20 ?c] q by simp
qed

text \<open>
  A refresh never finds more ports than fit into one hundred percent at the minimum share
  (at most five at the default of 20).
\<close>

lemma refresh_port_count_bounded:
  assumes "p = TCP \<or> p = UDP" "unsaturated (qualifying victim (ucast p) samples)" "unat share \<le> 100"
  shows "length (significant_ports (classify_refresh_protocol victim p samples config share))
    * unat share \<le> 100"
  by (rule refresh_ports_count [OF assms])

text \<open>
  The sample counters never wrap: after any list of samples the count, the total weight and
  the weight of every port are the exact values capped at the largest 64-bit integer.
\<close>

lemma sample_counters_saturate:
  "counts (qualifying victim p samples) (count_samples victim p samples (0, 0, []))"
  using count_samples_counts [of victim p samples] by (metis prod_cases3)

end
