(* ===== verification/Gobgp_Format.thy ===== *)
theory Gobgp_Format
  imports Ip_Text Ip_Protocols Port_Classifier Lifecycle Bgp_Protocol
begin

text \<open>
  The texts of \<^verbatim>\<open>src/actions/gobgp_log_formatter.cpp\<close> and
  \<^verbatim>\<open>src/actions/gobgp_flowspec_notification_formatter.cpp\<close>: how rules, routes and path identifiers
  appear in the log and in the reports handed to the notification script.
\<close>

section \<open>Log texts\<close>

definition format_value_list :: "('a \<Rightarrow> string) \<Rightarrow> 'a list \<Rightarrow> string" where
  "format_value_list formatter vs =
     (if length vs > 1 then ''['' else []) @ join '','' (map formatter vs) @ (if length vs > 1 then '']'' else [])"

definition format_bgp_communities :: "bgp_community_attribute_element_t list \<Rightarrow> string" where
  "format_bgp_communities communities =
     format_value_list (\<lambda>c. dec_string (unat (asn_number c)) @ '':'' @ dec_string (unat (community_number c)))
       communities"

definition format_gobgp_uuid_as_hex :: "string \<Rightarrow> string" where
  "format_gobgp_uuid_as_hex uuid = ''uuid=hex:'' @ concat (map (\<lambda>c. hex2 (of_nat (of_char c))) uuid)"

text \<open>The last part of the text of a rule: what happens to the matched packets.\<close>

definition format_rule_action :: "flow_spec_rule_t \<Rightarrow> string" where
  "format_rule_action r =
     (if action_type (action r) = FLOW_SPEC_ACTION_DISCARD then '' action=discard''
      else if action_type (action r) = FLOW_SPEC_ACTION_REDIRECT_VRF
      then '' redirect_rt='' @ dec_string (unat (redirect_rt_as (action r))) @ '':''
           @ dec_string (unat (redirect_rt_value (action r)))
      else '' redirect='' @
           (if ipv4_nexthops r = [] then ''<missing>''
            else format_value_list convert_ip_as_uint_to_string (ipv4_nexthops r)))"

definition format_gobgp_flowspec_rule :: "flow_spec_rule_t \<Rightarrow> string" where
  "format_gobgp_flowspec_rule r =
     ''dst='' @
     (if destination_subnet_ipv4_used r
      then convert_ip_as_uint_to_string (subnet_address (destination_subnet_ipv4 r)) @ ''/''
           @ dec_string (unat (cidr_prefix_length (destination_subnet_ipv4 r)))
      else ''<missing>'') @
     '' protocol='' @
     (if protocols r = [] then ''ANY'' else format_value_list get_ip_protocol_name (protocols r)) @
     (if destination_ports r \<noteq> []
      then '' dst_port='' @ format_value_list (dec_string \<circ> unat) (destination_ports r) else []) @
     format_rule_action r"

definition format_gobgp_ipv4_unicast_route :: "IPv4UnicastAnnounce \<Rightarrow> string" where
  "format_gobgp_ipv4_unicast_route a =
     ''prefix='' @ convert_ipv4_subnet_to_string (prefix a) @ '' next_hop=''
     @ convert_ip_as_uint_to_string (next_hop a)
     @ (if community_list a = [] then [] else '' communities='' @ format_bgp_communities (community_list a))"

text \<open>The compressed text of an IPv6 network comes from a regular expression library: a parameter.\<close>

definition format_gobgp_ipv6_unicast_route ::
    "(subnet_ipv6_cidr_mask_t \<Rightarrow> string) \<Rightarrow> IPv6UnicastAnnounce \<Rightarrow> string" where
  "format_gobgp_ipv6_unicast_route convert_ipv6_subnet_to_string a =
     ''prefix='' @ convert_ipv6_subnet_to_string (prefix6 a) @ '' next_hop=''
     @ convert_ipv6_subnet_to_string (next_hop6 a)
     @ (if community_list6 a = [] then [] else '' communities='' @ format_bgp_communities (community_list6 a))"

section \<open>Notification reports\<close>

definition newline :: string where
  "newline = [CHR 0x0A]"

definition format_port :: "u16 option \<Rightarrow> string" where
  "format_port port = (case port of Some p \<Rightarrow> dec_string (unat p) | None \<Rightarrow> ''none'')"

definition format_gobgp_flowspec_add_success_notification ::
    "flow_spec_rule_t \<Rightarrow> string \<Rightarrow> gobgp_flowspec_port_classifier_result_t option \<Rightarrow> string" where
  "format_gobgp_flowspec_add_success_notification r uuid classifier_result =
     ''FlowSpec ADD success (GoBGP)'' @ newline
     @ ''Rule: '' @ format_gobgp_flowspec_rule r @ newline
     @ ''UUID: '' @ format_gobgp_uuid_as_hex uuid @ newline
     @ (case classifier_result of None \<Rightarrow> []
        | Some c \<Rightarrow>
            ''Dominant port: '' @ format_port (dominant_port c) @ newline
            @ ''Selected port: '' @ format_port (selected_destination_port c) @ newline
            @ ''Dominance: '' @ dec_string (unat (dominance_percent c)) @ ''%'' @ newline
            @ ''Qualifying samples: '' @ dec_string (unat (qualifying_sample_count c)) @ newline
            @ ''Classifier reason: '' @ get_gobgp_flowspec_port_classifier_reason_name (reason c) @ newline)"

definition format_gobgp_flowspec_delete_success_notification :: "flow_spec_rule_t \<Rightarrow> string \<Rightarrow> string" where
  "format_gobgp_flowspec_delete_success_notification r uuid =
     ''FlowSpec DELETE success (GoBGP)'' @ newline
     @ ''Rule: '' @ format_gobgp_flowspec_rule r @ newline
     @ ''UUID: '' @ format_gobgp_uuid_as_hex uuid @ newline"

section \<open>Facts\<close>

lemma token_split:
  assumes "a @ CHR '' '' # b = a' @ CHR '' '' # b'" "CHR '' '' \<notin> set a" "CHR '' '' \<notin> set a'"
  shows "a = a'" "b = b'"
proof -
  have "takeWhile (\<lambda>c. c \<noteq> CHR '' '') (x @ CHR '' '' # y) = x" if "CHR '' '' \<notin> set x" for x y
    using that by (induction x) auto
  then show "a = a'"
    using assms by metis
  then show "b = b'"
    using assms(1) by simp
qed

lemma digits_no_space: "CHR '' '' \<notin> set (dec_string n)"
  using dec_string_digits [of n] by (auto simp: list_all_iff is_digit_def dest!: bspec)

lemma ip_string_no_space: "CHR '' '' \<notin> set (convert_ip_as_uint_to_string w)"
  using ip_string_chars [of "CHR '' ''" w] by (auto simp: is_digit_def)

definition key_protocol_text :: "gobgp_flowspec_rule_key_t \<Rightarrow> string" where
  "key_protocol_text k = (if protocol_present k then get_ip_protocol_name (key_protocol k) else ''ANY'')"

definition key_port_text :: "gobgp_flowspec_rule_key_t \<Rightarrow> string" where
  "key_port_text k = (if destination_port_present k
     then ''dst_port='' @ dec_string (unat (key_destination_port k)) @ '' '' else [])"

lemma rule_action_text:
  obtains rest where "format_rule_action r = CHR '' '' # rest" "take 4 rest \<noteq> ''dst_''"
  by (rule that [of "tl (format_rule_action r)"]) (auto simp: format_rule_action_def)

lemma rule_text:
  assumes "build_gobgp_flowspec_rule_key r = Some k"
  obtains rest where "take 4 rest \<noteq> ''dst_''"
    and "format_gobgp_flowspec_rule r = (''dst='' @ convert_ip_as_uint_to_string (destination_ipv4 k) @ ''/32'') @
       CHR '' '' # (''protocol='' @ key_protocol_text k) @ CHR '' '' # key_port_text k @ rest"
proof -
  have dst: "destination_subnet_ipv4_used r" "cidr_prefix_length (destination_subnet_ipv4 r) = 32"
    using assms by (auto simp: build_gobgp_flowspec_rule_key_def split: if_splits)
  have d32: "dec_string 32 = ''32''"
    by (simp add: dec_string.simps char_of_eq_iff)
  obtain rest where "format_rule_action r = CHR '' '' # rest" "take 4 rest \<noteq> ''dst_''"
    by (rule rule_action_text)
  with build_key_fields [OF assms] dst d32 show ?thesis
    by (intro that [of rest])
      (auto simp: format_gobgp_flowspec_rule_def format_value_list_def key_protocol_text_def key_port_text_def)
qed

lemma hex2_inj: "hex2 a = hex2 b \<longleftrightarrow> a = b"
proof
  have digit: "hex_digit m = hex_digit n \<Longrightarrow> m = n" if "m < 16" "n < 16" for m n
    using that
    by (auto simp: hex_digit_def char_of_eq_iff take_bit_nat_eq_self split: if_splits)
  assume "hex2 a = hex2 b"
  then have "unat a div 16 = unat b div 16 \<and> unat a mod 16 = unat b mod 16"
    using unat_lt_2p [of a] unat_lt_2p [of b] by (auto simp: hex2_def intro!: digit)
  then have "unat a = unat b"
    by (metis div_mult_mod_eq)
  then show "a = b"
    by (simp add: word_unat_eq_iff)
qed simp

lemma hex_text_inj:
  "concat (map (\<lambda>c. hex2 (of_nat (of_char c))) u) = concat (map (\<lambda>c. hex2 (of_nat (of_char c))) v) \<longleftrightarrow> u = v"
proof (induction u v rule: list_induct2')
  case (4 x xs y ys)
  have "(of_nat (of_char x) :: u8) = of_nat (of_char y) \<longleftrightarrow> x = y"
    by (simp add: word_of_nat_eq_iff take_bit_nat_eq_self)
  with 4 show ?case
    using hex2_inj [of "of_nat (of_char x)" "of_nat (of_char y)"] by (auto simp: hex2_def)
qed (simp_all add: hex2_def)

section \<open>Properties\<close>

text \<open>
  The text of a rule in logs and reports identifies the rule: two rules with lifecycle keys are
  printed alike only if their keys are equal.
\<close>

lemma rule_text_identifies_key:
  assumes "build_gobgp_flowspec_rule_key r = Some k" "build_gobgp_flowspec_rule_key r' = Some k'"
    and same: "format_gobgp_flowspec_rule r = format_gobgp_flowspec_rule r'"
  shows "k = k'"
proof -
  obtain rest where r: "take 4 rest \<noteq> ''dst_''" "format_gobgp_flowspec_rule r =
      (''dst='' @ convert_ip_as_uint_to_string (destination_ipv4 k) @ ''/32'') @
       CHR '' '' # (''protocol='' @ key_protocol_text k) @ CHR '' '' # key_port_text k @ rest"
    by (rule rule_text [OF assms(1)])
  obtain rest' where r': "take 4 rest' \<noteq> ''dst_''" "format_gobgp_flowspec_rule r' =
      (''dst='' @ convert_ip_as_uint_to_string (destination_ipv4 k') @ ''/32'') @
       CHR '' '' # (''protocol='' @ key_protocol_text k') @ CHR '' '' # key_port_text k' @ rest'"
    by (rule rule_text [OF assms(2)])
  note tokens = same [unfolded r(2) r'(2)]
  have plain: "CHR '' '' \<notin> set (''protocol='' @ key_protocol_text x)" for x
    by (simp add: key_protocol_text_def protocol_name_plain)
  have "convert_ip_as_uint_to_string (destination_ipv4 k) = convert_ip_as_uint_to_string (destination_ipv4 k')"
    using token_split(1) [OF tokens] by (simp add: ip_string_no_space)
  then have victim: "destination_ipv4 k = destination_ipv4 k'"
    by (simp add: ip_string_inj)
  have tail: "(''protocol='' @ key_protocol_text k) @ CHR '' '' # key_port_text k @ rest =
      (''protocol='' @ key_protocol_text k') @ CHR '' '' # key_port_text k' @ rest'"
    using token_split(2) [OF tokens] by (simp add: ip_string_no_space)
  have "key_protocol_text k = key_protocol_text k'"
    using token_split(1) [OF tail plain plain] by simp
  then have prot: "protocol_present k = protocol_present k'" "protocol_present k \<Longrightarrow> key_protocol k = key_protocol k'"
    by (auto simp: key_protocol_text_def protocol_name_inj protocol_name_plain
        protocol_name_plain(2) [symmetric] split: if_splits)
  have "key_port_text k @ rest = key_port_text k' @ rest'"
    using token_split(2) [OF tail plain plain] .
  then have port: "destination_port_present k = destination_port_present k'"
      "destination_port_present k \<Longrightarrow> key_destination_port k = key_destination_port k'"
    using r(1) r'(1) digits_no_space
    by (auto simp: key_port_text_def dec_string_inj word_unat_eq_iff split: if_splits dest!: token_split(1))
  show ?thesis
    using victim prot port build_key_fields [OF assms(1)] build_key_fields [OF assms(2)]
    by (cases k; cases k') (auto split: if_splits)
qed

text \<open>
  The hexadecimal form of a path identifier in logs and reports is one to one.
\<close>

lemma uuid_text_injective:
  "format_gobgp_uuid_as_hex u = format_gobgp_uuid_as_hex v \<longleftrightarrow> u = v"
  by (simp add: format_gobgp_uuid_as_hex_def hex_text_inj)

end
