(* ===== verification/Gobgp_Action.thy ===== *)
theory Gobgp_Action
  imports Gobgp_Config Gobgp_Client Gobgp_Format
begin

text \<open>
  The handlers of \<^verbatim>\<open>src/actions/gobgp_action.cpp\<close>. A thread of the program is the list of
  the tasks it still has to do: each call of the lifecycle, which holds its mutex, and each remote
  call to GoBGP is one task, so that the tasks of different threads may interleave in any order.
  The functions below return the tasks a C++ function goes on with; \<open>run_task\<close> performs one task
  against the lifecycle and the answer of GoBGP. Log messages are not modelled; the calls of the
  notification script are.
\<close>

section \<open>Notifications\<close>

text \<open>The command line and the input of the script, when it is to be called.\<close>

type_synonym script_call = "string \<times> string"

definition send_gobgp_flowspec_success_notification ::
    "gobgp_configuration \<Rightarrow> string \<Rightarrow> flow_spec_rule_t \<Rightarrow> string
     \<Rightarrow> gobgp_flowspec_port_classifier_result_t option \<Rightarrow> script_call list" where
  "send_gobgp_flowspec_success_notification c event r uuid classifier_result =
     (let notification_script = gobgp_flowspec_notify_script_path c in
      if notification_script = [] then []
      else if \<not> destination_subnet_ipv4_used r \<or> cidr_prefix_length (destination_subnet_ipv4 r) \<noteq> 32 then []
      else
        let victim_ip = convert_ip_as_uint_to_string (subnet_address (destination_subnet_ipv4 r));
            command = notification_script @ '' '' @ event @ '' '' @ victim_ip;
            report = (if event = ''add''
                      then format_gobgp_flowspec_add_success_notification r uuid classifier_result
                      else format_gobgp_flowspec_delete_success_notification r uuid)
        in [(command, report)])"

section \<open>Tasks\<close>

datatype task =
  ban_task u32 attack_details_t "u16 option" "gobgp_flowspec_port_classifier_result_t option"
| unban_task u32
| add_path_task gobgp_flowspec_rule_key_t flow_spec_rule_t "gobgp_flowspec_port_classifier_result_t option" bool
| added_task gobgp_flowspec_rule_key_t flow_spec_rule_t "gobgp_flowspec_port_classifier_result_t option" bool "string option"
| cleanup_task gobgp_flowspec_rule_key_t
| delete_path_task gobgp_flowspec_withdraw_request_t
| deleted_task gobgp_flowspec_withdraw_request_t bool
| refresh_task u32 "gobgp_flowspec_refresh_protocol_result_t list"
| refresh_protocol_task u32 bgp_flow_spec_action_types_t u32 u32 u32 gobgp_flowspec_refresh_protocol_result_t
| finish_refresh_task u32
| announce_ipv4_task IPv4UnicastAnnounce bool
| announce_ipv6_task IPv6UnicastAnnounce bool

text \<open>What a task goes on with, the scripts it calls, and the lifecycle it leaves.\<close>

type_synonym task_result = "task list \<times> script_call list \<times> lifecycle"

section \<open>Announcing and withdrawing a rule\<close>

definition withdraw_gobgp_flowspec_ipv4_rule :: "gobgp_flowspec_withdraw_request_t \<Rightarrow> task list" where
  "withdraw_gobgp_flowspec_ipv4_rule request = [delete_path_task request]"

text \<open>The part of \<open>withdraw_gobgp_flowspec_ipv4_rule\<close> behind the remote call.\<close>

definition withdraw_answered ::
    "gobgp_configuration \<Rightarrow> gobgp_flowspec_withdraw_request_t \<Rightarrow> bool \<Rightarrow> lifecycle \<Rightarrow> task_result" where
  "withdraw_answered c request withdraw_result lc =
     (let (completion, lc) = complete_withdraw (withdraw_key request) (withdraw_uuid request) withdraw_result lc
      in ([], if withdraw_result
              then send_gobgp_flowspec_success_notification c ''delete'' (withdraw_rule request)
                     (withdraw_uuid request) None
              else [], lc))"

definition announce_gobgp_flowspec_ipv4_rule ::
    "gobgp_flowspec_rule_key_t \<Rightarrow> flow_spec_rule_t \<Rightarrow> gobgp_flowspec_port_classifier_result_t option \<Rightarrow> bool
     \<Rightarrow> task list" where
  "announce_gobgp_flowspec_ipv4_rule key r classifier_result cleanup_redundant_ports_after_success =
     [add_path_task key r classifier_result cleanup_redundant_ports_after_success]"

text \<open>
  The part of \<open>announce_gobgp_flowspec_ipv4_rule\<close> behind the remote call; the answer is the UUID
  when the call succeeded.
\<close>

definition announce_answered ::
    "gobgp_configuration \<Rightarrow> gobgp_flowspec_rule_key_t \<Rightarrow> flow_spec_rule_t
     \<Rightarrow> gobgp_flowspec_port_classifier_result_t option \<Rightarrow> bool \<Rightarrow> string option \<Rightarrow> lifecycle \<Rightarrow> task_result" where
  "announce_answered c key r classifier_result cleanup answer lc =
     (case answer of
        None \<Rightarrow> ([], [], fail_announce key lc)
      | Some uuid \<Rightarrow>
          if uuid = [] then ([], [], fail_announce key lc)
          else
            let scripts = send_gobgp_flowspec_success_notification c ''add'' r uuid classifier_result;
                (completion, lc) = complete_announce key uuid lc
            in case completion of
                 announce_installed \<Rightarrow> (if cleanup then [cleanup_task key] else [], scripts, lc)
               | withdraw_required \<Rightarrow>
                   (withdraw_gobgp_flowspec_ipv4_rule
                      \<lparr>withdraw_key = key, withdraw_rule = r, withdraw_uuid = uuid\<rparr>, scripts, lc)
               | announce_ignored \<Rightarrow> ([], scripts, lc))"

text \<open>The cleanup of the narrower rules after an escalation.\<close>

definition cleanup_after_escalation :: "gobgp_flowspec_rule_key_t \<Rightarrow> lifecycle \<Rightarrow> task_result" where
  "cleanup_after_escalation key lc =
     (let (requests, lc) = begin_protocol_only_escalation_cleanup key lc
      in (concat (map withdraw_gobgp_flowspec_ipv4_rule requests), [], lc))"

section \<open>BAN and UNBAN\<close>

text \<open>The configured action with its target address and route target, zero where it has none.\<close>

definition configured_target :: "gobgp_configuration \<Rightarrow> (bgp_flow_spec_action_types_t \<times> u32 \<times> u32 \<times> u32) option" where
  "configured_target c =
     (case get_configured_gobgp_flowspec_action c of
        None \<Rightarrow> None
      | Some a \<Rightarrow>
          if a = FLOW_SPEC_ACTION_REDIRECT
          then (case get_configured_gobgp_flowspec_redirect_ipv4 c of
                  None \<Rightarrow> None | Some ip \<Rightarrow> Some (a, ip, 0, 0))
          else if a = FLOW_SPEC_ACTION_REDIRECT_VRF
          then (case get_configured_gobgp_flowspec_redirect_rt c of
                  None \<Rightarrow> None | Some (rt_as, rt_value) \<Rightarrow> Some (a, 0, rt_as, rt_value))
          else Some (a, 0, 0, 0))"

definition flowspec_unban :: "u32 \<Rightarrow> lifecycle \<Rightarrow> task_result" where
  "flowspec_unban client_ip lc =
     (let (withdraw_start, lc) = begin_withdraw_for_victim client_ip lc
      in (concat (map withdraw_gobgp_flowspec_ipv4_rule (withdraw_requests withdraw_start)), [], lc))"

definition flowspec_ban ::
    "gobgp_configuration \<Rightarrow> u32 \<Rightarrow> attack_details_t \<Rightarrow> u16 option \<Rightarrow> gobgp_flowspec_port_classifier_result_t option
     \<Rightarrow> lifecycle \<Rightarrow> task_result" where
  "flowspec_ban c client_ip current_attack port classifier_result lc =
     (case configured_target c of
        None \<Rightarrow> ([], [], lc)
      | Some (a, redirect_ipv4, rt_as, rt_value) \<Rightarrow>
          let r = build_gobgp_flowspec_ipv4_rule client_ip current_attack redirect_ipv4 port a rt_as rt_value in
          case build_gobgp_flowspec_rule_key r of
            None \<Rightarrow> ([], [], lc)
          | Some key \<Rightarrow>
              let (reserved, lc) = begin_announce key r lc
              in if \<not> reserved then ([], [], lc)
                 else (announce_gobgp_flowspec_ipv4_rule key r classifier_result False, [], lc))"

definition gobgp_ban_manage_flowspec_ipv4 ::
    "u32 \<Rightarrow> bool \<Rightarrow> attack_details_t \<Rightarrow> u16 option \<Rightarrow> gobgp_flowspec_port_classifier_result_t option \<Rightarrow> task list" where
  "gobgp_ban_manage_flowspec_ipv4 client_ip is_withdrawal current_attack port classifier_result =
     (if is_withdrawal then [unban_task client_ip] else [ban_task client_ip current_attack port classifier_result])"

section \<open>Unicast announces\<close>

text \<open>
  The libraries behind the configuration texts are parameters: \<open>split\<close> is \<^verbatim>\<open>boost::split\<close>,
  \<open>read_ipv6\<close> is \<^verbatim>\<open>inet_pton\<close> for IPv6 with the sixteen bytes of the address.
\<close>

definition with_community ::
    "(string \<Rightarrow> string \<Rightarrow> string list) \<Rightarrow> string \<Rightarrow> bgp_community_attribute_element_t list" where
  "with_community split community_string =
     (case read_bgp_community_from_string split community_string of None \<Rightarrow> [] | Some community \<Rightarrow> [community])"

text \<open>A next hop of its own, the common one when it is absent, unreadable or zero.\<close>

definition select_next_hop :: "string \<Rightarrow> u32 \<Rightarrow> u32" where
  "select_next_hop option_text legacy =
     (let hop = (if option_text = [] then 0
                 else case convert_ip_as_string_to_uint_safe option_text of None \<Rightarrow> 0 | Some ip \<Rightarrow> ip)
      in if hop = 0 then legacy else hop)"

definition gobgp_ban_manage_ipv4 ::
    "(string \<Rightarrow> string \<Rightarrow> string list) \<Rightarrow> gobgp_configuration \<Rightarrow> u32 \<Rightarrow> bool \<Rightarrow> attack_details_t \<Rightarrow> u16 option
     \<Rightarrow> gobgp_flowspec_port_classifier_result_t option \<Rightarrow> task list" where
  "gobgp_ban_manage_ipv4 split c client_ip is_withdrawal current_attack port classifier_result =
     (if gobgp_flowspec c
      then gobgp_ban_manage_flowspec_ipv4 client_ip is_withdrawal current_attack port classifier_result
      else case convert_ip_as_string_to_uint_safe (gobgp_next_hop c) of
             None \<Rightarrow> []
           | Some legacy \<Rightarrow>
               let host_hop = select_next_hop (gobgp_next_hop_host_ipv4 c) legacy;
                   subnet_hop = select_next_hop (gobgp_next_hop_subnet_ipv4 c) legacy
               in (if gobgp_announce_whole_subnet c
                   then [announce_ipv4_task (ipv4_announce_default\<lparr>
                           community_list := with_community split (gobgp_community_subnet c),
                           prefix := customer_network current_attack, next_hop := subnet_hop\<rparr>) is_withdrawal]
                   else [])
                @ (if gobgp_announce_host c
                   then [announce_ipv4_task (ipv4_announce_default\<lparr>
                           community_list := with_community split (gobgp_community_host c),
                           prefix := subnet_cidr_mask client_ip 32, next_hop := host_hop\<rparr>) is_withdrawal]
                   else []))"

definition select_next_hop_ipv6 :: "(string \<Rightarrow> bytes option) \<Rightarrow> string \<Rightarrow> bytes \<Rightarrow> bytes" where
  "select_next_hop_ipv6 read_ipv6 option_text legacy =
     (let hop = (if option_text = [] then replicate 16 0
                 else case read_ipv6 option_text of None \<Rightarrow> replicate 16 0 | Some ip \<Rightarrow> ip)
      in if is_zero_ipv6_address hop then legacy else hop)"

definition gobgp_ban_manage_ipv6 ::
    "(string \<Rightarrow> string \<Rightarrow> string list) \<Rightarrow> (string \<Rightarrow> bytes option) \<Rightarrow> gobgp_configuration
     \<Rightarrow> subnet_ipv6_cidr_mask_t \<Rightarrow> bool \<Rightarrow> task list" where
  "gobgp_ban_manage_ipv6 split read_ipv6 c client_ipv6 is_withdrawal =
     (case read_ipv6 (gobgp_next_hop_ipv6 c) of
        None \<Rightarrow> []
      | Some legacy \<Rightarrow>
          let host_hop = select_next_hop_ipv6 read_ipv6 (gobgp_next_hop_host_ipv6 c) legacy
          in if gobgp_announce_host_ipv6 c
             then [announce_ipv6_task (ipv6_announce_default\<lparr>
                     community_list6 := with_community split (gobgp_community_host_ipv6 c),
                     prefix6 := client_ipv6,
                     next_hop6 := \<lparr>subnet_address6 = host_hop, cidr_prefix_length6 = 128\<rparr>\<rparr>) is_withdrawal]
             else [])"

definition gobgp_ban_manage ::
    "(string \<Rightarrow> string \<Rightarrow> string list) \<Rightarrow> (string \<Rightarrow> bytes option) \<Rightarrow> gobgp_configuration \<Rightarrow> string \<Rightarrow> bool \<Rightarrow> u32
     \<Rightarrow> subnet_ipv6_cidr_mask_t \<Rightarrow> attack_details_t \<Rightarrow> u16 option \<Rightarrow> gobgp_flowspec_port_classifier_result_t option
     \<Rightarrow> task list" where
  "gobgp_ban_manage split read_ipv6 c action_name is_ipv6 client_ip client_ipv6 current_attack port classifier_result =
     (let is_withdrawal = (action_name \<noteq> ''ban'')
      in if is_ipv6 then gobgp_ban_manage_ipv6 split read_ipv6 c client_ipv6 is_withdrawal
         else gobgp_ban_manage_ipv4 split c client_ip is_withdrawal current_attack port classifier_result)"

section \<open>Refresh\<close>

definition gobgp_flowspec_refresh_manage_ipv4 ::
    "gobgp_configuration \<Rightarrow> u32 \<Rightarrow> gobgp_flowspec_refresh_protocol_result_t list \<Rightarrow> task list" where
  "gobgp_flowspec_refresh_manage_ipv4 c client_ip protocol_results =
     (if \<not> gobgp c \<or> \<not> gobgp_flowspec c \<or> \<not> gobgp_flowspec_rule_refresh c \<or> protocol_results = []
      then [finish_refresh_task client_ip]
      else [refresh_task client_ip protocol_results])"

text \<open>The refresh thread: one task per protocol, then the end of the refresh.\<close>

definition refresh_thread ::
    "gobgp_configuration \<Rightarrow> u32 \<Rightarrow> gobgp_flowspec_refresh_protocol_result_t list \<Rightarrow> task list" where
  "refresh_thread c client_ip protocol_results =
     (case configured_target c of
        None \<Rightarrow> [finish_refresh_task client_ip]
      | Some (a, redirect_ipv4, rt_as, rt_value) \<Rightarrow>
          map (refresh_protocol_task client_ip a redirect_ipv4 rt_as rt_value) protocol_results
          @ [finish_refresh_task client_ip])"

text \<open>The port rules of one protocol; candidates without a key are skipped.\<close>

fun port_rule_requests ::
    "(u16 option \<Rightarrow> flow_spec_rule_t) \<Rightarrow> gobgp_flowspec_refresh_candidate_t list \<Rightarrow> gobgp_flowspec_announce_request_t list" where
  "port_rule_requests build [] = []"
| "port_rule_requests build (candidate # rest) =
     (let port_rule = build (candidate_destination_port candidate) in
      case build_gobgp_flowspec_rule_key port_rule of
        None \<Rightarrow> port_rule_requests build rest
      | Some key \<Rightarrow> \<lparr>request_key = key, request_rule = port_rule\<rparr> # port_rule_requests build rest)"

text \<open>The body of the loop over the protocols.\<close>

definition refresh_protocol ::
    "gobgp_configuration \<Rightarrow> u32 \<Rightarrow> bgp_flow_spec_action_types_t \<Rightarrow> u32 \<Rightarrow> u32 \<Rightarrow> u32
     \<Rightarrow> gobgp_flowspec_refresh_protocol_result_t \<Rightarrow> lifecycle \<Rightarrow> task_result" where
  "refresh_protocol c client_ip a redirect_ipv4 rt_as rt_value protocol_result lc =
     (let current_attack = attack_details_default\<lparr>attack_direction := INCOMING,
                             attack_protocol := ucast (result_protocol protocol_result)\<rparr>;
          build = (\<lambda>port. build_gobgp_flowspec_ipv4_rule client_ip current_attack redirect_ipv4 port a rt_as rt_value);
          only_rule = build None
      in case build_gobgp_flowspec_rule_key only_rule of
           None \<Rightarrow> ([], [], lc)
         | Some only_key \<Rightarrow>
             if result_protocol protocol_result = ICMP
             then let (reserved, lc) = begin_refresh_announce only_key only_rule lc
                  in if \<not> reserved then ([], [], lc)
                     else (announce_gobgp_flowspec_ipv4_rule only_key only_rule None False, [], lc)
             else
               let requests = port_rule_requests build (significant_ports protocol_result);
                   (plan, lc) = begin_refresh_protocol_rules
                     \<lparr>request_key = only_key, request_rule = only_rule\<rparr> requests
                     (gobgp_flowspec_max_port_rules_per_protocol c) lc;
                   is_escalation = (plan_action plan = escalate_protocol_only)
               in (concat (map (\<lambda>request. announce_gobgp_flowspec_ipv4_rule (request_key request)
                                   (request_rule request) None is_escalation) (announce_requests plan)), [], lc))"

definition gobgp_flowspec_refresh_begin_ipv4_capture :: "u32 \<Rightarrow> lifecycle \<Rightarrow> bool \<times> lifecycle" where
  "gobgp_flowspec_refresh_begin_ipv4_capture client_ip lc = begin_refresh_capture client_ip lc"

definition gobgp_flowspec_refresh_complete_ipv4_capture :: "u32 \<Rightarrow> lifecycle \<Rightarrow> lifecycle" where
  "gobgp_flowspec_refresh_complete_ipv4_capture client_ip lc = finish_refresh_capture client_ip lc"

section \<open>One task\<close>

text \<open>\<open>Undefined\<close> where an encoder leaves the defined behaviour of C++.\<close>

fun run_task ::
    "gobgp_configuration \<Rightarrow> (path_request \<Rightarrow> string option) \<Rightarrow> (string \<Rightarrow> bool) \<Rightarrow> task \<Rightarrow> lifecycle
     \<Rightarrow> task_result outcome" where
  "run_task c add_path delete_path (ban_task client_ip attack port classifier_result) lc =
     Done (flowspec_ban c client_ip attack port classifier_result lc)"
| "run_task c add_path delete_path (unban_task client_ip) lc = Done (flowspec_unban client_ip lc)"
| "run_task c add_path delete_path (add_path_task key r classifier_result cleanup) lc =
     (case AnnounceFlowSpecIPv4 add_path r of
        Done uuid \<Rightarrow> Done ([added_task key r classifier_result cleanup (Some uuid)], [], lc)
      | Failed \<Rightarrow> Done ([added_task key r classifier_result cleanup None], [], lc)
      | Undefined \<Rightarrow> Undefined)"
| "run_task c add_path delete_path (added_task key r classifier_result cleanup answer) lc =
     Done (announce_answered c key r classifier_result cleanup answer lc)"
| "run_task c add_path delete_path (cleanup_task key) lc = Done (cleanup_after_escalation key lc)"
| "run_task c add_path delete_path (delete_path_task request) lc =
     Done ([deleted_task request (WithdrawFlowSpecIPv4 delete_path (withdraw_uuid request))], [], lc)"
| "run_task c add_path delete_path (deleted_task request withdraw_result) lc =
     Done (withdraw_answered c request withdraw_result lc)"
| "run_task c add_path delete_path (refresh_task client_ip results) lc =
     Done (refresh_thread c client_ip results, [], lc)"
| "run_task c add_path delete_path (refresh_protocol_task client_ip a redirect_ipv4 rt_as rt_value result) lc =
     Done (refresh_protocol c client_ip a redirect_ipv4 rt_as rt_value result lc)"
| "run_task c add_path delete_path (finish_refresh_task client_ip) lc =
     Done ([], [], finish_refresh_capture client_ip lc)"
| "run_task c add_path delete_path (announce_ipv4_task a is_withdrawal) lc =
     (case AnnounceUnicastPrefixLowLevelIPv4 add_path a is_withdrawal of
        Undefined \<Rightarrow> Undefined | _ \<Rightarrow> Done ([], [], lc))"
| "run_task c add_path delete_path (announce_ipv6_task a is_withdrawal) lc =
     (case AnnounceUnicastPrefixLowLevelIPv6 add_path a is_withdrawal of
        Undefined \<Rightarrow> Undefined | _ \<Rightarrow> Done ([], [], lc))"

end
