(* ===== verification/Path_Ownership.thy ===== *)
theory Path_Ownership
  imports Lifecycle
begin

text \<open>
  Who is responsible for a path: the three ways a rule of the lifecycle is tied to a remote call,
  and how each operation of the lifecycle moves them. A rule is awaited while its AddPath is
  under way, it is going while its DeletePath is, and it holds a UUID from the first to the second.
\<close>

definition awaiting :: "lifecycle \<Rightarrow> gobgp_flowspec_rule_key_t \<Rightarrow> bool" where
  "awaiting lc k \<longleftrightarrow> (\<exists>st. map_find (rules lc) k = Some st
     \<and> (state st = announcing \<or> (state st = withdraw_requested \<and> add_path_uuid st = [])))"

definition going :: "lifecycle \<Rightarrow> gobgp_flowspec_rule_key_t \<Rightarrow> string \<Rightarrow> bool" where
  "going lc k u \<longleftrightarrow> (\<exists>st. map_find (rules lc) k = Some st \<and> state st = withdrawing \<and> add_path_uuid st = u)"

definition holds :: "lifecycle \<Rightarrow> gobgp_flowspec_rule_key_t \<Rightarrow> string \<Rightarrow> bool" where
  "holds lc k u \<longleftrightarrow> u \<noteq> [] \<and> (\<exists>st. map_find (rules lc) k = Some st \<and> add_path_uuid st = u)"

lemmas ownership_defs = awaiting_def going_def holds_def

lemma ownership_cong:
  assumes "rules lc' = rules lc"
  shows "awaiting lc' = awaiting lc" "going lc' = going lc" "holds lc' = holds lc"
  using assms by (simp_all add: fun_eq_iff ownership_defs)

lemma holds_functional: "holds lc k u \<Longrightarrow> holds lc k u' \<Longrightarrow> u = u'"
  by (auto simp: holds_def)

lemma going_holds: "lifecycle_wf lc \<Longrightarrow> going lc k u \<Longrightarrow> holds lc k u"
  by (auto simp: going_def holds_def uuid_ok_def dest: lifecycle_wfD(2))

lemma awaiting_not_holding: "lifecycle_wf lc \<Longrightarrow> awaiting lc k \<Longrightarrow> \<not> holds lc k u"
  by (auto simp: awaiting_def holds_def uuid_ok_def dest: lifecycle_wfD(2))

section \<open>Reservations\<close>

lemma reserve_ownership:
  fixes k r
  assumes "lifecycle_wf lc" "map_find (rules lc) k = None"
  defines "lc' \<equiv> lc\<lparr>rules := map_emplace k (announcing_state r) (rules lc)\<rparr>"
  shows "awaiting lc' k' \<longleftrightarrow> k' = k \<or> awaiting lc k'" "going lc' = going lc" "holds lc' = holds lc"
  using lifecycle_wfD(1) [OF assms(1)] assms(2)
  by (auto simp: lc'_def ownership_defs map_laws announcing_state_def fun_eq_iff)

lemma begin_announce_ownership:
  assumes "lifecycle_wf lc" "begin_announce k r lc = (ok, lc')"
  shows "awaiting lc' k' \<longleftrightarrow> (ok \<and> k' = k) \<or> awaiting lc k'" "going lc' = going lc" "holds lc' = holds lc"
    "ok \<Longrightarrow> \<not> awaiting lc k"
  using assms reserve_ownership [OF assms(1), of k r]
  by (auto simp: begin_announce_def awaiting_def [of lc k] split: if_splits)

lemma reserve_all_ownership:
  assumes "lifecycle_wf lc" "\<And>e. e \<in> set es \<Longrightarrow> map_find (rules lc) (fst e) = None"
  defines "lc' \<equiv> lc\<lparr>rules := fold (\<lambda>e. map_emplace (fst e) (announcing_state (request_rule (snd e)))) es (rules lc)\<rparr>"
  shows "awaiting lc' k \<longleftrightarrow> k \<in> fst ` set es \<or> awaiting lc k" "going lc' = going lc" "holds lc' = holds lc"
proof -
  have ord: "ordered (rules lc)"
    using assms(1) by (rule lifecycle_wfD(1))
  let ?m = "rules lc'"
  have new: "\<exists>r. map_find ?m k = Some (announcing_state r)" "map_find (rules lc) k = None" if k: "k \<in> fst ` set es" for k
  proof -
    show none: "map_find (rules lc) k = None"
      using assms(2) k by auto
    show "\<exists>r. map_find ?m k = Some (announcing_state r)"
      using find_fold_emplace_new [OF ord none k, where g = "\<lambda>e. announcing_state (request_rule (snd e))"]
      by (auto simp: lc'_def)
  qed
  have old: "map_find ?m k = map_find (rules lc) k" if "k \<notin> fst ` set es" for k
    using find_fold_emplace_none [OF ord that] by (simp add: lc'_def)
  show "awaiting lc' k \<longleftrightarrow> k \<in> fst ` set es \<or> awaiting lc k"
    using new [of k] old [of k] by (cases "k \<in> fst ` set es") (auto simp: awaiting_def announcing_state_def)
  have "going lc' k u = going lc k u" "holds lc' k u = holds lc k u" for k u
    using new [of k] old [of k]
    by (cases "k \<in> fst ` set es"; auto simp: going_def holds_def announcing_state_def)+
  then show "going lc' = going lc" "holds lc' = holds lc"
    by (simp_all add: fun_eq_iff)
qed

lemma refresh_ownership:
  assumes "lifecycle_wf lc" "protocol_only_key (request_key only)"
    and "begin_refresh_protocol_rules only reqs mx lc = (plan, lc')"
  shows "awaiting lc' k \<longleftrightarrow> k \<in> request_key ` set (announce_requests plan) \<or> awaiting lc k"
    and "going lc' = going lc" "holds lc' = holds lc"
    and "distinct (map request_key (announce_requests plan))"
    and "k \<in> request_key ` set (announce_requests plan) \<Longrightarrow> \<not> awaiting lc k"
proof -
  have ord: "ordered (rules lc)"
    using assms(1) by (rule lifecycle_wfD(1))
  let ?fresh = "new_port_rules (request_key only) lc reqs []"
  let ?ks = "request_key ` set (announce_requests plan)"
  have keys: "map request_key (map snd ?fresh) = map fst ?fresh"
    using new_port_rules_mem(2) by auto
  have dist: "distinct (map fst ?fresh)"
    by (rule std.distinct_keys) (simp add: new_port_rules_ordered)
  have none: "map_find (rules lc) (fst e) = None" if "e \<in> set ?fresh" for e
    using new_port_rules_mem(5) [of "fst e" "snd e"] that by simp
  have "(awaiting lc' k \<longleftrightarrow> k \<in> ?ks \<or> awaiting lc k) \<and> going lc' = going lc \<and> holds lc' = holds lc
     \<and> distinct (map request_key (announce_requests plan)) \<and> (k \<in> ?ks \<longrightarrow> map_find (rules lc) k = None)"
    using assms(3) ord
  proof (cases rule: refresh_plan_cases)
    case escalate
    then have "map_find (rules lc) (request_key only) = None"
      using assms(2) by (auto simp: protocol_only_rule_def protocol_only_key_def same_protocol_def)
    then show ?thesis
      using escalate reserve_ownership [OF assms(1)] by simp
  next
    case add
    have "?ks = fst ` set ?fresh"
      using keys add(3) by (metis list.set_map)
    moreover have "distinct (map request_key (announce_requests plan))"
      using keys dist add(3) by metis
    ultimately show ?thesis
      using add(4) none reserve_all_ownership [OF assms(1) none] by auto
  qed simp_all
  then show "awaiting lc' k \<longleftrightarrow> k \<in> ?ks \<or> awaiting lc k" "going lc' = going lc" "holds lc' = holds lc"
    "distinct (map request_key (announce_requests plan))" "k \<in> ?ks \<Longrightarrow> \<not> awaiting lc k"
    by (auto simp: awaiting_def)
qed

section \<open>Completions\<close>

lemma fail_announce_ownership:
  assumes "lifecycle_wf lc" "awaiting lc k"
  shows "awaiting (fail_announce k lc) k' \<longleftrightarrow> k' \<noteq> k \<and> awaiting lc k'"
    "going (fail_announce k lc) = going lc" "holds (fail_announce k lc) = holds lc"
  using assms(2) lifecycle_wfD(2) [OF assms(1)]
  by (auto simp: fail_announce_def ownership_defs uuid_ok_def fun_eq_iff map_laws split: option.splits)

lemma complete_announce_ownership:
  assumes "lifecycle_wf lc" "awaiting lc k" "u \<noteq> []" "complete_announce k u lc = (completion, lc')"
  shows "completion \<noteq> announce_ignored"
    "awaiting lc' k' \<longleftrightarrow> k' \<noteq> k \<and> awaiting lc k'"
    "going lc' k' u' \<longleftrightarrow> (completion = withdraw_required \<and> k' = k \<and> u' = u) \<or> going lc k' u'"
    "holds lc' k' u' \<longleftrightarrow> (k' = k \<and> u' = u) \<or> holds lc k' u'"
  using assms(2-4) lifecycle_wfD(1) [OF assms(1)] lifecycle_wfD(2) [OF assms(1)]
  by (auto simp: complete_announce_def ownership_defs uuid_ok_def map_laws split: option.splits if_splits)

lemma complete_withdraw_ownership:
  assumes "lifecycle_wf lc" "going lc k u" "complete_withdraw k u success lc = (completion, lc')"
  shows "completion \<noteq> withdraw_ignored"
    "awaiting lc' = awaiting lc"
    "going lc' k' u' \<longleftrightarrow> k' \<noteq> k \<and> going lc k' u'"
    "holds lc' k' u' \<longleftrightarrow> \<not> (success \<and> k' = k) \<and> holds lc k' u'"
  using assms(2,3) lifecycle_wfD(1) [OF assms(1)] lifecycle_wfD(2) [OF assms(1)]
  by (auto simp: complete_withdraw_def ownership_defs uuid_ok_def map_laws fun_eq_iff split: option.splits if_splits)

section \<open>Withdrawals\<close>

text \<open>UNBAN and the cleanup of an escalation change the rules they select alike.\<close>

definition select_next :: "(gobgp_flowspec_rule_key_t \<Rightarrow> bool) \<Rightarrow> gobgp_flowspec_rule_key_t
    \<Rightarrow> gobgp_flowspec_rule_state_t \<Rightarrow> gobgp_flowspec_rule_state_t" where
  "select_next sel k st =
     (if \<not> sel k then st else if state st = announcing then st\<lparr>state := withdraw_requested\<rparr>
      else if deletable st then st\<lparr>state := withdrawing\<rparr> else st)"

definition selected_requests :: "(gobgp_flowspec_rule_key_t \<Rightarrow> bool) \<Rightarrow> lifecycle
    \<Rightarrow> gobgp_flowspec_withdraw_request_t list" where
  "selected_requests sel lc = map request_of (filter (\<lambda>e. sel (fst e) \<and> deletable (snd e)) (rules lc))"

lemma withdraw_next_select: "withdraw_next v = select_next (\<lambda>k. destination_ipv4 k = v)"
  by (auto simp: fun_eq_iff withdraw_next_def select_next_def deletable_def)

lemma cleanup_next_select:
  "cleanup_next only = select_next (\<lambda>k. same_protocol only k \<and> destination_port_present k)"
  by (auto simp: fun_eq_iff cleanup_next_def select_next_def deletable_def)

lemma select_next_facts:
  assumes "uuid_ok st"
  shows "add_path_uuid (select_next sel k st) = add_path_uuid st"
    "state (select_next sel k st) = announcing \<or> (state (select_next sel k st) = withdraw_requested \<and> add_path_uuid st = [])
       \<longleftrightarrow> state st = announcing \<or> (state st = withdraw_requested \<and> add_path_uuid st = [])"
    "state (select_next sel k st) = withdrawing \<longleftrightarrow> state st = withdrawing \<or> (sel k \<and> deletable st)"
  using assms by (cases "state st"; simp add: select_next_def deletable_def uuid_ok_def; fail)+

lemma select_ownership:
  assumes "lifecycle_wf lc" "rules lc' = map_adjust (select_next sel) (rules lc)"
  shows "awaiting lc' = awaiting lc" "holds lc' = holds lc"
    "going lc' k u \<longleftrightarrow> going lc k u \<or> (\<exists>st. map_find (rules lc) k = Some st \<and> sel k \<and> deletable st \<and> add_path_uuid st = u)"
proof -
  have find: "map_find (rules lc') k = map_option (select_next sel k) (map_find (rules lc) k)" for k
    by (simp add: assms(2) map_laws)
  note facts = select_next_facts [OF lifecycle_wfD(2) [OF assms(1)]]
  have "awaiting lc' k = awaiting lc k" for k
    using facts(1,2) [of k] by (cases "map_find (rules lc) k") (simp_all add: awaiting_def find)
  moreover have "holds lc' k u = holds lc k u" for k u
    using facts(1) [of k] by (cases "map_find (rules lc) k") (simp_all add: holds_def find)
  ultimately show "awaiting lc' = awaiting lc" "holds lc' = holds lc"
    by (simp_all add: fun_eq_iff)
  show "going lc' k u \<longleftrightarrow> going lc k u \<or> (\<exists>st. map_find (rules lc) k = Some st \<and> sel k \<and> deletable st \<and> add_path_uuid st = u)"
    using facts(1,3) [of k] by (cases "map_find (rules lc) k") (auto simp: going_def find)
qed

lemma length_filter_key:
  assumes "ordered m"
  shows "length (filter (\<lambda>e. fst e = k \<and> P (snd e)) m) = (if \<exists>v. map_find m k = Some v \<and> P v then 1 else 0)"
proof (cases "map_find m k")
  case None
  then have "filter (\<lambda>e. fst e = k \<and> P (snd e)) m = []"
    using ordered_find_mem [OF assms] by (fastforce simp: filter_empty_conv)
  with None show ?thesis by simp
next
  case (Some v)
  have "filter (\<lambda>e. fst e = k \<and> P (snd e)) m = (if P v then [(k, v)] else [])"
    using assms Some
  proof (induction m)
    case (Cons e m)
    show ?case
    proof (cases "fst e = k")
      case True
      then have "v = snd e" "\<forall>e' \<in> set m. fst e' \<noteq> k"
        using Cons.prems by (auto simp: less_imp_neq)
      moreover from this(2) have "filter (\<lambda>e. fst e = k \<and> P (snd e)) m = []"
        by (auto simp: filter_empty_conv)
      ultimately show ?thesis
        using True by (cases e) auto
    qed (use Cons in auto)
  qed simp
  with Some show ?thesis by simp
qed

lemma selected_requests_count:
  assumes "ordered (rules lc)"
  shows "length (filter (\<lambda>r. withdraw_key r = k \<and> withdraw_uuid r = u) (selected_requests sel lc)) =
     (if \<exists>st. map_find (rules lc) k = Some st \<and> sel k \<and> deletable st \<and> add_path_uuid st = u then 1 else 0)"
proof -
  have "length (filter (\<lambda>r. withdraw_key r = k \<and> withdraw_uuid r = u) (selected_requests sel lc)) =
      length (filter (\<lambda>e. fst e = k \<and> (sel k \<and> deletable (snd e) \<and> add_path_uuid (snd e) = u)) (rules lc))"
    by (simp add: selected_requests_def filter_map o_def request_of_def) (rule arg_cong [where f = length], rule filter_cong, auto)
  then show ?thesis
    using length_filter_key [OF assms, of k "\<lambda>st. sel k \<and> deletable st \<and> add_path_uuid st = u"] by simp
qed

lemma begin_withdraw_selects:
  assumes "begin_withdraw_for_victim v lc = (start, lc')"
  shows "rules lc' = map_adjust (select_next (\<lambda>k. destination_ipv4 k = v)) (rules lc)"
    "withdraw_requests start = selected_requests (\<lambda>k. destination_ipv4 k = v) lc"
  using assms by (auto simp: begin_withdraw_eq withdraw_next_select selected_requests_def withdraw_loop_requests)

lemma cleanup_selects:
  assumes "begin_protocol_only_escalation_cleanup only lc = (requests, lc')"
  obtains sel where "rules lc' = map_adjust (select_next sel) (rules lc)" "requests = selected_requests sel lc"
proof (cases "(\<exists>st. map_find (rules lc) only = Some st \<and> state st = installed)
    \<and> destination_ipv4 only \<notin> victims_withdraw_requested lc")
  case True
  with assms have "requests = selected_requests (\<lambda>k. same_protocol only k \<and> destination_port_present k) lc"
    "lc' = lc\<lparr>rules := map_adjust (select_next (\<lambda>k. same_protocol only k \<and> destination_port_present k)) (rules lc)\<rparr>"
    by (simp_all add: cleanup_eq cleanup_next_select selected_requests_def cleanup_loop_requests)
  then show ?thesis
    using that by simp
next
  case False
  with assms have "requests = []" "lc' = lc"
    by (auto simp: cleanup_eq)
  then show ?thesis
    using that [of "\<lambda>_. False"] by (simp add: select_next_def [abs_def] map_adjust_def selected_requests_def)
qed

end
