(* ===== verification/Mitigation.thy ===== *)
theory Mitigation
  imports Gobgp_Action Path_Ownership Reachability "HOL-Library.Multiset"
begin

text \<open>
  The running mitigation: any number of threads of \<^verbatim>\<open>src/actions/gobgp_action.cpp\<close> over one
  lifecycle and one GoBGP daemon. Every interleaving of their tasks is a run of the step relation.
  The state also keeps the paths GoBGP has confirmed and not yet confirmed as deleted.
\<close>

section \<open>The system\<close>

record system =
  sys_lifecycle :: lifecycle
  threads :: "task list list"
  confirmed :: "(string \<times> gobgp_flowspec_rule_key_t) set"
  scripts :: "script_call list"

definition system_init :: system where
  "system_init = \<lparr>sys_lifecycle = lifecycle_init, threads = [], confirmed = {}, scripts = []\<rparr>"

text \<open>What GoBGP confirms while it answers the remote call of a task.\<close>

fun confirm :: "(path_request \<Rightarrow> string option) \<Rightarrow> (string \<Rightarrow> bool) \<Rightarrow> task
    \<Rightarrow> (string \<times> gobgp_flowspec_rule_key_t) set \<Rightarrow> (string \<times> gobgp_flowspec_rule_key_t) set" where
  "confirm add_path delete_path (add_path_task key r classifier_result cleanup) paths =
     (case AnnounceFlowSpecIPv4 add_path r of
        Done uuid \<Rightarrow> if uuid = [] then paths else insert (uuid, key) paths
      | _ \<Rightarrow> paths)"
| "confirm add_path delete_path (delete_path_task request) paths =
     (if WithdrawFlowSpecIPv4 delete_path (withdraw_uuid request)
      then {p \<in> paths. fst p \<noteq> withdraw_uuid request} else paths)"
| "confirm add_path delete_path t paths = paths"

text \<open>
  GoBGP names every path with a UUID of its own: an answer never repeats the UUID of a path that is
  still confirmed.
\<close>

definition fresh_uuids :: "(path_request \<Rightarrow> string option) \<Rightarrow> system \<Rightarrow> bool" where
  "fresh_uuids add_path s \<longleftrightarrow> (\<forall>request uuid. add_path request = Some uuid \<longrightarrow> uuid \<notin> fst ` confirmed s)"

definition task_done :: "(path_request \<Rightarrow> string option) \<Rightarrow> (string \<Rightarrow> bool) \<Rightarrow> nat \<Rightarrow> task \<Rightarrow> task list
    \<Rightarrow> task_result \<Rightarrow> system \<Rightarrow> system" where
  "task_done add_path delete_path i t rest result s =
     (case result of (tasks, calls, lc) \<Rightarrow>
        s\<lparr>sys_lifecycle := lc, threads := (threads s)[i := tasks @ rest],
          confirmed := confirm add_path delete_path t (confirmed s), scripts := scripts s @ calls\<rparr>)"

text \<open>One thread performs its next task, with whatever GoBGP answers.\<close>

inductive thread_step :: "gobgp_configuration \<Rightarrow> system \<Rightarrow> system \<Rightarrow> bool" for c :: gobgp_configuration where
  run_thread: "i < length (threads s) \<Longrightarrow> threads s ! i = t # rest \<Longrightarrow> fresh_uuids add_path s
     \<Longrightarrow> run_task c add_path delete_path t (sys_lifecycle s) = Done result
     \<Longrightarrow> thread_step c s (task_done add_path delete_path i t rest result s)"

text \<open>Attacks are on hosts of the configured networks, whose prefixes have a legal length.\<close>

definition legal_attack :: "attack_details_t \<Rightarrow> subnet_ipv6_cidr_mask_t \<Rightarrow> bool" where
  "legal_attack current_attack client_ipv6 \<longleftrightarrow> unat (cidr_prefix_length (customer_network current_attack)) \<le> 32
     \<and> unat (cidr_prefix_length6 client_ipv6) \<le> 128 \<and> length (subnet_address6 client_ipv6) = 16"

text \<open>
  The steps of the system: the traffic analysis starts a BAN, an UNBAN or a refresh in a thread of
  its own or marks the begin and the end of a capture, or a thread goes on.
\<close>

inductive mitigation_step :: "(string \<Rightarrow> string \<Rightarrow> string list) \<Rightarrow> (string \<Rightarrow> bytes option) \<Rightarrow> gobgp_configuration
    \<Rightarrow> system \<Rightarrow> system \<Rightarrow> bool"
  for split :: "string \<Rightarrow> string \<Rightarrow> string list" and read_ipv6 :: "string \<Rightarrow> bytes option"
    and c :: gobgp_configuration where
  start_ban: "legal_attack current_attack client_ipv6 \<Longrightarrow> mitigation_step split read_ipv6 c s
     (s\<lparr>threads := threads s @ [gobgp_ban_manage split read_ipv6 c action_name is_ipv6 client_ip client_ipv6
          current_attack port classifier_result]\<rparr>)"
| start_refresh: "mitigation_step split read_ipv6 c s
     (s\<lparr>threads := threads s @ [gobgp_flowspec_refresh_manage_ipv4 c client_ip protocol_results]\<rparr>)"
| begin_capture: "mitigation_step split read_ipv6 c s
     (s\<lparr>sys_lifecycle := snd (gobgp_flowspec_refresh_begin_ipv4_capture client_ip (sys_lifecycle s))\<rparr>)"
| complete_capture: "mitigation_step split read_ipv6 c s
     (s\<lparr>sys_lifecycle := gobgp_flowspec_refresh_complete_ipv4_capture client_ip (sys_lifecycle s)\<rparr>)"
| thread: "thread_step c s s' \<Longrightarrow> mitigation_step split read_ipv6 c s s'"

definition reachable :: "(string \<Rightarrow> string \<Rightarrow> string list) \<Rightarrow> (string \<Rightarrow> bytes option) \<Rightarrow> gobgp_configuration
    \<Rightarrow> system \<Rightarrow> bool" where
  "reachable split read_ipv6 c s \<longleftrightarrow> reach (\<lambda>s. s = system_init) (mitigation_step split read_ipv6 c) s"

section \<open>Pending tasks\<close>

definition pending :: "system \<Rightarrow> task multiset" where
  "pending s = mset (concat (threads s))"

fun adding :: "gobgp_flowspec_rule_key_t \<Rightarrow> task \<Rightarrow> bool" where
  "adding k (add_path_task k' r classifier_result cleanup) \<longleftrightarrow> k' = k"
| "adding k (added_task k' r classifier_result cleanup answer) \<longleftrightarrow> k' = k"
| "adding k t \<longleftrightarrow> False"

fun deleting :: "gobgp_flowspec_rule_key_t \<Rightarrow> string \<Rightarrow> task \<Rightarrow> bool" where
  "deleting k u (delete_path_task request) \<longleftrightarrow> withdraw_key request = k \<and> withdraw_uuid request = u"
| "deleting k u (deleted_task request success) \<longleftrightarrow> withdraw_key request = k \<and> withdraw_uuid request = u"
| "deleting k u t \<longleftrightarrow> False"

text \<open>GoBGP has answered, the lifecycle has not been told yet.\<close>

fun just_added :: "gobgp_flowspec_rule_key_t \<Rightarrow> string \<Rightarrow> task \<Rightarrow> bool" where
  "just_added k u (added_task k' r classifier_result cleanup answer) \<longleftrightarrow> k' = k \<and> answer = Some u \<and> u \<noteq> []"
| "just_added k u t \<longleftrightarrow> False"

fun just_deleted :: "gobgp_flowspec_rule_key_t \<Rightarrow> string \<Rightarrow> task \<Rightarrow> bool" where
  "just_deleted k u (deleted_task request success) \<longleftrightarrow> withdraw_key request = k \<and> withdraw_uuid request = u \<and> success"
| "just_deleted k u t \<longleftrightarrow> False"

definition count_tasks :: "(task \<Rightarrow> bool) \<Rightarrow> task multiset \<Rightarrow> nat" where
  "count_tasks P M = size (filter_mset P M)"

declare mset_map [simp del] length_filter_map [simp del]

lemma count_tasks_simps [simp]:
  "count_tasks P {#} = 0"
  "count_tasks P (add_mset t M) = (if P t then Suc (count_tasks P M) else count_tasks P M)"
  "count_tasks P (M + N) = count_tasks P M + count_tasks P N"
  "count_tasks P (mset tasks) = length (filter P tasks)"
  by (simp_all add: count_tasks_def flip: mset_filter)

text \<open>
  The invariant: exactly one pending task is responsible for every rule that waits for GoBGP, no
  task is responsible for any other, and the confirmed paths are the UUIDs of the table except
  those GoBGP just deleted, and those it just added.
\<close>

definition named_apart :: "(string \<times> gobgp_flowspec_rule_key_t) set \<Rightarrow> bool" where
  "named_apart paths \<longleftrightarrow> (\<forall>u k k'. (u, k) \<in> paths \<longrightarrow> (u, k') \<in> paths \<longrightarrow> k = k')"

definition owned :: "lifecycle \<Rightarrow> task multiset \<Rightarrow> (string \<times> gobgp_flowspec_rule_key_t) set \<Rightarrow> bool" where
  "owned lc M paths \<longleftrightarrow> lifecycle_wf lc
     \<and> (\<forall>k. count_tasks (adding k) M = (if awaiting lc k then 1 else 0))
     \<and> (\<forall>k u. count_tasks (deleting k u) M = (if going lc k u then 1 else 0))
     \<and> (\<forall>u k. (u, k) \<in> paths \<longleftrightarrow>
           (holds lc k u \<and> count_tasks (just_deleted k u) M = 0) \<or> count_tasks (just_added k u) M > 0)
     \<and> named_apart paths"

definition system_inv :: "system \<Rightarrow> bool" where
  "system_inv s \<longleftrightarrow> owned (sys_lifecycle s) (pending s) (confirmed s)"

text \<open>Tasks that are not tied to a rule.\<close>

definition neutral :: "task \<Rightarrow> bool" where
  "neutral t \<longleftrightarrow> (\<forall>k u. \<not> adding k t \<and> \<not> deleting k u t)"

lemma count_tasks_mono:
  assumes "\<And>t. P t \<Longrightarrow> Q t" "count_tasks Q M = 0" shows "count_tasks P M = 0"
  using assms by (auto simp: count_tasks_def)

lemma just_added_adding: "just_added k u t \<Longrightarrow> adding k t"
  by (cases t) auto

lemma just_deleted_deleting: "just_deleted k u t \<Longrightarrow> deleting k u t"
  by (cases t) auto

lemma no_adding: "count_tasks (adding k) M = 0 \<Longrightarrow> count_tasks (just_added k u) M = 0"
  using count_tasks_mono just_added_adding by blast

lemma no_deleting: "count_tasks (deleting k u) M = 0 \<Longrightarrow> count_tasks (just_deleted k u) M = 0"
  using count_tasks_mono just_deleted_deleting by blast

lemma neutral_simps:
  "neutral t \<Longrightarrow> \<not> adding k t" "neutral t \<Longrightarrow> \<not> deleting k u t"
  "neutral t \<Longrightarrow> \<not> just_added k u t" "neutral t \<Longrightarrow> \<not> just_deleted k u t"
  using just_added_adding [of k u t] just_deleted_deleting [of k u t] unfolding neutral_def by blast+

lemma ownedD:
  assumes "owned lc M paths"
  shows "lifecycle_wf lc"
    and "count_tasks (adding k) M = (if awaiting lc k then 1 else 0)"
    and "count_tasks (deleting k u) M = (if going lc k u then 1 else 0)"
    and "(u, k) \<in> paths \<longleftrightarrow>
           (holds lc k u \<and> count_tasks (just_deleted k u) M = 0) \<or> count_tasks (just_added k u) M > 0"
    and "named_apart paths"
proof -
  note parts = assms [unfolded owned_def]
  show "lifecycle_wf lc"
    using parts by (elim conjE)
  show "count_tasks (adding k) M = (if awaiting lc k then 1 else 0)"
    using parts by (elim conjE) (erule allE)
  show "count_tasks (deleting k u) M = (if going lc k u then 1 else 0)"
    using parts by (elim conjE) (elim allE)
  show "(u, k) \<in> paths \<longleftrightarrow>
      (holds lc k u \<and> count_tasks (just_deleted k u) M = 0) \<or> count_tasks (just_added k u) M > 0"
    using parts by (elim conjE) (elim allE)
  show "named_apart paths"
    using parts by (elim conjE)
qed

lemma ownedI:
  assumes "lifecycle_wf lc"
    and "\<And>k. count_tasks (adding k) M = (if awaiting lc k then 1 else 0)"
    and "\<And>k u. count_tasks (deleting k u) M = (if going lc k u then 1 else 0)"
    and "\<And>k u. (u, k) \<in> paths \<longleftrightarrow>
           (holds lc k u \<and> count_tasks (just_deleted k u) M = 0) \<or> count_tasks (just_added k u) M > 0"
    and "named_apart paths"
  shows "owned lc M paths"
  unfolding owned_def by (intro conjI allI impI) (rule assms; assumption)+

lemma named_apartD: "named_apart paths \<Longrightarrow> (u, k) \<in> paths \<Longrightarrow> (u, k') \<in> paths \<Longrightarrow> k = k'"
  unfolding named_apart_def by blast

lemma named_apart_insert: "named_apart paths \<Longrightarrow> u \<notin> fst ` paths \<Longrightarrow> named_apart (insert (u, k) paths)"
  unfolding named_apart_def by (auto simp: image_iff)

lemma named_apart_filter: "named_apart paths \<Longrightarrow> named_apart {p \<in> paths. P p}"
  unfolding named_apart_def by blast

lemma pending_run:
  assumes "i < length (threads s)" "threads s ! i = t # rest"
  obtains N where "pending s = add_mset t N"
    "\<And>tasks lc paths calls. pending (s\<lparr>sys_lifecycle := lc, threads := (threads s)[i := tasks @ rest],
        confirmed := paths, scripts := calls\<rparr>) = N + mset tasks"
proof -
  let ?before = "take i (threads s)" and ?after = "drop (Suc i) (threads s)"
  let ?N = "mset (concat ?before) + mset rest + mset (concat ?after)"
  have split_threads: "threads s = ?before @ (t # rest) # ?after"
    using assms id_take_nth_drop by metis
  have "mset (concat (threads s)) = add_mset t ?N"
    by (subst split_threads) (simp add: ac_simps)
  moreover have "mset (concat ((threads s)[i := tasks @ rest])) = ?N + mset tasks" for tasks
    using assms(1) by (simp add: upd_conv_take_nth_drop ac_simps)
  ultimately show ?thesis
    using that [of ?N] by (simp add: pending_def)
qed

section \<open>Every task keeps the invariant\<close>

lemma owned_neutral:
  assumes "owned lc (add_mset t N) paths" "neutral t" "list_all neutral tasks" "lifecycle_wf lc'" "rules lc' = rules lc"
  shows "owned lc' (N + mset tasks) paths"
proof -
  have none: "filter (adding k) tasks = []" "filter (deleting k u) tasks = []" "filter (just_added k u) tasks = []"
      "filter (just_deleted k u) tasks = []" for k u
    using assms(3) by (auto simp: filter_empty_conv list_all_iff neutral_simps)
  show ?thesis
    using assms(4) ownedD(2-5) [OF assms(1)]
    by (intro ownedI) (simp_all add: none neutral_simps assms(2) ownership_cong [OF assms(5)])
qed

text \<open>Reserving rules and announcing them.\<close>

definition add_tasks :: "bool \<Rightarrow> gobgp_flowspec_port_classifier_result_t option \<Rightarrow> (gobgp_flowspec_rule_key_t \<times> flow_spec_rule_t) list
    \<Rightarrow> task list" where
  "add_tasks cleanup classifier_result es = map (\<lambda>(k, r). add_path_task k r classifier_result cleanup) es"

lemma add_tasks_count:
  assumes "distinct (map fst es)"
  shows "length (filter (adding k) (add_tasks b cl es)) = (if k \<in> fst ` set es then 1 else 0)"
    and "filter (deleting k u) (add_tasks b cl es) = []" "filter (just_added k u) (add_tasks b cl es) = []"
    "filter (just_deleted k u) (add_tasks b cl es) = []"
proof -
  show "length (filter (adding k) (add_tasks b cl es)) = (if k \<in> fst ` set es then 1 else 0)"
    using assms
  proof (induction es)
    case (Cons e es)
    then show ?case
      by (cases e; cases "fst e = k") (auto simp: add_tasks_def simp del: filter_map split: if_splits)
  qed (simp add: add_tasks_def)
qed (auto simp: add_tasks_def filter_empty_conv)

lemma owned_reserve:
  assumes "owned lc (add_mset t N) paths" "neutral t" "lifecycle_wf lc'" "distinct (map fst es)"
    and "\<And>k. k \<in> fst ` set es \<Longrightarrow> \<not> awaiting lc k"
    and "\<And>k. awaiting lc' k \<longleftrightarrow> k \<in> fst ` set es \<or> awaiting lc k" "going lc' = going lc" "holds lc' = holds lc"
  shows "owned lc' (N + mset (add_tasks b cl es)) paths"
  using assms(3,5) ownedD(2-5) [OF assms(1)]
  by (intro ownedI)
    (auto simp: add_tasks_count [OF assms(4)] neutral_simps assms(2,6-8))

text \<open>Selecting rules for deletion.\<close>

lemma delete_tasks_count:
  "length (filter (deleting k u) (map delete_path_task requests)) =
     length (filter (\<lambda>r. withdraw_key r = k \<and> withdraw_uuid r = u) requests)"
  "filter (adding k) (map delete_path_task requests) = []"
  "filter (just_added k u) (map delete_path_task requests) = []"
  "filter (just_deleted k u) (map delete_path_task requests) = []"
  by (simp_all add: filter_map o_def)

lemma owned_select:
  assumes "owned lc (add_mset t N) paths" "neutral t" "lifecycle_wf lc'"
    and "rules lc' = map_adjust (select_next sel) (rules lc)"
  shows "owned lc' (N + mset (map delete_path_task (selected_requests sel lc))) paths"
proof -
  have wf: "lifecycle_wf lc"
    using assms(1) by (rule ownedD(1))
  let ?P = "\<lambda>k u. \<exists>st. map_find (rules lc) k = Some st \<and> sel k \<and> deletable st \<and> add_path_uuid st = u"
  note D = ownedD(2-5) [OF assms(1)]
  have "count_tasks (deleting k u) (N + mset (map delete_path_task (selected_requests sel lc))) =
      (if going lc' k u then 1 else 0)" for k u
  proof -
    have "\<not> (going lc k u \<and> ?P k u)"
      by (auto simp: going_def deletable_def)
    moreover have "count_tasks (deleting k u) N = (if going lc k u then 1 else 0)"
      using D(2) [of k u] by (simp add: neutral_simps assms(2))
    ultimately show ?thesis
      using select_ownership(3) [OF wf assms(4), of k u]
        selected_requests_count [OF lifecycle_wfD(1) [OF wf], of k u sel]
      by (simp add: delete_tasks_count) auto
  qed
  then show ?thesis
    using assms(3) D
    by (intro ownedI)
      (simp_all add: delete_tasks_count neutral_simps assms(2) select_ownership(1,2) [OF wf assms(4)])
qed

text \<open>The remote calls.\<close>

lemma announce_uuid_answered: "AnnounceFlowSpecIPv4 add_path r = Done u \<Longrightarrow> \<exists>request. add_path request = Some u"
  by (auto simp: AnnounceFlowSpecIPv4_def and_then_Done_iff split: if_splits option.splits)

lemma owned_add_path:
  assumes "owned lc (add_mset (add_path_task k r cl b) N) paths" "\<And>u. answer = Some u \<Longrightarrow> u \<notin> fst ` paths"
  shows "owned lc (add_mset (added_task k r cl b answer) N)
     (case answer of Some u \<Rightarrow> if u = [] then paths else insert (u, k) paths | None \<Rightarrow> paths)"
proof (cases "\<exists>u. answer = Some u \<and> u \<noteq> []")
  case True
  then obtain u where u: "answer = Some u" "u \<noteq> []" "u \<notin> fst ` paths"
    using assms(2) by blast
  then have fresh: "(u, k') \<notin> paths" for k'
    by force
  show ?thesis
    using ownedD [OF assms(1)] u fresh by (intro ownedI) (auto intro: named_apart_insert split: if_splits)
next
  case False
  then have "\<not> just_added k' u' (added_task k r cl b answer)" for k' u'
    by auto
  with False show ?thesis
    using ownedD [OF assms(1)] by (intro ownedI) (auto split: option.splits if_splits)
qed

lemma owned_delete_path:
  assumes "owned lc (add_mset (delete_path_task request) N) paths"
    and "deleted \<Longrightarrow> withdraw_uuid request \<noteq> []"
  shows "owned lc (add_mset (deleted_task request deleted) N)
     (if deleted then {p \<in> paths. fst p \<noteq> withdraw_uuid request} else paths)"
proof (cases deleted)
  case True
  let ?k = "withdraw_key request" and ?u = "withdraw_uuid request"
  note D = ownedD [OF assms(1)]
  have going: "going lc ?k ?u" and N: "count_tasks (deleting ?k ?u) N = 0"
    using D(3) [of ?k ?u] by (simp_all split: if_splits)
  then have holds: "holds lc ?k ?u" and gone: "count_tasks (just_deleted ?k ?u) N = 0"
    using going_holds [OF D(1)] no_deleting by blast+
  have "\<not> awaiting lc ?k"
    using awaiting_not_holding [OF D(1)] holds by blast
  then have no_add: "count_tasks (just_added ?k ?u) N = 0"
    using D(2) [of ?k] by (intro no_adding) simp
  have "(?u, ?k) \<in> paths"
    using D(4) [of ?u ?k] holds gone by simp
  then have single: "(?u, k') \<in> paths \<Longrightarrow> k' = ?k" for k'
    using named_apartD [OF D(5)] by blast
  show ?thesis
  proof (intro ownedI)
    fix k u
    show "(u, k) \<in> (if deleted then {p \<in> paths. fst p \<noteq> ?u} else paths) \<longleftrightarrow>
        (holds lc k u \<and> count_tasks (just_deleted k u) (add_mset (deleted_task request deleted) N) = 0) \<or>
        count_tasks (just_added k u) (add_mset (deleted_task request deleted) N) > 0"
    proof (cases "u = ?u")
      case u: True
      show ?thesis
      proof (cases "k = ?k")
        case k: True
        show ?thesis
          unfolding u k using no_add \<open>deleted\<close> by simp
      next
        case False
        then have "(u, k) \<notin> paths"
          using single u by blast
        with False D(4) [of u k] show ?thesis
          using \<open>deleted\<close> by simp
      qed
    next
      case False
      then show ?thesis
        using D(4) [of u k] \<open>deleted\<close> by simp
    qed
  qed (use D True in \<open>auto intro: named_apart_filter split: if_splits\<close>)
next
  case False
  then show ?thesis
    using ownedD [OF assms(1)] by (intro ownedI) (auto split: if_splits)
qed

text \<open>The completions.\<close>

lemma owned_deleted:
  assumes "owned lc (add_mset (deleted_task request success) N) paths"
    and "complete_withdraw (withdraw_key request) (withdraw_uuid request) success lc = (completion, lc')"
  shows "owned lc' N paths" "completion \<noteq> withdraw_ignored"
proof -
  let ?k = "withdraw_key request" and ?u = "withdraw_uuid request"
  note D = ownedD [OF assms(1)]
  have going: "going lc ?k ?u"
    using D(3) [of ?k ?u] by (simp split: if_splits)
  note W = complete_withdraw_ownership [OF D(1) going assms(2)]
  show "completion \<noteq> withdraw_ignored"
    by (rule W(1))
  show "owned lc' N paths"
  proof (intro ownedI)
    show "lifecycle_wf lc'"
      using wf_complete_withdraw [OF D(1)] assms(2) by (metis snd_conv)
    fix k u
    show "count_tasks (adding k) N = (if awaiting lc' k then 1 else 0)"
      using D(2) [of k] by (simp add: W(2))
    show "count_tasks (deleting k u) N = (if going lc' k u then 1 else 0)"
    proof (cases "k = ?k")
      case True
      then have "going lc k u \<Longrightarrow> u = ?u"
        using going by (auto simp: going_def)
      then show ?thesis
        using D(3) [of k u] W(3) [of k u] True by (auto split: if_splits)
    qed (use D(3) [of k u] W(3) [of k u] in simp)
    show "(u, k) \<in> paths \<longleftrightarrow>
        (holds lc' k u \<and> count_tasks (just_deleted k u) N = 0) \<or> count_tasks (just_added k u) N > 0"
    proof (cases "k = ?k \<and> success")
      case True
      have "holds lc k u \<Longrightarrow> u = ?u"
        using holds_functional going_holds [OF D(1) going] True by blast
      then show ?thesis
        using D(4) [of u k] W(4) [of k u] True by auto
    next
      case False
      then have "\<not> just_deleted k u (deleted_task request success)"
        by auto
      then show ?thesis
        using D(4) [of u k] W(4) [of k u] False by auto
    qed
  qed (rule D(5))
qed

lemma adding_unique:
  assumes "owned lc (add_mset (added_task k r cl b answer) N) paths"
  shows "awaiting lc k" "count_tasks (adding k) N = 0"
  using ownedD(2) [OF assms, of k] by (simp_all split: if_splits)

lemma owned_added_failed:
  assumes "owned lc (add_mset (added_task k r cl b answer) N) paths" "answer = None \<or> answer = Some []"
  shows "owned (fail_announce k lc) N paths"
proof -
  note D = ownedD [OF assms(1)] and await = adding_unique [OF assms(1)]
  note F = fail_announce_ownership [OF D(1) await(1)]
  have none: "\<not> just_added k' u (added_task k r cl b answer)" for k' u
    using assms(2) by auto
  show ?thesis
  proof (intro ownedI)
    fix k' u
    show "count_tasks (adding k') N = (if awaiting (fail_announce k lc) k' then 1 else 0)"
      using D(2) [of k'] await(2) by (cases "k' = k") (simp_all add: F)
  qed (use D assms(2) in \<open>auto simp: F(2,3) wf_fail_announce\<close>)
qed

lemma owned_added:
  assumes "owned lc (add_mset (added_task k r cl b (Some u)) N) paths" "u \<noteq> []"
    and "complete_announce k u lc = (completion, lc')"
  shows "completion = announce_installed \<Longrightarrow> owned lc' N paths"
    and "completion = withdraw_required \<Longrightarrow>
      owned lc' (add_mset (delete_path_task \<lparr>withdraw_key = k, withdraw_rule = r, withdraw_uuid = u\<rparr>) N) paths"
    and "completion \<noteq> announce_ignored"
proof -
  note D = ownedD [OF assms(1)] and await = adding_unique [OF assms(1)]
  note A = complete_announce_ownership [OF D(1) await(1) assms(2,3)]
  have idle: "\<not> holds lc k u'" "\<not> going lc k u'" for u'
    using awaiting_not_holding [OF D(1) await(1)] going_holds [OF D(1)] by blast+
  have undeleted: "count_tasks (deleting k u') N = 0" "count_tasks (just_deleted k u') N = 0" for u'
    using D(3) [of k u'] idle(2) no_deleting by simp_all
  have unadded: "count_tasks (just_added k u') N = 0" for u'
    using no_adding await(2) by blast
  have wf: "lifecycle_wf lc'"
    using wf_complete_announce [OF D(1)] assms(3) by (metis snd_conv)
  have adds: "count_tasks (adding k') N = (if awaiting lc' k' then 1 else 0)" for k'
    using D(2) [of k'] await(2) A(2) [of k'] by (cases "k' = k") simp_all
  have paths: "(u', k') \<in> paths \<longleftrightarrow>
      (holds lc' k' u' \<and> count_tasks (just_deleted k' u') N = 0) \<or> count_tasks (just_added k' u') N > 0" for u' k'
    using D(4) [of u' k'] A(4) [of k' u'] idle undeleted unadded assms(2) by (cases "k' = k") auto
  show "completion \<noteq> announce_ignored"
    by (rule A(1))
  show "owned lc' N paths" if "completion = announce_installed"
    using D(3) A(3) that by (intro ownedI wf adds paths D(5)) simp
  show "owned lc' (add_mset (delete_path_task \<lparr>withdraw_key = k, withdraw_rule = r, withdraw_uuid = u\<rparr>) N) paths"
    if "completion = withdraw_required"
  proof (intro ownedI)
    fix k' u'
    show "count_tasks (deleting k' u') (add_mset (delete_path_task
        \<lparr>withdraw_key = k, withdraw_rule = r, withdraw_uuid = u\<rparr>) N) = (if going lc' k' u' then 1 else 0)"
      using D(3) [of k' u'] A(3) [of k' u'] that idle undeleted by (cases "k' = k \<and> u' = u") auto
  qed (use wf adds paths D(5) in simp_all)
qed

text \<open>The handlers.\<close>

lemma neutral_tasks:
  "neutral (ban_task v attack p cl)" "neutral (unban_task v)" "neutral (cleanup_task k)" "neutral (refresh_task v rs)"
  "neutral (refresh_protocol_task v a hop rt_as rt_value res)" "neutral (finish_refresh_task v)"
  "neutral (announce_ipv4_task a4 w)" "neutral (announce_ipv6_task a6 w)"
  by (simp_all add: neutral_def)

lemma begin_announce_refused: "begin_announce k r lc = (False, lc') \<Longrightarrow> lc' = lc"
  by (simp add: begin_announce_def split: if_splits)

lemma owned_ban:
  assumes "owned lc (add_mset t N) paths" "neutral t" "flowspec_ban c v attack port cl lc = (tasks, calls, lc')"
  shows "owned lc' (N + mset tasks) paths"
proof -
  have wf: "lifecycle_wf lc"
    using assms(1) by (rule ownedD(1))
  have keep: "owned lc N paths"
    using owned_neutral [OF assms(1,2), of "[]" lc] wf by simp
  consider "tasks = []" "lc' = lc"
    | k r where "begin_announce k r lc = (True, lc')" "tasks = add_tasks False cl [(k, r)]"
    using assms(3)
    by (auto simp: flowspec_ban_def Let_def add_tasks_def announce_gobgp_flowspec_ipv4_rule_def
        split: option.splits prod.splits if_splits dest: begin_announce_refused)
  then show ?thesis
  proof cases
    case 1
    with keep show ?thesis by simp
  next
    case (2 k r)
    note B = begin_announce_ownership [OF wf 2(1)]
    have "lifecycle_wf lc'"
      using wf_begin_announce [OF wf] 2(1) by (metis snd_conv)
    then show ?thesis
      unfolding 2(2) by (intro owned_reserve [OF assms(1,2)]) (use B in auto)
  qed
qed

lemma built_protocol_only_key:
  assumes "build_gobgp_flowspec_rule_key (build_gobgp_flowspec_ipv4_rule v attack hop None a rt_as rt_value) = Some k"
    and "attack_protocol attack \<in> {ucast TCP, ucast UDP, ucast ICMP}"
  shows "protocol_only_key k"
  using assms by (auto simp: built_rule_key protocol_only_key_def Let_def)

lemma port_rule_requests_keys:
  "request \<in> set (port_rule_requests build candidates) \<Longrightarrow>
     \<exists>port. build_gobgp_flowspec_rule_key (build port) = Some (request_key request)"
  by (induction build candidates rule: port_rule_requests.induct) (auto simp: Let_def split: option.splits)

lemma new_port_rules_absent:
  "(\<And>request. request \<in> set requests \<Longrightarrow> \<not> protocol_present (request_key request)) \<Longrightarrow>
     new_port_rules only lc requests m = m"
  by (induction only lc requests m rule: new_port_rules.induct) (auto simp: Let_def)

text \<open>For a protocol the builder does not know the plan never reserves anything.\<close>

lemma unknown_protocol_plan:
  assumes "attack_protocol attack \<notin> {ucast TCP, ucast UDP, ucast ICMP}"
    and "begin_refresh_protocol_rules only (port_rule_requests
      (\<lambda>port. build_gobgp_flowspec_ipv4_rule v attack hop port a rt_as rt_value) candidates) mx lc = (plan, lc')"
    and "ordered (rules lc)"
  shows "announce_requests plan = []" "lc' = lc"
proof -
  have "\<not> protocol_present (request_key request)"
    if request: "request \<in> set (port_rule_requests (\<lambda>port. build_gobgp_flowspec_ipv4_rule v attack hop port a rt_as rt_value) candidates)"
    for request
  proof -
    obtain port where "build_gobgp_flowspec_rule_key (build_gobgp_flowspec_ipv4_rule v attack hop port a rt_as rt_value)
        = Some (request_key request)"
      using port_rule_requests_keys [OF request] by blast
    from this [symmetric] show ?thesis
      using assms(1) by (simp add: built_rule_key Let_def)
  qed
  then have none: "new_port_rules (request_key only) lc (port_rule_requests
      (\<lambda>port. build_gobgp_flowspec_ipv4_rule v attack hop port a rt_as rt_value) candidates) [] = []"
    by (rule new_port_rules_absent)
  have "announce_requests plan = [] \<and> lc' = lc"
    using assms(2) none by (auto simp: begin_refresh_protocol_rules_def Let_def plan_default_def split: prod.splits if_splits)
  then show "announce_requests plan = []" "lc' = lc"
    by simp_all
qed

lemma owned_plan:
  assumes "owned lc (add_mset t N) paths" "neutral t" "protocol_only_key (request_key only)"
    and "begin_refresh_protocol_rules only requests mx lc = (plan, lc')"
  shows "owned lc' (N + mset (map (\<lambda>q. add_path_task (request_key q) (request_rule q) None b) (announce_requests plan))) paths"
proof -
  let ?es = "map (\<lambda>q. (request_key q, request_rule q)) (announce_requests plan)"
  have wf: "lifecycle_wf lc"
    using assms(1) by (rule ownedD(1))
  note R = refresh_ownership [OF wf assms(3,4)]
  have "lifecycle_wf lc'"
    using wf_begin_refresh_protocol_rules [OF wf] assms(4) by (metis snd_conv)
  then have "owned lc' (N + mset (add_tasks b None ?es)) paths"
    by (intro owned_reserve [OF assms(1,2)]) (use R in \<open>auto simp: o_def image_image\<close>)
  then show ?thesis
    by (simp add: add_tasks_def o_def)
qed

lemma owned_refresh_protocol:
  assumes "owned lc (add_mset t N) paths" "neutral t"
    and "refresh_protocol c v a hop rt_as rt_value result lc = (tasks, calls, lc')"
  shows "owned lc' (N + mset tasks) paths"
proof -
  define attack where "attack = attack_details_default\<lparr>attack_direction := INCOMING,
      attack_protocol := ucast (result_protocol result)\<rparr>"
  define build where "build = (\<lambda>port. build_gobgp_flowspec_ipv4_rule v attack hop port a rt_as rt_value)"
  have wf: "lifecycle_wf lc"
    using assms(1) by (rule ownedD(1))
  have keep: "owned lc N paths"
    using owned_neutral [OF assms(1,2), of "[]" lc] wf by simp
  obtain k where k: "build_gobgp_flowspec_rule_key (build None) = Some k"
    by (simp add: build_def built_rule_key)
  have only: "build None = build_gobgp_flowspec_ipv4_rule v attack hop None a rt_as rt_value"
    by (simp add: build_def)
  note run = assms(3) [unfolded refresh_protocol_def Let_def, folded attack_def, folded build_def, folded only,
      unfolded k option.case]
  show ?thesis
  proof (cases "result_protocol result = ICMP")
    case icmp: True
    show ?thesis
    proof (cases "begin_refresh_announce k (build None) lc")
      case (Pair ok lc1)
      note begun = Pair [unfolded begin_refresh_announce_eq]
      show ?thesis
      proof (cases ok)
        case False
        then have "tasks = []" "lc' = lc"
          using run icmp Pair begin_announce_refused [of k "build None" lc lc1] begun by auto
        with keep show ?thesis by simp
      next
        case True
        have "lifecycle_wf lc1"
          using wf_begin_announce [OF wf] begun by (metis snd_conv)
        then have "owned lc1 (N + mset (add_tasks False None [(k, build None)])) paths"
          by (intro owned_reserve [OF assms(1,2)]) (use begin_announce_ownership [OF wf begun] True in auto)
        then show ?thesis
          using run icmp Pair True by (auto simp: add_tasks_def announce_gobgp_flowspec_ipv4_rule_def)
      qed
    qed
  next
    case False
    let ?requests = "port_rule_requests build (significant_ports result)"
    obtain plan lc1 where plan: "begin_refresh_protocol_rules \<lparr>request_key = k, request_rule = build None\<rparr> ?requests
        (gobgp_flowspec_max_port_rules_per_protocol c) lc = (plan, lc1)"
      by fastforce
    have result: "tasks = map (\<lambda>q. add_path_task (request_key q) (request_rule q) None
        (plan_action plan = escalate_protocol_only)) (announce_requests plan)" "lc' = lc1"
      using run False plan by (simp_all add: announce_gobgp_flowspec_ipv4_rule_def)
    show ?thesis
    proof (cases "attack_protocol attack \<in> {ucast TCP, ucast UDP, ucast ICMP}")
      case True
      then have "protocol_only_key k"
        using k built_protocol_only_key unfolding build_def by blast
      then show ?thesis
        unfolding result by (intro owned_plan [OF assms(1,2) _ plan]) simp
    next
      case unknown: False
      note same = unknown_protocol_plan [OF unknown plan [unfolded build_def] lifecycle_wfD(1) [OF wf]]
      show ?thesis
        using keep by (simp add: result same)
    qed
  qed
qed

lemma owned_announce_answered:
  assumes "owned lc (add_mset (added_task k r cl b answer) N) paths"
    and "announce_answered c k r cl b answer lc = (tasks, calls, lc')"
  shows "owned lc' (N + mset tasks) paths"
proof (cases "answer = None \<or> answer = Some []")
  case True
  then have "tasks = []" "lc' = fail_announce k lc"
    using assms(2) by (auto simp: announce_answered_def)
  then show ?thesis
    using owned_added_failed [OF assms(1) True] by simp
next
  case False
  then obtain u where u: "answer = Some u" "u \<noteq> []"
    by auto
  obtain completion lc1 where told: "complete_announce k u lc = (completion, lc1)"
    by fastforce
  note A = owned_added [OF assms(1) [unfolded u] u(2) told]
  show ?thesis
  proof (cases completion)
    case announce_installed
    then have "owned lc1 (add_mset (cleanup_task k) N) paths"
      using A(1) ownedD [OF A(1)] by (intro ownedI) auto
    then show ?thesis
      using assms(2) u told announce_installed A(1) by (auto simp: announce_answered_def split: if_splits)
  next
    case withdraw_required
    then show ?thesis
      using assms(2) u told A(2) by (auto simp: announce_answered_def withdraw_gobgp_flowspec_ipv4_rule_def)
  qed (use A(3) in blast)
qed

section \<open>The invariant of the system\<close>

lemma withdraw_tasks: "concat (map withdraw_gobgp_flowspec_ipv4_rule requests) = map delete_path_task requests"
  by (induction requests) (simp_all add: withdraw_gobgp_flowspec_ipv4_rule_def)

lemma owned_task:
  assumes "owned lc (add_mset t N) paths" "run_task c add_path delete_path t lc = Done (tasks, calls, lc')"
    and "\<And>request u. add_path request = Some u \<Longrightarrow> u \<notin> fst ` paths"
  shows "owned lc' (N + mset tasks) (confirm add_path delete_path t paths)"
proof -
  have wf: "lifecycle_wf lc"
    using assms(1) by (rule ownedD(1))
  show ?thesis
  proof (cases t)
    case (add_path_task k r cl b)
    define answer where "answer = (case AnnounceFlowSpecIPv4 add_path r of Done u \<Rightarrow> Some u | _ \<Rightarrow> None)"
    have fresh: "u \<notin> fst ` paths" if "answer = Some u" for u
    proof -
      have "AnnounceFlowSpecIPv4 add_path r = Done u"
        using that by (simp add: answer_def split: outcome.splits)
      then show ?thesis
        using announce_uuid_answered assms(3) by blast
    qed
    from owned_add_path [OF assms(1) [unfolded add_path_task], of answer, OF fresh] show ?thesis
      using assms(2) by (auto simp: add_path_task answer_def split: outcome.splits)
  next
    case (delete_path_task request)
    let ?ok = "WithdrawFlowSpecIPv4 delete_path (withdraw_uuid request)"
    have "?ok \<Longrightarrow> withdraw_uuid request \<noteq> []"
      by (auto simp: WithdrawFlowSpecIPv4_def)
    from owned_delete_path [of _ _ _ _ ?ok, OF assms(1) [unfolded delete_path_task] this] show ?thesis
      using assms(2) by (auto simp: delete_path_task)
  next
    case (deleted_task request success)
    then show ?thesis
      using assms(1,2) owned_deleted(1) [of lc request success N paths]
      by (auto simp: withdraw_answered_def split: prod.splits)
  next
    case (unban_task v)
    obtain start lc1 where start: "begin_withdraw_for_victim v lc = (start, lc1)"
      by fastforce
    have "lifecycle_wf lc1"
      using wf_begin_withdraw [OF wf, of v] start by simp
    from owned_select [OF assms(1) _ this begin_withdraw_selects(1) [OF start]] show ?thesis
      using assms(2) start begin_withdraw_selects(2) [OF start]
      by (auto simp: unban_task neutral_tasks flowspec_unban_def withdraw_tasks)
  next
    case (cleanup_task k)
    obtain requests lc1 where cleanup: "begin_protocol_only_escalation_cleanup k lc = (requests, lc1)"
      by fastforce
    have wf1: "lifecycle_wf lc1"
      using wf_cleanup [OF wf, of k] cleanup by simp
    obtain sel where "rules lc1 = map_adjust (select_next sel) (rules lc)" "requests = selected_requests sel lc"
      using cleanup_selects [OF cleanup] .
    with owned_select [OF assms(1) _ wf1] show ?thesis
      using assms(2) cleanup
      by (auto simp: cleanup_task neutral_tasks cleanup_after_escalation_def withdraw_tasks)
  next
    case (ban_task v attack port cl)
    then show ?thesis
      using owned_ban [OF assms(1)] assms(2) by (auto simp: neutral_tasks)
  next
    case (refresh_protocol_task v a hop rt_as rt_value result)
    then show ?thesis
      using owned_refresh_protocol [OF assms(1)] assms(2) by (auto simp: neutral_tasks)
  next
    case (added_task k r cl b answer)
    then show ?thesis
      using owned_announce_answered [of lc k r cl b answer N paths] assms(1,2) by auto
  next
    case (refresh_task v results)
    then show ?thesis
      using assms(2) wf
      by (auto simp: neutral_tasks refresh_thread_def list_all_iff intro!: owned_neutral [OF assms(1)] split: option.splits)
  next
    case (finish_refresh_task v)
    have "rules (finish_refresh_capture v lc) = rules lc"
      by (simp add: finish_refresh_capture_def)
    then show ?thesis
      using assms(2) owned_neutral [OF assms(1), of "[]"] wf_finish_refresh_capture [OF wf]
      by (auto simp: finish_refresh_task neutral_tasks)
  qed (use assms(2) wf owned_neutral [OF assms(1), of "[]" lc] in \<open>auto simp: neutral_tasks split: outcome.splits\<close>)
qed

lemma system_inv_thread:
  assumes "system_inv s" "thread_step c s s'"
  shows "system_inv s'"
  using assms(2)
proof cases
  case (run_thread i t rest add_path delete_path result)
  obtain tasks calls lc where result: "result = (tasks, calls, lc)"
    by (cases result)
  obtain N where N: "pending s = add_mset t N" "\<And>tasks lc paths calls. pending (s\<lparr>sys_lifecycle := lc,
      threads := (threads s)[i := tasks @ rest], confirmed := paths, scripts := calls\<rparr>) = N + mset tasks"
    using pending_run [OF run_thread(2,3)] by metis
  have "owned lc (N + mset tasks) (confirm add_path delete_path t (confirmed s))"
    using owned_task [of "sys_lifecycle s" t N] assms(1) run_thread(4,5) N(1) result
    by (auto simp: system_inv_def fresh_uuids_def)
  then show ?thesis
    using run_thread(1) by (simp add: system_inv_def task_done_def result N(2))
qed

lemma owned_idle:
  assumes "owned lc M paths" "list_all neutral tasks" "lifecycle_wf lc'" "rules lc' = rules lc"
  shows "owned lc' (M + mset tasks) paths"
proof -
  have "owned lc (add_mset (unban_task 0) M) paths"
    using ownedD [OF assms(1)] by (intro ownedI) auto
  then show ?thesis
    using owned_neutral [OF _ neutral_tasks(2) assms(2-4)] by blast
qed

lemma started_threads_neutral:
  "list_all neutral (gobgp_ban_manage split read_ipv6 c name is_ipv6 v v6 attack port cl)"
  "list_all neutral (gobgp_flowspec_refresh_manage_ipv4 c v results)"
  by (auto simp: gobgp_ban_manage_def gobgp_ban_manage_ipv4_def gobgp_ban_manage_ipv6_def
      gobgp_ban_manage_flowspec_ipv4_def gobgp_flowspec_refresh_manage_ipv4_def neutral_tasks Let_def split: option.splits)

lemma capture_rules:
  "rules (snd (begin_refresh_capture v lc)) = rules lc" "rules (finish_refresh_capture v lc) = rules lc"
  by (simp_all add: begin_refresh_capture_def finish_refresh_capture_def)

lemma system_inv_step:
  assumes "system_inv s" "mitigation_step split read_ipv6 c s s'"
  shows "system_inv s'"
proof -
  have inv: "owned (sys_lifecycle s) (pending s) (confirmed s)"
    using assms(1) by (simp add: system_inv_def)
  note wf = ownedD(1) [OF inv]
  show ?thesis
    using assms(2)
  proof cases
    case thread
    then show ?thesis
      using system_inv_thread [OF assms(1)] by blast
  next
    case start_ban
    then show ?thesis
      using owned_idle [OF inv started_threads_neutral(1) wf refl] by (simp add: system_inv_def pending_def)
  next
    case start_refresh
    then show ?thesis
      using owned_idle [OF inv started_threads_neutral(2) wf refl] by (simp add: system_inv_def pending_def)
  next
    case (begin_capture v)
    then show ?thesis
      using owned_idle [OF inv, of "[]", OF _ wf_begin_refresh_capture [OF wf] capture_rules(1)]
      by (simp add: system_inv_def pending_def gobgp_flowspec_refresh_begin_ipv4_capture_def)
  next
    case (complete_capture v)
    then show ?thesis
      using owned_idle [OF inv, of "[]", OF _ wf_finish_refresh_capture [OF wf] capture_rules(2)]
      by (simp add: system_inv_def pending_def gobgp_flowspec_refresh_complete_ipv4_capture_def)
  qed
qed

lemma system_inv_init: "system_inv system_init"
  by (auto simp: system_inv_def system_init_def pending_def lifecycle_init_def ownership_defs named_apart_def
      intro!: ownedI lifecycle_wf_init [unfolded lifecycle_init_def])

interpretation ownership: invariant_system "\<lambda>s. s = system_init" "mitigation_step split read_ipv6 c" system_inv
  by unfold_locales (auto simp: system_inv_init intro: system_inv_step)

section \<open>Definedness\<close>

text \<open>Tasks whose remote call stays within the defined behaviour of C++.\<close>

fun well_defined :: "task \<Rightarrow> bool" where
  "well_defined (add_path_task k r cl b) \<longleftrightarrow> (\<forall>add_path. AnnounceFlowSpecIPv4 add_path r \<noteq> Undefined)"
| "well_defined (refresh_protocol_task v a hop rt_as rt_value result) \<longleftrightarrow> configurable_action a rt_as rt_value"
| "well_defined (announce_ipv4_task a w) \<longleftrightarrow> unat (cidr_prefix_length (prefix a)) \<le> 32"
| "well_defined (announce_ipv6_task a w) \<longleftrightarrow> unat (cidr_prefix_length6 (prefix6 a)) \<le> 128
     \<and> length (subnet_address6 (prefix6 a)) = 16"
| "well_defined t \<longleftrightarrow> True"

definition defined_inv :: "system \<Rightarrow> bool" where
  "defined_inv s \<longleftrightarrow> (\<forall>t \<in># pending s. well_defined t)"

lemma built_rule_well_defined:
  "configurable_action a rt_as rt_value \<Longrightarrow>
     well_defined (add_path_task k (build_gobgp_flowspec_ipv4_rule v attack hop port a rt_as rt_value) cl b)"
  by (simp add: announce_built_rule split: option.split)

lemma configured_target_configurable:
  "configured_target c = Some (a, hop, rt_as, rt_value) \<Longrightarrow> configurable_action a rt_as rt_value"
  by (auto simp: configured_target_def configurable_action_def get_configured_gobgp_flowspec_action_def
      parse_gobgp_flowspec_action_def get_configured_gobgp_flowspec_redirect_rt_def parse_gobgp_flowspec_redirect_rt_def
      Let_def split: option.splits if_splits)

lemma common_prefix_defined: "AnnounceCommonPrefix add_path nlri attributes w afi safi \<noteq> Undefined"
  by (simp add: AnnounceCommonPrefix_def split: option.split)

lemma unicast4_defined:
  assumes "unat (cidr_prefix_length (prefix a)) \<le> 32"
  shows "AnnounceUnicastPrefixLowLevelIPv4 add_path a w \<noteq> Undefined"
proof -
  obtain b where "generate_nlri a new_buffer = Done b"
    using netmask_defined [OF assms]
    by (auto simp: generate_nlri_def encode_bgp_subnet_encoding_def set_buffer_size_in_bytes_def new_buffer_def Let_def)
  then show ?thesis
    by (simp add: AnnounceUnicastPrefixLowLevelIPv4_def common_prefix_defined split: option.split)
qed

lemma ipv6_prefix_defined:
  assumes "unat (cidr_prefix_length6 p) \<le> 128" "length (subnet_address6 p) = 16"
  shows "encode_ipv6_prefix p b \<noteq> Undefined"
proof -
  have "unat (ucast (cidr_prefix_length6 p) :: u8) = unat (cidr_prefix_length6 p)"
    using assms(1) by (simp add: unsigned_ucast_eq take_bit_nat_eq_self)
  then have "how_much_bytes_we_need_for_storing_certain_subnet_mask (ucast (cidr_prefix_length6 p)) \<le> 16"
    using assms(1) by (simp add: how_much_bytes_we_need_for_storing_certain_subnet_mask_def)
  then show ?thesis
    using assms(2) by (auto simp: encode_ipv6_prefix_def Let_def split: prod.splits)
qed

lemma and_then_defined: "m \<noteq> Undefined \<Longrightarrow> (\<And>x. m = Done x \<Longrightarrow> f x \<noteq> Undefined) \<Longrightarrow> and_then m f \<noteq> Undefined"
  by (cases m) auto

lemma unicast6_defined:
  assumes "unat (cidr_prefix_length6 (prefix6 a)) \<le> 128" "length (subnet_address6 (prefix6 a)) = 16"
  shows "AnnounceUnicastPrefixLowLevelIPv6 add_path a w \<noteq> Undefined"
  unfolding AnnounceUnicastPrefixLowLevelIPv6_def encode_ipv6_announces_into_bgp_mp_reach_attribute_def
    encode_ipv6_announces_into_bgp_mp_reach_attribute_internal_def Let_def
  by (intro and_then_defined ipv6_prefix_defined [OF assms] common_prefix_defined) simp

lemma well_defined_run:
  assumes "well_defined t" shows "run_task c add_path delete_path t lc \<noteq> Undefined"
  using assms unicast4_defined unicast6_defined by (cases t) (auto split: outcome.splits)

lemma request_rules_built:
  assumes "request \<in> set (port_rule_requests build candidates)"
  shows "\<exists>port. request_rule request = build port"
  using assms by (induction build candidates rule: port_rule_requests.induct) (auto simp: Let_def split: option.splits)

lemma plan_requests:
  assumes "begin_refresh_protocol_rules only requests mx lc = (plan, lc')" "ordered (rules lc)"
    and "request \<in> set (announce_requests plan)"
  shows "request = only \<or> request \<in> set requests"
  using assms(1,2)
proof (cases rule: refresh_plan_cases)
  case add
  then show ?thesis
    using assms(3) new_port_rules_mem(1) by auto
qed (use assms(3) in simp_all)

lemma refresh_protocol_defined:
  assumes "configurable_action a rt_as rt_value" "lifecycle_wf lc"
    and "refresh_protocol c v a hop rt_as rt_value result lc = (tasks, calls, lc')"
  shows "list_all well_defined tasks"
proof -
  define attack where "attack = attack_details_default\<lparr>attack_direction := INCOMING,
      attack_protocol := ucast (result_protocol result)\<rparr>"
  define build where "build = (\<lambda>port. build_gobgp_flowspec_ipv4_rule v attack hop port a rt_as rt_value)"
  have built: "well_defined (add_path_task k (build port) cl b)" for k port cl b
    unfolding build_def by (rule built_rule_well_defined [OF assms(1)])
  have only: "build None = build_gobgp_flowspec_ipv4_rule v attack hop None a rt_as rt_value"
    by (simp add: build_def)
  have planned: "\<exists>port. request_rule q = build port"
    if "begin_refresh_protocol_rules \<lparr>request_key = k, request_rule = build None\<rparr>
        (port_rule_requests build candidates) mx lc = (plan, lc1)" "q \<in> set (announce_requests plan)"
    for q k candidates mx plan lc1
    using plan_requests [OF that(1) lifecycle_wfD(1) [OF assms(2)] that(2)] request_rules_built by fastforce
  note run = assms(3) [unfolded refresh_protocol_def Let_def, folded attack_def, folded build_def, folded only]
  show ?thesis
    using run built planned
    by (fastforce simp: announce_gobgp_flowspec_ipv4_rule_def list_all_iff split: option.splits if_splits prod.splits)
qed

lemma run_task_defined:
  assumes "well_defined t" "lifecycle_wf lc" "run_task c add_path delete_path t lc = Done (tasks, calls, lc')"
  shows "list_all well_defined tasks"
proof (cases t)
  case (ban_task v attack port cl)
  then show ?thesis
    using assms(3) built_rule_well_defined configured_target_configurable
    by (fastforce simp: flowspec_ban_def Let_def announce_gobgp_flowspec_ipv4_rule_def
        simp del: well_defined.simps(1) split: option.splits prod.splits if_splits)
next
  case (refresh_protocol_task v a hop rt_as rt_value result)
  then show ?thesis
    using assms refresh_protocol_defined by auto
next
  case (refresh_task v results)
  then show ?thesis
    using assms(3) configured_target_configurable
    by (auto simp: refresh_thread_def list_all_iff split: option.splits)
qed (use assms(3) in \<open>auto simp: flowspec_unban_def announce_answered_def withdraw_answered_def cleanup_after_escalation_def
    withdraw_gobgp_flowspec_ipv4_rule_def list_all_iff Let_def
    split: outcome.splits option.splits prod.splits if_splits gobgp_flowspec_announce_completion_t.splits\<close>)

lemma started_threads_defined:
  "legal_attack attack v6 \<Longrightarrow> list_all well_defined (gobgp_ban_manage split read_ipv6 c name is_ipv6 v v6 attack port cl)"
  "list_all well_defined (gobgp_flowspec_refresh_manage_ipv4 c v results)"
  by (auto simp: gobgp_ban_manage_def gobgp_ban_manage_ipv4_def gobgp_ban_manage_ipv6_def legal_attack_def
      gobgp_ban_manage_flowspec_ipv4_def gobgp_flowspec_refresh_manage_ipv4_def subnet_cidr_mask_def Let_def
      split: option.splits)

lemma defined_inv_step:
  assumes "system_inv s \<and> defined_inv s" "mitigation_step split read_ipv6 c s s'"
  shows "system_inv s' \<and> defined_inv s'"
proof
  show "system_inv s'"
    using assms system_inv_step by blast
  have wf: "lifecycle_wf (sys_lifecycle s)"
    using assms(1) ownedD(1) unfolding system_inv_def by blast
  show "defined_inv s'"
    using assms(2)
  proof cases
    case thread
    then show ?thesis
    proof cases
      case (run_thread i t rest add_path delete_path result)
      obtain tasks calls lc where result: "result = (tasks, calls, lc)"
        by (cases result)
      obtain N where N: "pending s = add_mset t N" "\<And>tasks lc paths calls. pending (s\<lparr>sys_lifecycle := lc,
          threads := (threads s)[i := tasks @ rest], confirmed := paths, scripts := calls\<rparr>) = N + mset tasks"
        using pending_run [OF run_thread(2,3)] by metis
      have "list_all well_defined tasks"
        using run_task_defined [OF _ wf run_thread(5) [unfolded result]] assms(1) N(1) by (simp add: defined_inv_def)
      then show ?thesis
        using assms(1) N run_thread(1) by (auto simp: defined_inv_def task_done_def result list_all_iff)
    qed
  qed (use assms(1) started_threads_defined in \<open>force simp: defined_inv_def pending_def list_all_iff\<close>)+
qed

interpretation definedness: invariant_system "\<lambda>s. s = system_init" "mitigation_step split read_ipv6 c"
  "\<lambda>s. system_inv s \<and> defined_inv s"
proof unfold_locales
  show "system_inv s \<and> defined_inv s" if "s = system_init" for s
    using that system_inv_init by (simp add: defined_inv_def system_init_def pending_def)
qed (rule defined_inv_step)

section \<open>Termination\<close>

text \<open>Every task leaves only tasks of a lower rank.\<close>

fun rank :: "task \<Rightarrow> nat" where
  "rank (refresh_task v results) = 7"
| "rank (refresh_protocol_task v a hop rt_as rt_value result) = 6"
| "rank (ban_task v attack port cl) = 6"
| "rank (add_path_task k r cl b) = 5"
| "rank (added_task k r cl b answer) = 4"
| "rank (cleanup_task k) = 3"
| "rank (unban_task v) = 3"
| "rank (delete_path_task request) = 2"
| "rank (deleted_task request success) = 1"
| "rank (finish_refresh_task v) = 0"
| "rank (announce_ipv4_task a4 w) = 0"
| "rank (announce_ipv6_task a6 w) = 0"

lemma run_task_rank:
  assumes "run_task c add_path delete_path t lc = Done (tasks, calls, lc')"
  shows "list_all (\<lambda>t'. rank t' < rank t) tasks"
  using assms
  by (cases t)
    (auto simp: flowspec_ban_def flowspec_unban_def announce_answered_def withdraw_answered_def cleanup_after_escalation_def
      withdraw_gobgp_flowspec_ipv4_rule_def announce_gobgp_flowspec_ipv4_rule_def refresh_thread_def refresh_protocol_def
      list_all_iff Let_def split: outcome.splits option.splits prod.splits if_splits gobgp_flowspec_announce_completion_t.splits)

lemma thread_step_rank:
  assumes "thread_step c s s'"
  shows "(image_mset rank (pending s'), image_mset rank (pending s)) \<in> mult {(m, n :: nat). m < n}"
  using assms
proof cases
  case (run_thread i t rest add_path delete_path result)
  obtain tasks calls lc where result: "result = (tasks, calls, lc)"
    by (cases result)
  obtain N where N: "pending s = add_mset t N" "\<And>tasks lc paths calls. pending (s\<lparr>sys_lifecycle := lc,
      threads := (threads s)[i := tasks @ rest], confirmed := paths, scripts := calls\<rparr>) = N + mset tasks"
    using pending_run [OF run_thread(2,3)] by metis
  have "\<forall>n \<in># image_mset rank (mset tasks). n < rank t"
    using run_task_rank [OF run_thread(5) [unfolded result]] by (auto simp: list_all_iff)
  then have "(image_mset rank N + image_mset rank (mset tasks), image_mset rank N + {#rank t#}) \<in> mult {(m, n :: nat). m < n}"
    by (intro one_step_implies_mult) auto
  then show ?thesis
    using N run_thread(1) by (simp add: task_done_def result)
qed

lemma wf_thread_step: "wf {(s', s). thread_step c s s'}"
proof -
  have "wf {(m, n :: nat). m < n}"
    by (rule wf_less)
  then have "wf (inv_image (mult {(m, n :: nat). m < n}) (\<lambda>s. image_mset rank (pending s)))"
    by (intro wf_inv_image wf_mult)
  then show ?thesis
    by (rule wf_subset) (auto simp: thread_step_rank)
qed

section \<open>Reachable states\<close>

definition quiescent :: "system \<Rightarrow> bool" where
  "quiescent s \<longleftrightarrow> list_all (\<lambda>tasks. tasks = []) (threads s)"

lemma quiescent_pending: "quiescent s \<longleftrightarrow> pending s = {#}"
  by (auto simp: quiescent_def pending_def list_all_iff)

lemma reachable_owned:
  assumes "reachable split read_ipv6 c s"
  shows "owned (sys_lifecycle s) (pending s) (confirmed s)" "defined_inv s"
  using definedness.inv_reach assms unfolding reachable_def system_inv_def by blast+

lemma pending_thread: "i < length (threads s) \<Longrightarrow> threads s ! i = t # rest \<Longrightarrow> t \<in># pending s"
  using nth_mem [of i "threads s"] by (auto simp: pending_def intro!: bexI [of _ "t # rest"])

lemma task_rest: "t \<in># M \<Longrightarrow> \<exists>N. M = add_mset t N"
  by (metis insert_DiffM)

lemma reachable_defined:
  assumes "reachable split read_ipv6 c s" "t \<in># pending s"
  shows "run_task c add_path delete_path t (sys_lifecycle s) \<noteq> Undefined"
  using reachable_owned(2) [OF assms(1)] assms(2) by (intro well_defined_run) (simp add: defined_inv_def)

lemma quiescent_paths:
  assumes "owned lc {#} paths"
  shows "paths = {(u, k). holds lc k u}" "\<not> awaiting lc k" "\<not> going lc k u"
  using ownedD(2) [OF assms, of k] ownedD(3) [OF assms, of k u] ownedD(4) [OF assms] by (auto split: if_splits)

lemma settled_rule:
  assumes "owned lc {#} paths" "map_find (rules lc) k = Some st"
  shows "state st = installed \<or> state st = withdraw_requested" "add_path_uuid st \<noteq> []" "(add_path_uuid st, k) \<in> paths"
proof -
  note Q = quiescent_paths [OF assms(1)]
  have "\<not> awaiting lc k" "\<not> going lc k (add_path_uuid st)" "uuid_ok st"
    using Q lifecycle_wfD(2) [OF ownedD(1) [OF assms(1)] assms(2)] by simp_all
  then show "state st = installed \<or> state st = withdraw_requested" and uuid: "add_path_uuid st \<noteq> []"
    using assms(2) by (cases "state st"; auto simp: awaiting_def going_def uuid_ok_def)+
  show "(add_path_uuid st, k) \<in> paths"
    using uuid assms(2) by (simp add: Q(1) holds_def)
qed

lemma count_tasks_pos: "count_tasks P M > 0 \<Longrightarrow> \<exists>t \<in># M. P t"
  by (induction M) (auto split: if_splits)

lemma path_accounted:
  assumes "owned lc M paths" "(u, k) \<in> paths"
  shows "holds lc k u \<or> (\<exists>t \<in># M. just_added k u t)"
  using ownedD(4) [OF assms(1), of u k] assms(2) count_tasks_pos by blast

end
