(* ===== verification/Mitigation_Runs.thy ===== *)
theory Mitigation_Runs
  imports Mitigation
begin

text \<open>
  What every run of the mitigation guarantees, whatever the interleaving of its threads and the
  answers of GoBGP: no path is lost, every answer of GoBGP meets the rule that waits for it, the
  encoders stay within the defined behaviour of C++, and the threads come to an end.
\<close>

section \<open>A run\<close>

text \<open>One UDP attack that is banned, with GoBGP answering \<open>''u''\<close>.\<close>

definition example_configuration :: gobgp_configuration where
  "example_configuration = gobgp_configuration_default
     \<lparr>gobgp := True, gobgp_flowspec := True, gobgp_flowspec_action := ''discard''\<rparr>"

definition example_rule :: flow_spec_rule_t where
  "example_rule = build_gobgp_flowspec_ipv4_rule 16909060 example_attack 0 None FLOW_SPEC_ACTION_DISCARD 0 0"

definition example_udp_key :: gobgp_flowspec_rule_key_t where
  "example_udp_key = \<lparr>destination_ipv4 = 16909060, protocol_present = True, key_protocol = UDP,
     destination_port_present = False, key_destination_port = 0\<rparr>"

definition example_ban :: task where
  "example_ban = ban_task 16909060 example_attack None None"

definition example_table :: "gobgp_flowspec_rule_state_type_t \<Rightarrow> string \<Rightarrow> lifecycle" where
  "example_table phase uuid = lifecycle_init
     \<lparr>rules := [(example_udp_key, \<lparr>state = phase, flow_spec_rule = example_rule, add_path_uuid = uuid\<rparr>)]\<rparr>"

definition banning :: system where
  "banning = system_init\<lparr>threads := [[example_ban]]\<rparr>"

definition announcing_run :: system where
  "announcing_run = banning\<lparr>sys_lifecycle := example_table announcing [],
     threads := [[add_path_task example_udp_key example_rule None False]]\<rparr>"

definition answered_run :: system where
  "answered_run = announcing_run\<lparr>threads := [[added_task example_udp_key example_rule None False (Some ''u'')]],
     confirmed := {(''u'', example_udp_key)}\<rparr>"

definition settled_run :: system where
  "settled_run = answered_run\<lparr>sys_lifecycle := example_table installed ''u'', threads := [[]]\<rparr>"

definition no_split :: "string \<Rightarrow> string \<Rightarrow> string list" where
  "no_split s delimiter = [s]"

definition no_ipv6 :: "string \<Rightarrow> bytes option" where
  "no_ipv6 s = None"

abbreviation example_reachable :: "system \<Rightarrow> bool" where
  "example_reachable \<equiv> reachable no_split no_ipv6 example_configuration"

lemma reachable_init: "reachable split read_ipv6 c system_init"
  by (simp add: reachable_def reach_init)

lemma reachable_step: "reachable split read_ipv6 c s \<Longrightarrow> mitigation_step split read_ipv6 c s t \<Longrightarrow> reachable split read_ipv6 c t"
  unfolding reachable_def by (rule reach_step)

lemma example_target: "configured_target example_configuration = Some (FLOW_SPEC_ACTION_DISCARD, 0, 0, 0)"
  by (simp add: configured_target_def get_configured_gobgp_flowspec_action_def example_configuration_def
      parse_gobgp_flowspec_action_def)

lemma example_rule_key: "build_gobgp_flowspec_rule_key example_rule = Some example_udp_key"
  by (simp add: example_rule_def built_rule_key example_attack_def example_udp_key_def protocol_defs)

lemma banning_reachable: "example_reachable banning"
proof -
  have legal: "legal_attack example_attack \<lparr>subnet_address6 = replicate 16 0, cidr_prefix_length6 = 128\<rparr>"
    by (simp add: legal_attack_def example_attack_def attack_details_default_def subnet_cidr_mask_def)
  have "example_reachable (system_init\<lparr>threads := threads system_init @
      [gobgp_ban_manage no_split no_ipv6 example_configuration ''ban'' False 16909060
        \<lparr>subnet_address6 = replicate 16 0, cidr_prefix_length6 = 128\<rparr> example_attack None None]\<rparr>)"
    using reachable_step [OF reachable_init start_ban [OF legal]] .
  then show ?thesis
    by (simp add: banning_def system_init_def gobgp_ban_manage_def gobgp_ban_manage_ipv4_def
        gobgp_ban_manage_flowspec_ipv4_def example_configuration_def example_ban_def)
qed

lemma announcing_reachable: "example_reachable announcing_run"
proof -
  have "run_task example_configuration (\<lambda>_. None) (\<lambda>_. False) example_ban (sys_lifecycle banning) =
      Done ([add_path_task example_udp_key example_rule None False], [], example_table announcing [])"
    by (simp add: example_ban_def flowspec_ban_def example_target example_rule_key flip: example_rule_def)
      (simp add: begin_announce_def banning_def system_init_def lifecycle_init_def example_table_def announcing_state_def
        announce_gobgp_flowspec_ipv4_rule_def map_emplace_def)
  then have "thread_step example_configuration banning (task_done (\<lambda>_. None) (\<lambda>_. False) 0 example_ban []
      ([add_path_task example_udp_key example_rule None False], [], example_table announcing []) banning)"
    by (intro run_thread) (simp_all add: banning_def fresh_uuids_def)
  then have "example_reachable (task_done (\<lambda>_. None) (\<lambda>_. False) 0 example_ban []
      ([add_path_task example_udp_key example_rule None False], [], example_table announcing []) banning)"
    using reachable_step [OF banning_reachable] thread by blast
  then show ?thesis
    by (simp add: task_done_def banning_def announcing_run_def system_init_def example_ban_def)
qed

lemma answered_reachable: "example_reachable answered_run"
proof -
  have announced: "AnnounceFlowSpecIPv4 (\<lambda>_. Some ''u'') example_rule = Done ''u''"
    by (simp add: example_rule_def announce_built_rule configurable_action_def)
  have "thread_step example_configuration announcing_run (task_done (\<lambda>_. Some ''u'') (\<lambda>_. False) 0
      (add_path_task example_udp_key example_rule None False) []
      ([added_task example_udp_key example_rule None False (Some ''u'')], [], example_table announcing []) announcing_run)"
    by (intro run_thread) (simp_all add: announcing_run_def banning_def system_init_def fresh_uuids_def announced)
  then have "example_reachable (task_done (\<lambda>_. Some ''u'') (\<lambda>_. False) 0
      (add_path_task example_udp_key example_rule None False) []
      ([added_task example_udp_key example_rule None False (Some ''u'')], [], example_table announcing []) announcing_run)"
    using reachable_step [OF announcing_reachable] thread by blast
  then show ?thesis
    by (simp add: task_done_def banning_def announcing_run_def answered_run_def system_init_def announced)
qed

lemma settled_reachable: "example_reachable settled_run"
proof -
  have told: "announce_answered example_configuration example_udp_key example_rule None False (Some ''u'')
      (example_table announcing []) = ([], [], example_table installed ''u'')"
    by (simp add: announce_answered_def complete_announce_def example_table_def example_configuration_def
        gobgp_configuration_default_def send_gobgp_flowspec_success_notification_def lifecycle_init_def)
  have "thread_step example_configuration answered_run (task_done (\<lambda>_. None) (\<lambda>_. False) 0
      (added_task example_udp_key example_rule None False (Some ''u'')) []
      ([], [], example_table installed ''u'') answered_run)"
    by (intro run_thread) (simp_all add: answered_run_def announcing_run_def fresh_uuids_def told)
  then have "example_reachable (task_done (\<lambda>_. None) (\<lambda>_. False) 0
      (added_task example_udp_key example_rule None False (Some ''u'')) []
      ([], [], example_table installed ''u'') answered_run)"
    using reachable_step [OF answered_reachable] thread by blast
  then show ?thesis
    by (simp add: task_done_def banning_def answered_run_def settled_run_def announcing_run_def system_init_def)
qed

lemma run_task_not_failed: "run_task c add_path delete_path t lc \<noteq> Failed"
  by (cases t) (simp_all split: outcome.split)

section \<open>Properties\<close>

text \<open>
  C1. No path leaks. Whatever the interleaving of the threads and the answers of GoBGP, every path
  GoBGP has confirmed and not deleted is recorded under its rule in the table, or a thread is about
  to record it. Once all threads are done, the recorded UUIDs are exactly the confirmed paths, and every
  rule of the table is installed or waits for another withdrawal attempt, with its UUID.
\<close>

theorem paths_never_leak:
  assumes "reachable split read_ipv6 c s"
  shows "(\<forall>u k. (u, k) \<in> confirmed s \<longrightarrow> holds (sys_lifecycle s) k u \<or> (\<exists>t \<in># pending s. just_added k u t))
    \<and> (quiescent s \<longrightarrow> confirmed s = {(u, k). holds (sys_lifecycle s) k u}
         \<and> (\<forall>k st. map_find (rules (sys_lifecycle s)) k = Some st \<longrightarrow>
              (state st = installed \<or> state st = withdraw_requested) \<and> (add_path_uuid st, k) \<in> confirmed s))"
proof (intro conjI impI allI)
  note inv = reachable_owned(1) [OF assms]
  show "holds (sys_lifecycle s) k u \<or> (\<exists>t \<in># pending s. just_added k u t)" if "(u, k) \<in> confirmed s" for u k
    by (rule path_accounted [OF inv that])
  assume "quiescent s"
  then have idle: "owned (sys_lifecycle s) {#} (confirmed s)"
    using inv by (simp add: quiescent_pending)
  show "confirmed s = {(u, k). holds (sys_lifecycle s) k u}"
    by (rule quiescent_paths(1) [OF idle])
  show "state st = installed \<or> state st = withdraw_requested" "(add_path_uuid st, k) \<in> confirmed s"
    if "map_find (rules (sys_lifecycle s)) k = Some st" for k st
    using settled_rule [OF idle that] by blast+
qed

lemma paths_never_leak_witness:
  "confirmed settled_run = {(u, k). holds (sys_lifecycle settled_run) k u} \<and> (''u'', example_udp_key) \<in> confirmed settled_run"
  using paths_never_leak [OF settled_reachable]
  by (intro conjI; (simp add: quiescent_def settled_run_def answered_run_def; fail)?)
    (simp add: settled_run_def answered_run_def)

text \<open>
  C3. Every answer of GoBGP meets the rule that waits for it: when a thread reports a confirmed
  AddPath to the lifecycle the rule is installed or the path is withdrawn at once, and when it
  reports the result of a DeletePath the rule is erased or kept for another attempt. Neither report is ever
  ignored.
\<close>

theorem answers_never_ignored:
  assumes "reachable split read_ipv6 c s" "i < length (threads s)" "threads s ! i = t # rest"
  shows "(\<forall>key r classifier_result cleanup uuid. t = added_task key r classifier_result cleanup (Some uuid) \<and> uuid \<noteq> []
        \<longrightarrow> fst (complete_announce key uuid (sys_lifecycle s)) \<noteq> announce_ignored)
    \<and> (\<forall>request success. t = deleted_task request success
        \<longrightarrow> fst (complete_withdraw (withdraw_key request) (withdraw_uuid request) success (sys_lifecycle s)) \<noteq> withdraw_ignored)"
proof (intro conjI allI impI; (elim conjE)?)
  obtain N where N: "pending s = add_mset t N"
    using task_rest [OF pending_thread [OF assms(2,3)]] by (elim exE)
  note inv = reachable_owned(1) [OF assms(1), unfolded N]
  show "fst (complete_announce key uuid (sys_lifecycle s)) \<noteq> announce_ignored"
    if "t = added_task key r classifier_result cleanup (Some uuid)" "uuid \<noteq> []"
    for key r classifier_result cleanup uuid
    by (rule owned_added(3) [OF inv [unfolded that(1)] that(2) prod.collapse [symmetric]])
  show "fst (complete_withdraw (withdraw_key request) (withdraw_uuid request) success (sys_lifecycle s)) \<noteq> withdraw_ignored"
    if "t = deleted_task request success" for request success
    by (rule owned_deleted(2) [OF inv [unfolded that] prod.collapse [symmetric]])
qed

lemma answers_never_ignored_witness:
  "fst (complete_announce example_udp_key ''u'' (sys_lifecycle answered_run)) \<noteq> announce_ignored"
proof -
  have "threads answered_run ! 0 = added_task example_udp_key example_rule None False (Some ''u'') # []"
    by (simp add: answered_run_def)
  from answers_never_ignored [OF answered_reachable _ this] show ?thesis
    by (auto simp: answered_run_def)
qed

text \<open>
  C5. No reachable call of the mitigation leaves the defined behaviour of C++: whatever GoBGP
  answers, every task a thread comes to has an outcome.
\<close>

theorem no_undefined_behaviour:
  assumes "reachable split read_ipv6 c s" "i < length (threads s)" "threads s ! i = t # rest"
  shows "\<exists>result. run_task c add_path delete_path t (sys_lifecycle s) = Done result"
  using reachable_defined [OF assms(1) pending_thread [OF assms(2,3)], of add_path delete_path]
    run_task_not_failed [of c add_path delete_path t "sys_lifecycle s"]
  by (cases "run_task c add_path delete_path t (sys_lifecycle s)") blast+

lemma no_undefined_behaviour_witness:
  "\<exists>result. run_task example_configuration (\<lambda>_. None) (\<lambda>_. True)
     (add_path_task example_udp_key example_rule None False) (sys_lifecycle announcing_run) = Done result"
  by (rule no_undefined_behaviour [OF announcing_reachable, of 0]) (simp_all add: announcing_run_def)

text \<open>
  C4. The threads of the mitigation come to an end: there is no infinite run of their tasks,
  whatever GoBGP answers and however they interleave, for any configuration and from any state.
\<close>

theorem threads_terminate: "wf {(s', s). thread_step c s s'}"
  by (rule wf_thread_step)

end
