(* ===== verification/Lifecycle_Spec.thy ===== *)
theory Lifecycle_Spec
  imports Path_Ownership
begin

text \<open>
  What the lifecycle promises, without its table: every rule key is a state machine of its own, and
  an operation moves the machines of the keys it concerns. The class in
  \<^verbatim>\<open>src/actions/gobgp_flowspec_lifecycle.cpp\<close> implements this with one ordered map of entries,
  loops over it and UUIDs that may be empty; the refinement shows that every sequence of its
  operations does exactly what the specification says.
\<close>

section \<open>Specification\<close>

text \<open>
  \<open>Cancelled\<close> waits for the answer to an AddPath it no longer wants, \<open>Retrying\<close> for another
  attempt to delete a confirmed path.
\<close>

datatype phase = Absent | Announcing | Cancelled | Installed string | Retrying string | Deleting string

record lifecycle_spec =
  phase_of :: "gobgp_flowspec_rule_key_t \<Rightarrow> phase"
  fenced :: "u32 set"
  refreshing :: "u32 set"

text \<open>The only ways a rule may move.\<close>

inductive phase_step :: "phase \<Rightarrow> phase \<Rightarrow> bool" where
  reserved: "phase_step Absent Announcing"
| installed_at: "u \<noteq> [] \<Longrightarrow> phase_step Announcing (Installed u)"
| failed: "phase_step Announcing Absent"
| cancelled: "phase_step Announcing Cancelled"
| cancelled_failed: "phase_step Cancelled Absent"
| cancelled_answered: "u \<noteq> [] \<Longrightarrow> phase_step Cancelled (Deleting u)"
| withdrawn: "phase_step (Installed u) (Deleting u)"
| deleted: "phase_step (Deleting u) Absent"
| delete_failed: "phase_step (Deleting u) (Retrying u)"
| retried: "phase_step (Retrying u) (Deleting u)"

fun leave :: "phase \<Rightarrow> phase" where
  "leave Announcing = Cancelled"
| "leave (Installed u) = Deleting u"
| "leave (Retrying u) = Deleting u"
| "leave p = p"

definition move :: "gobgp_flowspec_rule_key_t \<Rightarrow> phase \<Rightarrow> lifecycle_spec \<Rightarrow> lifecycle_spec" where
  "move k p s = s\<lparr>phase_of := (phase_of s)(k := p)\<rparr>"

definition move_all :: "(gobgp_flowspec_rule_key_t \<Rightarrow> bool) \<Rightarrow> (phase \<Rightarrow> phase) \<Rightarrow> lifecycle_spec \<Rightarrow> lifecycle_spec" where
  "move_all P f s = s\<lparr>phase_of := \<lambda>k. if P k then f (phase_of s k) else phase_of s k\<rparr>"

text \<open>The fence of a victim falls when it has no rule and no capture.\<close>

definition release :: "u32 \<Rightarrow> lifecycle_spec \<Rightarrow> lifecycle_spec" where
  "release v s = (if (\<exists>k. destination_ipv4 k = v \<and> phase_of s k \<noteq> Absent) \<or> v \<in> refreshing s then s
                  else s\<lparr>fenced := fenced s - {v}\<rparr>)"

definition spec_announce :: "gobgp_flowspec_rule_key_t \<Rightarrow> lifecycle_spec \<Rightarrow> lifecycle_spec" where
  "spec_announce k s =
     (if destination_ipv4 k \<notin> fenced s \<and> phase_of s k = Absent then move k Announcing s else s)"

definition spec_refresh :: "gobgp_flowspec_rule_key_t \<Rightarrow> gobgp_flowspec_rule_key_t set \<Rightarrow> nat
    \<Rightarrow> lifecycle_spec \<Rightarrow> lifecycle_spec" where
  "spec_refresh only wanted budget s =
     (let present = {k. same_protocol only k \<and> phase_of s k \<noteq> Absent};
          ports = {k \<in> present. destination_port_present k};
          new_ports = {k \<in> wanted. same_protocol only k \<and> destination_port_present k \<and> phase_of s k = Absent}
      in if destination_ipv4 only \<in> fenced s \<or> ports \<noteq> present \<or> new_ports = {} then s
         else if card ports + card new_ports > budget then spec_announce only s
         else move_all (\<lambda>k. k \<in> new_ports) (\<lambda>_. Announcing) s)"

fun spec_op :: "lifecycle_op \<Rightarrow> lifecycle_spec \<Rightarrow> lifecycle_spec" where
  "spec_op (op_begin_announce k r) s = spec_announce k s"
| "spec_op (op_begin_refresh_announce k r) s = spec_announce k s"
| "spec_op (op_begin_refresh_capture v) s =
     (if v \<in> fenced s then s else s\<lparr>refreshing := insert v (refreshing s)\<rparr>)"
| "spec_op (op_complete_refresh_capture v) s = s\<lparr>refreshing := refreshing s - {v}\<rparr>"
| "spec_op (op_finish_refresh_capture v) s = release v (s\<lparr>refreshing := refreshing s - {v}\<rparr>)"
| "spec_op (op_fail_announce k) s =
     (if phase_of s k \<in> {Announcing, Cancelled} then release (destination_ipv4 k) (move k Absent s) else s)"
| "spec_op (op_complete_announce k u) s =
     (if u = [] then s
      else if phase_of s k = Announcing then move k (Installed u) s
      else if phase_of s k = Cancelled then move k (Deleting u) s else s)"
| "spec_op (op_begin_withdraw v) s =
     release v (move_all (\<lambda>k. destination_ipv4 k = v) leave (s\<lparr>fenced := insert v (fenced s)\<rparr>))"
| "spec_op (op_complete_withdraw k u success) s =
     (if phase_of s k \<noteq> Deleting u then s
      else if success then release (destination_ipv4 k) (move k Absent s) else move k (Retrying u) s)"
| "spec_op (op_begin_refresh_protocol q qs budget) s =
     spec_refresh (request_key q) (request_key ` set qs) (unat budget) s"
| "spec_op (op_cleanup k) s =
     (if (\<exists>u. phase_of s k = Installed u) \<and> destination_ipv4 k \<notin> fenced s
      then move_all (\<lambda>k'. same_protocol k k' \<and> destination_port_present k') leave s else s)"

definition spec_init :: lifecycle_spec where
  "spec_init = \<lparr>phase_of = \<lambda>_. Absent, fenced = {}, refreshing = {}\<rparr>"

section \<open>Abstraction\<close>

fun entry_phase :: "gobgp_flowspec_rule_state_t option \<Rightarrow> phase" where
  "entry_phase None = Absent"
| "entry_phase (Some st) =
     (case state st of
        announcing \<Rightarrow> Announcing
      | installed \<Rightarrow> Installed (add_path_uuid st)
      | withdraw_requested \<Rightarrow> (if add_path_uuid st = [] then Cancelled else Retrying (add_path_uuid st))
      | withdrawing \<Rightarrow> Deleting (add_path_uuid st))"

definition abs_lifecycle :: "lifecycle \<Rightarrow> lifecycle_spec" where
  "abs_lifecycle lc = \<lparr>phase_of = \<lambda>k. entry_phase (map_find (rules lc) k),
     fenced = victims_withdraw_requested lc, refreshing = victims_refresh_in_progress lc\<rparr>"

lemma abs_simps [simp]:
  "phase_of (abs_lifecycle lc) k = entry_phase (map_find (rules lc) k)"
  "fenced (abs_lifecycle lc) = victims_withdraw_requested lc"
  "refreshing (abs_lifecycle lc) = victims_refresh_in_progress lc"
  "abs_lifecycle (lc\<lparr>victims_withdraw_requested := F\<rparr>) = (abs_lifecycle lc)\<lparr>fenced := F\<rparr>"
  "abs_lifecycle (lc\<lparr>victims_refresh_in_progress := R\<rparr>) = (abs_lifecycle lc)\<lparr>refreshing := R\<rparr>"
  by (simp_all add: abs_lifecycle_def)

lemma entry_phase_Absent [simp]: "entry_phase x = Absent \<longleftrightarrow> x = None"
  by (cases x) (auto split: gobgp_flowspec_rule_state_type_t.splits)

lemma abs_release:
  assumes "ordered (rules lc)"
  shows "abs_lifecycle (clear_withdraw_fence_if_finished_locked v lc) = release v (abs_lifecycle lc)"
proof -
  have "(\<exists>k. destination_ipv4 k = v \<and> phase_of (abs_lifecycle lc) k \<noteq> Absent) \<longleftrightarrow> victim_has_rules_locked v lc"
    unfolding victim_has_rules_find [OF assms] abs_simps entry_phase_Absent by blast
  then show ?thesis
    unfolding clear_withdraw_fence_if_finished_locked_def release_def by simp
qed

lemma abs_rules:
  "ordered (rules lc) \<Longrightarrow> abs_lifecycle (lc\<lparr>rules := map_put k st (rules lc)\<rparr>) = move k (entry_phase (Some st)) (abs_lifecycle lc)"
  "ordered (rules lc) \<Longrightarrow> map_find (rules lc) k = None \<Longrightarrow>
     abs_lifecycle (lc\<lparr>rules := map_emplace k st (rules lc)\<rparr>) = move k (entry_phase (Some st)) (abs_lifecycle lc)"
  "abs_lifecycle (lc\<lparr>rules := map_erase k (rules lc)\<rparr>) = move k Absent (abs_lifecycle lc)"
  by (auto simp: abs_lifecycle_def move_def map_laws)

lemma entry_phase_cases:
  "entry_phase x = Announcing \<longleftrightarrow> (\<exists>st. x = Some st \<and> state st = announcing)"
  "entry_phase x = Cancelled \<longleftrightarrow> (\<exists>st. x = Some st \<and> state st = withdraw_requested \<and> add_path_uuid st = [])"
  "entry_phase x = Installed u \<longleftrightarrow> (\<exists>st. x = Some st \<and> state st = installed \<and> add_path_uuid st = u)"
  "entry_phase x = Deleting u \<longleftrightarrow> (\<exists>st. x = Some st \<and> state st = withdrawing \<and> add_path_uuid st = u)"
  by (cases x; auto split: gobgp_flowspec_rule_state_type_t.splits)+

lemma leave_selected: "uuid_ok st \<Longrightarrow> P k \<Longrightarrow> entry_phase (Some (select_next P k st)) = leave (entry_phase (Some st))"
  by (cases "state st") (auto simp: select_next_def uuid_ok_def deletable_def)

lemma abs_select:
  assumes "\<And>k st. map_find (rules lc) k = Some st \<Longrightarrow> uuid_ok st"
  shows "abs_lifecycle (lc\<lparr>rules := map_adjust (select_next P) (rules lc)\<rparr>) = move_all P leave (abs_lifecycle lc)"
proof -
  have "entry_phase (map_option (select_next P k) (map_find (rules lc) k)) =
      (if P k then leave (entry_phase (map_find (rules lc) k)) else entry_phase (map_find (rules lc) k))" for k
  proof (cases "map_find (rules lc) k")
    case (Some st)
    then show ?thesis
      using leave_selected [OF assms [OF Some], of P k]
      by (cases "P k") (simp_all add: select_next_def del: entry_phase.simps)
  qed simp
  then show ?thesis
    by (auto simp: abs_lifecycle_def move_all_def map_laws fun_eq_iff)
qed

section \<open>Refinement\<close>

lemma abs_begin_announce:
  assumes "lifecycle_wf lc" shows "abs_lifecycle (snd (begin_announce k r lc)) = spec_announce k (abs_lifecycle lc)"
  using lifecycle_wfD(1) [OF assms]
  by (auto simp: begin_announce_def spec_announce_def abs_rules announcing_state_def)

lemma new_port_rules_keys:
  "ordered m \<Longrightarrow> fst ` set (new_port_rules only lc reqs m) = fst ` set m \<union>
     {k \<in> request_key ` set reqs. same_protocol only k \<and> destination_port_present k \<and> map_find (rules lc) k = None}"
proof (induction only lc reqs m rule: new_port_rules.induct)
  case (2 only lc req reqs m)
  have "fst ` set (map_emplace (request_key req) req m) = insert (request_key req) (fst ` set m)"
    using 2(4) std.keys_find [OF ordered_emplace [OF 2(4)], of _ "request_key req" req] std.keys_find [OF 2(4)]
    by (simp add: set_eq_iff map_laws) blast
  then show ?case
    using 2 by (auto simp: same_protocol_def Let_def ordered_emplace)
qed auto

lemma abs_reserve:
  assumes "ordered (rules lc)" "destination_ipv4 k \<notin> victims_withdraw_requested lc"
  shows "abs_lifecycle (lc\<lparr>rules := map_emplace k (announcing_state r) (rules lc)\<rparr>) = spec_announce k (abs_lifecycle lc)"
proof (cases "map_find (rules lc) k = None")
  case True
  then show ?thesis
    using assms by (simp add: spec_announce_def abs_rules(2) announcing_state_def)
next
  case False
  then have "spec_announce k (abs_lifecycle lc) = abs_lifecycle lc"
    unfolding spec_announce_def abs_simps entry_phase_Absent by (simp del: not_None_eq)
  with False show ?thesis
    by (simp add: map_emplace_def del: not_None_eq)
qed

lemma abs_reserve_all:
  assumes "ordered (rules lc)" "\<And>k. k \<in> fst ` set es \<Longrightarrow> map_find (rules lc) k = None"
  shows "abs_lifecycle (lc\<lparr>rules := fold (\<lambda>e. map_emplace (fst e) (announcing_state (request_rule (snd e)))) es (rules lc)\<rparr>) =
    move_all (\<lambda>k. k \<in> fst ` set es) (\<lambda>_. Announcing) (abs_lifecycle lc)"
proof -
  let ?table = "fold (\<lambda>e. map_emplace (fst e) (announcing_state (request_rule (snd e)))) es (rules lc)"
  have "entry_phase (map_find ?table k) = (if k \<in> fst ` set es then Announcing else entry_phase (map_find (rules lc) k))" for k
  proof (cases "k \<in> fst ` set es")
    case True
    then show ?thesis
      using find_fold_emplace_new [OF assms(1) assms(2) [OF True] True,
          where g = "\<lambda>e. announcing_state (request_rule (snd e))"]
      by (auto simp: announcing_state_def)
  next
    case False
    then show ?thesis
      using find_fold_emplace_none [OF assms(1) False] by simp
  qed
  then show ?thesis
    by (auto simp: abs_lifecycle_def move_all_def fun_eq_iff)
qed

lemma abs_begin_refresh_protocol_rules:
  assumes "lifecycle_wf lc"
  shows "abs_lifecycle (snd (begin_refresh_protocol_rules q qs n lc)) =
    spec_refresh (request_key q) (request_key ` set qs) (unat n) (abs_lifecycle lc)"
proof -
  note ord = lifecycle_wfD(1) [OF assms]
  let ?only = "request_key q" and ?fresh = "new_port_rules (request_key q) lc qs []"
  have fresh: "fst ` set ?fresh = {k \<in> request_key ` set qs. same_protocol ?only k \<and> destination_port_present k
      \<and> map_find (rules lc) k = None}"
    using new_port_rules_keys [of "[]"] by simp
  have "distinct (map fst ?fresh)"
    by (rule std.distinct_keys) (simp add: new_port_rules_ordered)
  then have count: "length ?fresh = card (fst ` set ?fresh)"
    by (metis distinct_card length_map list.set_map)
  let ?present = "{k. same_protocol ?only k \<and> map_find (rules lc) k \<noteq> None}"
  let ?ports = "{k \<in> ?present. destination_port_present k}"
  have "port_rules_of ?only lc = ?ports"
    by (auto simp: port_rules_of_def)
  then have port_count: "card (port_rules_of ?only lc) = card ?ports"
    by simp
  obtain covered n' where scan: "existing_scan ?only (rules lc) 0 = (covered, n')"
    by fastforce
  have found: "covered \<longleftrightarrow> ?ports \<noteq> ?present" "\<not> covered \<Longrightarrow> n' = card ?ports"
    using existing_scan_table [OF ord, of ?only] scan port_count by (auto simp: protocol_only_rule_def)
  have spec: "spec_refresh ?only (request_key ` set qs) (unat n) (abs_lifecycle lc) =
      (if destination_ipv4 ?only \<in> victims_withdraw_requested lc \<or> ?ports \<noteq> ?present \<or> fst ` set ?fresh = {} then abs_lifecycle lc
       else if card ?ports + card (fst ` set ?fresh) > unat n then spec_announce ?only (abs_lifecycle lc)
       else move_all (\<lambda>k. k \<in> fst ` set ?fresh) (\<lambda>_. Announcing) (abs_lifecycle lc))"
    unfolding fresh spec_refresh_def Let_def abs_simps entry_phase_Absent ..
  have reserved: "k \<in> fst ` set ?fresh \<Longrightarrow> map_find (rules lc) k = None" for k
    unfolding fresh by simp
  show ?thesis
    unfolding spec begin_refresh_protocol_rules_def scan Let_def prod.case found(1) count
    using found abs_reserve_all [of lc ?fresh, OF ord reserved] abs_reserve [OF ord] by simp
qed

lemma abs_step:
  assumes "lifecycle_wf lc" shows "abs_lifecycle (apply_op a lc) = spec_op a (abs_lifecycle lc)"
proof -
  note ord = lifecycle_wfD(1) [OF assms] and uuid = lifecycle_wfD(2) [OF assms]
  show ?thesis
  proof (cases a)
    case (op_begin_withdraw v)
    then show ?thesis
      using ord abs_select [of "lc\<lparr>victims_withdraw_requested := insert v (victims_withdraw_requested lc)\<rparr>"
          "\<lambda>k. destination_ipv4 k = v"] uuid
      by (cases lc) (simp add: begin_withdraw_eq withdraw_next_select abs_release ordered_adjust, simp add: abs_lifecycle_def)
  next
    case (op_complete_withdraw k u success)
    then show ?thesis
      using ord uuid
      by (auto simp: complete_withdraw_def abs_rules abs_release entry_phase_cases ordered_erase uuid_ok_def split: option.splits)
  next
    case (op_cleanup k)
    then show ?thesis
      using ord assms by (auto simp: cleanup_eq cleanup_next_select abs_select uuid entry_phase_cases)
  next
    case (op_complete_announce k u)
    then show ?thesis
      using ord by (auto simp: complete_announce_def abs_rules entry_phase_cases split: option.splits)
  next
    case (op_fail_announce k)
    then show ?thesis
      using ord by (auto simp: fail_announce_def abs_rules abs_release entry_phase_cases ordered_erase split: option.splits)
  qed (use assms ord in \<open>auto simp: abs_begin_announce begin_refresh_announce_eq begin_refresh_capture_def insert_absorb
      complete_refresh_capture_def finish_refresh_capture_def abs_release abs_begin_refresh_protocol_rules\<close>)
qed

lemma abs_init: "abs_lifecycle lifecycle_init = spec_init"
  by (simp add: abs_lifecycle_def lifecycle_init_def spec_init_def)

interpretation spec: refining_ops lifecycle_init apply_op lifecycle_wf "\<lambda>_. True" abs_lifecycle spec_init spec_op
  by unfold_locales (simp_all add: abs_init abs_step)

section \<open>The machine of one rule\<close>

lemma release_phase [simp]: "phase_of (release v s) = phase_of s"
  by (simp add: release_def)

lemma leave_step: "phase_step\<^sup>=\<^sup>= p (leave p)"
  by (cases p) (auto intro: phase_step.intros)

lemma announce_step: "phase_step\<^sup>=\<^sup>= (phase_of s k) (phase_of (spec_announce k' s) k)"
  by (auto simp: spec_announce_def move_def intro: phase_step.intros)

lemma refresh_step: "phase_step\<^sup>=\<^sup>= (phase_of s k) (phase_of (spec_refresh only wanted n s) k)"
  using announce_step [of s k only] by (auto simp: spec_refresh_def Let_def move_all_def intro: phase_step.intros)

lemma spec_op_step: "phase_step\<^sup>=\<^sup>= (phase_of s k) (phase_of (spec_op a s) k)"
  using announce_step [of s k] refresh_step [of s k] leave_step
  by (cases a) (auto simp: move_def move_all_def intro: phase_step.intros)

section \<open>Properties\<close>

text \<open>
  C2. The lifecycle implements its specification: after any sequence of operations its table and
  its fences stand for exactly the state the specification computes, and every further operation moves every
  rule by at most one transition of the state machine of a rule.
\<close>

theorem lifecycle_refines_spec:
  "abs_lifecycle (run_ops apply_op ops lifecycle_init) = run_ops spec_op ops spec_init
   \<and> (\<forall>a k. phase_step\<^sup>=\<^sup>= (phase_of (abs_lifecycle (run_ops apply_op ops lifecycle_init)) k)
        (phase_of (abs_lifecycle (run_ops apply_op (ops @ [a]) lifecycle_init)) k))"
proof -
  have run: "abs_lifecycle (run_ops apply_op ops lifecycle_init) = run_ops spec_op ops spec_init" for ops
    by (rule spec.abs_run) (simp add: list_all_iff)
  have "run_ops spec_op (ops @ [a]) spec_init = spec_op a (run_ops spec_op ops spec_init)" for a
    by (simp add: run_ops_def)
  then show ?thesis
    unfolding run using spec_op_step by simp
qed

end
