(* ===== verification/Flow_Spec_Text.thy ===== *)
theory Flow_Spec_Text
  imports Ip_Text Ip_Protocols
begin

text \<open>
  The parts of \<^verbatim>\<open>src/bgp_protocol_flow_spec.cpp\<close> around the rules of the static whitelist and of the
  announces: the names of flags and actions, the comparison of rules and their validation. \<open>split\<close> is
  \<^verbatim>\<open>boost::split\<close> with \<^verbatim>\<open>is_any_of\<close> of its first argument and \<^verbatim>\<open>token_compress_on\<close>;
  \<open>lookup_network\<close> is the lookup in the tree of the configured networks.
\<close>

section \<open>Names\<close>

definition read_flow_spec_fragmentation_types_from_string :: "string \<Rightarrow> flow_spec_fragmentation_types_t option" where
  "read_flow_spec_fragmentation_types_from_string string_form =
     (let lower = to_lower_copy string_form in
      if lower = ''dont-fragment'' then Some FLOW_SPEC_DONT_FRAGMENT
      else if lower = ''is-fragment'' then Some FLOW_SPEC_IS_A_FRAGMENT
      else if lower = ''first-fragment'' then Some FLOW_SPEC_FIRST_FRAGMENT
      else if lower = ''last-fragment'' then Some FLOW_SPEC_LAST_FRAGMENT
      else if lower = ''not-a-fragment'' then Some FLOW_SPEC_NOT_A_FRAGMENT
      else None)"

fun flow_spec_fragmentation_flags_to_string :: "flow_spec_fragmentation_types_t \<Rightarrow> string" where
  "flow_spec_fragmentation_flags_to_string FLOW_SPEC_DONT_FRAGMENT = ''dont-fragment''"
| "flow_spec_fragmentation_flags_to_string FLOW_SPEC_IS_A_FRAGMENT = ''is-fragment''"
| "flow_spec_fragmentation_flags_to_string FLOW_SPEC_FIRST_FRAGMENT = ''first-fragment''"
| "flow_spec_fragmentation_flags_to_string FLOW_SPEC_LAST_FRAGMENT = ''last-fragment''"
| "flow_spec_fragmentation_flags_to_string FLOW_SPEC_NOT_A_FRAGMENT = ''not-a-fragment''"

definition read_flow_spec_action_type_from_string :: "string \<Rightarrow> bgp_flow_spec_action_types_t option" where
  "read_flow_spec_action_type_from_string string_form =
     (if string_form = ''accept'' then Some FLOW_SPEC_ACTION_ACCEPT
      else if string_form = ''discard'' then Some FLOW_SPEC_ACTION_DISCARD
      else if string_form = ''rate-limit'' then Some FLOW_SPEC_ACTION_RATE_LIMIT
      else if string_form = ''redirect'' then Some FLOW_SPEC_ACTION_REDIRECT
      else if string_form = ''redirect-vrf'' then Some FLOW_SPEC_ACTION_REDIRECT_VRF
      else if string_form = ''mark'' then Some FLOW_SPEC_ACTION_MARK
      else None)"

fun serialize_action_type :: "bgp_flow_spec_action_types_t \<Rightarrow> string" where
  "serialize_action_type FLOW_SPEC_ACTION_ACCEPT = ''accept''"
| "serialize_action_type FLOW_SPEC_ACTION_DISCARD = ''discard''"
| "serialize_action_type FLOW_SPEC_ACTION_RATE_LIMIT = ''rate-limit''"
| "serialize_action_type FLOW_SPEC_ACTION_REDIRECT = ''redirect''"
| "serialize_action_type FLOW_SPEC_ACTION_REDIRECT_VRF = ''redirect-vrf''"
| "serialize_action_type FLOW_SPEC_ACTION_MARK = ''mark''"

text \<open>The loop over the flag names; \<open>None\<close> for an unknown name.\<close>

fun read_tcp_flag_names :: "string list \<Rightarrow> flow_spec_tcp_flagset_t \<Rightarrow> flow_spec_tcp_flagset_t option" where
  "read_tcp_flag_names [] flagset = Some flagset"
| "read_tcp_flag_names (name # names) flagset =
     (if name = ''syn'' then read_tcp_flag_names names (flagset\<lparr>syn_flag := True\<rparr>)
      else if name = ''ack'' then read_tcp_flag_names names (flagset\<lparr>ack_flag := True\<rparr>)
      else if name = ''fin'' then read_tcp_flag_names names (flagset\<lparr>fin_flag := True\<rparr>)
      else if name = ''urgent'' then read_tcp_flag_names names (flagset\<lparr>urg_flag := True\<rparr>)
      else if name = ''push'' then read_tcp_flag_names names (flagset\<lparr>psh_flag := True\<rparr>)
      else if name = ''rst'' then read_tcp_flag_names names (flagset\<lparr>rst_flag := True\<rparr>)
      else None)"

definition read_flow_spec_tcp_flags_from_strig ::
    "(string \<Rightarrow> string \<Rightarrow> string list) \<Rightarrow> string \<Rightarrow> flow_spec_tcp_flagset_t \<Rightarrow> flow_spec_tcp_flagset_t option" where
  "read_flow_spec_tcp_flags_from_strig split string_form flagset =
     read_tcp_flag_names (split ''|'' (to_lower_copy string_form)) flagset"

definition tcp_flag_names :: "flow_spec_tcp_flagset_t \<Rightarrow> string list" where
  "tcp_flag_names s = (if syn_flag s then [''syn''] else []) @ (if ack_flag s then [''ack''] else [])
     @ (if fin_flag s then [''fin''] else []) @ (if rst_flag s then [''rst''] else [])
     @ (if urg_flag s then [''urgent''] else []) @ (if psh_flag s then [''push''] else [])"

definition flow_spec_tcp_flagset_to_string :: "flow_spec_tcp_flagset_t \<Rightarrow> string" where
  "flow_spec_tcp_flagset_to_string tcp_flagset = join ''|'' (tcp_flag_names tcp_flagset)"

section \<open>Comparison\<close>

definition flow_spec_action_eq :: "bgp_flow_spec_action_t \<Rightarrow> bgp_flow_spec_action_t \<Rightarrow> bool" where
  "flow_spec_action_eq lhs rhs =
     (if action_type lhs \<noteq> action_type rhs then False
      else if action_type lhs = FLOW_SPEC_ACTION_RATE_LIMIT then rate_limit lhs = rate_limit rhs
      else if action_type lhs = FLOW_SPEC_ACTION_REDIRECT_VRF
      then redirect_rt_as lhs = redirect_rt_as rhs \<and> redirect_rt_value lhs = redirect_rt_value rhs
      else True)"

definition tcp_flagset_eq :: "flow_spec_tcp_flagset_t \<Rightarrow> flow_spec_tcp_flagset_t \<Rightarrow> bool" where
  "tcp_flagset_eq lhs rhs \<longleftrightarrow> syn_flag lhs = syn_flag rhs \<and> ack_flag lhs = ack_flag rhs \<and> rst_flag lhs = rst_flag rhs
     \<and> psh_flag lhs = psh_flag rhs \<and> urg_flag lhs = urg_flag rhs \<and> fin_flag lhs = fin_flag rhs"

text \<open>Two optional fields, each with its flag.\<close>

definition optional_eq :: "('a \<Rightarrow> 'a \<Rightarrow> bool) \<Rightarrow> bool \<Rightarrow> 'a \<Rightarrow> bool \<Rightarrow> 'a \<Rightarrow> bool" where
  "optional_eq eq used_l l used_r r = (if used_l \<noteq> used_r then False else if used_l then eq l r else True)"

definition flow_spec_rule_eq :: "flow_spec_rule_t \<Rightarrow> flow_spec_rule_t \<Rightarrow> bool" where
  "flow_spec_rule_eq lhs rhs \<longleftrightarrow>
     optional_eq subnet_eq (source_subnet_ipv4_used lhs) (source_subnet_ipv4 lhs) (source_subnet_ipv4_used rhs) (source_subnet_ipv4 rhs)
   \<and> optional_eq subnet6_eq (source_subnet_ipv6_used lhs) (source_subnet_ipv6 lhs) (source_subnet_ipv6_used rhs) (source_subnet_ipv6 rhs)
   \<and> optional_eq subnet_eq (destination_subnet_ipv4_used lhs) (destination_subnet_ipv4 lhs)
       (destination_subnet_ipv4_used rhs) (destination_subnet_ipv4 rhs)
   \<and> optional_eq subnet6_eq (destination_subnet_ipv6_used lhs) (destination_subnet_ipv6 lhs)
       (destination_subnet_ipv6_used rhs) (destination_subnet_ipv6 rhs)
   \<and> flow_spec_action_eq (action lhs) (action rhs)
   \<and> source_ports lhs = source_ports rhs \<and> destination_ports lhs = destination_ports rhs
   \<and> packet_lengths lhs = packet_lengths rhs \<and> vlans lhs = vlans rhs \<and> ttls lhs = ttls rhs
   \<and> ipv4_nexthops lhs = ipv4_nexthops rhs \<and> agent_addresses lhs = agent_addresses rhs
   \<and> source_asns lhs = source_asns rhs \<and> destination_asns lhs = destination_asns rhs
   \<and> input_interfaces lhs = input_interfaces rhs \<and> output_interfaces lhs = output_interfaces rhs
   \<and> protocols lhs = protocols rhs \<and> list_all2 tcp_flagset_eq (tcp_flags lhs) (tcp_flags rhs)
   \<and> fragmentation_flags lhs = fragmentation_flags rhs"

section \<open>Validation\<close>

definition reject_flow_spec_validation_if_slow_spec_length_exceeds_this_number :: nat where
  "reject_flow_spec_validation_if_slow_spec_length_exceeds_this_number = 1500"

text \<open>
  The address of the customer; the outer option is the result of the check, the inner one whether an
  address was stored.
\<close>

definition validate_flow_spec_to_belong_to_patricia ::
    "(subnet_cidr_mask_t \<Rightarrow> bool) \<Rightarrow> flow_spec_rule_t \<Rightarrow> u32 option option" where
  "validate_flow_spec_to_belong_to_patricia lookup_network r =
     (if \<not> (source_subnet_ipv4_used r \<or> destination_subnet_ipv4_used r \<or> source_subnet_ipv6_used r
           \<or> destination_subnet_ipv6_used r) then None
      else if source_subnet_ipv4_used r \<and> cidr_prefix_length (source_subnet_ipv4 r) \<noteq> 32 then None
      else if source_subnet_ipv6_used r \<and> cidr_prefix_length6 (source_subnet_ipv6 r) \<noteq> 128 then None
      else if destination_subnet_ipv4_used r \<and> cidr_prefix_length (destination_subnet_ipv4 r) \<noteq> 32 then None
      else if destination_subnet_ipv6_used r \<and> cidr_prefix_length6 (destination_subnet_ipv6 r) \<noteq> 128 then None
      else if destination_subnet_ipv6_used r \<or> source_subnet_ipv6_used r then None
      else if destination_subnet_ipv4_used r \<and> source_subnet_ipv4_used r
      then let we_found_destination_subnet = lookup_network (destination_subnet_ipv4 r);
               we_found_source_subnet = lookup_network (source_subnet_ipv4 r)
           in if \<not> we_found_destination_subnet \<and> \<not> we_found_source_subnet then None
              else Some (Some (if we_found_source_subnet then subnet_address (source_subnet_ipv4 r)
                               else subnet_address (destination_subnet_ipv4 r)))
      else if destination_subnet_ipv4_used r
      then if \<not> lookup_network (destination_subnet_ipv4 r) then None
           else Some (Some (subnet_address (destination_subnet_ipv4 r)))
      else if source_subnet_ipv4_used r
      then if \<not> lookup_network (source_subnet_ipv4 r) then None
           else Some (Some (subnet_address (source_subnet_ipv4 r)))
      else Some None)"

definition validate_flow_spec_ipv4 :: "flow_spec_rule_t \<Rightarrow> u32 \<Rightarrow> bool" where
  "validate_flow_spec_ipv4 r client_ip_as_integer =
     (if \<not> (source_subnet_ipv4_used r \<or> destination_subnet_ipv4_used r) then False
      else if list_ex (\<lambda>n. unat n > reject_flow_spec_validation_if_slow_spec_length_exceeds_this_number) (packet_lengths r) then False
      else let client_subnet = subnet_cidr_mask client_ip_as_integer 32
           in if source_subnet_ipv4_used r \<and> subnet_eq client_subnet (source_subnet_ipv4 r) then True
              else if destination_subnet_ipv4_used r \<and> subnet_eq client_subnet (destination_subnet_ipv4 r) then True
              else False)"

definition valid_port :: "int \<Rightarrow> bool" where
  "valid_port port \<longleftrightarrow> port \<ge> 0 \<and> port \<le> 65535"

section \<open>Names are read back\<close>

lemma action_name_roundtrip: "read_flow_spec_action_type_from_string (serialize_action_type a) = Some a"
  by (cases a) (simp_all add: read_flow_spec_action_type_from_string_def)

lemma to_lower_small: "to_lower CHR ''-'' = CHR ''-''" "to_lower CHR ''|'' = CHR ''|''"
  "to_lower CHR ''a'' = CHR ''a''" "to_lower CHR ''c'' = CHR ''c''" "to_lower CHR ''d'' = CHR ''d''"
  "to_lower CHR ''e'' = CHR ''e''" "to_lower CHR ''f'' = CHR ''f''" "to_lower CHR ''g'' = CHR ''g''"
  "to_lower CHR ''h'' = CHR ''h''" "to_lower CHR ''i'' = CHR ''i''" "to_lower CHR ''k'' = CHR ''k''"
  "to_lower CHR ''l'' = CHR ''l''" "to_lower CHR ''m'' = CHR ''m''" "to_lower CHR ''n'' = CHR ''n''"
  "to_lower CHR ''o'' = CHR ''o''" "to_lower CHR ''p'' = CHR ''p''" "to_lower CHR ''r'' = CHR ''r''"
  "to_lower CHR ''s'' = CHR ''s''" "to_lower CHR ''t'' = CHR ''t''" "to_lower CHR ''u'' = CHR ''u''"
  "to_lower CHR ''y'' = CHR ''y''"
  by (simp_all add: to_lower_def)

lemma fragmentation_name_roundtrip:
  "read_flow_spec_fragmentation_types_from_string (flow_spec_fragmentation_flags_to_string f) = Some f"
  by (cases f) (simp_all add: read_flow_spec_fragmentation_types_from_string_def to_lower_copy_def to_lower_small)

lemma tcp_flag_names_read:
  "read_tcp_flag_names (tcp_flag_names s) flagset_empty = Some s"
  by (cases s) (simp add: tcp_flag_names_def flagset_empty_def)

lemma tcp_flagset_eq_iff [simp]: "tcp_flagset_eq lhs rhs \<longleftrightarrow> lhs = rhs"
  by (cases lhs; cases rhs) (auto simp: tcp_flagset_eq_def)

text \<open>
  The comparison of actions ignores the target of a redirect: two redirects to different targets are
  equal.
\<close>

lemma redirect_targets_ignored:
  "flow_spec_action_eq (action_default\<lparr>action_type := FLOW_SPEC_ACTION_REDIRECT, redirect_as := 1\<rparr>)
     (action_default\<lparr>action_type := FLOW_SPEC_ACTION_REDIRECT, redirect_as := 2\<rparr>)"
  by (simp add: flow_spec_action_eq_def)

lemma flow_spec_rule_eq_refl: "flow_spec_rule_eq r r"
proof -
  have "list_all2 tcp_flagset_eq (tcp_flags r) (tcp_flags r)"
    by (simp add: list_all2_same)
  then show ?thesis
    by (simp add: flow_spec_rule_eq_def flow_spec_action_eq_def optional_eq_def)
qed

text \<open>A rule that passes the validation concerns the customer.\<close>

lemma validated_rule_concerns_customer:
  assumes "validate_flow_spec_ipv4 r ip"
  shows "(source_subnet_ipv4_used r \<and> source_subnet_ipv4 r = subnet_cidr_mask ip 32)
    \<or> (destination_subnet_ipv4_used r \<and> destination_subnet_ipv4 r = subnet_cidr_mask ip 32)"
  using assms by (auto simp: validate_flow_spec_ipv4_def Let_def split: if_splits)

lemma patricia_validation_sound:
  assumes "validate_flow_spec_to_belong_to_patricia lookup_network r = Some client"
  obtains subnet where "client = Some (subnet_address subnet)" "lookup_network subnet" "cidr_prefix_length subnet = 32"
    "(source_subnet_ipv4_used r \<and> subnet = source_subnet_ipv4 r) \<or> (destination_subnet_ipv4_used r \<and> subnet = destination_subnet_ipv4 r)"
  using assms by (auto simp: validate_flow_spec_to_belong_to_patricia_def Let_def split: if_splits)

end
