(* ===== verification/Packet_Filter.thy ===== *)
theory Packet_Filter
  imports Flow_Spec_Text Flow_Spec_Codec Rule_Builder
begin

text \<open>
  \<^verbatim>\<open>src/filter.cpp\<close>: whether a packet matches a FlowSpec rule. \<open>lookup_ip\<close> is the lookup of an address in
  a tree that holds one subnet (\<^verbatim>\<open>src/ip_lookup_tree.hpp\<close> over the Patricia tree library), used for
  prefixes shorter than a host.
\<close>

definition match_any :: "'a list \<Rightarrow> 'a \<Rightarrow> bool" where
  "match_any xs x \<longleftrightarrow> xs = [] \<or> x \<in> set xs"

definition protocol_matches :: "simple_packet_t \<Rightarrow> flow_spec_rule_t \<Rightarrow> bool" where
  "protocol_matches p r =
     (if protocols r = [] then True
      else if protocol p \<le> 255
      then get_ip_protocol_enum_type_from_integer (ucast (protocol p)) \<in> set (protocols r)
      else False)"

text \<open>One side of the packet: the address against the IPv4 or the IPv6 prefix of the rule.\<close>

definition ip_matches ::
    "(subnet_cidr_mask_t \<Rightarrow> u32 \<Rightarrow> bool) \<Rightarrow> bool \<Rightarrow> subnet_cidr_mask_t \<Rightarrow> bool \<Rightarrow> subnet_ipv6_cidr_mask_t \<Rightarrow> u32 \<Rightarrow> bytes \<Rightarrow> bool" where
  "ip_matches lookup_ip ipv4_used subnet ipv6_used subnet6 ip ip6 =
     (if ipv4_used
      then if cidr_prefix_length subnet = 32 then subnet_eq subnet (subnet_cidr_mask ip 32) else lookup_ip subnet ip
      else if ipv6_used
      then if cidr_prefix_length6 subnet6 = 128
           then subnet6_eq subnet6 \<lparr>subnet_address6 = ip6, cidr_prefix_length6 = 128\<rparr> else False
      else True)"

definition fragmentation_flags_match :: "simple_packet_t \<Rightarrow> flow_spec_rule_t \<Rightarrow> bool" where
  "fragmentation_flags_match p r \<longleftrightarrow> fragmentation_flags r = []
     \<or> list_ex (\<lambda>f. (f = FLOW_SPEC_DONT_FRAGMENT \<and> ip_dont_fragment p) \<or> (f = FLOW_SPEC_IS_A_FRAGMENT \<and> ip_fragmented p))
         (fragmentation_flags r)"

definition tcp_flags_match :: "simple_packet_t \<Rightarrow> flow_spec_rule_t \<Rightarrow> bool" where
  "tcp_flags_match p r \<longleftrightarrow> tcp_flags r = []
     \<or> list_ex (tcp_flagset_eq (uint8t_representation_of_tcp_flags_to_flow_spec (flags p) flagset_empty)) (tcp_flags r)"

definition packet_size_matches :: "simple_packet_t \<Rightarrow> flow_spec_rule_t \<Rightarrow> bool" where
  "packet_size_matches p r \<longleftrightarrow> packet_lengths r = []
     \<or> (length' p \<le> 65635 \<and> (ucast (length' p) \<in> set (packet_lengths r) \<or> ucast (ip_length p) \<in> set (packet_lengths r)))"

definition vlan_matches :: "simple_packet_t \<Rightarrow> flow_spec_rule_t \<Rightarrow> bool" where
  "vlan_matches p r \<longleftrightarrow> match_any (map ucast (vlans r)) (vlan p)"

definition filter_packet_by_flowspec_rule ::
    "(subnet_cidr_mask_t \<Rightarrow> u32 \<Rightarrow> bool) \<Rightarrow> simple_packet_t \<Rightarrow> flow_spec_rule_t \<Rightarrow> bool" where
  "filter_packet_by_flowspec_rule lookup_ip p r \<longleftrightarrow>
     match_any (source_ports r) (source_port p) \<and> match_any (destination_ports r) (destination_port p)
   \<and> ip_matches lookup_ip (source_subnet_ipv4_used r) (source_subnet_ipv4 r) (source_subnet_ipv6_used r)
       (source_subnet_ipv6 r) (src_ip p) (src_ipv6 p)
   \<and> ip_matches lookup_ip (destination_subnet_ipv4_used r) (destination_subnet_ipv4 r) (destination_subnet_ipv6_used r)
       (destination_subnet_ipv6 r) (dst_ip p) (dst_ipv6 p)
   \<and> packet_size_matches p r \<and> tcp_flags_match p r \<and> fragmentation_flags_match p r \<and> protocol_matches p r \<and> vlan_matches p r"

fun filter_packet_by_flowspec_rule_list ::
    "(subnet_cidr_mask_t \<Rightarrow> u32 \<Rightarrow> bool) \<Rightarrow> simple_packet_t \<Rightarrow> flow_spec_rule_t list \<Rightarrow> bool" where
  "filter_packet_by_flowspec_rule_list lookup_ip p [] = False"
| "filter_packet_by_flowspec_rule_list lookup_ip p (r # rs) =
     (if filter_packet_by_flowspec_rule lookup_ip p r then True else filter_packet_by_flowspec_rule_list lookup_ip p rs)"

lemma filter_list_iff:
  "filter_packet_by_flowspec_rule_list lookup_ip p rs \<longleftrightarrow> (\<exists>r \<in> set rs. filter_packet_by_flowspec_rule lookup_ip p r)"
  by (induction rs) auto

text \<open>
  The bound on lengths is 65635 where the largest 16 bit number is 65535: a packet of 65536 bytes matches
  a rule for packets of length zero.
\<close>

lemma packet_length_wraps:
  "packet_size_matches (simple_packet_default\<lparr>length' := 65536, ip_length := 65522\<rparr>) (flow_spec_rule_default\<lparr>packet_lengths := [0]\<rparr>)"
  by (simp add: packet_size_matches_def simple_packet_default_def flow_spec_rule_default_def)

section \<open>Rules of the mitigation\<close>

text \<open>What a rule that was built for an attack matches.\<close>

lemma built_rule_filter:
  "filter_packet_by_flowspec_rule lookup_ip p (build_gobgp_flowspec_ipv4_rule victim attack hop port a rt_as rt_value) \<longleftrightarrow>
     dst_ip p = victim
   \<and> (attack_protocol attack \<in> {ucast TCP, ucast UDP, ucast ICMP} \<longrightarrow> protocol p = attack_protocol attack)
   \<and> (attack_protocol attack \<in> {ucast TCP, ucast UDP} \<longrightarrow> port \<noteq> None \<longrightarrow> port = Some (destination_port p))"
proof -
  have u8: "protocol p \<le> 255 \<and> ucast (protocol p) = x \<longleftrightarrow> protocol p = ucast x" for x :: u8
  proof -
    have "unat (ucast x :: u32) = unat x"
      by (simp add: unat_ucast_up)
    moreover have "unat (ucast (protocol p) :: u8) = unat (protocol p)" if "unat (protocol p) \<le> 255"
      using that by (simp add: unsigned_ucast_eq take_bit_nat_eq_self)
    ultimately show ?thesis
      using unat_lt_2p [of x] by (auto simp: word_unat_eq_iff word_le_nat_alt)
  qed
  show ?thesis
    using u8 [of 1] u8 [of 6] u8 [of 17]
    by (cases port)
      (auto simp: filter_packet_by_flowspec_rule_def build_gobgp_flowspec_ipv4_rule_def rule_setters flow_spec_rule_default_def
        match_any_def ip_matches_def packet_size_matches_def tcp_flags_match_def fragmentation_flags_match_def
        protocol_matches_def vlan_matches_def subnet_cidr_mask_def get_ip_protocol_enum_type_from_integer_def Let_def
        protocol_defs)
qed

text \<open>A router that decodes the announced match filters the same packets as the rule.\<close>

lemma network_of_host: "network_of (subnet_cidr_mask ip 32) = subnet_cidr_mask ip 32"
proof -
  have "(4294967295 :: u32) = - 1"
    by simp
  then have "ip AND 4294967295 = ip"
    by (simp only: and.right_neutral)
  then show ?thesis
    by (simp add: network_of_def convert_cidr_to_binary_netmask_def subnet_cidr_mask_def htonl_def of_mem32_def wire_simps)
qed

lemma built_rule_unrestricted:
  "\<not> source_subnet_ipv6_used (build_gobgp_flowspec_ipv4_rule victim attack hop port a rt_as rt_value)"
  "vlans (build_gobgp_flowspec_ipv4_rule victim attack hop port a rt_as rt_value) = []"
  by (auto simp: build_gobgp_flowspec_ipv4_rule_def rule_setters flow_spec_rule_default_def Let_def split: option.splits)

lemma filter_matched_part:
  assumes "destination_subnet_ipv4 r = subnet_cidr_mask ip 32" "\<not> source_subnet_ipv4_used r" "\<not> source_subnet_ipv6_used r"
    "destination_subnet_ipv4_used r" "vlans r = []"
  shows "filter_packet_by_flowspec_rule lookup_ip p (matched_part r) = filter_packet_by_flowspec_rule lookup_ip p r"
  using assms
  by (simp add: filter_packet_by_flowspec_rule_def matched_part_def network_of_host
      flow_spec_rule_default_def ip_matches_def packet_size_matches_def tcp_flags_match_def fragmentation_flags_match_def
      protocol_matches_def vlan_matches_def)

end
