(* ===== verification/Packet_Headers.thy ===== *)
theory Packet_Headers
  imports Flow_Spec_Types Binary_Buffer
begin

text \<open>
  The packet headers of \<^verbatim>\<open>src/network_data_structures.hpp\<close>. A packed class is a record of its data
  members as they lie in memory, so 16 and 32 bit members hold the integer a little-endian host loads from
  the wire; the getters convert them. \<open>deref\<close> is the access through a pointer into the captured
  bytes that was cast to such a class.
\<close>

section \<open>Access to headers in memory\<close>

definition load16_at :: "bytes \<Rightarrow> nat \<Rightarrow> u16" where
  "load16_at bs i = of_mem16 (bs ! i) (bs ! (i + 1))"

definition load32_at :: "bytes \<Rightarrow> nat \<Rightarrow> u32" where
  "load32_at bs i = of_mem32 (bs ! i) (bs ! (i + 1)) (bs ! (i + 2)) (bs ! (i + 3))"

abbreviation fast_ntoh16 :: "u16 \<Rightarrow> u16" where "fast_ntoh16 \<equiv> htons"
abbreviation fast_ntoh32 :: "u32 \<Rightarrow> u32" where "fast_ntoh32 \<equiv> htonl"

section \<open>Numbers assigned by IANA\<close>

definition IanaEthertypeIPv4 :: u16 where "IanaEthertypeIPv4 = 2048"
definition IanaEthertypeARP :: u16 where "IanaEthertypeARP = 2054"
definition IanaEthertypeVLAN :: u16 where "IanaEthertypeVLAN = 33024"
definition IanaEthertypeIPv6 :: u16 where "IanaEthertypeIPv6 = 34525"
definition IanaEthertypeMPLS_unicast :: u16 where "IanaEthertypeMPLS_unicast = 34887"

lemmas ethertype_defs = IanaEthertypeIPv4_def IanaEthertypeARP_def IanaEthertypeVLAN_def IanaEthertypeIPv6_def
  IanaEthertypeMPLS_unicast_def

definition IpProtocolNumberHOPOPT :: u8 where "IpProtocolNumberHOPOPT = 0"
definition IpProtocolNumberICMP :: u8 where "IpProtocolNumberICMP = 1"
definition IpProtocolNumberTCP :: u8 where "IpProtocolNumberTCP = 6"
definition IpProtocolNumberUDP :: u8 where "IpProtocolNumberUDP = 17"
definition IpProtocolNumberIPV6_ROUTE :: u8 where "IpProtocolNumberIPV6_ROUTE = 43"
definition IpProtocolNumberIPV6_FRAG :: u8 where "IpProtocolNumberIPV6_FRAG = 44"
definition IpProtocolNumberESP :: u8 where "IpProtocolNumberESP = 50"
definition IpProtocolNumberAH :: u8 where "IpProtocolNumberAH = 51"
definition IpProtocolNumberIPV6_ICMP :: u8 where "IpProtocolNumberIPV6_ICMP = 58"
definition IpProtocolNumberIPV6_OPTS :: u8 where "IpProtocolNumberIPV6_OPTS = 60"

lemmas protocol_number_defs = IpProtocolNumberHOPOPT_def IpProtocolNumberICMP_def IpProtocolNumberTCP_def
  IpProtocolNumberUDP_def IpProtocolNumberIPV6_ROUTE_def IpProtocolNumberIPV6_FRAG_def IpProtocolNumberESP_def
  IpProtocolNumberAH_def IpProtocolNumberIPV6_ICMP_def IpProtocolNumberIPV6_OPTS_def

section \<open>Ethernet\<close>

record ethernet_header_t =
  eth_destination_mac :: bytes
  eth_source_mac :: bytes
  eth_ethertype :: u16

definition ethernet_header_of :: "bytes \<Rightarrow> ethernet_header_t" where
  "ethernet_header_of bs = \<lparr>eth_destination_mac = take 6 bs, eth_source_mac = take 6 (drop 6 bs),
     eth_ethertype = load16_at bs 12\<rparr>"

definition get_ethertype_host_byte_order :: "ethernet_header_t \<Rightarrow> u16" where
  "get_ethertype_host_byte_order h = fast_ntoh16 (eth_ethertype h)"

record ethernet_vlan_header_t =
  vlan_metadata_as_integer :: u16
  vlan_ethertype :: u16

definition ethernet_vlan_header_of :: "bytes \<Rightarrow> ethernet_vlan_header_t" where
  "ethernet_vlan_header_of bs = \<lparr>vlan_metadata_as_integer = load16_at bs 0, vlan_ethertype = load16_at bs 2\<rparr>"

definition get_vlan_ethertype_host_byte_order :: "ethernet_vlan_header_t \<Rightarrow> u16" where
  "get_vlan_ethertype_host_byte_order h = fast_ntoh16 (vlan_ethertype h)"

text \<open>\<^verbatim>\<open>vlan_id : 12, cfi : 1, priority : 3\<close>, the first field in the low bits.\<close>

definition get_vlan_id_host_byte_order :: "ethernet_vlan_header_t \<Rightarrow> u16" where
  "get_vlan_id_host_byte_order h = take_bit 12 (fast_ntoh16 (vlan_metadata_as_integer h))"

definition get_cfi_flag :: "ethernet_vlan_header_t \<Rightarrow> bool" where
  "get_cfi_flag h = bit (fast_ntoh16 (vlan_metadata_as_integer h)) 12"

definition get_priority :: "ethernet_vlan_header_t \<Rightarrow> u8" where
  "get_priority h = ucast (drop_bit 13 (fast_ntoh16 (vlan_metadata_as_integer h)))"

section \<open>IPv4\<close>

record ipv4_header_t =
  version_ihl :: u8
  dscp_ecn :: u8
  total_length :: u16
  identification :: u16
  fragmentation_details_as_integer :: u16
  ip4_ttl :: u8
  ip4_protocol :: u8
  ip4_checksum :: u16
  ip4_source :: u32
  ip4_destination :: u32

definition ipv4_header_of :: "bytes \<Rightarrow> ipv4_header_t" where
  "ipv4_header_of bs = \<lparr>version_ihl = bs ! 0, dscp_ecn = bs ! 1, total_length = load16_at bs 2,
     identification = load16_at bs 4, fragmentation_details_as_integer = load16_at bs 6, ip4_ttl = bs ! 8,
     ip4_protocol = bs ! 9, ip4_checksum = load16_at bs 10, ip4_source = load32_at bs 12, ip4_destination = load32_at bs 16\<rparr>"

definition get_total_length_host_byte_order :: "ipv4_header_t \<Rightarrow> u16" where
  "get_total_length_host_byte_order h = fast_ntoh16 (total_length h)"

definition get_identification_host_byte_order :: "ipv4_header_t \<Rightarrow> u16" where
  "get_identification_host_byte_order h = fast_ntoh16 (identification h)"

definition get_ihl :: "ipv4_header_t \<Rightarrow> u8" where
  "get_ihl h = take_bit 4 (version_ihl h)"

definition get_version :: "ipv4_header_t \<Rightarrow> u8" where
  "get_version h = drop_bit 4 (version_ihl h)"

definition get_ecn :: "ipv4_header_t \<Rightarrow> u8" where
  "get_ecn h = take_bit 2 (dscp_ecn h)"

definition get_dscp :: "ipv4_header_t \<Rightarrow> u8" where
  "get_dscp h = drop_bit 2 (dscp_ecn h)"

text \<open>
  \<^verbatim>\<open>fragment_offset : 13, more_fragments_flag : 1, dont_fragment_flag : 1, reserved_flag : 1\<close>.
\<close>

definition get_fragment_offset_8byte_chunks :: "ipv4_header_t \<Rightarrow> u16" where
  "get_fragment_offset_8byte_chunks h = take_bit 13 (fast_ntoh16 (fragmentation_details_as_integer h))"

definition get_fragment_offset_bytes :: "ipv4_header_t \<Rightarrow> u16" where
  "get_fragment_offset_bytes h = take_bit 13 (fast_ntoh16 (fragmentation_details_as_integer h)) * 8"

definition get_more_fragments_flag :: "ipv4_header_t \<Rightarrow> bool" where
  "get_more_fragments_flag h = bit (fast_ntoh16 (fragmentation_details_as_integer h)) 13"

definition get_dont_fragment_flag :: "ipv4_header_t \<Rightarrow> bool" where
  "get_dont_fragment_flag h = bit (fast_ntoh16 (fragmentation_details_as_integer h)) 14"

definition get_reserved_flag :: "ipv4_header_t \<Rightarrow> u16" where
  "get_reserved_flag h = drop_bit 15 (fast_ntoh16 (fragmentation_details_as_integer h))"

definition is_fragmented :: "ipv4_header_t \<Rightarrow> bool" where
  "is_fragmented h =
     (if get_more_fragments_flag h then True else if get_fragment_offset_bytes h \<noteq> 0 then True else False)"

definition clear_reserved_flag :: "ipv4_header_t \<Rightarrow> ipv4_header_t" where
  "clear_reserved_flag h = h\<lparr>fragmentation_details_as_integer :=
     htons (unset_bit 15 (fast_ntoh16 (fragmentation_details_as_integer h)))\<rparr>"

definition clear_dont_fragment_flag :: "ipv4_header_t \<Rightarrow> ipv4_header_t" where
  "clear_dont_fragment_flag h = h\<lparr>fragmentation_details_as_integer :=
     htons (unset_bit 14 (fast_ntoh16 (fragmentation_details_as_integer h)))\<rparr>"

definition set_fragment_offset_8byte_chunks :: "u16 \<Rightarrow> ipv4_header_t \<Rightarrow> ipv4_header_t" where
  "set_fragment_offset_8byte_chunks v h = h\<lparr>fragmentation_details_as_integer :=
     htons (push_bit 13 (drop_bit 13 (fast_ntoh16 (fragmentation_details_as_integer h))) OR take_bit 13 v)\<rparr>"

section \<open>IPv6\<close>

record ipv6_header_t =
  version_and_traffic_class_as_integer :: u32
  payload_length :: u16
  next_header :: u8
  hop_limit :: u8
  source_address :: bytes
  destination_address :: bytes

definition ipv6_header_of :: "bytes \<Rightarrow> ipv6_header_t" where
  "ipv6_header_of bs = \<lparr>version_and_traffic_class_as_integer = load32_at bs 0, payload_length = load16_at bs 4,
     next_header = bs ! 6, hop_limit = bs ! 7, source_address = take 16 (drop 8 bs),
     destination_address = take 16 (drop 24 bs)\<rparr>"

definition get_payload_length :: "ipv6_header_t \<Rightarrow> u16" where
  "get_payload_length h = fast_ntoh16 (payload_length h)"

text \<open>\<^verbatim>\<open>flow_label : 20, traffic_class : 8, version : 4\<close>.\<close>

definition get_flow_label :: "ipv6_header_t \<Rightarrow> u32" where
  "get_flow_label h = take_bit 20 (fast_ntoh32 (version_and_traffic_class_as_integer h))"

definition get_traffic_class :: "ipv6_header_t \<Rightarrow> u32" where
  "get_traffic_class h = take_bit 8 (drop_bit 20 (fast_ntoh32 (version_and_traffic_class_as_integer h)))"

definition get_version6 :: "ipv6_header_t \<Rightarrow> u32" where
  "get_version6 h = drop_bit 28 (fast_ntoh32 (version_and_traffic_class_as_integer h))"

record ipv6_extension_header_fragment_t =
  frag_next_header :: u8
  frag_reserved1 :: u8
  fragmentation_and_flags_as_integer :: u16
  frag_identification :: u32

definition ipv6_extension_header_fragment_of :: "bytes \<Rightarrow> ipv6_extension_header_fragment_t" where
  "ipv6_extension_header_fragment_of bs = \<lparr>frag_next_header = bs ! 0, frag_reserved1 = bs ! 1,
     fragmentation_and_flags_as_integer = load16_at bs 2, frag_identification = load32_at bs 4\<rparr>"

text \<open>\<^verbatim>\<open>more_fragments : 1, reserved2 : 2, fragment_offset : 13\<close>.\<close>

definition get_more_fragments :: "ipv6_extension_header_fragment_t \<Rightarrow> u16" where
  "get_more_fragments h = take_bit 1 (fast_ntoh16 (fragmentation_and_flags_as_integer h))"

definition get_reserved2 :: "ipv6_extension_header_fragment_t \<Rightarrow> u16" where
  "get_reserved2 h = take_bit 2 (drop_bit 1 (fast_ntoh16 (fragmentation_and_flags_as_integer h)))"

definition get_fragment_offset_8byte_chunks6 :: "ipv6_extension_header_fragment_t \<Rightarrow> u16" where
  "get_fragment_offset_8byte_chunks6 h = drop_bit 3 (fast_ntoh16 (fragmentation_and_flags_as_integer h))"

definition get_fragment_offset_bytes6 :: "ipv6_extension_header_fragment_t \<Rightarrow> u16" where
  "get_fragment_offset_bytes6 h = drop_bit 3 (fast_ntoh16 (fragmentation_and_flags_as_integer h)) * 8"

section \<open>Transport protocols\<close>

record udp_header_t =
  udp_source_port :: u16
  udp_destination_port :: u16
  udp_length :: u16
  udp_checksum :: u16

definition udp_header_of :: "bytes \<Rightarrow> udp_header_t" where
  "udp_header_of bs = \<lparr>udp_source_port = load16_at bs 0, udp_destination_port = load16_at bs 2,
     udp_length = load16_at bs 4, udp_checksum = load16_at bs 6\<rparr>"

record icmp_header_t =
  icmp_header_type :: u8
  icmp_header_code :: u8
  icmp_checksum :: u16
  rest_of_header :: u32

definition icmp_header_of :: "bytes \<Rightarrow> icmp_header_t" where
  "icmp_header_of bs = \<lparr>icmp_header_type = bs ! 0, icmp_header_code = bs ! 1, icmp_checksum = load16_at bs 2,
     rest_of_header = load32_at bs 4\<rparr>"

record cropped_tcp_header_only_ports_t =
  cropped_source_port :: u16
  cropped_destination_port :: u16

definition cropped_tcp_header_of :: "bytes \<Rightarrow> cropped_tcp_header_only_ports_t" where
  "cropped_tcp_header_of bs = \<lparr>cropped_source_port = load16_at bs 0, cropped_destination_port = load16_at bs 2\<rparr>"

record tcp_header_t =
  tcp_source_port :: u16
  tcp_destination_port :: u16
  sequence_number :: u32
  ack_number :: u32
  data_offset_and_flags_as_integer :: u16
  window_size :: u16
  tcp_checksum :: u16
  urgent :: u16

definition tcp_header_of :: "bytes \<Rightarrow> tcp_header_t" where
  "tcp_header_of bs = \<lparr>tcp_source_port = load16_at bs 0, tcp_destination_port = load16_at bs 2,
     sequence_number = load32_at bs 4, ack_number = load32_at bs 8, data_offset_and_flags_as_integer = load16_at bs 12,
     window_size = load16_at bs 14, tcp_checksum = load16_at bs 16, urgent = load16_at bs 18\<rparr>"

text \<open>
  \<^verbatim>\<open>fin, syn, rst, psh, ack, urg, ece, cwr, ns : 1, reserved : 3, data_offset : 4\<close>.
\<close>

definition get_fin :: "tcp_header_t \<Rightarrow> bool" where
  "get_fin h = bit (fast_ntoh16 (data_offset_and_flags_as_integer h)) 0"

definition get_syn :: "tcp_header_t \<Rightarrow> bool" where
  "get_syn h = bit (fast_ntoh16 (data_offset_and_flags_as_integer h)) 1"

definition get_rst :: "tcp_header_t \<Rightarrow> bool" where
  "get_rst h = bit (fast_ntoh16 (data_offset_and_flags_as_integer h)) 2"

definition get_psh :: "tcp_header_t \<Rightarrow> bool" where
  "get_psh h = bit (fast_ntoh16 (data_offset_and_flags_as_integer h)) 3"

definition get_ack :: "tcp_header_t \<Rightarrow> bool" where
  "get_ack h = bit (fast_ntoh16 (data_offset_and_flags_as_integer h)) 4"

definition get_urg :: "tcp_header_t \<Rightarrow> bool" where
  "get_urg h = bit (fast_ntoh16 (data_offset_and_flags_as_integer h)) 5"

definition get_ece :: "tcp_header_t \<Rightarrow> bool" where
  "get_ece h = bit (fast_ntoh16 (data_offset_and_flags_as_integer h)) 6"

definition get_cwr :: "tcp_header_t \<Rightarrow> bool" where
  "get_cwr h = bit (fast_ntoh16 (data_offset_and_flags_as_integer h)) 7"

definition get_ns :: "tcp_header_t \<Rightarrow> bool" where
  "get_ns h = bit (fast_ntoh16 (data_offset_and_flags_as_integer h)) 8"

definition get_reserved :: "tcp_header_t \<Rightarrow> u8" where
  "get_reserved h = ucast (take_bit 3 (drop_bit 9 (fast_ntoh16 (data_offset_and_flags_as_integer h))))"

definition get_data_offset :: "tcp_header_t \<Rightarrow> u8" where
  "get_data_offset h = ucast (drop_bit 12 (fast_ntoh16 (data_offset_and_flags_as_integer h)))"

definition set_data_offset :: "u8 \<Rightarrow> tcp_header_t \<Rightarrow> tcp_header_t" where
  "set_data_offset data_offset h = h\<lparr>data_offset_and_flags_as_integer :=
     htons (take_bit 12 (fast_ntoh16 (data_offset_and_flags_as_integer h)) OR push_bit 12 (ucast data_offset))\<rparr>"

section \<open>Laws of the layouts\<close>

lemma load16_at_mem16 [simp]: "load16_at (mem16 w @ bs) 0 = w"
  by (simp add: load16_at_def mem16_def wire_simps)

text \<open>A member behind others is loaded from the rest.\<close>

lemma load_at_append [simp]:
  "length as = i \<Longrightarrow> load16_at (as @ bs) i = load16_at bs 0"
  "length as = i \<Longrightarrow> load32_at (as @ bs) i = load32_at bs 0"
  by (auto simp: load16_at_def load32_at_def nth_append numeral_2_eq_2)

lemma load32_at_mem32 [simp]: "load32_at (mem32 w @ bs) 0 = w"
  by (simp add: load32_at_def mem32_def wire_simps)

lemma set_fragment_offset_get:
  "get_fragment_offset_8byte_chunks (set_fragment_offset_8byte_chunks v h) = take_bit 13 v"
  "get_more_fragments_flag (set_fragment_offset_8byte_chunks v h) = get_more_fragments_flag h"
  "get_dont_fragment_flag (set_fragment_offset_8byte_chunks v h) = get_dont_fragment_flag h"
  by (auto simp: set_fragment_offset_8byte_chunks_def get_fragment_offset_8byte_chunks_def
      get_more_fragments_flag_def get_dont_fragment_flag_def bit_simps intro!: bit_word_eqI)

lemma clear_dont_fragment_get:
  "\<not> get_dont_fragment_flag (clear_dont_fragment_flag h)"
  "get_fragment_offset_bytes (clear_dont_fragment_flag h) = get_fragment_offset_bytes h"
  "get_more_fragments_flag (clear_dont_fragment_flag h) = get_more_fragments_flag h"
proof -
  have "take_bit 13 (unset_bit 14 w) = take_bit 13 (w :: u16)" for w
    by (rule bit_word_eqI) (auto simp: bit_simps)
  then show "\<not> get_dont_fragment_flag (clear_dont_fragment_flag h)"
    "get_fragment_offset_bytes (clear_dont_fragment_flag h) = get_fragment_offset_bytes h"
    "get_more_fragments_flag (clear_dont_fragment_flag h) = get_more_fragments_flag h"
    by (simp_all add: clear_dont_fragment_flag_def get_dont_fragment_flag_def get_fragment_offset_bytes_def
        get_more_fragments_flag_def bit_simps)
qed

lemma fragment_offset_zero: "get_fragment_offset_bytes h = 0 \<longleftrightarrow> get_fragment_offset_8byte_chunks h = 0"
proof -
  have "take_bit 13 w * 8 = 0 \<longleftrightarrow> take_bit 13 w = 0" for w :: u16
  proof -
    have "unat (take_bit 13 w) < 2 ^ 13"
      using take_bit_nat_less_exp [of 13 "unat w"] by (simp add: unsigned_take_bit_eq)
    then have "unat (take_bit 13 w * 8) = unat (take_bit 13 w) * 8"
      by (subst unat_mult_lem [THEN iffD1]) simp_all
    then show ?thesis
      by (metis mult_eq_0_iff unat_0 unat_eq_zero zero_neq_numeral mult_zero_left)
  qed
  then show ?thesis
    by (simp add: get_fragment_offset_bytes_def get_fragment_offset_8byte_chunks_def)
qed

end
