(* ===== verification/Packet_Parser.thy ===== *)
theory Packet_Parser
  imports Packet_Headers
begin

text \<open>
  The packet parsers of \<^verbatim>\<open>src/simple_packet_parser_ng.cpp\<close>, which turn captured bytes into the
  packets the classifier counts, and the packet storage of \<^verbatim>\<open>src/fixed_size_packet_storage.hpp\<close>. A pointer
  into the captured bytes is an offset; \<open>bs\<close> are the captured bytes, so \<^verbatim>\<open>captured_length\<close> is their
  number. The packet is changed step by step also when the parser fails, so it is part of every result.
\<close>

section \<open>Results and options\<close>

datatype parser_code_t = memory_violation | not_ipv4 | success | broken_gre | no_ipv6_support
  | no_ipv6_options_support | unknown_ethertype | arp | too_many_nested_vlans | too_many_mpls_tags | mpls
  | unknown_traffic_in_mpls | broken_pppoe | pppoe_ipv6 | malformed_ip_header_length | maximum_parser_code_value

fun parser_code_to_string :: "parser_code_t \<Rightarrow> string" where
  "parser_code_to_string memory_violation = ''memory_violation''"
| "parser_code_to_string not_ipv4 = ''not_ipv4''"
| "parser_code_to_string success = ''success''"
| "parser_code_to_string broken_gre = ''broken_gre''"
| "parser_code_to_string no_ipv6_support = ''no_ipv6_support''"
| "parser_code_to_string no_ipv6_options_support = ''no_ipv6_options_support''"
| "parser_code_to_string unknown_ethertype = ''unknown_ethertype''"
| "parser_code_to_string arp = ''arp''"
| "parser_code_to_string mpls = ''mpls''"
| "parser_code_to_string unknown_traffic_in_mpls = ''unknown_traffic_in_mpls''"
| "parser_code_to_string too_many_nested_vlans = ''too_many_nested_vlans''"
| "parser_code_to_string too_many_mpls_tags = ''too_many_mpls_tags''"
| "parser_code_to_string broken_pppoe = ''broken_pppoe''"
| "parser_code_to_string pppoe_ipv6 = ''pppoe_ipv6''"
| "parser_code_to_string malformed_ip_header_length = ''malformed_ip_header_length''"
| "parser_code_to_string maximum_parser_code_value = ''unknown''"

record parser_options_t =
  unpack_gre :: bool
  read_packet_length_from_ip_header :: bool
  unpack_gtp_v1 :: bool
  parse_mpls :: bool
  unpack_ppp :: bool

definition parser_options_default :: parser_options_t where
  "parser_options_default = \<lparr>unpack_gre = False, read_packet_length_from_ip_header = False, unpack_gtp_v1 = False,
     parse_mpls = False, unpack_ppp = False\<rparr>"

definition maximum_vlans_to_strip :: nat where
  "maximum_vlans_to_strip = 3"

type_synonym parsed = "(parser_code_t \<times> simple_packet_t) outcome"

section \<open>VLAN tags\<close>

text \<open>
  The loop over the VLAN tags, with what the parser goes on with behind them: the offset, the ethertype
  and the packet. The bound on the number of tags repeats the check at the end of the body, which ends the
  loop before the number exceeds it.
\<close>

function vlan_loop ::
    "bytes \<Rightarrow> nat \<Rightarrow> u16 \<Rightarrow> nat \<Rightarrow> simple_packet_t \<Rightarrow> (nat \<Rightarrow> u16 \<Rightarrow> simple_packet_t \<Rightarrow> parsed) \<Rightarrow> parsed" where
  "vlan_loop bs i ethertype number_of_stripped_vlans packet next =
     (if ethertype = IanaEthertypeVLAN \<and> number_of_stripped_vlans \<le> maximum_vlans_to_strip
      then if i + 4 > length bs then Done (memory_violation, packet)
           else and_then (deref 4 ethernet_vlan_header_of bs i) (\<lambda>h.
             let packet = (if number_of_stripped_vlans = 0
                           then packet\<lparr>vlan := ucast (get_vlan_id_host_byte_order h)\<rparr> else packet)
             in if Suc number_of_stripped_vlans > maximum_vlans_to_strip then Done (too_many_nested_vlans, packet)
                else vlan_loop bs (i + 4) (get_vlan_ethertype_host_byte_order h) (Suc number_of_stripped_vlans) packet next)
      else next i ethertype packet)"
  by pat_completeness auto
termination
  by (relation "measure (\<lambda>(bs, i, e, n, p, next). Suc maximum_vlans_to_strip - n)")
    (auto simp: maximum_vlans_to_strip_def)

declare vlan_loop.simps [simp del]

section \<open>Transport headers\<close>

definition tcp_flags_byte :: "tcp_header_t \<Rightarrow> u8" where
  "tcp_flags_byte h = of_bool (get_fin h) * 0x01 + of_bool (get_syn h) * 0x02 + of_bool (get_rst h) * 0x04
     + of_bool (get_psh h) * 0x08 + of_bool (get_ack h) * 0x10 + of_bool (get_urg h) * 0x20"

definition with_tcp_header :: "tcp_header_t \<Rightarrow> simple_packet_t \<Rightarrow> simple_packet_t" where
  "with_tcp_header h packet = packet\<lparr>source_port := fast_ntoh16 (tcp_source_port h),
     destination_port := fast_ntoh16 (tcp_destination_port h), tcp_sequence_number := fast_ntoh32 (sequence_number h),
     tcp_ack_number := fast_ntoh32 (ack_number h), tcp_window_size := fast_ntoh16 (window_size h),
     flags := tcp_flags_byte h\<rparr>"

definition parse_udp :: "bytes \<Rightarrow> nat \<Rightarrow> simple_packet_t \<Rightarrow> parsed" where
  "parse_udp bs i packet =
     (if i + 8 > length bs then Done (memory_violation, packet)
      else and_then (deref 8 udp_header_of bs i) (\<lambda>h. Done (success,
             packet\<lparr>source_port := fast_ntoh16 (udp_source_port h), destination_port := fast_ntoh16 (udp_destination_port h),
               l4_payload_pointer := Some (drop (i + 8) bs), l4_payload_length := of_nat (length bs - (i + 8))\<rparr>)))"

definition parse_icmp :: "bytes \<Rightarrow> nat \<Rightarrow> simple_packet_t \<Rightarrow> parsed" where
  "parse_icmp bs i packet =
     (if i + 8 > length bs then Done (memory_violation, packet)
      else and_then (deref 8 icmp_header_of bs i) (\<lambda>h.
             Done (success, packet\<lparr>icmp_type := icmp_header_type h, icmp_code := icmp_header_code h\<rparr>)))"

text \<open>The Ethernet parser takes the ports of a TCP header that was cut off; the IP parsers refuse it.\<close>

definition parse_tcp_cropped :: "bytes \<Rightarrow> nat \<Rightarrow> simple_packet_t \<Rightarrow> parsed" where
  "parse_tcp_cropped bs i packet =
     (if i + 20 > length bs
      then if i + 4 > length bs then Done (memory_violation, packet)
           else and_then (deref 4 cropped_tcp_header_of bs i) (\<lambda>h.
                  Done (success, packet\<lparr>source_port := fast_ntoh16 (cropped_source_port h),
                    destination_port := fast_ntoh16 (cropped_destination_port h)\<rparr>))
      else and_then (deref 20 tcp_header_of bs i) (\<lambda>h. Done (success, with_tcp_header h packet)))"

definition parse_tcp :: "bytes \<Rightarrow> nat \<Rightarrow> simple_packet_t \<Rightarrow> parsed" where
  "parse_tcp bs i packet =
     (if i + 20 > length bs then Done (memory_violation, packet)
      else and_then (deref 20 tcp_header_of bs i) (\<lambda>h. Done (success, with_tcp_header h packet)))"

definition parse_l4 :: "u8 \<Rightarrow> bytes \<Rightarrow> nat \<Rightarrow> simple_packet_t \<Rightarrow> parsed" where
  "parse_l4 proto bs i packet =
     (if proto = IpProtocolNumberTCP then parse_tcp_cropped bs i packet
      else if proto = IpProtocolNumberICMP then parse_icmp bs i packet
      else if proto = IpProtocolNumberIPV6_ICMP then parse_icmp bs i packet
      else if proto = IpProtocolNumberUDP then parse_udp bs i packet
      else Done (success, packet))"

text \<open>The same part of the two IP parsers.\<close>

definition parse_l4_of_ip :: "u8 \<Rightarrow> bytes \<Rightarrow> nat \<Rightarrow> simple_packet_t \<Rightarrow> parsed" where
  "parse_l4_of_ip proto bs i packet =
     (if proto = IpProtocolNumberTCP then parse_tcp bs i packet
      else if proto = IpProtocolNumberUDP then parse_udp bs i packet
      else if proto = IpProtocolNumberICMP then parse_icmp bs i packet
      else Done (success, packet))"

section \<open>Network headers\<close>

definition ip_header_length :: "ipv4_header_t \<Rightarrow> u8" where
  "ip_header_length h = get_ihl h * 4"

text \<open>The fields both IPv4 parsers set.\<close>

definition with_ipv4_header ::
    "parser_options_t \<Rightarrow> int \<Rightarrow> bytes \<Rightarrow> ipv4_header_t \<Rightarrow> simple_packet_t \<Rightarrow> simple_packet_t" where
  "with_ipv4_header parser_options length_before_sampling bs h packet =
     packet\<lparr>src_ip := ip4_source h, dst_ip := ip4_destination h, ip_protocol_version := 4, ttl := ip4_ttl h,
       ip_length := ucast (get_total_length_host_byte_order h), ip_dont_fragment := get_dont_fragment_flag h,
       ip_fragmented := is_fragmented h, captured_payload_length := length_before_sampling,
       payload_full_length := word_of_int length_before_sampling, payload_pointer := Some bs,
       protocol := ucast (ip4_protocol h),
       length' := (if read_packet_length_from_ip_header parser_options then ucast (get_total_length_host_byte_order h)
                   else word_of_int length_before_sampling)\<rparr>"

definition parse_ipv4 :: "parser_options_t \<Rightarrow> int \<Rightarrow> bytes \<Rightarrow> nat \<Rightarrow> simple_packet_t \<Rightarrow> parsed" where
  "parse_ipv4 parser_options length_before_sampling bs i packet =
     (if i + 20 > length bs then Done (memory_violation, packet)
      else and_then (deref 20 ipv4_header_of bs i) (\<lambda>h.
        let packet = (with_ipv4_header parser_options length_before_sampling bs h packet)
              \<lparr>ip_more_fragments := get_more_fragments_flag h, ip_fragment_offset := get_fragment_offset_bytes h\<rparr>
        in if get_fragment_offset_bytes h \<noteq> 0 then Done (success, packet)
           else if i + unat (ip_header_length h) > length bs then Done (malformed_ip_header_length, packet)
           else parse_l4 (ip4_protocol h) bs (i + unat (ip_header_length h)) packet))"

definition with_ipv6_header ::
    "parser_options_t \<Rightarrow> int \<Rightarrow> bytes \<Rightarrow> ipv6_header_t \<Rightarrow> simple_packet_t \<Rightarrow> simple_packet_t" where
  "with_ipv6_header parser_options length_before_sampling bs h packet =
     packet\<lparr>src_ipv6 := source_address h, dst_ipv6 := destination_address h, ip_protocol_version := 6, ttl := hop_limit h,
       ip_length := ucast (get_payload_length h), captured_payload_length := length_before_sampling,
       payload_full_length := word_of_int length_before_sampling, payload_pointer := Some bs,
       protocol := ucast (next_header h),
       length' := (if read_packet_length_from_ip_header parser_options then ucast (get_payload_length h)
                   else word_of_int length_before_sampling)\<rparr>"

definition is_ipv6_option :: "u8 \<Rightarrow> bool" where
  "is_ipv6_option proto \<longleftrightarrow> proto = IpProtocolNumberHOPOPT \<or> proto = IpProtocolNumberIPV6_ROUTE
     \<or> proto = IpProtocolNumberIPV6_FRAG \<or> proto = IpProtocolNumberIPV6_OPTS \<or> proto = IpProtocolNumberAH
     \<or> proto = IpProtocolNumberESP"

text \<open>Both IPv6 parsers, with the transport part of each.\<close>

definition parse_ipv6 :: "(u8 \<Rightarrow> bytes \<Rightarrow> nat \<Rightarrow> simple_packet_t \<Rightarrow> parsed)
    \<Rightarrow> parser_options_t \<Rightarrow> int \<Rightarrow> bytes \<Rightarrow> nat \<Rightarrow> simple_packet_t \<Rightarrow> parsed" where
  "parse_ipv6 l4 parser_options length_before_sampling bs i packet =
     (if i + 40 > length bs then Done (memory_violation, packet)
      else and_then (deref 40 ipv6_header_of bs i) (\<lambda>h.
        let packet = with_ipv6_header parser_options length_before_sampling bs h packet
        in if is_ipv6_option (next_header h)
           then if next_header h = IpProtocolNumberIPV6_FRAG
                then if i + 40 + 8 > length bs then Done (memory_violation, packet)
                     else and_then (deref 8 ipv6_extension_header_fragment_of bs (i + 40)) (\<lambda>f.
                            Done (success, packet\<lparr>ip_fragmented := True, ip_more_fragments := get_more_fragments f \<noteq> 0,
                              ip_fragment_offset := get_fragment_offset_bytes6 f\<rparr>))
                else Done (no_ipv6_options_support, packet)
           else l4 (next_header h) bs (i + 40) packet))"

section \<open>Parsers\<close>

definition parse_l3 :: "parser_options_t \<Rightarrow> int \<Rightarrow> bytes \<Rightarrow> nat \<Rightarrow> u16 \<Rightarrow> simple_packet_t \<Rightarrow> parsed" where
  "parse_l3 parser_options length_before_sampling bs i ethertype packet =
     (if ethertype = IanaEthertypeIPv4 then parse_ipv4 parser_options length_before_sampling bs i packet
      else if ethertype = IanaEthertypeIPv6 then parse_ipv6 parse_l4 parser_options length_before_sampling bs i packet
      else if ethertype = IanaEthertypeARP then Done (arp, packet)
      else if ethertype = IanaEthertypeMPLS_unicast then Done (mpls, packet)
      else Done (unknown_ethertype, packet))"

definition parse_raw_packet_to_simple_packet_full ::
    "bytes \<Rightarrow> int \<Rightarrow> simple_packet_t \<Rightarrow> parser_options_t \<Rightarrow> parsed" where
  "parse_raw_packet_to_simple_packet_full bs length_before_sampling packet parser_options =
     (if 14 > length bs then Done (memory_violation, packet)
      else and_then (deref 14 ethernet_header_of bs 0) (\<lambda>h.
        vlan_loop bs 14 (get_ethertype_host_byte_order h) 0
          (packet\<lparr>source_mac := eth_source_mac h, destination_mac := eth_destination_mac h\<rparr>)
          (parse_l3 parser_options length_before_sampling bs)))"

definition parse_raw_ipv6_packet_to_simple_packet_full ::
    "bytes \<Rightarrow> int \<Rightarrow> simple_packet_t \<Rightarrow> parser_options_t \<Rightarrow> parsed" where
  "parse_raw_ipv6_packet_to_simple_packet_full bs length_before_sampling packet parser_options =
     parse_ipv6 parse_l4_of_ip parser_options length_before_sampling bs 0 packet"

definition parse_raw_ipv4_packet_to_simple_packet_full ::
    "bytes \<Rightarrow> int \<Rightarrow> simple_packet_t \<Rightarrow> parser_options_t \<Rightarrow> parsed" where
  "parse_raw_ipv4_packet_to_simple_packet_full bs length_before_sampling packet parser_options =
     (if 20 > length bs then Done (memory_violation, packet)
      else and_then (deref 20 ipv4_header_of bs 0) (\<lambda>h.
        let packet = with_ipv4_header parser_options length_before_sampling bs h packet
        in if unat (ip_header_length h) > length bs then Done (malformed_ip_header_length, packet)
           else parse_l4_of_ip (ip4_protocol h) bs (unat (ip_header_length h)) packet))"

section \<open>Stored packets\<close>

record fixed_size_packet_storage_t =
  orig_len :: u32
  incl_len :: u32
  packet_payload :: bytes

text \<open>
  The constructor copies at most 2048 bytes behind the pointer; the capture time is not modelled.
\<close>

definition fixed_size_packet_storage :: "bytes \<Rightarrow> u32 \<Rightarrow> u32 \<Rightarrow> fixed_size_packet_storage_t outcome" where
  "fixed_size_packet_storage payload captured_length real_packet_length =
     (let packet_length_for_storing = (if captured_length > 2048 then 2048 else captured_length)
      in if unat packet_length_for_storing > length payload then Undefined
         else Done \<lparr>orig_len = real_packet_length, incl_len = captured_length,
                packet_payload = pad_to 2048 (take (unat packet_length_for_storing) payload)\<rparr>)"

section \<open>Memory safety\<close>

lemma l4_safe:
  "parse_udp bs i p \<noteq> Undefined" "parse_icmp bs i p \<noteq> Undefined" "parse_tcp bs i p \<noteq> Undefined"
  "parse_tcp_cropped bs i p \<noteq> Undefined" "parse_l4 proto bs i p \<noteq> Undefined" "parse_l4_of_ip proto bs i p \<noteq> Undefined"
  by (simp_all add: parse_l4_def parse_l4_of_ip_def parse_udp_def parse_icmp_def parse_tcp_def parse_tcp_cropped_def)

lemma ipv6_safe:
  assumes "\<And>proto i p. l4 proto bs i p \<noteq> Undefined" shows "parse_ipv6 l4 c n bs i p \<noteq> Undefined"
  using assms by (simp add: parse_ipv6_def Let_def)

lemma l3_safe: "parse_l3 c n bs i ethertype p \<noteq> Undefined"
  by (simp add: parse_l3_def parse_ipv4_def ipv6_safe l4_safe Let_def)

lemma vlan_loop_safe: "(\<And>i e p. next i e p \<noteq> Undefined) \<Longrightarrow> vlan_loop bs i ethertype n p next \<noteq> Undefined"
proof (induction bs i ethertype n p "next" rule: vlan_loop.induct)
  case (1 bs i ethertype n p "next")
  then show ?case
    by (subst vlan_loop.simps) (simp add: Let_def)
qed

section \<open>Wire form of the headers\<close>

definition ethernet_bytes :: "ethernet_header_t \<Rightarrow> bytes" where
  "ethernet_bytes h = eth_destination_mac h @ eth_source_mac h @ mem16 (eth_ethertype h)"

definition vlan_bytes :: "ethernet_vlan_header_t \<Rightarrow> bytes" where
  "vlan_bytes h = mem16 (vlan_metadata_as_integer h) @ mem16 (vlan_ethertype h)"

definition ipv4_bytes :: "ipv4_header_t \<Rightarrow> bytes" where
  "ipv4_bytes h = [version_ihl h, dscp_ecn h] @ mem16 (total_length h) @ mem16 (identification h)
     @ mem16 (fragmentation_details_as_integer h) @ [ip4_ttl h, ip4_protocol h] @ mem16 (ip4_checksum h)
     @ mem32 (ip4_source h) @ mem32 (ip4_destination h)"

definition udp_bytes :: "udp_header_t \<Rightarrow> bytes" where
  "udp_bytes h = mem16 (udp_source_port h) @ mem16 (udp_destination_port h) @ mem16 (udp_length h) @ mem16 (udp_checksum h)"

definition tcp_bytes :: "tcp_header_t \<Rightarrow> bytes" where
  "tcp_bytes h = mem16 (tcp_source_port h) @ mem16 (tcp_destination_port h) @ mem32 (sequence_number h) @ mem32 (ack_number h)
     @ mem16 (data_offset_and_flags_as_integer h) @ mem16 (window_size h) @ mem16 (tcp_checksum h) @ mem16 (urgent h)"

lemma length_header_bytes [simp]:
  "length (vlan_bytes v) = 4" "length (ipv4_bytes h) = 20" "length (udp_bytes u) = 8" "length (tcp_bytes t) = 20"
  by (simp_all add: vlan_bytes_def ipv4_bytes_def udp_bytes_def tcp_bytes_def)

lemma nth_behind:
  "2 \<le> n \<Longrightarrow> (mem16 w @ bs) ! n = bs ! (n - 2)" "4 \<le> n \<Longrightarrow> (mem32 v @ bs) ! n = bs ! (n - 4)"
  by (simp_all add: nth_append)

lemma load_skip:
  assumes "length as \<le> n"
  shows "load16_at (as @ bs) n = load16_at bs (n - length as)" "load32_at (as @ bs) n = load32_at bs (n - length as)"
proof -
  obtain m where "n = length as + m"
    using assms le_Suc_ex by blast
  then show "load16_at (as @ bs) n = load16_at bs (n - length as)" "load32_at (as @ bs) n = load32_at bs (n - length as)"
    by (simp_all only: load16_at_def load32_at_def add.assoc nth_append_length_plus diff_add_inverse)
qed

lemma load_behind:
  "2 \<le> n \<Longrightarrow> load16_at (mem16 w @ bs) n = load16_at bs (n - 2)" "4 \<le> n \<Longrightarrow> load16_at (mem32 v @ bs) n = load16_at bs (n - 4)"
  "2 \<le> n \<Longrightarrow> load32_at (mem16 w @ bs) n = load32_at bs (n - 2)" "4 \<le> n \<Longrightarrow> load32_at (mem32 v @ bs) n = load32_at bs (n - 4)"
  "1 \<le> n \<Longrightarrow> load16_at (x # bs) n = load16_at bs (n - 1)" "1 \<le> n \<Longrightarrow> load32_at (x # bs) n = load32_at bs (n - 1)"
  using load_skip [of "mem16 w" n bs] load_skip [of "mem32 v" n bs] load_skip [of "[x]" n bs] by simp_all

lemma load_last: "load16_at (mem16 w) 0 = w" "load32_at (mem32 v) 0 = v"
  using load16_at_mem16 [of w "[]"] load32_at_mem32 [of v "[]"] by simp_all

lemmas layout_simps = nth_behind load_behind load_last

lemma headers_of_bytes [simp]:
  "ethernet_vlan_header_of (vlan_bytes v) = v" "ipv4_header_of (ipv4_bytes h) = h"
  "udp_header_of (udp_bytes u) = u" "tcp_header_of (tcp_bytes t) = t"
  by (simp_all add: ethernet_vlan_header_of_def vlan_bytes_def ipv4_header_of_def ipv4_bytes_def udp_header_of_def
      udp_bytes_def tcp_header_of_def tcp_bytes_def layout_simps)

text \<open>A header that starts at an offset.\<close>

lemma deref_drop: "i \<le> length bs \<Longrightarrow> deref n layout bs (i + j) = deref n layout (drop i bs) j"
  by (simp add: deref_def add.commute add.left_commute le_diff_conv2 ac_simps)

section \<open>Parsing depends on the rest only\<close>

lemma l4_drop:
  assumes "i \<le> length bs"
  shows "parse_udp bs (i + j) p = parse_udp (drop i bs) j p" "parse_icmp bs (i + j) p = parse_icmp (drop i bs) j p"
    "parse_tcp bs (i + j) p = parse_tcp (drop i bs) j p" "parse_tcp_cropped bs (i + j) p = parse_tcp_cropped (drop i bs) j p"
    "parse_l4 proto bs (i + j) p = parse_l4 proto (drop i bs) j p"
proof -
  have outside: "i + j + n > length bs \<longleftrightarrow> j + n > length (drop i bs)" for n
    using assms by auto
  have rest: "drop (i + j + 8) bs = drop (j + 8) (drop i bs)" "length bs - (i + j + 8) = length (drop i bs) - (j + 8)"
    by (simp_all add: ac_simps)
  note shift = outside deref_drop [OF assms] rest
  show "parse_udp bs (i + j) p = parse_udp (drop i bs) j p" "parse_icmp bs (i + j) p = parse_icmp (drop i bs) j p"
    "parse_tcp bs (i + j) p = parse_tcp (drop i bs) j p" "parse_tcp_cropped bs (i + j) p = parse_tcp_cropped (drop i bs) j p"
    unfolding parse_udp_def parse_icmp_def parse_tcp_def parse_tcp_cropped_def shift by (rule refl)+
  then show "parse_l4 proto bs (i + j) p = parse_l4 proto (drop i bs) j p"
    by (simp add: parse_l4_def)
qed

section \<open>Frames\<close>

text \<open>The ethertype \<open>e\<close> is followed by VLAN tags that end with the ethertype \<open>e'\<close>.\<close>

fun tagged :: "u16 \<Rightarrow> ethernet_vlan_header_t list \<Rightarrow> u16 \<Rightarrow> bool" where
  "tagged e [] e' \<longleftrightarrow> e = e' \<and> e' \<noteq> IanaEthertypeVLAN"
| "tagged e (t # tags) e' \<longleftrightarrow> e = IanaEthertypeVLAN \<and> tagged (get_vlan_ethertype_host_byte_order t) tags e'"

definition frame :: "ethernet_header_t \<Rightarrow> ethernet_vlan_header_t list \<Rightarrow> bytes \<Rightarrow> bytes" where
  "frame eth tags l3 = ethernet_bytes eth @ concat (map vlan_bytes tags) @ l3"

text \<open>What the link layer adds to a packet.\<close>

definition with_link :: "ethernet_header_t \<Rightarrow> ethernet_vlan_header_t list \<Rightarrow> simple_packet_t \<Rightarrow> simple_packet_t" where
  "with_link eth tags packet =
     (let packet = packet\<lparr>source_mac := eth_source_mac eth, destination_mac := eth_destination_mac eth\<rparr>
      in case tags of [] \<Rightarrow> packet | t # _ \<Rightarrow> packet\<lparr>vlan := ucast (get_vlan_id_host_byte_order t)\<rparr>)"

lemma vlan_loop_tags:
  "tagged e tags e' \<Longrightarrow> n + length tags \<le> 3 \<Longrightarrow> drop i bs = concat (map vlan_bytes tags) @ l3 \<Longrightarrow> i \<le> length bs \<Longrightarrow>
     vlan_loop bs i e n p next = next (i + 4 * length tags) e'
       (if n = 0 \<and> tags \<noteq> [] then p\<lparr>vlan := ucast (get_vlan_id_host_byte_order (hd tags))\<rparr> else p)"
proof (induction tags arbitrary: e n i p)
  case Nil
  then show ?case
    by (subst vlan_loop.simps) simp
next
  case (Cons t tags)
  have rest: "drop i bs = vlan_bytes t @ concat (map vlan_bytes tags) @ l3"
    using Cons.prems(3) by simp
  then have inside: "i + 4 \<le> length bs"
    using Cons.prems(4) by (metis diff_is_0_eq drop_eq_Nil le_add1 length_append length_drop length_header_bytes(1) less_diff_conv
        add.commute le_diff_conv2)
  have "drop (i + 4) bs = concat (map vlan_bytes tags) @ l3"
    using rest by (metis add.commute append_eq_conv_conj drop_drop length_header_bytes(1))
  moreover have "take 4 (drop i bs) = vlan_bytes t"
    using rest by simp
  ultimately show ?case
    using Cons.prems Cons.IH [of "get_vlan_ethertype_host_byte_order t" "Suc n" "i + 4"] inside
    by (subst vlan_loop.simps) (simp add: maximum_vlans_to_strip_def Let_def add.assoc)
qed

lemma length_tags [simp]: "length (concat (map vlan_bytes tags)) = 4 * length tags"
  by (induction tags) simp_all

lemma frame_parsed:
  assumes "length (eth_source_mac eth) = 6" "length (eth_destination_mac eth) = 6"
    and "tagged (get_ethertype_host_byte_order eth) tags e" "length tags \<le> 3"
  shows "parse_raw_packet_to_simple_packet_full (frame eth tags l3) n p c =
    parse_l3 c n (frame eth tags l3) (14 + 4 * length tags) e (with_link eth tags p)"
proof -
  have bytes: "length (ethernet_bytes eth) = 14" "ethernet_header_of (ethernet_bytes eth) = eth"
    using assms(1,2) by (simp_all add: ethernet_bytes_def ethernet_header_of_def load_skip load_last)
  have "drop 14 (frame eth tags l3) = concat (map vlan_bytes tags) @ l3"
    using bytes(1) by (simp add: frame_def)
  note loop = vlan_loop_tags [OF assms(3), of 0 14 "frame eth tags l3", OF _ this]
  have "take 14 (frame eth tags l3) = ethernet_bytes eth" "14 \<le> length (frame eth tags l3)"
    using bytes(1) by (simp_all add: frame_def)
  then show ?thesis
    using loop assms(4) bytes(2)
    by (cases tags) (simp_all add: parse_raw_packet_to_simple_packet_full_def with_link_def)
qed

lemma frame_rest:
  assumes "length (eth_source_mac eth) = 6" "length (eth_destination_mac eth) = 6"
  shows "drop (14 + 4 * length tags) (frame eth tags l3) = l3" "14 + 4 * length tags \<le> length (frame eth tags l3)"
proof -
  have "length (ethernet_bytes eth @ concat (map vlan_bytes tags)) = 14 + 4 * length tags"
    using assms by (simp add: ethernet_bytes_def)
  then show "drop (14 + 4 * length tags) (frame eth tags l3) = l3" "14 + 4 * length tags \<le> length (frame eth tags l3)"
    unfolding frame_def append_assoc [symmetric] by (metis append_eq_conv_conj, simp)
qed

text \<open>The two IPv4 parsers agree on a whole packet inside a frame.\<close>

lemma l4_success:
  assumes "parse_l4_of_ip proto bs i p = Done (success, q)" "proto \<noteq> IpProtocolNumberIPV6_ICMP"
  shows "parse_l4 proto bs i p = Done (success, q)"
  using assms
  by (auto simp: parse_l4_of_ip_def parse_l4_def parse_tcp_def parse_tcp_cropped_def protocol_number_defs split: if_splits)

text \<open>What the Ethernet parser adds to the packet of an IPv4 packet that is not a later fragment.\<close>

definition encapsulated ::
    "ethernet_header_t \<Rightarrow> ethernet_vlan_header_t list \<Rightarrow> bytes \<Rightarrow> ipv4_header_t \<Rightarrow> simple_packet_t \<Rightarrow> simple_packet_t" where
  "encapsulated eth tags bs h packet = (with_link eth tags packet)\<lparr>payload_pointer := Some bs,
     ip_more_fragments := get_more_fragments_flag h, ip_fragment_offset := 0\<rparr>"

lemma encapsulated_header:
  "get_fragment_offset_bytes h = 0 \<Longrightarrow>
     (with_ipv4_header c n bs h (with_link eth tags p))\<lparr>ip_more_fragments := get_more_fragments_flag h,
       ip_fragment_offset := get_fragment_offset_bytes h\<rparr> = encapsulated eth tags bs h (with_ipv4_header c n l3 h p)"
  by (cases p; cases tags) (simp_all add: encapsulated_def with_link_def with_ipv4_header_def)

lemma l4_encapsulated:
  assumes "parse_l4_of_ip proto bs i p = Done (code, q)"
  shows "parse_l4_of_ip proto bs i (encapsulated eth tags fr h p) = Done (code, encapsulated eth tags fr h q)"
proof -
  have "with_tcp_header t (encapsulated eth tags fr h p) = encapsulated eth tags fr h (with_tcp_header t p)" for t
    by (cases p; cases tags) (simp_all add: encapsulated_def with_link_def with_tcp_header_def)
  moreover have "(encapsulated eth tags fr h p)\<lparr>source_port := a, destination_port := b, l4_payload_pointer := x,
      l4_payload_length := y\<rparr> = encapsulated eth tags fr h (p\<lparr>source_port := a, destination_port := b,
      l4_payload_pointer := x, l4_payload_length := y\<rparr>)" for a b x y
    by (cases p; cases tags) (simp_all add: encapsulated_def with_link_def)
  moreover have "(encapsulated eth tags fr h p)\<lparr>icmp_type := a, icmp_code := b\<rparr> =
      encapsulated eth tags fr h (p\<lparr>icmp_type := a, icmp_code := b\<rparr>)" for a b
    by (cases p; cases tags) (simp_all add: encapsulated_def with_link_def)
  ultimately show ?thesis
    using assms by (auto simp: parse_l4_of_ip_def parse_tcp_def parse_udp_def parse_icmp_def split: if_splits)
qed

text \<open>A whole IPv4 packet.\<close>

lemma ipv4_packet_parsed:
  fixes l4 :: bytes
  assumes "4 * unat (get_ihl h) = 20 + length options"
  defines "bs \<equiv> ipv4_bytes h @ options @ l4"
  shows "parse_raw_ipv4_packet_to_simple_packet_full bs n p c =
    parse_l4_of_ip (ip4_protocol h) bs (20 + length options) (with_ipv4_header c n bs h p)"
proof -
  have "unat (get_ihl h) < 16"
    using take_bit_nat_less_exp [of 4 "unat (version_ihl h)"] by (simp add: get_ihl_def unsigned_take_bit_eq)
  then have "unat (ip_header_length h) = 4 * unat (get_ihl h)"
    unfolding ip_header_length_def by (subst unat_mult_lem [THEN iffD1]) simp_all
  then show ?thesis
    using assms(1) by (simp add: parse_raw_ipv4_packet_to_simple_packet_full_def bs_def Let_def)
qed

lemma udp_at:
  assumes "drop i bs = udp_bytes u @ payload" "i \<le> length bs"
  shows "parse_udp bs i p = Done (success, p\<lparr>source_port := fast_ntoh16 (udp_source_port u),
    destination_port := fast_ntoh16 (udp_destination_port u), l4_payload_pointer := Some payload,
    l4_payload_length := of_nat (length payload)\<rparr>)"
  using l4_drop(1) [OF assms(2), of 0 p] assms(1) by (simp add: parse_udp_def)

lemma tcp_at:
  assumes "drop i bs = tcp_bytes t @ payload" "i \<le> length bs"
  shows "parse_tcp bs i p = Done (success, with_tcp_header t p)"
  using l4_drop(3) [OF assms(2), of 0 p] assms(1) by (simp add: parse_tcp_def)

text \<open>An accepted packet points to the bytes it was parsed from and claims the length before sampling.\<close>

definition points_to :: "bytes \<Rightarrow> int \<Rightarrow> simple_packet_t \<Rightarrow> bool" where
  "points_to bs n packet \<longleftrightarrow> payload_pointer packet = Some bs \<and> captured_payload_length packet = n"

lemma l4_points_to:
  "points_to bs n p \<Longrightarrow> parse_l4 proto bs' i p = Done (code, q) \<Longrightarrow> points_to bs n q"
  by (auto simp: points_to_def parse_l4_def parse_tcp_cropped_def parse_udp_def parse_icmp_def with_tcp_header_def
      split: if_splits)

lemma l3_points_to:
  assumes "parse_l3 c n bs i ethertype p = Done (success, q)" shows "points_to bs n q"
proof -
  have "points_to bs n (with_ipv4_header c n bs h p)"
    "points_to bs n ((with_ipv4_header c n bs h p)\<lparr>ip_more_fragments := x, ip_fragment_offset := y\<rparr>)"
    "points_to bs n (with_ipv6_header c n bs h6 p)"
    "points_to bs n ((with_ipv6_header c n bs h6 p)\<lparr>ip_fragmented := z, ip_more_fragments := x, ip_fragment_offset := y\<rparr>)"
    for h h6 x y z
    by (simp_all add: points_to_def with_ipv4_header_def with_ipv6_header_def)
  then show ?thesis
    using assms
    by (auto simp: parse_l3_def parse_ipv4_def parse_ipv6_def Let_def split: if_splits elim!: l4_points_to [rotated])
qed

lemma vlan_loop_success:
  assumes "\<And>i e p. next i e p = Done (success, q) \<Longrightarrow> P q"
  shows "vlan_loop bs i ethertype n p next = Done (success, q) \<Longrightarrow> P q"
  using assms
proof (induction bs i ethertype n p "next" rule: vlan_loop.induct)
  case (1 bs i ethertype n p "next")
  then show ?case
    by (subst (asm) (2) vlan_loop.simps) (auto simp: Let_def split: if_splits)
qed

lemma full_points_to:
  "parse_raw_packet_to_simple_packet_full bs n p c = Done (success, q) \<Longrightarrow> points_to bs n q"
  by (rule vlan_loop_success [where P = "points_to bs n", OF l3_points_to])
    (auto simp: parse_raw_packet_to_simple_packet_full_def split: if_splits)

text \<open>A UDP packet, its header as of a later fragment, and a tagged frame around it.\<close>

definition example_ip4 :: "u16 \<Rightarrow> ipv4_header_t" where
  "example_ip4 fragmentation = \<lparr>version_ihl = 0x45, dscp_ecn = 0, total_length = htons 28, identification = 0,
     fragmentation_details_as_integer = htons fragmentation, ip4_ttl = 64, ip4_protocol = 17, ip4_checksum = 0,
     ip4_source = 0x0100000A, ip4_destination = 0x0200000A\<rparr>"

definition example_udp :: udp_header_t where
  "example_udp = \<lparr>udp_source_port = htons 53, udp_destination_port = htons 4000, udp_length = htons 8, udp_checksum = 0\<rparr>"

definition example_eth :: "u16 \<Rightarrow> ethernet_header_t" where
  "example_eth ethertype = \<lparr>eth_destination_mac = replicate 6 1, eth_source_mac = replicate 6 2, eth_ethertype = htons ethertype\<rparr>"

definition example_tag :: ethernet_vlan_header_t where
  "example_tag = \<lparr>vlan_metadata_as_integer = htons 100, vlan_ethertype = htons 2048\<rparr>"

lemma example_header:
  "4 * unat (get_ihl (example_ip4 f)) = 20" "get_ihl (example_ip4 f) = 5" "ip4_protocol (example_ip4 f) = IpProtocolNumberUDP"
  "get_fragment_offset_bytes (example_ip4 0) = 0" "get_fragment_offset_bytes (example_ip4 1) = 8"
  by (simp_all add: example_ip4_def get_ihl_def get_fragment_offset_bytes_def protocol_number_defs)

lemma example_packet_parsed:
  "\<exists>q. parse_raw_ipv4_packet_to_simple_packet_full (ipv4_bytes (example_ip4 0) @ udp_bytes example_udp) n p c = Done (success, q)
     \<and> destination_port q = 4000"
  using ipv4_packet_parsed [of "example_ip4 0" "[]" "udp_bytes example_udp" n p c]
    udp_at [of 20 "ipv4_bytes (example_ip4 0) @ udp_bytes example_udp" example_udp "[]"]
  by (simp add: example_header parse_l4_of_ip_def protocol_number_defs) (simp add: example_udp_def)

lemma frame_example:
  "\<exists>q. parse_raw_packet_to_simple_packet_full (frame (example_eth 2048) [] (ipv4_bytes (example_ip4 0) @ udp_bytes example_udp))
     n p c = Done (success, q)"
proof -
  let ?l3 = "ipv4_bytes (example_ip4 0) @ udp_bytes example_udp"
  have mac: "length (eth_source_mac (example_eth 2048)) = 6" "length (eth_destination_mac (example_eth 2048)) = 6"
    by (simp_all add: example_eth_def)
  have "tagged (get_ethertype_host_byte_order (example_eth 2048)) [] IanaEthertypeIPv4"
    by (simp add: example_eth_def get_ethertype_host_byte_order_def ethertype_defs)
  note parsed = frame_parsed [OF mac this, of ?l3 n p c]
  have "length (frame (example_eth 2048) [] ?l3) = 42" "drop 14 (frame (example_eth 2048) [] ?l3) = ?l3"
    "drop 34 (frame (example_eth 2048) [] ?l3) = udp_bytes example_udp"
    using mac by (simp_all add: frame_def ethernet_bytes_def)
  moreover have "unat (ip_header_length (example_ip4 0)) = 20"
    by (simp add: ip_header_length_def example_header)
  ultimately show ?thesis
    using parsed udp_at [of 34 "frame (example_eth 2048) [] ?l3" example_udp "[]"]
    by (simp add: parse_l3_def parse_ipv4_def Let_def example_header parse_l4_def protocol_number_defs)
qed

section \<open>Properties\<close>

text \<open>
  C36. The parsers never read outside of the captured bytes, whatever those bytes are, however short
  they are and whatever lengths they claim.
\<close>

theorem parsers_memory_safe:
  "parse_raw_packet_to_simple_packet_full bs n p c \<noteq> Undefined
   \<and> parse_raw_ipv4_packet_to_simple_packet_full bs n p c \<noteq> Undefined
   \<and> parse_raw_ipv6_packet_to_simple_packet_full bs n p c \<noteq> Undefined"
  by (simp add: parse_raw_packet_to_simple_packet_full_def parse_raw_ipv4_packet_to_simple_packet_full_def
      parse_raw_ipv6_packet_to_simple_packet_full_def vlan_loop_safe l3_safe ipv6_safe l4_safe Let_def)

text \<open>
  C37. Encapsulation does not matter: an IPv4 packet that the IPv4 parser accepts, that is not a
  later fragment and does not carry IPv6-ICMP is read the same inside an Ethernet frame with up to three VLAN tags. The frame adds the
  hardware addresses, the outermost VLAN, the pointer to the frame and the fragment fields.
\<close>

theorem encapsulation_transparent:
  assumes "length (eth_source_mac eth) = 6" "length (eth_destination_mac eth) = 6"
    and "tagged (get_ethertype_host_byte_order eth) tags IanaEthertypeIPv4" "length tags \<le> 3"
    and "parse_raw_ipv4_packet_to_simple_packet_full l3 n p c = Done (success, q)"
    and "h = ipv4_header_of (take 20 l3)" "get_fragment_offset_bytes h = 0" "ip4_protocol h \<noteq> IpProtocolNumberIPV6_ICMP"
  shows "parse_raw_packet_to_simple_packet_full (frame eth tags l3) n p c =
    Done (success, encapsulated eth tags (frame eth tags l3) h q)"
proof -
  let ?fr = "frame eth tags l3" and ?i = "14 + 4 * length tags" and ?j = "unat (ip_header_length h)"
  note rest = frame_rest [OF assms(1,2), of tags l3]
  have long: "20 \<le> length l3"
    using assms(5) by (auto simp: parse_raw_ipv4_packet_to_simple_packet_full_def split: if_splits)
  then have fits: "?j \<le> length l3"
    and ip: "parse_l4_of_ip (ip4_protocol h) l3 ?j (with_ipv4_header c n l3 h p) = Done (success, q)"
    using assms(5,6) by (auto simp: parse_raw_ipv4_packet_to_simple_packet_full_def Let_def split: if_splits)
  have "length ?fr = ?i + length l3"
    using rest by (metis le_add_diff_inverse length_drop)
  moreover have "deref 20 ipv4_header_of ?fr ?i = Done h"
    using deref_drop [OF rest(2), of 20 ipv4_header_of 0] rest(1) long assms(6) by simp
  moreover have "parse_l4 (ip4_protocol h) ?fr (?i + ?j) (encapsulated eth tags ?fr h (with_ipv4_header c n l3 h p)) =
      Done (success, encapsulated eth tags ?fr h q)"
    unfolding l4_drop(5) [OF rest(2)] rest(1) by (rule l4_success [OF l4_encapsulated [OF ip] assms(8)])
  ultimately have "parse_ipv4 c n ?fr ?i (with_link eth tags p) = Done (success, encapsulated eth tags ?fr h q)"
    using long fits assms(7) encapsulated_header [OF assms(7), of c n ?fr eth tags p l3] by (simp add: parse_ipv4_def Let_def)
  then show ?thesis
    using frame_parsed [OF assms(1-4)] by (simp add: parse_l3_def)
qed

lemma encapsulation_transparent_witness:
  "\<exists>q. parse_raw_packet_to_simple_packet_full (frame (example_eth 33024) [example_tag]
      (ipv4_bytes (example_ip4 0) @ udp_bytes example_udp)) 46 simple_packet_default parser_options_default = Done (success, q)"
proof -
  have tagged: "tagged (get_ethertype_host_byte_order (example_eth 33024)) [example_tag] IanaEthertypeIPv4"
    by (simp add: example_eth_def example_tag_def get_ethertype_host_byte_order_def get_vlan_ethertype_host_byte_order_def
        ethertype_defs)
  obtain q where q: "parse_raw_ipv4_packet_to_simple_packet_full (ipv4_bytes (example_ip4 0) @ udp_bytes example_udp) 46
      simple_packet_default parser_options_default = Done (success, q)"
    using example_packet_parsed [of 46 simple_packet_default parser_options_default] by blast
  have "example_ip4 0 = ipv4_header_of (take 20 (ipv4_bytes (example_ip4 0) @ udp_bytes example_udp))"
    by simp
  from encapsulation_transparent [OF _ _ tagged _ q this example_header(4)] show ?thesis
    by (simp add: example_eth_def) (simp add: example_ip4_def protocol_number_defs)
qed

text \<open>
  The parser reads what the packet says: of a UDP or TCP packet behind an IPv4 header with any
  options it takes the addresses, the protocol, the lengths and the ports in host byte order, for TCP
  the sequence numbers, the window and the flags, and for UDP the payload.
\<close>

lemma ipv4_packet_read:
  assumes "4 * unat (get_ihl h) = 20 + length options"
  shows "(ip4_protocol h = IpProtocolNumberUDP \<longrightarrow>
      parse_raw_ipv4_packet_to_simple_packet_full (ipv4_bytes h @ options @ udp_bytes u @ payload) n p c =
        Done (success, (with_ipv4_header c n (ipv4_bytes h @ options @ udp_bytes u @ payload) h p)
          \<lparr>source_port := fast_ntoh16 (udp_source_port u), destination_port := fast_ntoh16 (udp_destination_port u),
            l4_payload_pointer := Some payload, l4_payload_length := of_nat (length payload)\<rparr>))
    \<and> (ip4_protocol h = IpProtocolNumberTCP \<longrightarrow>
      parse_raw_ipv4_packet_to_simple_packet_full (ipv4_bytes h @ options @ tcp_bytes t @ payload) n p c =
        Done (success, with_tcp_header t (with_ipv4_header c n (ipv4_bytes h @ options @ tcp_bytes t @ payload) h p)))"
  using ipv4_packet_parsed [OF assms]
    udp_at [of "20 + length options" "ipv4_bytes h @ options @ udp_bytes u @ payload" u payload]
    tcp_at [of "20 + length options" "ipv4_bytes h @ options @ tcp_bytes t @ payload" t payload]
  by (simp add: parse_l4_of_ip_def protocol_number_defs)

text \<open>
  The IPv4 parser takes payload for ports: of a later fragment of a UDP packet, which has no UDP
  header, it reports the first bytes of the payload as the ports, while the Ethernet parser
  leaves the ports of the same packet alone.
\<close>

lemma fragment_payload_taken_for_ports:
  assumes "get_fragment_offset_bytes h \<noteq> 0" "ip4_protocol h = IpProtocolNumberUDP" "get_ihl h = 5"
    and "length payload = 8" "length (eth_source_mac eth) = 6" "length (eth_destination_mac eth) = 6"
    and "get_ethertype_host_byte_order eth = IanaEthertypeIPv4"
  shows "(\<exists>q. parse_raw_ipv4_packet_to_simple_packet_full (ipv4_bytes h @ payload) n p c = Done (success, q)
      \<and> destination_port q = of_mem16 (payload ! 3) (payload ! 2))
    \<and> (\<exists>q. parse_raw_packet_to_simple_packet_full (frame eth [] (ipv4_bytes h @ payload)) n p c = Done (success, q)
      \<and> destination_port q = destination_port p)"
proof
  have "htons (load16_at payload 2) = of_mem16 (payload ! 3) (payload ! 2)"
    by (simp add: htons_def load16_at_def wire_simps)
  then show "\<exists>q. parse_raw_ipv4_packet_to_simple_packet_full (ipv4_bytes h @ payload) n p c = Done (success, q)
      \<and> destination_port q = of_mem16 (payload ! 3) (payload ! 2)"
    using ipv4_packet_parsed [of h "[]" payload n p c] assms(2-4)
    by (simp add: parse_l4_of_ip_def parse_udp_def protocol_number_defs udp_header_of_def)
  let ?fr = "frame eth [] (ipv4_bytes h @ payload)"
  note rest = frame_rest [OF assms(5,6), of "[]" "ipv4_bytes h @ payload"]
  have "length ?fr = 14 + length (ipv4_bytes h @ payload)"
    using rest by (metis add_0_right le_add_diff_inverse length_drop list.size(3) mult_0_right)
  then have "34 \<le> length ?fr" "deref 20 ipv4_header_of ?fr 14 = Done h"
    using deref_drop [OF rest(2), of 20 ipv4_header_of 0] rest(1) by simp_all
  then show "\<exists>q. parse_raw_packet_to_simple_packet_full ?fr n p c = Done (success, q) \<and> destination_port q = destination_port p"
    using frame_parsed [OF assms(5,6), of "[]" IanaEthertypeIPv4 "ipv4_bytes h @ payload" n p c] assms(1,7)
    by (simp add: parse_l3_def parse_ipv4_def with_ipv4_header_def with_link_def Let_def ethertype_defs)
qed

lemma fragment_payload_taken_for_ports_witness:
  "\<exists>q. parse_raw_ipv4_packet_to_simple_packet_full (ipv4_bytes (example_ip4 1) @ [0, 0, 1, 2, 0, 0, 0, 0]) 28
      simple_packet_default parser_options_default = Done (success, q) \<and> destination_port q = of_mem16 2 1"
proof -
  have "get_ethertype_host_byte_order (example_eth 2048) = IanaEthertypeIPv4"
    by (simp add: example_eth_def get_ethertype_host_byte_order_def ethertype_defs)
  from fragment_payload_taken_for_ports [OF _ example_header(3) example_header(2) _ _ _ this, of 1 "[0, 0, 1, 2, 0, 0, 0, 0]"]
  show ?thesis
    by (simp add: example_header) (simp add: example_eth_def)
qed

text \<open>
  Storing a cropped packet reads behind it: a packet whose length before sampling exceeds the
  captured bytes is accepted with that length as its captured length, and storing it copies as many bytes.
\<close>

lemma cropped_packet_overread:
  assumes "parse_raw_packet_to_simple_packet_full bs n p c = Done (success, q)"
    and "int (length bs) < n" "n < 2 ^ 31" "length bs < 2048"
  shows "fixed_size_packet_storage (the (payload_pointer q)) (word_of_int (captured_payload_length q)) (payload_full_length q)
    = Undefined"
proof -
  have "unat (word_of_int n :: u32) = nat n"
    using assms(2,3) by (simp add: unsigned_of_int take_bit_int_eq_self)
  then show ?thesis
    using full_points_to [OF assms(1)] assms(2,4)
    by (auto simp: fixed_size_packet_storage_def points_to_def Let_def word_less_nat_alt)
qed

lemma cropped_packet_overread_witness:
  "\<exists>q. parse_raw_packet_to_simple_packet_full (frame (example_eth 2048) [] (ipv4_bytes (example_ip4 0) @ udp_bytes example_udp))
      1500 simple_packet_default parser_options_default = Done (success, q)
    \<and> fixed_size_packet_storage (the (payload_pointer q)) (word_of_int (captured_payload_length q)) (payload_full_length q)
      = Undefined"
proof -
  obtain q where q: "parse_raw_packet_to_simple_packet_full
      (frame (example_eth 2048) [] (ipv4_bytes (example_ip4 0) @ udp_bytes example_udp)) 1500
      simple_packet_default parser_options_default = Done (success, q)"
    using frame_example by blast
  have "length (frame (example_eth 2048) [] (ipv4_bytes (example_ip4 0) @ udp_bytes example_udp)) = 42"
    by (simp add: frame_def ethernet_bytes_def example_eth_def)
  with cropped_packet_overread [OF q] q show ?thesis
    by simp
qed

end
