(* ===== verification/Double_Arith.thy ===== *)
theory Double_Arith
  imports Binary_Buffer Complex_Main "HOL-Library.Log_Nat"
begin

text \<open>
  The \<^verbatim>\<open>double\<close> arithmetic of the speed computation: a number is the rational it denotes and every operation
  rounds its exact result to the nearest number with a 53 bit significand, ties to even. The range of
  the exponent is not bounded: the program computes with numbers between \<open>2\<close> to the power of \<open>-1022\<close> and
  \<open>2\<close> to the power of \<open>70\<close> here.
\<close>

section \<open>Rounding\<close>

definition round_even :: "rat \<Rightarrow> int" where
  "round_even y =
     (let q = \<lfloor>y\<rfloor>; f = y - of_int q
      in if f < 1 / 2 then q else if f > 1 / 2 then q + 1 else if even q then q else q + 1)"

text \<open>The exponent of the leading bit.\<close>

definition binade :: "rat \<Rightarrow> int" where
  "binade x = (if 1 \<le> x then bitlen \<lfloor>x\<rfloor> - 1 else - bitlen (\<lceil>1 / x\<rceil> - 1))"

definition round_positive :: "rat \<Rightarrow> rat" where
  "round_positive x =
     (let ulp = 2 powi (binade x - 52) in of_int (round_even (x / ulp)) * ulp)"

definition to_double :: "rat \<Rightarrow> rat" where
  "to_double x = (if x = 0 then 0 else if x < 0 then - round_positive (- x) else round_positive x)"

text \<open>Conversion of a number that is not negative to \<^verbatim>\<open>uint64_t\<close>, which is undefined beyond its range.\<close>

definition to_uint64 :: "rat \<Rightarrow> u64 outcome" where
  "to_uint64 x = (if - 1 < x \<and> x < 2 ^ 64 then Done (word_of_int (if x < 0 then 0 else \<lfloor>x\<rfloor>)) else Undefined)"

definition of_uint64 :: "u64 \<Rightarrow> rat" where
  "of_uint64 w = to_double (of_int (uint w))"

section \<open>Laws of rounding\<close>

lemma round_even_near: "\<bar>of_int (round_even y) - y\<bar> \<le> 1 / 2"
proof -
  have "of_int \<lfloor>y\<rfloor> \<le> y" "y < of_int \<lfloor>y\<rfloor> + 1"
    by linarith+
  then show ?thesis
    unfolding round_even_def Let_def by (auto split: if_splits)
qed

lemma round_even_of_int [simp]: "round_even (of_int n) = n"
  by (simp add: round_even_def)

lemma round_even_mono: assumes "x \<le> y" shows "round_even x \<le> round_even y"
proof (cases "\<lfloor>x\<rfloor> = \<lfloor>y\<rfloor>")
  case True
  then have "x - of_int \<lfloor>x\<rfloor> \<le> y - of_int \<lfloor>y\<rfloor>"
    using assms by simp
  then show ?thesis
    using True unfolding round_even_def Let_def by auto
next
  case False
  then have "\<lfloor>x\<rfloor> + 1 \<le> \<lfloor>y\<rfloor>"
    using floor_mono [OF assms] by linarith
  moreover have "round_even x \<le> \<lfloor>x\<rfloor> + 1" "\<lfloor>y\<rfloor> \<le> round_even y"
    unfolding round_even_def Let_def by auto
  ultimately show ?thesis
    by linarith
qed

lemma round_even_le: "x \<le> of_int n \<Longrightarrow> round_even x \<le> n"
  using round_even_mono [of x "of_int n"] by simp

lemma round_even_ge: "of_int n \<le> x \<Longrightarrow> n \<le> round_even x"
  using round_even_mono [of "of_int n" x] by simp

lemma powi_le [simp]: "(2 :: rat) powi a \<le> 2 powi b \<longleftrightarrow> a \<le> b"
  using power_int_increasing [of a b "2 :: rat"] power_int_strict_increasing [of b a "2 :: rat"] by force

lemma powi_less [simp]: "(2 :: rat) powi a < 2 powi b \<longleftrightarrow> a < b"
  using powi_le [of b a] by (simp only: linorder_not_le [symmetric])

lemma bitlen_positive: "0 < n \<Longrightarrow> 1 \<le> bitlen n"
  using bitlen_le_iff_power [of n 0] by force

lemma binade_bounds:
  assumes "0 < x" shows "2 powi binade x \<le> x" "x < 2 powi (binade x + 1)"
proof -
  have "2 powi binade x \<le> x \<and> x < 2 powi (binade x + 1)"
  proof (cases "1 \<le> x")
    case True
    define n where "n = \<lfloor>x\<rfloor>"
    have "0 < n" and near: "of_int n \<le> x" "x < of_int n + 1"
      using True unfolding n_def by (simp, linarith+)
    note b = bitlen_bounds [OF \<open>0 < n\<close>]
    have "1 \<le> bitlen n"
      by (rule bitlen_positive [OF \<open>0 < n\<close>])
    then have e: "2 powi (bitlen n - 1) = (of_int (2 ^ nat (bitlen n - 1)) :: rat)"
      "2 powi (bitlen n) = (of_int (2 ^ nat (bitlen n)) :: rat)"
      by (simp_all add: power_int_def)
    have "(of_int (2 ^ nat (bitlen n - 1)) :: rat) \<le> of_int n"
      using b by (simp only: of_int_le_iff)
    moreover have "(of_int n :: rat) + 1 \<le> of_int (2 ^ nat (bitlen n))"
      using b by (metis (mono_tags, opaque_lifting) of_int_1 of_int_add of_int_le_iff zless_imp_add1_zle)
    ultimately have "2 powi (bitlen n - 1) \<le> x" "x < 2 powi (bitlen n)"
      using near e by linarith+
    then show ?thesis
      using True by (simp add: binade_def n_def [symmetric])
  next
    case False
    define m where "m = \<lceil>1 / x\<rceil> - 1"
    have "1 < 1 / x"
      using False assms by simp
    then have "0 < m" and near: "of_int m < 1 / x" "1 / x \<le> of_int m + 1"
      unfolding m_def by (simp_all add: less_ceiling_iff) linarith+
    note b = bitlen_bounds [OF \<open>0 < m\<close>]
    have "1 \<le> bitlen m"
      by (rule bitlen_positive [OF \<open>0 < m\<close>])
    then have e: "2 powi (bitlen m - 1) = (of_int (2 ^ nat (bitlen m - 1)) :: rat)"
      "2 powi (bitlen m) = (of_int (2 ^ nat (bitlen m)) :: rat)"
      by (simp_all add: power_int_def)
    have "(of_int (2 ^ nat (bitlen m - 1)) :: rat) \<le> of_int m"
      using b by (simp only: of_int_le_iff)
    moreover have "(of_int m :: rat) + 1 \<le> of_int (2 ^ nat (bitlen m))"
      using b by (metis (mono_tags, opaque_lifting) of_int_1 of_int_add of_int_le_iff zless_imp_add1_zle)
    ultimately have up: "1 / x \<le> 2 powi (bitlen m)" and low: "2 powi (bitlen m - 1) < 1 / x"
      using near e by linarith+
    have "2 powi (- bitlen m) \<le> x"
      using up assms by (simp add: power_int_minus field_simps)
    moreover have "x < 2 powi (- bitlen m + 1)"
    proof -
      define u :: rat where "u = 2 powi (bitlen m - 1)"
      have "2 powi (- bitlen m + 1) = inverse u"
        by (simp add: u_def power_int_minus [symmetric])
      moreover have "x < inverse u"
        using low assms unfolding u_def [symmetric] by (simp add: u_def field_simps inverse_eq_divide)
      ultimately show ?thesis
        by simp
    qed
    ultimately show ?thesis
      using False by (simp add: binade_def m_def [symmetric])
  qed
  then show "2 powi binade x \<le> x" "x < 2 powi (binade x + 1)"
    by simp_all
qed

lemma binade_unique: assumes "0 < x" "2 powi e \<le> x" "x < 2 powi (e + 1)" shows "binade x = e"
proof -
  have "(2 :: rat) powi binade x < 2 powi (e + 1)" "(2 :: rat) powi e < 2 powi (binade x + 1)"
    using binade_bounds [OF assms(1)] assms(2,3) by linarith+
  then show ?thesis
    by simp
qed

lemma binade_mono: assumes "0 < x" "x \<le> y" shows "binade x \<le> binade y"
proof -
  have "(2 :: rat) powi binade x < 2 powi (binade y + 1)"
    using binade_bounds [OF assms(1)] binade_bounds [of y] assms by linarith
  then show ?thesis
    by simp
qed

lemma scaled_bounds:
  assumes "0 < x" shows "2 ^ 52 \<le> x / 2 powi (binade x - 52)" "x / 2 powi (binade x - 52) < 2 ^ 53"
proof -
  have "2 powi binade x = (2 ^ 52 :: rat) * 2 powi (binade x - 52)"
    "2 powi (binade x + 1) = (2 ^ 53 :: rat) * 2 powi (binade x - 52)"
    by (simp_all add: power_int_diff power_int_add)
  then show "2 ^ 52 \<le> x / 2 powi (binade x - 52)" "x / 2 powi (binade x - 52) < 2 ^ 53"
    using binade_bounds [OF assms] by (simp_all add: field_simps)
qed

lemma round_positive_bounds:
  assumes "0 < x" shows "2 powi binade x \<le> round_positive x" "round_positive x \<le> 2 powi (binade x + 1)"
proof -
  have "2 ^ 52 \<le> round_even (x / 2 powi (binade x - 52))" "round_even (x / 2 powi (binade x - 52)) \<le> 2 ^ 53"
    using scaled_bounds [OF assms] by (auto intro!: round_even_ge round_even_le)
  then have "(of_int (2 ^ 52) :: rat) \<le> of_int (round_even (x / 2 powi (binade x - 52)))"
    "(of_int (round_even (x / 2 powi (binade x - 52))) :: rat) \<le> of_int (2 ^ 53)"
    by (simp_all only: of_int_le_iff)
  then have "(of_int (2 ^ 52) :: rat) * 2 powi (binade x - 52) \<le> round_positive x"
    "round_positive x \<le> of_int (2 ^ 53) * 2 powi (binade x - 52)"
    unfolding round_positive_def Let_def by (auto intro!: mult_right_mono)
  then show "2 powi binade x \<le> round_positive x" "round_positive x \<le> 2 powi (binade x + 1)"
    by (simp_all add: power_int_diff power_int_add)
qed

lemma round_positive_mono: assumes "0 < x" "x \<le> y" shows "round_positive x \<le> round_positive y"
proof (cases "binade x = binade y")
  case True
  have "x / 2 powi (binade x - 52) \<le> y / 2 powi (binade x - 52)"
    using assms by (simp add: divide_right_mono)
  then show ?thesis
    using True by (simp add: round_positive_def Let_def round_even_mono mult_right_mono)
next
  case False
  then have "binade x + 1 \<le> binade y"
    using binade_mono [OF assms] by simp
  then have "(2 :: rat) powi (binade x + 1) \<le> 2 powi binade y"
    by simp
  then show ?thesis
    using round_positive_bounds [OF assms(1)] round_positive_bounds [of y] assms by linarith
qed

lemma to_double_mono: assumes "x \<le> y" shows "to_double x \<le> to_double y"
proof -
  have pos: "0 \<le> round_positive z" if "0 < z" for z
    using round_positive_bounds [OF that] by (meson order_trans zero_le_power_int zero_le_numeral)
  show ?thesis
    using assms round_positive_mono [of x y] round_positive_mono [of "- y" "- x"] pos [of y] pos [of "- x"]
    by (auto simp: to_double_def)
qed

text \<open>Numbers with a short significand are not changed.\<close>

lemma to_double_exact:
  assumes "\<bar>m\<bar> < 2 ^ 53" shows "to_double (of_int m * 2 powi e) = of_int m * 2 powi e"
proof -
  have pos: "round_positive (of_int n * 2 powi e) = of_int n * 2 powi e" if "0 < n" "n < 2 ^ 53" for n
  proof -
    define b where "b = bitlen n - 1"
    have "0 < bitlen n"
      using bitlen_positive [OF that(1)] by simp
    then have b: "0 \<le> b" "b \<le> 52" "2 ^ nat b \<le> n" "n < 2 ^ nat (b + 1)"
      using bitlen_bounds [OF that(1)] that bitlen_le_iff_power [of n 53] by (simp_all add: b_def)
    have "(of_int (2 ^ nat b) :: rat) \<le> of_int n" "(of_int n :: rat) < of_int (2 ^ nat (b + 1))"
      using b(3,4) by (simp_all only: of_int_le_iff of_int_less_iff)
    then have "2 powi b \<le> (of_int n :: rat)" "(of_int n :: rat) < 2 powi (b + 1)"
      using b(1) by (simp_all add: power_int_def)
    then have exponent: "binade (of_int n * 2 powi e) = b + e"
      using that(1) by (intro binade_unique) (simp_all add: power_int_add algebra_simps)
    have scale: "(of_int (n * 2 ^ nat (52 - b)) :: rat) = of_int n * 2 powi (52 - b)"
      using b(2) by (simp add: power_int_def)
    have scaled: "of_int n * 2 powi e / 2 powi (b + e - 52) = (of_int (n * 2 ^ nat (52 - b)) :: rat)"
      unfolding scale by (simp add: power_int_diff power_int_add field_simps)
    have "round_positive (of_int n * 2 powi e) = of_int (n * 2 ^ nat (52 - b)) * 2 powi (b + e - 52)"
      unfolding round_positive_def Let_def exponent scaled round_even_of_int by (rule refl)
    also have "\<dots> = of_int n * 2 powi e"
      unfolding scale by (simp add: power_int_diff power_int_add field_simps)
    finally show ?thesis .
  qed
  have sign: "\<not> (2 :: rat) powi e < 0"
    by (simp add: not_less)
  consider "m = 0" | "0 < m" | "m < 0"
    by linarith
  then show ?thesis
    using pos [of m] pos [of "- m"] assms
    by cases (auto simp: to_double_def sign zero_less_mult_iff mult_less_0_iff)
qed

lemma to_double_int: "\<bar>m\<bar> < 2 ^ 53 \<Longrightarrow> to_double (of_int m) = of_int m"
  using to_double_exact [of m 0] by simp

lemma to_double_error: "\<bar>to_double x - x\<bar> \<le> \<bar>x\<bar> / 2 ^ 53"
proof -
  have pos: "\<bar>round_positive y - y\<bar> \<le> y / 2 ^ 53" if "0 < y" for y
  proof -
    define u :: rat where "u = 2 powi (binade y - 52)"
    have "0 < u"
      by (simp add: u_def)
    then have "round_positive y - y = (of_int (round_even (y / u)) - y / u) * u"
      by (simp add: round_positive_def u_def [symmetric] Let_def algebra_simps)
    then have "\<bar>round_positive y - y\<bar> \<le> u / 2"
      using mult_right_mono [OF round_even_near [of "y / u"], of u] \<open>0 < u\<close> by (simp add: abs_mult)
    also have "\<dots> \<le> y / 2 ^ 53"
      using scaled_bounds(1) [OF that] \<open>0 < u\<close> by (simp add: u_def [symmetric] field_simps)
    finally show ?thesis .
  qed
  show ?thesis
    using pos [of x] pos [of "- x"] by (cases "x < 0") (auto simp: to_double_def abs_minus_commute)
qed

text \<open>The rounded number has a short significand, so multiplication with a power of two is exact.\<close>

lemma to_double_form: "\<exists>m e. \<bar>m\<bar> < 2 ^ 53 \<and> to_double x = of_int m * 2 powi e"
proof -
  have pos: "\<exists>m e. 0 \<le> m \<and> m < 2 ^ 53 \<and> round_positive y = of_int m * 2 powi e" if "0 < y" for y
  proof -
    define n where "n = round_even (y / 2 powi (binade y - 52))"
    have n: "2 ^ 52 \<le> n" "n \<le> 2 ^ 53" "round_positive y = of_int n * 2 powi (binade y - 52)"
      using scaled_bounds [OF that] by (auto simp: n_def round_positive_def Let_def intro!: round_even_ge round_even_le)
    show ?thesis
    proof (cases "n = 2 ^ 53")
      case True
      have "2 powi (binade y - 52 + 1) = (2 :: rat) powi (binade y - 52) * 2"
        by (subst power_int_add) simp_all
      moreover have "(of_int (2 ^ 53) :: rat) = of_int (2 ^ 52) * 2"
        by simp
      ultimately have "round_positive y = of_int (2 ^ 52) * 2 powi (binade y - 52 + 1)"
        unfolding n(3) True by (simp only: ac_simps)
      moreover have "(0 :: int) \<le> 2 ^ 52" "(2 :: int) ^ 52 < 2 ^ 53"
        by simp_all
      ultimately show ?thesis
        by blast
    next
      case False
      then have "0 \<le> n" "n < 2 ^ 53"
        using n(1,2) by simp_all
      then show ?thesis
        using n(3) by blast
    qed
  qed
  consider "x = 0" | "0 < x" | "x < 0"
    by linarith
  then show ?thesis
  proof cases
    case 1
    then show ?thesis
      by (intro exI [of _ 0]) (simp add: to_double_def)
  next
    case 2
    then obtain m e where "0 \<le> m" "m < 2 ^ 53" "round_positive x = of_int m * 2 powi e"
      using pos [of x] by auto
    then show ?thesis
      using 2 by (intro exI [of _ m] exI [of _ e]) (simp add: to_double_def)
  next
    case 3
    then obtain m e where "0 \<le> m" "m < 2 ^ 53" "round_positive (- x) = of_int m * 2 powi e"
      using pos [of "- x"] by auto
    then show ?thesis
      using 3 by (intro exI [of _ "- m"] exI [of _ e]) (simp add: to_double_def)
  qed
qed

lemma to_double_shift: "to_double (to_double x * 2 ^ k) = to_double x * 2 ^ k"
proof -
  obtain m e where m: "\<bar>m\<bar> < 2 ^ 53" "to_double x = of_int m * 2 powi e"
    using to_double_form by blast
  have shifted: "of_int m * 2 powi e * 2 ^ k = of_int m * (2 :: rat) powi (e + int k)"
    by (simp add: power_int_add)
  show ?thesis
    unfolding m(2) shifted by (rule to_double_exact [OF m(1)])
qed

end
