(* ===== verification/Packet_Buckets.thy ===== *)
theory Packet_Buckets
  imports Packet_Parser Ordered_Map Double_Arith
begin

text \<open>
  The packets collected for a host under attack (\<^verbatim>\<open>src/packet_bucket.hpp\<close>): the buckets with their circular
  buffers, the operations of the storage, each of which holds its mutex, and the removal of buckets that never fill.
  Times are nanoseconds of the system clock.
\<close>

section \<open>Circular buffers\<close>

record 'a circular_buffer =
  buffer_capacity :: nat
  buffer_items :: "'a list"

definition circular_buffer_empty :: "'a circular_buffer" where
  "circular_buffer_empty = \<lparr>buffer_capacity = 0, buffer_items = []\<rparr>"

text \<open>\<^verbatim>\<open>set_capacity\<close> drops the last elements that no longer fit, \<^verbatim>\<open>push_back\<close> the first one of a full buffer.\<close>

definition buffer_set_capacity :: "nat \<Rightarrow> 'a circular_buffer \<Rightarrow> 'a circular_buffer" where
  "buffer_set_capacity n b = b\<lparr>buffer_capacity := n, buffer_items := take n (buffer_items b)\<rparr>"

definition push_back :: "'a \<Rightarrow> 'a circular_buffer \<Rightarrow> 'a circular_buffer" where
  "push_back x b =
     (if buffer_capacity b = 0 then b
      else if length (buffer_items b) < buffer_capacity b then b\<lparr>buffer_items := buffer_items b @ [x]\<rparr>
      else b\<lparr>buffer_items := tl (buffer_items b) @ [x]\<rparr>)"

section \<open>Buckets\<close>

datatype collection_pattern_t = ONCE | FLOW_SPEC_REFRESH_ONCE

definition is_one_shot_collection_pattern :: "collection_pattern_t \<Rightarrow> bool" where
  "is_one_shot_collection_pattern collection_pattern \<longleftrightarrow> collection_pattern = ONCE \<or> collection_pattern = FLOW_SPEC_REFRESH_ONCE"

record packet_bucket_t =
  collection_pattern :: collection_pattern_t
  we_could_receive_new_data :: bool
  is_already_processed :: bool
  we_collected_full_buffer_least_once :: bool
  parsed_packets_circular_buffer :: "simple_packet_t circular_buffer"
  collection_start_time :: int
  collection_finished_time :: int
  raw_packets_circular_buffer :: "fixed_size_packet_storage_t circular_buffer"
  bucket_attack_details :: attack_details_t

definition packet_bucket_default :: packet_bucket_t where
  "packet_bucket_default = \<lparr>collection_pattern = ONCE, we_could_receive_new_data = True, is_already_processed = False,
     we_collected_full_buffer_least_once = False, parsed_packets_circular_buffer = circular_buffer_empty,
     collection_start_time = 0, collection_finished_time = 0, raw_packets_circular_buffer = circular_buffer_empty,
     bucket_attack_details = attack_details_default\<rparr>"

definition set_capacity :: "u32 \<Rightarrow> packet_bucket_t \<Rightarrow> packet_bucket_t" where
  "set_capacity capacity b =
     b\<lparr>parsed_packets_circular_buffer := buffer_set_capacity (unat capacity) (parsed_packets_circular_buffer b),
       raw_packets_circular_buffer := buffer_set_capacity (unat capacity) (raw_packets_circular_buffer b)\<rparr>"

record 'k packet_buckets_storage_t =
  buffers_maximum_capacity :: u32
  packet_buckets_map :: "('k, packet_bucket_t) std_map"

definition packet_buckets_storage_default :: "'k packet_buckets_storage_t" where
  "packet_buckets_storage_default = \<lparr>buffers_maximum_capacity = 500, packet_buckets_map = []\<rparr>"

definition set_buffers_capacity :: "u32 \<Rightarrow> 'k packet_buckets_storage_t \<Rightarrow> 'k packet_buckets_storage_t" where
  "set_buffers_capacity capacity s = s\<lparr>buffers_maximum_capacity := capacity\<rparr>"

definition we_have_bucket_for_this_ip :: "'k \<Rightarrow> 'k packet_buckets_storage_t \<Rightarrow> bool" where
  "we_have_bucket_for_this_ip lookup_ip s \<longleftrightarrow> map_find (packet_buckets_map s) lookup_ip \<noteq> None"

definition remove_packet_capture_for_ip :: "'k \<Rightarrow> 'k packet_buckets_storage_t \<Rightarrow> 'k packet_buckets_storage_t" where
  "remove_packet_capture_for_ip lookup_ip s = s\<lparr>packet_buckets_map := map_erase lookup_ip (packet_buckets_map s)\<rparr>"

definition add_attack_with_sample ::
    "int \<Rightarrow> 'k::linorder \<Rightarrow> attack_details_t \<Rightarrow> simple_packet_t list \<Rightarrow> 'k packet_buckets_storage_t \<Rightarrow> 'k packet_buckets_storage_t" where
  "add_attack_with_sample now client_ip attack_details attack_sample s =
     (let b = set_capacity (buffers_maximum_capacity s) packet_bucket_default;
          b = b\<lparr>collection_start_time := now, collection_finished_time := now, we_could_receive_new_data := False,
                we_collected_full_buffer_least_once := True, collection_pattern := ONCE, bucket_attack_details := attack_details\<rparr>;
          b = b\<lparr>parsed_packets_circular_buffer := fold push_back attack_sample (parsed_packets_circular_buffer b)\<rparr>
      in s\<lparr>packet_buckets_map := map_put client_ip b (packet_buckets_map s)\<rparr>)"

text \<open>Without room for packets a new bucket counts as filled at once.\<close>

definition new_capture :: "int \<Rightarrow> u32 \<Rightarrow> attack_details_t \<Rightarrow> collection_pattern_t \<Rightarrow> packet_bucket_t" where
  "new_capture now capacity attack_details pattern =
     (let b = (set_capacity capacity packet_bucket_default)\<lparr>collection_start_time := now\<rparr>;
          b = (if capacity = 0
               then b\<lparr>we_could_receive_new_data := False, we_collected_full_buffer_least_once := True, collection_finished_time := now\<rparr>
               else b\<lparr>we_could_receive_new_data := True\<rparr>)
      in b\<lparr>collection_pattern := pattern, bucket_attack_details := attack_details\<rparr>)"

definition enable_packet_capture ::
    "int \<Rightarrow> 'k::linorder \<Rightarrow> attack_details_t \<Rightarrow> collection_pattern_t \<Rightarrow> 'k packet_buckets_storage_t \<Rightarrow> bool \<times> 'k packet_buckets_storage_t" where
  "enable_packet_capture now client_ip attack_details pattern s =
     (if map_find (packet_buckets_map s) client_ip \<noteq> None then (False, s)
      else (True, s\<lparr>packet_buckets_map :=
         map_put client_ip (new_capture now (buffers_maximum_capacity s) attack_details pattern) (packet_buckets_map s)\<rparr>))"

definition disable_packet_capture :: "'k::linorder \<Rightarrow> 'k packet_buckets_storage_t \<Rightarrow> bool \<times> 'k packet_buckets_storage_t" where
  "disable_packet_capture client_ip s =
     (case map_find (packet_buckets_map s) client_ip of
        None \<Rightarrow> (False, s)
      | Some b \<Rightarrow> (True, s\<lparr>packet_buckets_map := map_put client_ip (b\<lparr>we_could_receive_new_data := False\<rparr>) (packet_buckets_map s)\<rparr>))"

definition get_attack_details :: "'k \<Rightarrow> 'k packet_buckets_storage_t \<Rightarrow> attack_details_t option" where
  "get_attack_details client_ip s = map_option bucket_attack_details (map_find (packet_buckets_map s) client_ip)"

text \<open>Collection ends with the packet that fills one of the two buffers.\<close>

definition almost_full :: "'a circular_buffer \<Rightarrow> bool" where
  "almost_full b \<longleftrightarrow> length (buffer_items b) + 1 = buffer_capacity b"

definition close_filled_bucket :: "int \<Rightarrow> packet_bucket_t \<Rightarrow> packet_bucket_t" where
  "close_filled_bucket now b =
     (if is_one_shot_collection_pattern (collection_pattern b)
         \<and> (almost_full (parsed_packets_circular_buffer b) \<or> almost_full (raw_packets_circular_buffer b))
      then b\<lparr>we_could_receive_new_data := False, we_collected_full_buffer_least_once := True, collection_finished_time := now\<rparr>
      else b)"

definition store_raw_packet :: "simple_packet_t \<Rightarrow> packet_bucket_t \<Rightarrow> packet_bucket_t outcome" where
  "store_raw_packet p b =
     (case payload_pointer p of
        Some payload \<Rightarrow>
          if captured_payload_length p > 0
          then and_then (fixed_size_packet_storage payload (word_of_int (captured_payload_length p)) (payload_full_length p))
                 (\<lambda>stored. Done (b\<lparr>raw_packets_circular_buffer := push_back stored (raw_packets_circular_buffer b)\<rparr>))
          else Done b
      | None \<Rightarrow> Done b)"

definition collect_packet :: "int \<Rightarrow> simple_packet_t \<Rightarrow> packet_bucket_t \<Rightarrow> packet_bucket_t outcome" where
  "collect_packet now p b =
     (let b = close_filled_bucket now b;
          b = b\<lparr>parsed_packets_circular_buffer := push_back p (parsed_packets_circular_buffer b)\<rparr>
      in store_raw_packet p b)"

definition add_packet_to_storage ::
    "int \<Rightarrow> 'k::linorder \<Rightarrow> simple_packet_t \<Rightarrow> 'k packet_buckets_storage_t \<Rightarrow> (bool \<times> 'k packet_buckets_storage_t) outcome" where
  "add_packet_to_storage now client_ip p s =
     (case map_find (packet_buckets_map s) client_ip of
        None \<Rightarrow> Done (False, s)
      | Some b \<Rightarrow>
          if \<not> we_could_receive_new_data b then Done (False, s)
          else and_then (collect_packet now p b)
                 (\<lambda>b. Done (True, s\<lparr>packet_buckets_map := map_put client_ip b (packet_buckets_map s)\<rparr>)))"

section \<open>Orphaned buckets\<close>

definition maximum_time_since_bucket_start_to_remove :: u32 where
  "maximum_time_since_bucket_start_to_remove = 120"

text \<open>The age in seconds as a \<^verbatim>\<open>double\<close>.\<close>

definition elapsed_seconds :: "int \<Rightarrow> int \<Rightarrow> rat" where
  "elapsed_seconds now start = to_double (to_double (of_int (now - start)) / 10 ^ 9)"

definition should_remove_orphaned_bucket :: "int \<Rightarrow> packet_bucket_t \<Rightarrow> bool" where
  "should_remove_orphaned_bucket now b \<longleftrightarrow>
     is_one_shot_collection_pattern (collection_pattern b) \<and> \<not> we_collected_full_buffer_least_once b
     \<and> elapsed_seconds now (collection_start_time b) > of_int (uint maximum_time_since_bucket_start_to_remove)"

text \<open>The removed buckets, in ascending order, and the storage without them.\<close>

definition remove_orphaned_buckets ::
    "int \<Rightarrow> 'k packet_buckets_storage_t \<Rightarrow> ('k, packet_bucket_t) std_map \<times> 'k packet_buckets_storage_t" where
  "remove_orphaned_buckets now s =
     (let buckets_to_remove = filter (\<lambda>(ip, b). should_remove_orphaned_bucket now b) (packet_buckets_map s)
      in (buckets_to_remove,
          s\<lparr>packet_buckets_map := fold (\<lambda>(ip, b). map_erase ip) buckets_to_remove (packet_buckets_map s)\<rparr>))"

section \<open>Collection\<close>

text \<open>A packet whose captured bytes are there to be copied.\<close>

definition storable :: "simple_packet_t \<Rightarrow> bool" where
  "storable p \<longleftrightarrow> (case payload_pointer p of
     Some payload \<Rightarrow> captured_payload_length p > 0 \<longrightarrow> min 2048 (nat (captured_payload_length p mod 2 ^ 32)) \<le> length payload
   | None \<Rightarrow> True)"

text \<open>A one-shot bucket of capacity \<open>n\<close> that has seen the packets \<open>ps\<close>.\<close>

definition collected :: "nat \<Rightarrow> simple_packet_t list \<Rightarrow> packet_bucket_t \<Rightarrow> bool" where
  "collected n ps b \<longleftrightarrow>
     buffer_items (parsed_packets_circular_buffer b) = take n ps
   \<and> buffer_capacity (parsed_packets_circular_buffer b) = n \<and> buffer_capacity (raw_packets_circular_buffer b) = n
   \<and> length (buffer_items (raw_packets_circular_buffer b)) \<le> length (take n ps)
   \<and> (we_could_receive_new_data b \<longleftrightarrow> length ps < n) \<and> (we_collected_full_buffer_least_once b \<longleftrightarrow> n \<le> length ps)"

lemma pattern_one_shot [simp]: "is_one_shot_collection_pattern p"
  by (cases p) (simp_all add: is_one_shot_collection_pattern_def)

lemma collected_new: "collected (unat capacity) [] (new_capture now capacity a pattern)"
  by (simp add: collected_def new_capture_def Let_def set_capacity_def buffer_set_capacity_def packet_bucket_default_def
      circular_buffer_empty_def unat_eq_0 unat_gt_0)

lemma stored_defined:
  assumes "payload_pointer p = Some payload" "captured_payload_length p > 0" "storable p"
  obtains x where "fixed_size_packet_storage payload (word_of_int (captured_payload_length p)) (payload_full_length p) = Done x"
proof -
  have "unat (word_of_int (captured_payload_length p) :: u32) = nat (captured_payload_length p mod 2 ^ 32)"
    by (simp add: unsigned_of_int take_bit_eq_mod)
  then have "\<exists>x. fixed_size_packet_storage payload (word_of_int (captured_payload_length p)) (payload_full_length p) = Done x"
    using assms by (auto simp: storable_def fixed_size_packet_storage_def Let_def word_less_nat_alt min_def split: if_splits)
  then show thesis
    using that by blast
qed

lemma collect_packet_defined:
  assumes "storable p" shows "\<exists>b'. collect_packet now p b = Done b'"
proof (cases "payload_pointer p")
  case (Some payload)
  show ?thesis
  proof (cases "captured_payload_length p > 0")
    case True
    obtain x where "fixed_size_packet_storage payload (word_of_int (captured_payload_length p)) (payload_full_length p) = Done x"
      by (rule stored_defined [OF Some True assms])
    then show ?thesis
      using Some True by (simp add: collect_packet_def store_raw_packet_def Let_def)
  qed (simp add: collect_packet_def store_raw_packet_def Let_def Some)
qed (simp add: collect_packet_def store_raw_packet_def Let_def)

lemma collected_step:
  assumes "collected n ps b" "we_could_receive_new_data b" "storable p"
  obtains b' where "collect_packet now p b = Done b'" "collected n (ps @ [p]) b'"
    "collection_pattern b' = collection_pattern b" "bucket_attack_details b' = bucket_attack_details b"
proof -
  let ?b = "(close_filled_bucket now b)\<lparr>parsed_packets_circular_buffer := push_back p (parsed_packets_circular_buffer b)\<rparr>"
  have less: "length ps < n" "buffer_items (parsed_packets_circular_buffer b) = ps" "buffer_capacity (parsed_packets_circular_buffer b) = n"
    "buffer_capacity (raw_packets_circular_buffer b) = n" "length (buffer_items (raw_packets_circular_buffer b)) \<le> length ps"
    "\<not> we_collected_full_buffer_least_once b"
    using assms(1,2) by (simp_all add: collected_def)
  have filled: "almost_full (parsed_packets_circular_buffer b) \<or> almost_full (raw_packets_circular_buffer b) \<longleftrightarrow> Suc (length ps) = n"
    using less by (auto simp: almost_full_def)
  have b: "collected n (ps @ [p]) ?b" "length (buffer_items (raw_packets_circular_buffer ?b)) \<le> length ps"
    "buffer_capacity (raw_packets_circular_buffer ?b) = n" "collection_pattern ?b = collection_pattern b"
    "bucket_attack_details ?b = bucket_attack_details b"
    using less filled assms(2) by (auto simp: collected_def close_filled_bucket_def push_back_def)
  have same: "(close_filled_bucket now b)\<lparr>parsed_packets_circular_buffer :=
      push_back p (parsed_packets_circular_buffer (close_filled_bucket now b))\<rparr> = ?b"
    by (simp add: close_filled_bucket_def)
  show thesis
  proof (cases "\<exists>payload. payload_pointer p = Some payload \<and> captured_payload_length p > 0")
    case True
    then obtain payload x where x: "payload_pointer p = Some payload" "captured_payload_length p > 0"
      "fixed_size_packet_storage payload (word_of_int (captured_payload_length p)) (payload_full_length p) = Done x"
      using stored_defined [OF _ _ assms(3)] by metis
    show thesis
    proof (rule that)
      show "collect_packet now p b = Done (?b\<lparr>raw_packets_circular_buffer := push_back x (raw_packets_circular_buffer ?b)\<rparr>)"
        using x by (simp add: collect_packet_def same store_raw_packet_def Let_def)
    qed (use b less in \<open>auto simp: collected_def push_back_def\<close>)
  next
    case False
    then have "collect_packet now p b = Done ?b"
      by (auto simp: collect_packet_def same store_raw_packet_def Let_def split: option.split)
    then show thesis
      using that b by blast
  qed
qed

text \<open>Packets of any hosts arrive.\<close>

fun collect :: "(int \<times> 'k::linorder \<times> simple_packet_t) list \<Rightarrow> 'k packet_buckets_storage_t \<Rightarrow> 'k packet_buckets_storage_t outcome" where
  "collect [] s = Done s"
| "collect ((now, ip, p) # rest) s = and_then (add_packet_to_storage now ip p s) (\<lambda>(added, s). collect rest s)"

definition packets_of :: "'k \<Rightarrow> (int \<times> 'k \<times> simple_packet_t) list \<Rightarrow> simple_packet_t list" where
  "packets_of ip arrivals = map (snd \<circ> snd) (filter (\<lambda>a. fst (snd a) = ip) arrivals)"

lemma packets_of_simps [simp]:
  "packets_of ip [] = []"
  "packets_of ip ((now, ip', p) # rest) = (if ip' = ip then p # packets_of ip rest else packets_of ip rest)"
  by (simp_all add: packets_of_def)

lemma collected_full: "collected n ps b \<Longrightarrow> n \<le> length ps \<Longrightarrow> collected n (ps @ qs) b"
  by (auto simp: collected_def)

lemma add_packet_other:
  assumes "storable p" "ordered (packet_buckets_map s)" "ip' \<noteq> ip"
  obtains added s1 where "add_packet_to_storage now ip' p s = Done (added, s1)" "ordered (packet_buckets_map s1)"
    "map_find (packet_buckets_map s1) ip = map_find (packet_buckets_map s) ip"
proof (cases "map_find (packet_buckets_map s) ip'")
  case (Some b)
  obtain b' where "collect_packet now p b = Done b'"
    using collect_packet_defined [OF assms(1)] by blast
  with Some assms(2,3) that show thesis
    by (cases "we_could_receive_new_data b") (simp_all add: add_packet_to_storage_def map_find_put ordered_map_put)
qed (use assms that in \<open>simp add: add_packet_to_storage_def\<close>)

lemma collect_collected:
  "list_all (\<lambda>a. storable (snd (snd a))) arrivals \<Longrightarrow> ordered (packet_buckets_map s) \<Longrightarrow>
    map_find (packet_buckets_map s) ip = Some b \<Longrightarrow> collected n ps b \<Longrightarrow>
    \<exists>s' b'. collect arrivals s = Done s' \<and> map_find (packet_buckets_map s') ip = Some b'
      \<and> collected n (ps @ packets_of ip arrivals) b'
      \<and> collection_pattern b' = collection_pattern b \<and> bucket_attack_details b' = bucket_attack_details b"
proof (induction arrivals arbitrary: s b ps)
  case (Cons a arrivals)
  obtain now ip' p where a: "a = (now, ip', p)"
    by (cases a) auto
  have p: "storable p" and rest: "list_all (\<lambda>a. storable (snd (snd a))) arrivals"
    using Cons.prems(1) by (simp_all add: a)
  note IH = Cons.IH [OF rest]
  show ?case
  proof (cases "ip' = ip")
    case True
    show ?thesis
    proof (cases "we_could_receive_new_data b")
      case receiving: True
      obtain b' where b': "collect_packet now p b = Done b'" "collected n (ps @ [p]) b'"
        "collection_pattern b' = collection_pattern b" "bucket_attack_details b' = bucket_attack_details b"
        using collected_step [OF Cons.prems(4) receiving p] by metis
      show ?thesis
        using IH [of "s\<lparr>packet_buckets_map := map_put ip b' (packet_buckets_map s)\<rparr>" b' "ps @ [p]"] Cons.prems(2,3) b' True
        by (simp add: a add_packet_to_storage_def receiving map_find_put ordered_map_put)
    next
      case False
      then have "collected n (ps @ [p]) b"
        using Cons.prems(4) by (intro collected_full) (auto simp: collected_def)
      from IH [OF Cons.prems(2,3) this] show ?thesis
        using Cons.prems(3) False True by (simp add: a add_packet_to_storage_def)
    qed
  next
    case other: False
    obtain added s1 where s1: "add_packet_to_storage now ip' p s = Done (added, s1)" "ordered (packet_buckets_map s1)"
      "map_find (packet_buckets_map s1) ip = Some b"
      using add_packet_other [OF p Cons.prems(2) other] Cons.prems(3) by metis
    then show ?thesis
      using IH [OF s1(2,3) Cons.prems(4)] other by (simp add: a)
  qed
qed auto

text \<open>
  C28. A capture collects exactly the first packets of its host, in their order and whatever other traffic arrives,
  is closed by the packet that fills it, and keeps the details of the attack it was opened for.
\<close>

theorem capture_collects_first_packets:
  assumes "ordered (packet_buckets_map s)" "enable_packet_capture now ip attack pattern s = (True, s1)"
    "list_all (\<lambda>a. storable (snd (snd a))) arrivals"
  shows "\<exists>s2 b. collect arrivals s1 = Done s2 \<and> map_find (packet_buckets_map s2) ip = Some b
    \<and> buffer_items (parsed_packets_circular_buffer b) = take (unat (buffers_maximum_capacity s)) (packets_of ip arrivals)
    \<and> (we_collected_full_buffer_least_once b \<longleftrightarrow> unat (buffers_maximum_capacity s) \<le> length (packets_of ip arrivals))
    \<and> (we_could_receive_new_data b \<longleftrightarrow> length (packets_of ip arrivals) < unat (buffers_maximum_capacity s))
    \<and> collection_pattern b = pattern \<and> bucket_attack_details b = attack"
proof -
  let ?b = "new_capture now (buffers_maximum_capacity s) attack pattern"
  have s1: "map_find (packet_buckets_map s1) ip = Some ?b" "ordered (packet_buckets_map s1)"
    using assms(1,2) by (auto simp: enable_packet_capture_def map_find_put ordered_map_put split: if_splits)
  have "collection_pattern ?b = pattern" "bucket_attack_details ?b = attack"
    by (simp_all add: new_capture_def Let_def)
  then show ?thesis
    using collect_collected [OF assms(3) s1(2,1) collected_new] by (auto simp: collected_def)
qed

theorem capture_collects_first_packets_witness:
  "\<exists>s2 b. collect [(1, 7, simple_packet_default), (2, 9, simple_packet_default), (3, 7, simple_packet_default\<lparr>ttl := 1\<rparr>)]
      (snd (enable_packet_capture 0 (7 :: u32) attack_details_default ONCE (set_buffers_capacity 1 packet_buckets_storage_default))) = Done s2
    \<and> map_find (packet_buckets_map s2) 7 = Some b
    \<and> buffer_items (parsed_packets_circular_buffer b) = [simple_packet_default] \<and> we_collected_full_buffer_least_once b"
  using capture_collects_first_packets [of "set_buffers_capacity 1 packet_buckets_storage_default" 0 "7 :: u32" attack_details_default ONCE
      "snd (enable_packet_capture 0 (7 :: u32) attack_details_default ONCE (set_buffers_capacity 1 packet_buckets_storage_default))"
      "[(1, 7, simple_packet_default), (2, 9, simple_packet_default), (3, 7, simple_packet_default\<lparr>ttl := 1\<rparr>)]"]
  by (auto simp: enable_packet_capture_def set_buffers_capacity_def packet_buckets_storage_default_def storable_def
      simple_packet_default_def)

text \<open>Every bucket that is not filled is removed once it is older than two minutes, and no other one.\<close>

lemma fold_erase: "fold (\<lambda>(ip, b). map_erase ip) es m = filter (\<lambda>e. fst e \<notin> fst ` set es) m"
proof (induction es arbitrary: m)
  case (Cons e es)
  then show ?case
    by (cases e) (auto simp: map_erase_def intro: filter_cong)
qed simp

lemma remove_orphaned_find:
  assumes "ordered (packet_buckets_map s)"
  shows "map_find (packet_buckets_map (snd (remove_orphaned_buckets now s))) ip =
    (case map_find (packet_buckets_map s) ip of Some b \<Rightarrow> if should_remove_orphaned_bucket now b then None else Some b | None \<Rightarrow> None)"
proof -
  have "ip \<in> fst ` set (filter (\<lambda>(ip, b). should_remove_orphaned_bucket now b) (packet_buckets_map s)) \<longleftrightarrow>
      (\<exists>b. map_find (packet_buckets_map s) ip = Some b \<and> should_remove_orphaned_bucket now b)"
    using ordered_find_mem [OF assms, of ip] by (force simp: image_iff)
  then show ?thesis
    by (simp add: remove_orphaned_buckets_def fold_erase Let_def map_find_filter_key [of "\<lambda>k. k \<notin> _"] split: option.split)
qed

lemma ordered_remove_orphaned:
  "ordered (packet_buckets_map s) \<Longrightarrow> ordered (packet_buckets_map (snd (remove_orphaned_buckets now s)))"
  by (simp add: remove_orphaned_buckets_def fold_erase Let_def ordered_filter)

end
