(* ===== verification/Ban_List.thy ===== *)
theory Ban_List
  imports Ordered_Map Flow_Spec_Types
begin

text \<open>
  The list of banned hosts (\<^verbatim>\<open>src/ban_list.hpp\<close>). Every operation holds the mutex of the list.
\<close>

section \<open>Operations\<close>

type_synonym 'k blackhole_ban_list_t = "('k, attack_details_t) std_map"

definition is_blackholed :: "'k \<Rightarrow> 'k blackhole_ban_list_t \<Rightarrow> bool" where
  "is_blackholed client_id l \<longleftrightarrow> map_find l client_id \<noteq> None"

definition get_blackhole_details_by_uuid :: "bytes \<Rightarrow> 'k blackhole_ban_list_t \<Rightarrow> ('k \<times> attack_details_t) option" where
  "get_blackhole_details_by_uuid mitigation_uuid l = find (\<lambda>(client_id, a). attack_uuid a = mitigation_uuid) l"

definition is_blackholed_by_uuid :: "bytes \<Rightarrow> 'k blackhole_ban_list_t \<Rightarrow> 'k option" where
  "is_blackholed_by_uuid mitigation_uuid l =
     map_option fst (find (\<lambda>(client_id, a). attack_uuid a = mitigation_uuid) l)"

definition add_to_blackhole :: "'k::linorder \<Rightarrow> attack_details_t \<Rightarrow> 'k blackhole_ban_list_t \<Rightarrow> 'k blackhole_ban_list_t" where
  "add_to_blackhole client_id current_attack l = map_put client_id current_attack l"

definition remove_from_blackhole :: "'k \<Rightarrow> 'k blackhole_ban_list_t \<Rightarrow> 'k blackhole_ban_list_t" where
  "remove_from_blackhole client_id l = map_erase client_id l"

definition remove_from_blackhole_and_keep_copy ::
    "'k \<Rightarrow> 'k blackhole_ban_list_t \<Rightarrow> attack_details_t option \<times> 'k blackhole_ban_list_t" where
  "remove_from_blackhole_and_keep_copy client_id l =
     (case map_find l client_id of None \<Rightarrow> (None, l) | Some a \<Rightarrow> (Some a, map_erase client_id l))"

text \<open>\<^verbatim>\<open>insert\<close> keeps the entries that are already there.\<close>

definition set_whole_banlist :: "'k::linorder blackhole_ban_list_t \<Rightarrow> 'k blackhole_ban_list_t \<Rightarrow> 'k blackhole_ban_list_t" where
  "set_whole_banlist ban_list_param l = fold (\<lambda>e. map_emplace (fst e) (snd e)) ban_list_param l"

definition get_blackholed_hosts :: "'k blackhole_ban_list_t \<Rightarrow> 'k list" where
  "get_blackholed_hosts l = map fst l"

definition get_whole_banlist :: "'k blackhole_ban_list_t \<Rightarrow> 'k::linorder blackhole_ban_list_t \<Rightarrow> 'k blackhole_ban_list_t" where
  "get_whole_banlist l ban_list_copy = fold (\<lambda>e. map_emplace (fst e) (snd e)) l ban_list_copy"

definition get_blackhole_details :: "'k \<Rightarrow> 'k blackhole_ban_list_t \<Rightarrow> attack_details_t option" where
  "get_blackhole_details client_id l = map_find l client_id"

definition get_number_of_blocked_entries :: "'k blackhole_ban_list_t \<Rightarrow> nat" where
  "get_number_of_blocked_entries l = length l"

section \<open>Behaviour\<close>

text \<open>A copy into an empty map is the list itself.\<close>

lemma emplace_last:
  assumes "ordered (m @ [(k, v)])" shows "map_emplace k v m = m @ [(k, v)]"
proof -
  have "\<forall>e \<in> set m. fst e < k"
    using assms by (simp add: ordered_def sorted_wrt_append)
  then have "map_find m k = None" "map_put k v m = m @ [(k, v)]"
    by (induction m) auto
  then show ?thesis
    by (simp add: map_emplace_def)
qed

lemma whole_banlist_copy: "ordered l \<Longrightarrow> get_whole_banlist l [] = l"
proof (induction l rule: rev_induct)
  case (snoc e l)
  obtain k v where e: "e = (k, v)"
    by (cases e)
  have "ordered l"
    using snoc.prems by (simp add: ordered_def sorted_wrt_append)
  then show ?case
    using snoc emplace_last [of l k v] by (simp add: get_whole_banlist_def e)
qed (simp add: get_whole_banlist_def)

lemma whole_banlist_restored:
  assumes "ordered l"
  shows "map_find (set_whole_banlist p l) k = (case map_find l k of None \<Rightarrow> map_of p k | Some a \<Rightarrow> Some a)"
  unfolding set_whole_banlist_def using std.find_fold_emplace [OF assms, of p k] by (auto split: option.split)

lemma ban_list_ops:
  assumes "ordered l"
  shows "is_blackholed k' (add_to_blackhole k a l) \<longleftrightarrow> k' = k \<or> is_blackholed k' l"
    and "is_blackholed k' (remove_from_blackhole k l) \<longleftrightarrow> k' \<noteq> k \<and> is_blackholed k' l"
    and "get_blackhole_details k (add_to_blackhole k a l) = Some a"
    and "get_number_of_blocked_entries l = card {k. is_blackholed k l}"
  using assms std.size_entries [OF assms]
  by (auto simp: is_blackholed_def add_to_blackhole_def remove_from_blackhole_def get_blackhole_details_def
      get_number_of_blocked_entries_def map_find_put map_find_erase)

end
