(* ===== verification/Traffic_Counters.thy ===== *)
theory Traffic_Counters
  imports Flow_Spec_Codec Packet_Headers Double_Arith "HOL-Library.AList"
begin

text \<open>
  The traffic counters (\<^verbatim>\<open>subnet_counter.hpp\<close>, \<^verbatim>\<open>speed_counters.cpp\<close>), the counters per key
  (\<^verbatim>\<open>abstract_subnet_counters.hpp\<close>) and the order in which they are displayed
  (\<^verbatim>\<open>fastnetmon_types.hpp\<close>). An \<^verbatim>\<open>unordered_map\<close> is an association list; the value of
  \<^verbatim>\<open>exp\<close>, a library function, is an argument.
\<close>

section \<open>One kind of traffic\<close>

definition element_zeroify :: "traffic_counter_element_t \<Rightarrow> traffic_counter_element_t" where
  "element_zeroify e = e\<lparr>in_bytes := 0, out_bytes := 0, in_packets := 0, out_packets := 0\<rparr>"

definition element_is_zero :: "traffic_counter_element_t \<Rightarrow> bool" where
  "element_is_zero e \<longleftrightarrow> in_bytes e = 0 \<and> out_bytes e = 0 \<and> in_packets e = 0 \<and> out_packets e = 0"

definition element_update_if_larger :: "traffic_counter_element_t \<Rightarrow> traffic_counter_element_t \<Rightarrow> traffic_counter_element_t" where
  "element_update_if_larger another e =
     (let e = (if in_bytes another > in_bytes e then e\<lparr>in_bytes := in_bytes another\<rparr> else e);
          e = (if out_bytes another > out_bytes e then e\<lparr>out_bytes := out_bytes another\<rparr> else e);
          e = (if in_packets another > in_packets e then e\<lparr>in_packets := in_packets another\<rparr> else e)
      in if out_packets another > out_packets e then e\<lparr>out_packets := out_packets another\<rparr> else e)"

text \<open>\<^verbatim>\<open>uint64_t((double)counter / speed_calc_period)\<close>\<close>

definition speed_of :: "rat \<Rightarrow> u64 \<Rightarrow> u64 outcome" where
  "speed_of period counter = (if period = 0 then Undefined else to_uint64 (to_double (of_uint64 counter / period)))"

definition calculate_speed :: "rat \<Rightarrow> traffic_counter_element_t \<Rightarrow> traffic_counter_element_t outcome" where
  "calculate_speed period data =
     and_then (speed_of period (in_packets data)) (\<lambda>in_p.
     and_then (speed_of period (out_packets data)) (\<lambda>out_p.
     and_then (speed_of period (in_bytes data)) (\<lambda>in_b.
     and_then (speed_of period (out_bytes data)) (\<lambda>out_b.
       Done \<lparr>in_bytes = in_b, out_bytes = out_b, in_packets = in_p, out_packets = out_p\<rparr>))))"

text \<open>\<^verbatim>\<open>uint64_t(new + exp_value * ((double)old - (double)new))\<close>\<close>

definition moving_average :: "rat \<Rightarrow> u64 \<Rightarrow> u64 \<Rightarrow> u64 outcome" where
  "moving_average exp_value old new =
     to_uint64 (to_double (of_uint64 new + to_double (exp_value * to_double (of_uint64 old - of_uint64 new))))"

definition calulate_exponential_moving_average_speed ::
    "rat \<Rightarrow> traffic_counter_element_t \<Rightarrow> traffic_counter_element_t \<Rightarrow> traffic_counter_element_t outcome" where
  "calulate_exponential_moving_average_speed exp_value new e =
     and_then (moving_average exp_value (in_bytes e) (in_bytes new)) (\<lambda>in_b.
     and_then (moving_average exp_value (out_bytes e) (out_bytes new)) (\<lambda>out_b.
     and_then (moving_average exp_value (in_packets e) (in_packets new)) (\<lambda>in_p.
     and_then (moving_average exp_value (out_packets e) (out_packets new)) (\<lambda>out_p.
       Done (e\<lparr>in_bytes := in_b, out_bytes := out_b, in_packets := in_p, out_packets := out_p\<rparr>)))))"

section \<open>All kinds of traffic\<close>

definition update_if_larger :: "subnet_counter_t \<Rightarrow> subnet_counter_t \<Rightarrow> subnet_counter_t" where
  "update_if_larger another c =
     c\<lparr>counter_total := element_update_if_larger (counter_total another) (counter_total c),
       counter_tcp := element_update_if_larger (counter_tcp another) (counter_tcp c),
       counter_udp := element_update_if_larger (counter_udp another) (counter_udp c),
       counter_icmp := element_update_if_larger (counter_icmp another) (counter_icmp c),
       counter_fragmented := element_update_if_larger (counter_fragmented another) (counter_fragmented c),
       counter_tcp_syn := element_update_if_larger (counter_tcp_syn another) (counter_tcp_syn c),
       counter_dropped := element_update_if_larger (counter_dropped another) (counter_dropped c),
       in_flows := (if in_flows c < in_flows another then in_flows another else in_flows c),
       out_flows := (if out_flows c < out_flows another then out_flows another else out_flows c)\<rparr>"

definition counter_is_zero :: "subnet_counter_t \<Rightarrow> bool" where
  "counter_is_zero c \<longleftrightarrow> in_bytes (counter_total c) = 0 \<and> out_bytes (counter_total c) = 0
     \<and> in_packets (counter_total c) = 0 \<and> out_packets (counter_total c) = 0 \<and> in_flows c = 0 \<and> out_flows c = 0"

definition counter_zeroify :: "subnet_counter_t \<Rightarrow> subnet_counter_t" where
  "counter_zeroify c =
     c\<lparr>counter_total := element_zeroify (counter_total c), counter_dropped := element_zeroify (counter_dropped c),
       counter_tcp := element_zeroify (counter_tcp c), counter_udp := element_zeroify (counter_udp c),
       counter_icmp := element_zeroify (counter_icmp c), counter_fragmented := element_zeroify (counter_fragmented c),
       counter_tcp_syn := element_zeroify (counter_tcp_syn c), in_flows := 0, out_flows := 0\<rparr>"

definition TCP_SYN_FLAG_SHIFT :: nat where "TCP_SYN_FLAG_SHIFT = 2"

text \<open>The two additions every branch of the functions below makes.\<close>

definition count_in :: "u64 \<Rightarrow> u64 \<Rightarrow> traffic_counter_element_t \<Rightarrow> traffic_counter_element_t" where
  "count_in packets bytes e = e\<lparr>in_packets := in_packets e + packets, in_bytes := in_bytes e + bytes\<rparr>"

definition count_out :: "u64 \<Rightarrow> u64 \<Rightarrow> traffic_counter_element_t \<Rightarrow> traffic_counter_element_t" where
  "count_out packets bytes e = e\<lparr>out_packets := out_packets e + packets, out_bytes := out_bytes e + bytes\<rparr>"

definition cond_apply :: "bool \<Rightarrow> ('a \<Rightarrow> 'a) \<Rightarrow> 'a \<Rightarrow> 'a" where
  "cond_apply b f x = (if b then f x else x)"

definition increment_counters ::
    "(traffic_counter_element_t \<Rightarrow> traffic_counter_element_t) \<Rightarrow> int \<Rightarrow> simple_packet_t \<Rightarrow> subnet_counter_t \<Rightarrow> subnet_counter_t" where
  "increment_counters add now p c =
     (let c = c\<lparr>last_update_time := now\<rparr>;
          c = counter_total_update add c;
          c = cond_apply (ip_fragmented p) (counter_fragmented_update add) c;
          c = cond_apply (forwarding_status p = fwd_dropped) (counter_dropped_update add) c;
          c = (if protocol p = 6
               then cond_apply (extract_bit_value (flags p) TCP_SYN_FLAG_SHIFT) (counter_tcp_syn_update add) (counter_tcp_update add c)
               else cond_apply (protocol p = 17) (counter_udp_update add) c)
      in if ip_protocol_version p = 4 then cond_apply (protocol p = ucast IpProtocolNumberICMP) (counter_icmp_update add) c
         else cond_apply (ip_protocol_version p = 6) (cond_apply (protocol p = ucast IpProtocolNumberIPV6_ICMP) (counter_icmp_update add)) c)"

definition increment_incoming_counters :: "int \<Rightarrow> simple_packet_t \<Rightarrow> u64 \<Rightarrow> u64 \<Rightarrow> subnet_counter_t \<Rightarrow> subnet_counter_t" where
  "increment_incoming_counters now p sampled_number_of_packets sampled_number_of_bytes =
     increment_counters (count_in sampled_number_of_packets sampled_number_of_bytes) now p"

definition increment_outgoing_counters :: "int \<Rightarrow> simple_packet_t \<Rightarrow> u64 \<Rightarrow> u64 \<Rightarrow> subnet_counter_t \<Rightarrow> subnet_counter_t" where
  "increment_outgoing_counters now p sampled_number_of_packets sampled_number_of_bytes =
     increment_counters (count_out sampled_number_of_packets sampled_number_of_bytes) now p"

definition build_speed_counters_from_packet_counters :: "rat \<Rightarrow> subnet_counter_t \<Rightarrow> subnet_counter_t \<Rightarrow> subnet_counter_t outcome" where
  "build_speed_counters_from_packet_counters period data c =
     and_then (calculate_speed period (counter_total data)) (\<lambda>a.
     and_then (calculate_speed period (counter_dropped data)) (\<lambda>b.
     and_then (calculate_speed period (counter_fragmented data)) (\<lambda>d.
     and_then (calculate_speed period (counter_tcp_syn data)) (\<lambda>e.
     and_then (calculate_speed period (counter_tcp data)) (\<lambda>f.
     and_then (calculate_speed period (counter_udp data)) (\<lambda>g.
     and_then (calculate_speed period (counter_icmp data)) (\<lambda>h.
       Done (c\<lparr>counter_total := a, counter_dropped := b, counter_fragmented := d, counter_tcp_syn := e,
         counter_tcp := f, counter_udp := g, counter_icmp := h\<rparr>))))))))"

definition build_average_speed_counters_from_speed_counters ::
    "rat \<Rightarrow> subnet_counter_t \<Rightarrow> subnet_counter_t \<Rightarrow> subnet_counter_t outcome" where
  "build_average_speed_counters_from_speed_counters exp_value new c =
     (let average = calulate_exponential_moving_average_speed exp_value in
     and_then (average (counter_total new) (counter_total c)) (\<lambda>a.
     and_then (average (counter_dropped new) (counter_dropped c)) (\<lambda>b.
     and_then (average (counter_fragmented new) (counter_fragmented c)) (\<lambda>d.
     and_then (average (counter_tcp_syn new) (counter_tcp_syn c)) (\<lambda>e.
     and_then (average (counter_tcp new) (counter_tcp c)) (\<lambda>f.
     and_then (average (counter_udp new) (counter_udp c)) (\<lambda>g.
     and_then (average (counter_icmp new) (counter_icmp c)) (\<lambda>h.
     and_then (moving_average exp_value (out_flows c) (out_flows new)) (\<lambda>out_f.
     and_then (moving_average exp_value (in_flows c) (in_flows new)) (\<lambda>in_f.
       Done (c\<lparr>counter_total := a, counter_dropped := b, counter_fragmented := d, counter_tcp_syn := e,
         counter_tcp := f, counter_udp := g, counter_icmp := h, out_flows := out_f, in_flows := in_f\<rparr>)))))))))))"

section \<open>Counters per key\<close>

record 'k abstract_subnet_counters_t =
  counter_map :: "('k \<times> subnet_counter_t) list"
  average_speed_map :: "('k \<times> subnet_counter_t) list"

text \<open>\<^verbatim>\<open>operator[]\<close>, which creates a zero counter for a new key.\<close>

definition element_at :: "('k \<times> subnet_counter_t) list \<Rightarrow> 'k \<Rightarrow> subnet_counter_t" where
  "element_at m k = (case map_of m k of Some c \<Rightarrow> c | None \<Rightarrow> subnet_counter_default)"

definition increment_outgoing_counters_for_key ::
    "int \<Rightarrow> 'k \<Rightarrow> simple_packet_t \<Rightarrow> u64 \<Rightarrow> u64 \<Rightarrow> 'k abstract_subnet_counters_t \<Rightarrow> 'k abstract_subnet_counters_t" where
  "increment_outgoing_counters_for_key now key p packets bytes s =
     s\<lparr>counter_map := AList.update key (increment_outgoing_counters now p packets bytes (element_at (counter_map s) key))
         (counter_map s)\<rparr>"

definition increment_incoming_counters_for_key ::
    "int \<Rightarrow> 'k \<Rightarrow> simple_packet_t \<Rightarrow> u64 \<Rightarrow> u64 \<Rightarrow> 'k abstract_subnet_counters_t \<Rightarrow> 'k abstract_subnet_counters_t" where
  "increment_incoming_counters_for_key now key p packets bytes s =
     s\<lparr>counter_map := AList.update key (increment_incoming_counters now p packets bytes (element_at (counter_map s) key))
         (counter_map s)\<rparr>"

definition purge_old_data :: "int \<Rightarrow> u32 \<Rightarrow> 'k abstract_subnet_counters_t \<Rightarrow> nat \<times> 'k abstract_subnet_counters_t" where
  "purge_old_data current_time threshold s =
     (let keys_to_remove = map fst (filter (\<lambda>(k, c). last_update_time c < current_time - int (unat threshold)) (counter_map s))
      in (length keys_to_remove,
          s\<lparr>counter_map := fold AList.delete keys_to_remove (counter_map s),
            average_speed_map := fold AList.delete keys_to_remove (average_speed_map s)\<rparr>))"

text \<open>
  The loop of \<^verbatim>\<open>recalculate_speed\<close>: the entries still to be visited, the visited ones with their
  counters cleared, and the averages. The callback that checks the thresholds is applied to the returned pairs in
  their order; \<open>new_speed_calc\<close> is the callback that completes the measured speed.
\<close>

fun recalculate_loop ::
    "('k \<Rightarrow> subnet_counter_t \<Rightarrow> subnet_counter_t outcome) \<Rightarrow> rat \<Rightarrow> rat \<Rightarrow> ('k \<times> subnet_counter_t) list
      \<Rightarrow> ('k \<times> subnet_counter_t) list
      \<Rightarrow> (('k \<times> subnet_counter_t) list \<times> ('k \<times> subnet_counter_t) list \<times> ('k \<times> subnet_counter_t) list) outcome" where
  "recalculate_loop new_speed_calc exp_value period [] averages = Done ([], averages, [])"
| "recalculate_loop new_speed_calc exp_value period ((key, c) # rest) averages =
     and_then (build_speed_counters_from_packet_counters period c subnet_counter_default) (\<lambda>measured.
     and_then (new_speed_calc key measured) (\<lambda>measured.
     and_then (build_average_speed_counters_from_speed_counters exp_value measured (element_at averages key)) (\<lambda>average.
     and_then (recalculate_loop new_speed_calc exp_value period rest (AList.update key average averages)) (\<lambda>(rest', averages', checks).
       Done ((key, counter_zeroify c) # rest', averages', (key, average) # checks)))))"

definition recalculate_speed ::
    "('k \<Rightarrow> subnet_counter_t \<Rightarrow> subnet_counter_t outcome) \<Rightarrow> rat \<Rightarrow> rat \<Rightarrow> 'k abstract_subnet_counters_t
      \<Rightarrow> ('k abstract_subnet_counters_t \<times> ('k \<times> subnet_counter_t) list) outcome" where
  "recalculate_speed new_speed_calc exp_value period s =
     and_then (recalculate_loop new_speed_calc exp_value period (counter_map s) (average_speed_map s)) (\<lambda>(counters, averages, checks).
       Done (s\<lparr>counter_map := counters, average_speed_map := averages\<rparr>, checks))"

definition get_average_speed :: "'k \<Rightarrow> 'k abstract_subnet_counters_t \<Rightarrow> subnet_counter_t option" where
  "get_average_speed key s = map_of (average_speed_map s) key"

definition get_all_non_zero_average_speed_elements_as_pairs :: "'k abstract_subnet_counters_t \<Rightarrow> ('k \<times> subnet_counter_t) list" where
  "get_all_non_zero_average_speed_elements_as_pairs s = filter (\<lambda>(k, c). \<not> counter_is_zero c) (average_speed_map s)"

section \<open>Order of display\<close>

text \<open>The number two counters are compared by; \<open>None\<close> where the comparison is always false.\<close>

definition directed :: "attack_detection_direction_type_t \<Rightarrow> ('a \<Rightarrow> u64) \<Rightarrow> ('a \<Rightarrow> u64) \<Rightarrow> ('a \<Rightarrow> u64) option" where
  "directed sort_direction incoming outgoing =
     (if sort_direction = direction_incoming then Some incoming
      else if sort_direction = direction_outgoing then Some outgoing else None)"

definition sort_number ::
    "attack_detection_direction_type_t \<Rightarrow> attack_detection_threshold_type_t \<Rightarrow> (subnet_counter_t \<Rightarrow> u64) option" where
  "sort_number sort_direction sort_field =
     (let packets = (\<lambda>field. directed sort_direction (in_packets \<circ> field) (out_packets \<circ> field));
          bytes = (\<lambda>field. directed sort_direction (in_bytes \<circ> field) (out_bytes \<circ> field))
      in case sort_field of
        flows_per_second \<Rightarrow> directed sort_direction in_flows out_flows
      | packets_per_second \<Rightarrow> packets counter_total
      | bytes_per_second \<Rightarrow> bytes counter_total
      | tcp_packets_per_second \<Rightarrow> packets counter_tcp
      | udp_packets_per_second \<Rightarrow> packets counter_udp
      | icmp_packets_per_second \<Rightarrow> packets counter_icmp
      | tcp_bytes_per_second \<Rightarrow> bytes counter_tcp
      | udp_bytes_per_second \<Rightarrow> bytes counter_udp
      | icmp_bytes_per_second \<Rightarrow> bytes counter_icmp
      | tcp_syn_packets_per_second \<Rightarrow> packets counter_tcp_syn
      | tcp_syn_bytes_per_second \<Rightarrow> bytes counter_tcp_syn
      | ip_fragments_packets_per_second \<Rightarrow> packets counter_fragmented
      | ip_fragments_bytes_per_second \<Rightarrow> bytes counter_fragmented
      | threshold_unknown \<Rightarrow> None)"

definition TrafficComparatorClass ::
    "attack_detection_direction_type_t \<Rightarrow> attack_detection_threshold_type_t
      \<Rightarrow> 'k \<times> subnet_counter_t \<Rightarrow> 'k \<times> subnet_counter_t \<Rightarrow> bool" where
  "TrafficComparatorClass sort_direction sort_field a b =
     (case sort_number sort_direction sort_field of Some f \<Rightarrow> f (snd a) > f (snd b) | None \<Rightarrow> False)"

text \<open>The comparison is a strict weak order, as \<^verbatim>\<open>std::sort\<close> requires.\<close>

lemma comparator_strict_weak_order:
  "\<not> TrafficComparatorClass d t a a"
  "TrafficComparatorClass d t a b \<Longrightarrow> TrafficComparatorClass d t b c \<Longrightarrow> TrafficComparatorClass d t a c"
  "TrafficComparatorClass d t a c \<Longrightarrow> TrafficComparatorClass d t a b \<or> TrafficComparatorClass d t b c"
  by (auto simp: TrafficComparatorClass_def split: option.splits)

section \<open>Counting\<close>

text \<open>The counters with the packets each of them counts.\<close>

definition traffic_classes :: "((subnet_counter_t \<Rightarrow> traffic_counter_element_t) \<times> (simple_packet_t \<Rightarrow> bool)) list" where
  "traffic_classes =
     [(counter_total, \<lambda>p. True), (counter_fragmented, ip_fragmented), (counter_dropped, \<lambda>p. forwarding_status p = fwd_dropped),
      (counter_tcp, \<lambda>p. protocol p = 6), (counter_tcp_syn, \<lambda>p. protocol p = 6 \<and> bit (flags p) 1),
      (counter_udp, \<lambda>p. protocol p = 17),
      (counter_icmp, \<lambda>p. ip_protocol_version p = 4 \<and> protocol p = 1 \<or> ip_protocol_version p = 6 \<and> protocol p = 58)]"

lemma increment_counters_class:
  "list_all (\<lambda>(field, counts). field (increment_counters add now p c) = (if counts p then add (field c) else field c))
     traffic_classes"
  by (cases "protocol p = 6")
    (simp_all add: traffic_classes_def increment_counters_def Let_def cond_apply_def protocol_number_defs extract_bit_value_def
      TCP_SYN_FLAG_SHIFT_def bit_drop_bit_eq)

type_synonym traffic_event = "bool \<times> simple_packet_t \<times> u64 \<times> u64"

definition count_event :: "int \<Rightarrow> traffic_event \<Rightarrow> subnet_counter_t \<Rightarrow> subnet_counter_t" where
  "count_event now = (\<lambda>(is_incoming, p, packets, bytes) c.
     if is_incoming then increment_incoming_counters now p packets bytes c
     else increment_outgoing_counters now p packets bytes c)"

lemma count_event_class:
  assumes "(field, counts) \<in> set traffic_classes"
  shows "field (count_event now (is_incoming, p, packets, bytes) c) =
    (if counts p then if is_incoming then count_in packets bytes (field c) else count_out packets bytes (field c) else field c)"
proof -
  have "field (increment_counters add now p c) = (if counts p then add (field c) else field c)" for add
    using increment_counters_class [of add now p c] assms by (auto simp: list_all_iff)
  then show ?thesis
    by (simp add: count_event_def increment_incoming_counters_def increment_outgoing_counters_def)
qed

lemma count_fold:
  assumes "(field, counts) \<in> set traffic_classes"
  shows "in_packets (field (fold (count_event now) es c)) =
      in_packets (field c) + (\<Sum>(is_incoming, p, packets, bytes)\<leftarrow>es. if is_incoming \<and> counts p then packets else 0)
    \<and> in_bytes (field (fold (count_event now) es c)) =
      in_bytes (field c) + (\<Sum>(is_incoming, p, packets, bytes)\<leftarrow>es. if is_incoming \<and> counts p then bytes else 0)
    \<and> out_packets (field (fold (count_event now) es c)) =
      out_packets (field c) + (\<Sum>(is_incoming, p, packets, bytes)\<leftarrow>es. if \<not> is_incoming \<and> counts p then packets else 0)
    \<and> out_bytes (field (fold (count_event now) es c)) =
      out_bytes (field c) + (\<Sum>(is_incoming, p, packets, bytes)\<leftarrow>es. if \<not> is_incoming \<and> counts p then bytes else 0)"
proof (induction es arbitrary: c)
  case (Cons e es)
  obtain is_incoming p packets bytes where e: "e = (is_incoming, p, packets, bytes)"
    by (cases e) auto
  show ?case
    unfolding e by (simp add: Cons.IH count_event_class [OF assms] count_in_def count_out_def add.assoc)
qed simp

section \<open>Averages\<close>

text \<open>The average as a function of integers.\<close>

definition average_of :: "rat \<Rightarrow> int \<Rightarrow> int \<Rightarrow> rat" where
  "average_of e a n = to_double (to_double (of_int n) + to_double (e * to_double (to_double (of_int a) - to_double (of_int n))))"

lemma moving_average_of: "moving_average e old new = to_uint64 (average_of e (uint old) (uint new))"
  unfolding moving_average_def average_of_def of_uint64_def ..

lemma to_uint64_between:
  assumes "of_int a \<le> x" "x \<le> of_int b" "0 \<le> a" "b < 2 ^ 64"
  shows "\<exists>w. to_uint64 x = Done w \<and> a \<le> uint w \<and> uint w \<le> b"
proof -
  have "of_int b < (of_int (2 ^ 64) :: rat)" "(of_int 0 :: rat) \<le> of_int a"
    using assms(3,4) by (simp_all only: of_int_less_iff of_int_le_iff)
  then have "0 \<le> x" "x < 2 ^ 64"
    using assms(1,2) by simp_all
  moreover have fl: "a \<le> \<lfloor>x\<rfloor>" "\<lfloor>x\<rfloor> \<le> b"
    using assms(1) floor_mono [OF assms(2)] by (simp_all only: le_floor_iff floor_of_int)
  moreover have "0 \<le> \<lfloor>x\<rfloor>" "\<lfloor>x\<rfloor> < 2 ^ LENGTH(64)"
    by (rule order_trans [OF assms(3) fl(1)]) (rule order_le_less_trans [OF fl(2)], use assms(4) in simp)
  then have "uint (word_of_int \<lfloor>x\<rfloor> :: u64) = \<lfloor>x\<rfloor>"
    by (simp only: unsigned_of_int take_bit_int_eq_self of_int_eq_id id_apply)
  ultimately show ?thesis
    by (auto simp: to_uint64_def)
qed

text \<open>Bounds of the exact correction are bounds of the computed average.\<close>

lemma average_of_bounds:
  assumes small: "0 \<le> a" "a < 2 ^ 53" "0 \<le> n" "n < 2 ^ 53"
    and bounds: "of_int lo \<le> e * of_int (a - n)" "e * of_int (a - n) \<le> of_int hi"
    and range: "0 \<le> n + lo" "n + hi < 2 ^ 53" "lo \<le> 0" "0 \<le> hi"
  shows "of_int (n + lo) \<le> average_of e a n \<and> average_of e a n \<le> of_int (n + hi)"
proof -
  have r: "\<bar>a - n\<bar> < 2 ^ 53" "\<bar>lo\<bar> < 2 ^ 53" "\<bar>hi\<bar> < 2 ^ 53" "\<bar>n + lo\<bar> < 2 ^ 53" "\<bar>n + hi\<bar> < 2 ^ 53"
    using range small by linarith+
  have ints: "to_double (of_int a) = of_int a" "to_double (of_int n) = of_int n"
    "to_double (of_int a - of_int n) = of_int (a - n)"
    using to_double_int [of a] to_double_int [of n] to_double_int [OF r(1)] small by simp_all
  define x where "x = to_double (e * of_int (a - n))"
  have "of_int lo \<le> x" "x \<le> of_int hi"
    using to_double_mono [OF bounds(1)] to_double_mono [OF bounds(2)] to_double_int [OF r(2)] to_double_int [OF r(3)]
    by (simp_all add: x_def)
  then have "of_int (n + lo) \<le> of_int n + x" "of_int n + x \<le> of_int (n + hi)"
    by simp_all
  from to_double_mono [OF this(1)] to_double_mono [OF this(2)] show ?thesis
    unfolding average_of_def ints x_def to_double_int [OF r(4)] to_double_int [OF r(5)] by simp
qed

text \<open>The average lies between the previous average and the measured speed.\<close>

lemma average_of_between:
  assumes "0 \<le> a" "a < 2 ^ 53" "0 \<le> n" "n < 2 ^ 53" "0 \<le> e" "e \<le> 1"
  shows "of_int (min a n) \<le> average_of e a n" "average_of e a n \<le> of_int (max a n)"
proof -
  have "of_int (min a n) \<le> average_of e a n \<and> average_of e a n \<le> of_int (max a n)"
  proof (cases "n \<le> a")
    case True
    then have "of_int 0 \<le> e * of_int (a - n)" "e * of_int (a - n) \<le> of_int (a - n)"
      using assms(5,6) by (simp_all add: mult_left_le_one_le)
    then show ?thesis
      using average_of_bounds [of a n 0 e "a - n"] assms True by (simp add: min_absorb2 max_absorb1)
  next
    case False
    then have "of_int (a - n) \<le> (0 :: rat)"
      by simp
    from mult_right_mono_neg [OF assms(6) this] mult_nonneg_nonpos [OF assms(5) this]
    have "of_int (a - n) \<le> e * of_int (a - n)" "e * of_int (a - n) \<le> of_int 0"
      by simp_all
    then show ?thesis
      using average_of_bounds [of a n "a - n" e 0] assms False by (simp add: min_absorb1 max_absorb2)
  qed
  then show "of_int (min a n) \<le> average_of e a n" "average_of e a n \<le> of_int (max a n)"
    by simp_all
qed

lemma moving_average_between:
  assumes "uint old < 2 ^ 53" "uint new < 2 ^ 53" "0 \<le> e" "e \<le> 1"
  shows "\<exists>w. moving_average e old new = Done w \<and> min (uint old) (uint new) \<le> uint w \<and> uint w \<le> max (uint old) (uint new)"
  unfolding moving_average_of
  using average_of_between [of "uint old" "uint new" e] assms by (intro to_uint64_between) simp_all

text \<open>While the measured speed is well above the average, the average grows.\<close>

lemma moving_average_grows:
  assumes "uint old < 2 ^ 53" "uint new < 2 ^ 53" "0 \<le> e" "e \<le> 1"
    and "1 \<le> (1 - e) * of_int (uint new - uint old)"
  shows "\<exists>w. moving_average e old new = Done w \<and> uint old < uint w \<and> uint w \<le> uint new"
proof -
  define d where "d = uint old - uint new"
  have grow: "of_int (d + 1) \<le> e * of_int d"
    using assms(5) unfolding d_def of_int_add of_int_diff by (simp add: algebra_simps)
  have "d < 0"
  proof (rule ccontr)
    assume "\<not> d < 0"
    then have "(0 :: rat) \<le> of_int d"
      by simp
    from mult_right_mono [OF assms(4) this] grow show False
      by simp
  qed
  then have "e * of_int d \<le> of_int 0"
    using assms(3) by (simp add: mult_nonneg_nonpos)
  then have "of_int (uint new + (d + 1)) \<le> average_of e (uint old) (uint new) \<and>
      average_of e (uint old) (uint new) \<le> of_int (uint new + 0)"
    using grow \<open>d < 0\<close> assms(1,2) unfolding d_def by (intro average_of_bounds) simp_all
  then have "\<exists>w. moving_average e old new = Done w \<and> uint old + 1 \<le> uint w \<and> uint w \<le> uint new"
    unfolding moving_average_of d_def using assms(2) by (intro to_uint64_between) simp_all
  then show ?thesis
    by fastforce
qed

end
