(* ===== verification/Attack_Detection.thy ===== *)
theory Attack_Detection
  imports Traffic_Counters Gobgp_Config
begin

text \<open>
  The decision that a host is under attack (\<^verbatim>\<open>src/fastnetmon_logic.cpp\<close>): the thresholds and how they are
  read from the configuration, the comparison of the average speeds with them, and the description of the attack.
\<close>

section \<open>Thresholds\<close>

record ban_settings_t =
  enable_ban :: bool
  enable_ban_ipv6 :: bool
  enable_ban_for_pps :: bool
  enable_ban_for_bandwidth :: bool
  enable_ban_for_flows_per_second :: bool
  enable_ban_for_tcp_pps :: bool
  enable_ban_for_tcp_bandwidth :: bool
  enable_ban_for_udp_pps :: bool
  enable_ban_for_udp_bandwidth :: bool
  enable_ban_for_icmp_pps :: bool
  enable_ban_for_icmp_bandwidth :: bool
  ban_threshold_tcp_mbps :: u32
  ban_threshold_tcp_pps :: u32
  ban_threshold_udp_mbps :: u32
  ban_threshold_udp_pps :: u32
  ban_threshold_icmp_mbps :: u32
  ban_threshold_icmp_pps :: u32
  ban_threshold_mbps :: u32
  ban_threshold_flows :: u32
  ban_threshold_pps :: u32

definition ban_settings_default :: ban_settings_t where
  "ban_settings_default = \<lparr>enable_ban = False, enable_ban_ipv6 = False, enable_ban_for_pps = False,
     enable_ban_for_bandwidth = False, enable_ban_for_flows_per_second = False, enable_ban_for_tcp_pps = False,
     enable_ban_for_tcp_bandwidth = False, enable_ban_for_udp_pps = False, enable_ban_for_udp_bandwidth = False,
     enable_ban_for_icmp_pps = False, enable_ban_for_icmp_bandwidth = False, ban_threshold_tcp_mbps = 0,
     ban_threshold_tcp_pps = 0, ban_threshold_udp_mbps = 0, ban_threshold_udp_pps = 0, ban_threshold_icmp_mbps = 0,
     ban_threshold_icmp_pps = 0, ban_threshold_mbps = 0, ban_threshold_flows = 0, ban_threshold_pps = 0\<rparr>"

text \<open>
  \<^verbatim>\<open>atoi\<close>: white space, a sign and digits; zero without digits, undefined when the number is not an
  \<^verbatim>\<open>int\<close>.
\<close>

definition convert_string_to_integer :: "string \<Rightarrow> int outcome" where
  "convert_string_to_integer s =
     (let s = dropWhile is_space s;
          negative = (s \<noteq> [] \<and> hd s = CHR ''-'');
          s = (if s \<noteq> [] \<and> (hd s = CHR ''-'' \<or> hd s = CHR ''+'') then tl s else s);
          v = int (digits_value (takeWhile is_digit s));
          n = (if negative then - v else v)
      in if n < - (2 ^ 31) \<or> n \<ge> 2 ^ 31 then Undefined else Done n)"

definition read_threshold :: "configuration_map \<Rightarrow> string \<Rightarrow> u32 \<Rightarrow> u32 outcome" where
  "read_threshold m key old =
     (case m key of None \<Rightarrow> Done old | Some v \<Rightarrow> and_then (convert_string_to_integer v) (\<lambda>n. Done (word_of_int n)))"

definition read_ban_switches :: "configuration_map \<Rightarrow> string \<Rightarrow> ban_settings_t \<Rightarrow> ban_settings_t" where
  "read_ban_switches m key_prefix s =
     s\<lparr>enable_ban := read_flag m (key_prefix @ ''enable_ban'') (enable_ban s),
       enable_ban_ipv6 := read_flag m (key_prefix @ ''enable_ban_ipv6'') (enable_ban_ipv6 s),
       enable_ban_for_pps := read_flag m (key_prefix @ ''ban_for_pps'') (enable_ban_for_pps s),
       enable_ban_for_bandwidth := read_flag m (key_prefix @ ''ban_for_bandwidth'') (enable_ban_for_bandwidth s),
       enable_ban_for_flows_per_second := read_flag m (key_prefix @ ''ban_for_flows'') (enable_ban_for_flows_per_second s),
       enable_ban_for_tcp_bandwidth := read_flag m (key_prefix @ ''ban_for_tcp_bandwidth'') (enable_ban_for_tcp_bandwidth s),
       enable_ban_for_udp_bandwidth := read_flag m (key_prefix @ ''ban_for_udp_bandwidth'') (enable_ban_for_udp_bandwidth s),
       enable_ban_for_icmp_bandwidth := read_flag m (key_prefix @ ''ban_for_icmp_bandwidth'') (enable_ban_for_icmp_bandwidth s),
       enable_ban_for_tcp_pps := read_flag m (key_prefix @ ''ban_for_tcp_pps'') (enable_ban_for_tcp_pps s),
       enable_ban_for_udp_pps := read_flag m (key_prefix @ ''ban_for_udp_pps'') (enable_ban_for_udp_pps s),
       enable_ban_for_icmp_pps := read_flag m (key_prefix @ ''ban_for_icmp_pps'') (enable_ban_for_icmp_pps s)\<rparr>"

definition read_ban_settings :: "configuration_map \<Rightarrow> string \<Rightarrow> ban_settings_t outcome" where
  "read_ban_settings m host_group_name =
     (let key_prefix = (if host_group_name \<noteq> [] then host_group_name @ ''_'' else []);
          s = read_ban_switches m key_prefix ban_settings_default
      in and_then (read_threshold m (key_prefix @ ''threshold_tcp_pps'') (ban_threshold_tcp_pps s)) (\<lambda>tcp_pps.
         and_then (read_threshold m (key_prefix @ ''threshold_udp_pps'') (ban_threshold_udp_pps s)) (\<lambda>udp_pps.
         and_then (read_threshold m (key_prefix @ ''threshold_icmp_pps'') (ban_threshold_icmp_pps s)) (\<lambda>icmp_pps.
         and_then (read_threshold m (key_prefix @ ''threshold_tcp_mbps'') (ban_threshold_tcp_mbps s)) (\<lambda>tcp_mbps.
         and_then (read_threshold m (key_prefix @ ''threshold_udp_mbps'') (ban_threshold_udp_mbps s)) (\<lambda>udp_mbps.
         and_then (read_threshold m (key_prefix @ ''threshold_icmp_mbps'') (ban_threshold_icmp_mbps s)) (\<lambda>icmp_mbps.
         and_then (read_threshold m (key_prefix @ ''threshold_pps'') (ban_threshold_pps s)) (\<lambda>pps.
         and_then (read_threshold m (key_prefix @ ''threshold_mbps'') (ban_threshold_mbps s)) (\<lambda>mbps.
         and_then (read_threshold m (key_prefix @ ''threshold_flows'') (ban_threshold_flows s)) (\<lambda>flows.
           Done (s\<lparr>ban_threshold_tcp_pps := tcp_pps, ban_threshold_udp_pps := udp_pps, ban_threshold_icmp_pps := icmp_pps,
             ban_threshold_tcp_mbps := tcp_mbps, ban_threshold_udp_mbps := udp_mbps, ban_threshold_icmp_mbps := icmp_mbps,
             ban_threshold_pps := pps, ban_threshold_mbps := mbps, ban_threshold_flows := flows\<rparr>)))))))))))"

section \<open>Comparison\<close>

definition exceed_pps_speed :: "u64 \<Rightarrow> u64 \<Rightarrow> u32 \<Rightarrow> bool" where
  "exceed_pps_speed in_counter out_counter threshold \<longleftrightarrow> in_counter > ucast threshold \<or> out_counter > ucast threshold"

definition exceed_flow_speed :: "u64 \<Rightarrow> u64 \<Rightarrow> u32 \<Rightarrow> bool" where
  "exceed_flow_speed in_counter out_counter threshold \<longleftrightarrow> in_counter > ucast threshold \<or> out_counter > ucast threshold"

text \<open>
  \<^verbatim>\<open>uint64_t((double)speed_in_bps / 1000 / 1000 * 8)\<close>; the number always fits (\<open>mbps_defined\<close> below).
\<close>

definition mbps_value :: "u64 \<Rightarrow> rat" where
  "mbps_value speed_in_bps = to_double (to_double (to_double (of_uint64 speed_in_bps / 1000) / 1000) * 8)"

definition convert_speed_to_mbps :: "u64 \<Rightarrow> u64" where
  "convert_speed_to_mbps speed_in_bps = word_of_int \<lfloor>mbps_value speed_in_bps\<rfloor>"

definition exceed_mbps_speed :: "u64 \<Rightarrow> u64 \<Rightarrow> u32 \<Rightarrow> bool" where
  "exceed_mbps_speed in_counter out_counter threshold_mbps \<longleftrightarrow>
     convert_speed_to_mbps in_counter > ucast threshold_mbps \<or> convert_speed_to_mbps out_counter > ucast threshold_mbps"

text \<open>The result, the threshold that was exceeded and the direction, which is never determined.\<close>

definition we_should_ban_this_entity ::
    "subnet_counter_t \<Rightarrow> ban_settings_t \<Rightarrow> bool \<times> attack_detection_threshold_type_t \<times> attack_detection_direction_type_t" where
  "we_should_ban_this_entity c s =
     (let exceed_pps = (\<lambda>e. exceed_pps_speed (in_packets e) (out_packets e));
          exceed_mbps = (\<lambda>e. exceed_mbps_speed (in_bytes e) (out_bytes e))
      in if enable_ban_for_pps s \<and> exceed_pps (counter_total c) (ban_threshold_pps s)
         then (True, packets_per_second, direction_unknown)
         else if enable_ban_for_bandwidth s \<and> exceed_mbps (counter_total c) (ban_threshold_mbps s)
         then (True, bytes_per_second, direction_unknown)
         else if enable_ban_for_flows_per_second s \<and> exceed_flow_speed (in_flows c) (out_flows c) (ban_threshold_flows s)
         then (True, flows_per_second, direction_unknown)
         else if enable_ban_for_tcp_pps s \<and> exceed_pps (counter_tcp c) (ban_threshold_tcp_pps s)
         then (True, tcp_packets_per_second, direction_unknown)
         else if enable_ban_for_udp_pps s \<and> exceed_pps (counter_udp c) (ban_threshold_udp_pps s)
         then (True, udp_packets_per_second, direction_unknown)
         else if enable_ban_for_icmp_pps s \<and> exceed_pps (counter_icmp c) (ban_threshold_icmp_pps s)
         then (True, icmp_packets_per_second, direction_unknown)
         else if enable_ban_for_tcp_bandwidth s \<and> exceed_mbps (counter_tcp c) (ban_threshold_tcp_mbps s)
         then (True, tcp_bytes_per_second, direction_unknown)
         else if enable_ban_for_udp_bandwidth s \<and> exceed_mbps (counter_udp c) (ban_threshold_udp_mbps s)
         then (True, udp_bytes_per_second, direction_unknown)
         else if enable_ban_for_icmp_bandwidth s \<and> exceed_mbps (counter_icmp c) (ban_threshold_icmp_mbps s)
         then (True, icmp_bytes_per_second, direction_unknown)
         else (False, threshold_unknown, direction_unknown))"

fun get_human_readable_threshold_type :: "attack_detection_threshold_type_t \<Rightarrow> string" where
  "get_human_readable_threshold_type packets_per_second = ''packets per second''"
| "get_human_readable_threshold_type bytes_per_second = ''bytes per second''"
| "get_human_readable_threshold_type flows_per_second = ''flows per second''"
| "get_human_readable_threshold_type tcp_packets_per_second = ''tcp packets per second''"
| "get_human_readable_threshold_type tcp_syn_packets_per_second = ''tcp syn packets per second''"
| "get_human_readable_threshold_type tcp_syn_bytes_per_second = ''tcp syn bytes per second''"
| "get_human_readable_threshold_type udp_packets_per_second = ''udp packets per second''"
| "get_human_readable_threshold_type icmp_packets_per_second = ''icmp packets per second''"
| "get_human_readable_threshold_type tcp_bytes_per_second = ''tcp bytes per second''"
| "get_human_readable_threshold_type udp_bytes_per_second = ''udp bytes per second''"
| "get_human_readable_threshold_type icmp_bytes_per_second = ''icmp bytes per second''"
| "get_human_readable_threshold_type _ = ''unknown''"

section \<open>Description of the attack\<close>

text \<open>The largest of the three numbers is cut to 32 bits before it is compared.\<close>

definition get_max_used_protocol :: "u64 \<Rightarrow> u64 \<Rightarrow> u64 \<Rightarrow> u32" where
  "get_max_used_protocol tcp udp icmp =
     (let larger = (\<lambda>a b. if a > b then a else b);
          max = (ucast (larger (larger udp tcp) icmp) :: u32)
      in if ucast max = tcp then 6 else if ucast max = udp then 17 else if ucast max = icmp then 1 else 0)"

definition detect_attack_protocol :: "subnet_counter_t \<Rightarrow> direction_t \<Rightarrow> u32" where
  "detect_attack_protocol c direction =
     (if direction = INCOMING
      then get_max_used_protocol (in_packets (counter_tcp c)) (in_packets (counter_udp c)) (in_packets (counter_icmp c))
      else get_max_used_protocol (out_packets (counter_tcp c)) (out_packets (counter_udp c)) (out_packets (counter_icmp c)))"

text \<open>\<^verbatim>\<open>abs(int((int)in_pps - (int)out_pps)) < 1000\<close>, undefined when the subtraction or \<^verbatim>\<open>abs\<close> overflows.\<close>

definition speeds_are_close :: "u64 \<Rightarrow> u64 \<Rightarrow> bool outcome" where
  "speeds_are_close in_pps out_pps =
     (let d = sint (ucast in_pps :: u32) - sint (ucast out_pps :: u32)
      in if d \<le> - (2 ^ 31) \<or> d \<ge> 2 ^ 31 then Undefined else Done (\<bar>d\<bar> < 1000))"

definition detect_direction :: "traffic_counter_element_t \<Rightarrow> direction_t outcome" where
  "detect_direction e =
     and_then (speeds_are_close (in_packets e) (out_packets e)) (\<lambda>close. Done
       (if close then if in_bytes e > out_bytes e then INCOMING else OUTGOING
        else if in_packets e > out_packets e then INCOMING else OUTGOING))"

definition fill_attack_information :: "int \<Rightarrow> string \<Rightarrow> string \<Rightarrow> bool \<Rightarrow> int \<Rightarrow> attack_details_t \<Rightarrow> attack_details_t outcome" where
  "fill_attack_information now host_group_name parent_host_group_name unban ban_seconds a =
     (let e = counter_total (traffic_counters a)
      in and_then (detect_direction e) (\<lambda>data_direction.
         let pps = (if data_direction = INCOMING then in_packets e else out_packets e)
         in Done (a\<lparr>attack_protocol := detect_attack_protocol (traffic_counters a) data_direction,
              host_group := host_group_name, parent_host_group := parent_host_group_name, ban_timestamp := now,
              ban_time := ban_seconds, unban_enabled := unban, attack_direction := data_direction,
              attack_power := pps, max_attack_power := pps\<rparr>)))"

section \<open>Settings of a network\<close>

record ban_configuration =
  global_ban_settings :: ban_settings_t
  subnet_to_host_groups :: "subnet_cidr_mask_t \<rightharpoonup> string"
  host_group_ban_settings_map :: "string \<rightharpoonup> ban_settings_t"

definition get_ban_settings_for_this_subnet :: "ban_configuration \<Rightarrow> subnet_cidr_mask_t \<Rightarrow> string \<times> ban_settings_t" where
  "get_ban_settings_for_this_subnet c subnet =
     (case subnet_to_host_groups c subnet of
        None \<Rightarrow> (''global'', global_ban_settings c)
      | Some host_group_name \<Rightarrow>
          (host_group_name,
           case host_group_ban_settings_map c host_group_name of Some s \<Rightarrow> s | None \<Rightarrow> global_ban_settings c))"

section \<open>Bandwidth\<close>

text \<open>The value before it is cut to an integer, as a function of integers.\<close>

definition mbps_of :: "int \<Rightarrow> rat" where
  "mbps_of n = to_double (to_double (to_double (of_int n) / 1000) / 1000) * 8"

lemma mbps_value_of: "mbps_value s = mbps_of (uint s)"
  unfolding mbps_value_def mbps_of_def of_uint64_def
  using to_double_shift [of "to_double (to_double (of_int (uint s)) / 1000) / 1000" 3] by simp

lemma mbps_of_mono: "m \<le> n \<Longrightarrow> mbps_of m \<le> mbps_of n"
  by (simp add: mbps_of_def to_double_mono divide_right_mono)

lemma mbps_of_multiple:
  assumes "0 \<le> k" "k < 2 ^ 36" shows "mbps_of (k * 125000) = of_int k"
proof -
  have small: "\<bar>k * 125000\<bar> < 2 ^ 53" "\<bar>k * 125\<bar> < 2 ^ 53" "\<bar>k\<bar> < 2 ^ 53"
    using assms by simp_all
  have first: "to_double (of_int (k * 125000)) / 1000 = of_int (k * 125)"
    unfolding to_double_int [OF small(1)] by simp
  have second: "of_int (k * 125) / 1000 = of_int k * (2 :: rat) powi (- 3)"
    by (simp add: power_int_def power_divide)
  show ?thesis
    unfolding mbps_of_def first to_double_int [OF small(2)] second to_double_exact [OF small(3)]
    by (simp add: power_int_def power_divide)
qed

lemma mbps_of_error:
  assumes "0 \<le> n" "n < 2 ^ 50" shows "mbps_of n < (of_int n * 8 + 8) / 10 ^ 6"
proof -
  define u :: rat where "u = 1 / 2 ^ 53"
  have grow: "to_double x \<le> x * (1 + u)" if "0 \<le> x" for x
  proof -
    have "to_double x - x \<le> x / 2 ^ 53"
      using to_double_error [of x] that by linarith
    then show ?thesis
      by (simp add: u_def field_simps)
  qed
  have "\<bar>n\<bar> < 2 ^ 53"
    using assms by simp
  then have n: "to_double (of_int n) = of_int n"
    by (rule to_double_int)
  have pos: "0 \<le> (of_int n :: rat)"
    using assms(1) by simp
  have "to_double (of_int n / 1000) \<le> of_int n / 1000 * (1 + u)"
    using grow [of "of_int n / 1000"] pos by simp
  then have "to_double (to_double (of_int n / 1000) / 1000) \<le> to_double (of_int n / 10 ^ 6 * (1 + u))"
    by (intro to_double_mono) (simp add: field_simps)
  also have "\<dots> \<le> of_int n / 10 ^ 6 * (1 + u) * (1 + u)"
    using pos by (intro grow) (simp add: u_def)
  finally have "mbps_of n \<le> of_int n * 8 / 10 ^ 6 * ((1 + u) * (1 + u))"
    unfolding mbps_of_def n by (simp add: field_simps)
  also have "\<dots> < (of_int n * 8 + 8) / 10 ^ 6"
  proof -
    have "of_int n * (2 * u + u * u) < 1"
    proof -
      have "(of_int n :: rat) < of_int (2 ^ 50)"
        using assms(2) by (simp only: of_int_less_iff)
      then have "of_int n * (2 * u + u * u) \<le> 2 ^ 50 * (2 * u + u * u)"
        by (intro mult_right_mono) (simp_all add: u_def)
      also have "\<dots> < 1"
        by (simp add: u_def)
      finally show ?thesis .
    qed
    then show ?thesis
      by (simp add: field_simps)
  qed
  finally show ?thesis .
qed

text \<open>Below \<open>2 ^ 50\<close> bytes per second the floating point computation is exact.\<close>

lemma mbps_of_floor:
  assumes "0 \<le> n" "n < 2 ^ 50" shows "\<lfloor>mbps_of n\<rfloor> = n * 8 div 10 ^ 6"
proof -
  define k where "k = n * 8 div 10 ^ 6"
  have k: "0 \<le> k" "k < 2 ^ 36" "k * 125000 \<le> n" "n + 1 \<le> (k + 1) * 125000"
    using assms by (simp_all add: k_def)
  have "of_int k \<le> mbps_of n"
    using mbps_of_mono [OF k(3)] mbps_of_multiple [OF k(1,2)] by simp
  moreover have "mbps_of n < of_int k + 1"
  proof -
    have "(of_int (n + 1) :: rat) \<le> of_int ((k + 1) * 125000)"
      using k(4) by (simp only: of_int_le_iff)
    then have "(of_int n * 8 + 8) / 10 ^ 6 \<le> of_int k + (1 :: rat)"
      by (simp add: field_simps)
    then show ?thesis
      using mbps_of_error [OF assms] by linarith
  qed
  ultimately show ?thesis
    unfolding k_def [symmetric] by (simp add: floor_eq_iff)
qed

lemma mbps_defined: "to_uint64 (mbps_value s) = Done (convert_speed_to_mbps s)"
proof -
  have "0 \<le> mbps_value s"
    unfolding mbps_value_of using mbps_of_mono [of 0 "uint s"] mbps_of_multiple [of 0] by simp
  moreover have "mbps_value s < 2 ^ 64"
  proof -
    have "(of_int (uint s) :: rat) \<le> of_int (2 ^ 52) * 2 powi 12"
    proof -
      have "uint s \<le> 2 ^ 64"
        using uint_lt2p [of s] by simp
      then have "(of_int (uint s) :: rat) \<le> of_int (2 ^ 64)"
        by (simp only: of_int_le_iff)
      then show ?thesis
        by (simp add: power_int_def)
    qed
    from to_double_mono [OF this] have "to_double (of_int (uint s)) \<le> 2 ^ 64"
      using to_double_exact [of "2 ^ 52" 12] by (simp add: power_int_def)
    then have "to_double (to_double (of_int (uint s)) / 1000) \<le> to_double (of_int (2 ^ 52) * 2 powi 3)"
      by (intro to_double_mono) (simp add: power_int_def)
    then have "to_double (to_double (to_double (of_int (uint s)) / 1000) / 1000) \<le> to_double (of_int (2 ^ 52) * 2 powi 0)"
      using to_double_exact [of "2 ^ 52" 3] by (intro to_double_mono) (simp add: power_int_def)
    then show ?thesis
      unfolding mbps_value_of mbps_of_def using to_double_exact [of "2 ^ 52" 0] by (simp add: power_int_def)
  qed
  ultimately show ?thesis
    unfolding to_uint64_def convert_speed_to_mbps_def by simp
qed

lemma mbps_exact: "uint s < 2 ^ 50 \<Longrightarrow> uint (convert_speed_to_mbps s) = uint s * 8 div 10 ^ 6"
  unfolding convert_speed_to_mbps_def mbps_value_of mbps_of_floor [OF unsigned_greater_eq]
  by (simp add: unsigned_of_int) (rule take_bit_int_eq_self, simp_all add: pos_imp_zdiv_nonneg_iff)

end
