(* ===== verification/Detection_Spec.thy ===== *)
theory Detection_Spec
  imports Attack_Detection
begin

text \<open>
  What the detection of attacks promises: the decision compares exact speeds with the thresholds, a host whose
  measured speeds stay within them is never banned, and a host under a sustained attack is.
\<close>

section \<open>The decision\<close>

definition within_limits :: "ban_settings_t \<Rightarrow> subnet_counter_t \<Rightarrow> bool" where
  "within_limits s c \<longleftrightarrow> \<not> fst (we_should_ban_this_entity c s)"

lemma within_limits_iff:
  "within_limits s c \<longleftrightarrow>
     (enable_ban_for_pps s \<longrightarrow> \<not> exceed_pps_speed (in_packets (counter_total c)) (out_packets (counter_total c)) (ban_threshold_pps s))
   \<and> (enable_ban_for_bandwidth s \<longrightarrow> \<not> exceed_mbps_speed (in_bytes (counter_total c)) (out_bytes (counter_total c)) (ban_threshold_mbps s))
   \<and> (enable_ban_for_flows_per_second s \<longrightarrow> \<not> exceed_flow_speed (in_flows c) (out_flows c) (ban_threshold_flows s))
   \<and> (enable_ban_for_tcp_pps s \<longrightarrow> \<not> exceed_pps_speed (in_packets (counter_tcp c)) (out_packets (counter_tcp c)) (ban_threshold_tcp_pps s))
   \<and> (enable_ban_for_udp_pps s \<longrightarrow> \<not> exceed_pps_speed (in_packets (counter_udp c)) (out_packets (counter_udp c)) (ban_threshold_udp_pps s))
   \<and> (enable_ban_for_icmp_pps s \<longrightarrow> \<not> exceed_pps_speed (in_packets (counter_icmp c)) (out_packets (counter_icmp c)) (ban_threshold_icmp_pps s))
   \<and> (enable_ban_for_tcp_bandwidth s \<longrightarrow> \<not> exceed_mbps_speed (in_bytes (counter_tcp c)) (out_bytes (counter_tcp c)) (ban_threshold_tcp_mbps s))
   \<and> (enable_ban_for_udp_bandwidth s \<longrightarrow> \<not> exceed_mbps_speed (in_bytes (counter_udp c)) (out_bytes (counter_udp c)) (ban_threshold_udp_mbps s))
   \<and> (enable_ban_for_icmp_bandwidth s \<longrightarrow> \<not> exceed_mbps_speed (in_bytes (counter_icmp c)) (out_bytes (counter_icmp c)) (ban_threshold_icmp_mbps s))"
  by (simp add: within_limits_def we_should_ban_this_entity_def Let_def)

lemma mbps_mono:
  assumes "a \<le> b" shows "convert_speed_to_mbps a \<le> convert_speed_to_mbps b"
proof -
  have range: "0 \<le> \<lfloor>mbps_value s\<rfloor>" "\<lfloor>mbps_value s\<rfloor> < 2 ^ LENGTH(64)" for s
    using mbps_defined [of s] mbps_of_mono [of 0 "uint s"] mbps_of_multiple [of 0]
    by (auto simp: to_uint64_def mbps_value_of floor_less_iff split: if_splits)
  have u: "uint (convert_speed_to_mbps s) = \<lfloor>mbps_value s\<rfloor>" for s
    unfolding convert_speed_to_mbps_def using range [of s]
    by (simp only: unsigned_of_int take_bit_int_eq_self of_int_eq_id id_apply)
  have "mbps_value a \<le> mbps_value b"
    unfolding mbps_value_of using assms by (intro mbps_of_mono) (simp add: word_le_def)
  then show ?thesis
    by (simp only: word_le_def u floor_mono)
qed

text \<open>The tests are monotone, and two speeds within a limit have their maximum within it.\<close>

definition element_le :: "traffic_counter_element_t \<Rightarrow> traffic_counter_element_t \<Rightarrow> bool" where
  "element_le a b \<longleftrightarrow> in_bytes a \<le> in_bytes b \<and> out_bytes a \<le> out_bytes b \<and> in_packets a \<le> in_packets b \<and> out_packets a \<le> out_packets b"

definition counter_le :: "subnet_counter_t \<Rightarrow> subnet_counter_t \<Rightarrow> bool" where
  "counter_le a b \<longleftrightarrow> element_le (counter_total a) (counter_total b) \<and> element_le (counter_tcp a) (counter_tcp b)
     \<and> element_le (counter_udp a) (counter_udp b) \<and> element_le (counter_icmp a) (counter_icmp b)
     \<and> in_flows a \<le> in_flows b \<and> out_flows a \<le> out_flows b"

lemma exceed_mono:
  "a \<le> b \<Longrightarrow> c \<le> d \<Longrightarrow> exceed_pps_speed a c t \<Longrightarrow> exceed_pps_speed b d t"
  "a \<le> b \<Longrightarrow> c \<le> d \<Longrightarrow> exceed_flow_speed a c t \<Longrightarrow> exceed_flow_speed b d t"
  "a \<le> b \<Longrightarrow> c \<le> d \<Longrightarrow> exceed_mbps_speed a c t \<Longrightarrow> exceed_mbps_speed b d t"
  using mbps_mono [of a b] mbps_mono [of c d]
  by (auto simp: exceed_pps_speed_def exceed_flow_speed_def exceed_mbps_speed_def)

lemma within_limits_mono:
  assumes "counter_le a b" "within_limits s b" shows "within_limits s a"
proof -
  have pps: "exceed_pps_speed (in_packets x) (out_packets x) t \<longrightarrow> exceed_pps_speed (in_packets y) (out_packets y) t"
    and mbps: "exceed_mbps_speed (in_bytes x) (out_bytes x) t \<longrightarrow> exceed_mbps_speed (in_bytes y) (out_bytes y) t"
    if "element_le x y" for x y t
    using that exceed_mono(1) [of "in_packets x" "in_packets y" "out_packets x" "out_packets y" t]
      exceed_mono(3) [of "in_bytes x" "in_bytes y" "out_bytes x" "out_bytes y" t]
    by (simp_all add: element_le_def)
  have flows: "exceed_flow_speed (in_flows a) (out_flows a) t \<longrightarrow> exceed_flow_speed (in_flows b) (out_flows b) t" for t
    using assms(1) exceed_mono(2) [of "in_flows a" "in_flows b" "out_flows a" "out_flows b" t] by (simp add: counter_le_def)
  from assms(1) have le: "element_le (counter_total a) (counter_total b)" "element_le (counter_tcp a) (counter_tcp b)"
    "element_le (counter_udp a) (counter_udp b)" "element_le (counter_icmp a) (counter_icmp b)"
    by (simp_all add: counter_le_def)
  show ?thesis
    using assms(2) flows [of "ban_threshold_flows s"] pps [OF le(1), of "ban_threshold_pps s"]
      pps [OF le(2), of "ban_threshold_tcp_pps s"] pps [OF le(3), of "ban_threshold_udp_pps s"]
      pps [OF le(4), of "ban_threshold_icmp_pps s"] mbps [OF le(1), of "ban_threshold_mbps s"]
      mbps [OF le(2), of "ban_threshold_tcp_mbps s"] mbps [OF le(3), of "ban_threshold_udp_mbps s"]
      mbps [OF le(4), of "ban_threshold_icmp_mbps s"]
    unfolding within_limits_iff by argo
qed

lemma element_max:
  "in_bytes (element_update_if_larger b a) = max (in_bytes a) (in_bytes b)"
  "out_bytes (element_update_if_larger b a) = max (out_bytes a) (out_bytes b)"
  "in_packets (element_update_if_larger b a) = max (in_packets a) (in_packets b)"
  "out_packets (element_update_if_larger b a) = max (out_packets a) (out_packets b)"
  by (auto simp: element_update_if_larger_def Let_def max_def)

lemma exceed_max:
  "exceed_pps_speed (max a b) (max c d) t \<longleftrightarrow> exceed_pps_speed a c t \<or> exceed_pps_speed b d t"
  "exceed_flow_speed (max a b) (max c d) t \<longleftrightarrow> exceed_flow_speed a c t \<or> exceed_flow_speed b d t"
  "exceed_mbps_speed (max a b) (max c d) t \<longleftrightarrow> exceed_mbps_speed a c t \<or> exceed_mbps_speed b d t"
proof -
  have "convert_speed_to_mbps (max x y) = max (convert_speed_to_mbps x) (convert_speed_to_mbps y)" for x y
    using mbps_mono [of x y] mbps_mono [of y x] by (auto simp: max_def)
  then show "exceed_mbps_speed (max a b) (max c d) t \<longleftrightarrow> exceed_mbps_speed a c t \<or> exceed_mbps_speed b d t"
    by (auto simp: exceed_mbps_speed_def less_max_iff_disj)
qed (auto simp: exceed_pps_speed_def exceed_flow_speed_def less_max_iff_disj)

lemma within_limits_max:
  assumes "within_limits s a" "within_limits s b" shows "within_limits s (update_if_larger b a)"
proof -
  have "(if in_flows a < in_flows b then in_flows b else in_flows a) = max (in_flows a) (in_flows b)"
    "(if out_flows a < out_flows b then out_flows b else out_flows a) = max (out_flows a) (out_flows b)"
    by (auto simp: max_def)
  then show ?thesis
    using assms unfolding within_limits_iff by (simp add: update_if_larger_def element_max exceed_max)
qed

section \<open>The average\<close>

definition element_small :: "traffic_counter_element_t \<Rightarrow> bool" where
  "element_small e \<longleftrightarrow> uint (in_bytes e) < 2 ^ 53 \<and> uint (out_bytes e) < 2 ^ 53 \<and> uint (in_packets e) < 2 ^ 53 \<and> uint (out_packets e) < 2 ^ 53"

text \<open>All speeds are below \<open>2 ^ 53\<close>, the range in which a \<^verbatim>\<open>double\<close> holds every integer.\<close>

definition counter_small :: "subnet_counter_t \<Rightarrow> bool" where
  "counter_small c \<longleftrightarrow> element_small (counter_total c) \<and> element_small (counter_tcp c) \<and> element_small (counter_udp c)
     \<and> element_small (counter_icmp c) \<and> element_small (counter_fragmented c) \<and> element_small (counter_tcp_syn c)
     \<and> element_small (counter_dropped c) \<and> uint (in_flows c) < 2 ^ 53 \<and> uint (out_flows c) < 2 ^ 53"

text \<open>One number: the average is defined, small again and between the two.\<close>

lemma average_number:
  assumes "0 \<le> e" "e \<le> 1" "uint old < 2 ^ 53" "uint new < 2 ^ 53"
  obtains w where "moving_average e old new = Done w" "uint w < 2 ^ 53" "w \<le> max old new" "min old new \<le> w"
proof -
  obtain w where w: "moving_average e old new = Done w" "min (uint old) (uint new) \<le> uint w" "uint w \<le> max (uint old) (uint new)"
    using moving_average_between [OF assms(3,4,1,2)] by blast
  then show thesis
    using assms(3,4) by (intro that [of w]) (auto simp: word_le_def max_def min_def split: if_splits)
qed

lemma average_element:
  assumes "0 \<le> e" "e \<le> 1" "element_small old" "element_small new"
  obtains w where "calulate_exponential_moving_average_speed e new old = Done w" "element_small w"
    "element_le w (element_update_if_larger new old)"
    "moving_average e (in_packets old) (in_packets new) = Done (in_packets w)"
proof -
  note s = assms(3,4) [unfolded element_small_def]
  obtain a where a: "moving_average e (in_bytes old) (in_bytes new) = Done a" "uint a < 2 ^ 53" "a \<le> max (in_bytes old) (in_bytes new)"
    using average_number [OF assms(1,2), of "in_bytes old" "in_bytes new"] s by metis
  obtain b where b: "moving_average e (out_bytes old) (out_bytes new) = Done b" "uint b < 2 ^ 53" "b \<le> max (out_bytes old) (out_bytes new)"
    using average_number [OF assms(1,2), of "out_bytes old" "out_bytes new"] s by metis
  obtain c where c: "moving_average e (in_packets old) (in_packets new) = Done c" "uint c < 2 ^ 53" "c \<le> max (in_packets old) (in_packets new)"
    using average_number [OF assms(1,2), of "in_packets old" "in_packets new"] s by metis
  obtain d where d: "moving_average e (out_packets old) (out_packets new) = Done d" "uint d < 2 ^ 53" "d \<le> max (out_packets old) (out_packets new)"
    using average_number [OF assms(1,2), of "out_packets old" "out_packets new"] s by metis
  show thesis
    by (rule that [of "old\<lparr>in_bytes := a, out_bytes := b, in_packets := c, out_packets := d\<rparr>"])
      (use a b c d in \<open>simp_all add: calulate_exponential_moving_average_speed_def element_small_def element_le_def element_max\<close>)
qed

lemma average_counter:
  assumes "0 \<le> e" "e \<le> 1" "counter_small old" "counter_small new"
  obtains w where "build_average_speed_counters_from_speed_counters e new old = Done w" "counter_small w"
    "counter_le w (update_if_larger new old)"
    "moving_average e (in_packets (counter_total old)) (in_packets (counter_total new)) = Done (in_packets (counter_total w))"
proof -
  note s = assms(3,4) [unfolded counter_small_def]
  note element = average_element [OF assms(1,2)]
  obtain a where a: "calulate_exponential_moving_average_speed e (counter_total new) (counter_total old) = Done a" "element_small a"
    "element_le a (element_update_if_larger (counter_total new) (counter_total old))"
    "moving_average e (in_packets (counter_total old)) (in_packets (counter_total new)) = Done (in_packets a)"
    using element [of "counter_total old" "counter_total new"] s by metis
  obtain b where b: "calulate_exponential_moving_average_speed e (counter_dropped new) (counter_dropped old) = Done b" "element_small b"
    using element [of "counter_dropped old" "counter_dropped new"] s by metis
  obtain c where c: "calulate_exponential_moving_average_speed e (counter_fragmented new) (counter_fragmented old) = Done c" "element_small c"
    using element [of "counter_fragmented old" "counter_fragmented new"] s by metis
  obtain d where d: "calulate_exponential_moving_average_speed e (counter_tcp_syn new) (counter_tcp_syn old) = Done d" "element_small d"
    using element [of "counter_tcp_syn old" "counter_tcp_syn new"] s by metis
  obtain f where f: "calulate_exponential_moving_average_speed e (counter_tcp new) (counter_tcp old) = Done f" "element_small f"
    "element_le f (element_update_if_larger (counter_tcp new) (counter_tcp old))"
    using element [of "counter_tcp old" "counter_tcp new"] s by metis
  obtain g where g: "calulate_exponential_moving_average_speed e (counter_udp new) (counter_udp old) = Done g" "element_small g"
    "element_le g (element_update_if_larger (counter_udp new) (counter_udp old))"
    using element [of "counter_udp old" "counter_udp new"] s by metis
  obtain h where h: "calulate_exponential_moving_average_speed e (counter_icmp new) (counter_icmp old) = Done h" "element_small h"
    "element_le h (element_update_if_larger (counter_icmp new) (counter_icmp old))"
    using element [of "counter_icmp old" "counter_icmp new"] s by metis
  obtain i where i: "moving_average e (out_flows old) (out_flows new) = Done i" "uint i < 2 ^ 53" "i \<le> max (out_flows old) (out_flows new)"
    using average_number [OF assms(1,2), of "out_flows old" "out_flows new"] s by metis
  obtain j where j: "moving_average e (in_flows old) (in_flows new) = Done j" "uint j < 2 ^ 53" "j \<le> max (in_flows old) (in_flows new)"
    using average_number [OF assms(1,2), of "in_flows old" "in_flows new"] s by metis
  show thesis
    by (rule that [of "old\<lparr>counter_total := a, counter_dropped := b, counter_fragmented := c, counter_tcp_syn := d,
        counter_tcp := f, counter_udp := g, counter_icmp := h, out_flows := i, in_flows := j\<rparr>"])
      (use a b c d f g h i j in \<open>auto simp: build_average_speed_counters_from_speed_counters_def counter_small_def counter_le_def
        update_if_larger_def max_def split: if_splits\<close>)
qed

text \<open>The averages after a list of measurements.\<close>

fun averages :: "rat \<Rightarrow> subnet_counter_t list \<Rightarrow> subnet_counter_t \<Rightarrow> subnet_counter_t outcome" where
  "averages e [] a = Done a"
| "averages e (m # ms) a = and_then (build_average_speed_counters_from_speed_counters e m a) (averages e ms)"

lemma averages_quiet:
  assumes "0 \<le> e" "e \<le> 1"
  shows "list_all (\<lambda>m. counter_small m \<and> within_limits s m) ms \<Longrightarrow> counter_small a \<Longrightarrow> within_limits s a \<Longrightarrow>
    \<exists>a'. averages e ms a = Done a' \<and> within_limits s a'"
proof (induction ms arbitrary: a)
  case (Cons m ms)
  obtain w where w: "build_average_speed_counters_from_speed_counters e m a = Done w" "counter_small w"
    "counter_le w (update_if_larger m a)"
    using average_counter [OF assms Cons.prems(2), of m] Cons.prems(1) by auto
  have "within_limits s w"
    using within_limits_mono [OF w(3)] within_limits_max Cons.prems by simp
  then show ?case
    using Cons.IH [OF _ w(2)] Cons.prems(1) w(1) by simp
qed simp

text \<open>The distance to the threshold shrinks with every measurement above it.\<close>

lemma averages_attack:
  assumes "0 \<le> e" "e \<le> 1" "1 \<le> (1 - e) * of_int (v - t)"
  shows "list_all (\<lambda>m. counter_small m \<and> v \<le> uint (in_packets (counter_total m))) ms \<Longrightarrow> counter_small a \<Longrightarrow>
    \<exists>a'. averages e ms a = Done a' \<and> min (t + 1) (uint (in_packets (counter_total a)) + int (length ms)) \<le> uint (in_packets (counter_total a'))"
proof (induction ms arbitrary: a)
  case (Cons m ms)
  let ?p = "\<lambda>c. uint (in_packets (counter_total c))"
  have m: "counter_small m" "v \<le> ?p m"
    using Cons.prems(1) by auto
  obtain w where w: "build_average_speed_counters_from_speed_counters e m a = Done w" "counter_small w"
    "moving_average e (in_packets (counter_total a)) (in_packets (counter_total m)) = Done (in_packets (counter_total w))"
    using average_counter [OF assms(1,2) Cons.prems(2) m(1)] by metis
  have small: "?p a < 2 ^ 53" "?p m < 2 ^ 53"
    using Cons.prems(2) m(1) by (simp_all add: counter_small_def element_small_def)
  have "t < v"
  proof (rule ccontr)
    assume "\<not> t < v"
    then have "(1 - e) * of_int (v - t) \<le> 0"
      using assms(2) by (intro mult_nonneg_nonpos) simp_all
    then show False
      using assms(3) by simp
  qed
  have step: "min (t + 1) (?p a + 1) \<le> ?p w"
  proof (cases "?p a \<le> t")
    case True
    then have "(1 - e) * of_int (v - t) \<le> (1 - e) * of_int (?p m - ?p a)"
      using m(2) assms(2) by (intro mult_left_mono, unfold of_int_le_iff) simp_all
    then have "1 \<le> (1 - e) * of_int (?p m - ?p a)"
      using assms(3) by linarith
    from moving_average_grows [OF small assms(1,2) this] w(3) show ?thesis
      by auto
  next
    case False
    then show ?thesis
      using moving_average_between [OF small assms(1,2)] w(3) m(2) \<open>t < v\<close> by auto
  qed
  obtain a' where "averages e ms w = Done a'" "min (t + 1) (?p w + int (length ms)) \<le> ?p a'"
    using Cons.IH [OF _ w(2)] Cons.prems(1) by auto
  then show ?case
    using step w(1) by (intro exI [of _ a']) auto
qed (simp add: min_le_iff_disj)

section \<open>Detection\<close>

lemma within_limits_result:
  "within_limits s c \<Longrightarrow> we_should_ban_this_entity c s = (False, threshold_unknown, direction_unknown)"
  unfolding within_limits_iff we_should_ban_this_entity_def Let_def by argo

text \<open>
  C38. A host is not banned as long as its measured speeds stay within the thresholds: whatever the weight of the
  average, the average of such measurements is computed without undefined behaviour and exceeds no threshold.
\<close>

theorem quiet_host_never_banned:
  assumes "0 \<le> e" "e \<le> 1" "counter_small a" "within_limits s a"
    "list_all (\<lambda>m. counter_small m \<and> within_limits s m) ms"
  shows "\<exists>a'. averages e ms a = Done a' \<and> we_should_ban_this_entity a' s = (False, threshold_unknown, direction_unknown)"
  using averages_quiet [OF assms(1,2,5,3,4)] within_limits_result by blast

theorem quiet_host_never_banned_witness:
  "\<exists>a'. averages (1 / 2) [subnet_counter_default\<lparr>counter_total := counter_element_zero\<lparr>in_packets := 900\<rparr>\<rparr>] subnet_counter_default = Done a'
    \<and> we_should_ban_this_entity a' (ban_settings_default\<lparr>enable_ban_for_pps := True, ban_threshold_pps := 1000\<rparr>)
      = (False, threshold_unknown, direction_unknown)"
  by (rule quiet_host_never_banned)
    (simp_all add: counter_small_def element_small_def within_limits_iff exceed_pps_speed_def subnet_counter_default_def
      counter_element_zero_def ban_settings_default_def)

text \<open>
  C39. A sustained attack is detected: when every measured incoming packet speed is above the threshold by at least the
  margin the average needs to gain one packet per second, the host is banned for its packet speed after more
  measurements than the threshold has packets.
\<close>

theorem sustained_attack_detected:
  assumes "0 \<le> e" "e \<le> 1" "counter_small a" "enable_ban_for_pps s"
    "1 \<le> (1 - e) * of_int (v - uint (ban_threshold_pps s))"
    "list_all (\<lambda>m. counter_small m \<and> v \<le> uint (in_packets (counter_total m))) ms"
    "uint (ban_threshold_pps s) < int (length ms)"
  shows "\<exists>a'. averages e ms a = Done a' \<and> we_should_ban_this_entity a' s = (True, packets_per_second, direction_unknown)"
proof -
  obtain a' where a': "averages e ms a = Done a'"
    "min (uint (ban_threshold_pps s) + 1) (uint (in_packets (counter_total a)) + int (length ms)) \<le> uint (in_packets (counter_total a'))"
    using averages_attack [OF assms(1,2,5,6,3)] by blast
  have "uint (ban_threshold_pps s) < uint (in_packets (counter_total a'))"
    using a'(2) assms(7) uint_ge_0 [of "in_packets (counter_total a)"] by linarith
  then have "exceed_pps_speed (in_packets (counter_total a')) (out_packets (counter_total a')) (ban_threshold_pps s)"
    unfolding exceed_pps_speed_def word_less_def by (simp add: uint_up_ucast is_up)
  then show ?thesis
    using a'(1) assms(4) by (simp add: we_should_ban_this_entity_def)
qed

theorem sustained_attack_detected_witness:
  "\<exists>a'. averages (1 / 2) [subnet_counter_default\<lparr>counter_total := counter_element_zero\<lparr>in_packets := 4\<rparr>\<rparr>,
        subnet_counter_default\<lparr>counter_total := counter_element_zero\<lparr>in_packets := 3\<rparr>\<rparr>] subnet_counter_default = Done a'
    \<and> we_should_ban_this_entity a' (ban_settings_default\<lparr>enable_ban_for_pps := True, ban_threshold_pps := 1\<rparr>)
      = (True, packets_per_second, direction_unknown)"
  by (rule sustained_attack_detected [where v = 3])
    (simp_all add: counter_small_def element_small_def subnet_counter_default_def
      counter_element_zero_def ban_settings_default_def)

text \<open>The decision on exact numbers: bytes per second are compared as \<open>8 * bytes div 10 ^ 6\<close> megabits.\<close>

definition exceeds :: "(traffic_counter_element_t \<Rightarrow> u64) \<Rightarrow> (traffic_counter_element_t \<Rightarrow> u64) \<Rightarrow> int \<Rightarrow> int \<Rightarrow> traffic_counter_element_t \<Rightarrow> u32 \<Rightarrow> bool" where
  "exceeds incoming outgoing scale unit e threshold \<longleftrightarrow>
     uint (incoming e) * scale div unit > uint threshold \<or> uint (outgoing e) * scale div unit > uint threshold"

definition attack_in_exact_arithmetic :: "subnet_counter_t \<Rightarrow> ban_settings_t \<Rightarrow> bool" where
  "attack_in_exact_arithmetic c s \<longleftrightarrow>
     (let pps = exceeds in_packets out_packets 1 1; mbps = exceeds in_bytes out_bytes 8 (10 ^ 6)
      in enable_ban_for_pps s \<and> pps (counter_total c) (ban_threshold_pps s)
       \<or> enable_ban_for_bandwidth s \<and> mbps (counter_total c) (ban_threshold_mbps s)
       \<or> enable_ban_for_flows_per_second s
          \<and> (uint (in_flows c) > uint (ban_threshold_flows s) \<or> uint (out_flows c) > uint (ban_threshold_flows s))
       \<or> enable_ban_for_tcp_pps s \<and> pps (counter_tcp c) (ban_threshold_tcp_pps s)
       \<or> enable_ban_for_udp_pps s \<and> pps (counter_udp c) (ban_threshold_udp_pps s)
       \<or> enable_ban_for_icmp_pps s \<and> pps (counter_icmp c) (ban_threshold_icmp_pps s)
       \<or> enable_ban_for_tcp_bandwidth s \<and> mbps (counter_tcp c) (ban_threshold_tcp_mbps s)
       \<or> enable_ban_for_udp_bandwidth s \<and> mbps (counter_udp c) (ban_threshold_udp_mbps s)
       \<or> enable_ban_for_icmp_bandwidth s \<and> mbps (counter_icmp c) (ban_threshold_icmp_mbps s))"

definition bytes_in_range :: "traffic_counter_element_t \<Rightarrow> bool" where
  "bytes_in_range e \<longleftrightarrow> uint (in_bytes e) < 2 ^ 50 \<and> uint (out_bytes e) < 2 ^ 50"

lemma exceed_exact:
  "exceed_pps_speed (in_packets e) (out_packets e) t = exceeds in_packets out_packets 1 1 e t"
  "exceed_flow_speed i out t \<longleftrightarrow> uint i > uint t \<or> uint out > uint t"
  "bytes_in_range e \<Longrightarrow> exceed_mbps_speed (in_bytes e) (out_bytes e) t = exceeds in_bytes out_bytes 8 (10 ^ 6) e t"
proof -
  have wide: "uint (ucast t :: u64) = uint t" for t :: u32
    by (simp add: uint_up_ucast is_up)
  show "exceed_pps_speed (in_packets e) (out_packets e) t = exceeds in_packets out_packets 1 1 e t"
    "exceed_flow_speed i out t \<longleftrightarrow> uint i > uint t \<or> uint out > uint t"
    unfolding exceed_pps_speed_def exceed_flow_speed_def exceeds_def word_less_def wide by simp_all
  show "exceed_mbps_speed (in_bytes e) (out_bytes e) t = exceeds in_bytes out_bytes 8 (10 ^ 6) e t" if "bytes_in_range e"
    using that mbps_exact [of "in_bytes e"] mbps_exact [of "out_bytes e"]
    unfolding exceed_mbps_speed_def exceeds_def word_less_def wide bytes_in_range_def by simp
qed

text \<open>
  C40. Below \<open>2 ^ 50\<close> bytes per second the decision is the one of exact arithmetic: the floating point conversion to
  megabits neither hides an attack nor invents one.
\<close>

theorem ban_decision_exact:
  assumes "bytes_in_range (counter_total c)" "bytes_in_range (counter_tcp c)" "bytes_in_range (counter_udp c)"
    "bytes_in_range (counter_icmp c)"
  shows "fst (we_should_ban_this_entity c s) \<longleftrightarrow> attack_in_exact_arithmetic c s"
  using within_limits_iff [of s c] unfolding within_limits_def exceed_exact(3) [OF assms(1)] exceed_exact(3) [OF assms(2)]
    exceed_exact(3) [OF assms(3)] exceed_exact(3) [OF assms(4)] exceed_exact(1,2) attack_in_exact_arithmetic_def Let_def
  by argo

theorem ban_decision_exact_witness:
  "fst (we_should_ban_this_entity (subnet_counter_default\<lparr>counter_total := counter_element_zero\<lparr>in_bytes := 125125000\<rparr>\<rparr>)
     (ban_settings_default\<lparr>enable_ban_for_bandwidth := True, ban_threshold_mbps := 1000\<rparr>))"
  using ban_decision_exact [of "subnet_counter_default\<lparr>counter_total := counter_element_zero\<lparr>in_bytes := 125125000\<rparr>\<rparr>"
      "ban_settings_default\<lparr>enable_ban_for_bandwidth := True, ban_threshold_mbps := 1000\<rparr>"]
  by (simp add: bytes_in_range_def attack_in_exact_arithmetic_def exceeds_def subnet_counter_default_def
      counter_element_zero_def ban_settings_default_def)

text \<open>The protocol of an attack is the largest one, but only below \<open>2 ^ 32\<close> packets per second.\<close>

lemma max_used_protocol_correct:
  assumes "tcp < 2 ^ 32" "udp < 2 ^ 32" "icmp < 2 ^ 32"
  shows "get_max_used_protocol tcp udp icmp =
    (if udp \<le> tcp \<and> icmp \<le> tcp then 6 else if tcp \<le> udp \<and> icmp \<le> udp then 17 else 1)"
proof -
  have cut: "ucast (ucast x :: u32) = x" if "x < 2 ^ 32" for x :: u64
  proof (rule word_uint_eqI)
    have "uint x < 2 ^ 32"
      using that by (simp add: word_less_def)
    then show "uint (ucast (ucast x :: u32) :: u64) = uint x"
      by (simp add: uint_up_ucast is_up unsigned_ucast_eq unsigned_take_bit_eq take_bit_int_eq_self)
  qed
  show ?thesis
    using assms by (auto simp: get_max_used_protocol_def Let_def cut)
qed

lemma max_used_protocol_cut: "get_max_used_protocol 0 (2 ^ 32) 0 = 6"
  by (simp add: get_max_used_protocol_def Let_def)

section \<open>One recalculation\<close>

lemma element_at_update:
  "element_at (AList.update k c m) k' = (if k' = k then c else element_at m k')"
  by (simp add: element_at_def update_conv')

lemma recalculate_loop_step:
  assumes "recalculate_loop f e period ((key, c) # rest) av = Done (cs', av', checks)"
  obtains m m' a cs'' checks' where
    "build_speed_counters_from_packet_counters period c subnet_counter_default = Done m" "f key m = Done m'"
    "build_average_speed_counters_from_speed_counters e m' (element_at av key) = Done a"
    "recalculate_loop f e period rest (AList.update key a av) = Done (cs'', av', checks')"
    "cs' = (key, counter_zeroify c) # cs''" "checks = (key, a) # checks'"
  using assms by (auto simp: and_then_Done_iff split: prod.splits)

lemma recalculate_loop_others:
  "recalculate_loop f e period cs av = Done (cs', av', checks) \<Longrightarrow> k \<notin> fst ` set cs \<Longrightarrow> map_of av' k = map_of av k"
proof (induction cs arbitrary: av cs' checks)
  case (Cons kc cs)
  obtain key c where kc: "kc = (key, c)"
    by (cases kc)
  from Cons.prems(1) [unfolded kc] show ?case
    by (rule recalculate_loop_step) (use Cons.IH Cons.prems(2) kc in \<open>auto simp: update_conv'\<close>)
qed simp

lemma recalculate_loop_each:
  "recalculate_loop f e period cs av = Done (cs', av', checks) \<Longrightarrow> distinct (map fst cs) \<Longrightarrow> (k, c) \<in> set cs \<Longrightarrow>
    \<exists>m m' a. build_speed_counters_from_packet_counters period c subnet_counter_default = Done m \<and> f k m = Done m'
      \<and> build_average_speed_counters_from_speed_counters e m' (element_at av k) = Done a
      \<and> map_of av' k = Some a \<and> map_of checks k = Some a"
proof (induction cs arbitrary: av cs' checks)
  case (Cons kc cs)
  obtain key d where kc: "kc = (key, d)"
    by (cases kc)
  from Cons.prems(1) [unfolded kc] obtain m m' a cs'' checks' where step:
    "build_speed_counters_from_packet_counters period d subnet_counter_default = Done m" "f key m = Done m'"
    "build_average_speed_counters_from_speed_counters e m' (element_at av key) = Done a"
    "recalculate_loop f e period cs (AList.update key a av) = Done (cs'', av', checks')"
    "cs' = (key, counter_zeroify d) # cs''" "checks = (key, a) # checks'"
    by (rule recalculate_loop_step)
  show ?case
  proof (cases "k = key")
    case True
    then have "c = d" "key \<notin> fst ` set cs"
      using Cons.prems(2,3) kc by (auto simp: rev_image_eqI)
    then show ?thesis
      using step recalculate_loop_others [OF step(4)] True by (auto simp: update_conv')
  next
    case False
    then show ?thesis
      using Cons.IH [OF step(4)] Cons.prems(2,3) kc step(6) by (auto simp: element_at_update)
  qed
qed simp

lemma recalculate_loop_shape:
  "recalculate_loop f e period cs av = Done (cs', av', checks) \<Longrightarrow>
    cs' = map (\<lambda>(k, c). (k, counter_zeroify c)) cs \<and> map fst checks = map fst cs"
proof (induction cs arbitrary: av cs' checks)
  case (Cons kc cs)
  obtain key d where kc: "kc = (key, d)"
    by (cases kc)
  from Cons.prems(1) [unfolded kc] show ?case
    by (rule recalculate_loop_step) (use Cons.IH kc in auto)
qed simp

text \<open>
  A recalculation visits every counted key once: its speed over the period enters its average, the average is handed
  to the check, and its counters start again at zero.
\<close>

lemma recalculate_speed_each:
  assumes "recalculate_speed f e period s = Done (s', checks)" "distinct (map fst (counter_map s))" "(k, c) \<in> set (counter_map s)"
  shows "\<exists>m m' a. build_speed_counters_from_packet_counters period c subnet_counter_default = Done m \<and> f k m = Done m'
      \<and> build_average_speed_counters_from_speed_counters e m' (element_at (average_speed_map s) k) = Done a
      \<and> get_average_speed k s' = Some a \<and> (k, a) \<in> set checks \<and> (k, counter_zeroify c) \<in> set (counter_map s')"
proof -
  obtain counters av where loop: "recalculate_loop f e period (counter_map s) (average_speed_map s) = Done (counters, av, checks)"
    and s': "s' = s\<lparr>counter_map := counters, average_speed_map := av\<rparr>"
    using assms(1) by (auto simp: recalculate_speed_def and_then_Done_iff split: prod.splits)
  have "(k, counter_zeroify c) \<in> set counters"
    using recalculate_loop_shape [OF loop] assms(3) by (auto simp: rev_image_eqI)
  then show ?thesis
    using recalculate_loop_each [OF loop assms(2,3)] map_of_SomeD [of checks k]
    by (auto simp: s' get_average_speed_def)
qed

text \<open>
  The counters of a host are exact: after any sequence of packets every counter has grown by the packets and bytes
  of exactly the packets of its direction and class, modulo \<open>2 ^ 64\<close>.
\<close>

lemma traffic_counted_exactly:
  "list_all (\<lambda>(field, counts).
     in_packets (field (fold (count_event now) es c)) =
       in_packets (field c) + (\<Sum>(is_incoming, p, packets, bytes)\<leftarrow>es. if is_incoming \<and> counts p then packets else 0)
   \<and> in_bytes (field (fold (count_event now) es c)) =
       in_bytes (field c) + (\<Sum>(is_incoming, p, packets, bytes)\<leftarrow>es. if is_incoming \<and> counts p then bytes else 0)
   \<and> out_packets (field (fold (count_event now) es c)) =
       out_packets (field c) + (\<Sum>(is_incoming, p, packets, bytes)\<leftarrow>es. if \<not> is_incoming \<and> counts p then packets else 0)
   \<and> out_bytes (field (fold (count_event now) es c)) =
       out_bytes (field c) + (\<Sum>(is_incoming, p, packets, bytes)\<leftarrow>es. if \<not> is_incoming \<and> counts p then bytes else 0))
   traffic_classes"
  unfolding list_all_iff using count_fold by (intro ballI) (simp only: split_paired_all prod.case)

end
