(* ===== verification/Ban_Manager.thy ===== *)
theory Ban_Manager
  imports Packet_Buckets Ban_List Detection_Spec Mitigation
begin

text \<open>
  The ban manager (\<^verbatim>\<open>src/fastnetmon_logic.cpp\<close>): what happens to a host whose average speed exceeds a
  threshold, from the capture of its packets over the ban and the refresh of its FlowSpec rules to the end of the ban.
  The operations are given here as they run alone; Ban_Runs interleaves them.
\<close>

section \<open>State\<close>

text \<open>
  The global variables the functions read and never write. The two lookups stand for the Patricia trees of
  networks and of the whitelist, the last two are parameters of the GoBGP handlers.
\<close>

record ban_environment =
  ban_config :: ban_configuration
  unban_enabled_option :: bool
  global_ban_time :: int
  unban_only_if_attack_finished :: bool
  gobgp_config :: gobgp_configuration
  lookup_tree_ipv4 :: "u32 \<Rightarrow> subnet_cidr_mask_t option"
  whitelist_tree_ipv4 :: "u32 \<Rightarrow> bool"
  community_split :: "string \<Rightarrow> string \<Rightarrow> string list"
  ipv6_reader :: "string \<Rightarrow> bytes option"

record ban_manager =
  ipv4_host_counters :: "u32 abstract_subnet_counters_t"
  ban_list_ipv4 :: "u32 blackhole_ban_list_t"
  packet_buckets_ipv4_storage :: "u32 packet_buckets_storage_t"
  gobgp_flowspec_refresh_last_capture_time :: "(u32, int) std_map"
  mitigation :: system

section \<open>Detection\<close>

text \<open>The network of a host, the default one when the lookup fails, and its settings.\<close>

definition lookup_ip_in_integer_form_inpatricia_and_return_subnet_if_found ::
    "ban_environment \<Rightarrow> u32 \<Rightarrow> subnet_cidr_mask_t" where
  "lookup_ip_in_integer_form_inpatricia_and_return_subnet_if_found env client_ip =
     (case lookup_tree_ipv4 env client_ip of Some subnet \<Rightarrow> subnet | None \<Rightarrow> subnet_cidr_mask 0 0)"

definition settings_of_host :: "ban_environment \<Rightarrow> u32 \<Rightarrow> string \<times> ban_settings_t" where
  "settings_of_host env client_ip =
     get_ban_settings_for_this_subnet (ban_config env)
       (lookup_ip_in_integer_form_inpatricia_and_return_subnet_if_found env client_ip)"

text \<open>The part of the callback before its checks of the shared state: must the host be blocked?\<close>

definition host_exceeds_thresholds :: "ban_environment \<Rightarrow> u32 \<Rightarrow> subnet_counter_t \<Rightarrow> bool" where
  "host_exceeds_thresholds env client_ip speed_element =
     (enable_ban (global_ban_settings (ban_config env)) \<and> enable_ban (snd (settings_of_host env client_ip))
      \<and> fst (we_should_ban_this_entity speed_element (snd (settings_of_host env client_ip)))
      \<and> \<not> whitelist_tree_ipv4 env client_ip)"

definition detected_attack :: "ban_environment \<Rightarrow> int \<Rightarrow> u32 \<Rightarrow> subnet_counter_t \<Rightarrow> attack_details_t outcome" where
  "detected_attack env now client_ip speed_element =
     (let (host_group_name, settings) = settings_of_host env client_ip;
          (should_block, threshold, direction) = we_should_ban_this_entity speed_element settings;
          a = attack_details_default\<lparr>traffic_counters := speed_element, attack_detection_direction := direction,
                attack_detection_threshold := threshold\<rparr>
      in and_then (fill_attack_information now host_group_name [] (unban_enabled_option env) (global_ban_time env) a)
           (\<lambda>a. Done (a\<lparr>customer_network := lookup_ip_in_integer_form_inpatricia_and_return_subnet_if_found env client_ip\<rparr>)))"

definition speed_calculation_callback_local_ipv4 ::
    "ban_environment \<Rightarrow> int \<Rightarrow> int \<Rightarrow> u32 \<Rightarrow> subnet_counter_t \<Rightarrow> ban_manager \<Rightarrow> ban_manager outcome" where
  "speed_calculation_callback_local_ipv4 env now clock client_ip speed_element s =
     (if \<not> host_exceeds_thresholds env client_ip speed_element then Done s
      else if we_have_bucket_for_this_ip client_ip (packet_buckets_ipv4_storage s) then Done s
      else if is_blackholed client_ip (ban_list_ipv4 s) then Done s
      else and_then (detected_attack env now client_ip speed_element) (\<lambda>attack_details.
        Done (s\<lparr>packet_buckets_ipv4_storage :=
          snd (enable_packet_capture clock client_ip attack_details ONCE (packet_buckets_ipv4_storage s))\<rparr>)))"

definition attack_is_finished :: "ban_environment \<Rightarrow> u32 abstract_subnet_counters_t \<Rightarrow> u32 \<Rightarrow> bool" where
  "attack_is_finished env host_counters client_ip =
     (case get_average_speed client_ip host_counters of
        None \<Rightarrow> True
      | Some average_speed_element \<Rightarrow>
          \<not> fst (we_should_ban_this_entity average_speed_element (snd (settings_of_host env client_ip))))"

section \<open>Actions\<close>

text \<open>
  The GoBGP part of \<^verbatim>\<open>call_blackhole_actions_per_host\<close>, which starts a thread; the scripts, reports and
  databases it also feeds only receive data. Every caller passes an automatic detection source, the API too.
\<close>

definition automatic_classifier :: "gobgp_configuration \<Rightarrow> bool \<Rightarrow> u32 \<Rightarrow> attack_details_t \<Rightarrow> simple_packet_t list
    \<Rightarrow> gobgp_flowspec_port_classifier_result_t option" where
  "automatic_classifier c is_ban client_ip current_attack simple_packets_buffer =
     (if is_ban \<and> attack_direction current_attack = INCOMING \<and> gobgp_flowspec c \<and> gobgp_flowspec_port_detection c
      then Some (classify_gobgp_flowspec_destination_port client_ip current_attack simple_packets_buffer
             \<lparr>min_samples = gobgp_flowspec_port_min_samples c, config_dominance_percent = gobgp_flowspec_port_dominance_percent c\<rparr>)
      else None)"

definition zero_ipv6_address :: subnet_ipv6_cidr_mask_t where
  "zero_ipv6_address = subnet_ipv6_default"

definition call_blackhole_actions_per_host ::
    "ban_environment \<Rightarrow> bool \<Rightarrow> u32 \<Rightarrow> attack_details_t \<Rightarrow> simple_packet_t list \<Rightarrow> system \<Rightarrow> system" where
  "call_blackhole_actions_per_host env is_ban client_ip current_attack simple_packets_buffer sys =
     (let c = gobgp_config env; classifier_result = automatic_classifier c is_ban client_ip current_attack simple_packets_buffer
      in if gobgp c
         then sys\<lparr>threads := threads sys @ [gobgp_ban_manage (community_split env) (ipv6_reader env) c
                (if is_ban then ''ban'' else ''unban'') False client_ip zero_ipv6_address current_attack
                (Option.bind classifier_result selected_destination_port) classifier_result]\<rparr>
         else sys)"

definition execute_ipv4_ban :: "ban_environment \<Rightarrow> u32 \<Rightarrow> attack_details_t \<Rightarrow> simple_packet_t list \<Rightarrow> ban_manager \<Rightarrow> ban_manager" where
  "execute_ipv4_ban env client_ip current_attack simple_packets_buffer s =
     s\<lparr>ban_list_ipv4 := add_to_blackhole client_ip current_attack (ban_list_ipv4 s),
       mitigation := call_blackhole_actions_per_host env True client_ip current_attack simple_packets_buffer (mitigation s)\<rparr>"

section \<open>End of a ban\<close>

text \<open>\<^verbatim>\<open>difftime\<close> returns a \<^verbatim>\<open>double\<close>.\<close>

definition difftime :: "int \<Rightarrow> int \<Rightarrow> rat" where
  "difftime end_time start_time = to_double (of_int (end_time - start_time))"

definition we_could_unban_this_ip :: "ban_environment \<Rightarrow> int \<Rightarrow> u32 abstract_subnet_counters_t \<Rightarrow> u32 \<times> attack_details_t \<Rightarrow> bool" where
  "we_could_unban_this_ip env current_time host_counters = (\<lambda>(client_ip, a).
     unban_enabled a \<and> attack_detection_source a \<noteq> Manual
     \<and> difftime current_time (ban_timestamp a) > of_int (ban_time a)
     \<and> (unban_only_if_attack_finished env \<longrightarrow> attack_is_finished env host_counters client_ip))"

definition execute_unban_operation_ipv4 :: "ban_environment \<Rightarrow> int \<Rightarrow> ban_manager \<Rightarrow> ban_manager" where
  "execute_unban_operation_ipv4 env current_time s =
     (let ban_list_copy = get_whole_banlist (ban_list_ipv4 s) [];
          ban_list_items_for_erase = filter (we_could_unban_this_ip env current_time (ipv4_host_counters s)) ban_list_copy
      in s\<lparr>mitigation := fold (\<lambda>(client_ip, a). call_blackhole_actions_per_host env False client_ip a []) ban_list_items_for_erase (mitigation s),
           ban_list_ipv4 := fold (\<lambda>(client_ip, a). remove_from_blackhole client_ip) ban_list_items_for_erase (ban_list_ipv4 s)\<rparr>)"

section \<open>Refresh of FlowSpec rules\<close>

definition get_gobgp_flowspec_protocol_admission_snapshot ::
    "ban_environment \<Rightarrow> u32 abstract_subnet_counters_t \<Rightarrow> u32 \<Rightarrow> gobgp_flowspec_protocol_admission_snapshot_t option" where
  "get_gobgp_flowspec_protocol_admission_snapshot env host_counters victim_ipv4 =
     (case get_average_speed victim_ipv4 host_counters of
        None \<Rightarrow> None
      | Some current_speed \<Rightarrow>
          let (host_group_name, settings) = settings_of_host env victim_ipv4
          in Some \<lparr>snapshot_victim_ipv4 = victim_ipv4, snapshot_host_group_name = host_group_name,
               total_in_pps = in_packets (counter_total current_speed), tcp_in_pps = in_packets (counter_tcp current_speed),
               udp_in_pps = in_packets (counter_udp current_speed), icmp_in_pps = in_packets (counter_icmp current_speed),
               tcp_pps_enabled = enable_ban_for_tcp_pps settings, tcp_pps_threshold = ban_threshold_tcp_pps settings,
               udp_pps_enabled = enable_ban_for_udp_pps settings, udp_pps_threshold = ban_threshold_udp_pps settings,
               icmp_pps_enabled = enable_ban_for_icmp_pps settings, icmp_pps_threshold = ban_threshold_icmp_pps settings\<rparr>)"

definition refresh_active :: "ban_environment \<Rightarrow> bool" where
  "refresh_active env \<longleftrightarrow> gobgp (gobgp_config env) \<and> gobgp_flowspec (gobgp_config env) \<and> gobgp_flowspec_rule_refresh (gobgp_config env)"

definition active_protocols_of :: "ban_environment \<Rightarrow> u32 abstract_subnet_counters_t \<Rightarrow> u32 \<Rightarrow> ip_protocol_t list" where
  "active_protocols_of env host_counters victim_ipv4 =
     (case get_gobgp_flowspec_protocol_admission_snapshot env host_counters victim_ipv4 of
        None \<Rightarrow> []
      | Some snapshot \<Rightarrow> get_gobgp_flowspec_active_protocols snapshot)"

text \<open>The classification of a finished capture; no result means that the capture is only completed.\<close>

definition refresh_results :: "ban_environment \<Rightarrow> u32 abstract_subnet_counters_t \<Rightarrow> u32 \<Rightarrow> simple_packet_t list
    \<Rightarrow> gobgp_flowspec_refresh_protocol_result_t list" where
  "refresh_results env host_counters victim_ipv4 packet_samples =
     (let c = gobgp_config env;
          active_protocols = active_protocols_of env host_counters victim_ipv4;
          active_protocols = (if gobgp_flowspec_port_detection c then active_protocols
                              else filter (\<lambda>p. p \<noteq> TCP \<and> p \<noteq> UDP) active_protocols)
      in classify_gobgp_flowspec_refresh_protocols victim_ipv4 active_protocols packet_samples
           \<lparr>min_samples = gobgp_flowspec_port_min_samples c, config_dominance_percent = gobgp_flowspec_port_dominance_percent c\<rparr>
           (gobgp_flowspec_refresh_port_min_share_percent c))"

definition finish_capture :: "u32 \<Rightarrow> system \<Rightarrow> system" where
  "finish_capture victim_ipv4 sys =
     sys\<lparr>sys_lifecycle := gobgp_flowspec_refresh_complete_ipv4_capture victim_ipv4 (sys_lifecycle sys)\<rparr>"

definition start_refresh_thread :: "ban_environment \<Rightarrow> u32 \<Rightarrow> gobgp_flowspec_refresh_protocol_result_t list \<Rightarrow> system \<Rightarrow> system" where
  "start_refresh_thread env victim_ipv4 protocol_results sys =
     sys\<lparr>threads := threads sys @ [gobgp_flowspec_refresh_manage_ipv4 (gobgp_config env) victim_ipv4 protocol_results]\<rparr>"

definition gobgp_flowspec_refresh_process_ipv4_capture ::
    "ban_environment \<Rightarrow> u32 \<Rightarrow> simple_packet_t list \<Rightarrow> ban_manager \<Rightarrow> ban_manager" where
  "gobgp_flowspec_refresh_process_ipv4_capture env victim_ipv4 packet_samples s =
     (if \<not> refresh_active env then s
      else let protocol_results = refresh_results env (ipv4_host_counters s) victim_ipv4 packet_samples
           in s\<lparr>mitigation := (if protocol_results = [] then finish_capture victim_ipv4
                                else start_refresh_thread env victim_ipv4 protocol_results) (mitigation s)\<rparr>)"

text \<open>The captures of victims that are no longer banned are forgotten.\<close>

definition prune_last_captures :: "u32 blackhole_ban_list_t \<Rightarrow> (u32, int) std_map \<Rightarrow> (u32, int) std_map" where
  "prune_last_captures active_bans m = filter (\<lambda>e. map_find active_bans (fst e) \<noteq> None) m"

text \<open>Undefined when the clock went back behind the last capture: the negative difference has no unsigned value.\<close>

definition captured_recently :: "ban_environment \<Rightarrow> int \<Rightarrow> (u32, int) std_map \<Rightarrow> u32 \<Rightarrow> bool outcome" where
  "captured_recently env current_time m victim_ipv4 =
     (case map_find m victim_ipv4 of
        None \<Rightarrow> Done False
      | Some last_time \<Rightarrow> and_then (to_uint64 (difftime current_time last_time)) (\<lambda>elapsed.
          Done (elapsed < gobgp_flowspec_rule_refresh_interval (gobgp_config env))))"

definition schedule_victim :: "ban_environment \<Rightarrow> int \<Rightarrow> int \<Rightarrow> u32 \<times> attack_details_t \<Rightarrow> ban_manager \<Rightarrow> ban_manager outcome" where
  "schedule_victim env current_time clock = (\<lambda>(victim_ipv4, ban_details) s.
     and_then (captured_recently env current_time (gobgp_flowspec_refresh_last_capture_time s) victim_ipv4) (\<lambda>recently. Done
       (if recently \<or> we_have_bucket_for_this_ip victim_ipv4 (packet_buckets_ipv4_storage s)
           \<or> active_protocols_of env (ipv4_host_counters s) victim_ipv4 = [] then s
        else let (begun, lc) = gobgp_flowspec_refresh_begin_ipv4_capture victim_ipv4 (sys_lifecycle (mitigation s));
                 s = s\<lparr>mitigation := (mitigation s)\<lparr>sys_lifecycle := lc\<rparr>\<rparr>
             in if \<not> begun then s
                else let (enabled, buckets) = enable_packet_capture clock victim_ipv4 ban_details FLOW_SPEC_REFRESH_ONCE
                           (packet_buckets_ipv4_storage s);
                         s = s\<lparr>packet_buckets_ipv4_storage := buckets\<rparr>
                     in if enabled
                        then s\<lparr>gobgp_flowspec_refresh_last_capture_time :=
                               map_put victim_ipv4 current_time (gobgp_flowspec_refresh_last_capture_time s)\<rparr>
                        else s\<lparr>mitigation := finish_capture victim_ipv4 (mitigation s)\<rparr>)))"

fun schedule_victims :: "ban_environment \<Rightarrow> int \<Rightarrow> int \<Rightarrow> u32 blackhole_ban_list_t \<Rightarrow> ban_manager \<Rightarrow> ban_manager outcome" where
  "schedule_victims env current_time clock [] s = Done s"
| "schedule_victims env current_time clock (e # rest) s =
     and_then (schedule_victim env current_time clock e s) (schedule_victims env current_time clock rest)"

definition schedule_gobgp_flowspec_refresh_captures :: "ban_environment \<Rightarrow> int \<Rightarrow> int \<Rightarrow> ban_manager \<Rightarrow> ban_manager outcome" where
  "schedule_gobgp_flowspec_refresh_captures env current_time clock s =
     (if \<not> refresh_active env then Done s
      else let active_bans = get_whole_banlist (ban_list_ipv4 s) []
           in schedule_victims env current_time clock active_bans
                (s\<lparr>gobgp_flowspec_refresh_last_capture_time :=
                   prune_last_captures active_bans (gobgp_flowspec_refresh_last_capture_time s)\<rparr>))"

section \<open>Filled buckets\<close>

definition bucket_is_filled :: "packet_bucket_t \<Rightarrow> bool" where
  "bucket_is_filled b \<longleftrightarrow> is_one_shot_collection_pattern (collection_pattern b)
     \<and> we_collected_full_buffer_least_once b \<and> \<not> is_already_processed b"

text \<open>
  A filled bucket bans its host, or is taken out for the refresh. The flows of the host, which the program prints for
  the reports of the ban, are in Flow_Tracking.
\<close>

definition process_filled_bucket :: "ban_environment \<Rightarrow> u32 \<times> packet_bucket_t \<Rightarrow> ban_manager \<Rightarrow> ban_manager" where
  "process_filled_bucket env = (\<lambda>(client_ip, bucket) s.
     let s = (if collection_pattern bucket = FLOW_SPEC_REFRESH_ONCE then s
              else execute_ipv4_ban env client_ip (bucket_attack_details bucket)
                     (buffer_items (parsed_packets_circular_buffer bucket)) s)
     in s\<lparr>packet_buckets_ipv4_storage := remove_packet_capture_for_ip client_ip (packet_buckets_ipv4_storage s)\<rparr>)"

definition process_filled_buckets_ipv4 :: "ban_environment \<Rightarrow> ban_manager \<Rightarrow> ban_manager" where
  "process_filled_buckets_ipv4 env s =
     (let filled_buckets = filter (\<lambda>(client_ip, b). bucket_is_filled b) (packet_buckets_map (packet_buckets_ipv4_storage s));
          refresh_buckets = filter (\<lambda>(client_ip, b). collection_pattern b = FLOW_SPEC_REFRESH_ONCE) filled_buckets;
          s = fold (process_filled_bucket env) filled_buckets s
      in fold (\<lambda>(client_ip, b). gobgp_flowspec_refresh_process_ipv4_capture env client_ip
                (buffer_items (parsed_packets_circular_buffer b))) refresh_buckets s)"

text \<open>Orphaned captures of a refresh are completed.\<close>

definition remove_orphaned_buckets_ipv4 :: "int \<Rightarrow> ban_manager \<Rightarrow> ban_manager" where
  "remove_orphaned_buckets_ipv4 clock s =
     (let (removed, buckets) = remove_orphaned_buckets clock (packet_buckets_ipv4_storage s)
      in s\<lparr>packet_buckets_ipv4_storage := buckets,
           mitigation := fold (\<lambda>(client_ip, b). if collection_pattern b = FLOW_SPEC_REFRESH_ONCE then finish_capture client_ip else id)
             removed (mitigation s)\<rparr>)"

section \<open>What the operations achieve\<close>

text \<open>The comparison of the elapsed time with the length of the ban is exact.\<close>

lemma difftime_greater:
  assumes "\<bar>n\<bar> < 2 ^ 52"
  shows "of_int n < difftime end_time start_time \<longleftrightarrow> start_time + n < end_time"
proof
  have small: "\<bar>n\<bar> < 2 ^ 53" "\<bar>n + 1\<bar> < 2 ^ 53"
    using assms by auto
  show "start_time + n < end_time" if later: "of_int n < difftime end_time start_time"
  proof (rule ccontr)
    assume "\<not> start_time + n < end_time"
    then have "(of_int (end_time - start_time) :: rat) \<le> of_int n"
      unfolding of_int_le_iff by simp
    then have "difftime end_time start_time \<le> of_int n"
      unfolding difftime_def using to_double_mono to_double_int [OF small(1)] by metis
    with later show False
      by simp
  qed
  show "of_int n < difftime end_time start_time" if "start_time + n < end_time"
  proof -
    have "(of_int (n + 1) :: rat) \<le> of_int (end_time - start_time)"
      using that unfolding of_int_le_iff by simp
    then have "of_int (n + 1) \<le> difftime end_time start_time"
      unfolding difftime_def using to_double_mono to_double_int [OF small(2)] by metis
    then show ?thesis
      by simp
  qed
qed

text \<open>The thread one call of the actions starts.\<close>

definition action_thread :: "ban_environment \<Rightarrow> bool \<Rightarrow> u32 \<Rightarrow> attack_details_t \<Rightarrow> simple_packet_t list \<Rightarrow> task list list" where
  "action_thread env is_ban client_ip a samples =
     (if \<not> gobgp (gobgp_config env) then []
      else let cl = automatic_classifier (gobgp_config env) is_ban client_ip a samples
           in [gobgp_ban_manage (community_split env) (ipv6_reader env) (gobgp_config env) (if is_ban then ''ban'' else ''unban'')
                False client_ip zero_ipv6_address a (Option.bind cl selected_destination_port) cl])"

lemma actions_start_thread:
  "call_blackhole_actions_per_host env is_ban client_ip a samples sys =
     sys\<lparr>threads := threads sys @ action_thread env is_ban client_ip a samples\<rparr>"
  by (simp add: call_blackhole_actions_per_host_def action_thread_def Let_def)

lemma flowspec_action_thread:
  assumes "gobgp (gobgp_config env)" "gobgp_flowspec (gobgp_config env)"
  shows "action_thread env is_ban client_ip a samples =
    [if is_ban then [ban_task client_ip a (Option.bind (automatic_classifier (gobgp_config env) True client_ip a samples) selected_destination_port)
                       (automatic_classifier (gobgp_config env) True client_ip a samples)]
     else [unban_task client_ip]]"
  using assms by (simp add: action_thread_def Let_def gobgp_ban_manage_def gobgp_ban_manage_ipv4_def gobgp_ban_manage_flowspec_ipv4_def)

lemma fold_actions:
  "fold (\<lambda>(client_ip, a). call_blackhole_actions_per_host env is_ban client_ip a samples) es sys =
     sys\<lparr>threads := threads sys @ concat (map (\<lambda>(client_ip, a). action_thread env is_ban client_ip a samples) es)\<rparr>"
proof (induction es arbitrary: sys)
  case (Cons e es)
  then show ?case
    by (cases e) (simp add: actions_start_thread)
qed simp

lemma fold_remove:
  "fold (\<lambda>(client_ip, a). remove_from_blackhole client_ip) es l = filter (\<lambda>e. fst e \<notin> fst ` set es) l"
proof (induction es arbitrary: l)
  case (Cons e es)
  then show ?case
    by (cases e) (auto simp: remove_from_blackhole_def map_erase_def intro: filter_cong)
qed simp

lemma filter_not_in_filter:
  assumes "ordered l" shows "filter (\<lambda>e. fst e \<notin> fst ` set (filter P l)) l = filter (\<lambda>e. \<not> P e) l"
proof (rule filter_cong [OF refl])
  fix e assume e: "e \<in> set l"
  have "e' = e" if "e' \<in> set l" "fst e' = fst e" for e'
    using that e std.distinct_keys [OF assms] by (simp add: distinct_map inj_on_def)
  then have "(\<exists>e' \<in> set l. P e' \<and> fst e = fst e') \<longleftrightarrow> P e"
    using e by metis
  then show "fst e \<notin> fst ` set (filter P l) \<longleftrightarrow> \<not> P e"
    by (simp add: image_iff Bex_def conj_assoc)
qed

text \<open>A ban has run out: it is not permanent, not manual, its time is over and the attack has ended where that matters.\<close>

definition ban_expired :: "ban_environment \<Rightarrow> int \<Rightarrow> u32 abstract_subnet_counters_t \<Rightarrow> u32 \<times> attack_details_t \<Rightarrow> bool" where
  "ban_expired env current_time host_counters = (\<lambda>(client_ip, a).
     unban_enabled a \<and> attack_detection_source a \<noteq> Manual \<and> ban_timestamp a + ban_time a < current_time
     \<and> (unban_only_if_attack_finished env \<longrightarrow> attack_is_finished env host_counters client_ip))"

text \<open>
  C27. Exactly the bans that have run out are lifted: they leave the list in one pass, each of them starts one
  UNBAN thread in the order of the list, and every other ban, capture and thread stays.
\<close>

theorem expired_bans_lifted:
  assumes "ordered (ban_list_ipv4 s)" "list_all (\<lambda>(ip, a). \<bar>ban_time a\<bar> < 2 ^ 31) (ban_list_ipv4 s)"
    "gobgp (gobgp_config env)" "gobgp_flowspec (gobgp_config env)"
  shows "let s' = execute_unban_operation_ipv4 env current_time s; expired = ban_expired env current_time (ipv4_host_counters s)
    in ban_list_ipv4 s' = filter (\<lambda>e. \<not> expired e) (ban_list_ipv4 s)
     \<and> mitigation s' = (mitigation s)\<lparr>threads := threads (mitigation s)
          @ map (\<lambda>(ip, a). [unban_task ip]) (filter expired (ban_list_ipv4 s))\<rparr>
     \<and> packet_buckets_ipv4_storage s' = packet_buckets_ipv4_storage s"
proof -
  have expired: "filter (we_could_unban_this_ip env current_time (ipv4_host_counters s)) (ban_list_ipv4 s) =
      filter (ban_expired env current_time (ipv4_host_counters s)) (ban_list_ipv4 s)"
    using assms(2) by (intro filter_cong [OF refl])
      (auto simp: we_could_unban_this_ip_def ban_expired_def list_all_iff difftime_greater)
  have "concat (map (\<lambda>(ip, a). action_thread env False ip a []) es) = map (\<lambda>(ip, a). [unban_task ip]) es" for es
    using assms(3,4) by (induction es) (auto simp: flowspec_action_thread)
  then show ?thesis
    unfolding execute_unban_operation_ipv4_def Let_def whole_banlist_copy [OF assms(1)] expired fold_actions fold_remove
      filter_not_in_filter [OF assms(1)] by simp
qed

definition example_environment :: ban_environment where
  "example_environment = \<lparr>ban_config = \<lparr>global_ban_settings = ban_settings_default\<lparr>enable_ban := True,
       enable_ban_for_icmp_pps := True, ban_threshold_icmp_pps := 1000\<rparr>, subnet_to_host_groups = Map.empty, host_group_ban_settings_map = Map.empty\<rparr>,
     unban_enabled_option = True, global_ban_time = 60, unban_only_if_attack_finished = False,
     gobgp_config = gobgp_configuration_default\<lparr>gobgp := True, gobgp_flowspec := True, gobgp_flowspec_action := ''discard'',
       gobgp_flowspec_rule_refresh := True\<rparr>,
     lookup_tree_ipv4 = \<lambda>ip. Some (subnet_cidr_mask 131844 24), whitelist_tree_ipv4 = \<lambda>ip. False, community_split = \<lambda>s d. [s], ipv6_reader = \<lambda>s. None\<rparr>"

definition example_manager :: ban_manager where
  "example_manager = \<lparr>ipv4_host_counters = \<lparr>counter_map = [], average_speed_map = []\<rparr>, ban_list_ipv4 = [],
     packet_buckets_ipv4_storage = packet_buckets_storage_default, gobgp_flowspec_refresh_last_capture_time = [],
     mitigation = system_init\<rparr>"

theorem expired_bans_lifted_witness:
  "let s' = execute_unban_operation_ipv4 example_environment 100
      (example_manager\<lparr>ban_list_ipv4 := [(1, attack_details_default\<lparr>ban_time := 60\<rparr>), (2, attack_details_default\<lparr>ban_time := 100\<rparr>)]\<rparr>)
   in ban_list_ipv4 s' = [(2, attack_details_default\<lparr>ban_time := 100\<rparr>)] \<and> threads (mitigation s') = [[unban_task 1]]"
  using expired_bans_lifted [of "example_manager\<lparr>ban_list_ipv4 := [(1, attack_details_default\<lparr>ban_time := 60\<rparr>), (2, attack_details_default\<lparr>ban_time := 100\<rparr>)]\<rparr>"
      example_environment 100]
  by (simp add: example_environment_def example_manager_def ban_expired_def attack_details_default_def Let_def system_init_def)

definition is_attack_bucket :: "u32 \<times> packet_bucket_t \<Rightarrow> bool" where
  "is_attack_bucket e \<longleftrightarrow> collection_pattern (snd e) \<noteq> FLOW_SPEC_REFRESH_ONCE"

definition bucket_samples :: "packet_bucket_t \<Rightarrow> simple_packet_t list" where
  "bucket_samples b = buffer_items (parsed_packets_circular_buffer b)"

text \<open>The thread a finished capture starts for the refresh.\<close>

definition refresh_thread_of :: "ban_environment \<Rightarrow> u32 abstract_subnet_counters_t \<Rightarrow> u32 \<times> packet_bucket_t \<Rightarrow> task list list" where
  "refresh_thread_of env host_counters e =
     (let results = refresh_results env host_counters (fst e) (bucket_samples (snd e))
      in if refresh_active env \<and> results \<noteq> [] then [gobgp_flowspec_refresh_manage_ipv4 (gobgp_config env) (fst e) results] else [])"

lemma fold_filled:
  "fold (process_filled_bucket env) es s =
     s\<lparr>ban_list_ipv4 := fold (\<lambda>e. add_to_blackhole (fst e) (bucket_attack_details (snd e))) (filter is_attack_bucket es) (ban_list_ipv4 s),
       mitigation := (mitigation s)\<lparr>threads := threads (mitigation s)
          @ concat (map (\<lambda>e. action_thread env True (fst e) (bucket_attack_details (snd e)) (bucket_samples (snd e))) (filter is_attack_bucket es))\<rparr>,
       packet_buckets_ipv4_storage := (packet_buckets_ipv4_storage s)\<lparr>packet_buckets_map :=
          filter (\<lambda>e. fst e \<notin> fst ` set es) (packet_buckets_map (packet_buckets_ipv4_storage s))\<rparr>\<rparr>"
proof (induction es arbitrary: s)
  case (Cons e es)
  obtain ip b where e: "e = (ip, b)"
    by (cases e)
  have "filter (\<lambda>e. fst e \<notin> fst ` set es) (map_erase ip m) = filter (\<lambda>e'. fst e' \<notin> fst ` set (e # es)) m" for m :: "(u32, packet_bucket_t) std_map"
    by (auto simp: map_erase_def e intro: filter_cong)
  moreover have "process_filled_bucket env e s =
      s\<lparr>ban_list_ipv4 := (if is_attack_bucket e then add_to_blackhole ip (bucket_attack_details b) else id) (ban_list_ipv4 s),
        mitigation := (mitigation s)\<lparr>threads := threads (mitigation s)
          @ (if is_attack_bucket e then action_thread env True ip (bucket_attack_details b) (bucket_samples b) else [])\<rparr>,
        packet_buckets_ipv4_storage := (packet_buckets_ipv4_storage s)\<lparr>packet_buckets_map :=
          map_erase ip (packet_buckets_map (packet_buckets_ipv4_storage s))\<rparr>\<rparr>"
    by (simp add: e process_filled_bucket_def Let_def is_attack_bucket_def execute_ipv4_ban_def
        remove_packet_capture_for_ip_def actions_start_thread bucket_samples_def)
  ultimately show ?case
    by (simp add: Cons.IH e)
qed simp

lemma fold_refresh:
  fixes es :: "(u32, packet_bucket_t) std_map" and env :: ban_environment
  defines "process \<equiv> \<lambda>(ip, b). gobgp_flowspec_refresh_process_ipv4_capture env ip (buffer_items (parsed_packets_circular_buffer b))"
  shows "\<exists>lc. fold process es s = s\<lparr>mitigation := (mitigation s)\<lparr>sys_lifecycle := lc,
      threads := threads (mitigation s) @ concat (map (refresh_thread_of env (ipv4_host_counters s)) es)\<rparr>\<rparr>"
proof (induction es arbitrary: s)
  case (Cons e es)
  obtain ip b where e: "e = (ip, b)"
    by (cases e)
  have "\<exists>lc. process e s = s\<lparr>mitigation := (mitigation s)\<lparr>sys_lifecycle := lc,
      threads := threads (mitigation s) @ refresh_thread_of env (ipv4_host_counters s) e\<rparr>\<rparr>"
    unfolding e process_def
    by (intro exI [of _ "sys_lifecycle (mitigation (process e s))"])
      (simp add: e process_def gobgp_flowspec_refresh_process_ipv4_capture_def refresh_thread_of_def bucket_samples_def Let_def
        finish_capture_def start_refresh_thread_def)
  then obtain lc where lc: "process e s = s\<lparr>mitigation := (mitigation s)\<lparr>sys_lifecycle := lc,
      threads := threads (mitigation s) @ refresh_thread_of env (ipv4_host_counters s) e\<rparr>\<rparr>"
    by blast
  show ?case
    using Cons.IH [of "process e s"] by (auto simp: lc)
next
  case Nil
  show ?case
    by (intro exI [of _ "sys_lifecycle (mitigation s)"]) simp
qed

lemma fold_add_find:
  "ordered l \<Longrightarrow> distinct (map fst es) \<Longrightarrow> map_find (fold (\<lambda>e. add_to_blackhole (fst e) (f (snd e))) es l) ip =
     (case map_of es ip of Some b \<Rightarrow> Some (f b) | None \<Rightarrow> map_find l ip)"
proof (induction es arbitrary: l)
  case (Cons e es)
  have "map_of es (fst e) = None"
    using Cons.prems(2) by (simp add: map_of_eq_None_iff)
  then show ?case
    using Cons by (cases e) (auto simp: add_to_blackhole_def map_find_put ordered_map_put split: option.split)
qed simp

text \<open>
  C26. Every filled bucket is handled once: the hosts of attacks enter the ban list with their details and start one BAN
  thread each, classified on the captured samples, the finished captures start the refresh, the filled buckets are
  gone, and all other buckets and bans stay.
\<close>

theorem filled_buckets_handled:
  assumes "ordered (packet_buckets_map (packet_buckets_ipv4_storage s))" "ordered (ban_list_ipv4 s)"
    "gobgp (gobgp_config env)" "gobgp_flowspec (gobgp_config env)"
  shows "let s' = process_filled_buckets_ipv4 env s; buckets = packet_buckets_map (packet_buckets_ipv4_storage s);
        filled = filter (\<lambda>e. bucket_is_filled (snd e)) buckets; attacks = filter is_attack_bucket filled
    in packet_buckets_map (packet_buckets_ipv4_storage s') = filter (\<lambda>e. \<not> bucket_is_filled (snd e)) buckets
     \<and> (\<forall>ip. map_find (ban_list_ipv4 s') ip =
          (case map_of attacks ip of Some b \<Rightarrow> Some (bucket_attack_details b) | None \<Rightarrow> map_find (ban_list_ipv4 s) ip))
     \<and> threads (mitigation s') = threads (mitigation s)
          @ map (\<lambda>(ip, b). let cl = automatic_classifier (gobgp_config env) True ip (bucket_attack_details b) (bucket_samples b)
                           in [ban_task ip (bucket_attack_details b) (Option.bind cl selected_destination_port) cl]) attacks
          @ concat (map (refresh_thread_of env (ipv4_host_counters s)) (filter (\<lambda>e. \<not> is_attack_bucket e) filled))"
proof -
  let ?m = "packet_buckets_map (packet_buckets_ipv4_storage s)"
  let ?filled = "filter (\<lambda>e. bucket_is_filled (snd e)) ?m"
  let ?threads = "concat (map (\<lambda>e. action_thread env True (fst e) (bucket_attack_details (snd e)) (bucket_samples (snd e)))
    (filter is_attack_bucket ?filled))"
  have same: "(\<lambda>(client_ip, b). bucket_is_filled b) = (\<lambda>e. bucket_is_filled (snd e))"
    "(\<lambda>(client_ip, b). collection_pattern b = FLOW_SPEC_REFRESH_ONCE) = (\<lambda>e. \<not> is_attack_bucket e)"
    by (auto simp: is_attack_bucket_def)
  have "distinct (map fst (filter is_attack_bucket ?filled))"
    using std.distinct_keys [OF assms(1)] by (simp add: distinct_map_filter)
  note bans = fold_add_find [OF assms(2) this]
  have "?threads = map (\<lambda>(ip, b). let cl = automatic_classifier (gobgp_config env) True ip (bucket_attack_details b) (bucket_samples b)
      in [ban_task ip (bucket_attack_details b) (Option.bind cl selected_destination_port) cl]) (filter is_attack_bucket ?filled)"
    by (induction "filter is_attack_bucket ?filled") (auto simp: flowspec_action_thread [OF assms(3,4)] Let_def)
  moreover obtain lc where "process_filled_buckets_ipv4 env s = (fold (process_filled_bucket env) ?filled s)
      \<lparr>mitigation := (mitigation (fold (process_filled_bucket env) ?filled s))\<lparr>sys_lifecycle := lc,
        threads := threads (mitigation (fold (process_filled_bucket env) ?filled s))
          @ concat (map (refresh_thread_of env (ipv4_host_counters (fold (process_filled_bucket env) ?filled s)))
              (filter (\<lambda>e. \<not> is_attack_bucket e) ?filled))\<rparr>\<rparr>"
    unfolding process_filled_buckets_ipv4_def Let_def same using fold_refresh by blast
  ultimately show ?thesis
    unfolding Let_def using bans [of bucket_attack_details]
    by (simp add: fold_filled filter_not_in_filter [OF assms(1)] del: set_filter)
qed

theorem filled_buckets_handled_witness:
  "let b = new_capture 0 0 attack_details_default ONCE;
       s' = process_filled_buckets_ipv4 example_environment (example_manager\<lparr>packet_buckets_ipv4_storage :=
         \<lparr>buffers_maximum_capacity = 0, packet_buckets_map = [(7, b)]\<rparr>\<rparr>)
   in packet_buckets_map (packet_buckets_ipv4_storage s') = [] \<and> map_find (ban_list_ipv4 s') 7 = Some attack_details_default"
  using filled_buckets_handled [of "example_manager\<lparr>packet_buckets_ipv4_storage :=
      \<lparr>buffers_maximum_capacity = 0, packet_buckets_map = [(7, new_capture 0 0 attack_details_default ONCE)]\<rparr>\<rparr>" example_environment]
  by (simp add: example_environment_def example_manager_def Let_def bucket_is_filled_def new_capture_def set_capacity_def
      packet_bucket_default_def is_attack_bucket_def)

end
