(* ===== verification/Ban_Runs.thy ===== *)
theory Ban_Runs
  imports Ban_Manager Reachability
begin

text \<open>
  The threads of the ban manager over its shared state: the speed calculation with its callback, the thread that
  checks the packet buckets, the thread that cleans up the ban list, the calls of the API, the traffic and the threads
  of the mitigation. A task is what a thread does while it holds one mutex; the mutex of the buckets is held over
  several tasks.
\<close>

section \<open>Tasks\<close>

datatype ban_task =
  callback_bucket_task u32 subnet_counter_t
| callback_ban_task u32 subnet_counter_t
| callback_enable_task u32 subnet_counter_t
| orphans_task
| orphan_task u32
| filled_task
| ban_bucket_task u32
| start_ban_task u32 attack_details_t "simple_packet_t list"
| erase_bucket_task u32
| unlock_task
| refresh_process_task u32 "simple_packet_t list"
| refresh_manage_task u32 "gobgp_flowspec_refresh_protocol_result_t list"
| finish_capture_task u32
| schedule_task
| schedule_victim_task int u32 attack_details_t
| schedule_admit_task int u32 attack_details_t
| schedule_begin_task int u32 attack_details_t
| schedule_enable_task int u32 attack_details_t
| unban_copy_task
| unban_loop_task int "u32 blackhole_ban_list_t" "u32 list"
| start_unban_task u32 attack_details_t
| unban_remove_task u32
| api_ban_task u32
| api_unban_task u32
| api_remove_task u32 attack_details_t

text \<open>The tasks to go on with, whether the mutex of the buckets is held, and the state.\<close>

type_synonym ban_result = "(ban_task list \<times> bool \<times> ban_manager) outcome"

section \<open>The speed thread\<close>

text \<open>\<open>Failed\<close> stands for waiting for the mutex of the buckets.\<close>

definition callback_bucket :: "ban_environment \<Rightarrow> u32 \<Rightarrow> subnet_counter_t \<Rightarrow> bool \<Rightarrow> ban_manager \<Rightarrow> ban_result" where
  "callback_bucket env client_ip speed_element locked s =
     (if \<not> host_exceeds_thresholds env client_ip speed_element then Done ([], locked, s)
      else if locked then Failed
      else Done (if we_have_bucket_for_this_ip client_ip (packet_buckets_ipv4_storage s) then []
                 else [callback_ban_task client_ip speed_element], locked, s))"

definition callback_ban :: "u32 \<Rightarrow> subnet_counter_t \<Rightarrow> bool \<Rightarrow> ban_manager \<Rightarrow> ban_result" where
  "callback_ban client_ip speed_element locked s =
     Done (if is_blackholed client_ip (ban_list_ipv4 s) then [] else [callback_enable_task client_ip speed_element], locked, s)"

definition callback_enable :: "ban_environment \<Rightarrow> int \<Rightarrow> int \<Rightarrow> u32 \<Rightarrow> subnet_counter_t \<Rightarrow> bool \<Rightarrow> ban_manager \<Rightarrow> ban_result" where
  "callback_enable env now clock client_ip speed_element locked s =
     (if locked then Failed
      else and_then (detected_attack env now client_ip speed_element) (\<lambda>attack_details.
        Done ([], locked, s\<lparr>packet_buckets_ipv4_storage :=
          snd (enable_packet_capture clock client_ip attack_details ONCE (packet_buckets_ipv4_storage s))\<rparr>)))"

section \<open>The bucket thread\<close>

definition bucket_at :: "u32 \<Rightarrow> ban_manager \<Rightarrow> packet_bucket_t" where
  "bucket_at client_ip s =
     (case map_find (packet_buckets_map (packet_buckets_ipv4_storage s)) client_ip of Some b \<Rightarrow> b | None \<Rightarrow> packet_bucket_default)"

definition erase_bucket :: "u32 \<Rightarrow> ban_manager \<Rightarrow> ban_manager" where
  "erase_bucket client_ip s =
     s\<lparr>packet_buckets_ipv4_storage := remove_packet_capture_for_ip client_ip (packet_buckets_ipv4_storage s)\<rparr>"

definition scan_orphans :: "int \<Rightarrow> bool \<Rightarrow> ban_manager \<Rightarrow> ban_result" where
  "scan_orphans clock locked s =
     (if locked then Failed
      else Done (map (\<lambda>(client_ip, b). orphan_task client_ip)
                   (filter (\<lambda>(client_ip, b). should_remove_orphaned_bucket clock b) (packet_buckets_map (packet_buckets_ipv4_storage s)))
                 @ [unlock_task], True, s))"

definition remove_orphan :: "u32 \<Rightarrow> ban_manager \<Rightarrow> ban_manager" where
  "remove_orphan client_ip s =
     erase_bucket client_ip
       (if collection_pattern (bucket_at client_ip s) = FLOW_SPEC_REFRESH_ONCE
        then s\<lparr>mitigation := finish_capture client_ip (mitigation s)\<rparr> else s)"

definition scan_filled :: "bool \<Rightarrow> ban_manager \<Rightarrow> ban_result" where
  "scan_filled locked s =
     (if locked then Failed
      else let filled = filter (\<lambda>(client_ip, b). bucket_is_filled b) (packet_buckets_map (packet_buckets_ipv4_storage s));
               refresh_buckets = filter (\<lambda>(client_ip, b). collection_pattern b = FLOW_SPEC_REFRESH_ONCE) filled
           in Done (map (\<lambda>(client_ip, b). if collection_pattern b = FLOW_SPEC_REFRESH_ONCE then erase_bucket_task client_ip
                            else ban_bucket_task client_ip) filled
                    @ unlock_task # map (\<lambda>(client_ip, b). refresh_process_task client_ip (bucket_samples b)) refresh_buckets, True, s))"

definition ban_bucket :: "u32 \<Rightarrow> bool \<Rightarrow> ban_manager \<Rightarrow> ban_result" where
  "ban_bucket client_ip locked s =
     (let b = bucket_at client_ip s
      in Done ([start_ban_task client_ip (bucket_attack_details b) (bucket_samples b), erase_bucket_task client_ip], locked,
               s\<lparr>ban_list_ipv4 := add_to_blackhole client_ip (bucket_attack_details b) (ban_list_ipv4 s)\<rparr>))"

definition refresh_process :: "ban_environment \<Rightarrow> u32 \<Rightarrow> simple_packet_t list \<Rightarrow> ban_manager \<Rightarrow> ban_task list" where
  "refresh_process env victim_ipv4 packet_samples s =
     (if \<not> refresh_active env then []
      else let results = refresh_results env (ipv4_host_counters s) victim_ipv4 packet_samples
           in [if results = [] then finish_capture_task victim_ipv4 else refresh_manage_task victim_ipv4 results])"

definition schedule_bans :: "ban_environment \<Rightarrow> int \<Rightarrow> bool \<Rightarrow> ban_manager \<Rightarrow> ban_result" where
  "schedule_bans env current_time locked s =
     (if \<not> refresh_active env then Done ([], locked, s)
      else let active_bans = get_whole_banlist (ban_list_ipv4 s) []
           in Done (map (\<lambda>(victim_ipv4, a). schedule_victim_task current_time victim_ipv4 a) active_bans, locked,
                    s\<lparr>gobgp_flowspec_refresh_last_capture_time :=
                      prune_last_captures active_bans (gobgp_flowspec_refresh_last_capture_time s)\<rparr>))"

definition schedule_check :: "ban_environment \<Rightarrow> int \<Rightarrow> u32 \<Rightarrow> attack_details_t \<Rightarrow> bool \<Rightarrow> ban_manager \<Rightarrow> ban_result" where
  "schedule_check env current_time victim_ipv4 a locked s =
     and_then (captured_recently env current_time (gobgp_flowspec_refresh_last_capture_time s) victim_ipv4) (\<lambda>recently.
       if recently then Done ([], locked, s)
       else if locked then Failed
       else Done (if we_have_bucket_for_this_ip victim_ipv4 (packet_buckets_ipv4_storage s) then []
                  else [schedule_admit_task current_time victim_ipv4 a], locked, s))"

definition schedule_begin :: "int \<Rightarrow> u32 \<Rightarrow> attack_details_t \<Rightarrow> bool \<Rightarrow> ban_manager \<Rightarrow> ban_result" where
  "schedule_begin current_time victim_ipv4 a locked s =
     (let (begun, lc) = gobgp_flowspec_refresh_begin_ipv4_capture victim_ipv4 (sys_lifecycle (mitigation s))
      in Done (if begun then [schedule_enable_task current_time victim_ipv4 a] else [], locked,
               s\<lparr>mitigation := (mitigation s)\<lparr>sys_lifecycle := lc\<rparr>\<rparr>))"

definition schedule_enable :: "int \<Rightarrow> int \<Rightarrow> u32 \<Rightarrow> attack_details_t \<Rightarrow> bool \<Rightarrow> ban_manager \<Rightarrow> ban_result" where
  "schedule_enable clock current_time victim_ipv4 a locked s =
     (if locked then Failed
      else let (enabled, buckets) = enable_packet_capture clock victim_ipv4 a FLOW_SPEC_REFRESH_ONCE (packet_buckets_ipv4_storage s);
               s = s\<lparr>packet_buckets_ipv4_storage := buckets\<rparr>
           in Done (if enabled
                    then ([], locked, s\<lparr>gobgp_flowspec_refresh_last_capture_time :=
                           map_put victim_ipv4 current_time (gobgp_flowspec_refresh_last_capture_time s)\<rparr>)
                    else ([finish_capture_task victim_ipv4], locked, s)))"

section \<open>The cleanup thread and the API\<close>

definition unban_copy :: "int \<Rightarrow> bool \<Rightarrow> ban_manager \<Rightarrow> ban_result" where
  "unban_copy current_time locked s = Done ([unban_loop_task current_time (get_whole_banlist (ban_list_ipv4 s) []) []], locked, s)"

fun unban_loop :: "ban_environment \<Rightarrow> int \<Rightarrow> u32 blackhole_ban_list_t \<Rightarrow> u32 list \<Rightarrow> bool \<Rightarrow> ban_manager \<Rightarrow> ban_result" where
  "unban_loop env current_time [] for_erase locked s = Done (map unban_remove_task for_erase, locked, s)"
| "unban_loop env current_time ((client_ip, a) # rest) for_erase locked s =
     Done (if we_could_unban_this_ip env current_time (ipv4_host_counters s) (client_ip, a)
           then [start_unban_task client_ip a, unban_loop_task current_time rest (for_erase @ [client_ip])]
           else [unban_loop_task current_time rest for_erase], locked, s)"

text \<open>\<^verbatim>\<open>ExecuteBan\<close> and \<^verbatim>\<open>ExecuteUnBan\<close> for a valid IPv4 address; a ban is only accepted for our networks.\<close>

definition manual_attack :: attack_details_t where
  "manual_attack = attack_details_default\<lparr>ipv6 := False, attack_detection_source := Manual\<rparr>"

definition ExecuteBan :: "u32 \<Rightarrow> bool \<Rightarrow> ban_manager \<Rightarrow> ban_result" where
  "ExecuteBan client_ip locked s =
     Done ([start_ban_task client_ip manual_attack []], locked,
       s\<lparr>ban_list_ipv4 := add_to_blackhole client_ip manual_attack (ban_list_ipv4 s)\<rparr>)"

definition ExecuteUnBan :: "u32 \<Rightarrow> bool \<Rightarrow> ban_manager \<Rightarrow> ban_result" where
  "ExecuteUnBan client_ip locked s =
     Done (case get_blackhole_details client_ip (ban_list_ipv4 s) of None \<Rightarrow> [] | Some a \<Rightarrow> [api_remove_task client_ip a], locked, s)"

section \<open>One task\<close>

fun run_ban_task :: "ban_environment \<Rightarrow> int \<Rightarrow> int \<Rightarrow> ban_task \<Rightarrow> bool \<Rightarrow> ban_manager \<Rightarrow> ban_result" where
  "run_ban_task env now clock (callback_bucket_task ip c) locked s = callback_bucket env ip c locked s"
| "run_ban_task env now clock (callback_ban_task ip c) locked s = callback_ban ip c locked s"
| "run_ban_task env now clock (callback_enable_task ip c) locked s = callback_enable env now clock ip c locked s"
| "run_ban_task env now clock orphans_task locked s = scan_orphans clock locked s"
| "run_ban_task env now clock (orphan_task ip) locked s = Done ([], locked, remove_orphan ip s)"
| "run_ban_task env now clock filled_task locked s = scan_filled locked s"
| "run_ban_task env now clock (ban_bucket_task ip) locked s = ban_bucket ip locked s"
| "run_ban_task env now clock (start_ban_task ip a samples) locked s =
     Done ([], locked, s\<lparr>mitigation := call_blackhole_actions_per_host env True ip a samples (mitigation s)\<rparr>)"
| "run_ban_task env now clock (erase_bucket_task ip) locked s = Done ([], locked, erase_bucket ip s)"
| "run_ban_task env now clock unlock_task locked s = Done ([], False, s)"
| "run_ban_task env now clock (refresh_process_task ip samples) locked s = Done (refresh_process env ip samples s, locked, s)"
| "run_ban_task env now clock (refresh_manage_task ip results) locked s =
     Done ([], locked, s\<lparr>mitigation := start_refresh_thread env ip results (mitigation s)\<rparr>)"
| "run_ban_task env now clock (finish_capture_task ip) locked s =
     Done ([], locked, s\<lparr>mitigation := finish_capture ip (mitigation s)\<rparr>)"
| "run_ban_task env now clock schedule_task locked s = schedule_bans env now locked s"
| "run_ban_task env now clock (schedule_victim_task t ip a) locked s = schedule_check env t ip a locked s"
| "run_ban_task env now clock (schedule_admit_task t ip a) locked s =
     Done (if active_protocols_of env (ipv4_host_counters s) ip = [] then [] else [schedule_begin_task t ip a], locked, s)"
| "run_ban_task env now clock (schedule_begin_task t ip a) locked s = schedule_begin t ip a locked s"
| "run_ban_task env now clock (schedule_enable_task t ip a) locked s = schedule_enable clock t ip a locked s"
| "run_ban_task env now clock unban_copy_task locked s = unban_copy now locked s"
| "run_ban_task env now clock (unban_loop_task t rest for_erase) locked s = unban_loop env t rest for_erase locked s"
| "run_ban_task env now clock (start_unban_task ip a) locked s =
     Done ([], locked, s\<lparr>mitigation := call_blackhole_actions_per_host env False ip a [] (mitigation s)\<rparr>)"
| "run_ban_task env now clock (unban_remove_task ip) locked s =
     Done ([], locked, s\<lparr>ban_list_ipv4 := remove_from_blackhole ip (ban_list_ipv4 s)\<rparr>)"
| "run_ban_task env now clock (api_ban_task ip) locked s = ExecuteBan ip locked s"
| "run_ban_task env now clock (api_unban_task ip) locked s = ExecuteUnBan ip locked s"
| "run_ban_task env now clock (api_remove_task ip a) locked s =
     Done ([start_unban_task ip a], locked, s\<lparr>ban_list_ipv4 := remove_from_blackhole ip (ban_list_ipv4 s)\<rparr>)"

section \<open>Runs\<close>

record ban_system =
  manager :: ban_manager
  buckets_locked :: bool
  speed_thread :: "ban_task list"
  buckets_thread :: "ban_task list"
  cleanup_thread :: "ban_task list"
  api_threads :: "ban_task list list"

text \<open>
  The traffic fills buckets and changes the averages in any way; each of the three threads starts another round when
  it has finished one, and hands one host after the other to the callback; \<open>api\<close> tells whether the API is in use.
\<close>

inductive ban_step :: "ban_environment \<Rightarrow> bool \<Rightarrow> ban_system \<Rightarrow> ban_system \<Rightarrow> bool"
  for env :: ban_environment and api :: bool where
  traffic: "\<not> buckets_locked s \<Longrightarrow> add_packet_to_storage clock ip p (packet_buckets_ipv4_storage (manager s)) = Done (added, b)
     \<Longrightarrow> ban_step env api s (s\<lparr>manager := (manager s)\<lparr>packet_buckets_ipv4_storage := b\<rparr>\<rparr>)"
| speeds: "ban_step env api s (s\<lparr>manager := (manager s)\<lparr>ipv4_host_counters := host_counters\<rparr>\<rparr>)"
| speed_round: "speed_thread s = [] \<Longrightarrow> get_average_speed ip (ipv4_host_counters (manager s)) = Some c
     \<Longrightarrow> ban_step env api s (s\<lparr>speed_thread := [callback_bucket_task ip c]\<rparr>)"
| buckets_round: "buckets_thread s = [] \<Longrightarrow> ban_step env api s (s\<lparr>buckets_thread := [orphans_task, filled_task, schedule_task]\<rparr>)"
| cleanup_round: "cleanup_thread s = [] \<Longrightarrow> ban_step env api s (s\<lparr>cleanup_thread := [unban_copy_task]\<rparr>)"
| api_call: "api \<Longrightarrow> (t = api_ban_task ip \<and> lookup_tree_ipv4 env ip \<noteq> None) \<or> t = api_unban_task ip
     \<Longrightarrow> ban_step env api s (s\<lparr>api_threads := api_threads s @ [[t]]\<rparr>)"
| speed_task: "speed_thread s = t # rest \<Longrightarrow> run_ban_task env now clock t (buckets_locked s) (manager s) = Done (tasks, locked, m)
     \<Longrightarrow> ban_step env api s (s\<lparr>manager := m, buckets_locked := locked, speed_thread := tasks @ rest\<rparr>)"
| buckets_task: "buckets_thread s = t # rest \<Longrightarrow> run_ban_task env now clock t (buckets_locked s) (manager s) = Done (tasks, locked, m)
     \<Longrightarrow> ban_step env api s (s\<lparr>manager := m, buckets_locked := locked, buckets_thread := tasks @ rest\<rparr>)"
| cleanup_task: "cleanup_thread s = t # rest \<Longrightarrow> run_ban_task env now clock t (buckets_locked s) (manager s) = Done (tasks, locked, m)
     \<Longrightarrow> ban_step env api s (s\<lparr>manager := m, buckets_locked := locked, cleanup_thread := tasks @ rest\<rparr>)"
| api_task: "i < length (api_threads s) \<Longrightarrow> api_threads s ! i = t # rest
     \<Longrightarrow> run_ban_task env now clock t (buckets_locked s) (manager s) = Done (tasks, locked, m)
     \<Longrightarrow> ban_step env api s (s\<lparr>manager := m, buckets_locked := locked, api_threads := (api_threads s)[i := tasks @ rest]\<rparr>)"
| mitigation_task: "thread_step (gobgp_config env) (mitigation (manager s)) sys
     \<Longrightarrow> ban_step env api s (s\<lparr>manager := (manager s)\<lparr>mitigation := sys\<rparr>\<rparr>)"

text \<open>The start: nothing banned, no capture, no thread at work; the averages and the capacity are arbitrary.\<close>

definition ban_init :: "ban_system \<Rightarrow> bool" where
  "ban_init s \<longleftrightarrow> \<not> buckets_locked s \<and> speed_thread s = [] \<and> buckets_thread s = [] \<and> cleanup_thread s = [] \<and> api_threads s = []
     \<and> ban_list_ipv4 (manager s) = [] \<and> packet_buckets_map (packet_buckets_ipv4_storage (manager s)) = []
     \<and> gobgp_flowspec_refresh_last_capture_time (manager s) = [] \<and> mitigation (manager s) = system_init"

definition ban_reachable :: "ban_environment \<Rightarrow> bool \<Rightarrow> ban_system \<Rightarrow> bool" where
  "ban_reachable env api s \<longleftrightarrow> reach ban_init (ban_step env api) s"

section \<open>Which thread performs which task\<close>

datatype thread_kind = Speed | Buckets | Cleanup | Api

fun task_kind :: "thread_kind \<Rightarrow> ban_task \<Rightarrow> bool" where
  "task_kind k (callback_bucket_task ip c) \<longleftrightarrow> k = Speed"
| "task_kind k (callback_ban_task ip c) \<longleftrightarrow> k = Speed"
| "task_kind k (callback_enable_task ip c) \<longleftrightarrow> k = Speed"
| "task_kind k (start_ban_task ip a samples) \<longleftrightarrow> k = Buckets \<or> k = Api"
| "task_kind k unban_copy_task \<longleftrightarrow> k = Cleanup"
| "task_kind k (unban_loop_task t rest for_erase) \<longleftrightarrow> k = Cleanup"
| "task_kind k (start_unban_task ip a) \<longleftrightarrow> k = Cleanup \<or> k = Api"
| "task_kind k (unban_remove_task ip) \<longleftrightarrow> k = Cleanup"
| "task_kind k (api_ban_task ip) \<longleftrightarrow> k = Api"
| "task_kind k (api_unban_task ip) \<longleftrightarrow> k = Api"
| "task_kind k (api_remove_task ip a) \<longleftrightarrow> k = Api"
| "task_kind k t \<longleftrightarrow> k = Buckets"

lemmas task_defs = callback_bucket_def callback_ban_def callback_enable_def scan_orphans_def scan_filled_def ban_bucket_def
  refresh_process_def schedule_bans_def schedule_check_def schedule_begin_def schedule_enable_def unban_copy_def
  ExecuteBan_def ExecuteUnBan_def Let_def and_then_Done_iff

lemma unban_loop_kind: "unban_loop env t rest for_erase locked s = Done (tasks, locked', s') \<Longrightarrow> list_all (task_kind Cleanup) tasks"
  by (cases "(env, t, rest, for_erase, locked, s)" rule: unban_loop.cases) (auto simp: list_all_iff split: if_splits)

lemma run_kind:
  assumes "run_ban_task env now clock t locked s = Done (tasks, locked', s')" "task_kind k t"
  shows "list_all (task_kind k) tasks"
  using assms by (cases t)
    (auto simp: task_defs list_all_iff dest!: unban_loop_kind split: if_splits prod.splits option.splits)

section \<open>The mutex of the buckets\<close>

text \<open>Tasks of the bucket thread that it performs while it holds the mutex.\<close>

fun holding :: "ban_task \<Rightarrow> bool" where
  "holding (orphan_task ip) \<longleftrightarrow> True"
| "holding (ban_bucket_task ip) \<longleftrightarrow> True"
| "holding (start_ban_task ip a samples) \<longleftrightarrow> True"
| "holding (erase_bucket_task ip) \<longleftrightarrow> True"
| "holding t \<longleftrightarrow> False"

definition free_task :: "ban_task \<Rightarrow> bool" where
  "free_task t \<longleftrightarrow> \<not> holding t \<and> t \<noteq> unlock_task"

fun well_locked :: "bool \<Rightarrow> ban_task list \<Rightarrow> bool" where
  "well_locked False tasks \<longleftrightarrow> list_all free_task tasks"
| "well_locked True [] \<longleftrightarrow> False"
| "well_locked True (t # tasks) \<longleftrightarrow> (if t = unlock_task then list_all free_task tasks else holding t \<and> well_locked True tasks)"

lemma well_locked_append: "list_all holding xs \<Longrightarrow> well_locked True (xs @ tasks) \<longleftrightarrow> well_locked True tasks"
  by (induction xs) auto

lemma well_locked_cons: "well_locked True (t # tasks) \<Longrightarrow> t \<noteq> unlock_task \<Longrightarrow> holding t \<and> well_locked True tasks"
  by simp

text \<open>A task of another thread leaves the mutex alone; the bucket thread takes it and gives it back.\<close>

lemma run_locked_other:
  assumes "run_ban_task env now clock t locked s = Done (tasks, locked', s')" "task_kind k t" "k \<noteq> Buckets"
  shows "locked' = locked"
proof -
  have loop: "unban_loop env x rest for_erase locked s = Done (tasks, locked', s') \<Longrightarrow> locked' = locked" for x rest for_erase
    by (cases "(env, x, rest, for_erase, locked, s)" rule: unban_loop.cases) auto
  show ?thesis
    using assms loop by (cases t) (auto simp: task_defs split: if_splits)
qed

lemma run_locked_buckets:
  assumes "run_ban_task env now clock t locked s = Done (tasks, locked', s')" "task_kind Buckets t" "well_locked locked (t # rest)"
  shows "well_locked locked' (tasks @ rest)"
proof (cases locked)
  case True
  show ?thesis
  proof (cases "t = unlock_task")
    case False
    then have "holding t" "well_locked True rest"
      using assms(3) True by auto
    then show ?thesis
      using assms(1) True by (cases t) (auto simp: task_defs)
  qed (use assms True in simp)
next
  case False
  then have "free_task t" "list_all free_task rest"
    using assms(3) by simp_all
  then show ?thesis
    using assms(1,2) False
    by (cases t) (auto simp: task_defs free_task_def list_all_iff well_locked_append split: if_splits prod.splits)
qed

section \<open>Captures and bans\<close>

text \<open>The hosts with a capture for an attack, and the banned ones.\<close>

definition once :: "ban_manager \<Rightarrow> u32 set" where
  "once m = {ip. \<exists>b. map_find (packet_buckets_map (packet_buckets_ipv4_storage m)) ip = Some b \<and> collection_pattern b = ONCE}"

definition banned :: "ban_manager \<Rightarrow> u32 set" where
  "banned m = {ip. is_blackholed ip (ban_list_ipv4 m)}"

definition maps_ordered :: "ban_manager \<Rightarrow> bool" where
  "maps_ordered m \<longleftrightarrow> ordered (packet_buckets_map (packet_buckets_ipv4_storage m)) \<and> ordered (ban_list_ipv4 m)"

lemma view_cong:
  "packet_buckets_ipv4_storage m' = packet_buckets_ipv4_storage m \<Longrightarrow> once m' = once m"
  "ban_list_ipv4 m' = ban_list_ipv4 m \<Longrightarrow> banned m' = banned m"
  by (simp_all add: once_def banned_def)

lemma once_erase: "once (erase_bucket ip m) = once m - {ip}"
  by (auto simp: once_def erase_bucket_def remove_packet_capture_for_ip_def map_find_erase)

lemma banned_add: "ordered (ban_list_ipv4 m) \<Longrightarrow> banned (m\<lparr>ban_list_ipv4 := add_to_blackhole ip a (ban_list_ipv4 m)\<rparr>) = insert ip (banned m)"
  by (auto simp: banned_def ban_list_ops(1))

lemma enable_view:
  assumes "ordered (packet_buckets_map b)" "enable_packet_capture clock ip a pattern b = (enabled, b')"
  shows "ordered (packet_buckets_map b')"
    and "pattern \<noteq> ONCE \<Longrightarrow> once (m\<lparr>packet_buckets_ipv4_storage := b'\<rparr>) = once (m\<lparr>packet_buckets_ipv4_storage := b\<rparr>)"
    and "once (m\<lparr>packet_buckets_ipv4_storage := b'\<rparr>) \<subseteq> insert ip (once (m\<lparr>packet_buckets_ipv4_storage := b\<rparr>))"
    and "once (m\<lparr>packet_buckets_ipv4_storage := b\<rparr>) \<subseteq> once (m\<lparr>packet_buckets_ipv4_storage := b'\<rparr>)"
  using assms by (auto simp: enable_packet_capture_def once_def map_find_put ordered_map_put new_capture_def Let_def split: if_splits)

lemma traffic_view:
  assumes "add_packet_to_storage clock ip p b = Done (added, b')" "ordered (packet_buckets_map b)"
  shows "ordered (packet_buckets_map b')"
    and "once (m\<lparr>packet_buckets_ipv4_storage := b'\<rparr>) = once (m\<lparr>packet_buckets_ipv4_storage := b\<rparr>)"
proof -
  have pattern: "collection_pattern x' = collection_pattern x" if "collect_packet clock p x = Done x'" for x x'
    using that by (auto simp: collect_packet_def store_raw_packet_def close_filled_bucket_def Let_def and_then_Done_iff
        split: option.splits if_splits)
  show "ordered (packet_buckets_map b')"
    "once (m\<lparr>packet_buckets_ipv4_storage := b'\<rparr>) = once (m\<lparr>packet_buckets_ipv4_storage := b\<rparr>)"
    using assms pattern by (auto simp: add_packet_to_storage_def once_def map_find_put ordered_map_put and_then_Done_iff
        split: option.splits if_splits)
qed

fun ban_ips :: "ban_task list \<Rightarrow> u32 list" where
  "ban_ips [] = []"
| "ban_ips (ban_bucket_task ip # tasks) = ip # ban_ips tasks"
| "ban_ips (t # tasks) = ban_ips tasks"

definition gone_ips :: "ban_task list \<Rightarrow> u32 set" where
  "gone_ips tasks = {ip. erase_bucket_task ip \<in> set tasks \<or> orphan_task ip \<in> set tasks}"

lemma ban_ips_append [simp]: "ban_ips (xs @ ys) = ban_ips xs @ ban_ips ys"
  by (induction xs rule: ban_ips.induct) auto

lemma gone_ips_simps [simp]: "gone_ips [] = {}" "gone_ips (xs @ ys) = gone_ips xs \<union> gone_ips ys"
  by (auto simp: gone_ips_def)

lemma gone_ips_Cons:
  "gone_ips (t # tasks) = (case t of erase_bucket_task ip \<Rightarrow> insert ip (gone_ips tasks) | orphan_task ip \<Rightarrow> insert ip (gone_ips tasks)
     | _ \<Rightarrow> gone_ips tasks)"
  by (cases t) (auto simp: gone_ips_def)

lemma ips_free: "list_all free_task tasks \<Longrightarrow> ban_ips tasks = [] \<and> gone_ips tasks = {}"
proof (induction tasks)
  case (Cons t tasks)
  then show ?case
    by (cases t) (simp_all add: free_task_def gone_ips_Cons)
qed simp

text \<open>What a task of the bucket thread does to the captures and bans, and what it adds to the thread.\<close>

lemma run_buckets_view:
  assumes "run_ban_task env now clock t locked m = Done (tasks, locked', m')" "task_kind Buckets t" "maps_ordered m"
  shows "maps_ordered m'"
    and "once m' = (case t of erase_bucket_task ip \<Rightarrow> once m - {ip} | orphan_task ip \<Rightarrow> once m - {ip} | _ \<Rightarrow> once m)"
    and "banned m' = (case t of ban_bucket_task ip \<Rightarrow> insert ip (banned m) | _ \<Rightarrow> banned m)"
proof -
  have orphan: "once (remove_orphan ip m) = once m - {ip}" "banned (remove_orphan ip m) = banned m"
      "maps_ordered (remove_orphan ip m)" for ip
    using assms(3) once_erase [of ip m] once_erase [of ip "m\<lparr>mitigation := finish_capture ip (mitigation m)\<rparr>"]
      view_cong(1) [of "m\<lparr>mitigation := finish_capture ip (mitigation m)\<rparr>" m]
    by (auto simp: remove_orphan_def banned_def erase_bucket_def maps_ordered_def remove_packet_capture_for_ip_def ordered_erase)
  have same: "once (m\<lparr>mitigation := x\<rparr>) = once m" "banned (m\<lparr>mitigation := x\<rparr>) = banned m" "once (m\<lparr>ban_list_ipv4 := l\<rparr>) = once m"
      "once (m\<lparr>gobgp_flowspec_refresh_last_capture_time := y\<rparr>) = once m" "banned (m\<lparr>gobgp_flowspec_refresh_last_capture_time := y\<rparr>) = banned m"
      "banned (m\<lparr>packet_buckets_ipv4_storage := z\<rparr>) = banned m"
      "once (m\<lparr>packet_buckets_ipv4_storage := z, gobgp_flowspec_refresh_last_capture_time := y\<rparr>) = once (m\<lparr>packet_buckets_ipv4_storage := z\<rparr>)"
      "banned (m\<lparr>packet_buckets_ipv4_storage := z, gobgp_flowspec_refresh_last_capture_time := y\<rparr>) = banned m" for x l y z
    by (simp_all add: once_def banned_def)
  have erase: "once (erase_bucket ip m) = once m - {ip}" "banned (erase_bucket ip m) = banned m" "maps_ordered (erase_bucket ip m)" for ip
    using assms(3) by (simp_all add: once_erase) (simp_all add: banned_def erase_bucket_def maps_ordered_def
        remove_packet_capture_for_ip_def ordered_erase)
  have enable: "ordered (packet_buckets_map b')" "once (m\<lparr>packet_buckets_ipv4_storage := b'\<rparr>) = once m"
    if "enable_packet_capture clock ip a FLOW_SPEC_REFRESH_ONCE (packet_buckets_ipv4_storage m) = (e, b')" for ip a e b'
    using enable_view(1) [OF _ that] enable_view(2) [OF _ that, of m] assms(3) by (simp_all add: maps_ordered_def)
  have add: "banned (m\<lparr>ban_list_ipv4 := add_to_blackhole ip a (ban_list_ipv4 m)\<rparr>) = insert ip (banned m)"
      "ordered (add_to_blackhole ip a (ban_list_ipv4 m))" for ip a
    using assms(3) banned_add by (simp_all add: maps_ordered_def add_to_blackhole_def ordered_map_put)
  show "once m' = (case t of erase_bucket_task ip \<Rightarrow> once m - {ip} | orphan_task ip \<Rightarrow> once m - {ip} | _ \<Rightarrow> once m)"
    "banned m' = (case t of ban_bucket_task ip \<Rightarrow> insert ip (banned m) | _ \<Rightarrow> banned m)"
    using assms(1,2) by (cases t; auto simp: task_defs orphan erase same enable add split: if_splits prod.splits)+
  show "maps_ordered m'"
    using assms by (cases t) (auto simp: task_defs orphan(3) [unfolded maps_ordered_def] erase(3) [unfolded maps_ordered_def]
        add maps_ordered_def dest: enable split: if_splits prod.splits)
qed

text \<open>The tasks other than the two scans and the ban itself add no ban and no removal to the thread.\<close>

lemma run_buckets_tasks:
  assumes "run_ban_task env now clock t locked m = Done (tasks, locked', m')" "task_kind Buckets t"
    "t \<noteq> orphans_task" "t \<noteq> filled_task" "\<And>ip. t \<noteq> ban_bucket_task ip"
  shows "ban_ips tasks = []" "gone_ips tasks = {}"
proof -
  have "ban_ips (map (\<lambda>(ip, a). schedule_victim_task now ip a) l) = [] \<and> gone_ips (map (\<lambda>(ip, a). schedule_victim_task now ip a) l) = {}" for l
    by (induction l) (auto simp: gone_ips_Cons)
  then show "ban_ips tasks = []" "gone_ips tasks = {}"
    using assms by (cases t; auto simp: task_defs gone_ips_Cons split: if_splits prod.splits)+
qed

lemma scan_filled_ips:
  assumes "scan_filled locked m = Done (tasks, locked', m')" "maps_ordered m"
  shows "distinct (ban_ips tasks)" "set (ban_ips tasks) \<subseteq> once m" "set (ban_ips tasks) \<inter> gone_ips tasks = {}"
proof -
  let ?m = "packet_buckets_map (packet_buckets_ipv4_storage m)"
  let ?f = "\<lambda>(client_ip, b). if collection_pattern b = FLOW_SPEC_REFRESH_ONCE then erase_bucket_task client_ip else ban_bucket_task client_ip"
  have bans: "ban_ips (map ?f es) = map fst (filter (\<lambda>e. collection_pattern (snd e) = ONCE) es)" for es
  proof (induction es)
    case (Cons e es)
    then show ?case by (cases e; cases "collection_pattern (snd e)") simp_all
  qed simp
  have gone: "gone_ips (map ?f es) = fst ` set (filter (\<lambda>e. collection_pattern (snd e) \<noteq> ONCE) es)" for es
  proof (induction es)
    case (Cons e es)
    then show ?case by (cases e; cases "collection_pattern (snd e)") (simp_all add: gone_ips_Cons)
  qed simp
  have refresh: "ban_ips (map (\<lambda>(ip, b). refresh_process_task ip (bucket_samples b)) es) = []"
      "gone_ips (map (\<lambda>(ip, b). refresh_process_task ip (bucket_samples b)) es) = {}" for es
    by (induction es) (auto simp: gone_ips_Cons)
  have keys: "distinct (map fst ?m)" and find: "(ip, b) \<in> set ?m \<longleftrightarrow> map_find ?m ip = Some b" for ip b
    using assms(2) std.distinct_keys [of ?m] ordered_find_mem [of ?m ip b] unfolding maps_ordered_def by blast+
  let ?filled = "filter (\<lambda>(client_ip, b). bucket_is_filled b) ?m"
  have tasks: "ban_ips tasks = ban_ips (map ?f ?filled)" "gone_ips tasks = gone_ips (map ?f ?filled)"
    using assms(1) by (auto simp: scan_filled_def Let_def refresh gone_ips_Cons split: if_splits)
  have filled: "distinct (map fst ?filled)"
    using keys by (simp add: distinct_map_filter)
  then show "distinct (ban_ips tasks)"
    unfolding tasks bans by (simp add: distinct_map_filter del: filter_filter)
  show "set (ban_ips tasks) \<inter> gone_ips tasks = {}"
    unfolding tasks bans gone by (auto simp: find)
  show "set (ban_ips tasks) \<subseteq> once m"
    unfolding tasks bans by (auto simp: once_def find)
qed

lemma scan_orphans_ips: "scan_orphans clock locked m = Done (tasks, locked', m') \<Longrightarrow> ban_ips tasks = []"
proof -
  have "ban_ips (map (\<lambda>(ip, b). orphan_task ip) es) = []" for es :: "(u32 \<times> packet_bucket_t) list"
    by (induction es) auto
  then show "scan_orphans clock locked m = Done (tasks, locked', m') \<Longrightarrow> ban_ips tasks = []"
    by (auto simp: scan_orphans_def split: if_splits)
qed

section \<open>No host is banned twice\<close>

text \<open>
  The bans the bucket thread is about to make are of captured hosts that are not banned, and a banned host has a
  capture for an attack only until the thread has removed its bucket.
\<close>

definition capture_inv :: "ban_task list \<Rightarrow> ban_manager \<Rightarrow> bool" where
  "capture_inv tasks m \<longleftrightarrow> distinct (ban_ips tasks) \<and> set (ban_ips tasks) \<subseteq> once m - banned m
     \<and> set (ban_ips tasks) \<inter> gone_ips tasks = {} \<and> once m \<inter> banned m \<subseteq> gone_ips tasks"

lemma capture_inv_buckets:
  assumes "capture_inv (t # rest) m" "maps_ordered m" "well_locked locked (t # rest)" "task_kind Buckets t"
    "run_ban_task env now clock t locked m = Done (tasks, locked', m')"
  shows "capture_inv (tasks @ rest) m'"
proof -
  note view = run_buckets_view [OF assms(5,4,2)]
  consider (orphans) "t = orphans_task" | (filled) "t = filled_task" | (ban) ip where "t = ban_bucket_task ip"
    | (erase) ip where "t = erase_bucket_task ip \<or> t = orphan_task ip"
    | (other) "t \<noteq> orphans_task" "t \<noteq> filled_task" "\<And>ip. t \<noteq> ban_bucket_task ip" "\<And>ip. t \<noteq> erase_bucket_task ip" "\<And>ip. t \<noteq> orphan_task ip"
    by (cases t) auto
  then show ?thesis
  proof cases
    case orphans
    then have "\<not> locked" "ban_ips tasks = []"
      using assms(5) scan_orphans_ips [of clock locked m tasks locked' m'] by (simp_all add: scan_orphans_def split: if_splits)
    then have "ban_ips rest = []" "gone_ips rest = {}"
      using assms(3) ips_free [of rest] by simp_all
    then show ?thesis
      using assms(1) view(2,3) orphans \<open>ban_ips tasks = []\<close> by (simp add: capture_inv_def gone_ips_Cons)
  next
    case filled
    then have scan: "scan_filled locked m = Done (tasks, locked', m')"
      using assms(5) by simp
    then have "\<not> locked"
      by (simp add: scan_filled_def split: if_splits)
    then have "ban_ips rest = []" "gone_ips rest = {}"
      using assms(3) ips_free [of rest] by simp_all
    then show ?thesis
      using assms(1) view(2,3) scan_filled_ips [OF scan assms(2)] filled by (auto simp: capture_inv_def gone_ips_Cons)
  next
    case ban
    then show ?thesis
      using assms(1,5) view(2,3) by (auto simp: capture_inv_def gone_ips_Cons ban_bucket_def Let_def)
  next
    case erase
    then have "tasks = []" "ban_ips (t # rest) = ban_ips rest" "gone_ips (t # rest) = insert ip (gone_ips rest)" "once m' = once m - {ip}"
      "banned m' = banned m"
      using assms(5) view(2,3) by (auto simp: gone_ips_Cons)
    then show ?thesis
      using assms(1) by (auto simp: capture_inv_def)
  next
    case other
    then have "ban_ips (t # rest) = ban_ips rest" "gone_ips (t # rest) = gone_ips rest" "once m' = once m" "banned m' = banned m"
      using view(2,3) by (cases t; simp add: gone_ips_Cons)+
    then show ?thesis
      using assms(1) run_buckets_tasks [OF assms(5,4) other(1,2,3)] by (simp add: capture_inv_def)
  qed
qed

text \<open>The callback: no capture of the host when it looks at the ban list, and no ban when it opens the capture.\<close>

fun callback_ok :: "ban_manager \<Rightarrow> ban_task \<Rightarrow> bool" where
  "callback_ok m (callback_ban_task ip c) \<longleftrightarrow> ip \<notin> once m"
| "callback_ok m (callback_enable_task ip c) \<longleftrightarrow> ip \<notin> once m \<and> ip \<notin> banned m"
| "callback_ok m t \<longleftrightarrow> True"

lemma callback_ok_mono:
  "callback_ok m t \<Longrightarrow> once m' \<subseteq> once m \<Longrightarrow> banned m' \<subseteq> banned m \<union> once m \<Longrightarrow> callback_ok m' t"
  by (cases t) auto

lemma run_speed:
  assumes "run_ban_task env now clock t locked m = Done (tasks, locked', m')" "task_kind Speed t" "callback_ok m t"
    "maps_ordered m" "capture_inv pending_tasks m"
  shows "length tasks \<le> 1" "maps_ordered m'" "list_all (callback_ok m') tasks" "capture_inv pending_tasks m'"
proof -
  have same: "banned (m\<lparr>packet_buckets_ipv4_storage := z\<rparr>) = banned m" for z
    by (simp add: banned_def)
  show "length tasks \<le> 1"
    using assms(1,2) by (cases t) (auto simp: task_defs split: if_splits)
  show "maps_ordered m'"
    using assms(1,2,4) enable_view(1) [of "packet_buckets_ipv4_storage m" clock]
    by (cases t) (auto simp: task_defs maps_ordered_def prod_eq_iff split: if_splits)
  show "list_all (callback_ok m') tasks"
    using assms(1-3) by (cases t) (auto simp: task_defs banned_def once_def we_have_bucket_for_this_ip_def split: if_splits)
  show "capture_inv pending_tasks m'"
  proof (cases t)
    case (callback_enable_task ip c)
    then obtain a enabled b' where e: "enable_packet_capture clock ip a ONCE (packet_buckets_ipv4_storage m) = (enabled, b')"
      "m' = m\<lparr>packet_buckets_ipv4_storage := b'\<rparr>"
      using assms(1) by (auto simp: task_defs prod_eq_iff split: if_splits)
    then show ?thesis
      using enable_view(3,4) [OF _ e(1), of m] assms(3-5) callback_enable_task by (auto simp: capture_inv_def same maps_ordered_def)
  qed (use assms(1,2,5) in \<open>auto simp: task_defs split: if_splits\<close>)
qed

lemma run_cleanup:
  assumes "run_ban_task env now clock t locked m = Done (tasks, locked', m')" "task_kind Cleanup t" "maps_ordered m"
  shows "maps_ordered m'" "once m' = once m" "banned m' \<subseteq> banned m"
proof -
  have loop: "unban_loop env x rest for_erase locked m = Done (tasks, locked', m') \<Longrightarrow> m' = m" for x rest for_erase
    by (cases "(env, x, rest, for_erase, locked, m)" rule: unban_loop.cases) auto
  show "maps_ordered m'" "once m' = once m" "banned m' \<subseteq> banned m"
    using assms by (cases t; auto simp: task_defs maps_ordered_def once_def banned_def is_blackholed_def remove_from_blackhole_def
        map_find_erase ordered_erase dest!: loop split: if_splits)+
qed

lemma capture_inv_mono: "capture_inv pending_tasks m \<Longrightarrow> once m' = once m \<Longrightarrow> banned m' \<subseteq> banned m \<Longrightarrow> capture_inv pending_tasks m'"
  by (auto simp: capture_inv_def)

definition ban_inv :: "ban_system \<Rightarrow> bool" where
  "ban_inv s \<longleftrightarrow> maps_ordered (manager s) \<and> well_locked (buckets_locked s) (buckets_thread s)
     \<and> list_all (task_kind Buckets) (buckets_thread s) \<and> list_all (task_kind Speed) (speed_thread s)
     \<and> list_all (task_kind Cleanup) (cleanup_thread s) \<and> api_threads s = [] \<and> length (speed_thread s) \<le> 1
     \<and> capture_inv (buckets_thread s) (manager s) \<and> list_all (callback_ok (manager s)) (speed_thread s)"

lemma ban_inv_init: "ban_init s \<Longrightarrow> ban_inv s"
  by (simp add: ban_init_def ban_inv_def maps_ordered_def capture_inv_def once_def)

lemma ban_inv_same:
  assumes "ban_inv s" "maps_ordered m" "once m = once (manager s)" "banned m = banned (manager s)"
  shows "ban_inv (s\<lparr>manager := m\<rparr>)"
  using assms callback_ok_mono [of "manager s" _ m] by (auto simp: ban_inv_def capture_inv_def list_all_iff)

lemma ban_inv_step:
  assumes "ban_inv s" "ban_step env False s s'" shows "ban_inv s'"
  using assms(2,1)
proof cases
  case (traffic clock ip p added b)
  then show ?thesis
    using ban_inv_same [OF assms(1), of "(manager s)\<lparr>packet_buckets_ipv4_storage := b\<rparr>"]
      traffic_view(1) [OF traffic(3)] traffic_view(2) [OF traffic(3), of "manager s"] assms(1)
    by (simp add: ban_inv_def maps_ordered_def banned_def)
next
  case (speeds host_counters)
  then show ?thesis
    using ban_inv_same [OF assms(1), of "(manager s)\<lparr>ipv4_host_counters := host_counters\<rparr>"] assms(1)
    by (simp add: ban_inv_def maps_ordered_def banned_def once_def)
next
  case (mitigation_task sys)
  then show ?thesis
    using ban_inv_same [OF assms(1), of "(manager s)\<lparr>mitigation := sys\<rparr>"] assms(1)
    by (simp add: ban_inv_def maps_ordered_def banned_def once_def)
next
  case (speed_task t rest now clock tasks locked m)
  then have rest: "rest = []" and t: "task_kind Speed t" "callback_ok (manager s) t" "maps_ordered (manager s)"
      "capture_inv (buckets_thread s) (manager s)"
    using assms(1) by (simp_all add: ban_inv_def)
  then show ?thesis
    using run_speed [OF speed_task(3) t] run_kind [OF speed_task(3) t(1)] run_locked_other [OF speed_task(3) t(1)] speed_task(1) assms(1)
    by (simp add: ban_inv_def)
next
  case (buckets_task t rest now clock tasks locked m)
  then have t: "task_kind Buckets t" "maps_ordered (manager s)" "well_locked (buckets_locked s) (t # rest)"
      "capture_inv (t # rest) (manager s)" and speed: "list_all (callback_ok (manager s)) (speed_thread s)"
    using assms(1) by (simp_all add: ban_inv_def)
  note view = run_buckets_view [OF buckets_task(3) t(1,2)]
  have "once m \<subseteq> once (manager s)" "banned m \<subseteq> banned (manager s) \<union> once (manager s)"
    using view(2,3) t(4) by (cases t; auto simp: capture_inv_def)+
  then have "list_all (callback_ok m) (speed_thread s)"
    using speed callback_ok_mono by (auto simp: list_all_iff)
  then show ?thesis
    using view(1) capture_inv_buckets [OF t(4,2,3,1) buckets_task(3)] run_kind [OF buckets_task(3) t(1)]
      run_locked_buckets [OF buckets_task(3) t(1,3)] buckets_task(1,2) assms(1)
    by (simp add: ban_inv_def)
next
  case (cleanup_task t rest now clock tasks locked m)
  then have t: "task_kind Cleanup t" "maps_ordered (manager s)" "capture_inv (buckets_thread s) (manager s)"
    and speed: "list_all (callback_ok (manager s)) (speed_thread s)"
    using assms(1) by (simp_all add: ban_inv_def)
  note view = run_cleanup [OF cleanup_task(3) t(1,2)]
  have "list_all (callback_ok m) (speed_thread s)"
    using speed callback_ok_mono [of "manager s" _ m] view(2,3) by (auto simp: list_all_iff)
  then show ?thesis
    using view(1) capture_inv_mono [OF t(3) view(2,3)] run_kind [OF cleanup_task(3) t(1)]
      run_locked_other [OF cleanup_task(3) t(1)] cleanup_task(1,2) assms(1)
    by (simp add: ban_inv_def)
next
  case buckets_round
  then show ?thesis
    using assms(1) by (cases "buckets_locked s") (simp_all add: ban_inv_def free_task_def capture_inv_def gone_ips_Cons)
qed (auto simp: ban_inv_def)

interpretation bans: invariant_system ban_init "ban_step env False" ban_inv for env
  by unfold_locales (fact ban_inv_init, fact ban_inv_step)

end
