(* ===== verification/Ban_Races.thy ===== *)
theory Ban_Races
  imports Ban_Runs
begin

text \<open>
  What the interleaving of the threads of the ban manager guarantees, and two runs in which it does not do what the
  comments of the program promise: moves choose which thread goes on, so a run is computed from a list of them.
\<close>

section \<open>Moves\<close>

datatype ban_move =
  Speed_round u32
| Buckets_round
| Cleanup_round
| Api_ban u32
| Speed_move int int
| Buckets_move int int
| Cleanup_move int int
| Api_move nat int int
| Gobgp_move nat "string option"

text \<open>One thread of the mitigation goes on, and GoBGP gives the same answer to every AddPath.\<close>

definition run_gobgp :: "gobgp_configuration \<Rightarrow> nat \<Rightarrow> string option \<Rightarrow> system \<Rightarrow> system outcome" where
  "run_gobgp c i answer s =
     (if i < length (threads s) \<and> (case answer of None \<Rightarrow> True | Some uuid \<Rightarrow> uuid \<notin> fst ` confirmed s)
      then case threads s ! i of
             [] \<Rightarrow> Failed
           | t # rest \<Rightarrow> and_then (run_task c (\<lambda>request. answer) (\<lambda>uuid. True) t (sys_lifecycle s)) (\<lambda>result.
               Done (task_done (\<lambda>request. answer) (\<lambda>uuid. True) i t rest result s))
      else Failed)"

definition run_thread_of :: "ban_environment \<Rightarrow> int \<Rightarrow> int \<Rightarrow> ban_task list \<Rightarrow> (ban_task list \<Rightarrow> ban_system \<Rightarrow> ban_system)
    \<Rightarrow> ban_system \<Rightarrow> ban_system outcome" where
  "run_thread_of env now clock tasks upd s =
     (case tasks of
        [] \<Rightarrow> Failed
      | t # rest \<Rightarrow> and_then (run_ban_task env now clock t (buckets_locked s) (manager s)) (\<lambda>(tasks, locked, m).
          Done (upd (tasks @ rest) (s\<lparr>manager := m, buckets_locked := locked\<rparr>))))"

fun run_move :: "ban_environment \<Rightarrow> bool \<Rightarrow> ban_move \<Rightarrow> ban_system \<Rightarrow> ban_system outcome" where
  "run_move env api (Speed_round ip) s =
     (case (speed_thread s, get_average_speed ip (ipv4_host_counters (manager s))) of
        ([], Some c) \<Rightarrow> Done (s\<lparr>speed_thread := [callback_bucket_task ip c]\<rparr>) | _ \<Rightarrow> Failed)"
| "run_move env api Buckets_round s =
     (if buckets_thread s = [] then Done (s\<lparr>buckets_thread := [orphans_task, filled_task, schedule_task]\<rparr>) else Failed)"
| "run_move env api Cleanup_round s = (if cleanup_thread s = [] then Done (s\<lparr>cleanup_thread := [unban_copy_task]\<rparr>) else Failed)"
| "run_move env api (Api_ban ip) s =
     (if api \<and> lookup_tree_ipv4 env ip \<noteq> None then Done (s\<lparr>api_threads := api_threads s @ [[api_ban_task ip]]\<rparr>) else Failed)"
| "run_move env api (Speed_move now clock) s = run_thread_of env now clock (speed_thread s) (\<lambda>tasks. speed_thread_update (\<lambda>_. tasks)) s"
| "run_move env api (Buckets_move now clock) s =
     run_thread_of env now clock (buckets_thread s) (\<lambda>tasks. buckets_thread_update (\<lambda>_. tasks)) s"
| "run_move env api (Cleanup_move now clock) s =
     run_thread_of env now clock (cleanup_thread s) (\<lambda>tasks. cleanup_thread_update (\<lambda>_. tasks)) s"
| "run_move env api (Api_move i now clock) s =
     (if i < length (api_threads s)
      then run_thread_of env now clock (api_threads s ! i) (\<lambda>tasks. api_threads_update (\<lambda>_. (api_threads s)[i := tasks])) s else Failed)"
| "run_move env api (Gobgp_move i answer) s =
     and_then (run_gobgp (gobgp_config env) i answer (mitigation (manager s))) (\<lambda>sys.
       Done (s\<lparr>manager := (manager s)\<lparr>mitigation := sys\<rparr>\<rparr>))"

fun run_moves :: "ban_environment \<Rightarrow> bool \<Rightarrow> ban_move list \<Rightarrow> ban_system \<Rightarrow> ban_system outcome" where
  "run_moves env api [] s = Done s"
| "run_moves env api (mv # mvs) s = and_then (run_move env api mv s) (run_moves env api mvs)"

lemma run_gobgp_step:
  assumes "run_gobgp c i answer s = Done s'" shows "thread_step c s s'"
proof -
  have fresh: "fresh_uuids (\<lambda>request. answer) s" if "case answer of None \<Rightarrow> True | Some uuid \<Rightarrow> uuid \<notin> fst ` confirmed s"
    using that by (simp add: fresh_uuids_def split: option.splits)
  show ?thesis
    using assms run_thread [of i s _ _ "\<lambda>request. answer" c "\<lambda>uuid. True"] fresh
    by (auto simp: run_gobgp_def and_then_Done_iff split: if_splits list.splits)
qed

lemma run_move_step:
  assumes "run_move env api mv s = Done s'" shows "ban_step env api s s'"
proof (cases mv)
  case (Speed_round ip)
  then show ?thesis
    using assms by (auto intro: ban_step.speed_round split: list.splits option.splits)
next
  case (Speed_move now clock)
  then obtain t rest tasks locked m where r: "speed_thread s = t # rest"
    "run_ban_task env now clock t (buckets_locked s) (manager s) = Done (tasks, locked, m)"
    "s' = s\<lparr>manager := m, buckets_locked := locked, speed_thread := tasks @ rest\<rparr>"
    using assms by (auto simp: run_thread_of_def and_then_Done_iff split: list.splits)
  show ?thesis
    unfolding r(3) by (rule ban_step.speed_task [OF r(1,2)])
next
  case (Buckets_move now clock)
  then obtain t rest tasks locked m where r: "buckets_thread s = t # rest"
    "run_ban_task env now clock t (buckets_locked s) (manager s) = Done (tasks, locked, m)"
    "s' = s\<lparr>manager := m, buckets_locked := locked, buckets_thread := tasks @ rest\<rparr>"
    using assms by (auto simp: run_thread_of_def and_then_Done_iff split: list.splits)
  show ?thesis
    unfolding r(3) by (rule ban_step.buckets_task [OF r(1,2)])
next
  case (Cleanup_move now clock)
  then obtain t rest tasks locked m where r: "cleanup_thread s = t # rest"
    "run_ban_task env now clock t (buckets_locked s) (manager s) = Done (tasks, locked, m)"
    "s' = s\<lparr>manager := m, buckets_locked := locked, cleanup_thread := tasks @ rest\<rparr>"
    using assms by (auto simp: run_thread_of_def and_then_Done_iff split: list.splits)
  show ?thesis
    unfolding r(3) by (rule ban_step.cleanup_task [OF r(1,2)])
next
  case (Api_move i now clock)
  then obtain t rest tasks locked m where r: "i < length (api_threads s)" "api_threads s ! i = t # rest"
    "run_ban_task env now clock t (buckets_locked s) (manager s) = Done (tasks, locked, m)"
    "s' = s\<lparr>manager := m, buckets_locked := locked, api_threads := (api_threads s)[i := tasks @ rest]\<rparr>"
    using assms by (auto simp: run_thread_of_def and_then_Done_iff split: list.splits if_splits)
  show ?thesis
    unfolding r(4) by (rule ban_step.api_task [OF r(1-3)])
next
  case (Gobgp_move i answer)
  then show ?thesis
    using assms by (auto simp: and_then_Done_iff dest!: run_gobgp_step intro: ban_step.mitigation_task)
qed (use assms in \<open>auto intro: ban_step.intros split: if_splits\<close>)

lemma run_moves_reachable: "run_moves env api mvs s = Done s' \<Longrightarrow> ban_reachable env api s \<Longrightarrow> ban_reachable env api s'"
proof (induction mvs arbitrary: s)
  case (Cons mv mvs)
  then obtain s1 where "run_move env api mv s = Done s1" "run_moves env api mvs s1 = Done s'"
    by (auto simp: and_then_Done_iff)
  then show ?case
    using Cons.IH Cons.prems(2) run_move_step unfolding ban_reachable_def by (blast intro: reach_step)
qed simp

lemma run_moves_append: "run_moves env api (xs @ ys) s = and_then (run_moves env api xs s) (run_moves env api ys)"
proof (induction xs arbitrary: s)
  case (Cons x xs)
  then show ?case
    by (cases "run_move env api x s") simp_all
qed simp

section \<open>An attack\<close>

text \<open>An ICMP flood to one host, captures of capacity zero, and its detection.\<close>

definition flood_victim :: u32 where "flood_victim = 16909060"

definition flood_speed :: subnet_counter_t where
  "flood_speed = subnet_counter_default\<lparr>counter_total := counter_element_zero\<lparr>in_packets := 5000\<rparr>,
     counter_icmp := counter_element_zero\<lparr>in_packets := 5000\<rparr>\<rparr>"

definition flood_attack :: attack_details_t where
  "flood_attack = attack_details_default\<lparr>traffic_counters := flood_speed, attack_detection_threshold := icmp_packets_per_second,
     attack_protocol := 1, host_group := ''global'', ban_time := 60, attack_direction := INCOMING,
     attack_power := 5000, max_attack_power := 5000, customer_network := subnet_cidr_mask 131844 24\<rparr>"

definition flood_start :: ban_system where
  "flood_start = \<lparr>manager = example_manager\<lparr>ipv4_host_counters := \<lparr>counter_map = [], average_speed_map = [(flood_victim, flood_speed)]\<rparr>,
       packet_buckets_ipv4_storage := \<lparr>buffers_maximum_capacity = 0, packet_buckets_map = []\<rparr>\<rparr>,
     buckets_locked = False, speed_thread = [], buckets_thread = [], cleanup_thread = [], api_threads = []\<rparr>"

lemma flood_start_reachable: "ban_reachable env api flood_start"
  unfolding ban_reachable_def by (rule reach_init) (simp add: ban_init_def flood_start_def example_manager_def)

lemma flood_environment [simp]:
  "enable_ban (global_ban_settings (ban_config example_environment))" "\<not> whitelist_tree_ipv4 example_environment ip"
  "unban_enabled_option example_environment" "global_ban_time example_environment = 60"
  "\<not> unban_only_if_attack_finished example_environment" "refresh_active example_environment"
  "gobgp (gobgp_config example_environment)" "gobgp_flowspec (gobgp_config example_environment)"
  "gobgp_flowspec_rule_refresh (gobgp_config example_environment)"
  "lookup_ip_in_integer_form_inpatricia_and_return_subnet_if_found example_environment ip = subnet_cidr_mask 131844 24"
  "lookup_tree_ipv4 example_environment ip = Some (subnet_cidr_mask 131844 24)"
  by (simp_all add: example_environment_def refresh_active_def lookup_ip_in_integer_form_inpatricia_and_return_subnet_if_found_def)

lemma flood_settings [simp]: "settings_of_host example_environment ip =
    (''global'', ban_settings_default\<lparr>enable_ban := True, enable_ban_for_icmp_pps := True, ban_threshold_icmp_pps := 1000\<rparr>)"
  by (simp add: settings_of_host_def example_environment_def get_ban_settings_for_this_subnet_def)

lemma flood_speeds [simp]:
  "in_packets (counter_total flood_speed) = 5000" "out_packets (counter_total flood_speed) = 0"
  "in_packets (counter_icmp flood_speed) = 5000" "in_packets (counter_tcp flood_speed) = 0" "in_packets (counter_udp flood_speed) = 0"
  "out_packets (counter_icmp flood_speed) = 0"
  by (simp_all add: flood_speed_def subnet_counter_default_def counter_element_zero_def)

lemma flood_decision [simp]:
  "we_should_ban_this_entity flood_speed (ban_settings_default\<lparr>enable_ban := True, enable_ban_for_icmp_pps := True,
     ban_threshold_icmp_pps := 1000\<rparr>) = (True, icmp_packets_per_second, direction_unknown)"
  by (simp add: we_should_ban_this_entity_def ban_settings_default_def exceed_pps_speed_def)

lemma flood_exceeds [simp]: "host_exceeds_thresholds example_environment ip flood_speed"
  by (simp add: host_exceeds_thresholds_def)

lemma flood_direction: "detect_direction (counter_total flood_speed) = Done INCOMING"
  by (simp add: detect_direction_def speeds_are_close_def)

lemma flood_protocol: "detect_attack_protocol flood_speed INCOMING = 1"
  by (simp add: detect_attack_protocol_def get_max_used_protocol_def)

lemma flood_detected [simp]: "detected_attack example_environment 0 ip flood_speed = Done flood_attack"
  by (simp add: detected_attack_def fill_attack_information_def flood_direction flood_protocol flood_attack_def Let_def)
    (simp add: attack_details_default_def)

section \<open>Its ban\<close>

definition flood_bucket :: "collection_pattern_t \<Rightarrow> packet_bucket_t" where
  "flood_bucket pattern = new_capture 0 0 flood_attack pattern"

lemma flood_bucket_facts [simp]:
  "collection_pattern (flood_bucket pattern) = pattern" "bucket_attack_details (flood_bucket pattern) = flood_attack"
  "bucket_is_filled (flood_bucket pattern)" "\<not> should_remove_orphaned_bucket clock (flood_bucket pattern)"
  "bucket_samples (flood_bucket pattern) = []"
  by (simp_all add: flood_bucket_def new_capture_def Let_def set_capacity_def packet_bucket_default_def bucket_is_filled_def
      should_remove_orphaned_bucket_def bucket_samples_def buffer_set_capacity_def circular_buffer_empty_def)

definition with_buckets :: "(u32, packet_bucket_t) std_map \<Rightarrow> ban_manager" where
  "with_buckets bs = (manager flood_start)\<lparr>packet_buckets_ipv4_storage := \<lparr>buffers_maximum_capacity = 0, packet_buckets_map = bs\<rparr>\<rparr>"

definition captured_run :: ban_system where
  "captured_run = flood_start\<lparr>manager := with_buckets [(flood_victim, flood_bucket ONCE)]\<rparr>"

definition scanned_run :: ban_system where
  "scanned_run = captured_run\<lparr>buckets_locked := True, buckets_thread := [ban_bucket_task flood_victim, unlock_task, schedule_task]\<rparr>"

lemmas move_simps = run_thread_of_def task_defs get_average_speed_def we_have_bucket_for_this_ip_def enable_packet_capture_def
  is_blackholed_def

lemma flood_captured:
  "run_moves example_environment api [Speed_round flood_victim, Speed_move 0 0, Speed_move 0 0, Speed_move 0 0] flood_start = Done captured_run"
  by (simp add: move_simps captured_run_def with_buckets_def flood_start_def example_manager_def flood_bucket_def)

lemma flood_scanned:
  "run_moves example_environment api [Buckets_round, Buckets_move 0 0, Buckets_move 0 0, Buckets_move 0 0] captured_run = Done scanned_run"
  by (simp add: move_simps scanned_run_def captured_run_def with_buckets_def flood_start_def)

lemma scanned_reachable: "ban_reachable example_environment api scanned_run"
  using run_moves_reachable [OF flood_scanned] run_moves_reachable [OF flood_captured flood_start_reachable] by blast

text \<open>
  C13. No host is banned twice. Whatever the interleaving of the callback, the bucket thread and the cleanup, as long as
  nobody bans by hand: when the manager is about to ban a host, the host is not banned, and while the mutex of the
  buckets is free no banned host has a capture that would ban it again.
\<close>

theorem automatic_ban_once:
  assumes "ban_reachable env False s"
  shows "(\<forall>ip rest. buckets_thread s = ban_bucket_task ip # rest \<longrightarrow> \<not> is_blackholed ip (ban_list_ipv4 (manager s)))
    \<and> (\<not> buckets_locked s \<longrightarrow> (\<forall>ip b. map_find (packet_buckets_map (packet_buckets_ipv4_storage (manager s))) ip = Some b
         \<and> collection_pattern b = ONCE \<longrightarrow> \<not> is_blackholed ip (ban_list_ipv4 (manager s))))"
proof -
  have inv: "ban_inv s"
    using assms unfolding ban_reachable_def by (rule bans.inv_reach)
  then have "\<not> buckets_locked s \<Longrightarrow> gone_ips (buckets_thread s) = {}"
    using ips_free by (simp add: ban_inv_def)
  moreover have "capture_inv (buckets_thread s) (manager s)"
    using inv by (simp add: ban_inv_def)
  ultimately show ?thesis
    by (auto simp: capture_inv_def once_def banned_def)
qed

theorem automatic_ban_once_witness:
  "\<not> is_blackholed flood_victim (ban_list_ipv4 (manager scanned_run)) \<and> buckets_thread scanned_run = ban_bucket_task flood_victim # [unlock_task, schedule_task]"
  using automatic_ban_once [OF scanned_reachable] by (simp add: scanned_run_def)

section \<open>A manual ban of a host with a capture\<close>

definition manual_run :: ban_system where
  "manual_run = scanned_run\<lparr>manager := (manager captured_run)\<lparr>ban_list_ipv4 := [(flood_victim, manual_attack)]\<rparr>,
     api_threads := [[start_ban_task flood_victim manual_attack []]]\<rparr>"

lemma manual_scanned:
  "run_moves example_environment True [Api_ban flood_victim, Api_move 0 0 0, Buckets_round, Buckets_move 0 0, Buckets_move 0 0, Buckets_move 0 0]
     captured_run = Done manual_run"
  by (simp add: move_simps manual_run_def scanned_run_def captured_run_def with_buckets_def flood_start_def example_manager_def
      add_to_blackhole_def)

lemma manual_reachable: "ban_reachable example_environment True manual_run"
  using run_moves_reachable [OF manual_scanned] run_moves_reachable [OF flood_captured flood_start_reachable] by blast

text \<open>
  A manual ban does not last when the host has a capture: the program promises not to lift manual bans by itself,
  but the automatic ban that follows the capture replaces the manual one, and the cleanup lifts it when its time is over.
\<close>

lemma manual_ban_overwritten:
  "\<exists>s s' a. ban_reachable example_environment True s
     \<and> get_blackhole_details flood_victim (ban_list_ipv4 (manager s)) = Some manual_attack
     \<and> ban_step example_environment True s s'
     \<and> get_blackhole_details flood_victim (ban_list_ipv4 (manager s')) = Some a
     \<and> we_could_unban_this_ip example_environment 61 (ipv4_host_counters (manager s')) (flood_victim, a)"
proof -
  let ?s' = "manual_run\<lparr>manager := (manager manual_run)\<lparr>ban_list_ipv4 := [(flood_victim, flood_attack)]\<rparr>,
      buckets_thread := [start_ban_task flood_victim flood_attack [], erase_bucket_task flood_victim, unlock_task, schedule_task]\<rparr>"
  have "run_move example_environment True (Buckets_move 0 0) manual_run = Done ?s'"
    by (simp add: move_simps manual_run_def scanned_run_def captured_run_def with_buckets_def bucket_at_def add_to_blackhole_def)
  then have "ban_step example_environment True manual_run ?s'"
    by (rule run_move_step)
  moreover have "of_int 60 < difftime 61 0"
    using difftime_greater [of 60 61 0] by simp
  ultimately show ?thesis
    using manual_reachable
    by (intro exI [of _ manual_run] exI [of _ ?s'] exI [of _ flood_attack])
      (simp add: get_blackhole_details_def manual_run_def we_could_unban_this_ip_def flood_attack_def attack_details_default_def)
qed

section \<open>A refresh that outlives the ban\<close>

text \<open>The states of the run between two rounds of a thread, by what they hold.\<close>

definition flood_state :: "(u32, packet_bucket_t) std_map \<Rightarrow> u32 blackhole_ban_list_t \<Rightarrow> (u32, int) std_map \<Rightarrow> system \<Rightarrow> ban_task list
    \<Rightarrow> ban_task list \<Rightarrow> ban_system" where
  "flood_state bs bans captures sys buckets cleanup = flood_start\<lparr>manager := (with_buckets bs)\<lparr>ban_list_ipv4 := bans,
       gobgp_flowspec_refresh_last_capture_time := captures, mitigation := sys\<rparr>,
     buckets_thread := buckets, cleanup_thread := cleanup\<rparr>"

definition flood_key :: gobgp_flowspec_rule_key_t where
  "flood_key = \<lparr>destination_ipv4 = flood_victim, protocol_present = True, key_protocol = ICMP, destination_port_present = False,
     key_destination_port = 0\<rparr>"

definition flood_rule :: "attack_details_t \<Rightarrow> u16 option \<Rightarrow> flow_spec_rule_t" where
  "flood_rule a port = build_gobgp_flowspec_ipv4_rule flood_victim a 0 port FLOW_SPEC_ACTION_DISCARD 0 0"

definition refresh_attack :: attack_details_t where
  "refresh_attack = attack_details_default\<lparr>attack_direction := INCOMING, attack_protocol := ucast ICMP\<rparr>"

definition refreshing :: "(gobgp_flowspec_rule_key_t, gobgp_flowspec_rule_state_t) std_map \<Rightarrow> lifecycle" where
  "refreshing rs = lifecycle_init\<lparr>rules := rs, victims_refresh_in_progress := {flood_victim}\<rparr>"

definition refresh_state :: "gobgp_flowspec_rule_state_type_t \<Rightarrow> string \<Rightarrow> (gobgp_flowspec_rule_key_t, gobgp_flowspec_rule_state_t) std_map" where
  "refresh_state phase uuid = [(flood_key, \<lparr>state = phase, flow_spec_rule = flood_rule refresh_attack None, add_path_uuid = uuid\<rparr>)]"

definition flood_classified :: "gobgp_flowspec_port_classifier_result_t option" where
  "flood_classified = automatic_classifier (gobgp_config example_environment) True flood_victim flood_attack []"

abbreviation flood_ban :: task where
  "flood_ban \<equiv> ban_task flood_victim flood_attack (Option.bind flood_classified selected_destination_port) flood_classified"

lemma flood_target: "configured_target (gobgp_config example_environment) = Some (FLOW_SPEC_ACTION_DISCARD, 0, 0, 0)"
  by (simp add: configured_target_def get_configured_gobgp_flowspec_action_def example_environment_def
      parse_gobgp_flowspec_action_def)

lemma flood_attacks [simp]: "attack_protocol flood_attack = 1" "attack_protocol refresh_attack = 1" "attack_direction flood_attack = INCOMING"
  by (simp_all add: flood_attack_def refresh_attack_def protocol_defs)

lemma flood_rule_key: "attack_protocol a = 1 \<Longrightarrow> build_gobgp_flowspec_rule_key (flood_rule a port) = Some flood_key"
  by (simp add: flood_rule_def built_rule_key flood_key_def protocol_defs)

lemma flood_announced: "AnnounceFlowSpecIPv4 (\<lambda>request. answer) (flood_rule a port) = (case answer of Some uuid \<Rightarrow> Done uuid | None \<Rightarrow> Failed)"
  by (simp add: flood_rule_def announce_built_rule configurable_action_def)

lemma flood_protocols:
  "get_average_speed flood_victim hc = Some flood_speed \<Longrightarrow> active_protocols_of example_environment hc flood_victim = [ICMP]"
  by (simp add: active_protocols_of_def get_gobgp_flowspec_protocol_admission_snapshot_def get_gobgp_flowspec_active_protocols_def
      ban_settings_default_def set_insert_def)

lemma flood_actions:
  "call_blackhole_actions_per_host example_environment True flood_victim flood_attack [] sys = sys\<lparr>threads := threads sys @ [[flood_ban]]\<rparr>"
  "call_blackhole_actions_per_host example_environment False ip a [] sys = sys\<lparr>threads := threads sys @ [[unban_task ip]]\<rparr>"
  by (simp_all add: call_blackhole_actions_per_host_def flood_classified_def gobgp_ban_manage_def gobgp_ban_manage_ipv4_def
      gobgp_ban_manage_flowspec_ipv4_def Let_def)

lemma flood_refresh:
  assumes "get_average_speed flood_victim hc = Some flood_speed"
  obtains r where "refresh_results example_environment hc flood_victim samples = [r]" "result_protocol r = ICMP"
proof (rule that)
  show "refresh_results example_environment hc flood_victim samples = [classify_refresh_protocol flood_victim ICMP samples
      \<lparr>min_samples = gobgp_flowspec_port_min_samples (gobgp_config example_environment),
       config_dominance_percent = gobgp_flowspec_port_dominance_percent (gobgp_config example_environment)\<rparr>
      (gobgp_flowspec_refresh_port_min_share_percent (gobgp_config example_environment))]"
    using assms by (simp add: refresh_results_def flood_protocols classify_gobgp_flowspec_refresh_protocols_def Let_def protocol_defs)
qed (simp add: classify_refresh_protocol_def refresh_result_default_def)

text \<open>What the tasks of the mitigation do to the lifecycle on this run.\<close>

lemma flood_tasks:
  "flowspec_ban (gobgp_config example_environment) flood_victim flood_attack port cl lifecycle_init =
     ([add_path_task flood_key (flood_rule flood_attack port) cl False], [],
      lifecycle_init\<lparr>rules := [(flood_key, announcing_state (flood_rule flood_attack port))]\<rparr>)"
  "fail_announce flood_key (lifecycle_init\<lparr>rules := [(flood_key, announcing_state r)]\<rparr>) = lifecycle_init"
  "flowspec_unban flood_victim lifecycle_init = ([], [], lifecycle_init)"
  "begin_refresh_capture flood_victim lifecycle_init = (True, refreshing [])"
  "result_protocol res = ICMP \<Longrightarrow> refresh_protocol (gobgp_config example_environment) flood_victim FLOW_SPEC_ACTION_DISCARD 0 0 0 res (refreshing []) =
     ([add_path_task flood_key (flood_rule refresh_attack None) None False], [], refreshing (refresh_state announcing []))"
  "complete_announce flood_key ''u'' (refreshing (refresh_state announcing [])) = (announce_installed, refreshing (refresh_state installed ''u''))"
  "finish_refresh_capture flood_victim (refreshing rs) = lifecycle_init\<lparr>rules := rs\<rparr>"
  subgoal
    by (simp add: flowspec_ban_def flood_target flood_rule_key flip: flood_rule_def)
      (simp add: begin_announce_def lifecycle_init_def map_emplace_def announce_gobgp_flowspec_ipv4_rule_def Let_def)
  subgoal
    by (simp add: fail_announce_def lifecycle_init_def announcing_state_def map_erase_def clear_withdraw_fence_if_finished_locked_def flood_key_def)
  subgoal
    by (simp add: flowspec_unban_def begin_withdraw_for_victim_def lifecycle_init_def clear_withdraw_fence_if_finished_locked_def
        victim_has_rules_locked_def)
  subgoal
    by (simp add: begin_refresh_capture_def lifecycle_init_def refreshing_def)
  subgoal
    by (simp add: refresh_protocol_def flood_rule_key Let_def flip: flood_rule_def refresh_attack_def)
      (simp add: begin_refresh_announce_def refreshing_def lifecycle_init_def map_emplace_def announce_gobgp_flowspec_ipv4_rule_def
        refresh_state_def announcing_state_def)
  subgoal
    by (simp add: complete_announce_def refreshing_def refresh_state_def)
  subgoal
    by (simp add: finish_refresh_capture_def refreshing_def lifecycle_init_def clear_withdraw_fence_if_finished_locked_def)
  done

lemmas flood_moves = move_simps flood_state_def with_buckets_def flood_start_def example_manager_def bucket_at_def erase_bucket_def
  remove_packet_capture_for_ip_def flood_actions add_to_blackhole_def system_init_def run_gobgp_def task_done_def get_whole_banlist_def
  map_erase_def flood_tasks flood_announced announce_answered_def

text \<open>The ban of the host, with GoBGP refusing the rule.\<close>

lemma flood_banned:
  "run_moves example_environment api [Buckets_move 0 0, Buckets_move 0 0, Buckets_move 0 0, Buckets_move 0 0] scanned_run =
     Done (flood_state [] [(flood_victim, flood_attack)] [] (system_init\<lparr>threads := [[flood_ban]]\<rparr>) [schedule_task] [])"
  by (simp add: flood_moves scanned_run_def captured_run_def)

lemma flood_refused:
  "run_moves example_environment api [Gobgp_move 0 None, Gobgp_move 0 None, Gobgp_move 0 None]
       (flood_state bs bans captures (system_init\<lparr>threads := [[flood_ban]]\<rparr>) buckets cleanup) =
     Done (flood_state bs bans captures (system_init\<lparr>threads := [[]]\<rparr>) buckets cleanup)"
  by (simp add: flood_moves)

text \<open>The scheduler copies the ban list, then the cleanup lifts the ban, whose UNBAN finds nothing to withdraw.\<close>

lemma flood_due: "we_could_unban_this_ip example_environment 1000 hc (flood_victim, flood_attack)"
proof -
  have "of_int 60 < difftime 1000 0"
    using difftime_greater [of 60 1000 0] by simp
  then show ?thesis
    by (simp add: we_could_unban_this_ip_def flood_attack_def attack_details_default_def)
qed

lemma flood_lifted:
  "run_moves example_environment api [Buckets_move 0 0, Cleanup_round, Cleanup_move 1000 0, Cleanup_move 1000 0, Cleanup_move 1000 0,
         Cleanup_move 1000 0, Cleanup_move 1000 0, Gobgp_move 1 None]
       (flood_state [] [(flood_victim, flood_attack)] [] (system_init\<lparr>threads := [[]]\<rparr>) [schedule_task] []) =
     Done (flood_state [] [] [] (system_init\<lparr>threads := [[], []]\<rparr>) [schedule_victim_task 0 flood_victim flood_attack] [])"
  by (simp add: flood_moves flood_due remove_from_blackhole_def prune_last_captures_def map_emplace_def)

text \<open>The scheduler goes on with its copy: the host that is no longer banned is captured again.\<close>

lemma flood_recaptured:
  "run_moves example_environment api [Buckets_move 0 0, Buckets_move 0 0, Buckets_move 0 0, Buckets_move 0 0]
       (flood_state [] [] [] (system_init\<lparr>threads := [[], []]\<rparr>) [schedule_victim_task 0 flood_victim flood_attack] []) =
     Done (flood_state [(flood_victim, flood_bucket FLOW_SPEC_REFRESH_ONCE)] [] [(flood_victim, 0)]
       (system_init\<lparr>sys_lifecycle := refreshing [], threads := [[], []]\<rparr>) [] [])"
  by (simp add: flood_moves flood_protocols captured_recently_def gobgp_flowspec_refresh_begin_ipv4_capture_def flood_bucket_def)

text \<open>The next round of the bucket thread starts the refresh.\<close>

lemma flood_refreshed:
  obtains res where "result_protocol res = ICMP"
    "run_moves example_environment api [Buckets_round, Buckets_move 0 0, Buckets_move 0 0, Buckets_move 0 0, Buckets_move 0 0, Buckets_move 0 0,
         Buckets_move 0 0, Buckets_move 0 0, Buckets_move 0 0]
       (flood_state [(flood_victim, flood_bucket FLOW_SPEC_REFRESH_ONCE)] [] [(flood_victim, 0)]
         (system_init\<lparr>sys_lifecycle := refreshing [], threads := [[], []]\<rparr>) [] []) =
     Done (flood_state [] [] [] (system_init\<lparr>sys_lifecycle := refreshing [], threads := [[], [], [refresh_task flood_victim [res]]]\<rparr>) [] [])"
proof (rule flood_refresh [of "\<lparr>counter_map = [], average_speed_map = [(flood_victim, flood_speed)]\<rparr>" "[]"])
  fix res
  assume "refresh_results example_environment \<lparr>counter_map = [], average_speed_map = [(flood_victim, flood_speed)]\<rparr> flood_victim [] = [res]"
    "result_protocol res = ICMP"
  then show thesis
    by (intro that [of res])
      (simp_all add: flood_moves prune_last_captures_def start_refresh_thread_def gobgp_flowspec_refresh_manage_ipv4_def)
qed (simp add: get_average_speed_def)

text \<open>GoBGP accepts the rule of the refresh.\<close>

lemma flood_leaked:
  assumes "result_protocol res = ICMP"
  shows "run_moves example_environment api [Gobgp_move 2 None, Gobgp_move 2 None, Gobgp_move 2 (Some ''u''), Gobgp_move 2 None, Gobgp_move 2 None]
       (flood_state [] [] [] (system_init\<lparr>sys_lifecycle := refreshing [], threads := [[], [], [refresh_task flood_victim [res]]]\<rparr>) [] []) =
     Done (flood_state [] [] [] (system_init\<lparr>sys_lifecycle := lifecycle_init\<lparr>rules := refresh_state installed ''u''\<rparr>,
       threads := [[], [], []], confirmed := {(''u'', flood_key)}\<rparr>) [] [])"
  using assms by (simp add: flood_moves refresh_thread_def flood_target)
    (simp add: example_environment_def gobgp_configuration_default_def send_gobgp_flowspec_success_notification_def)

definition leaked_run :: ban_system where
  "leaked_run = flood_state [] [] [] (system_init\<lparr>sys_lifecycle := lifecycle_init\<lparr>rules := refresh_state installed ''u''\<rparr>,
     threads := [[], [], []], confirmed := {(''u'', flood_key)}\<rparr>) [] []"

lemma leaked_reachable: "ban_reachable example_environment api leaked_run"
proof (rule flood_refreshed [of api])
  fix res
  assume icmp: "result_protocol res = ICMP" and refreshed: "run_moves example_environment api [Buckets_round, Buckets_move 0 0, Buckets_move 0 0,
         Buckets_move 0 0, Buckets_move 0 0, Buckets_move 0 0, Buckets_move 0 0, Buckets_move 0 0, Buckets_move 0 0]
       (flood_state [(flood_victim, flood_bucket FLOW_SPEC_REFRESH_ONCE)] [] [(flood_victim, 0)]
         (system_init\<lparr>sys_lifecycle := refreshing [], threads := [[], []]\<rparr>) [] []) =
     Done (flood_state [] [] [] (system_init\<lparr>sys_lifecycle := refreshing [], threads := [[], [], [refresh_task flood_victim [res]]]\<rparr>) [] [])"
  note banned = run_moves_reachable [OF flood_refused run_moves_reachable [OF flood_banned scanned_reachable]]
  note recaptured = run_moves_reachable [OF flood_recaptured run_moves_reachable [OF flood_lifted banned]]
  show ?thesis
    unfolding leaked_run_def by (rule run_moves_reachable [OF flood_leaked [OF icmp] run_moves_reachable [OF refreshed recaptured]])
qed

definition idle :: "ban_system \<Rightarrow> bool" where
  "idle s \<longleftrightarrow> speed_thread s = [] \<and> buckets_thread s = [] \<and> cleanup_thread s = [] \<and> concat (api_threads s) = []
     \<and> concat (threads (mitigation (manager s))) = []"

text \<open>
  C29. A refresh can outlive the ban it belongs to. The scheduler of the refresh works on a copy of the ban list, and
  nothing stops a capture it begins after the UNBAN has finished: there is a run of the threads, without the API, after
  which every thread has finished, no host is banned and no capture is open, while a rule for the victim is installed at
  GoBGP and no ban is left whose end would withdraw it.
\<close>

theorem stale_refresh_leaks_rule:
  "\<exists>s key uuid. ban_reachable example_environment False s \<and> idle s \<and> ban_list_ipv4 (manager s) = []
     \<and> packet_buckets_map (packet_buckets_ipv4_storage (manager s)) = []
     \<and> (uuid, key) \<in> confirmed (mitigation (manager s)) \<and> destination_ipv4 key = flood_victim
     \<and> holds (sys_lifecycle (mitigation (manager s))) key uuid"
  using leaked_reachable
  by (intro exI [of _ leaked_run] exI [of _ flood_key] exI [of _ "''u''"])
    (simp add: leaked_run_def idle_def flood_state_def flood_start_def with_buckets_def flood_key_def holds_def refresh_state_def)

end
