(* ===== verification/Ban_Mitigation.thy ===== *)
theory Ban_Mitigation
  imports Ban_Races Mitigation_Runs
begin

text \<open>
  The ban manager drives the mitigation only by the steps \<open>mitigation_step\<close> allows, so that what holds for every
  run of the mitigation threads holds for every run of the whole ban manager.
\<close>

section \<open>Attacks on our networks\<close>

text \<open>The lookup of networks returns configured networks, whose prefixes have a legal length.\<close>

definition legal_networks :: "ban_environment \<Rightarrow> bool" where
  "legal_networks env \<longleftrightarrow> (\<forall>ip. case lookup_tree_ipv4 env ip of None \<Rightarrow> True | Some net \<Rightarrow> unat (cidr_prefix_length net) \<le> 32)"

definition legal_network :: "attack_details_t \<Rightarrow> bool" where
  "legal_network a \<longleftrightarrow> unat (cidr_prefix_length (customer_network a)) \<le> 32"

fun legal_task :: "ban_task \<Rightarrow> bool" where
  "legal_task (start_ban_task ip a samples) \<longleftrightarrow> legal_network a"
| "legal_task (schedule_victim_task t ip a) \<longleftrightarrow> legal_network a"
| "legal_task (schedule_admit_task t ip a) \<longleftrightarrow> legal_network a"
| "legal_task (schedule_begin_task t ip a) \<longleftrightarrow> legal_network a"
| "legal_task (schedule_enable_task t ip a) \<longleftrightarrow> legal_network a"
| "legal_task (unban_loop_task t rest for_erase) \<longleftrightarrow> list_all (\<lambda>e. legal_network (snd e)) rest"
| "legal_task (start_unban_task ip a) \<longleftrightarrow> legal_network a"
| "legal_task (api_remove_task ip a) \<longleftrightarrow> legal_network a"
| "legal_task t \<longleftrightarrow> True"

definition legal_buckets :: "u32 packet_buckets_storage_t \<Rightarrow> bool" where
  "legal_buckets b \<longleftrightarrow> list_all (\<lambda>e. legal_network (bucket_attack_details (snd e))) (packet_buckets_map b)"

definition legal_bans :: "u32 blackhole_ban_list_t \<Rightarrow> bool" where
  "legal_bans l \<longleftrightarrow> list_all (\<lambda>e. legal_network (snd e)) l"

definition legal_manager :: "ban_manager \<Rightarrow> bool" where
  "legal_manager m \<longleftrightarrow> legal_buckets (packet_buckets_ipv4_storage m) \<and> legal_bans (ban_list_ipv4 m)"

lemma legal_defaults [simp]: "legal_network manual_attack" "legal_network attack_details_default"
    "legal_network (bucket_attack_details packet_bucket_default)"
  by (simp_all add: legal_network_def manual_attack_def attack_details_default_def subnet_cidr_mask_def packet_bucket_default_def)

lemma legal_detected:
  assumes "legal_networks env" "detected_attack env now ip c = Done a" shows "legal_network a"
proof -
  have "legal_network (a'\<lparr>customer_network := lookup_ip_in_integer_form_inpatricia_and_return_subnet_if_found env ip\<rparr>)" for a' :: attack_details_t
    using assms(1) spec [of _ ip] unfolding legal_networks_def
    by (auto simp: legal_network_def lookup_ip_in_integer_form_inpatricia_and_return_subnet_if_found_def subnet_cidr_mask_def
        split: option.splits)
  then show ?thesis
    using assms(2) by (auto simp: detected_attack_def and_then_Done_iff Let_def split: prod.splits)
qed

lemma legal_bucket_at: "legal_manager m \<Longrightarrow> legal_network (bucket_attack_details (bucket_at ip m))"
  by (auto simp: legal_manager_def legal_buckets_def bucket_at_def list_all_iff dest!: map_find_mem split: option.splits)

lemma legal_add: "legal_bans l \<Longrightarrow> legal_network a \<Longrightarrow> legal_bans (add_to_blackhole ip a l)"
  by (auto simp: legal_bans_def add_to_blackhole_def list_all_iff dest!: set_map_put)

lemma legal_remove: "legal_bans l \<Longrightarrow> legal_bans (remove_from_blackhole ip l)"
  by (auto simp: legal_bans_def remove_from_blackhole_def list_all_iff map_erase_def)

lemma legal_copy: "legal_bans l \<Longrightarrow> legal_bans (get_whole_banlist l [])"
proof -
  have "legal_bans l \<Longrightarrow> legal_bans acc \<Longrightarrow> legal_bans (fold (\<lambda>e. map_emplace (fst e) (snd e)) l acc)" for acc
  proof (induction l arbitrary: acc)
    case (Cons e l)
    then show ?case
      using legal_add [of acc "snd e" "fst e"] by (auto simp: legal_bans_def add_to_blackhole_def map_emplace_def)
  qed simp
  then show "legal_bans l \<Longrightarrow> ?thesis"
    by (simp add: get_whole_banlist_def legal_bans_def)
qed

lemma legal_details: "legal_bans l \<Longrightarrow> get_blackhole_details ip l = Some a \<Longrightarrow> legal_network a"
  by (auto simp: legal_bans_def get_blackhole_details_def list_all_iff dest!: map_find_mem)

lemma legal_enable: "legal_buckets b \<Longrightarrow> legal_network a \<Longrightarrow> legal_buckets (snd (enable_packet_capture clock ip a pattern b))"
  by (auto simp: legal_buckets_def enable_packet_capture_def new_capture_def list_all_iff Let_def dest!: set_map_put)

lemma legal_erase: "legal_buckets b \<Longrightarrow> legal_buckets (remove_packet_capture_for_ip ip b)"
  by (auto simp: legal_buckets_def remove_packet_capture_for_ip_def map_erase_def list_all_iff)

lemma legal_traffic:
  assumes "add_packet_to_storage clock ip p b = Done (added, b')" "legal_buckets b" shows "legal_buckets b'"
proof -
  have "bucket_attack_details x' = bucket_attack_details x" if "collect_packet clock p x = Done x'" for x x'
    using that by (auto simp: collect_packet_def store_raw_packet_def close_filled_bucket_def Let_def and_then_Done_iff
        split: option.splits if_splits)
  then show ?thesis
    using assms by (auto simp: add_packet_to_storage_def legal_buckets_def list_all_iff and_then_Done_iff Ball_def split_paired_all
        dest!: set_map_put map_find_mem split: option.splits if_splits)
qed

section \<open>Every task is a step of the mitigation\<close>

definition drives :: "ban_environment \<Rightarrow> system \<Rightarrow> system \<Rightarrow> bool" where
  "drives env sys sys' \<longleftrightarrow> sys' = sys \<or> mitigation_step (community_split env) (ipv6_reader env) (gobgp_config env) sys sys'"

lemma drives_refl [simp]: "drives env sys sys"
  by (simp add: drives_def)

lemma drives_actions: "legal_network a \<Longrightarrow> drives env sys (call_blackhole_actions_per_host env is_ban ip a samples sys)"
proof -
  have "legal_network a \<Longrightarrow> legal_attack a zero_ipv6_address"
    by (simp add: legal_attack_def legal_network_def zero_ipv6_address_def subnet_ipv6_default_def)
  then show "legal_network a \<Longrightarrow> ?thesis"
    by (auto simp: drives_def call_blackhole_actions_per_host_def Let_def intro: start_ban)
qed

lemma drives_capture:
  "drives env sys (finish_capture ip sys)" "drives env sys (start_refresh_thread env ip results sys)"
  "drives env sys (sys\<lparr>sys_lifecycle := snd (gobgp_flowspec_refresh_begin_ipv4_capture ip (sys_lifecycle sys))\<rparr>)"
  by (auto simp: drives_def finish_capture_def start_refresh_thread_def intro: mitigation_step.intros)

lemma drives_orphan: "drives env (mitigation m) (mitigation (remove_orphan ip m))"
  using drives_capture(1) [of env "mitigation m" ip] by (simp add: remove_orphan_def erase_bucket_def)

lemma run_drives:
  assumes "run_ban_task env now clock t locked m = Done (tasks, locked', m')" "legal_task t"
  shows "drives env (mitigation m) (mitigation m')"
proof -
  have loop: "unban_loop env x rest for_erase locked m = Done (tasks, locked', m') \<Longrightarrow> m' = m" for x rest for_erase
    by (cases "(env, x, rest, for_erase, locked, m)" rule: unban_loop.cases) auto
  have begun: "drives env (mitigation m) ((mitigation m)\<lparr>sys_lifecycle := lc\<rparr>)"
    if "gobgp_flowspec_refresh_begin_ipv4_capture ip (sys_lifecycle (mitigation m)) = (b, lc)" for ip b lc
    using drives_capture(3) [of env "mitigation m" ip] that by simp
  show ?thesis
    using assms by (cases t) (auto simp: task_defs drives_actions drives_capture drives_orphan begun erase_bucket_def
        dest!: loop split: if_splits prod.splits)
qed

lemma run_legal_manager:
  assumes "run_ban_task env now clock t locked m = Done (tasks, locked', m')" "legal_networks env" "legal_task t" "legal_manager m"
  shows "legal_manager m'"
proof -
  have loop: "unban_loop env x rest for_erase locked m = Done (tasks, locked', m') \<Longrightarrow> m' = m" for x rest for_erase
    by (cases "(env, x, rest, for_erase, locked, m)" rule: unban_loop.cases) auto
  have enable: "legal_buckets b'" if "enable_packet_capture clock ip a pattern (packet_buckets_ipv4_storage m) = (e, b')" "legal_network a"
    for ip a pattern e b'
    using legal_enable [of "packet_buckets_ipv4_storage m" a clock ip pattern] that assms(4) by (simp add: legal_manager_def)
  show ?thesis
    using assms legal_bucket_at [OF assms(4)] legal_detected [OF assms(2)]
    by (cases t) (auto simp: task_defs legal_manager_def legal_add legal_remove legal_erase legal_enable remove_orphan_def erase_bucket_def
        dest!: loop dest: enable split: if_splits prod.splits)
qed

lemma run_legal_tasks:
  assumes "run_ban_task env now clock t locked m = Done (tasks, locked', m')" "legal_task t" "legal_manager m"
  shows "list_all legal_task tasks"
proof -
  have loop: "unban_loop env x rest for_erase locked m = Done (tasks, locked', m') \<Longrightarrow> list_all (\<lambda>e. legal_network (snd e)) rest
      \<Longrightarrow> list_all legal_task tasks" for x rest for_erase
    by (cases "(env, x, rest, for_erase, locked, m)" rule: unban_loop.cases) (auto simp: list_all_iff split: if_splits)
  have copy: "list_all (\<lambda>e. legal_network (snd e)) (get_whole_banlist (ban_list_ipv4 m) [])"
    using legal_copy assms(3) by (simp add: legal_manager_def legal_bans_def)
  show ?thesis
    using assms legal_bucket_at [OF assms(3)] copy legal_details [of "ban_list_ipv4 m"]
    by (cases t) (auto simp: task_defs legal_manager_def list_all_iff Ball_def split_paired_all dest!: loop split: if_splits prod.splits option.splits)
qed

definition legal_system :: "ban_system \<Rightarrow> bool" where
  "legal_system s \<longleftrightarrow> legal_manager (manager s) \<and> list_all legal_task (speed_thread s) \<and> list_all legal_task (buckets_thread s)
     \<and> list_all legal_task (cleanup_thread s) \<and> list_all (list_all legal_task) (api_threads s)"

definition composed_inv :: "ban_environment \<Rightarrow> ban_system \<Rightarrow> bool" where
  "composed_inv env s \<longleftrightarrow> (legal_networks env \<longrightarrow> legal_system s
     \<and> reachable (community_split env) (ipv6_reader env) (gobgp_config env) (mitigation (manager s)))"

lemma reachable_drives: "reachable (community_split env) (ipv6_reader env) (gobgp_config env) sys \<Longrightarrow> drives env sys sys'
    \<Longrightarrow> reachable (community_split env) (ipv6_reader env) (gobgp_config env) sys'"
  by (auto simp: drives_def intro: reachable_step)

lemma composed_task:
  assumes "run_ban_task env now clock t locked (manager s) = Done (tasks, locked', m')" "legal_task t" "legal_networks env"
    "legal_system s" "reachable (community_split env) (ipv6_reader env) (gobgp_config env) (mitigation (manager s))"
  shows "legal_manager m'" "list_all legal_task tasks"
    "reachable (community_split env) (ipv6_reader env) (gobgp_config env) (mitigation m')"
proof -
  have m: "legal_manager (manager s)"
    using assms(4) by (simp add: legal_system_def)
  show "legal_manager m'" "list_all legal_task tasks"
    by (rule run_legal_manager [OF assms(1,3,2) m], rule run_legal_tasks [OF assms(1,2) m])
  show "reachable (community_split env) (ipv6_reader env) (gobgp_config env) (mitigation m')"
    by (rule reachable_drives [OF assms(5) run_drives [OF assms(1,2)]])
qed

lemma composed_step:
  assumes "composed_inv env s" "ban_step env api s s'" shows "composed_inv env s'"
  unfolding composed_inv_def
proof (intro impI)
  assume legal: "legal_networks env"
  then have inv: "legal_system s" "reachable (community_split env) (ipv6_reader env) (gobgp_config env) (mitigation (manager s))"
    using assms(1) by (simp_all add: composed_inv_def)
  note task = composed_task [OF _ _ legal inv]
  show "legal_system s' \<and> reachable (community_split env) (ipv6_reader env) (gobgp_config env) (mitigation (manager s'))"
    using assms(2)
  proof cases
    case (traffic clock ip p added b)
    then show ?thesis
      using inv legal_traffic [OF traffic(3)] by (simp add: legal_system_def legal_manager_def)
  next
    case (speed_task t rest now clock tasks locked m)
    then show ?thesis
      using inv(1) task [OF speed_task(3)] by (simp add: legal_system_def)
  next
    case (buckets_task t rest now clock tasks locked m)
    then show ?thesis
      using inv(1) task [OF buckets_task(3)] by (simp add: legal_system_def)
  next
    case (cleanup_task t rest now clock tasks locked m)
    then show ?thesis
      using inv(1) task [OF cleanup_task(3)] by (simp add: legal_system_def)
  next
    case (api_task i t rest now clock tasks locked m)
    then have "list_all legal_task (t # rest)"
      using inv(1) nth_mem [OF api_task(2)] by (auto simp: legal_system_def list_all_iff simp del: nth_mem)
    then have "legal_task t" "list_all legal_task rest"
      by simp_all
    then show ?thesis
      using inv(1) task [OF api_task(4)] api_task(1)
      by (auto simp: legal_system_def list_all_iff dest!: set_update_subset_insert [THEN subsetD])
  next
    case (mitigation_task sys)
    then show ?thesis
      using inv reachable_step [OF inv(2) thread] by (simp add: legal_system_def legal_manager_def)
  qed (use inv in \<open>auto simp: legal_system_def legal_manager_def\<close>)
qed

lemma composed_init: "ban_init s \<Longrightarrow> composed_inv env s"
  by (simp add: ban_init_def composed_inv_def legal_system_def legal_manager_def legal_buckets_def legal_bans_def reachable_init)

interpretation composed: invariant_system ban_init "ban_step env api" "composed_inv env" for env api
  by unfold_locales (fact composed_init, fact composed_step)

text \<open>
  C12. The ban manager respects the contract of the mitigation. Whatever the traffic, the interleaving of its threads,
  the calls of the API and the answers of GoBGP, with networks of legal prefix lengths, the state of the mitigation is
  one its own threads reach by the allowed steps. So every path GoBGP has confirmed is recorded or about to be
  recorded, and when all threads have finished the recorded UUIDs are exactly the confirmed paths.
\<close>

theorem ban_manager_keeps_paths:
  assumes "ban_reachable env api s" "legal_networks env"
  defines "sys \<equiv> mitigation (manager s)"
  shows "reachable (community_split env) (ipv6_reader env) (gobgp_config env) sys
    \<and> (\<forall>u k. (u, k) \<in> confirmed sys \<longrightarrow> holds (sys_lifecycle sys) k u \<or> (\<exists>t \<in># pending sys. just_added k u t))
    \<and> (idle s \<longrightarrow> confirmed sys = {(u, k). holds (sys_lifecycle sys) k u})"
proof -
  have r: "reachable (community_split env) (ipv6_reader env) (gobgp_config env) sys"
    using composed.inv_reach [of env api s] assms by (simp add: ban_reachable_def composed_inv_def)
  note inv = reachable_owned(1) [OF r]
  have "pending sys = {#}" if "idle s"
    using that by (auto simp: idle_def pending_def sys_def)
  then have "owned (sys_lifecycle sys) {#} (confirmed sys)" if "idle s"
    using inv that by simp
  then show ?thesis
    using r path_accounted [OF inv] quiescent_paths(1) by blast
qed

theorem ban_manager_keeps_paths_witness:
  "confirmed (mitigation (manager leaked_run)) = {(u, k). holds (sys_lifecycle (mitigation (manager leaked_run))) k u}
     \<and> reachable (\<lambda>s d. [s]) (\<lambda>s. None) (gobgp_config example_environment) (mitigation (manager leaked_run))"
proof -
  have "legal_networks example_environment"
    by (simp add: legal_networks_def subnet_cidr_mask_def)
  moreover have "idle leaked_run"
    by (simp add: idle_def leaked_run_def flood_state_def flood_start_def)
  ultimately show ?thesis
    using ban_manager_keeps_paths [OF leaked_reachable] by (simp add: example_environment_def)
qed

end
