(* ===== verification/Ipv6_Bans.thy ===== *)
theory Ipv6_Bans
  imports Ban_Manager "HOL-Library.List_Lexorder" "HOL-Library.Product_Lexorder"
begin

text \<open>
  The bans of IPv6 hosts (\<^verbatim>\<open>src/fastnetmon_logic.cpp\<close>) and the whole round of the thread that checks the
  packet buckets. IPv6 hosts are kept as networks of length 128 and are only blackholed.
\<close>

section \<open>Keys\<close>

text \<open>\<^verbatim>\<open>operator<\<close> of IPv6 networks: prefix lengths first, then the bytes of the addresses with \<^verbatim>\<open>memcmp\<close>.\<close>

definition subnet6_tie :: "'a subnet_ipv6_cidr_mask_t_scheme \<Rightarrow> u32 \<times> bytes \<times> 'a" where
  "subnet6_tie n = (cidr_prefix_length6 n, subnet_address6 n, subnet_ipv6_cidr_mask_t.more n)"

lemma subnet6_tie_inj: "subnet6_tie n = subnet6_tie n' \<longleftrightarrow> n = n'"
  by (cases n; cases n') (auto simp: subnet6_tie_def)

instantiation subnet_ipv6_cidr_mask_t_ext :: (linorder) linorder
begin

definition less_eq_subnet_ipv6_cidr_mask_t_ext ::
    "'a subnet_ipv6_cidr_mask_t_scheme \<Rightarrow> 'a subnet_ipv6_cidr_mask_t_scheme \<Rightarrow> bool" where
  "less_eq_subnet_ipv6_cidr_mask_t_ext n n' \<longleftrightarrow> subnet6_tie n \<le> subnet6_tie n'"

definition less_subnet_ipv6_cidr_mask_t_ext ::
    "'a subnet_ipv6_cidr_mask_t_scheme \<Rightarrow> 'a subnet_ipv6_cidr_mask_t_scheme \<Rightarrow> bool" where
  "less_subnet_ipv6_cidr_mask_t_ext n n' \<longleftrightarrow> subnet6_tie n < subnet6_tie n'"

instance
  by standard
    (auto simp: less_eq_subnet_ipv6_cidr_mask_t_ext_def less_subnet_ipv6_cidr_mask_t_ext_def subnet6_tie_inj dest: order.antisym)

end

section \<open>State\<close>

record ipv6_ban_manager =
  ipv6_host_counters :: "subnet_ipv6_cidr_mask_t abstract_subnet_counters_t"
  ban_list_ipv6 :: "subnet_ipv6_cidr_mask_t blackhole_ban_list_t"
  packet_buckets_ipv6_storage :: "subnet_ipv6_cidr_mask_t packet_buckets_storage_t"

section \<open>Detection\<close>

text \<open>The whitelist is a Patricia tree. All hosts belong to the global group; the network of the host is not looked up.\<close>

definition detected_attack_ipv6 :: "ban_environment \<Rightarrow> int \<Rightarrow> subnet_counter_t \<Rightarrow> attack_details_t outcome" where
  "detected_attack_ipv6 env now speed_element =
     and_then (fill_attack_information now ''global'' [] (unban_enabled_option env) (global_ban_time env)
         (attack_details_default\<lparr>traffic_counters := speed_element\<rparr>))
       (\<lambda>a. Done (a\<lparr>ipv6 := True\<rparr>))"

definition speed_calculation_callback_local_ipv6 ::
    "ban_environment \<Rightarrow> (bytes \<Rightarrow> bool) \<Rightarrow> int \<Rightarrow> int \<Rightarrow> subnet_ipv6_cidr_mask_t \<Rightarrow> subnet_counter_t \<Rightarrow> ipv6_ban_manager
      \<Rightarrow> ipv6_ban_manager outcome" where
  "speed_calculation_callback_local_ipv6 env whitelist_tree_ipv6 now clock current_subnet speed_element s =
     (let settings = global_ban_settings (ban_config env) in
      if \<not> enable_ban_ipv6 settings then Done s
      else if \<not> fst (we_should_ban_this_entity speed_element settings) then Done s
      else if whitelist_tree_ipv6 (subnet_address6 current_subnet) then Done s
      else if we_have_bucket_for_this_ip current_subnet (packet_buckets_ipv6_storage s) then Done s
      else if is_blackholed current_subnet (ban_list_ipv6 s) then Done s
      else and_then (detected_attack_ipv6 env now speed_element) (\<lambda>attack_details.
        Done (s\<lparr>packet_buckets_ipv6_storage :=
          snd (enable_packet_capture clock current_subnet attack_details ONCE (packet_buckets_ipv6_storage s))\<rparr>)))"

section \<open>Ban and unban\<close>

text \<open>The GoBGP part of \<^verbatim>\<open>call_blackhole_actions_per_host\<close> for IPv6, which never classifies ports.\<close>

definition call_blackhole_actions_per_host_ipv6 ::
    "ban_environment \<Rightarrow> bool \<Rightarrow> subnet_ipv6_cidr_mask_t \<Rightarrow> attack_details_t \<Rightarrow> system \<Rightarrow> system" where
  "call_blackhole_actions_per_host_ipv6 env is_ban client_ipv6 current_attack sys =
     (let c = gobgp_config env
      in if gobgp c
         then sys\<lparr>threads := threads sys @ [gobgp_ban_manage (community_split env) (ipv6_reader env) c
                (if is_ban then ''ban'' else ''unban'') True 0 client_ipv6 current_attack None None]\<rparr>
         else sys)"

definition execute_ipv6_ban ::
    "ban_environment \<Rightarrow> subnet_ipv6_cidr_mask_t \<Rightarrow> attack_details_t \<Rightarrow> ipv6_ban_manager \<times> system \<Rightarrow> ipv6_ban_manager \<times> system" where
  "execute_ipv6_ban env ipv6_client current_attack = (\<lambda>(s, sys).
     (s\<lparr>ban_list_ipv6 := add_to_blackhole ipv6_client current_attack (ban_list_ipv6 s)\<rparr>,
      call_blackhole_actions_per_host_ipv6 env True ipv6_client current_attack sys))"

text \<open>Whether the attack has finished is not asked.\<close>

definition we_could_unban_this_ipv6 :: "int \<Rightarrow> subnet_ipv6_cidr_mask_t \<times> attack_details_t \<Rightarrow> bool" where
  "we_could_unban_this_ipv6 current_time = (\<lambda>(client_ip, a).
     unban_enabled a \<and> attack_detection_source a \<noteq> Manual \<and> difftime current_time (ban_timestamp a) > of_int (ban_time a))"

definition execute_unban_operation_ipv6 ::
    "ban_environment \<Rightarrow> int \<Rightarrow> ipv6_ban_manager \<times> system \<Rightarrow> ipv6_ban_manager \<times> system" where
  "execute_unban_operation_ipv6 env current_time = (\<lambda>(s, sys).
     let ban_list_copy = get_whole_banlist (ban_list_ipv6 s) [];
         ban_list_items_for_erase = filter (we_could_unban_this_ipv6 current_time) ban_list_copy
     in (s\<lparr>ban_list_ipv6 := fold (\<lambda>(client_ip, a). remove_from_blackhole client_ip) ban_list_items_for_erase (ban_list_ipv6 s)\<rparr>,
         fold (\<lambda>(client_ip, a). call_blackhole_actions_per_host_ipv6 env False client_ip a) ban_list_items_for_erase sys))"

section \<open>Filled buckets\<close>

definition process_filled_bucket_ipv6 ::
    "ban_environment \<Rightarrow> subnet_ipv6_cidr_mask_t \<times> packet_bucket_t \<Rightarrow> ipv6_ban_manager \<times> system \<Rightarrow> ipv6_ban_manager \<times> system" where
  "process_filled_bucket_ipv6 env = (\<lambda>(ipv6_address, bucket) state.
     let (s, sys) = execute_ipv6_ban env ipv6_address (bucket_attack_details bucket) state
     in (s\<lparr>packet_buckets_ipv6_storage := remove_packet_capture_for_ip ipv6_address (packet_buckets_ipv6_storage s)\<rparr>, sys))"

definition bucket_is_filled_ipv6 :: "packet_bucket_t \<Rightarrow> bool" where
  "bucket_is_filled_ipv6 b \<longleftrightarrow> collection_pattern b = ONCE \<and> we_collected_full_buffer_least_once b \<and> \<not> is_already_processed b"

definition process_filled_buckets_ipv6 :: "ban_environment \<Rightarrow> ipv6_ban_manager \<times> system \<Rightarrow> ipv6_ban_manager \<times> system" where
  "process_filled_buckets_ipv6 env = (\<lambda>(s, sys).
     fold (process_filled_bucket_ipv6 env)
       (filter (\<lambda>(ip, b). bucket_is_filled_ipv6 b) (packet_buckets_map (packet_buckets_ipv6_storage s))) (s, sys))"

text \<open>One round of the thread that checks the buckets.\<close>

definition check_traffic_buckets ::
    "ban_environment \<Rightarrow> int \<Rightarrow> int \<Rightarrow> ban_manager \<times> ipv6_ban_manager \<Rightarrow> (ban_manager \<times> ipv6_ban_manager) outcome" where
  "check_traffic_buckets env current_time clock = (\<lambda>(s, s6).
     let s = remove_orphaned_buckets_ipv4 clock s;
         s6 = s6\<lparr>packet_buckets_ipv6_storage := snd (remove_orphaned_buckets clock (packet_buckets_ipv6_storage s6))\<rparr>;
         s = process_filled_buckets_ipv4 env s
     in and_then (schedule_gobgp_flowspec_refresh_captures env current_time clock s) (\<lambda>s.
          let (s6, sys) = process_filled_buckets_ipv6 env (s6, mitigation s)
          in Done (s\<lparr>mitigation := sys\<rparr>, s6)))"

text \<open>One round of the cleanup thread.\<close>

definition cleanup_ban_list ::
    "ban_environment \<Rightarrow> int \<Rightarrow> ban_manager \<times> ipv6_ban_manager \<Rightarrow> ban_manager \<times> ipv6_ban_manager" where
  "cleanup_ban_list env current_time = (\<lambda>(s, s6).
     let s = execute_unban_operation_ipv4 env current_time s;
         (s6, sys) = execute_unban_operation_ipv6 env current_time (s6, mitigation s)
     in (s\<lparr>mitigation := sys\<rparr>, s6))"

section \<open>What the operations achieve\<close>

text \<open>The announce of a host, or its withdrawal.\<close>

definition blackhole_thread :: "ban_environment \<Rightarrow> bool \<Rightarrow> subnet_ipv6_cidr_mask_t \<Rightarrow> task list" where
  "blackhole_thread env is_withdrawal client_ipv6 =
     gobgp_ban_manage_ipv6 (community_split env) (ipv6_reader env) (gobgp_config env) client_ipv6 is_withdrawal"

fun withdrawal_of :: "task \<Rightarrow> task" where
  "withdrawal_of (announce_ipv6_task a is_withdrawal) = announce_ipv6_task a True"
| "withdrawal_of t = t"

lemma blackhole_withdrawn: "blackhole_thread env True ip = map withdrawal_of (blackhole_thread env False ip)"
  by (simp add: blackhole_thread_def gobgp_ban_manage_ipv6_def Let_def split: option.split)

lemma actions_ipv6_start_thread:
  "gobgp (gobgp_config env) \<Longrightarrow> call_blackhole_actions_per_host_ipv6 env is_ban ip a sys =
     sys\<lparr>threads := threads sys @ [blackhole_thread env (\<not> is_ban) ip]\<rparr>"
  by (simp add: call_blackhole_actions_per_host_ipv6_def blackhole_thread_def gobgp_ban_manage_def Let_def)

lemma fold_actions_ipv6:
  assumes "gobgp (gobgp_config env)"
  shows "fold (\<lambda>(ip, a). call_blackhole_actions_per_host_ipv6 env is_ban ip a) es sys =
     sys\<lparr>threads := threads sys @ map (\<lambda>e. blackhole_thread env (\<not> is_ban) (fst e)) es\<rparr>"
proof (induction es arbitrary: sys)
  case (Cons e es)
  then show ?case
    by (cases e) (simp add: actions_ipv6_start_thread [OF assms])
qed simp

lemma fold_filled_ipv6:
  assumes "gobgp (gobgp_config env)"
  shows "fold (process_filled_bucket_ipv6 env) es (s, sys) =
     (s\<lparr>ban_list_ipv6 := fold (\<lambda>e. add_to_blackhole (fst e) (bucket_attack_details (snd e))) es (ban_list_ipv6 s),
        packet_buckets_ipv6_storage := (packet_buckets_ipv6_storage s)\<lparr>packet_buckets_map :=
          filter (\<lambda>e. fst e \<notin> fst ` set es) (packet_buckets_map (packet_buckets_ipv6_storage s))\<rparr>\<rparr>,
      sys\<lparr>threads := threads sys @ map (\<lambda>e. blackhole_thread env False (fst e)) es\<rparr>)"
proof (induction es arbitrary: s sys)
  case (Cons e es)
  obtain ip b where e: "e = (ip, b)"
    by (cases e)
  have "filter (\<lambda>e. fst e \<notin> fst ` set es) (map_erase ip m) = filter (\<lambda>e'. fst e' \<notin> fst ` set (e # es)) m"
    for m :: "(subnet_ipv6_cidr_mask_t, packet_bucket_t) std_map"
    by (auto simp: map_erase_def e intro: filter_cong)
  moreover have "process_filled_bucket_ipv6 env e (s, sys) =
      (s\<lparr>ban_list_ipv6 := add_to_blackhole ip (bucket_attack_details b) (ban_list_ipv6 s),
         packet_buckets_ipv6_storage := (packet_buckets_ipv6_storage s)\<lparr>packet_buckets_map :=
           map_erase ip (packet_buckets_map (packet_buckets_ipv6_storage s))\<rparr>\<rparr>,
       sys\<lparr>threads := threads sys @ [blackhole_thread env False ip]\<rparr>)"
    by (simp add: e process_filled_bucket_ipv6_def execute_ipv6_ban_def actions_ipv6_start_thread [OF assms]
        remove_packet_capture_for_ip_def)
  ultimately show ?case
    by (simp add: e Cons.IH)
qed simp

lemma select_convs_ipv6: "packet_buckets_map (packet_buckets_ipv6_storage (s\<lparr>ban_list_ipv6 := l,
    packet_buckets_ipv6_storage := b\<lparr>packet_buckets_map := m\<rparr>\<rparr>)) = m"
  by simp

definition ban_expired_ipv6 :: "int \<Rightarrow> subnet_ipv6_cidr_mask_t \<times> attack_details_t \<Rightarrow> bool" where
  "ban_expired_ipv6 current_time = (\<lambda>(client_ip, a).
     unban_enabled a \<and> attack_detection_source a \<noteq> Manual \<and> ban_timestamp a + ban_time a < current_time)"

text \<open>
  IPv6 hosts are blackholed and released: every filled capture bans its host once and starts the thread that
  announces it, exactly the bans that have run out are lifted, each with a thread that withdraws precisely what the
  ban announced, and neither touches the FlowSpec rules.
\<close>

lemma ipv6_bans_blackholed:
  assumes "ordered (packet_buckets_map (packet_buckets_ipv6_storage s))" "ordered (ban_list_ipv6 s)"
    "list_all (\<lambda>(ip, a). \<bar>ban_time a\<bar> < 2 ^ 31) (ban_list_ipv6 s)" "gobgp (gobgp_config env)"
  shows "(let (s', sys') = process_filled_buckets_ipv6 env (s, sys); buckets = packet_buckets_map (packet_buckets_ipv6_storage s);
           filled = filter (\<lambda>e. bucket_is_filled_ipv6 (snd e)) buckets
       in packet_buckets_map (packet_buckets_ipv6_storage s') = filter (\<lambda>e. \<not> bucket_is_filled_ipv6 (snd e)) buckets
        \<and> (\<forall>ip. map_find (ban_list_ipv6 s') ip =
             (case map_of filled ip of Some b \<Rightarrow> Some (bucket_attack_details b) | None \<Rightarrow> map_find (ban_list_ipv6 s) ip))
        \<and> sys' = sys\<lparr>threads := threads sys @ map (\<lambda>e. blackhole_thread env False (fst e)) filled\<rparr>)
    \<and> (let (s', sys') = execute_unban_operation_ipv6 env current_time (s, sys); expired = filter (ban_expired_ipv6 current_time) (ban_list_ipv6 s)
       in ban_list_ipv6 s' = filter (\<lambda>e. \<not> ban_expired_ipv6 current_time e) (ban_list_ipv6 s)
        \<and> sys' = sys\<lparr>threads := threads sys @ map (\<lambda>e. map withdrawal_of (blackhole_thread env False (fst e))) expired\<rparr>)"
proof -
  let ?m = "packet_buckets_map (packet_buckets_ipv6_storage s)"
  have same: "(\<lambda>(ip, b). bucket_is_filled_ipv6 b) = (\<lambda>e :: subnet_ipv6_cidr_mask_t \<times> packet_bucket_t. bucket_is_filled_ipv6 (snd e))"
    by auto
  have "distinct (map fst (filter (\<lambda>e. bucket_is_filled_ipv6 (snd e)) ?m))"
    using std.distinct_keys [OF assms(1)] by (simp add: distinct_map_filter)
  note bans = fold_add_find [OF assms(2) this]
  have expired: "filter (we_could_unban_this_ipv6 current_time) (ban_list_ipv6 s) = filter (ban_expired_ipv6 current_time) (ban_list_ipv6 s)"
    using assms(3) by (intro filter_cong [OF refl])
      (auto simp: we_could_unban_this_ipv6_def ban_expired_ipv6_def list_all_iff difftime_greater)
  show ?thesis
    unfolding process_filled_buckets_ipv6_def execute_unban_operation_ipv6_def Let_def prod.case same fold_filled_ipv6 [OF assms(4)]
      whole_banlist_copy [OF assms(2)] expired fold_actions_ipv6 [OF assms(4)] fold_remove filter_not_in_filter [OF assms(2)]
      select_convs_ipv6 filter_not_in_filter [OF assms(1)]
    by (simp add: bans blackhole_withdrawn)
qed

definition example_host :: subnet_ipv6_cidr_mask_t where
  "example_host = \<lparr>subnet_address6 = replicate 15 0 @ [1], cidr_prefix_length6 = 128\<rparr>"

definition example_manager_ipv6 :: ipv6_ban_manager where
  "example_manager_ipv6 = \<lparr>ipv6_host_counters = \<lparr>counter_map = [], average_speed_map = []\<rparr>,
     ban_list_ipv6 = [(example_host, attack_details_default\<lparr>ban_time := 60\<rparr>)],
     packet_buckets_ipv6_storage = packet_buckets_storage_default\<rparr>"

theorem ipv6_bans_blackholed_witness:
  "ban_list_ipv6 (fst (execute_unban_operation_ipv6 example_environment 61 (example_manager_ipv6, system_init))) = []
     \<and> threads (snd (execute_unban_operation_ipv6 example_environment 61 (example_manager_ipv6, system_init))) =
         [map withdrawal_of (blackhole_thread example_environment False example_host)]"
  using ipv6_bans_blackholed [of example_manager_ipv6 example_environment system_init 61]
  by (simp add: example_manager_ipv6_def example_environment_def ban_expired_ipv6_def attack_details_default_def Let_def system_init_def
      packet_buckets_storage_default_def split: prod.splits)

end
