(* ===== verification/Flow_Tracking.thy ===== *)
theory Flow_Tracking
  imports Traffic_Counters Ordered_Map Ip_Text
begin

text \<open>
  The flows of a host (\<^verbatim>\<open>src/fastnetmon_logic.cpp\<close>): every packet is counted under a 64 bit key made of the
  address and the ports of its flow, the number of keys is the number of flows in the speed of the host, and the flows
  are printed into the report of an attack.
\<close>

section \<open>Keys\<close>

record packed_conntrack_hash_t =
  opposite_ip :: u32
  flow_src_port :: u16
  flow_dst_port :: u16

definition packed_conntrack_hash_default :: packed_conntrack_hash_t where
  "packed_conntrack_hash_default = \<lparr>opposite_ip = 0, flow_src_port = 0, flow_dst_port = 0\<rparr>"

text \<open>\<^verbatim>\<open>memcpy\<close> between the eight bytes of the class and an integer of a little-endian host.\<close>

definition convert_conntrack_hash_struct_to_integer :: "packed_conntrack_hash_t \<Rightarrow> u64" where
  "convert_conntrack_hash_struct_to_integer h =
     ucast (opposite_ip h) OR push_bit 32 (ucast (flow_src_port h)) OR push_bit 48 (ucast (flow_dst_port h))"

definition convert_integer_to_conntrack_hash_struct :: "u64 \<Rightarrow> packed_conntrack_hash_t" where
  "convert_integer_to_conntrack_hash_struct packed_connection_data =
     \<lparr>opposite_ip = ucast packed_connection_data, flow_src_port = ucast (drop_bit 32 packed_connection_data),
      flow_dst_port = ucast (drop_bit 48 packed_connection_data)\<rparr>"

definition init_incoming_flow_counting_structure :: "simple_packet_t \<Rightarrow> packed_conntrack_hash_t" where
  "init_incoming_flow_counting_structure p =
     \<lparr>opposite_ip = src_ip p, flow_src_port = source_port p, flow_dst_port = destination_port p\<rparr>"

definition init_outgoing_flow_counting_structure :: "simple_packet_t \<Rightarrow> packed_conntrack_hash_t" where
  "init_outgoing_flow_counting_structure p =
     \<lparr>opposite_ip = dst_ip p, flow_src_port = source_port p, flow_dst_port = destination_port p\<rparr>"

section \<open>Counters\<close>

record conntrack_key_struct_t =
  flow_bytes :: u64
  flow_packets :: u64
  flow_last_update_time :: int

definition conntrack_key_struct_default :: conntrack_key_struct_t where
  "conntrack_key_struct_default = \<lparr>flow_bytes = 0, flow_packets = 0, flow_last_update_time = 0\<rparr>"

type_synonym contrack_map_type = "(u64, conntrack_key_struct_t) std_map"

record conntrack_main_struct_t =
  in_tcp :: contrack_map_type
  in_udp :: contrack_map_type
  in_icmp :: contrack_map_type
  in_other :: contrack_map_type
  out_tcp :: contrack_map_type
  out_udp :: contrack_map_type
  out_icmp :: contrack_map_type
  out_other :: contrack_map_type

definition conntrack_main_struct_default :: conntrack_main_struct_t where
  "conntrack_main_struct_default = \<lparr>in_tcp = [], in_udp = [], in_icmp = [], in_other = [], out_tcp = [], out_udp = [],
     out_icmp = [], out_other = []\<rparr>"

type_synonym map_of_vector_counters_for_flow_t = "(u32, conntrack_main_struct_t) std_map"

definition count_flow :: "u64 \<Rightarrow> u64 \<Rightarrow> u64 \<Rightarrow> contrack_map_type \<Rightarrow> contrack_map_type" where
  "count_flow hash packets bytes m =
     (let k = (case map_find m hash of Some k \<Rightarrow> k | None \<Rightarrow> conntrack_key_struct_default)
      in map_put hash (k\<lparr>flow_packets := flow_packets k + packets, flow_bytes := flow_bytes k + bytes\<rparr>) m)"

definition flow_element :: "map_of_vector_counters_for_flow_t \<Rightarrow> u32 \<Rightarrow> conntrack_main_struct_t" where
  "flow_element m client_ip = (case map_find m client_ip of Some c \<Rightarrow> c | None \<Rightarrow> conntrack_main_struct_default)"

definition increment_incoming_flow_counters ::
    "u32 \<Rightarrow> simple_packet_t \<Rightarrow> u64 \<Rightarrow> u64 \<Rightarrow> map_of_vector_counters_for_flow_t \<Rightarrow> map_of_vector_counters_for_flow_t" where
  "increment_incoming_flow_counters client_ip p packets bytes m =
     (let hash = convert_conntrack_hash_struct_to_integer (init_incoming_flow_counting_structure p);
          c = flow_element m client_ip;
          c = (if protocol p = 6 then c\<lparr>in_tcp := count_flow hash packets bytes (in_tcp c)\<rparr>
               else if protocol p = 17 then c\<lparr>in_udp := count_flow hash packets bytes (in_udp c)\<rparr> else c)
      in map_put client_ip c m)"

definition increment_outgoing_flow_counters ::
    "u32 \<Rightarrow> simple_packet_t \<Rightarrow> u64 \<Rightarrow> u64 \<Rightarrow> map_of_vector_counters_for_flow_t \<Rightarrow> map_of_vector_counters_for_flow_t" where
  "increment_outgoing_flow_counters client_ip p packets bytes m =
     (let hash = convert_conntrack_hash_struct_to_integer (init_outgoing_flow_counting_structure p);
          c = flow_element m client_ip;
          c = (if protocol p = 6 then c\<lparr>out_tcp := count_flow hash packets bytes (out_tcp c)\<rparr>
               else if protocol p = 17 then c\<lparr>out_udp := count_flow hash packets bytes (out_udp c)\<rparr> else c)
      in map_put client_ip c m)"

text \<open>\<^verbatim>\<open>operator[]\<close> leaves an empty element behind for an unknown host.\<close>

definition get_element_from_map_of_flow_counters ::
    "u32 \<Rightarrow> map_of_vector_counters_for_flow_t \<Rightarrow> conntrack_main_struct_t \<times> map_of_vector_counters_for_flow_t" where
  "get_element_from_map_of_flow_counters client_ip m =
     (flow_element m client_ip, map_emplace client_ip conntrack_main_struct_default m)"

definition zeroify_all_flow_counters :: "map_of_vector_counters_for_flow_t \<Rightarrow> map_of_vector_counters_for_flow_t" where
  "zeroify_all_flow_counters m = []"

definition total_flows :: "contrack_map_type list \<Rightarrow> u64" where
  "total_flows ms = sum_list (map (\<lambda>m. of_nat (length m)) ms)"

text \<open>Whether the host has flows, and its speed with the number of flows per second.\<close>

definition increment_flow_counters ::
    "map_of_vector_counters_for_flow_t \<Rightarrow> u32 \<Rightarrow> rat \<Rightarrow> subnet_counter_t \<Rightarrow> (bool \<times> subnet_counter_t) outcome" where
  "increment_flow_counters m client_ip speed_calc_period c =
     (case map_find m client_ip of
        None \<Rightarrow> Done (False, c)
      | Some f \<Rightarrow>
          and_then (speed_of speed_calc_period (total_flows [out_tcp f, out_udp f, out_icmp f, out_other f])) (\<lambda>outgoing.
          and_then (speed_of speed_calc_period (total_flows [in_tcp f, in_udp f, in_icmp f, in_other f])) (\<lambda>incoming.
            Done (True, c\<lparr>out_flows := outgoing, in_flows := incoming\<rparr>))))"

section \<open>Text\<close>

fun print_flow_loop :: "u32 \<Rightarrow> string \<Rightarrow> direction_t \<Rightarrow> nat \<Rightarrow> contrack_map_type \<Rightarrow> string" where
  "print_flow_loop limit client_ip flow_direction printed_records [] = []"
| "print_flow_loop limit client_ip flow_direction printed_records ((packed, counters) # rest) =
     (if printed_records > unat limit then ''Flows have cropped due to very long list.'' @ [CHR 0x0A]
      else let key = convert_integer_to_conntrack_hash_struct packed;
               opposite = convert_ip_as_uint_to_string (opposite_ip key);
               number = (\<lambda>port :: u16. dec_string (unat port))
           in (if flow_direction = INCOMING
               then client_ip @ '':'' @ number (flow_dst_port key) @ '' < '' @ opposite @ '':'' @ number (flow_src_port key) @ '' ''
               else if flow_direction = OUTGOING
               then client_ip @ '':'' @ number (flow_src_port key) @ '' > '' @ opposite @ '':'' @ number (flow_dst_port key) @ '' ''
               else [])
              @ dec_string (unat (flow_bytes counters)) @ '' bytes '' @ dec_string (unat (flow_packets counters)) @ '' packets'' @ [CHR 0x0A]
              @ print_flow_loop limit client_ip flow_direction (Suc printed_records) rest)"

definition print_flow_tracking_for_specified_protocol :: "u32 \<Rightarrow> contrack_map_type \<Rightarrow> string \<Rightarrow> direction_t \<Rightarrow> string" where
  "print_flow_tracking_for_specified_protocol ban_details_records_count protocol_map client_ip flow_direction =
     print_flow_loop ban_details_records_count client_ip flow_direction 0 protocol_map"

definition flow_section :: "string \<Rightarrow> contrack_map_type \<Rightarrow> string \<Rightarrow> string" where
  "flow_section name m printed =
     (if printed = [] then [] else name @ '' flows: '' @ dec_string (length m) @ [CHR 0x0A] @ printed @ [CHR 0x0A])"

definition print_flow_tracking_for_ip :: "u32 \<Rightarrow> conntrack_main_struct_t \<Rightarrow> string \<Rightarrow> string" where
  "print_flow_tracking_for_ip ban_details_records_count c client_ip =
     (let print = (\<lambda>m. print_flow_tracking_for_specified_protocol ban_details_records_count m client_ip);
          tcp_in = print (in_tcp c) INCOMING; udp_in = print (in_udp c) INCOMING;
          tcp_out = print (out_tcp c) OUTGOING; udp_out = print (out_udp c) OUTGOING;
          we_have_incoming_flows = (tcp_in \<noteq> [] \<or> udp_in \<noteq> []); we_have_outgoing_flows = (tcp_out \<noteq> [] \<or> udp_out \<noteq> [])
      in (if we_have_incoming_flows
          then ''Incoming'' @ [CHR 0x0A, CHR 0x0A] @ flow_section ''TCP'' (in_tcp c) tcp_in @ flow_section ''UDP'' (in_udp c) udp_in
          else [])
         @ (if we_have_incoming_flows \<and> we_have_outgoing_flows then [CHR 0x0A] else [])
         @ (if we_have_outgoing_flows
            then ''Outgoing'' @ [CHR 0x0A, CHR 0x0A] @ flow_section ''TCP'' (out_tcp c) tcp_out @ flow_section ''UDP'' (out_udp c) udp_out
            else []))"

section \<open>Flows are counted exactly\<close>

lemma no_bits_above [simp]: "\<not> bit (w :: u32) (32 + n)" "\<not> bit (w :: u32) (48 + n)" "\<not> bit (v :: u16) (16 + n)"
  using bit_imp_le_length [of w "32 + n"] bit_imp_le_length [of w "48 + n"] bit_imp_le_length [of v "16 + n"] by auto

text \<open>The key keeps the whole flow, so different flows have different keys.\<close>

lemma conntrack_hash_roundtrip:
  "convert_integer_to_conntrack_hash_struct (convert_conntrack_hash_struct_to_integer h) = h"
proof -
  obtain ip s d where h: "h = \<lparr>opposite_ip = ip, flow_src_port = s, flow_dst_port = d\<rparr>"
    by (cases h) auto
  show ?thesis
    unfolding h convert_integer_to_conntrack_hash_struct_def convert_conntrack_hash_struct_to_integer_def
    by (auto intro!: bit_word_eqI simp: bit_simps)
qed

lemma conntrack_hash_inj: "inj convert_conntrack_hash_struct_to_integer"
  using conntrack_hash_roundtrip by (metis injI)

type_synonym flow_event = "u32 \<times> bool \<times> simple_packet_t \<times> u64 \<times> u64"

definition track_flow :: "flow_event \<Rightarrow> map_of_vector_counters_for_flow_t \<Rightarrow> map_of_vector_counters_for_flow_t" where
  "track_flow = (\<lambda>(ip, is_incoming, p, packets, bytes).
     if is_incoming then increment_incoming_flow_counters ip p packets bytes
     else increment_outgoing_flow_counters ip p packets bytes)"

definition packets_to :: "bool \<Rightarrow> u32 \<Rightarrow> flow_event list \<Rightarrow> simple_packet_t set" where
  "packets_to is_incoming ip es = {p. \<exists>packets bytes. (ip, is_incoming, p, packets, bytes) \<in> set es}"

definition flow_hashes :: "bool \<Rightarrow> u32 \<Rightarrow> u32 \<Rightarrow> flow_event list \<Rightarrow> u64 set" where
  "flow_hashes is_incoming proto ip es =
     (convert_conntrack_hash_struct_to_integer \<circ>
        (if is_incoming then init_incoming_flow_counting_structure else init_outgoing_flow_counting_structure))
     ` {p \<in> packets_to is_incoming ip es. protocol p = proto}"

lemma count_flow_facts:
  "ordered m \<Longrightarrow> ordered (count_flow h a b m)"
  "fst ` set (count_flow h a b m) = insert h (fst ` set m)"
proof -
  have "fst ` set (map_put h v m) = insert h (fst ` set m)" for v
    by (induction m) auto
  then show "fst ` set (count_flow h a b m) = insert h (fst ` set m)"
    by (simp add: count_flow_def Let_def)
qed (simp add: count_flow_def Let_def ordered_map_put)

text \<open>What a packet does to the flows of a host, as seen from one of its four tables.\<close>

definition flow_tables :: "(bool \<times> u32 \<times> (conntrack_main_struct_t \<Rightarrow> contrack_map_type)) list" where
  "flow_tables = [(True, 6, in_tcp), (True, 17, in_udp), (False, 6, out_tcp), (False, 17, out_udp)]"

definition track_in :: "bool \<Rightarrow> simple_packet_t \<Rightarrow> u64 \<Rightarrow> u64 \<Rightarrow> conntrack_main_struct_t \<Rightarrow> conntrack_main_struct_t" where
  "track_in is_incoming p packets bytes c =
     (if is_incoming
      then let add = count_flow (convert_conntrack_hash_struct_to_integer (init_incoming_flow_counting_structure p)) packets bytes
           in if protocol p = 6 then c\<lparr>in_tcp := add (in_tcp c)\<rparr> else if protocol p = 17 then c\<lparr>in_udp := add (in_udp c)\<rparr> else c
      else let add = count_flow (convert_conntrack_hash_struct_to_integer (init_outgoing_flow_counting_structure p)) packets bytes
           in if protocol p = 6 then c\<lparr>out_tcp := add (out_tcp c)\<rparr> else if protocol p = 17 then c\<lparr>out_udp := add (out_udp c)\<rparr> else c)"

lemma track_flow_element:
  assumes "ordered m"
  shows "flow_element (track_flow (ip', i, p, a, b) m) ip = (if ip = ip' then track_in i p a b (flow_element m ip) else flow_element m ip)"
    and "ordered (track_flow (ip', i, p, a, b) m)"
  using assms
  by (simp_all add: flow_element_def [of "map_put _ _ _"] map_find_put track_flow_def track_in_def increment_incoming_flow_counters_def
      increment_outgoing_flow_counters_def Let_def ordered_map_put flow_element_def [of m ip, symmetric])

lemma track_in_facts:
  "in_icmp (track_in i p a b c) = in_icmp c" "in_other (track_in i p a b c) = in_other c"
  "out_icmp (track_in i p a b c) = out_icmp c" "out_other (track_in i p a b c) = out_other c"
  by (simp_all add: track_in_def Let_def)

lemma track_in_table:
  assumes "(is_incoming, proto, field) \<in> set flow_tables"
  shows "ordered (field c) \<Longrightarrow> ordered (field (track_in i p a b c))"
    and "fst ` set (field (track_in i p a b c)) = fst ` set (field c) \<union> flow_hashes is_incoming proto ip [(ip, i, p, a, b)]"
proof -
  have keys: "flow_hashes is_incoming proto ip [(ip, i, p, a, b)] =
      (if i = is_incoming \<and> protocol p = proto
       then {convert_conntrack_hash_struct_to_integer
         ((if i then init_incoming_flow_counting_structure else init_outgoing_flow_counting_structure) p)} else {})"
    by (auto simp: flow_hashes_def packets_to_def)
  consider "is_incoming" "proto = 6" "field = in_tcp" | "is_incoming" "proto = 17" "field = in_udp"
    | "\<not> is_incoming" "proto = 6" "field = out_tcp" | "\<not> is_incoming" "proto = 17" "field = out_udp"
    using assms by (auto simp: flow_tables_def)
  then show "fst ` set (field (track_in i p a b c)) = fst ` set (field c) \<union> flow_hashes is_incoming proto ip [(ip, i, p, a, b)]"
    unfolding keys by cases (simp_all add: track_in_def Let_def count_flow_facts(2))
  from assms show "ordered (field (track_in i p a b c))" if "ordered (field c)"
    using that by (auto simp: flow_tables_def track_in_def Let_def count_flow_facts(1))
qed

lemma flow_hashes_Cons: "flow_hashes is_incoming proto ip (e # es) = flow_hashes is_incoming proto ip [e] \<union> flow_hashes is_incoming proto ip es"
proof -
  have "{p \<in> packets_to is_incoming ip (e # es). protocol p = proto} =
      {p \<in> packets_to is_incoming ip [e]. protocol p = proto} \<union> {p \<in> packets_to is_incoming ip es. protocol p = proto}"
    by (auto simp: packets_to_def)
  then show ?thesis
    unfolding flow_hashes_def by (simp only: image_Un)
qed

lemma flow_hashes_other: "ip \<noteq> ip' \<Longrightarrow> flow_hashes is_incoming proto ip [(ip', i, p, a, b)] = {}"
  by (auto simp: flow_hashes_def packets_to_def)

lemma track_fold:
  assumes "(is_incoming, proto, field) \<in> set flow_tables"
  shows "ordered m \<Longrightarrow> ordered (field (flow_element m ip)) \<Longrightarrow>
    ordered (field (flow_element (fold track_flow es m) ip))
    \<and> fst ` set (field (flow_element (fold track_flow es m) ip)) =
        fst ` set (field (flow_element m ip)) \<union> flow_hashes is_incoming proto ip es"
proof (induction es arbitrary: m)
  case (Cons e es)
  obtain ip' i p a b where e: "e = (ip', i, p, a, b)"
    by (cases e) auto
  let ?m = "track_flow e m"
  have step: "ordered (field (flow_element ?m ip))"
    "fst ` set (field (flow_element ?m ip)) = fst ` set (field (flow_element m ip)) \<union> flow_hashes is_incoming proto ip [e]"
    using Cons.prems track_in_table(1) [OF assms, of "flow_element m ip" i p a b]
      track_in_table(2) [OF assms, of i p a b "flow_element m ip" ip] flow_hashes_other [of ip ip' is_incoming proto i p a b]
    by (cases "ip = ip'"; simp add: e track_flow_element(1) [OF Cons.prems(1)])+
  then show ?case
    using Cons.IH [of ?m] track_flow_element(2) [OF Cons.prems(1)] by (simp add: e flow_hashes_Cons [of is_incoming proto ip _ es] Un_assoc)
qed (simp add: flow_hashes_def packets_to_def)

lemma track_fold_others:
  "ordered m \<Longrightarrow> in_icmp (flow_element (fold track_flow es m) ip) = in_icmp (flow_element m ip)
    \<and> in_other (flow_element (fold track_flow es m) ip) = in_other (flow_element m ip)
    \<and> out_icmp (flow_element (fold track_flow es m) ip) = out_icmp (flow_element m ip)
    \<and> out_other (flow_element (fold track_flow es m) ip) = out_other (flow_element m ip)"
proof (induction es arbitrary: m)
  case (Cons e es)
  then show ?case
    by (cases e) (simp add: track_flow_element track_in_facts)
qed simp

lemma ordered_length: "ordered m \<Longrightarrow> length m = card (fst ` set m)"
  using std.distinct_keys [of m] distinct_card [of "map fst m"] by simp

lemma flow_hashes_card:
  assumes "finite (packets_to is_incoming ip es)"
  shows "card (flow_hashes is_incoming proto ip es) =
    card ((\<lambda>p. (if is_incoming then src_ip p else dst_ip p, source_port p, destination_port p)) `
      {p \<in> packets_to is_incoming ip es. protocol p = proto})"
proof -
  let ?init = "if is_incoming then init_incoming_flow_counting_structure else init_outgoing_flow_counting_structure"
  let ?P = "{p \<in> packets_to is_incoming ip es. protocol p = proto}"
  let ?unpack = "\<lambda>h :: packed_conntrack_hash_t. (opposite_ip h, flow_src_port h, flow_dst_port h)"
  have "inj ?unpack"
    by (intro injI packed_conntrack_hash_t.equality) simp_all
  then have "card (?unpack ` ?init ` ?P) = card (?init ` ?P)"
    by (intro card_image) (auto intro: inj_on_subset)
  moreover have "card (flow_hashes is_incoming proto ip es) = card (?init ` ?P)"
    unfolding flow_hashes_def image_comp [symmetric] using conntrack_hash_inj by (intro card_image) (auto intro: inj_on_subset)
  moreover have "?unpack ` ?init ` ?P = (\<lambda>p. (if is_incoming then src_ip p else dst_ip p, source_port p, destination_port p)) ` ?P"
    by (auto simp: image_image init_incoming_flow_counting_structure_def init_outgoing_flow_counting_structure_def)
  ultimately show ?thesis
    by simp
qed

lemma finite_packets_to: "finite (packets_to is_incoming ip es)"
proof -
  have "packets_to is_incoming ip es \<subseteq> (\<lambda>(ip, i, p, a, b). p) ` set es"
    by (force simp: packets_to_def)
  then show ?thesis
    by (rule finite_subset) simp
qed

text \<open>The flows of a direction: protocol, the address of the other side and the ports.\<close>

definition flows_of :: "bool \<Rightarrow> u32 \<Rightarrow> flow_event list \<Rightarrow> (u32 \<times> u32 \<times> u16 \<times> u16) set" where
  "flows_of is_incoming ip es =
     (\<lambda>p. (protocol p, if is_incoming then src_ip p else dst_ip p, source_port p, destination_port p)) `
       {p \<in> packets_to is_incoming ip es. protocol p = 6 \<or> protocol p = 17}"

lemma flows_of_card:
  "card (flows_of is_incoming ip es) = card (flow_hashes is_incoming 6 ip es) + card (flow_hashes is_incoming 17 ip es)"
proof -
  let ?f = "\<lambda>p. (if is_incoming then src_ip p else dst_ip p, source_port p, destination_port p)"
  let ?P = "\<lambda>proto. {p \<in> packets_to is_incoming ip es. protocol p = proto}"
  have "flows_of is_incoming ip es = Pair 6 ` ?f ` ?P 6 \<union> Pair 17 ` ?f ` ?P 17"
    by (auto simp: flows_of_def image_iff)
  moreover have "Pair (6 :: u32) ` ?f ` ?P 6 \<inter> Pair 17 ` ?f ` ?P 17 = {}"
    by auto
  moreover have "finite (?P proto)" for proto
    using finite_packets_to by simp
  ultimately show ?thesis
    by (simp add: card_Un_disjoint card_image inj_on_def flow_hashes_card [OF finite_packets_to])
qed

text \<open>
  Flows are counted exactly: after any packets of any hosts, starting from a cleared table, the number of incoming
  and of outgoing flows that enters the speed of a host is the number of different combinations of protocol, remote
  address and ports among its TCP and UDP packets of that direction.
\<close>

lemma flows_counted_exactly:
  "let f = flow_element (fold track_flow es (zeroify_all_flow_counters m)) ip
   in total_flows [in_tcp f, in_udp f, in_icmp f, in_other f] = of_nat (card (flows_of True ip es))
    \<and> total_flows [out_tcp f, out_udp f, out_icmp f, out_other f] = of_nat (card (flows_of False ip es))"
proof -
  define f where "f = flow_element (fold track_flow es (zeroify_all_flow_counters m)) ip"
  have start: "ordered (zeroify_all_flow_counters m)" "flow_element (zeroify_all_flow_counters m) ip = conntrack_main_struct_default"
    by (simp_all add: zeroify_all_flow_counters_def flow_element_def)
  have table: "length (field f) = card (flow_hashes is_incoming proto ip es)"
    if "(is_incoming, proto, field) \<in> set flow_tables" for is_incoming proto field
  proof -
    have "field conntrack_main_struct_default = []"
      using that by (auto simp: flow_tables_def conntrack_main_struct_default_def)
    then show ?thesis
      using track_fold [OF that start(1), of ip es] by (simp add: start(2) f_def ordered_length)
  qed
  have "in_icmp f = []" "in_other f = []" "out_icmp f = []" "out_other f = []"
    using track_fold_others [OF start(1), of es ip] by (simp_all add: f_def start(2) conntrack_main_struct_default_def)
  then show ?thesis
    using table [of True 6 in_tcp] table [of True 17 in_udp] table [of False 6 out_tcp] table [of False 17 out_udp]
    unfolding f_def [symmetric] Let_def by (simp add: flow_tables_def total_flows_def flows_of_card)
qed

end
