(* ===== verification/Traffic_Processing.thy ===== *)
theory Traffic_Processing
  imports Ipv6_Bans Flow_Tracking Packet_Filter
begin

text \<open>
  The path of a packet through the program (\<^verbatim>\<open>process_packet\<close> of \<^verbatim>\<open>src/fastnetmon_logic.cpp\<close>)
  and the periodic recalculation of all speeds, which hands every host to the ban manager. The traffic of one packet
  and one recalculation are given as they run alone.
\<close>

section \<open>Total counters\<close>

record single_counter_element_t =
  single_bytes :: u64
  single_packets :: u64
  single_flows :: u64

definition single_counter_zero :: single_counter_element_t where
  "single_counter_zero = \<lparr>single_bytes = 0, single_packets = 0, single_flows = 0\<rparr>"

record total_counter_element_t =
  element_total :: single_counter_element_t
  element_tcp :: single_counter_element_t
  element_udp :: single_counter_element_t
  element_icmp :: single_counter_element_t
  element_fragmented :: single_counter_element_t
  element_tcp_syn :: single_counter_element_t
  element_dropped :: single_counter_element_t

definition total_counter_zero :: total_counter_element_t where
  "total_counter_zero = \<lparr>element_total = single_counter_zero, element_tcp = single_counter_zero, element_udp = single_counter_zero,
     element_icmp = single_counter_zero, element_fragmented = single_counter_zero, element_tcp_syn = single_counter_zero,
     element_dropped = single_counter_zero\<rparr>"

text \<open>The two arrays have one element per direction.\<close>

record total_speed_counters_t =
  total_counters_of :: "direction_t \<Rightarrow> total_counter_element_t"
  total_speed_average_counters :: "direction_t \<Rightarrow> total_counter_element_t"

definition total_speed_counters_default :: total_speed_counters_t where
  "total_speed_counters_default = \<lparr>total_counters_of = \<lambda>d. total_counter_zero, total_speed_average_counters = \<lambda>d. total_counter_zero\<rparr>"

text \<open>The speed of one kind of traffic over the period, and its entry into the average; flows are left alone.\<close>

definition single_speed :: "rat \<Rightarrow> single_counter_element_t \<Rightarrow> single_counter_element_t outcome" where
  "single_speed period e =
     and_then (speed_of period (single_bytes e)) (\<lambda>b.
     and_then (speed_of period (single_packets e)) (\<lambda>p.
       Done (single_counter_zero\<lparr>single_bytes := b, single_packets := p\<rparr>)))"

definition single_average :: "rat \<Rightarrow> single_counter_element_t \<Rightarrow> single_counter_element_t \<Rightarrow> single_counter_element_t outcome" where
  "single_average exp_value new e =
     and_then (moving_average exp_value (single_bytes e) (single_bytes new)) (\<lambda>b.
     and_then (moving_average exp_value (single_packets e) (single_packets new)) (\<lambda>p.
       Done (e\<lparr>single_bytes := b, single_packets := p\<rparr>)))"

definition update_average :: "rat \<Rightarrow> rat \<Rightarrow> single_counter_element_t \<Rightarrow> single_counter_element_t \<Rightarrow> single_counter_element_t outcome" where
  "update_average exp_value period counted e = and_then (single_speed period counted) (\<lambda>new. single_average exp_value new e)"

text \<open>One pass of the loop over the directions.\<close>

definition calculate_direction :: "rat \<Rightarrow> rat \<Rightarrow> total_counter_element_t \<Rightarrow> total_counter_element_t \<Rightarrow> total_counter_element_t outcome" where
  "calculate_direction exp_value period counted e =
     (let update = update_average exp_value period in
      and_then (update (element_total counted) (element_total e)) (\<lambda>a.
      and_then (update (element_tcp counted) (element_tcp e)) (\<lambda>b.
      and_then (update (element_udp counted) (element_udp e)) (\<lambda>c.
      and_then (update (element_icmp counted) (element_icmp e)) (\<lambda>d.
      and_then (update (element_fragmented counted) (element_fragmented e)) (\<lambda>f.
      and_then (update (element_tcp_syn counted) (element_tcp_syn e)) (\<lambda>g.
      and_then (update (element_dropped counted) (element_dropped e)) (\<lambda>h.
        Done \<lparr>element_total = a, element_tcp = b, element_udp = c, element_icmp = d, element_fragmented = f,
          element_tcp_syn = g, element_dropped = h\<rparr>))))))))"

definition calculate_total_speed :: "rat \<Rightarrow> rat \<Rightarrow> total_speed_counters_t \<Rightarrow> total_speed_counters_t outcome" where
  "calculate_total_speed exp_value period s =
     (let one = (\<lambda>d. calculate_direction exp_value period (total_counters_of s d) (total_speed_average_counters s d)) in
      and_then (one INCOMING) (\<lambda>a.
      and_then (one OUTGOING) (\<lambda>b.
      and_then (one INTERNAL) (\<lambda>c.
      and_then (one OTHER) (\<lambda>d.
        Done \<lparr>total_counters_of = \<lambda>_. total_counter_zero,
          total_speed_average_counters = (\<lambda>x. case x of INCOMING \<Rightarrow> a | OUTGOING \<Rightarrow> b | INTERNAL \<Rightarrow> c | OTHER \<Rightarrow> d)\<rparr>)))))"

definition add_total :: "direction_t \<Rightarrow> u64 \<Rightarrow> u64 \<Rightarrow> total_speed_counters_t \<Rightarrow> total_speed_counters_t" where
  "add_total d packets bytes s =
     (let e = total_counters_of s d; t = element_total e
      in s\<lparr>total_counters_of := (total_counters_of s)(d := e\<lparr>element_total :=
           t\<lparr>single_packets := single_packets t + packets, single_bytes := single_bytes t + bytes\<rparr>\<rparr>)\<rparr>)"

section \<open>Directions\<close>

text \<open>
  The lookup is the search in the Patricia tree of our networks. The network of the host stays as it was for internal
  and foreign traffic.
\<close>

definition get_packet_direction ::
    "(u32 \<Rightarrow> subnet_cidr_mask_t option) \<Rightarrow> u32 \<Rightarrow> u32 \<Rightarrow> subnet_cidr_mask_t \<Rightarrow> direction_t \<times> subnet_cidr_mask_t" where
  "get_packet_direction lookup_tree src dst subnet =
     (case (lookup_tree src, lookup_tree dst) of
        (Some source_subnet, Some destination_subnet) \<Rightarrow> (INTERNAL, subnet)
      | (Some source_subnet, None) \<Rightarrow> (OUTGOING, source_subnet)
      | (None, Some destination_subnet) \<Rightarrow> (INCOMING, destination_subnet)
      | (None, None) \<Rightarrow> (OTHER, subnet))"

definition get_packet_direction_ipv6 ::
    "(bytes \<Rightarrow> subnet_ipv6_cidr_mask_t option) \<Rightarrow> bytes \<Rightarrow> bytes \<Rightarrow> subnet_ipv6_cidr_mask_t \<Rightarrow> direction_t \<times> subnet_ipv6_cidr_mask_t" where
  "get_packet_direction_ipv6 lookup_tree src dst subnet =
     (case (lookup_tree src, lookup_tree dst) of
        (Some source_subnet, Some destination_subnet) \<Rightarrow> (INTERNAL, subnet)
      | (Some source_subnet, None) \<Rightarrow> (OUTGOING, source_subnet)
      | (None, Some destination_subnet) \<Rightarrow> (INCOMING, destination_subnet)
      | (None, None) \<Rightarrow> (OTHER, subnet))"

section \<open>State\<close>

text \<open>
  \<open>subnet_contains\<close> is the lookup of an address in a tree of one network, \<open>exp_function\<close> the function
  \<^verbatim>\<open>exp\<close> of the C++ library.
\<close>

record traffic_environment =
  bans_environment :: ban_environment
  lookup_tree_ipv6 :: "bytes \<Rightarrow> subnet_ipv6_cidr_mask_t option"
  whitelist_tree_ipv6 :: "bytes \<Rightarrow> bool"
  subnet_contains :: "subnet_cidr_mask_t \<Rightarrow> u32 \<Rightarrow> bool"
  exp_function :: "rat \<Rightarrow> rat"
  enable_connection_tracking :: bool
  process_incoming_traffic :: bool
  process_outgoing_traffic :: bool
  static_flowspec_based_whitelist :: "flow_spec_rule_t list"
  recalculate_speed_timeout :: u32
  average_calculation_amount :: rat

record traffic_state =
  bans_ipv4 :: ban_manager
  bans_ipv6 :: ipv6_ban_manager
  ipv4_network_counters :: "subnet_cidr_mask_t abstract_subnet_counters_t"
  ipv6_network_counters :: "subnet_ipv6_cidr_mask_t abstract_subnet_counters_t"
  SubnetVectorMapFlow :: map_of_vector_counters_for_flow_t
  total_counters_ipv4 :: total_speed_counters_t
  total_counters_ipv6 :: total_speed_counters_t
  total_counters :: total_speed_counters_t
  total_simple_packets_processed :: u64
  total_ipv4_packets :: u64
  total_ipv6_packets :: u64
  unknown_ip_version_packets :: u64
  total_flowspec_whitelist_packets :: u64
  total_unparsed_packets :: u64
  total_unparsed_packets_speed :: u64
  incoming_total_flows_speed :: u64
  outgoing_total_flows_speed :: u64

section \<open>IPv6 packets\<close>

definition sampled_number_of_packets :: "simple_packet_t \<Rightarrow> u64" where
  "sampled_number_of_packets p = number_of_packets p * ucast (sample_ratio p)"

definition sampled_number_of_bytes :: "simple_packet_t \<Rightarrow> u64" where
  "sampled_number_of_bytes p = length' p * ucast (sample_ratio p)"

definition ipv6_host :: "bytes \<Rightarrow> subnet_ipv6_cidr_mask_t" where
  "ipv6_host address = \<lparr>subnet_address6 = address, cidr_prefix_length6 = 128\<rparr>"

definition collect_traffic_to_buckets_ipv6 ::
    "int \<Rightarrow> simple_packet_t \<Rightarrow> subnet_ipv6_cidr_mask_t packet_buckets_storage_t \<Rightarrow> subnet_ipv6_cidr_mask_t packet_buckets_storage_t outcome" where
  "collect_traffic_to_buckets_ipv6 clock p b =
     (if packet_direction p = OUTGOING then and_then (add_packet_to_storage clock (ipv6_host (src_ipv6 p)) p b) (\<lambda>(added, b). Done b)
      else if packet_direction p = INCOMING then and_then (add_packet_to_storage clock (ipv6_host (dst_ipv6 p)) p b) (\<lambda>(added, b). Done b)
      else Done b)"

text \<open>Traffic of a direction that is switched off is skipped.\<close>

definition skipped_direction :: "traffic_environment \<Rightarrow> direction_t \<Rightarrow> bool" where
  "skipped_direction env d \<longleftrightarrow>
     (d = INCOMING \<and> \<not> process_incoming_traffic env) \<or> (d = OUTGOING \<and> \<not> process_outgoing_traffic env)"

text \<open>The counters of IPv6 networks only count totals, and get an element for traffic of every direction.\<close>

definition count_ipv6_network :: "direction_t \<Rightarrow> subnet_ipv6_cidr_mask_t \<Rightarrow> u64 \<Rightarrow> u64
    \<Rightarrow> subnet_ipv6_cidr_mask_t abstract_subnet_counters_t \<Rightarrow> subnet_ipv6_cidr_mask_t abstract_subnet_counters_t" where
  "count_ipv6_network d subnet packets bytes s =
     (let c = element_at (counter_map s) subnet;
          c = (if d = OUTGOING then counter_total_update (count_out packets bytes) c
               else if d = INCOMING then counter_total_update (count_in packets bytes) c else c)
      in s\<lparr>counter_map := AList.update subnet c (counter_map s)\<rparr>)"

definition count_ipv6_host :: "int \<Rightarrow> simple_packet_t \<Rightarrow> subnet_ipv6_cidr_mask_t abstract_subnet_counters_t
    \<Rightarrow> subnet_ipv6_cidr_mask_t abstract_subnet_counters_t" where
  "count_ipv6_host now p s =
     (if packet_direction p = OUTGOING
      then increment_outgoing_counters_for_key now (ipv6_host (src_ipv6 p)) p (sampled_number_of_packets p) (sampled_number_of_bytes p) s
      else if packet_direction p = INCOMING
      then increment_incoming_counters_for_key now (ipv6_host (dst_ipv6 p)) p (sampled_number_of_packets p) (sampled_number_of_bytes p) s
      else s)"

definition process_ipv6_packet :: "traffic_environment \<Rightarrow> int \<Rightarrow> int \<Rightarrow> simple_packet_t \<Rightarrow> traffic_state \<Rightarrow> traffic_state outcome" where
  "process_ipv6_packet env now clock p s =
     (let (d, subnet) = get_packet_direction_ipv6 (lookup_tree_ipv6 env) (src_ipv6 p) (dst_ipv6 p) subnet_ipv6_default;
          p = p\<lparr>packet_direction := d\<rparr>
      in if skipped_direction env d then Done s
         else and_then (collect_traffic_to_buckets_ipv6 clock p (packet_buckets_ipv6_storage (bans_ipv6 s))) (\<lambda>buckets.
           Done (s\<lparr>total_counters_ipv6 := add_total d (sampled_number_of_packets p) (sampled_number_of_bytes p) (total_counters_ipv6 s),
             total_ipv6_packets := total_ipv6_packets s + 1,
             ipv6_network_counters := count_ipv6_network d subnet (sampled_number_of_packets p) (sampled_number_of_bytes p) (ipv6_network_counters s),
             bans_ipv6 := (bans_ipv6 s)\<lparr>ipv6_host_counters := count_ipv6_host now p (ipv6_host_counters (bans_ipv6 s)),
               packet_buckets_ipv6_storage := buckets\<rparr>\<rparr>)))"

section \<open>IPv4 packets\<close>

definition collect_traffic_to_buckets_ipv4 ::
    "int \<Rightarrow> simple_packet_t \<Rightarrow> u32 packet_buckets_storage_t \<Rightarrow> u32 packet_buckets_storage_t outcome" where
  "collect_traffic_to_buckets_ipv4 clock p b =
     (if packet_direction p = OUTGOING then and_then (add_packet_to_storage clock (src_ip p) p b) (\<lambda>(added, b). Done b)
      else if packet_direction p = INCOMING then and_then (add_packet_to_storage clock (dst_ip p) p b) (\<lambda>(added, b). Done b)
      else Done b)"

definition whitelisted :: "traffic_environment \<Rightarrow> simple_packet_t \<Rightarrow> bool" where
  "whitelisted env p \<longleftrightarrow> (packet_direction p = INCOMING \<or> packet_direction p = OUTGOING) \<and> static_flowspec_based_whitelist env \<noteq> []
     \<and> filter_packet_by_flowspec_rule_list (subnet_contains env) p (static_flowspec_based_whitelist env)"

definition count_network :: "int \<Rightarrow> simple_packet_t \<Rightarrow> subnet_cidr_mask_t \<Rightarrow> subnet_cidr_mask_t abstract_subnet_counters_t
    \<Rightarrow> subnet_cidr_mask_t abstract_subnet_counters_t" where
  "count_network now p subnet s =
     (let packets = sampled_number_of_packets p; bytes = sampled_number_of_bytes p in
      if packet_direction p = OUTGOING
      then s\<lparr>counter_map := AList.update subnet (increment_outgoing_counters now p packets bytes (element_at (counter_map s) subnet)) (counter_map s)\<rparr>
      else if packet_direction p = INCOMING
      then s\<lparr>counter_map := AList.update subnet (increment_incoming_counters now p packets bytes (element_at (counter_map s) subnet)) (counter_map s)\<rparr>
      else s)"

definition count_host :: "int \<Rightarrow> simple_packet_t \<Rightarrow> u32 abstract_subnet_counters_t \<Rightarrow> u32 abstract_subnet_counters_t" where
  "count_host now p s =
     (let packets = sampled_number_of_packets p; bytes = sampled_number_of_bytes p in
      if packet_direction p = OUTGOING then increment_outgoing_counters_for_key now (src_ip p) p packets bytes s
      else if packet_direction p = INCOMING then increment_incoming_counters_for_key now (dst_ip p) p packets bytes s
      else s)"

definition count_flows :: "traffic_environment \<Rightarrow> simple_packet_t \<Rightarrow> map_of_vector_counters_for_flow_t \<Rightarrow> map_of_vector_counters_for_flow_t" where
  "count_flows env p m =
     (let packets = sampled_number_of_packets p; bytes = sampled_number_of_bytes p in
      if \<not> enable_connection_tracking env then m
      else if packet_direction p = OUTGOING then increment_outgoing_flow_counters (htonl (src_ip p)) p packets bytes m
      else if packet_direction p = INCOMING then increment_incoming_flow_counters (htonl (dst_ip p)) p packets bytes m
      else m)"

definition process_ipv4_packet :: "traffic_environment \<Rightarrow> int \<Rightarrow> int \<Rightarrow> simple_packet_t \<Rightarrow> traffic_state \<Rightarrow> traffic_state outcome" where
  "process_ipv4_packet env now clock p s =
     (let (d, subnet) = get_packet_direction (lookup_tree_ipv4 (bans_environment env)) (src_ip p) (dst_ip p) (subnet_cidr_mask 0 0);
          p = p\<lparr>packet_direction := d\<rparr>
      in if whitelisted env p then Done (s\<lparr>total_flowspec_whitelist_packets := total_flowspec_whitelist_packets s + 1\<rparr>)
         else if skipped_direction env d then Done s
         else and_then (collect_traffic_to_buckets_ipv4 clock p (packet_buckets_ipv4_storage (bans_ipv4 s))) (\<lambda>buckets.
           Done (s\<lparr>ipv4_network_counters := count_network now p subnet (ipv4_network_counters s),
             total_counters_ipv4 := add_total d (sampled_number_of_packets p) (sampled_number_of_bytes p) (total_counters_ipv4 s),
             bans_ipv4 := (bans_ipv4 s)\<lparr>packet_buckets_ipv4_storage := buckets,
               ipv4_host_counters := count_host now p (ipv4_host_counters (bans_ipv4 s))\<rparr>,
             SubnetVectorMapFlow := count_flows env p (SubnetVectorMapFlow s)\<rparr>)))"

definition process_packet :: "traffic_environment \<Rightarrow> int \<Rightarrow> int \<Rightarrow> simple_packet_t \<Rightarrow> traffic_state \<Rightarrow> traffic_state outcome" where
  "process_packet env now clock p s =
     (let s = s\<lparr>total_simple_packets_processed := total_simple_packets_processed s + 1\<rparr> in
      if ip_protocol_version p = 4
      then process_ipv4_packet env now clock p (s\<lparr>total_ipv4_packets := total_ipv4_packets s + 1\<rparr>)
      else if ip_protocol_version p = 6
      then process_ipv6_packet env now clock p (s\<lparr>total_ipv6_packets := total_ipv6_packets s + 1\<rparr>)
      else Done (s\<lparr>unknown_ip_version_packets := unknown_ip_version_packets s + 1\<rparr>))"

section \<open>Recalculation of all speeds\<close>

text \<open>\<^verbatim>\<open>int(x)\<close>, undefined when the number does not fit.\<close>

definition to_int32 :: "rat \<Rightarrow> int outcome" where
  "to_int32 x = (let n = (if x < 0 then \<lceil>x\<rceil> else \<lfloor>x\<rfloor>) in if - (2 ^ 31) \<le> n \<and> n < 2 ^ 31 then Done n else Undefined)"

text \<open>The period of the recalculation in seconds, \<open>None\<close> when it is skipped.\<close>

definition speed_calc_period_of :: "u32 \<Rightarrow> rat \<Rightarrow> rat option outcome" where
  "speed_calc_period_of timeout time_difference =
     (let speed_calc_period = of_int (uint timeout) in
      if time_difference < 0 then Done None
      else if time_difference < of_int (uint timeout) then Done None
      else and_then (to_int32 time_difference) (\<lambda>measured.
           and_then (to_int32 speed_calc_period) (\<lambda>expected.
             Done (Some (if measured = expected then speed_calc_period else time_difference)))))"

text \<open>Division by zero gives minus infinity, whose exponential is zero.\<close>

definition exp_value_of :: "traffic_environment \<Rightarrow> rat \<Rightarrow> rat" where
  "exp_value_of env period =
     (if average_calculation_amount env = 0 then 0
      else exp_function env (to_double (- period / average_calculation_amount env)))"

text \<open>The callback that adds the flows of a host to its speed, and the sums it accumulates over all hosts.\<close>

definition flow_callback :: "traffic_environment \<Rightarrow> map_of_vector_counters_for_flow_t \<Rightarrow> rat \<Rightarrow> u32 \<Rightarrow> subnet_counter_t
    \<Rightarrow> subnet_counter_t outcome" where
  "flow_callback env m period ip c =
     (if enable_connection_tracking env
      then and_then (increment_flow_counters m (htonl ip) period c) (\<lambda>(found, c). Done c) else Done c)"

fun sum_flow_speeds :: "map_of_vector_counters_for_flow_t \<Rightarrow> rat \<Rightarrow> u32 list \<Rightarrow> (u64 \<times> u64) outcome" where
  "sum_flow_speeds m period [] = Done (0, 0)"
| "sum_flow_speeds m period (ip # rest) =
     and_then (increment_flow_counters m (htonl ip) period subnet_counter_default) (\<lambda>(found, c).
     and_then (sum_flow_speeds m period rest) (\<lambda>(outgoing, incoming).
       Done (if found then (out_flows c + outgoing, in_flows c + incoming) else (outgoing, incoming))))"

definition recalculate_flow_speeds :: "traffic_environment \<Rightarrow> rat \<Rightarrow> u32 list \<Rightarrow> traffic_state \<Rightarrow> traffic_state outcome" where
  "recalculate_flow_speeds env period ips s =
     (if \<not> enable_connection_tracking env then Done s
      else and_then (sum_flow_speeds (SubnetVectorMapFlow s) period ips) (\<lambda>(outgoing_total_flows, incoming_total_flows).
           and_then (speed_of period incoming_total_flows) (\<lambda>incoming.
           and_then (speed_of period outgoing_total_flows) (\<lambda>outgoing.
             Done (s\<lparr>incoming_total_flows_speed := incoming, outgoing_total_flows_speed := outgoing,
               SubnetVectorMapFlow := zeroify_all_flow_counters (SubnetVectorMapFlow s)\<rparr>)))))"

text \<open>The callbacks of the threshold check, in the order of the recalculation.\<close>

fun run_callbacks :: "('k \<Rightarrow> subnet_counter_t \<Rightarrow> 's \<Rightarrow> 's outcome) \<Rightarrow> ('k \<times> subnet_counter_t) list \<Rightarrow> 's \<Rightarrow> 's outcome" where
  "run_callbacks f [] s = Done s"
| "run_callbacks f ((k, c) # rest) s = and_then (f k c s) (run_callbacks f rest)"

definition recalculate_ipv4 :: "traffic_environment \<Rightarrow> int \<Rightarrow> int \<Rightarrow> rat \<Rightarrow> rat \<Rightarrow> traffic_state \<Rightarrow> traffic_state outcome" where
  "recalculate_ipv4 env now clock exp_value period s =
     and_then (recalculate_speed (\<lambda>k c. Done c) exp_value period (ipv4_network_counters s)) (\<lambda>(networks, checks).
     and_then (recalculate_speed (flow_callback env (SubnetVectorMapFlow s) period) exp_value period (ipv4_host_counters (bans_ipv4 s)))
       (\<lambda>(hosts, checks).
     and_then (run_callbacks (speed_calculation_callback_local_ipv4 (bans_environment env) now clock) checks
         ((bans_ipv4 s)\<lparr>ipv4_host_counters := hosts\<rparr>)) (\<lambda>bans.
       Done (s\<lparr>ipv4_network_counters := networks, bans_ipv4 := bans\<rparr>))))"

definition recalculate_ipv6 :: "traffic_environment \<Rightarrow> int \<Rightarrow> int \<Rightarrow> rat \<Rightarrow> rat \<Rightarrow> traffic_state \<Rightarrow> traffic_state outcome" where
  "recalculate_ipv6 env now clock exp_value period s =
     and_then (recalculate_speed (\<lambda>k c. Done c) exp_value period (ipv6_network_counters s)) (\<lambda>(networks, checks).
     and_then (recalculate_speed (\<lambda>k c. Done c) exp_value period (ipv6_host_counters (bans_ipv6 s))) (\<lambda>(hosts, checks).
     and_then (run_callbacks (speed_calculation_callback_local_ipv6 (bans_environment env) (whitelist_tree_ipv6 env) now clock) checks
         ((bans_ipv6 s)\<lparr>ipv6_host_counters := hosts\<rparr>)) (\<lambda>bans.
       Done (s\<lparr>ipv6_network_counters := networks, bans_ipv6 := bans\<rparr>))))"

definition recalculate_totals :: "rat \<Rightarrow> rat \<Rightarrow> traffic_state \<Rightarrow> traffic_state outcome" where
  "recalculate_totals exp_value period s =
     and_then (speed_of period (total_unparsed_packets s)) (\<lambda>unparsed.
     and_then (calculate_total_speed exp_value period (total_counters_ipv4 s)) (\<lambda>a.
     and_then (calculate_total_speed exp_value period (total_counters_ipv6 s)) (\<lambda>b.
     and_then (calculate_total_speed exp_value period (total_counters s)) (\<lambda>c.
       Done (s\<lparr>total_unparsed_packets_speed := unparsed, total_unparsed_packets := 0,
         total_counters_ipv4 := a, total_counters_ipv6 := b, total_counters := c\<rparr>)))))"

definition recalculate_all_speeds :: "traffic_environment \<Rightarrow> int \<Rightarrow> int \<Rightarrow> rat \<Rightarrow> traffic_state \<Rightarrow> traffic_state outcome" where
  "recalculate_all_speeds env now clock time_difference s =
     and_then (speed_calc_period_of (recalculate_speed_timeout env) time_difference) (\<lambda>measured.
       case measured of
         None \<Rightarrow> Done s
       | Some period \<Rightarrow>
           let exp_value = exp_value_of env period; ips = map fst (counter_map (ipv4_host_counters (bans_ipv4 s)))
           in and_then (recalculate_ipv4 env now clock exp_value period s) (\<lambda>s.
              and_then (recalculate_ipv6 env now clock exp_value period s) (\<lambda>s.
              and_then (recalculate_flow_speeds env period ips s) (recalculate_totals exp_value period))))"

end
