(* ===== verification/Traffic_Spec.thy ===== *)
theory Traffic_Spec
  imports Traffic_Processing
begin

text \<open>
  What the processing of packets and the recalculation of speeds achieve: the counters are exact for any sequence of
  packets, and after a recalculation the hosts under attack are captured or banned.
\<close>

section \<open>Any sequence of packets\<close>

text \<open>A packet with the time in seconds and the reading of the system clock at its arrival.\<close>

type_synonym arrival = "int \<times> int \<times> simple_packet_t"

fun process_packets :: "traffic_environment \<Rightarrow> arrival list \<Rightarrow> traffic_state \<Rightarrow> traffic_state outcome" where
  "process_packets env [] s = Done s"
| "process_packets env ((now, clock, p) # rest) s = and_then (process_packet env now clock p s) (process_packets env rest)"

section \<open>What has to be counted\<close>

definition ours :: "traffic_environment \<Rightarrow> u32 \<Rightarrow> bool" where
  "ours env ip \<longleftrightarrow> lookup_tree_ipv4 (bans_environment env) ip \<noteq> None"

definition direction_of :: "traffic_environment \<Rightarrow> simple_packet_t \<Rightarrow> direction_t" where
  "direction_of env p =
     (if ours env (src_ip p) then if ours env (dst_ip p) then INTERNAL else OUTGOING
      else if ours env (dst_ip p) then INCOMING else OTHER)"

definition directed_packet :: "traffic_environment \<Rightarrow> simple_packet_t \<Rightarrow> simple_packet_t" where
  "directed_packet env p = p\<lparr>packet_direction := direction_of env p\<rparr>"

definition accepted :: "traffic_environment \<Rightarrow> simple_packet_t \<Rightarrow> bool" where
  "accepted env p \<longleftrightarrow> ip_protocol_version p = 4 \<and> \<not> whitelisted env (directed_packet env p) \<and> \<not> skipped_direction env (direction_of env p)"

text \<open>The packets a host and a network have to count, with their direction.\<close>

definition packet_event :: "traffic_environment \<Rightarrow> (simple_packet_t \<Rightarrow> bool) \<Rightarrow> (simple_packet_t \<Rightarrow> bool) \<Rightarrow> arrival
    \<Rightarrow> (int \<times> traffic_event) list" where
  "packet_event env incoming outgoing = (\<lambda>(now, clock, p).
     let e = (directed_packet env p, sampled_number_of_packets p, sampled_number_of_bytes p) in
     if \<not> accepted env p then []
     else if direction_of env p = INCOMING \<and> incoming p then [(now, True, e)]
     else if direction_of env p = OUTGOING \<and> outgoing p then [(now, False, e)]
     else [])"

definition host_events :: "traffic_environment \<Rightarrow> u32 \<Rightarrow> arrival list \<Rightarrow> (int \<times> traffic_event) list" where
  "host_events env ip arrivals = concat (map (packet_event env (\<lambda>p. dst_ip p = ip) (\<lambda>p. src_ip p = ip)) arrivals)"

definition network_events :: "traffic_environment \<Rightarrow> subnet_cidr_mask_t \<Rightarrow> arrival list \<Rightarrow> (int \<times> traffic_event) list" where
  "network_events env net arrivals =
     (let inside = (\<lambda>ip. lookup_tree_ipv4 (bans_environment env) ip = Some net)
      in concat (map (packet_event env (\<lambda>p. inside (dst_ip p)) (\<lambda>p. inside (src_ip p))) arrivals))"

definition count_events :: "(int \<times> traffic_event) list \<Rightarrow> subnet_counter_t \<Rightarrow> subnet_counter_t" where
  "count_events events c = fold (\<lambda>(now, e). count_event now e) events c"

definition total_of :: "direction_t \<Rightarrow> traffic_state \<Rightarrow> single_counter_element_t" where
  "total_of d s = element_total (total_counters_of (total_counters_ipv4 s) d)"

definition sum_directed :: "traffic_environment \<Rightarrow> direction_t \<Rightarrow> (simple_packet_t \<Rightarrow> u64) \<Rightarrow> arrival list \<Rightarrow> u64" where
  "sum_directed env d f arrivals = (\<Sum>(now, clock, p)\<leftarrow>arrivals. if accepted env p \<and> direction_of env p = d then f p else 0)"

abbreviation host_counter :: "traffic_state \<Rightarrow> u32 \<Rightarrow> subnet_counter_t" where
  "host_counter s \<equiv> element_at (counter_map (ipv4_host_counters (bans_ipv4 s)))"

abbreviation network_counter :: "traffic_state \<Rightarrow> subnet_cidr_mask_t \<Rightarrow> subnet_counter_t" where
  "network_counter s \<equiv> element_at (counter_map (ipv4_network_counters s))"

section \<open>One packet\<close>

lemma element_at_updated: "element_at (AList.update k v m) k' = (if k' = k then v else element_at m k')"
  by (simp add: element_at_def update_conv')

lemma get_direction: "get_packet_direction (lookup_tree_ipv4 (bans_environment env)) (src_ip p) (dst_ip p) subnet =
    (direction_of env p, case direction_of env p of INCOMING \<Rightarrow> the (lookup_tree_ipv4 (bans_environment env) (dst_ip p))
       | OUTGOING \<Rightarrow> the (lookup_tree_ipv4 (bans_environment env) (src_ip p)) | _ \<Rightarrow> subnet)"
  by (auto simp: get_packet_direction_def direction_of_def ours_def split: option.splits)

lemma sampled_directed [simp]:
  "sampled_number_of_packets (p\<lparr>packet_direction := d\<rparr>) = sampled_number_of_packets p"
  "sampled_number_of_bytes (p\<lparr>packet_direction := d\<rparr>) = sampled_number_of_bytes p"
  by (simp_all add: sampled_number_of_packets_def sampled_number_of_bytes_def)

lemma storage_defined:
  assumes "storable p" shows "\<exists>added b'. add_packet_to_storage clock k p b = Done (added, b')"
proof (cases "map_find (packet_buckets_map b) k")
  case (Some x)
  then show ?thesis
    using collect_packet_defined [OF assms, of clock x] by (auto simp: add_packet_to_storage_def)
qed (auto simp: add_packet_to_storage_def)

lemma storable_directed: "storable p \<Longrightarrow> storable (p\<lparr>packet_direction := d\<rparr>)"
  by (simp add: storable_def split: option.splits)

lemma collect_defined:
  assumes "storable p"
  shows "\<exists>b'. collect_traffic_to_buckets_ipv4 clock p b = Done b'" "\<exists>b'. collect_traffic_to_buckets_ipv6 clock p b6 = Done b'"
  using storage_defined [OF assms, of clock "src_ip p" b] storage_defined [OF assms, of clock "dst_ip p" b]
    storage_defined [OF assms, of clock "ipv6_host (src_ipv6 p)" b6] storage_defined [OF assms, of clock "ipv6_host (dst_ipv6 p)" b6]
  by (auto simp: collect_traffic_to_buckets_ipv4_def collect_traffic_to_buckets_ipv6_def)

text \<open>The state after an accepted packet, with the buckets it leaves.\<close>

definition accepted_state :: "traffic_environment \<Rightarrow> int \<Rightarrow> simple_packet_t \<Rightarrow> u32 packet_buckets_storage_t \<Rightarrow> traffic_state \<Rightarrow> traffic_state" where
  "accepted_state env now p b s =
     (let q = directed_packet env p; d = direction_of env p; lookup = lookup_tree_ipv4 (bans_environment env)
      in s\<lparr>ipv4_network_counters := count_network now q
             (case d of INCOMING \<Rightarrow> the (lookup (dst_ip p)) | OUTGOING \<Rightarrow> the (lookup (src_ip p)) | _ \<Rightarrow> subnet_cidr_mask 0 0)
             (ipv4_network_counters s),
           total_counters_ipv4 := add_total d (sampled_number_of_packets p) (sampled_number_of_bytes p) (total_counters_ipv4 s),
           bans_ipv4 := (bans_ipv4 s)\<lparr>packet_buckets_ipv4_storage := b, ipv4_host_counters := count_host now q (ipv4_host_counters (bans_ipv4 s))\<rparr>,
           SubnetVectorMapFlow := count_flows env q (SubnetVectorMapFlow s)\<rparr>)"

lemma process_ipv4_cases:
  assumes "storable p" "ip_protocol_version p = 4"
  obtains (accepted) b where "accepted env p" "process_ipv4_packet env now clock p s = Done (accepted_state env now p b s)"
  | (rejected) n where "\<not> accepted env p" "process_ipv4_packet env now clock p s = Done (s\<lparr>total_flowspec_whitelist_packets := n\<rparr>)"
proof (cases "accepted env p")
  case True
  obtain b where "collect_traffic_to_buckets_ipv4 clock (directed_packet env p) (packet_buckets_ipv4_storage (bans_ipv4 s)) = Done b"
    using collect_defined(1) [OF storable_directed [OF assms(1)]] unfolding directed_packet_def by blast
  then show ?thesis
    using True by (intro accepted [of b]) (simp_all add: process_ipv4_packet_def get_direction accepted_state_def directed_packet_def accepted_def Let_def)
next
  case False
  let ?n = "total_flowspec_whitelist_packets s + (if whitelisted env (directed_packet env p) then 1 else 0)"
  have "process_ipv4_packet env now clock p s = Done (s\<lparr>total_flowspec_whitelist_packets := ?n\<rparr>)"
    using False assms(2) by (auto simp: process_ipv4_packet_def get_direction directed_packet_def accepted_def Let_def)
  then show ?thesis
    by (rule rejected [OF False])
qed

text \<open>What an accepted packet does to the counters.\<close>

lemma count_host_event:
  assumes "accepted env p"
  shows "element_at (counter_map (count_host now (directed_packet env p) hc)) ip =
    count_events (packet_event env (\<lambda>p. dst_ip p = ip) (\<lambda>p. src_ip p = ip) (now, clock, p)) (element_at (counter_map hc) ip)"
  using assms by (auto simp: count_host_def packet_event_def count_events_def count_event_def directed_packet_def Let_def
      increment_incoming_counters_for_key_def increment_outgoing_counters_for_key_def element_at_updated)

lemma count_network_event:
  assumes "accepted env p"
  shows "element_at (counter_map (count_network now (directed_packet env p)
      (case direction_of env p of INCOMING \<Rightarrow> the (lookup_tree_ipv4 (bans_environment env) (dst_ip p))
         | OUTGOING \<Rightarrow> the (lookup_tree_ipv4 (bans_environment env) (src_ip p)) | _ \<Rightarrow> subnet) nc)) net =
    count_events (packet_event env (\<lambda>p. lookup_tree_ipv4 (bans_environment env) (dst_ip p) = Some net)
       (\<lambda>p. lookup_tree_ipv4 (bans_environment env) (src_ip p) = Some net) (now, clock, p)) (element_at (counter_map nc) net)"
proof -
  have "direction_of env p = INCOMING \<Longrightarrow> ours env (dst_ip p)" "direction_of env p = OUTGOING \<Longrightarrow> ours env (src_ip p)"
    by (auto simp: direction_of_def split: if_splits)
  then show ?thesis
    using assms by (cases "direction_of env p")
      (auto simp: count_network_def packet_event_def count_events_def count_event_def directed_packet_def Let_def element_at_updated ours_def)
qed

lemma add_total_of: "element_total (total_counters_of (add_total d packets bytes t) d') =
    (let e = element_total (total_counters_of t d')
     in if d' = d then e\<lparr>single_packets := single_packets e + packets, single_bytes := single_bytes e + bytes\<rparr> else e)"
  by (simp add: add_total_def Let_def)

lemma count_events_append: "count_events (xs @ ys) c = count_events ys (count_events xs c)"
  by (simp add: count_events_def)

lemma packet_event_rejected: "\<not> accepted env p \<Longrightarrow> packet_event env P Q (now, clock, p) = []"
  by (simp add: packet_event_def Let_def)

lemma process_ipv6_frame:
  assumes "storable p"
  shows "\<exists>s'. process_ipv6_packet env now clock p s = Done s' \<and> bans_ipv4 s' = bans_ipv4 s \<and> ipv4_network_counters s' = ipv4_network_counters s
    \<and> total_counters_ipv4 s' = total_counters_ipv4 s \<and> total_simple_packets_processed s' = total_simple_packets_processed s"
proof -
  obtain d subnet where "get_packet_direction_ipv6 (lookup_tree_ipv6 env) (src_ipv6 p) (dst_ipv6 p) subnet_ipv6_default = (d, subnet)"
    by (cases "get_packet_direction_ipv6 (lookup_tree_ipv6 env) (src_ipv6 p) (dst_ipv6 p) subnet_ipv6_default")
  moreover obtain b where "collect_traffic_to_buckets_ipv6 clock (p\<lparr>packet_direction := d\<rparr>) (packet_buckets_ipv6_storage (bans_ipv6 s)) = Done b"
    using collect_defined(2) [OF storable_directed [OF assms]] by blast
  ultimately show ?thesis
    by (simp add: process_ipv6_packet_def Let_def)
qed

text \<open>One packet, whatever its version.\<close>

definition counted :: "traffic_environment \<Rightarrow> arrival list \<Rightarrow> traffic_state \<Rightarrow> traffic_state \<Rightarrow> bool" where
  "counted env arrivals s s' \<longleftrightarrow>
     (\<forall>ip. host_counter s' ip = count_events (host_events env ip arrivals) (host_counter s ip))
   \<and> (\<forall>net. network_counter s' net = count_events (network_events env net arrivals) (network_counter s net))
   \<and> (\<forall>d. single_packets (total_of d s') = single_packets (total_of d s) + sum_directed env d sampled_number_of_packets arrivals
        \<and> single_bytes (total_of d s') = single_bytes (total_of d s) + sum_directed env d sampled_number_of_bytes arrivals)
   \<and> total_simple_packets_processed s' = total_simple_packets_processed s + of_nat (length arrivals)"

lemma counted_rejected:
  assumes "\<not> accepted env p" "bans_ipv4 s' = bans_ipv4 s" "ipv4_network_counters s' = ipv4_network_counters s"
    "total_counters_ipv4 s' = total_counters_ipv4 s" "total_simple_packets_processed s' = total_simple_packets_processed s + 1"
  shows "counted env [(now, clock, p)] s s'"
  using assms by (simp add: counted_def host_events_def network_events_def packet_event_rejected count_events_def total_of_def sum_directed_def)

lemma process_packet_counted:
  assumes "storable p"
  shows "\<exists>s'. process_packet env now clock p s = Done s' \<and> counted env [(now, clock, p)] s s'"
proof (cases "ip_protocol_version p = 4")
  case True
  let ?s = "s\<lparr>total_simple_packets_processed := total_simple_packets_processed s + 1, total_ipv4_packets := total_ipv4_packets s + 1\<rparr>"
  have run: "process_packet env now clock p s = process_ipv4_packet env now clock p ?s"
    using True by (simp add: process_packet_def Let_def)
  show ?thesis
  proof (rule process_ipv4_cases [OF assms True, of env now clock ?s])
    fix b
    assume "accepted env p" "process_ipv4_packet env now clock p ?s = Done (accepted_state env now p b ?s)"
    then show ?thesis
      unfolding run by (simp add: counted_def accepted_state_def host_events_def network_events_def count_host_event [where clock = clock]
          count_network_event [where clock = clock] total_of_def add_total_of sum_directed_def Let_def)
  next
    fix n
    assume "\<not> accepted env p" "process_ipv4_packet env now clock p ?s = Done (?s\<lparr>total_flowspec_whitelist_packets := n\<rparr>)"
    then show ?thesis
      unfolding run by (simp add: counted_rejected)
  qed
next
  case False
  then have "\<not> accepted env p"
    by (simp add: accepted_def)
  then show ?thesis
    using process_ipv6_frame [OF assms, of env now clock "s\<lparr>total_simple_packets_processed := total_simple_packets_processed s + 1,
      total_ipv6_packets := total_ipv6_packets s + 1\<rparr>"] False
    by (auto simp: process_packet_def Let_def intro!: counted_rejected)
qed

lemma counted_trans: "counted env xs s s1 \<Longrightarrow> counted env ys s1 s2 \<Longrightarrow> counted env (xs @ ys) s s2"
  by (simp add: counted_def host_events_def network_events_def count_events_append sum_directed_def Let_def)

lemma process_packets_counted:
  assumes "list_all (\<lambda>(now, clock, p). storable p) arrivals"
  shows "\<exists>s'. process_packets env arrivals s = Done s' \<and> counted env arrivals s s'"
  using assms
proof (induction arrivals arbitrary: s)
  case Nil
  then show ?case
    by (simp add: counted_def host_events_def network_events_def count_events_def sum_directed_def Let_def)
next
  case (Cons a arrivals)
  obtain now clock p where a: "a = (now, clock, p)"
    by (cases a)
  then obtain s1 where first: "process_packet env now clock p s = Done s1" "counted env [a] s s1"
    using Cons.prems process_packet_counted [of p env now clock s] by auto
  then obtain s' where "process_packets env arrivals s1 = Done s'" "counted env arrivals s1 s'"
    using Cons by auto
  then show ?case
    using first counted_trans [of env "[a]" s s1 arrivals s'] by (auto simp: a)
qed

text \<open>
  C14. Every packet is counted where it belongs. For any sequence of packets whose captured bytes are there, and any
  configuration, the processing succeeds; every host and every network has counted exactly the IPv4 packets to and from
  it, each in its direction and with its sampling ratio, that are neither whitelisted nor of a direction that is
  switched off, the totals of every direction have grown by exactly those packets, and every packet is in the number
  of processed packets.
\<close>

theorem traffic_processed_exactly:
  assumes "list_all (\<lambda>(now, clock, p). storable p) arrivals"
  shows "\<exists>s'. process_packets env arrivals s = Done s'
    \<and> (\<forall>ip. host_counter s' ip = count_events (host_events env ip arrivals) (host_counter s ip))
    \<and> (\<forall>net. network_counter s' net = count_events (network_events env net arrivals) (network_counter s net))
    \<and> (\<forall>d. single_packets (total_of d s') = single_packets (total_of d s) + sum_directed env d sampled_number_of_packets arrivals
         \<and> single_bytes (total_of d s') = single_bytes (total_of d s) + sum_directed env d sampled_number_of_bytes arrivals)
    \<and> total_simple_packets_processed s' = total_simple_packets_processed s + of_nat (length arrivals)"
  using process_packets_counted [OF assms, of env s] unfolding counted_def .

definition example_traffic_environment :: traffic_environment where
  "example_traffic_environment = \<lparr>bans_environment = example_environment\<lparr>lookup_tree_ipv4 :=
       (\<lambda>ip. if ip = 16909060 then Some (subnet_cidr_mask 131844 24) else None)\<rparr>,
     lookup_tree_ipv6 = \<lambda>ip. None, whitelist_tree_ipv6 = \<lambda>ip. False, subnet_contains = \<lambda>net ip. False, exp_function = \<lambda>x. 1 / 2,
     enable_connection_tracking = True, process_incoming_traffic = True, process_outgoing_traffic = True,
     static_flowspec_based_whitelist = [], recalculate_speed_timeout = 1, average_calculation_amount = 15\<rparr>"

definition example_traffic :: traffic_state where
  "example_traffic = \<lparr>bans_ipv4 = example_manager, bans_ipv6 = example_manager_ipv6\<lparr>ban_list_ipv6 := []\<rparr>,
     ipv4_network_counters = \<lparr>counter_map = [], average_speed_map = []\<rparr>, ipv6_network_counters = \<lparr>counter_map = [], average_speed_map = []\<rparr>,
     SubnetVectorMapFlow = [], total_counters_ipv4 = total_speed_counters_default, total_counters_ipv6 = total_speed_counters_default,
     total_counters = total_speed_counters_default, total_simple_packets_processed = 0, total_ipv4_packets = 0, total_ipv6_packets = 0,
     unknown_ip_version_packets = 0, total_flowspec_whitelist_packets = 0, total_unparsed_packets = 0, total_unparsed_packets_speed = 0,
     incoming_total_flows_speed = 0, outgoing_total_flows_speed = 0\<rparr>"

definition example_packet :: simple_packet_t where
  "example_packet = simple_packet_default\<lparr>src_ip := 1, dst_ip := 16909060, protocol := 17, length' := 100, sample_ratio := 10\<rparr>"

theorem traffic_processed_exactly_witness:
  "\<exists>s'. process_packets example_traffic_environment [(5, 0, example_packet)] example_traffic = Done s'
     \<and> in_packets (counter_udp (host_counter s' 16909060)) = 10 \<and> in_bytes (counter_udp (host_counter s' 16909060)) = 1000
     \<and> single_bytes (total_of INCOMING s') = 1000"
proof -
  have "list_all (\<lambda>(now, clock, p). storable p) [(5, 0, example_packet)]"
    by (simp add: storable_def example_packet_def simple_packet_default_def)
  from traffic_processed_exactly [OF this, of example_traffic_environment example_traffic] obtain s' where
    run: "process_packets example_traffic_environment [(5, 0, example_packet)] example_traffic = Done s'" and
    host: "host_counter s' 16909060 = count_events (host_events example_traffic_environment 16909060 [(5, 0, example_packet)])
       (host_counter example_traffic 16909060)" and
    total: "single_bytes (total_of INCOMING s') = single_bytes (total_of INCOMING example_traffic)
       + sum_directed example_traffic_environment INCOMING sampled_number_of_bytes [(5, 0, example_packet)]"
    by blast
  have packet: "accepted example_traffic_environment example_packet" "direction_of example_traffic_environment example_packet = INCOMING"
    "sampled_number_of_packets example_packet = 10" "sampled_number_of_bytes example_packet = 1000" "dst_ip example_packet = 16909060"
    by (simp_all add: accepted_def direction_of_def ours_def whitelisted_def skipped_direction_def sampled_number_of_packets_def
        sampled_number_of_bytes_def example_traffic_environment_def example_packet_def simple_packet_default_def directed_packet_def)
  have "in_packets (counter_udp (host_counter s' 16909060)) = 10" "in_bytes (counter_udp (host_counter s' 16909060)) = 1000"
    unfolding host using packet
    by (simp_all add: host_events_def packet_event_def count_events_def count_event_def increment_incoming_counters_def increment_counters_def
        count_in_def cond_apply_def Let_def element_at_def example_traffic_def example_manager_def subnet_counter_default_def counter_element_zero_def)
      (simp_all add: directed_packet_def example_packet_def)
  moreover have "single_bytes (total_of INCOMING s') = 1000"
    unfolding total using packet by (simp add: sum_directed_def total_of_def example_traffic_def total_speed_counters_default_def
        total_counter_zero_def single_counter_zero_def)
  ultimately show ?thesis
    using run by blast
qed

section \<open>A recalculation\<close>

lemma callback_captures:
  assumes "speed_calculation_callback_local_ipv4 env now clock ip c s = Done s'" "ordered (packet_buckets_map (packet_buckets_ipv4_storage s))"
  shows "ordered (packet_buckets_map (packet_buckets_ipv4_storage s'))" "ban_list_ipv4 s' = ban_list_ipv4 s"
    "ipv4_host_counters s' = ipv4_host_counters s" "mitigation s' = mitigation s"
    "we_have_bucket_for_this_ip ip' (packet_buckets_ipv4_storage s') \<longleftrightarrow> we_have_bucket_for_this_ip ip' (packet_buckets_ipv4_storage s)
       \<or> (ip' = ip \<and> host_exceeds_thresholds env ip c \<and> \<not> is_blackholed ip (ban_list_ipv4 s))"
  using assms by (auto simp: speed_calculation_callback_local_ipv4_def enable_packet_capture_def we_have_bucket_for_this_ip_def Let_def
      and_then_Done_iff map_find_put ordered_map_put split: if_splits)

lemma callbacks_capture:
  assumes "run_callbacks (speed_calculation_callback_local_ipv4 env now clock) checks s = Done s'"
    "ordered (packet_buckets_map (packet_buckets_ipv4_storage s))"
  shows "ban_list_ipv4 s' = ban_list_ipv4 s \<and> ipv4_host_counters s' = ipv4_host_counters s \<and> mitigation s' = mitigation s
    \<and> (\<forall>ip. we_have_bucket_for_this_ip ip (packet_buckets_ipv4_storage s') \<longleftrightarrow> we_have_bucket_for_this_ip ip (packet_buckets_ipv4_storage s)
       \<or> (\<exists>c. (ip, c) \<in> set checks \<and> host_exceeds_thresholds env ip c \<and> \<not> is_blackholed ip (ban_list_ipv4 s)))"
  using assms
proof (induction checks arbitrary: s)
  case (Cons e checks)
  obtain k c where e: "e = (k, c)"
    by (cases e)
  then obtain s1 where s1: "speed_calculation_callback_local_ipv4 env now clock k c s = Done s1"
    "run_callbacks (speed_calculation_callback_local_ipv4 env now clock) checks s1 = Done s'"
    using Cons.prems(1) by (auto simp: and_then_Done_iff)
  note first = callback_captures [OF s1(1) Cons.prems(2)]
  show ?case
    using Cons.IH [OF s1(2) first(1)] first(2-5) by (auto simp: e)
qed simp

lemma recalculate_checks:
  assumes "recalculate_speed f e period hc = Done (hc', checks)" "distinct (map fst (counter_map hc))"
  shows "(ip, c) \<in> set checks \<longleftrightarrow> ip \<in> fst ` set (counter_map hc) \<and> get_average_speed ip hc' = Some c"
proof -
  obtain counters av where loop: "recalculate_loop f e period (counter_map hc) (average_speed_map hc) = Done (counters, av, checks)"
    using assms(1) by (auto simp: recalculate_speed_def and_then_Done_iff split: prod.splits)
  have keys: "map fst checks = map fst (counter_map hc)"
    using recalculate_loop_shape [OF loop] by simp
  then have "distinct (map fst checks)"
    using assms(2) by simp
  moreover have "\<exists>a. get_average_speed ip hc' = Some a \<and> (ip, a) \<in> set checks" if "ip \<in> fst ` set (counter_map hc)"
    using recalculate_speed_each [OF assms] that by force
  moreover have "ip \<in> fst ` set (counter_map hc)" if "(ip, c) \<in> set checks"
    using that keys by (metis fst_conv image_eqI list.set_map)
  ultimately show ?thesis
    by (metis eq_key_imp_eq_value option.inject)
qed

lemma recalculation_frame:
  "recalculate_ipv6 env now clock e period s = Done s' \<Longrightarrow> bans_ipv4 s' = bans_ipv4 s"
  "recalculate_flow_speeds env period ips s = Done s' \<Longrightarrow> bans_ipv4 s' = bans_ipv4 s"
  "recalculate_totals e period s = Done s' \<Longrightarrow> bans_ipv4 s' = bans_ipv4 s"
  by (auto simp: recalculate_ipv6_def recalculate_flow_speeds_def recalculate_totals_def and_then_Done_iff split: prod.splits if_splits)

text \<open>
  C15. A recalculation captures exactly the attacked hosts. When the recalculation is not skipped, every host with
  counted traffic gets an average; afterwards a host has a capture if and only if it had one before, or its new
  average exceeds a threshold of its group while it is neither whitelisted nor banned; bans and mitigation are left to
  the other threads.
\<close>

theorem attacks_captured:
  assumes "recalculate_all_speeds env now clock time_difference s = Done s'"
    "speed_calc_period_of (recalculate_speed_timeout env) time_difference = Done (Some period)"
    "distinct (map fst (counter_map (ipv4_host_counters (bans_ipv4 s))))"
    "ordered (packet_buckets_map (packet_buckets_ipv4_storage (bans_ipv4 s)))"
  shows "(\<forall>ip. let average = get_average_speed ip (ipv4_host_counters (bans_ipv4 s'));
         has_traffic = (ip \<in> fst ` set (counter_map (ipv4_host_counters (bans_ipv4 s))));
         attacked = (case average of None \<Rightarrow> False | Some a \<Rightarrow> has_traffic \<and> host_exceeds_thresholds (bans_environment env) ip a)
       in (has_traffic \<longrightarrow> average \<noteq> None)
        \<and> (we_have_bucket_for_this_ip ip (packet_buckets_ipv4_storage (bans_ipv4 s')) \<longleftrightarrow>
             we_have_bucket_for_this_ip ip (packet_buckets_ipv4_storage (bans_ipv4 s))
             \<or> attacked \<and> \<not> is_blackholed ip (ban_list_ipv4 (bans_ipv4 s))))
    \<and> ban_list_ipv4 (bans_ipv4 s') = ban_list_ipv4 (bans_ipv4 s) \<and> mitigation (bans_ipv4 s') = mitigation (bans_ipv4 s)"
proof -
  obtain s1 s2 s3 where steps: "recalculate_ipv4 env now clock (exp_value_of env period) period s = Done s1"
    "recalculate_ipv6 env now clock (exp_value_of env period) period s1 = Done s2"
    "recalculate_flow_speeds env period (map fst (counter_map (ipv4_host_counters (bans_ipv4 s)))) s2 = Done s3"
    "recalculate_totals (exp_value_of env period) period s3 = Done s'"
    using assms(1,2) by (auto simp: recalculate_all_speeds_def and_then_Done_iff Let_def)
  have same: "bans_ipv4 s' = bans_ipv4 s1"
    using recalculation_frame(1) [OF steps(2)] recalculation_frame(2) [OF steps(3)] recalculation_frame(3) [OF steps(4)] by simp
  obtain hosts checks where hosts: "recalculate_speed (flow_callback env (SubnetVectorMapFlow s) period) (exp_value_of env period) period
      (ipv4_host_counters (bans_ipv4 s)) = Done (hosts, checks)"
    and run: "run_callbacks (speed_calculation_callback_local_ipv4 (bans_environment env) now clock) checks
      ((bans_ipv4 s)\<lparr>ipv4_host_counters := hosts\<rparr>) = Done (bans_ipv4 s1)"
    using steps(1) by (auto simp: recalculate_ipv4_def and_then_Done_iff split: prod.splits)
  note checks = recalculate_checks [OF hosts assms(3)]
  have seen: "\<exists>a. get_average_speed ip hosts = Some a" if "ip \<in> fst ` set (counter_map (ipv4_host_counters (bans_ipv4 s)))" for ip
    using recalculate_speed_each [OF hosts assms(3)] that by force
  from callbacks_capture [OF run] show ?thesis
    using assms(4) seen by (auto simp: same Let_def checks split: option.splits)
qed

text \<open>A host whose average falls from 8000 to 4000 packets per second, with a threshold of 1000.\<close>

definition icmp_average :: "u64 \<Rightarrow> subnet_counter_t" where
  "icmp_average n = subnet_counter_default\<lparr>counter_total := counter_element_zero\<lparr>in_packets := n\<rparr>,
     counter_icmp := counter_element_zero\<lparr>in_packets := n\<rparr>\<rparr>"

definition attacked_traffic :: "u64 \<Rightarrow> u32 packet_buckets_storage_t \<Rightarrow> traffic_state" where
  "attacked_traffic n b = example_traffic\<lparr>bans_ipv4 := example_manager\<lparr>ipv4_host_counters :=
      \<lparr>counter_map = [(16909060, subnet_counter_default)], average_speed_map = [(16909060, icmp_average n)]\<rparr>,
    packet_buckets_ipv4_storage := b\<rparr>\<rparr>"

lemma example_speeds:
  "speed_of 1 0 = Done 0" "moving_average (1 / 2) 0 0 = Done 0" "moving_average (1 / 2) 8000 0 = Done 4000"
proof -
  have "to_double 8000 = 8000" "to_double 4000 = 4000"
    using to_double_int [of 8000] to_double_int [of 4000] by simp_all
  then show "speed_of 1 0 = Done 0" "moving_average (1 / 2) 0 0 = Done 0" "moving_average (1 / 2) 8000 0 = Done 4000"
    by (simp_all add: speed_of_def moving_average_def of_uint64_def to_uint64_def to_double_def [of 0])
qed

lemma example_totals: "calculate_total_speed (1 / 2) 1 total_speed_counters_default = Done total_speed_counters_default"
proof -
  have "calculate_direction (1 / 2) 1 total_counter_zero total_counter_zero = Done total_counter_zero"
    by (simp add: calculate_direction_def update_average_def single_speed_def single_average_def total_counter_zero_def single_counter_zero_def
        example_speeds)
  then show ?thesis
    by (auto simp: calculate_total_speed_def total_speed_counters_default_def fun_eq_iff split: direction_t.split)
qed

lemma example_no_traffic:
  "recalculate_speed f e period \<lparr>counter_map = [], average_speed_map = []\<rparr> = Done (\<lparr>counter_map = [], average_speed_map = []\<rparr>, [])"
  by (simp add: recalculate_speed_def)

lemma example_averages:
  "f 16909060 subnet_counter_default = Done subnet_counter_default \<Longrightarrow>
     recalculate_speed f (1 / 2) 1 \<lparr>counter_map = [(16909060, subnet_counter_default)], average_speed_map = [(16909060, icmp_average 8000)]\<rparr> =
     Done (\<lparr>counter_map = [(16909060, subnet_counter_default)], average_speed_map = [(16909060, icmp_average 4000)]\<rparr>, [(16909060, icmp_average 4000)])"
  by (simp add: recalculate_speed_def build_speed_counters_from_packet_counters_def build_average_speed_counters_from_speed_counters_def
      calculate_speed_def calulate_exponential_moving_average_speed_def icmp_average_def example_speeds subnet_counter_default_def
      counter_element_zero_def element_at_def Let_def counter_zeroify_def element_zeroify_def)

lemma example_attack_average:
  "host_exceeds_thresholds (bans_environment example_traffic_environment) 16909060 (icmp_average 4000)"
  "\<exists>a. detected_attack (bans_environment example_traffic_environment) now 16909060 (icmp_average 4000) = Done a"
proof -
  have speeds: "in_packets (counter_total (icmp_average 4000)) = 4000" "out_packets (counter_total (icmp_average 4000)) = 0"
    "in_packets (counter_icmp (icmp_average 4000)) = 4000" "out_packets (counter_icmp (icmp_average 4000)) = 0"
    by (simp_all add: icmp_average_def counter_element_zero_def)
  have "settings_of_host (bans_environment example_traffic_environment) 16909060 =
      (''global'', ban_settings_default\<lparr>enable_ban := True, enable_ban_for_icmp_pps := True, ban_threshold_icmp_pps := 1000\<rparr>)"
    by (simp add: settings_of_host_def example_traffic_environment_def example_environment_def get_ban_settings_for_this_subnet_def)
  moreover have "we_should_ban_this_entity (icmp_average 4000) (ban_settings_default\<lparr>enable_ban := True, enable_ban_for_icmp_pps := True,
      ban_threshold_icmp_pps := 1000\<rparr>) = (True, icmp_packets_per_second, direction_unknown)"
    by (simp add: we_should_ban_this_entity_def ban_settings_default_def exceed_pps_speed_def speeds)
  moreover have "detect_direction (counter_total (icmp_average 4000)) = Done INCOMING"
    by (simp add: detect_direction_def speeds_are_close_def speeds)
  ultimately show "host_exceeds_thresholds (bans_environment example_traffic_environment) 16909060 (icmp_average 4000)"
    "\<exists>a. detected_attack (bans_environment example_traffic_environment) now 16909060 (icmp_average 4000) = Done a"
    by (simp_all add: host_exceeds_thresholds_def detected_attack_def fill_attack_information_def Let_def)
      (simp add: example_traffic_environment_def example_environment_def)
qed

lemma example_period: "speed_calc_period_of (recalculate_speed_timeout example_traffic_environment) 1 = Done (Some 1)"
  by (simp add: speed_calc_period_of_def example_traffic_environment_def to_int32_def)

lemma example_recalculated:
  "\<exists>b. recalculate_all_speeds example_traffic_environment 0 0 1 (attacked_traffic 8000 packet_buckets_storage_default) = Done (attacked_traffic 4000 b)"
proof -
  let ?env = example_traffic_environment
  let ?hosts = "\<lparr>counter_map = [(16909060 :: u32, subnet_counter_default)], average_speed_map = [(16909060, icmp_average 4000)]\<rparr>"
  obtain a where "detected_attack (bans_environment ?env) 0 16909060 (icmp_average 4000) = Done a"
    using example_attack_average(2) by blast
  then obtain b where callback: "speed_calculation_callback_local_ipv4 (bans_environment ?env) 0 0 16909060 (icmp_average 4000)
      (example_manager\<lparr>ipv4_host_counters := ?hosts, packet_buckets_ipv4_storage := packet_buckets_storage_default\<rparr>) =
      Done (example_manager\<lparr>ipv4_host_counters := ?hosts, packet_buckets_ipv4_storage := b\<rparr>)"
    using example_attack_average(1) by (simp add: speed_calculation_callback_local_ipv4_def we_have_bucket_for_this_ip_def
        packet_buckets_storage_default_def is_blackholed_def example_manager_def)
  have evals: "enable_connection_tracking ?env" "exp_value_of ?env 1 = 1 / 2" "flow_callback ?env [] 1 16909060 subnet_counter_default = Done subnet_counter_default"
    "sum_flow_speeds [] 1 [16909060] = Done (0, 0)"
    by (simp_all add: exp_value_of_def example_traffic_environment_def flow_callback_def increment_flow_counters_def)
  note callback' = callback [unfolded example_manager_def ban_manager.update_convs] and average = example_averages [of "flow_callback ?env [] 1", OF evals(3)]
  have "recalculate_all_speeds ?env 0 0 1 (attacked_traffic 8000 packet_buckets_storage_default) = Done (attacked_traffic 4000 b)"
    by (simp add: evals callback' average example_manager_def recalculate_all_speeds_def example_period recalculate_ipv4_def recalculate_ipv6_def recalculate_flow_speeds_def
        recalculate_totals_def attacked_traffic_def example_traffic_def example_no_traffic example_totals example_speeds example_manager_ipv6_def
        zeroify_all_flow_counters_def increment_flow_counters_def Let_def)
  then show ?thesis ..
qed

theorem attacks_captured_witness:
  "\<exists>s'. recalculate_all_speeds example_traffic_environment 0 0 1 (attacked_traffic 8000 packet_buckets_storage_default) = Done s'
     \<and> we_have_bucket_for_this_ip 16909060 (packet_buckets_ipv4_storage (bans_ipv4 s'))"
proof -
  obtain b where run: "recalculate_all_speeds example_traffic_environment 0 0 1 (attacked_traffic 8000 packet_buckets_storage_default) =
      Done (attacked_traffic 4000 b)"
    using example_recalculated by blast
  have "distinct (map fst (counter_map (ipv4_host_counters (bans_ipv4 (attacked_traffic 8000 packet_buckets_storage_default)))))"
    "ordered (packet_buckets_map (packet_buckets_ipv4_storage (bans_ipv4 (attacked_traffic 8000 packet_buckets_storage_default))))"
    by (simp_all add: attacked_traffic_def packet_buckets_storage_default_def)
  from attacks_captured [OF run example_period this] show ?thesis
    using run example_attack_average(1)
    by (simp add: Let_def attacked_traffic_def get_average_speed_def is_blackholed_def example_manager_def)
qed

section \<open>Statistics that are not what they are called\<close>

text \<open>An IPv6 packet is counted twice, in \<^verbatim>\<open>process_packet\<close> and in \<^verbatim>\<open>process_ipv6_packet\<close>.\<close>

lemma ipv6_packets_counted_twice:
  assumes "ip_protocol_version p = 6" "process_packet env now clock p s = Done s'"
    "\<not> skipped_direction env (fst (get_packet_direction_ipv6 (lookup_tree_ipv6 env) (src_ipv6 p) (dst_ipv6 p) subnet_ipv6_default))"
  shows "total_ipv6_packets s' = total_ipv6_packets s + 2"
  using assms by (auto simp: process_packet_def process_ipv6_packet_def and_then_Done_iff Let_def split: prod.splits)

text \<open>
  The sums of the flows are divided by the period a second time: eight flows in two seconds are
  four flows per second for their host and two for the whole system.
\<close>

definition eight_flows :: conntrack_main_struct_t where
  "eight_flows = conntrack_main_struct_default\<lparr>in_tcp := map (\<lambda>h. (of_nat h, conntrack_key_struct_default)) [0..<8]\<rparr>"

lemma global_flow_speed_divided_twice:
  "sum_flow_speeds [(htonl 16909060, eight_flows)] 2 [16909060] = Done (0, 4) \<and> speed_of 2 4 = Done 2"
proof -
  have "to_double 8 = 8" "to_double 4 = 4" "to_double 2 = 2"
    using to_double_int [of 8] to_double_int [of 4] to_double_int [of 2] by simp_all
  then have "speed_of 2 8 = Done 4" "speed_of 2 4 = Done 2" "speed_of 2 0 = Done 0"
    by (simp_all add: speed_of_def of_uint64_def to_uint64_def to_double_def [of 0])
  then show ?thesis
    by (simp add: increment_flow_counters_def eight_flows_def total_flows_def conntrack_main_struct_default_def)
qed

text \<open>No packet ever enters the counters of all traffic.\<close>

lemma total_counters_stay_zero:
  assumes "process_packet env now clock p s = Done s'" shows "total_counters s' = total_counters s"
  using assms by (auto simp: process_packet_def process_ipv4_packet_def process_ipv6_packet_def and_then_Done_iff Let_def
      split: prod.splits if_splits)

end
