(* ===== verification/Collector_Base.thy ===== *)
theory Collector_Base
  imports Packet_Buckets
begin

text \<open>
  What the receivers of sFlow, NetFlow and IPFIX share: metrics, integers in network byte order inside of a received
  datagram, and lemmas on where the parts of a datagram lie. Metrics are a function from their names to 64 bit counters.
\<close>

section \<open>Metrics\<close>

type_synonym 'c metrics = "'c \<Rightarrow> u64"

definition bump :: "'c \<Rightarrow> 'c metrics \<Rightarrow> 'c metrics" where
  "bump c m = m(c := m c + 1)"

lemma bump_simps [simp]: "bump c m c = m c + 1" "c' \<noteq> c \<Longrightarrow> bump c m c' = m c'"
  by (simp_all add: bump_def)

section \<open>Integers in memory\<close>

text \<open>\<^verbatim>\<open>be64toh\<close> and 64 bit integers in memory, as for the shorter ones.\<close>

definition mem64 :: "u64 \<Rightarrow> bytes" where
  "mem64 w = mem32 (ucast w) @ mem32 (ucast (drop_bit 32 w))"

definition load64_at :: "bytes \<Rightarrow> nat \<Rightarrow> u64" where
  "load64_at bs i = ucast (load32_at bs i) OR push_bit 32 (ucast (load32_at bs (i + 4)))"

definition be64toh :: "u64 \<Rightarrow> u64" where
  "be64toh w = push_bit 32 (ucast (htonl (ucast w))) OR ucast (htonl (ucast (drop_bit 32 w)))"

definition be16_at :: "bytes \<Rightarrow> nat \<Rightarrow> u16" where
  "be16_at bs i = fast_ntoh16 (load16_at bs i)"

definition be32_at :: "bytes \<Rightarrow> nat \<Rightarrow> u32" where
  "be32_at bs i = fast_ntoh32 (load32_at bs i)"

definition be64_at :: "bytes \<Rightarrow> nat \<Rightarrow> u64" where
  "be64_at bs i = be64toh (load64_at bs i)"

definition be16_bytes :: "u16 \<Rightarrow> bytes" where
  "be16_bytes w = mem16 (htons w)"

definition be32_bytes :: "u32 \<Rightarrow> bytes" where
  "be32_bytes w = mem32 (htonl w)"

lemma length_mem64 [simp]: "length (mem64 w) = 8"
  by (simp add: mem64_def)

lemma length_be_bytes [simp]: "length (be16_bytes w) = 2" "length (be32_bytes v) = 4"
  by (simp_all add: be16_bytes_def be32_bytes_def)

lemma be_at_bytes [simp]: "be16_at (be16_bytes w @ bs) 0 = w" "be32_at (be32_bytes v @ bs) 0 = v"
  "be16_at (be16_bytes w) 0 = w" "be32_at (be32_bytes v) 0 = v"
  by (simp_all add: be16_at_def be32_at_def be16_bytes_def be32_bytes_def load_last)

lemma be_at_skip:
  "length xs \<le> i \<Longrightarrow> be16_at (xs @ bs) i = be16_at bs (i - length xs)"
  "length xs \<le> i \<Longrightarrow> be32_at (xs @ bs) i = be32_at bs (i - length xs)"
  by (simp_all add: be16_at_def be32_at_def load16_at_def load32_at_def nth_append Suc_diff_le)

lemma sint_small: "unat (w :: u32) < 2 ^ 31 \<Longrightarrow> sint w = int (unat w)"
proof -
  assume "unat w < 2 ^ 31"
  then have "uint w < 2 ^ 31"
    by (metis of_nat_less_iff of_nat_numeral of_nat_power uint_nat)
  moreover have "- (2 ^ 31) \<le> uint w"
    by (rule order_trans [OF _ uint_ge_0]) simp
  ultimately show ?thesis
    using signed_take_bit_int_eq_self [of 31 "uint w"] by (simp add: sint_uint)
qed

lemma unat_small: "n < 2 ^ 32 \<Longrightarrow> unat (of_nat n :: u32) = n" "m < 2 ^ 16 \<Longrightarrow> unat (of_nat m :: u16) = m"
  by (simp_all add: unat_of_nat take_bit_nat_eq_self)

section \<open>Parts of a datagram\<close>

definition holds_at :: "bytes \<Rightarrow> nat \<Rightarrow> bytes \<Rightarrow> bool" where
  "holds_at bs i d \<longleftrightarrow> i + length d \<le> length bs \<and> take (length d) (drop i bs) = d"

lemma holds_at_append [simp]: "holds_at bs i (d @ e) \<longleftrightarrow> holds_at bs i d \<and> holds_at bs (i + length d) e"
proof -
  have "take (length d + length e) (drop i bs) = take (length d) (drop i bs) @ take (length e) (drop (i + length d) bs)"
    by (simp add: take_add add.commute)
  then show ?thesis
    by (auto simp: holds_at_def add.assoc dest: arg_cong [where f = length])
qed

lemma holds_at_self [simp]: "holds_at bs 0 bs"
  by (simp add: holds_at_def)

lemma holds_at_Nil [simp]: "holds_at bs i [] \<longleftrightarrow> i \<le> length bs"
  by (simp add: holds_at_def)

lemma deref_holds: "holds_at bs i d \<Longrightarrow> length d = n \<Longrightarrow> deref n layout bs i = Done (layout d)"
  by (auto simp: holds_at_def deref_def)

lemma deref_Done_iff: "deref n layout bs i \<noteq> Undefined \<longleftrightarrow> i + n \<le> length bs"
  by (simp add: deref_def)

section \<open>The packet parser\<close>

lemma l4_done: "\<exists>r. parse_l4 proto bs i p = Done r" "\<exists>r. parse_l4_of_ip proto bs i p = Done r"
  by (simp_all add: parse_l4_def parse_l4_of_ip_def parse_udp_def parse_icmp_def parse_tcp_def parse_tcp_cropped_def)

lemma l3_done: "\<exists>r. parse_l3 c n bs i ethertype p = Done r"
  using l4_done by (simp add: parse_l3_def parse_ipv4_def parse_ipv6_def Let_def)

lemma vlan_loop_done:
  "(\<And>i e p. \<exists>r. next i e p = Done r) \<Longrightarrow> \<exists>r. vlan_loop bs i ethertype n p next = Done r"
proof (induction bs i ethertype n p "next" rule: vlan_loop.induct)
  case (1 bs i ethertype n p "next")
  then show ?case
    by (subst vlan_loop.simps) (simp add: Let_def)
qed

lemma parsers_done:
  "\<exists>r. parse_raw_packet_to_simple_packet_full bs n p c = Done r"
  "\<exists>r. parse_raw_ipv4_packet_to_simple_packet_full bs n p c = Done r"
  using vlan_loop_done [OF l3_done] l4_done
  by (simp_all add: parse_raw_packet_to_simple_packet_full_def parse_raw_ipv4_packet_to_simple_packet_full_def Let_def)

end
