(* ===== verification/Sflow_Decoder.thy ===== *)
theory Sflow_Decoder
  imports Collector_Base
begin

text \<open>
  The sFlow receiver: the decoder of datagrams (\<^verbatim>\<open>src/libsflow/libsflow.cpp\<close>) and what the collector does
  with the samples (\<^verbatim>\<open>src/sflow_plugin/sflow_collector.cpp\<close>). A pointer into the received datagram is an index
  into its bytes; every access through one is checked against the received bytes.
\<close>

section \<open>Metrics\<close>

datatype sflow_counter = sflow_total_packets | sflow_bad_packets | sflow_flow_samples | sflow_bad_flow_samples
  | sflow_with_padding_at_the_end_of_packet | sflow_padding_flow_sample | sflow_parse_error_nested_header
  | sflow_counter_sample | sflow_expanded_counter_sample | sflow_generic_interface_counter_sample
  | sflow_raw_packet_headers_total | sflow_extended_router_data_records | sflow_extended_switch_data_records
  | sflow_extended_gateway_data_records | sflow_unknown_header_protocol | sflow_ipv4_header_protocol
  | sflow_ipv6_header_protocol | sflow_packets_discarded | sflow_invalid_raw_packet_header

section \<open>Numbers of the protocol\<close>

definition max_udp_packet_size :: nat where "max_udp_packet_size = 65535"
definition max_sflow_sample_number :: int where "max_sflow_sample_number = 256"
definition max_number_of_counter_records :: nat where "max_number_of_counter_records = 256"
definition max_number_of_flow_records :: nat where "max_number_of_flow_records = 256"

lemmas sflow_limits = max_udp_packet_size_def max_sflow_sample_number_def max_number_of_counter_records_def
  max_number_of_flow_records_def

datatype sflow_sample_type_t = FLOW_SAMPLE | COUNTER_SAMPLE | EXPANDED_FLOW_SAMPLE | EXPANDED_COUNTER_SAMPLE | BROKEN_TYPE

definition sflow_sample_type_from_integer :: "u32 \<Rightarrow> sflow_sample_type_t" where
  "sflow_sample_type_from_integer n =
     (if n < 1 \<or> n > 4 then BROKEN_TYPE
      else if n = 1 then FLOW_SAMPLE else if n = 2 then COUNTER_SAMPLE
      else if n = 3 then EXPANDED_FLOW_SAMPLE else EXPANDED_COUNTER_SAMPLE)"

definition SFLOW_HEADER_PROTOCOL_ETHERNET :: u32 where "SFLOW_HEADER_PROTOCOL_ETHERNET = 1"
definition SFLOW_HEADER_PROTOCOL_IPv4 :: u32 where "SFLOW_HEADER_PROTOCOL_IPv4 = 11"
definition SFLOW_HEADER_PROTOCOL_IPv6 :: u32 where "SFLOW_HEADER_PROTOCOL_IPv6 = 12"
definition SFLOW_PORT_FORMAT_PACKET_DISCARDED :: u32 where "SFLOW_PORT_FORMAT_PACKET_DISCARDED = 1"
definition SFLOW_RECORD_TYPE_RAW_PACKET_HEADER :: u32 where "SFLOW_RECORD_TYPE_RAW_PACKET_HEADER = 1"
definition SFLOW_RECORD_TYPE_EXTENDED_SWITCH_DATA :: u32 where "SFLOW_RECORD_TYPE_EXTENDED_SWITCH_DATA = 1001"
definition SFLOW_RECORD_TYPE_EXTENDED_ROUTER_DATA :: u32 where "SFLOW_RECORD_TYPE_EXTENDED_ROUTER_DATA = 1002"
definition SFLOW_RECORD_TYPE_EXTENDED_GATEWAY_DATA :: u32 where "SFLOW_RECORD_TYPE_EXTENDED_GATEWAY_DATA = 1003"
definition SFLOW_ADDRESS_TYPE_IPv4 :: u32 where "SFLOW_ADDRESS_TYPE_IPv4 = 1"

lemmas sflow_numbers = SFLOW_HEADER_PROTOCOL_ETHERNET_def SFLOW_HEADER_PROTOCOL_IPv4_def SFLOW_HEADER_PROTOCOL_IPv6_def
  SFLOW_PORT_FORMAT_PACKET_DISCARDED_def SFLOW_RECORD_TYPE_RAW_PACKET_HEADER_def SFLOW_RECORD_TYPE_EXTENDED_SWITCH_DATA_def
  SFLOW_RECORD_TYPE_EXTENDED_ROUTER_DATA_def SFLOW_RECORD_TYPE_EXTENDED_GATEWAY_DATA_def SFLOW_ADDRESS_TYPE_IPv4_def

section \<open>Integers of a datagram\<close>

definition get_int_value_by_32bit_shift :: "bytes \<Rightarrow> nat \<Rightarrow> nat \<Rightarrow> u32 outcome" where
  "get_int_value_by_32bit_shift bs payload_ptr shift = deref 4 (\<lambda>d. be32_at d 0) bs (payload_ptr + shift * 4)"

text \<open>The shift of a signed integer keeps its sign.\<close>

definition split_mixed_enterprise_and_format :: "u32 \<Rightarrow> u32 \<times> u32" where
  "split_mixed_enterprise_and_format w = (signed_drop_bit 12 w, w AND 0xFFF)"

definition split_32bit_integer_by_8_and_24_bits :: "u32 \<Rightarrow> u32 \<times> u32" where
  "split_32bit_integer_by_8_and_24_bits w = (drop_bit 24 w, w AND 0x0FFFFFFF)"

definition split_32bit_integer_by_2_and_30_bits :: "u32 \<Rightarrow> u32 \<times> u32" where
  "split_32bit_integer_by_2_and_30_bits w = (drop_bit 30 w, w AND 0x3FFFFFFF)"

section \<open>Headers\<close>

definition build_ipv4_address_from_array :: "bytes \<Rightarrow> string" where
  "build_ipv4_address_from_array a = dec_string (unat (a ! 0)) @ ''.'' @ dec_string (unat (a ! 1)) @ ''.''
     @ dec_string (unat (a ! 2)) @ ''.'' @ dec_string (unat (a ! 3))"

text \<open>
  The code writes \<^verbatim>\<open>std::ios_base::hex\<close>, a number of the standard library, into the stream instead of using the
  manipulator \<^verbatim>\<open>std::hex\<close>; the number is an argument.
\<close>

definition build_ipv6_address_from_array :: "nat \<Rightarrow> bytes \<Rightarrow> string" where
  "build_ipv6_address_from_array ios_base_hex a =
     concat (map (\<lambda>i. dec_string ios_base_hex @ dec_string (unat (a ! i)) @ (if i + 1 \<noteq> 16 then '':'' else [])) [0..<16])"

record sflow_packet_header_unified_accessor =
  sflow_version :: u32
  agent_ip_version :: u32
  agent_ip_address :: string
  sub_agent_id :: u32
  datagram_sequence_number :: u32
  device_uptime :: u32
  datagram_samples_count :: u32
  packet_header_length :: nat

text \<open>The header of a datagram with an address of \<open>n\<close> bytes, converted to the byte order of the host.\<close>

definition sflow_packet_header_of :: "nat \<Rightarrow> (bytes \<Rightarrow> string) \<Rightarrow> bytes \<Rightarrow> sflow_packet_header_unified_accessor" where
  "sflow_packet_header_of n address_text d =
     \<lparr>sflow_version = be32_at d 0, agent_ip_version = be32_at d 4, agent_ip_address = address_text (take n (drop 8 d)),
      sub_agent_id = be32_at d (8 + n), datagram_sequence_number = be32_at d (12 + n), device_uptime = be32_at d (16 + n),
      datagram_samples_count = be32_at d (20 + n), packet_header_length = 24 + n\<rparr>"

definition read_sflow_header :: "nat \<Rightarrow> bytes \<Rightarrow> sflow_packet_header_unified_accessor option outcome" where
  "read_sflow_header ios_base_hex bs =
     (if length bs = 0 then Done None
      else if length bs < 28 then Done None
      else and_then (get_int_value_by_32bit_shift bs 0 0) (\<lambda>version.
        if version \<noteq> 5 then Done None
        else and_then (get_int_value_by_32bit_shift bs 0 1) (\<lambda>ip_protocol_version.
          if ip_protocol_version = 1
          then and_then (deref 28 (sflow_packet_header_of 4 build_ipv4_address_from_array) bs 0) (\<lambda>h. Done (Some h))
          else if ip_protocol_version = 2
          then if length bs < 40 then Done None
               else and_then (deref 40 (sflow_packet_header_of 16 (build_ipv6_address_from_array ios_base_hex)) bs 0)
                      (\<lambda>h. Done (Some h))
          else Done None)))"

record sflow_sample_header_unified_accessor_t =
  sample_sequence_number :: u32
  source_id_type :: u32
  source_id_index :: u32
  sampling_rate :: u32
  sample_pool :: u32
  drops_count :: u32
  input_port_type :: u32
  input_port_index :: u32
  output_port_type :: u32
  output_port_index :: u32
  number_of_flow_records :: u32
  sample_header_length :: nat

definition sflow_sample_header_of :: "bytes \<Rightarrow> sflow_sample_header_unified_accessor_t" where
  "sflow_sample_header_of d =
     (let (id_type, id_index) = split_32bit_integer_by_8_and_24_bits (be32_at d 4);
          (in_type, in_index) = split_32bit_integer_by_2_and_30_bits (be32_at d 20);
          (out_type, out_index) = split_32bit_integer_by_2_and_30_bits (be32_at d 24)
      in \<lparr>sample_sequence_number = be32_at d 0, source_id_type = id_type, source_id_index = id_index,
          sampling_rate = be32_at d 8, sample_pool = be32_at d 12, drops_count = be32_at d 16,
          input_port_type = in_type, input_port_index = in_index, output_port_type = out_type,
          output_port_index = out_index, number_of_flow_records = be32_at d 28, sample_header_length = 32\<rparr>)"

definition sflow_sample_expanded_header_of :: "bytes \<Rightarrow> sflow_sample_header_unified_accessor_t" where
  "sflow_sample_expanded_header_of d =
     \<lparr>sample_sequence_number = be32_at d 0, source_id_type = be32_at d 4, source_id_index = be32_at d 8,
      sampling_rate = be32_at d 12, sample_pool = be32_at d 16, drops_count = be32_at d 20, input_port_type = be32_at d 24,
      input_port_index = be32_at d 28, output_port_type = be32_at d 32, output_port_index = be32_at d 36,
      number_of_flow_records = be32_at d 40, sample_header_length = 44\<rparr>"

definition read_sflow_sample_header_unified ::
    "bytes \<Rightarrow> nat \<Rightarrow> nat \<Rightarrow> bool \<Rightarrow> sflow_sample_header_unified_accessor_t option outcome" where
  "read_sflow_sample_header_unified bs data_pointer data_length expanded =
     (if expanded
      then if data_length < 44 then Done None
           else and_then (deref 44 sflow_sample_expanded_header_of bs data_pointer) (\<lambda>h. Done (Some h))
      else if data_length < 32 then Done None
           else and_then (deref 32 sflow_sample_header_of bs data_pointer) (\<lambda>h. Done (Some h)))"

record sflow_counter_header_unified_accessor_t =
  counter_sequence_number :: u32
  counter_source_id_type :: u32
  counter_source_id_index :: u32
  number_of_counter_records :: u32
  counter_header_length :: nat
  counter_expanded :: bool

definition sflow_counter_header_of :: "bytes \<Rightarrow> sflow_counter_header_unified_accessor_t" where
  "sflow_counter_header_of d =
     (let (id_type, id_index) = split_32bit_integer_by_2_and_30_bits (be32_at d 4)
      in \<lparr>counter_sequence_number = be32_at d 0, counter_source_id_type = id_type, counter_source_id_index = id_index,
          number_of_counter_records = be32_at d 8, counter_header_length = 12, counter_expanded = False\<rparr>)"

definition sflow_counter_expanded_header_of :: "bytes \<Rightarrow> sflow_counter_header_unified_accessor_t" where
  "sflow_counter_expanded_header_of d =
     \<lparr>counter_sequence_number = be32_at d 0, counter_source_id_type = be32_at d 4, counter_source_id_index = be32_at d 8,
      number_of_counter_records = be32_at d 12, counter_header_length = 16, counter_expanded = True\<rparr>"

definition read_sflow_counter_header ::
    "bytes \<Rightarrow> nat \<Rightarrow> nat \<Rightarrow> bool \<Rightarrow> sflow_counter_header_unified_accessor_t option outcome" where
  "read_sflow_counter_header bs data_pointer data_length expanded =
     (if expanded
      then if data_length < 16 then Done None
           else and_then (deref 16 sflow_counter_expanded_header_of bs data_pointer) (\<lambda>h. Done (Some h))
      else if data_length < 12 then Done None
           else and_then (deref 12 sflow_counter_header_of bs data_pointer) (\<lambda>h. Done (Some h)))"

record sflow_raw_protocol_header_t =
  header_protocol :: u32
  frame_length_before_sampling :: u32
  number_of_bytes_removed_from_packet :: u32
  header_size :: u32

definition sflow_raw_protocol_header_of :: "bytes \<Rightarrow> sflow_raw_protocol_header_t" where
  "sflow_raw_protocol_header_of d =
     \<lparr>header_protocol = be32_at d 0, frame_length_before_sampling = be32_at d 4,
      number_of_bytes_removed_from_packet = be32_at d 8, header_size = be32_at d 12\<rparr>"

record sflow_extended_gateway_information_t =
  gateway_router_asn :: u32
  gateway_source_asn :: u32

definition sflow_extended_gateway_information_of :: "bytes \<Rightarrow> sflow_extended_gateway_information_t" where
  "sflow_extended_gateway_information_of d = \<lparr>gateway_router_asn = be32_at d 8, gateway_source_asn = be32_at d 12\<rparr>"

section \<open>Samples and records\<close>

text \<open>Type, position and length of a record; enterprise, format, position and length of a sample.\<close>

type_synonym record_tuple_t = "u32 \<times> nat \<times> nat"
type_synonym sample_tuple_t = "u32 \<times> u32 \<times> nat \<times> nat"

text \<open>
  The loops return the elements and whether bytes are left over, or nothing when the code reports an error. The code
  compares a signed length with an unsigned limit, so a negative length is refused as well.
\<close>

fun get_records :: "bytes \<Rightarrow> nat \<Rightarrow> nat \<Rightarrow> nat \<Rightarrow> (record_tuple_t list \<times> bool) option outcome" where
  "get_records bs record_start 0 packet_end =
     (if record_start > packet_end then Done None else Done (Some ([], record_start \<noteq> packet_end)))"
| "get_records bs record_start (Suc n) packet_end =
     (if packet_end < record_start + 8 then Done None
      else and_then (get_int_value_by_32bit_shift bs record_start 0) (\<lambda>element_type.
        and_then (get_int_value_by_32bit_shift bs record_start 1) (\<lambda>element_length.
          if unat element_length > max_udp_packet_size then Done None
          else if record_start + 8 + unat element_length > packet_end then Done None
          else and_then (get_records bs (record_start + 8 + unat element_length) n packet_end) (\<lambda>res.
            Done (map_option (apfst (Cons (element_type, record_start + 8, unat element_length))) res)))))"

fun get_all_samples :: "bytes \<Rightarrow> nat \<Rightarrow> nat \<Rightarrow> nat \<Rightarrow> (sample_tuple_t list \<times> bool) option outcome" where
  "get_all_samples bs sample_start total_packet_end 0 = Done (Some ([], sample_start \<noteq> total_packet_end))"
| "get_all_samples bs sample_start total_packet_end (Suc n) =
     (if total_packet_end < sample_start + 8 then Done None
      else and_then (get_int_value_by_32bit_shift bs sample_start 0) (\<lambda>enterprise_with_format.
        and_then (get_int_value_by_32bit_shift bs sample_start 1) (\<lambda>sample_length.
          if unat sample_length > max_udp_packet_size then Done None
          else let (enterprise, integer_format) = split_mixed_enterprise_and_format enterprise_with_format
               in if sample_start + 8 + unat sample_length > total_packet_end then Done None
                  else and_then (get_all_samples bs (sample_start + 8 + unat sample_length) total_packet_end n) (\<lambda>res.
                    Done (map_option (apfst (Cons (enterprise, integer_format, sample_start + 8, unat sample_length))) res)))))"

record counter_record_sample_t =
  counter_enterprise :: u32
  counter_format :: u32
  counter_length :: nat
  counter_pointer :: nat

fun get_all_counter_records :: "bytes \<Rightarrow> nat \<Rightarrow> nat \<Rightarrow> nat \<Rightarrow> counter_record_sample_t list option outcome" where
  "get_all_counter_records bs record_start data_block_end 0 =
     (if record_start \<noteq> data_block_end then Done None else Done (Some []))"
| "get_all_counter_records bs record_start data_block_end (Suc n) =
     (if record_start + 8 \<ge> data_block_end then Done None
      else and_then (get_int_value_by_32bit_shift bs record_start 0) (\<lambda>enterprise_and_format.
        and_then (get_int_value_by_32bit_shift bs record_start 1) (\<lambda>record_length.
          if unat record_length > max_udp_packet_size then Done None
          else if record_start + 8 + unat record_length > data_block_end then Done None
          else let (enterprise, integer_format) = split_mixed_enterprise_and_format enterprise_and_format
               in and_then (get_all_counter_records bs (record_start + 8 + unat record_length) data_block_end n) (\<lambda>res.
                    Done (map_option (Cons \<lparr>counter_enterprise = enterprise, counter_format = integer_format,
                      counter_length = unat record_length, counter_pointer = record_start + 8\<rparr>) res)))))"

section \<open>The collector\<close>

record sflow_environment =
  sflow_current_time :: int
  sflow_extract_tunnel_traffic :: bool
  sflow_read_packet_length_from_ip_header :: bool
  ios_base_hex :: nat

text \<open>The metrics, and the packets given to the processing function, in the order of the calls.\<close>

record sflow_state =
  sflow_metrics :: "sflow_counter metrics"
  sflow_processed :: "simple_packet_t list"

definition sflow_bump :: "sflow_counter \<Rightarrow> sflow_state \<Rightarrow> sflow_state" where
  "sflow_bump c st = st\<lparr>sflow_metrics := bump c (sflow_metrics st)\<rparr>"

definition sflow_init :: sflow_state where
  "sflow_init = \<lparr>sflow_metrics = (\<lambda>_. 0), sflow_processed = []\<rparr>"

text \<open>
  The treatment of one record: whether the loop goes on, the packet and the state. \<open>after_nested\<close> continues behind
  a call of the packet parser.
\<close>

type_synonym record_result = "(bool \<times> simple_packet_t \<times> sflow_state) outcome"

definition after_nested :: "sflow_state \<Rightarrow> parsed \<Rightarrow> (simple_packet_t \<Rightarrow> record_result) \<Rightarrow> record_result" where
  "after_nested st result k = and_then result (\<lambda>(code, packet).
     if code \<noteq> success then Done (False, packet, sflow_bump sflow_parse_error_nested_header st) else k packet)"

definition finish_raw_packet ::
    "sflow_sample_header_unified_accessor_t \<Rightarrow> sflow_raw_protocol_header_t \<Rightarrow> bytes \<Rightarrow> sflow_state \<Rightarrow> simple_packet_t \<Rightarrow> record_result" where
  "finish_raw_packet sh rh header_payload st packet =
     (let packet = packet\<lparr>payload_pointer := Some header_payload, payload_full_length := frame_length_before_sampling rh,
            captured_payload_length := sint (header_size rh), sample_ratio := sampling_rate sh,
            input_interface := input_port_index sh, output_interface := output_port_index sh\<rparr>
      in if output_port_type sh = SFLOW_PORT_FORMAT_PACKET_DISCARDED
         then Done (True, packet\<lparr>forwarding_status := fwd_dropped\<rparr>, sflow_bump sflow_packets_discarded st)
         else Done (True, packet, st))"

definition parse_raw_packet_header ::
    "sflow_environment \<Rightarrow> sflow_sample_header_unified_accessor_t \<Rightarrow> sflow_raw_protocol_header_t \<Rightarrow> bytes
     \<Rightarrow> simple_packet_t \<Rightarrow> sflow_state \<Rightarrow> record_result" where
  "parse_raw_packet_header env sh rh header_payload packet st =
     (let frame_length = sint (frame_length_before_sampling rh);
          length_from_header = sflow_read_packet_length_from_ip_header env
      in if header_protocol rh = SFLOW_HEADER_PROTOCOL_ETHERNET
         then after_nested st
                (parse_raw_packet_to_simple_packet_full header_payload frame_length packet
                  (parser_options_default\<lparr>unpack_gre := sflow_extract_tunnel_traffic env,
                     read_packet_length_from_ip_header := length_from_header\<rparr>))
                (finish_raw_packet sh rh header_payload st)
         else if header_protocol rh = SFLOW_HEADER_PROTOCOL_IPv4
         then let st = sflow_bump sflow_ipv4_header_protocol st
              in after_nested st
                   (parse_raw_ipv4_packet_to_simple_packet_full header_payload frame_length packet
                     (parser_options_default\<lparr>unpack_gre := False, read_packet_length_from_ip_header := length_from_header\<rparr>))
                   (finish_raw_packet sh rh header_payload st)
         else if header_protocol rh = SFLOW_HEADER_PROTOCOL_IPv6
         then Done (False, packet, sflow_bump sflow_ipv6_header_protocol st)
         else Done (False, packet, sflow_bump sflow_unknown_header_protocol st))"

definition process_raw_packet_header ::
    "sflow_environment \<Rightarrow> sflow_sample_header_unified_accessor_t \<Rightarrow> bytes \<Rightarrow> nat \<Rightarrow> nat \<Rightarrow> simple_packet_t \<Rightarrow> sflow_state \<Rightarrow> record_result" where
  "process_raw_packet_header env sh bs payload_ptr record_length packet st =
     (let st = sflow_bump sflow_raw_packet_headers_total st
      in if record_length < 16 then Done (False, packet, sflow_bump sflow_invalid_raw_packet_header st)
         else and_then (deref 16 sflow_raw_protocol_header_of bs payload_ptr) (\<lambda>rh.
           if unat (header_size rh) > record_length - 16
           then Done (False, packet, sflow_bump sflow_invalid_raw_packet_header st)
           else and_then (deref (unat (header_size rh)) id bs (payload_ptr + 16)) (\<lambda>header_payload.
             parse_raw_packet_header env sh rh header_payload packet st)))"

definition process_gateway_data :: "bytes \<Rightarrow> nat \<Rightarrow> nat \<Rightarrow> simple_packet_t \<Rightarrow> sflow_state \<Rightarrow> record_result" where
  "process_gateway_data bs payload_ptr record_length packet st =
     (let st = sflow_bump sflow_extended_gateway_data_records st
      in if record_length < 4 then Done (False, packet, st)
         else and_then (deref 4 (\<lambda>d. be32_at d 0) bs payload_ptr) (\<lambda>nexthop_address_type.
           if nexthop_address_type = SFLOW_ADDRESS_TYPE_IPv4
           then if record_length < 20 then Done (False, packet, st)
                else and_then (deref 20 sflow_extended_gateway_information_of bs payload_ptr) (\<lambda>gateway_details.
                  Done (True, packet\<lparr>src_asn := gateway_router_asn gateway_details,
                    dst_asn := gateway_source_asn gateway_details\<rparr>, st))
           else Done (True, packet, st)))"

fun process_flow_records ::
    "sflow_environment \<Rightarrow> sflow_sample_header_unified_accessor_t \<Rightarrow> bytes \<Rightarrow> record_tuple_t list \<Rightarrow> simple_packet_t \<Rightarrow> sflow_state \<Rightarrow> record_result" where
  "process_flow_records env sh bs [] packet st = Done (True, packet, st)"
| "process_flow_records env sh bs ((record_type, payload_ptr, record_length) # records) packet st =
     and_then
       (if record_type = SFLOW_RECORD_TYPE_RAW_PACKET_HEADER
        then process_raw_packet_header env sh bs payload_ptr record_length packet st
        else if record_type = SFLOW_RECORD_TYPE_EXTENDED_ROUTER_DATA
        then Done (True, packet, sflow_bump sflow_extended_router_data_records st)
        else if record_type = SFLOW_RECORD_TYPE_EXTENDED_SWITCH_DATA
        then Done (True, packet, sflow_bump sflow_extended_switch_data_records st)
        else if record_type = SFLOW_RECORD_TYPE_EXTENDED_GATEWAY_DATA
        then process_gateway_data bs payload_ptr record_length packet st
        else Done (True, packet, st))
       (\<lambda>(go_on, packet, st). if go_on then process_flow_records env sh bs records packet st else Done (False, packet, st))"

definition process_sflow_flow_sample ::
    "sflow_environment \<Rightarrow> bytes \<Rightarrow> nat \<Rightarrow> nat \<Rightarrow> bool \<Rightarrow> u32 \<Rightarrow> sflow_state \<Rightarrow> (bool \<times> sflow_state) outcome" where
  "process_sflow_flow_sample env bs data_pointer data_length expanded client_ipv4_address st =
     and_then (read_sflow_sample_header_unified bs data_pointer data_length expanded) (\<lambda>header.
     case header of None \<Rightarrow> Done (False, sflow_bump sflow_bad_flow_samples st) | Some sh \<Rightarrow>
     if number_of_flow_records sh = 0 then Done (False, sflow_bump sflow_bad_flow_samples st)
     else if unat (number_of_flow_records sh) > max_number_of_flow_records
     then Done (False, sflow_bump sflow_bad_flow_samples st)
     else and_then (get_records bs (data_pointer + sample_header_length sh) (unat (number_of_flow_records sh))
                     (data_pointer + data_length)) (\<lambda>res.
       case res of None \<Rightarrow> Done (False, sflow_bump sflow_bad_flow_samples st) | Some (records, padding_found) \<Rightarrow>
       let st = (if padding_found then sflow_bump sflow_padding_flow_sample st else st);
           packet = simple_packet_default\<lparr>source := SFLOW, arrival_time := sflow_current_time env,
             agent_ipv4_address := client_ipv4_address\<rparr>
       in and_then (process_flow_records env sh bs records packet st) (\<lambda>(complete, packet, st).
            if complete then Done (True, st\<lparr>sflow_processed := sflow_processed st @ [packet]\<rparr>)
            else Done (False, st))))"

text \<open>The counters of an interface are only logged.\<close>

fun process_counter_records :: "counter_record_sample_t list \<Rightarrow> sflow_state \<Rightarrow> sflow_state" where
  "process_counter_records [] st = st"
| "process_counter_records (r # records) st =
     process_counter_records records
       (if counter_enterprise r = 0 \<and> counter_format r = 1 \<and> counter_length r = 88
        then sflow_bump sflow_generic_interface_counter_sample st else st)"

definition process_sflow_counter_sample :: "bytes \<Rightarrow> nat \<Rightarrow> nat \<Rightarrow> bool \<Rightarrow> sflow_state \<Rightarrow> (bool \<times> sflow_state) outcome" where
  "process_sflow_counter_sample bs data_pointer data_length expanded st =
     and_then (read_sflow_counter_header bs data_pointer data_length expanded) (\<lambda>header.
     case header of None \<Rightarrow> Done (False, st) | Some ch \<Rightarrow>
     if number_of_counter_records ch = 0 then Done (False, st)
     else if unat (number_of_counter_records ch) > max_number_of_counter_records then Done (False, st)
     else and_then (get_all_counter_records bs (data_pointer + counter_header_length ch) (data_pointer + data_length)
                     (unat (number_of_counter_records ch))) (\<lambda>res.
       case res of None \<Rightarrow> Done (False, st) | Some records \<Rightarrow> Done (True, process_counter_records records st)))"

fun process_samples ::
    "sflow_environment \<Rightarrow> bytes \<Rightarrow> u32 \<Rightarrow> sample_tuple_t list \<Rightarrow> sflow_state \<Rightarrow> sflow_state outcome" where
  "process_samples env bs client [] st = Done st"
| "process_samples env bs client ((enterprise, integer_format, data_pointer, data_length) # samples) st =
     (if enterprise \<noteq> 0 then process_samples env bs client samples st
      else case sflow_sample_type_from_integer integer_format of
        BROKEN_TYPE \<Rightarrow> process_samples env bs client samples st
      | FLOW_SAMPLE \<Rightarrow>
          and_then (process_sflow_flow_sample env bs data_pointer data_length False client st) (\<lambda>(_, st).
            process_samples env bs client samples (sflow_bump sflow_flow_samples st))
      | COUNTER_SAMPLE \<Rightarrow>
          and_then (process_sflow_counter_sample bs data_pointer data_length False st) (\<lambda>(_, st).
            process_samples env bs client samples (sflow_bump sflow_counter_sample st))
      | EXPANDED_FLOW_SAMPLE \<Rightarrow>
          and_then (process_sflow_flow_sample env bs data_pointer data_length True client st) (\<lambda>(_, st).
            process_samples env bs client samples (sflow_bump sflow_flow_samples st))
      | EXPANDED_COUNTER_SAMPLE \<Rightarrow>
          process_samples env bs client samples (sflow_bump sflow_expanded_counter_sample st))"

definition parse_sflow_v5_packet :: "sflow_environment \<Rightarrow> bytes \<Rightarrow> u32 \<Rightarrow> sflow_state \<Rightarrow> sflow_state outcome" where
  "parse_sflow_v5_packet env bs client_ipv4_address st =
     (let st = sflow_bump sflow_total_packets st in
      and_then (read_sflow_header (ios_base_hex env) bs) (\<lambda>header.
      case header of None \<Rightarrow> Done (sflow_bump sflow_bad_packets st) | Some h \<Rightarrow>
      if sint (datagram_samples_count h) \<le> 0 then Done (sflow_bump sflow_bad_packets st)
      else if sint (datagram_samples_count h) > max_sflow_sample_number then Done (sflow_bump sflow_bad_packets st)
      else and_then (get_all_samples bs (packet_header_length h) (length bs) (nat (sint (datagram_samples_count h)))) (\<lambda>res.
        case res of None \<Rightarrow> Done (sflow_bump sflow_bad_packets st) | Some (samples, discovered_padding) \<Rightarrow>
        process_samples env bs client_ipv4_address samples
          (if discovered_padding then sflow_bump sflow_with_padding_at_the_end_of_packet st else st))))"

end
