(* ===== verification/Sflow_Spec.thy ===== *)
theory Sflow_Spec
  imports Sflow_Decoder
begin

text \<open>
  What the sFlow receiver guarantees: no datagram makes it read outside of the received bytes, every packet it hands
  on can be stored, and the sampled frames of a well-formed datagram reach the processing as the packet parser reads them.
\<close>

section \<open>Memory safety\<close>

lemma get_int_inside:
  "p + shift * 4 + 4 \<le> length bs \<Longrightarrow> \<exists>w. get_int_value_by_32bit_shift bs p shift = Done w"
  by (simp add: get_int_value_by_32bit_shift_def)

lemma get_records_done:
  assumes "packet_end \<le> length bs"
  shows "\<exists>res. get_records bs i n packet_end = Done res
    \<and> (\<forall>rs pad. res = Some (rs, pad) \<longrightarrow> (\<forall>(t, p, l) \<in> set rs. p + l \<le> packet_end \<and> l \<le> 65535))"
proof (induction n arbitrary: i)
  case (Suc n)
  show ?case
  proof (cases "packet_end < i + 8")
    case False
    then obtain t l where "get_int_value_by_32bit_shift bs i 0 = Done t" "get_int_value_by_32bit_shift bs i 1 = Done l"
      using get_int_inside [of i 0 bs] get_int_inside [of i 1 bs] assms by auto
    then show ?thesis
      using Suc.IH [of "i + 8 + unat l"] False by (fastforce simp: sflow_limits)
  qed simp
qed simp

lemma get_all_samples_done:
  assumes "packet_end \<le> length bs"
  shows "\<exists>res. get_all_samples bs i packet_end n = Done res
    \<and> (\<forall>rs pad. res = Some (rs, pad) \<longrightarrow> length rs = n \<and> (\<forall>(e, f, p, l) \<in> set rs. p + l \<le> packet_end))"
proof (induction n arbitrary: i)
  case (Suc n)
  show ?case
  proof (cases "packet_end < i + 8")
    case False
    then obtain t l where "get_int_value_by_32bit_shift bs i 0 = Done t" "get_int_value_by_32bit_shift bs i 1 = Done l"
      using get_int_inside [of i 0 bs] get_int_inside [of i 1 bs] assms by auto
    then show ?thesis
      using Suc.IH [of "i + 8 + unat l"] False by (fastforce simp: split_mixed_enterprise_and_format_def)
  qed simp
qed simp

lemma get_all_counter_records_done:
  "block_end \<le> length bs \<Longrightarrow> \<exists>res. get_all_counter_records bs i block_end n = Done res"
proof (induction n arbitrary: i)
  case (Suc n)
  show ?case
  proof (cases "i + 8 \<ge> block_end")
    case False
    then obtain t l where "get_int_value_by_32bit_shift bs i 0 = Done t" "get_int_value_by_32bit_shift bs i 1 = Done l"
      using get_int_inside [of i 0 bs] get_int_inside [of i 1 bs] Suc.prems by auto
    then show ?thesis
      using Suc.IH [OF Suc.prems, of "i + 8 + unat l"] by (auto simp: split_mixed_enterprise_and_format_def)
  qed simp
qed simp

text \<open>What a record leaves behind: the packets handed on before, and a packet that can be stored.\<close>

definition record_safe :: "sflow_state \<Rightarrow> record_result \<Rightarrow> bool" where
  "record_safe st res \<longleftrightarrow> (\<exists>go_on packet st'. res = Done (go_on, packet, st') \<and> sflow_processed st' = sflow_processed st
     \<and> (go_on \<longrightarrow> storable packet))"

lemma record_safe_Done [simp]:
  "record_safe st (Done (go_on, packet, st')) \<longleftrightarrow> sflow_processed st' = sflow_processed st \<and> (go_on \<longrightarrow> storable packet)"
  by (auto simp: record_safe_def)

lemma processed_bump [simp]: "sflow_processed (sflow_bump c st) = sflow_processed st"
  by (simp add: sflow_bump_def)

lemma finish_raw_packet_safe:
  assumes "length payload = unat (header_size rh)" "unat (header_size rh) < 2 ^ 31"
  shows "record_safe st (finish_raw_packet sh rh payload st packet)"
proof -
  show ?thesis
    using assms by (auto simp: sint_small [OF assms(2)] record_safe_def finish_raw_packet_def storable_def Let_def nat_mod_distrib)
qed

lemma after_nested_safe:
  assumes "\<exists>r. result = Done r" "\<And>packet. record_safe st (k packet)"
  shows "record_safe st (after_nested st result k)"
  using assms by (force simp: record_safe_def after_nested_def split: prod.splits)

lemma record_safe_bump: "record_safe (sflow_bump c st) res \<longleftrightarrow> record_safe st res"
  by (simp add: record_safe_def)

lemma parse_raw_packet_header_safe:
  assumes "length payload = unat (header_size rh)" "unat (header_size rh) < 2 ^ 31"
  shows "record_safe st (parse_raw_packet_header env sh rh payload packet st)"
proof -
  have nested: "record_safe st' (after_nested st' result (finish_raw_packet sh rh payload st'))"
    if "\<exists>r. result = Done r" for st' result
    using that by (rule after_nested_safe) (rule finish_raw_packet_safe [OF assms])
  show ?thesis
    using nested [OF parsers_done(1), of st] nested [OF parsers_done(2), of "sflow_bump sflow_ipv4_header_protocol st"]
    by (simp add: parse_raw_packet_header_def Let_def record_safe_bump)
qed

lemma process_raw_packet_header_safe:
  assumes "p + l \<le> length bs" "l \<le> 65535"
  shows "record_safe st (process_raw_packet_header env sh bs p l packet st)"
proof (cases "l < 16")
  case True
  then show ?thesis
    by (simp add: process_raw_packet_header_def Let_def)
next
  case False
  define rh where "rh = sflow_raw_protocol_header_of (take 16 (drop p bs))"
  define payload where "payload = take (unat (header_size rh)) (drop (p + 16) bs)"
  have inside: "p + 16 + unat (header_size rh) \<le> length bs \<Longrightarrow> deref (unat (header_size rh)) id bs (p + 16) = Done payload"
    by (simp add: payload_def)
  have "length payload = unat (header_size rh)" "unat (header_size rh) < 2 ^ 31" if "\<not> unat (header_size rh) > l - 16"
    using that assms False by (auto simp: payload_def)
  note parse_raw_packet_header_safe [OF this, of "sflow_bump sflow_raw_packet_headers_total st" env sh packet]
  then show ?thesis
    using assms False inside
    by (simp add: process_raw_packet_header_def Let_def rh_def [symmetric] record_safe_bump)
qed

lemma storable_asn [simp]: "storable (packet\<lparr>src_asn := a, dst_asn := b\<rparr>) = storable packet"
  by (simp add: storable_def split: option.split)

lemma process_gateway_data_safe:
  assumes "p + l \<le> length bs" "storable packet"
  shows "record_safe st (process_gateway_data bs p l packet st)"
  using assms by (simp add: process_gateway_data_def Let_def)

lemma process_flow_records_safe:
  "\<forall>(t, p, l) \<in> set rs. p + l \<le> length bs \<and> l \<le> 65535 \<Longrightarrow> storable packet \<Longrightarrow>
    record_safe st (process_flow_records env sh bs rs packet st)"
proof (induction rs arbitrary: packet st)
  case Nil
  then show ?case
    by simp
next
  case (Cons r rs)
  obtain t p l where r: "r = (t, p, l)"
    by (cases r)
  define first where "first = (if t = SFLOW_RECORD_TYPE_RAW_PACKET_HEADER then process_raw_packet_header env sh bs p l packet st
      else if t = SFLOW_RECORD_TYPE_EXTENDED_ROUTER_DATA then Done (True, packet, sflow_bump sflow_extended_router_data_records st)
      else if t = SFLOW_RECORD_TYPE_EXTENDED_SWITCH_DATA then Done (True, packet, sflow_bump sflow_extended_switch_data_records st)
      else if t = SFLOW_RECORD_TYPE_EXTENDED_GATEWAY_DATA then process_gateway_data bs p l packet st
      else Done (True, packet, st))"
  have "record_safe st first"
    using Cons.prems process_raw_packet_header_safe [of p l bs st] process_gateway_data_safe [of p l bs packet st]
    by (simp add: first_def r)
  then obtain go_on packet' st' where "first = Done (go_on, packet', st')" "sflow_processed st' = sflow_processed st"
      "go_on \<longrightarrow> storable packet'"
    by (auto simp: record_safe_def)
  then show ?case
    using Cons.IH [of packet' st'] Cons.prems(1) unfolding r process_flow_records.simps first_def [symmetric]
    by (auto simp: record_safe_def)
qed

text \<open>At most \<open>n\<close> packets are handed on, all of which can be stored.\<close>

definition hands_on :: "nat \<Rightarrow> sflow_state \<Rightarrow> sflow_state \<Rightarrow> bool" where
  "hands_on n st st' \<longleftrightarrow> (\<exists>ps. sflow_processed st' = sflow_processed st @ ps \<and> list_all storable ps \<and> length ps \<le> n)"

lemma hands_on_bump [simp]: "hands_on n (sflow_bump c st) st' \<longleftrightarrow> hands_on n st st'" "hands_on n st (sflow_bump c st') \<longleftrightarrow> hands_on n st st'"
  by (simp_all add: hands_on_def)

lemma hands_on_same: "sflow_processed st' = sflow_processed st \<Longrightarrow> hands_on n st st'"
  by (simp add: hands_on_def)

lemma hands_on_trans:
  assumes "hands_on n st st'" "hands_on m st' st''" shows "hands_on (n + m) st st''"
proof -
  obtain ps qs where "sflow_processed st' = sflow_processed st @ ps" "sflow_processed st'' = sflow_processed st' @ qs"
      "list_all storable (ps @ qs)" "length (ps @ qs) \<le> n + m"
    using assms by (auto simp: hands_on_def)
  then show ?thesis
    unfolding hands_on_def by (intro exI [of _ "ps @ qs"]) simp
qed

lemma hands_on_records:
  assumes "\<forall>(t, p, l) \<in> set rs. p + l \<le> length bs \<and> l \<le> 65535" "storable packet"
  shows "\<exists>ok st'. and_then (process_flow_records env sh bs rs packet st) (\<lambda>(complete, packet, st1).
        if complete then Done (True, st1\<lparr>sflow_processed := sflow_processed st1 @ [packet]\<rparr>) else Done (False, st1))
      = Done (ok, st') \<and> hands_on 1 st st'"
  using process_flow_records_safe [OF assms, of st env sh] by (auto simp: record_safe_def hands_on_def)

lemma flow_sample_done:
  assumes "p + l \<le> length bs"
  shows "\<exists>ok st'. process_sflow_flow_sample env bs p l expanded client st = Done (ok, st') \<and> hands_on 1 st st'"
proof -
  obtain header where header: "read_sflow_sample_header_unified bs p l expanded = Done header"
    using assms by (cases expanded; cases "l < 44"; cases "l < 32") (simp_all add: read_sflow_sample_header_unified_def)
  show ?thesis
  proof (cases header)
    case None
    then show ?thesis
      by (auto simp: process_sflow_flow_sample_def header hands_on_same)
  next
    case (Some sh)
    obtain res where res: "get_records bs (p + sample_header_length sh) (unat (number_of_flow_records sh)) (p + l) = Done res"
        "\<forall>rs pad. res = Some (rs, pad) \<longrightarrow> (\<forall>(t, p', l') \<in> set rs. p' + l' \<le> p + l \<and> l' \<le> 65535)"
      using get_records_done [OF assms] by blast
    have "storable (simple_packet_default\<lparr>source := SFLOW, arrival_time := sflow_current_time env, agent_ipv4_address := client\<rparr>)"
      by (simp add: storable_def simple_packet_default_def)
    moreover have "\<forall>(t, p', l') \<in> set rs. p' + l' \<le> length bs \<and> l' \<le> 65535" if "res = Some (rs, pad)" for rs pad
      using res(2) that assms by fastforce
    ultimately show ?thesis
      using hands_on_records [where env = env and sh = sh and st = st]
        hands_on_records [where env = env and sh = sh and st = "sflow_bump sflow_padding_flow_sample st"]
      by (cases res) (auto simp: process_sflow_flow_sample_def header Some res(1) Let_def hands_on_same)
  qed
qed

lemma counter_sample_done:
  assumes "p + l \<le> length bs"
  shows "\<exists>ok st'. process_sflow_counter_sample bs p l expanded st = Done (ok, st') \<and> hands_on 0 st st'"
proof -
  obtain header where header: "read_sflow_counter_header bs p l expanded = Done header"
    using assms by (cases expanded; cases "l < 16"; cases "l < 12") (simp_all add: read_sflow_counter_header_def)
  have same: "sflow_processed (process_counter_records rs st) = sflow_processed st" for rs
    by (induction rs arbitrary: st) simp_all
  show ?thesis
  proof (cases header)
    case (Some ch)
    then show ?thesis
      using get_all_counter_records_done [OF assms, of "p + counter_header_length ch" "unat (number_of_counter_records ch)"] same
      by (auto simp: process_sflow_counter_sample_def header hands_on_same split: option.split)
  qed (auto simp: process_sflow_counter_sample_def header hands_on_same)
qed

lemma process_samples_done:
  "\<forall>(e, f, p, l) \<in> set samples. p + l \<le> length bs \<Longrightarrow>
    \<exists>st'. process_samples env bs client samples st = Done st' \<and> hands_on (length samples) st st'"
proof (induction samples arbitrary: st)
  case Nil
  then show ?case
    by (simp add: hands_on_same)
next
  case (Cons s samples)
  obtain e f p l where s: "s = (e, f, p, l)" "p + l \<le> length bs"
    using Cons.prems by (cases s) auto
  have rest: "\<exists>st'. process_samples env bs client samples st1 = Done st' \<and> hands_on (Suc (length samples)) st st'"
    if "hands_on 1 st st1" for st1
  proof -
    obtain st' where "process_samples env bs client samples st1 = Done st'" "hands_on (length samples) st1 st'"
      using Cons by force
    with hands_on_trans [OF that] show ?thesis
      by auto
  qed
  have weak: "hands_on 1 st st1" if "hands_on 0 st st1" for st1
    using that by (auto simp: hands_on_def)
  show ?case
    using rest [of st] rest [of "sflow_bump sflow_expanded_counter_sample st"]
      flow_sample_done [OF s(2), of env False client st] flow_sample_done [OF s(2), of env True client st]
      counter_sample_done [OF s(2), of False st] rest weak
    by (auto simp: s(1) hands_on_same split: sflow_sample_type_t.split)
qed

lemma read_sflow_header_done: "\<exists>header. read_sflow_header hex_flag bs = Done header"
  by (cases "length bs < 28") (simp_all add: read_sflow_header_def get_int_value_by_32bit_shift_def)

lemma sflow_datagram_done:
  "\<exists>st'. parse_sflow_v5_packet env bs client st = Done st' \<and> hands_on 256 st st'"
proof -
  have same: "hands_on n st st" for n
    by (simp add: hands_on_same)
  obtain header where header: "read_sflow_header (ios_base_hex env) bs = Done header"
    using read_sflow_header_done by blast
  show ?thesis
  proof (cases header)
    case (Some h)
    define n where "n = nat (sint (datagram_samples_count h))"
    obtain res where res: "get_all_samples bs (packet_header_length h) (length bs) n = Done res"
        "\<forall>rs pad. res = Some (rs, pad) \<longrightarrow> length rs = n \<and> (\<forall>(e, f, p, l) \<in> set rs. p + l \<le> length bs)"
      using get_all_samples_done [of "length bs" bs] by blast
    have "\<exists>st'. process_samples env bs client rs st1 = Done st' \<and> hands_on 256 st st'"
      if "res = Some (rs, pad)" "hands_on 0 st st1" "sint (datagram_samples_count h) \<le> 256" for rs pad st1
    proof -
      note rs = res(2) [rule_format, OF that(1)]
      obtain st' where "process_samples env bs client rs st1 = Done st'" "hands_on n st1 st'"
        using process_samples_done [of rs bs env client st1] rs by auto
      moreover have "n \<le> 256"
        using that(3) by (simp add: n_def)
      ultimately show ?thesis
        using that(2) by (force simp: hands_on_def)
    qed
    then show ?thesis
      using res(1) same [of 0]
      by (cases res) (auto simp: parse_sflow_v5_packet_def header Some Let_def same n_def [symmetric] max_sflow_sample_number_def)
  qed (simp add: parse_sflow_v5_packet_def header Let_def same)
qed

text \<open>
  The sFlow receiver is memory safe and hands on only packets that can be stored: whatever bytes a datagram
  consists of, its processing reads nothing outside of them, ends, keeps the packets handed on before, and hands on at most 256
  more, each with its captured bytes at hand.
\<close>

lemma sflow_memory_safe:
  "\<exists>st' ps. parse_sflow_v5_packet env bs client st = Done st' \<and> sflow_processed st' = sflow_processed st @ ps
     \<and> list_all storable ps \<and> length ps \<le> 256"
  using sflow_datagram_done [of env bs client st] by (auto simp: hands_on_def)

section \<open>Well-formed datagrams\<close>

text \<open>An Ethernet frame as an agent samples it, and the datagram that carries such frames.\<close>

record sampled_frame =
  frame_rate :: u32
  frame_input :: u32
  frame_output :: u32
  frame_length :: u32
  frame_bytes :: bytes

definition raw_packet_record :: "sampled_frame \<Rightarrow> bytes" where
  "raw_packet_record f = be32_bytes SFLOW_RECORD_TYPE_RAW_PACKET_HEADER @ be32_bytes (of_nat (16 + length (frame_bytes f)))
     @ (be32_bytes SFLOW_HEADER_PROTOCOL_ETHERNET @ be32_bytes (frame_length f) @ be32_bytes 0
        @ be32_bytes (of_nat (length (frame_bytes f)))) @ frame_bytes f"

definition flow_sample_header :: "sampled_frame \<Rightarrow> bytes" where
  "flow_sample_header f = be32_bytes 1 @ be32_bytes 0 @ be32_bytes (frame_rate f) @ be32_bytes 0 @ be32_bytes 0
     @ be32_bytes (frame_input f) @ be32_bytes (frame_output f) @ be32_bytes 1"

definition flow_sample :: "sampled_frame \<Rightarrow> bytes" where
  "flow_sample f = be32_bytes 1 @ be32_bytes (of_nat (56 + length (frame_bytes f))) @ flow_sample_header f @ raw_packet_record f"

definition sflow_datagram :: "bytes \<Rightarrow> sampled_frame list \<Rightarrow> bytes" where
  "sflow_datagram agent fs = (be32_bytes 5 @ be32_bytes 1 @ agent @ be32_bytes 0 @ be32_bytes 0 @ be32_bytes 0
     @ be32_bytes (of_nat (length fs))) @ concat (map flow_sample fs)"

text \<open>What the program makes of a sampled frame.\<close>

definition fresh_packet :: "sflow_environment \<Rightarrow> u32 \<Rightarrow> simple_packet_t" where
  "fresh_packet env client = simple_packet_default\<lparr>source := SFLOW, arrival_time := sflow_current_time env, agent_ipv4_address := client\<rparr>"

definition parsed_frame :: "sflow_environment \<Rightarrow> u32 \<Rightarrow> sampled_frame \<Rightarrow> parsed" where
  "parsed_frame env client f = parse_raw_packet_to_simple_packet_full (frame_bytes f) (sint (frame_length f)) (fresh_packet env client)
     (parser_options_default\<lparr>unpack_gre := sflow_extract_tunnel_traffic env,
        read_packet_length_from_ip_header := sflow_read_packet_length_from_ip_header env\<rparr>)"

definition delivered_frame :: "sampled_frame \<Rightarrow> simple_packet_t \<Rightarrow> simple_packet_t" where
  "delivered_frame f packet =
     packet\<lparr>payload_pointer := Some (frame_bytes f), payload_full_length := frame_length f,
       captured_payload_length := int (length (frame_bytes f)), sample_ratio := frame_rate f,
       input_interface := frame_input f AND 0x3FFFFFFF, output_interface := frame_output f AND 0x3FFFFFFF,
       forwarding_status := (if drop_bit 30 (frame_output f) = 1 then fwd_dropped else forwarding_status packet)\<rparr>"

lemma length_flow_sample [simp]:
  "length (flow_sample_header f) = 32" "length (raw_packet_record f) = 24 + length (frame_bytes f)"
  "length (flow_sample f) = 64 + length (frame_bytes f)"
  by (simp_all add: flow_sample_header_def raw_packet_record_def flow_sample_def)

lemma get_int_holds:
  "holds_at bs (p + shift * 4) (be32_bytes w) \<Longrightarrow> get_int_value_by_32bit_shift bs p shift = Done w"
  by (simp add: get_int_value_by_32bit_shift_def deref_holds)

lemma frame_lengths:
  assumes "length (frame_bytes f) \<le> 65000"
  shows "unat (of_nat (56 + length (frame_bytes f)) :: u32) = 56 + length (frame_bytes f)"
    "unat (of_nat (16 + length (frame_bytes f)) :: u32) = 16 + length (frame_bytes f)"
    "unat (of_nat (length (frame_bytes f)) :: u32) = length (frame_bytes f)"
    "sint (of_nat (length (frame_bytes f)) :: u32) = int (length (frame_bytes f))"
proof -
  show small: "unat (of_nat (56 + length (frame_bytes f)) :: u32) = 56 + length (frame_bytes f)"
    "unat (of_nat (16 + length (frame_bytes f)) :: u32) = 16 + length (frame_bytes f)"
    "unat (of_nat (length (frame_bytes f)) :: u32) = length (frame_bytes f)"
    by (rule unat_small; use assms in simp)+
  show "sint (of_nat (length (frame_bytes f)) :: u32) = int (length (frame_bytes f))"
    by (subst sint_small) (use assms small(3) in simp_all)
qed

lemma sample_header_read:
  "number_of_flow_records (sflow_sample_header_of (flow_sample_header f)) = 1"
  "sample_header_length (sflow_sample_header_of (flow_sample_header f)) = 32"
  "sampling_rate (sflow_sample_header_of (flow_sample_header f)) = frame_rate f"
  "input_port_index (sflow_sample_header_of (flow_sample_header f)) = frame_input f AND 0x3FFFFFFF"
  "output_port_index (sflow_sample_header_of (flow_sample_header f)) = frame_output f AND 0x3FFFFFFF"
  "output_port_type (sflow_sample_header_of (flow_sample_header f)) = drop_bit 30 (frame_output f)"
  by (simp_all add: sflow_sample_header_of_def flow_sample_header_def split_32bit_integer_by_2_and_30_bits_def
      split_32bit_integer_by_8_and_24_bits_def be_at_skip)

lemma raw_header_read:
  "sflow_raw_protocol_header_of (be32_bytes SFLOW_HEADER_PROTOCOL_ETHERNET @ be32_bytes l @ be32_bytes 0 @ be32_bytes n)
   = \<lparr>header_protocol = SFLOW_HEADER_PROTOCOL_ETHERNET, frame_length_before_sampling = l, number_of_bytes_removed_from_packet = 0,
      header_size = n\<rparr>"
  by (simp add: sflow_raw_protocol_header_of_def be_at_skip)

lemma raw_record_processed:
  assumes "holds_at bs i (raw_packet_record f)" "length (frame_bytes f) \<le> 65000" "parsed_frame env client f = Done (success, packet)"
  shows "get_records bs i 1 (i + length (raw_packet_record f))
      = Done (Some ([(SFLOW_RECORD_TYPE_RAW_PACKET_HEADER, i + 8, 16 + length (frame_bytes f))], False))"
    "\<exists>st'. process_raw_packet_header env (sflow_sample_header_of (flow_sample_header f)) bs (i + 8) (16 + length (frame_bytes f))
      (fresh_packet env client) st = Done (True, delivered_frame f packet, st') \<and> sflow_processed st' = sflow_processed st"
proof -
  have ints: "get_int_value_by_32bit_shift bs i 0 = Done SFLOW_RECORD_TYPE_RAW_PACKET_HEADER"
    "get_int_value_by_32bit_shift bs i 1 = Done (of_nat (16 + length (frame_bytes f)))"
    using assms(1) by (simp_all add: raw_packet_record_def get_int_holds)
  then show "get_records bs i 1 (i + length (raw_packet_record f))
      = Done (Some ([(SFLOW_RECORD_TYPE_RAW_PACKET_HEADER, i + 8, 16 + length (frame_bytes f))], False))"
    using frame_lengths [OF assms(2)] assms(2) by (simp add: sflow_limits)
  have header: "deref 16 sflow_raw_protocol_header_of bs (i + 8) = Done \<lparr>header_protocol = SFLOW_HEADER_PROTOCOL_ETHERNET,
      frame_length_before_sampling = frame_length f, number_of_bytes_removed_from_packet = 0,
      header_size = of_nat (length (frame_bytes f))\<rparr>"
    using assms(1) unfolding raw_header_read [symmetric]
    by (intro deref_holds) (simp_all add: raw_packet_record_def add.assoc)
  have payload: "deref (length (frame_bytes f)) id bs (i + 24) = Done (frame_bytes f)"
    using assms(1) by (subst deref_holds) (simp_all add: raw_packet_record_def add.commute)
  show "\<exists>st'. process_raw_packet_header env (sflow_sample_header_of (flow_sample_header f)) bs (i + 8) (16 + length (frame_bytes f))
      (fresh_packet env client) st = Done (True, delivered_frame f packet, st') \<and> sflow_processed st' = sflow_processed st"
    using header payload assms(3) frame_lengths [OF assms(2)]
    by (auto simp: process_raw_packet_header_def parse_raw_packet_header_def after_nested_def finish_raw_packet_def
        parsed_frame_def delivered_frame_def sample_header_read sflow_numbers Let_def add.assoc)
qed

lemma flow_sample_delivered:
  assumes "holds_at bs i (flow_sample_header f @ raw_packet_record f)" "length (frame_bytes f) \<le> 65000"
    "parsed_frame env client f = Done (success, packet)"
  shows "\<exists>st'. process_sflow_flow_sample env bs i (56 + length (frame_bytes f)) False client st = Done (True, st')
    \<and> sflow_processed st' = sflow_processed st @ [delivered_frame f packet]"
proof -
  have header: "deref 32 sflow_sample_header_of bs i = Done (sflow_sample_header_of (flow_sample_header f))"
    using assms(1) by (intro deref_holds) auto
  have rec: "holds_at bs (i + 32) (raw_packet_record f)"
    using assms(1) by simp
  obtain st' where "process_raw_packet_header env (sflow_sample_header_of (flow_sample_header f)) bs (i + 32 + 8)
      (16 + length (frame_bytes f)) (fresh_packet env client) st = Done (True, delivered_frame f packet, st')"
      "sflow_processed st' = sflow_processed st"
    using raw_record_processed(2) [OF rec assms(2,3)] by blast
  moreover have "get_records bs (i + 32) (unat (1 :: u32)) (i + (56 + length (frame_bytes f)))
      = Done (Some ([(SFLOW_RECORD_TYPE_RAW_PACKET_HEADER, i + 32 + 8, 16 + length (frame_bytes f))], False))"
    using raw_record_processed(1) [OF rec assms(2,3)] by (simp add: add.assoc del: get_records.simps)
  ultimately show ?thesis
    using header
    by (simp add: process_sflow_flow_sample_def read_sflow_sample_header_unified_def sample_header_read Let_def
        max_number_of_flow_records_def fresh_packet_def [symmetric] del: get_records.simps)
qed

lemma samples_found:
  "holds_at bs i (concat (map flow_sample fs)) \<Longrightarrow> \<forall>f \<in> set fs. length (frame_bytes f) \<le> 65000 \<Longrightarrow>
    \<exists>samples pad. get_all_samples bs i (length bs) (length fs) = Done (Some (samples, pad))
    \<and> list_all2 (\<lambda>s f. \<exists>p. s = (0, 1, p, 56 + length (frame_bytes f)) \<and> holds_at bs p (flow_sample_header f @ raw_packet_record f)) samples fs"
proof (induction fs arbitrary: i)
  case (Cons f fs)
  have here: "holds_at bs i (flow_sample f)" and rest: "holds_at bs (i + 64 + length (frame_bytes f)) (concat (map flow_sample fs))"
    using Cons.prems(1) by (simp_all add: add.assoc)
  have ints: "get_int_value_by_32bit_shift bs i 0 = Done 1"
    "get_int_value_by_32bit_shift bs i 1 = Done (of_nat (56 + length (frame_bytes f)))"
    using here by (simp_all add: flow_sample_def get_int_holds)
  have inside: "i + 64 + length (frame_bytes f) \<le> length bs" and body: "holds_at bs (i + 8) (flow_sample_header f @ raw_packet_record f)"
    using here by (simp add: holds_at_def) (use here in \<open>simp add: flow_sample_def add.commute\<close>)
  obtain samples pad where "get_all_samples bs (i + 64 + length (frame_bytes f)) (length bs) (length fs) = Done (Some (samples, pad))"
      "list_all2 (\<lambda>s f. \<exists>p. s = (0, 1, p, 56 + length (frame_bytes f)) \<and> holds_at bs p (flow_sample_header f @ raw_packet_record f)) samples fs"
    using Cons.IH [OF rest] Cons.prems(2) by auto
  moreover have "split_mixed_enterprise_and_format 1 = (0, 1)"
    by (simp add: split_mixed_enterprise_and_format_def)
  ultimately show ?case
    using ints inside body frame_lengths(1) [of f] Cons.prems(2)
    by (auto simp: sflow_limits add.assoc simp del: of_nat_add)
qed simp

lemma samples_processed:
  "list_all2 (\<lambda>s f. \<exists>p. s = (0, 1, p, 56 + length (frame_bytes f)) \<and> holds_at bs p (flow_sample_header f @ raw_packet_record f)) samples fs
   \<Longrightarrow> list_all2 (\<lambda>f packet. length (frame_bytes f) \<le> 65000 \<and> parsed_frame env client f = Done (success, packet)) fs packets
   \<Longrightarrow> \<exists>st'. process_samples env bs client samples st = Done st'
     \<and> sflow_processed st' = sflow_processed st @ map2 delivered_frame fs packets"
proof (induction fs arbitrary: samples packets st)
  case Nil
  then show ?case
    by simp
next
  case (Cons f fs)
  obtain p samples' packet packets' where split: "samples = (0, 1, p, 56 + length (frame_bytes f)) # samples'" "packets = packet # packets'"
      "holds_at bs p (flow_sample_header f @ raw_packet_record f)" "length (frame_bytes f) \<le> 65000"
      "parsed_frame env client f = Done (success, packet)"
    using Cons.prems by (auto simp: list_all2_Cons1 list_all2_Cons2)
  obtain st1 where "process_sflow_flow_sample env bs p (56 + length (frame_bytes f)) False client st = Done (True, st1)"
      "sflow_processed st1 = sflow_processed st @ [delivered_frame f packet]"
    using flow_sample_delivered [OF split(3,4,5)] by blast
  with Cons.IH [of samples' packets' "sflow_bump sflow_flow_samples st1"] Cons.prems show ?case
    by (auto simp: split(1,2) sflow_sample_type_from_integer_def)
qed

text \<open>
  C17. Sampled frames reach the processing: a datagram of up to 256 flow samples, each with an Ethernet frame that the packet
  parser accepts, hands on exactly these packets, in order, each with the sampling rate, the interfaces and the
  forwarding status of its sample and the bytes of its frame.
\<close>

theorem sflow_frames_delivered:
  assumes "length agent = 4" "fs \<noteq> []" "length fs \<le> 256"
    and "list_all2 (\<lambda>f packet. length (frame_bytes f) \<le> 65000 \<and> parsed_frame env client f = Done (success, packet)) fs packets"
  shows "\<exists>st'. parse_sflow_v5_packet env (sflow_datagram agent fs) client st = Done st'
    \<and> sflow_processed st' = sflow_processed st @ map2 delivered_frame fs packets"
proof -
  define bs where "bs = sflow_datagram agent fs"
  define h where "h = sflow_packet_header_of 4 build_ipv4_address_from_array (be32_bytes 5 @ be32_bytes 1 @ agent @ be32_bytes 0
      @ be32_bytes 0 @ be32_bytes 0 @ be32_bytes (of_nat (length fs)))"
  have all: "holds_at bs 0 (sflow_datagram agent fs)"
    by (simp add: bs_def)
  have "length bs \<ge> 28"
    using assms(1) by (simp add: bs_def sflow_datagram_def)
  moreover have "get_int_value_by_32bit_shift bs 0 0 = Done 5" "get_int_value_by_32bit_shift bs 0 1 = Done 1"
    using all by (simp_all add: sflow_datagram_def get_int_holds)
  moreover have "deref 28 (sflow_packet_header_of 4 build_ipv4_address_from_array) bs 0 = Done h"
    unfolding h_def using all assms(1) by (intro deref_holds) (simp_all add: sflow_datagram_def)
  ultimately have header: "read_sflow_header (ios_base_hex env) bs = Done (Some h)"
    by (auto simp: read_sflow_header_def)
  have "unat (of_nat (length fs) :: u32) = length fs"
    using assms(3) by (intro unat_small) simp
  then have count: "sint (datagram_samples_count h) = int (length fs)" and start: "packet_header_length h = 28"
    using assms(1,3) sint_small [of "of_nat (length fs)"] by (simp_all add: h_def sflow_packet_header_of_def be_at_skip)
  have "holds_at bs 28 (concat (map flow_sample fs))" "\<forall>f \<in> set fs. length (frame_bytes f) \<le> 65000"
    using all assms(1,4) by (auto simp: sflow_datagram_def list_all2_conv_all_nth in_set_conv_nth)
  from samples_found [OF this] obtain samples pad where found: "get_all_samples bs 28 (length bs) (length fs) = Done (Some (samples, pad))"
      "list_all2 (\<lambda>s f. \<exists>p. s = (0, 1, p, 56 + length (frame_bytes f)) \<and> holds_at bs p (flow_sample_header f @ raw_packet_record f)) samples fs"
    by blast
  have "\<exists>st'. process_samples env bs client samples st1 = Done st'
      \<and> sflow_processed st' = sflow_processed st1 @ map2 delivered_frame fs packets" for st1
    using samples_processed [OF found(2) assms(4)] .
  from this [of "sflow_bump sflow_total_packets st"]
      this [of "sflow_bump sflow_with_padding_at_the_end_of_packet (sflow_bump sflow_total_packets st)"] show ?thesis
    using found(1) assms(2,3) unfolding bs_def [symmetric]
    by (auto simp: parse_sflow_v5_packet_def header count start Let_def max_sflow_sample_number_def)
qed

definition example_frame :: sampled_frame where
  "example_frame = \<lparr>frame_rate = 1024, frame_input = 3, frame_output = 7, frame_length = 42,
     frame_bytes = frame (example_eth 2048) [] (ipv4_bytes (example_ip4 0) @ udp_bytes example_udp)\<rparr>"

lemma length_example_frame: "length (frame_bytes example_frame) = 42"
  by (simp add: example_frame_def frame_def ethernet_bytes_def example_eth_def)

lemma sflow_frames_delivered_witness:
  "\<exists>packet st'. parse_sflow_v5_packet \<lparr>sflow_current_time = 5, sflow_extract_tunnel_traffic = False,
       sflow_read_packet_length_from_ip_header = False, ios_base_hex = 8\<rparr>
       (sflow_datagram [10, 0, 0, 1] [example_frame, example_frame]) 16777226 sflow_init = Done st'
     \<and> sflow_processed st' = [packet, packet] \<and> sample_ratio packet = 1024 \<and> input_interface packet = 3"
proof -
  let ?env = "\<lparr>sflow_current_time = 5, sflow_extract_tunnel_traffic = False,
       sflow_read_packet_length_from_ip_header = False, ios_base_hex = 8\<rparr>"
  have "\<exists>q. parsed_frame ?env 16777226 example_frame = Done (success, q)"
    by (simp add: parsed_frame_def example_frame_def frame_example)
  then obtain q where "parsed_frame ?env 16777226 example_frame = Done (success, q)"
    by blast
  then have "list_all2 (\<lambda>f packet. length (frame_bytes f) \<le> 65000 \<and> parsed_frame ?env 16777226 f = Done (success, packet))
      [example_frame, example_frame] [q, q]"
    by (simp add: length_example_frame)
  from sflow_frames_delivered [OF _ _ _ this, of "[10, 0, 0, 1]" sflow_init] show ?thesis
    by (intro exI [of _ "delivered_frame example_frame q"]) (simp add: sflow_init_def delivered_frame_def example_frame_def)
qed

text \<open>
  A flow sample without a raw packet header is handed on as well, as a packet without addresses.
\<close>

lemma empty_sample_handed_on:
  assumes "holds_at bs i (flow_sample_header f @ be32_bytes 1001 @ be32_bytes 0)"
  shows "\<exists>st'. process_sflow_flow_sample env bs i 40 False client st = Done (True, st')
    \<and> sflow_processed st' = sflow_processed st @ [fresh_packet env client]"
proof -
  have header: "deref 32 sflow_sample_header_of bs i = Done (sflow_sample_header_of (flow_sample_header f))"
    using assms by (intro deref_holds) auto
  have "get_int_value_by_32bit_shift bs (i + 32) 0 = Done 1001" "get_int_value_by_32bit_shift bs (i + 32) (Suc 0) = Done 0"
    using assms by (simp_all add: get_int_holds)
  then show ?thesis
    using header by (auto simp: process_sflow_flow_sample_def read_sflow_sample_header_unified_def sample_header_read Let_def
        sflow_limits fresh_packet_def sflow_numbers)
qed

text \<open>The index of a source keeps four bits of its type.\<close>

lemma source_index_too_wide: "split_32bit_integer_by_8_and_24_bits 0x01000005 = (1, 0x01000005)"
  by (simp add: split_32bit_integer_by_8_and_24_bits_def)

end
