(* ===== verification/Netflow_Base.thy ===== *)
theory Netflow_Base
  imports Collector_Base "HOL-Library.List_Lexorder" "HOL-Library.Char_ord"
begin

text \<open>
  What the receivers of NetFlow and IPFIX share: the templates and their storage (\<^verbatim>\<open>src/netflow_plugin/netflow_template.cpp\<close>,
  \<^verbatim>\<open>netflow_template_storage.cpp\<close>), the state of the collector, and the helpers of \<^verbatim>\<open>netflow_collector.cpp\<close>.
  Lengths and offsets are natural numbers: a datagram has less than \<open>2 ^ 16\<close> bytes, so it carries less than \<open>2 ^ 14\<close> fields
  of less than \<open>2 ^ 16\<close> bytes each and no sum of them reaches \<open>2 ^ 32\<close>.
\<close>

section \<open>Templates\<close>

datatype netflow_template_type_t = Unknown_template | Data | Options

record template_record_t =
  record_type :: u32
  record_length :: nat
  enterprise_bit :: bool
  enterprise_number :: u32

record template_t =
  template_id :: u16
  num_records :: nat
  total_length :: nat
  option_scope_length :: nat
  ipfix_variable_length_elements_used :: bool
  timestamp :: int
  template_type :: netflow_template_type_t
  template_records :: "template_record_t list"

text \<open>The comparison of templates leaves the time out.\<close>

definition template_eq :: "template_t \<Rightarrow> template_t \<Rightarrow> bool" where
  "template_eq lhs rhs \<longleftrightarrow> template_id lhs = template_id rhs \<and> num_records lhs = num_records rhs
     \<and> total_length lhs = total_length rhs \<and> option_scope_length lhs = option_scope_length rhs
     \<and> ipfix_variable_length_elements_used lhs = ipfix_variable_length_elements_used rhs
     \<and> template_type lhs = template_type rhs \<and> template_records lhs = template_records rhs"

definition get_netflow_template_type_as_string :: "netflow_template_type_t \<Rightarrow> string" where
  "get_netflow_template_type_as_string t = (case t of Data \<Rightarrow> ''data'' | Options \<Rightarrow> ''options'' | Unknown_template \<Rightarrow> ''unknown'')"

section \<open>Template storage\<close>

type_synonym template_table = "(string, (u32, template_t) std_map) std_map"

definition template_key :: "string \<Rightarrow> u32 \<Rightarrow> string" where
  "template_key client source_id = client @ ''_'' @ dec_string (unat source_id)"

definition peer_find_template :: "template_table \<Rightarrow> u32 \<Rightarrow> u32 \<Rightarrow> string \<Rightarrow> template_t option" where
  "peer_find_template table source_id tid client =
     (case map_find table (template_key client source_id) of
        None \<Rightarrow> None
      | Some templates \<Rightarrow> map_find templates tid)"

text \<open>What became of a template that was received.\<close>

datatype template_update = Added_template | Changed_template | Same_template

definition add_update_peer_template ::
    "template_table \<Rightarrow> u32 \<Rightarrow> u32 \<Rightarrow> string \<Rightarrow> template_t \<Rightarrow> template_update \<times> template_table" where
  "add_update_peer_template table source_id tid client field_template =
     (let key = template_key client source_id
      in case map_find table key of
           None \<Rightarrow> (Added_template, map_put key (map_put tid field_template []) table)
         | Some templates \<Rightarrow>
             (case map_find templates tid of
                None \<Rightarrow> (Added_template, map_put key (map_put tid field_template templates) table)
              | Some known \<Rightarrow>
                  if \<not> template_eq known field_template
                  then (Changed_template, map_put key (map_put tid field_template templates) table)
                  else (Same_template, table)))"

section \<open>State of the collector\<close>

record device_timeouts_t =
  active_timeout :: "u32 option"
  inactive_timeout :: "u32 option"

definition device_timeouts_default :: device_timeouts_t where
  "device_timeouts_default = \<lparr>active_timeout = Some 0, inactive_timeout = Some 0\<rparr>"

text \<open>A metric is known by the name of its variable.\<close>

type_synonym netflow_counter = string

text \<open>The globals of the collector, and the packets given to the processing function, in the order of the calls.\<close>

record netflow_state =
  netflow_metrics :: "netflow_counter metrics"
  global_netflow9_templates :: template_table
  global_ipfix_templates :: template_table
  netflow9_sampling_rates :: "(string, u32) std_map"
  ipfix_sampling_rates :: "(string, u32) std_map"
  netflow_v9_per_device_flow_timeouts :: "(string, device_timeouts_t) std_map"
  ipfix_per_device_flow_timeouts :: "(string, device_timeouts_t) std_map"
  netflow_processed :: "simple_packet_t list"

definition netflow_init :: netflow_state where
  "netflow_init = \<lparr>netflow_metrics = (\<lambda>_. 0), global_netflow9_templates = [], global_ipfix_templates = [],
     netflow9_sampling_rates = [], ipfix_sampling_rates = [], netflow_v9_per_device_flow_timeouts = [],
     ipfix_per_device_flow_timeouts = [], netflow_processed = []\<rparr>"

text \<open>The clock, the configured sampling ratio and the sender of the datagram.\<close>

record netflow_environment =
  netflow_current_time :: int
  netflow_sampling_ratio :: u32
  client_address :: string
  client_ipv4_address :: u32

definition nf_bump :: "netflow_counter \<Rightarrow> netflow_state \<Rightarrow> netflow_state" where
  "nf_bump c st = st\<lparr>netflow_metrics := bump c (netflow_metrics st)\<rparr>"

definition nf_process :: "simple_packet_t \<Rightarrow> netflow_state \<Rightarrow> netflow_state" where
  "nf_process packet st = st\<lparr>netflow_processed := netflow_processed st @ [packet]\<rparr>"

lemma processed_simps [simp]:
  "netflow_processed (nf_bump c st) = netflow_processed st"
  "netflow_processed (nf_process p st) = netflow_processed st @ [p]"
  by (simp_all add: nf_bump_def nf_process_def)

lemma tables_simps [simp]:
  "global_netflow9_templates (nf_bump c st) = global_netflow9_templates st"
  "global_netflow9_templates (nf_process p st) = global_netflow9_templates st"
  "global_ipfix_templates (nf_bump c st) = global_ipfix_templates st"
  "global_ipfix_templates (nf_process p st) = global_ipfix_templates st"
  by (simp_all add: nf_bump_def nf_process_def)

section \<open>Helpers\<close>

definition flows_per_packet_maximum_number :: nat where "flows_per_packet_maximum_number = 256"
definition sets_per_packet_maximum_number :: nat where "sets_per_packet_maximum_number = 256"

definition forwarding_status_from_integer :: "u8 \<Rightarrow> forwarding_status_t" where
  "forwarding_status_from_integer n =
     (if n = 0 then fwd_unknown else if n = 1 then fwd_forwarded else if n = 2 then fwd_dropped
      else if n = 3 then fwd_consumed else fwd_unknown)"

definition clear_bit_value :: "u16 \<Rightarrow> nat \<Rightarrow> u16" where
  "clear_bit_value num n = (if n > 0 \<and> n \<le> 16 then num AND NOT (push_bit (n - 1) 1) else num)"

definition override_packet_fields_from_nested_packet :: "simple_packet_t \<Rightarrow> simple_packet_t \<Rightarrow> simple_packet_t" where
  "override_packet_fields_from_nested_packet packet nested =
     packet\<lparr>src_ip := src_ip nested, dst_ip := dst_ip nested, src_ipv6 := src_ipv6 nested, dst_ipv6 := dst_ipv6 nested,
       ip_protocol_version := ip_protocol_version nested, ttl := ttl nested, source_port := source_port nested,
       destination_port := destination_port nested, protocol := protocol nested, length' := length' nested,
       ip_length := ip_length nested, number_of_packets := 1, flags := flags nested, ip_fragmented := ip_fragmented nested,
       ip_dont_fragment := ip_dont_fragment nested, vlan := vlan nested, source_mac := source_mac nested,
       destination_mac := destination_mac nested\<rparr>"

definition update_device_flow_timeouts ::
    "device_timeouts_t \<Rightarrow> string \<Rightarrow> (string, device_timeouts_t) std_map \<Rightarrow> (string, device_timeouts_t) std_map" where
  "update_device_flow_timeouts device_timeouts client timeout_storage =
     (if active_timeout device_timeouts = None \<and> inactive_timeout device_timeouts = None then timeout_storage
      else case map_find timeout_storage client of
             None \<Rightarrow> map_put client device_timeouts timeout_storage
           | Some old \<Rightarrow> if old = device_timeouts then timeout_storage
                         else map_put client device_timeouts timeout_storage)"

text \<open>
  \<^verbatim>\<open>BE_COPY\<close> overwrites the last bytes of a variable, \<^verbatim>\<open>memcpy\<close> to its address the first ones.
\<close>

definition be_copy64 :: "bytes \<Rightarrow> u64 \<Rightarrow> u64" where
  "be_copy64 d a = load64_at (take (8 - length d) (mem64 a) @ d) 0"

definition be_copy32 :: "bytes \<Rightarrow> u32 \<Rightarrow> u32" where
  "be_copy32 d a = load32_at (take (4 - length d) (mem32 a) @ d) 0"

definition be_copy16 :: "bytes \<Rightarrow> u16 \<Rightarrow> u16" where
  "be_copy16 d a = load16_at (take (2 - length d) (mem16 a) @ d) 0"

definition be_copy8 :: "bytes \<Rightarrow> u8 \<Rightarrow> u8" where
  "be_copy8 d a = (take (1 - length d) [a] @ d) ! 0"

definition front_copy32 :: "bytes \<Rightarrow> u32 \<Rightarrow> u32" where
  "front_copy32 d a = load32_at (d @ drop (length d) (mem32 a)) 0"

text \<open>An integer that comes with two or four bytes.\<close>

definition be_short_or_long :: "bytes \<Rightarrow> u32" where
  "be_short_or_long d = (if length d = 4 then be32_at d 0 else ucast (be16_at d 0))"

text \<open>The conversions of the floating point numbers, undefined when the result does not fit.\<close>

definition to_uint32 :: "rat \<Rightarrow> u32 outcome" where
  "to_uint32 x = (if - 1 < x \<and> x < 2 ^ 32 then Done (word_of_int (if x < 0 then 0 else \<lfloor>x\<rfloor>)) else Undefined)"

text \<open>The difference of two times, undefined when it does not fit into 64 bits.\<close>

definition minus_int64 :: "int \<Rightarrow> int \<Rightarrow> int outcome" where
  "minus_int64 a b = (if - (2 ^ 63) \<le> a - b \<and> a - b < 2 ^ 63 then Done (a - b) else Undefined)"

text \<open>Milliseconds to seconds in floating point, cut off to an integer.\<close>

definition seconds_of :: "int \<Rightarrow> int" where
  "seconds_of milliseconds = (let x = to_double (to_double (of_int milliseconds) / 1000) in if x < 0 then \<lceil>x\<rceil> else \<lfloor>x\<rfloor>)"

section \<open>Fields of a flow\<close>

datatype variable_length_encoding_t = unknown_encoding | single_byte | two_byte

record netflow_meta_info_t =
  selected_packets :: u64
  observed_packets :: u64
  data_link_frame_size :: u64
  nested_packet :: simple_packet_t
  nested_packet_parsed :: bool
  ip_next_hop_ipv4 :: u32
  ip_next_hop_ipv4_set :: bool
  bgp_next_hop_ipv4 :: u32
  bgp_next_hop_ipv4_set :: bool
  bgp_next_hop_ipv6 :: bytes
  bgp_next_hop_ipv6_set :: bool
  received_forwarding_status :: bool
  bytes_from_source_to_destination :: u64
  bytes_from_destination_to_source :: u64
  packets_from_source_to_destination :: u64
  packets_from_destination_to_source :: u64
  meta_flow_id :: u64
  nat_event :: bool
  variable_field_length_encoding :: variable_length_encoding_t
  variable_field_length :: nat

definition netflow_meta_info_default :: netflow_meta_info_t where
  "netflow_meta_info_default = \<lparr>selected_packets = 0, observed_packets = 0, data_link_frame_size = 0,
     nested_packet = simple_packet_default, nested_packet_parsed = False, ip_next_hop_ipv4 = 0, ip_next_hop_ipv4_set = False,
     bgp_next_hop_ipv4 = 0, bgp_next_hop_ipv4_set = False, bgp_next_hop_ipv6 = replicate 16 0, bgp_next_hop_ipv6_set = False,
     received_forwarding_status = False, bytes_from_source_to_destination = 0, bytes_from_destination_to_source = 0,
     packets_from_source_to_destination = 0, packets_from_destination_to_source = 0, meta_flow_id = 0, nat_event = False,
     variable_field_length_encoding = unknown_encoding, variable_field_length = 0\<rparr>"

text \<open>
  A flow while its fields are read: the packet, the meta information, a sampling rate found among the fields and the metrics.
  A field either is not read, or its bytes are.
\<close>

record flow_decoding =
  dec_packet :: simple_packet_t
  dec_meta :: netflow_meta_info_t
  dec_sampling_rate :: u32
  dec_metrics :: "netflow_counter metrics"

datatype field_action = No_read "flow_decoding \<Rightarrow> flow_decoding" | Read_field "bytes \<Rightarrow> flow_decoding \<Rightarrow> flow_decoding outcome"

definition counted_as :: "netflow_counter \<Rightarrow> flow_decoding \<Rightarrow> flow_decoding" where
  "counted_as c fl = fl\<lparr>dec_metrics := bump c (dec_metrics fl)\<rparr>"

definition packet_field :: "(bytes \<Rightarrow> simple_packet_t \<Rightarrow> simple_packet_t) \<Rightarrow> field_action" where
  "packet_field f = Read_field (\<lambda>d fl. Done (fl\<lparr>dec_packet := f d (dec_packet fl)\<rparr>))"

definition meta_field :: "(bytes \<Rightarrow> netflow_meta_info_t \<Rightarrow> netflow_meta_info_t) \<Rightarrow> field_action" where
  "meta_field f = Read_field (\<lambda>d fl. Done (fl\<lparr>dec_meta := f d (dec_meta fl)\<rparr>))"

definition apply_field :: "field_action \<Rightarrow> bytes \<Rightarrow> nat \<Rightarrow> nat \<Rightarrow> flow_decoding \<Rightarrow> flow_decoding outcome" where
  "apply_field a bs i n fl = (case a of No_read f \<Rightarrow> Done (f fl) | Read_field f \<Rightarrow> and_then (deref n id bs i) (\<lambda>d. f d fl))"

text \<open>How the fields that both protocols have change the packet.\<close>

definition set_in_bytes :: "bytes \<Rightarrow> simple_packet_t \<Rightarrow> simple_packet_t" where
  "set_in_bytes d packet = (let n = be64toh (be_copy64 d (length' packet)) in packet\<lparr>length' := n, ip_length := n\<rparr>)"

definition set_in_packets :: "bytes \<Rightarrow> simple_packet_t \<Rightarrow> simple_packet_t" where
  "set_in_packets d packet = packet\<lparr>number_of_packets := be64toh (be_copy64 d (number_of_packets packet))\<rparr>"

definition set_protocol :: "bytes \<Rightarrow> simple_packet_t \<Rightarrow> simple_packet_t" where
  "set_protocol d packet = packet\<lparr>protocol := fast_ntoh32 (be_copy32 d (protocol packet))\<rparr>"

definition set_source_port :: "bytes \<Rightarrow> simple_packet_t \<Rightarrow> simple_packet_t" where
  "set_source_port d packet = packet\<lparr>source_port := fast_ntoh16 (be_copy16 d (source_port packet))\<rparr>"

definition set_destination_port :: "bytes \<Rightarrow> simple_packet_t \<Rightarrow> simple_packet_t" where
  "set_destination_port d packet = packet\<lparr>destination_port := fast_ntoh16 (be_copy16 d (destination_port packet))\<rparr>"

definition set_total_bytes :: "bytes \<Rightarrow> simple_packet_t \<Rightarrow> simple_packet_t" where
  "set_total_bytes d packet = packet\<lparr>length' := be64_at d 0, ip_length := be64_at d 0\<rparr>"
end
