(* ===== verification/Netflow_V5.thy ===== *)
theory Netflow_V5
  imports Netflow_Base
begin

text \<open>
  The receiver of NetFlow v5 (\<^verbatim>\<open>src/netflow_plugin/netflow_v5_collector.cpp\<close>) and what it guarantees.
\<close>

section \<open>The receiver\<close>

record netflow5_header_t =
  netflow5_flows :: u16
  netflow5_time_sec :: u32
  netflow5_time_nanosec :: u32
  netflow5_sampling_rate :: u16

definition netflow5_header_of :: "bytes \<Rightarrow> netflow5_header_t" where
  "netflow5_header_of d = \<lparr>netflow5_flows = load16_at d 2, netflow5_time_sec = load32_at d 8,
     netflow5_time_nanosec = load32_at d 12, netflow5_sampling_rate = load16_at d 22\<rparr>"

record netflow5_flow_t =
  netflow5_src_ip :: u32
  netflow5_dest_ip :: u32
  if_index_in :: u16
  if_index_out :: u16
  flow_packets :: u32
  flow_octets :: u32
  netflow5_flow_start :: u32
  netflow5_flow_finish :: u32
  netflow5_src_port :: u16
  netflow5_dest_port :: u16
  netflow5_tcp_flags :: u8
  netflow5_protocol :: u8
  netflow5_src_as :: u16
  netflow5_dest_as :: u16

definition netflow5_flow_of :: "bytes \<Rightarrow> netflow5_flow_t" where
  "netflow5_flow_of d = \<lparr>netflow5_src_ip = load32_at d 0, netflow5_dest_ip = load32_at d 4, if_index_in = load16_at d 12,
     if_index_out = load16_at d 14, flow_packets = load32_at d 16, flow_octets = load32_at d 20, netflow5_flow_start = load32_at d 24,
     netflow5_flow_finish = load32_at d 28, netflow5_src_port = load16_at d 32, netflow5_dest_port = load16_at d 34,
     netflow5_tcp_flags = d ! 37, netflow5_protocol = d ! 38, netflow5_src_as = load16_at d 40, netflow5_dest_as = load16_at d 42\<rparr>"

definition NETFLOW5_MAXFLOWS :: nat where "NETFLOW5_MAXFLOWS = 30"

definition NETFLOW5_PACKET_SIZE :: "nat \<Rightarrow> nat" where "NETFLOW5_PACKET_SIZE nflows = 24 + nflows * 48"

definition increment_duration_counters_netflow_v5 :: "int \<Rightarrow> netflow_state \<Rightarrow> netflow_state" where
  "increment_duration_counters_netflow_v5 duration =
     nf_bump (if duration \<le> 15 then ''netflow5_duration_less_15_seconds''
       else if duration \<le> 30 then ''netflow5_duration_less_30_seconds''
       else if duration \<le> 60 then ''netflow5_duration_less_60_seconds''
       else if duration \<le> 90 then ''netflow5_duration_less_90_seconds''
       else if duration \<le> 180 then ''netflow5_duration_less_180_seconds''
       else ''netflow5_duration_exceed_180_seconds'')"

definition netflow5_sampling_ratio :: "netflow5_header_t \<Rightarrow> u16" where
  "netflow5_sampling_ratio h =
     (let ratio = clear_bit_value (clear_bit_value (fast_ntoh16 (netflow5_sampling_rate h)) 15) 16
      in if ratio = 0 then 1 else ratio)"

text \<open>The packet made of a flow; protocols other than ICMP, TCP and UDP are not taken over.\<close>

definition netflow5_packet :: "netflow_environment \<Rightarrow> netflow5_header_t \<Rightarrow> netflow5_flow_t \<Rightarrow> simple_packet_t" where
  "netflow5_packet env h fl =
     (let packet = simple_packet_default\<lparr>source := NETFLOW, arrival_time := netflow_current_time env,
            agent_ipv4_address := client_ipv4_address env, src_ip := netflow5_src_ip fl, dst_ip := netflow5_dest_ip fl,
            ts := (uint (fast_ntoh32 (netflow5_time_sec h)), uint (fast_ntoh32 (netflow5_time_nanosec h))), flags := 0,
            src_asn := ucast (fast_ntoh16 (netflow5_src_as fl)), dst_asn := ucast (fast_ntoh16 (netflow5_dest_as fl)),
            input_interface := ucast (fast_ntoh16 (if_index_in fl)), output_interface := ucast (fast_ntoh16 (if_index_out fl)),
            length' := ucast (fast_ntoh32 (flow_octets fl)), ip_length := ucast (fast_ntoh32 (flow_octets fl)),
            number_of_packets := ucast (fast_ntoh32 (flow_packets fl)), sample_ratio := ucast (netflow5_sampling_ratio h),
            source_port := fast_ntoh16 (netflow5_src_port fl), destination_port := fast_ntoh16 (netflow5_dest_port fl),
            ip_protocol_version := 4\<rparr>
      in if netflow5_protocol fl = 1 then packet\<lparr>protocol := 1\<rparr>
         else if netflow5_protocol fl = 6 then packet\<lparr>protocol := 6, flags := netflow5_tcp_flags fl\<rparr>
         else if netflow5_protocol fl = 17 then packet\<lparr>protocol := 17\<rparr>
         else packet)"

text \<open>The loop over the flows, of which \<open>n\<close> are left, from number \<open>i\<close> on.\<close>

fun netflow5_flows_loop ::
    "netflow_environment \<Rightarrow> netflow5_header_t \<Rightarrow> bytes \<Rightarrow> nat \<Rightarrow> nat \<Rightarrow> netflow_state \<Rightarrow> (bool \<times> netflow_state) outcome" where
  "netflow5_flows_loop env h bs i 0 st = Done (True, st)"
| "netflow5_flows_loop env h bs i (Suc n) st =
     (let offset = NETFLOW5_PACKET_SIZE i
      in if offset + 48 > length bs then Done (False, st)
         else and_then (deref 48 netflow5_flow_of bs offset) (\<lambda>fl.
           let st = nf_bump ''netflow_v5_total_flows'' (nf_bump ''netflow_ipfix_all_protocols_total_flows'' st);
               interval_length = uint ((fast_ntoh32 (netflow5_flow_finish fl) - fast_ntoh32 (netflow5_flow_start fl)) div 1000)
           in netflow5_flows_loop env h bs (Suc i) n
                (nf_process (netflow5_packet env h fl) (increment_duration_counters_netflow_v5 interval_length st))))"

definition process_netflow_packet_v5 :: "netflow_environment \<Rightarrow> bytes \<Rightarrow> netflow_state \<Rightarrow> (bool \<times> netflow_state) outcome" where
  "process_netflow_packet_v5 env bs st =
     (let st = nf_bump ''netflow_v5_total_packets'' st
      in if length bs < 24 then Done (False, st)
         else and_then (deref 24 netflow5_header_of bs 0) (\<lambda>h.
           let number_of_flows = unat (fast_ntoh16 (netflow5_flows h))
           in if number_of_flows = 0 \<or> number_of_flows > NETFLOW5_MAXFLOWS then Done (False, st)
              else netflow5_flows_loop env h bs 0 number_of_flows st))"

section \<open>What it guarantees\<close>

text \<open>The flows whose bytes have been received, up to the number the header announces.\<close>

definition received_flows :: "bytes \<Rightarrow> nat \<Rightarrow> netflow5_flow_t list" where
  "received_flows bs n = map (\<lambda>i. netflow5_flow_of (take 48 (drop (NETFLOW5_PACKET_SIZE i) bs))) [0..<min n ((length bs - 24) div 48)]"

lemma processed_durations_v5 [simp]: "netflow_processed (increment_duration_counters_netflow_v5 d st) = netflow_processed st"
  by (simp add: increment_duration_counters_netflow_v5_def)

lemma room_for_flow: "NETFLOW5_PACKET_SIZE i + 48 > length bs \<longleftrightarrow> (length bs - 24) div 48 \<le> i"
proof -
  have "(length bs - 24) div 48 \<le> i \<longleftrightarrow> length bs - 24 < 48 * Suc i"
    by (metis div_less_iff_less_mult less_Suc_eq_le mult.commute zero_less_numeral)
  then show ?thesis
    by (auto simp: NETFLOW5_PACKET_SIZE_def)
qed

lemma netflow5_loop_done:
  "\<exists>st'. netflow5_flows_loop env h bs i n st = Done (i + n \<le> (length bs - 24) div 48 \<or> n = 0, st')
    \<and> netflow_processed st' = netflow_processed st @ map (netflow5_packet env h)
        (map (\<lambda>i. netflow5_flow_of (take 48 (drop (NETFLOW5_PACKET_SIZE i) bs))) [i..<min (i + n) ((length bs - 24) div 48)])"
proof (induction n arbitrary: i st)
  case (Suc n)
  show ?case
  proof (cases "NETFLOW5_PACKET_SIZE i + 48 > length bs")
    case True
    then show ?thesis
      using room_for_flow [of bs i] by auto
  next
    case False
    then have room: "i < (length bs - 24) div 48"
      using room_for_flow [of bs i] by simp
    then have "[i..<min (i + Suc n) ((length bs - 24) div 48)] = i # [Suc i..<min (Suc i + n) ((length bs - 24) div 48)]"
      by (simp add: upt_conv_Cons)
    moreover have "Suc i + n \<le> (length bs - 24) div 48 \<or> n = 0 \<longleftrightarrow> i + Suc n \<le> (length bs - 24) div 48 \<or> Suc n = 0"
      using room by auto
    moreover obtain st1 where "netflow5_flows_loop env h bs i (Suc n) st = netflow5_flows_loop env h bs (Suc i) n st1"
        "netflow_processed st1 = netflow_processed st @ [netflow5_packet env h (netflow5_flow_of (take 48 (drop (NETFLOW5_PACKET_SIZE i) bs)))]"
      using False by (simp add: Let_def)
    ultimately show ?thesis
      using Suc.IH [of "Suc i" st1] by simp
  qed
qed auto

text \<open>
  C24. NetFlow v5 datagrams are decoded exactly: no datagram makes the receiver read outside of the received bytes; a
  header that announces no flow or more than thirty is refused, and otherwise exactly the flows whose
  bytes have been received, up to the announced number, are handed on in order, each as its packet. The result says whether all
  announced flows were there.
\<close>

theorem netflow_v5_exact:
  "\<exists>st' ok. process_netflow_packet_v5 env bs st = Done (ok, st')
   \<and> netflow_processed st' = netflow_processed st @
       (let h = netflow5_header_of (take 24 bs); n = unat (fast_ntoh16 (netflow5_flows h))
        in if length bs < 24 \<or> n > NETFLOW5_MAXFLOWS then [] else map (netflow5_packet env h) (received_flows bs n))
   \<and> (ok \<longleftrightarrow> (let n = unat (fast_ntoh16 (netflow5_flows (netflow5_header_of (take 24 bs))))
               in length bs \<ge> 24 \<and> 0 < n \<and> n \<le> NETFLOW5_MAXFLOWS \<and> length bs \<ge> NETFLOW5_PACKET_SIZE n))"
proof (cases "length bs < 24")
  case False
  define h n where "h = netflow5_header_of (take 24 bs)" and "n = unat (fast_ntoh16 (netflow5_flows h))"
  have "n \<le> (length bs - 24) div 48 \<longleftrightarrow> length bs \<ge> NETFLOW5_PACKET_SIZE n"
    using False by (simp add: less_eq_div_iff_mult_less_eq NETFLOW5_PACKET_SIZE_def) linarith
  then show ?thesis
    using False netflow5_loop_done [of env h bs 0 n "nf_bump ''netflow_v5_total_packets'' st"]
    by (auto simp: process_netflow_packet_v5_def Let_def h_def [symmetric] n_def [symmetric] received_flows_def)
qed (auto simp: process_netflow_packet_v5_def Let_def)

end
