(* ===== verification/Received_Traffic.thy ===== *)
theory Received_Traffic
  imports Traffic_Spec Sflow_Spec Netflow_V5
begin

text \<open>
  Datagrams of flow protocols up to the counters: the receivers give every packet to \<^verbatim>\<open>process_packet\<close> as they find it. What
  the processing relies on is stated once as a locale, which the receivers of sFlow and of NetFlow v5 are shown to satisfy.
\<close>

section \<open>Receiving and processing\<close>

text \<open>
  Each datagram arrives with the clocks of the processing. The receiver and the counters share no state, so that processing
  the packets of a datagram behind it is the same as processing them one by one while it is read.
\<close>

fun received_traffic :: "('d \<Rightarrow> 'st \<Rightarrow> 'st outcome) \<Rightarrow> ('st \<Rightarrow> simple_packet_t list) \<Rightarrow> traffic_environment \<Rightarrow> (int \<times> int \<times> 'd) list
    \<Rightarrow> 'st \<Rightarrow> traffic_state \<Rightarrow> ('st \<times> traffic_state) outcome" where
  "received_traffic receive handed_on env [] st s = Done (st, s)"
| "received_traffic receive handed_on env ((now, clock, d) # ds) st s =
     and_then (receive d st) (\<lambda>st'.
     and_then (process_packets env (map (\<lambda>p. (now, clock, p)) (drop (length (handed_on st)) (handed_on st'))) s)
       (received_traffic receive handed_on env ds st'))"

section \<open>The contract of a receiver\<close>

locale packet_source =
  fixes receive :: "'d \<Rightarrow> 'st \<Rightarrow> 'st outcome"
    and handed_on :: "'st \<Rightarrow> simple_packet_t list"
  assumes receive_storable: "\<exists>st' ps. receive d st = Done st' \<and> handed_on st' = handed_on st @ ps \<and> list_all storable ps"
begin

lemma all_received_counted:
  "\<exists>st' s' arrivals. received_traffic receive handed_on env ds st s = Done (st', s')
     \<and> handed_on st' = handed_on st @ map (\<lambda>(now, clock, p). p) arrivals \<and> counted env arrivals s s'"
proof (induction ds arbitrary: st s)
  case Nil
  have "counted env [] s s"
    using process_packets_counted [of "[]" env s] by simp
  then show ?case
    by (auto intro: exI [of _ "[]"])
next
  case (Cons a ds)
  obtain now clock d where a: "a = (now, clock, d)"
    by (cases a)
  obtain st1 ps where first: "receive d st = Done st1" "handed_on st1 = handed_on st @ ps" "list_all storable ps"
    using receive_storable by blast
  let ?arrivals = "map (\<lambda>p. (now, clock, p)) ps"
  obtain s1 where s1: "process_packets env ?arrivals s = Done s1" "counted env ?arrivals s s1"
    using process_packets_counted [of ?arrivals env s] first(3) by (auto simp: list_all_length)
  obtain st' s' arrivals where "received_traffic receive handed_on env ds st1 s1 = Done (st', s')"
      "handed_on st' = handed_on st1 @ map (\<lambda>(now, clock, p). p) arrivals" "counted env arrivals s1 s'"
    using Cons.IH by blast
  then show ?case
    using first s1 counted_trans [OF s1(2), of arrivals s'] by (auto simp: a comp_def intro!: exI [of _ "?arrivals @ arrivals"])
qed

end

text \<open>The receiver of sFlow: a datagram is its environment, the address of the sender and the bytes.\<close>

definition receive_sflow :: "sflow_environment \<times> u32 \<times> bytes \<Rightarrow> sflow_state \<Rightarrow> sflow_state outcome" where
  "receive_sflow d st = (case d of (env, client, bs) \<Rightarrow> parse_sflow_v5_packet env bs client st)"

interpretation sflow: packet_source receive_sflow sflow_processed
proof
  fix d :: "sflow_environment \<times> u32 \<times> bytes" and st
  show "\<exists>st' ps. receive_sflow d st = Done st' \<and> sflow_processed st' = sflow_processed st @ ps \<and> list_all storable ps"
    using sflow_datagram_done [of "fst d" "snd (snd d)" "fst (snd d)" st] by (auto simp: receive_sflow_def hands_on_def split: prod.split)
qed

text \<open>The receiver of NetFlow v5.\<close>

definition receive_netflow_v5 :: "netflow_environment \<times> bytes \<Rightarrow> netflow_state \<Rightarrow> netflow_state outcome" where
  "receive_netflow_v5 d st = (case d of (env, bs) \<Rightarrow> and_then (process_netflow_packet_v5 env bs st) (\<lambda>(ok, st'). Done st'))"

lemma storable_netflow5: "storable (netflow5_packet env h f)"
  by (simp add: storable_def netflow5_packet_def Let_def simple_packet_default_def)

lemma netflow_v5_storable:
  "\<exists>ok st' ps. process_netflow_packet_v5 env bs st = Done (ok, st') \<and> netflow_processed st' = netflow_processed st @ ps \<and> list_all storable ps"
proof -
  have "\<exists>ok st' ps. netflow5_flows_loop env h bs 0 n (nf_bump c st) = Done (ok, st')
      \<and> netflow_processed st' = netflow_processed st @ ps \<and> list_all storable ps" for h n c
    using netflow5_loop_done [of env h bs 0 n "nf_bump c st"] by (auto simp: list_all_length storable_netflow5)
  then show ?thesis
    by (auto simp: process_netflow_packet_v5_def Let_def)
qed

interpretation netflow_v5: packet_source receive_netflow_v5 netflow_processed
proof
  fix d :: "netflow_environment \<times> bytes" and st
  show "\<exists>st' ps. receive_netflow_v5 d st = Done st' \<and> netflow_processed st' = netflow_processed st @ ps \<and> list_all storable ps"
    using netflow_v5_storable [of "fst d" "snd d" st] by (auto simp: receive_netflow_v5_def split: prod.split)
qed

section \<open>From the wire to the counters\<close>

text \<open>
  C16. Whatever arrives at the port of sFlow, the counters stay exact: any sequence of datagrams of any bytes is received and
  processed without undefined behaviour, and the counters of hosts, networks and totals grow by exactly the packets that the
  receiver found in them, each in its direction and with its sampling ratio.
\<close>

theorem sflow_traffic_counted:
  "\<exists>st' s' arrivals. received_traffic receive_sflow sflow_processed env ds st s = Done (st', s')
     \<and> sflow_processed st' = sflow_processed st @ map (\<lambda>(now, clock, p). p) arrivals
     \<and> (\<forall>ip. host_counter s' ip = count_events (host_events env ip arrivals) (host_counter s ip))
     \<and> (\<forall>net. network_counter s' net = count_events (network_events env net arrivals) (network_counter s net))
     \<and> (\<forall>d. single_packets (total_of d s') = single_packets (total_of d s) + sum_directed env d sampled_number_of_packets arrivals
          \<and> single_bytes (total_of d s') = single_bytes (total_of d s) + sum_directed env d sampled_number_of_bytes arrivals)
     \<and> total_simple_packets_processed s' = total_simple_packets_processed s + of_nat (length arrivals)"
  using sflow.all_received_counted [of env ds st s] unfolding counted_def .

text \<open>The same holds for NetFlow v5.\<close>

lemma netflow_v5_traffic_counted:
  "\<exists>st' s' arrivals. received_traffic receive_netflow_v5 netflow_processed env ds st s = Done (st', s')
     \<and> netflow_processed st' = netflow_processed st @ map (\<lambda>(now, clock, p). p) arrivals \<and> counted env arrivals s s'"
  by (rule netflow_v5.all_received_counted)

end
