(* ===== verification/Outcome_Rules.thy ===== *)
theory Outcome_Rules
  imports Binary_Buffer
begin

text \<open>
  Rules for programs whose steps may be undefined: \<open>returns P m\<close> says that whatever \<open>m\<close> returns satisfies \<open>P\<close>
  (partial correctness), \<open>ends P m\<close> that \<open>m\<close> is defined and satisfies \<open>P\<close> (total correctness). The congruence rule
  lets the termination proof of a loop use what a step before the next round has returned.
\<close>

lemma and_then_cong [fundef_cong]: "m = m' \<Longrightarrow> (\<And>x. m' = Done x \<Longrightarrow> f x = g x) \<Longrightarrow> and_then m f = and_then m' g"
  by (cases m') auto

definition returns :: "('a \<Rightarrow> bool) \<Rightarrow> 'a outcome \<Rightarrow> bool" where
  "returns P m \<longleftrightarrow> (\<forall>x. m = Done x \<longrightarrow> P x)"

definition ends :: "('a \<Rightarrow> bool) \<Rightarrow> 'a outcome \<Rightarrow> bool" where
  "ends P m \<longleftrightarrow> (\<exists>x. m = Done x \<and> P x)"

lemma returns_Done [simp]: "returns P (Done x) \<longleftrightarrow> P x" and returns_Undefined [simp]: "returns P Undefined"
  by (simp_all add: returns_def)

lemma ends_Done [simp]: "ends P (Done x) \<longleftrightarrow> P x" and ends_Undefined [simp]: "\<not> ends P Undefined"
  by (simp_all add: ends_def)

lemma returns_bind: "(\<And>x. m = Done x \<Longrightarrow> returns P (f x)) \<Longrightarrow> returns P (and_then m f)"
  by (auto simp: returns_def and_then_Done_iff)

lemma returns_bind': "returns Q m \<Longrightarrow> (\<And>x. Q x \<Longrightarrow> returns P (f x)) \<Longrightarrow> returns P (and_then m f)"
  by (auto simp: returns_def and_then_Done_iff)

lemma returns_if: "(b \<Longrightarrow> returns P m) \<Longrightarrow> (\<not> b \<Longrightarrow> returns P m') \<Longrightarrow> returns P (if b then m else m')"
  by simp

lemma returns_prod: "(\<And>a b. x = (a, b) \<Longrightarrow> returns P (f a b)) \<Longrightarrow> returns P (case x of (a, b) \<Rightarrow> f a b)"
  by (cases x) simp

lemma ends_bind: "ends Q m \<Longrightarrow> (\<And>x. m = Done x \<Longrightarrow> Q x \<Longrightarrow> ends P (f x)) \<Longrightarrow> ends P (and_then m f)"
  by (auto simp: ends_def and_then_Done_iff)

lemma returns_mono: "returns Q m \<Longrightarrow> (\<And>x. Q x \<Longrightarrow> P x) \<Longrightarrow> returns P m"
  by (auto simp: returns_def)

lemma ends_mono: "ends Q m \<Longrightarrow> (\<And>x. Q x \<Longrightarrow> P x) \<Longrightarrow> ends P m"
  by (auto simp: ends_def)

lemma ends_returns: "ends Q m \<Longrightarrow> returns P m \<Longrightarrow> ends (\<lambda>x. Q x \<and> P x) m"
  by (auto simp: ends_def returns_def)

end
