(* ===== verification/Netflow_V9.thy ===== *)
theory Netflow_V9
  imports Netflow_Base Outcome_Rules
begin

text \<open>
  The receiver of NetFlow v9 (\<^verbatim>\<open>src/netflow_plugin/netflow_v9_collector.cpp\<close>): templates, flows decoded with them, and
  the options that carry sampling rates and timeouts. Branches under \<^verbatim>\<open>if (false)\<close> are left out.
\<close>

section \<open>Templates\<close>

definition v9_too_large :: field_action where
  "v9_too_large = No_read (counted_as ''netflow_v9_too_large_field'')"

text \<open>A field of a template, type and length.\<close>

definition netflow9_template_flowset_record_of :: "bytes \<Rightarrow> template_record_t" where
  "netflow9_template_flowset_record_of d = \<lparr>record_type = ucast (be16_at d 0), record_length = unat (be16_at d 2),
     enterprise_bit = False, enterprise_number = 0\<rparr>"

definition store_netflow9_template :: "netflow_environment \<Rightarrow> u32 \<Rightarrow> template_t \<Rightarrow> netflow_state \<Rightarrow> netflow_state" where
  "store_netflow9_template env source_id t st =
     (case add_update_peer_template (global_netflow9_templates st) source_id (ucast (template_id t)) (client_address env) t of
        (Added_template, table) \<Rightarrow> st\<lparr>global_netflow9_templates := table\<rparr>
      | (Changed_template, table) \<Rightarrow> nf_bump ''netflow_v9_template_data_updates'' (st\<lparr>global_netflow9_templates := table\<rparr>)
      | (Same_template, table) \<Rightarrow> nf_bump ''template_update_attempts_with_same_template_data'' st)"

text \<open>
  The scope fields and the fields of an options template, as far as they lie in the flowset: their lengths, or nothing
  when the flowset is too short. \<open>i\<close> is the position of the next one, \<open>n\<close> their number.
\<close>

fun v9_options_records :: "bytes \<Rightarrow> nat \<Rightarrow> nat \<Rightarrow> nat \<Rightarrow> template_record_t list option outcome" where
  "v9_options_records bs i flowset_end 0 = Done (Some [])"
| "v9_options_records bs i flowset_end (Suc n) =
     (if i + 4 > flowset_end then Done None
      else and_then (deref 4 netflow9_template_flowset_record_of bs i) (\<lambda>r.
        and_then (v9_options_records bs (i + 4) flowset_end n) (\<lambda>rest. Done (map_option (Cons r) rest))))"

definition total_record_length :: "template_record_t list \<Rightarrow> nat" where
  "total_record_length rs = sum_list (map record_length rs)"

definition process_netflow_v9_options_template ::
    "netflow_environment \<Rightarrow> bytes \<Rightarrow> nat \<Rightarrow> nat \<Rightarrow> u32 \<Rightarrow> netflow_state \<Rightarrow> (bool \<times> netflow_state) outcome" where
  "process_netflow_v9_options_template env bs pkt flowset_length source_id st =
     (if 4 + 6 > flowset_length then Done (False, st)
      else and_then (deref 6 (\<lambda>d. (be16_at d 0, unat (be16_at d 2), unat (be16_at d 4))) bs (pkt + 4))
        (\<lambda>(tid, option_scope_length, option_length).
        if option_scope_length mod 4 \<noteq> 0 then Done (False, st)
        else if 4 + 6 + option_scope_length > flowset_length then Done (False, st)
        else and_then (v9_options_records bs (pkt + 10) (pkt + flowset_length) (option_scope_length div 4)) (\<lambda>scopes.
        case scopes of None \<Rightarrow> Done (False, st) | Some scopes \<Rightarrow>
        if option_length mod 4 \<noteq> 0 then Done (False, st)
        else if 10 + option_scope_length + option_length > flowset_length then Done (False, st)
        else and_then (v9_options_records bs (pkt + 10 + option_scope_length) (pkt + flowset_length) (option_length div 4)) (\<lambda>records.
        case records of None \<Rightarrow> Done (False, st) | Some records \<Rightarrow>
        let scopes_total_size = total_record_length scopes;
            field_template = \<lparr>template_id = tid, num_records = length records,
              total_length = total_record_length records + scopes_total_size, option_scope_length = scopes_total_size,
              ipfix_variable_length_elements_used = False, timestamp = netflow_current_time env, template_type = Options,
              template_records = records\<rparr>
        in if total_length field_template = 0 then Done (False, st)
           else Done (True, store_netflow9_template env source_id field_template st)))))"

text \<open>
  The fields of a data template. Before a field is read the code checks that its first byte lies in the flowset. The result is
  the fields and the offset behind them.
\<close>

fun v9_template_records :: "bytes \<Rightarrow> nat \<Rightarrow> nat \<Rightarrow> nat \<Rightarrow> nat \<Rightarrow> (template_record_t list \<times> nat) option outcome" where
  "v9_template_records bs pkt offset flowset_length 0 = Done (Some ([], offset))"
| "v9_template_records bs pkt offset flowset_length (Suc n) =
     (if offset \<ge> flowset_length then Done None
      else and_then (deref 4 netflow9_template_flowset_record_of bs (pkt + offset)) (\<lambda>r.
        and_then (v9_template_records bs pkt (offset + 4) flowset_length n) (\<lambda>rest.
          Done (map_option (apfst (Cons r)) rest))))"

lemma v9_template_records_length:
  "v9_template_records bs pkt i l n = Done (Some (rs, j)) \<Longrightarrow> length rs = n \<and> j = i + 4 * n"
proof (induction n arbitrary: i rs)
  case (Suc n)
  then show ?case
    using Suc.IH [of "i + 4"] by (fastforce simp: and_then_Done_iff split: if_splits)
qed simp

function v9_templates_loop ::
    "netflow_environment \<Rightarrow> bytes \<Rightarrow> nat \<Rightarrow> nat \<Rightarrow> nat \<Rightarrow> u32 \<Rightarrow> netflow_state \<Rightarrow> (bool \<times> netflow_state) outcome" where
  "v9_templates_loop env bs pkt offset flowset_length source_id st =
     (if offset < flowset_length
      then and_then (deref 4 (\<lambda>d. (be16_at d 0, unat (be16_at d 2))) bs (pkt + offset)) (\<lambda>(tid, fields_count).
        and_then (v9_template_records bs pkt (offset + 4) flowset_length fields_count) (\<lambda>res.
        case res of None \<Rightarrow> Done (False, st) | Some (records, offset') \<Rightarrow>
        if total_record_length records = 0 then Done (False, st)
        else v9_templates_loop env bs pkt offset' flowset_length source_id
               (store_netflow9_template env source_id
                 \<lparr>template_id = tid, num_records = fields_count, total_length = total_record_length records,
                  option_scope_length = 0, ipfix_variable_length_elements_used = False, timestamp = netflow_current_time env,
                  template_type = Data, template_records = records\<rparr> st)))
      else Done (True, st))"
  by pat_completeness auto
termination
  by (relation "measure (\<lambda>(env, bs, pkt, offset, flowset_length, source_id, st). flowset_length - offset)")
    (auto dest!: v9_template_records_length)

declare v9_templates_loop.simps [simp del]

definition process_netflow_v9_template ::
    "netflow_environment \<Rightarrow> bytes \<Rightarrow> nat \<Rightarrow> nat \<Rightarrow> u32 \<Rightarrow> netflow_state \<Rightarrow> (bool \<times> netflow_state) outcome" where
  "process_netflow_v9_template env bs pkt flowset_length source_id st =
     (if flowset_length < 4 then Done (False, st)
      else and_then (deref 2 (\<lambda>d. be16_at d 0) bs pkt) (\<lambda>flowset_id.
        if flowset_id \<noteq> 0 then Done (False, st) else v9_templates_loop env bs pkt 4 flowset_length source_id st))"

section \<open>Sampling rates\<close>

definition update_netflow_v9_sampling_rate :: "u32 \<Rightarrow> string \<Rightarrow> netflow_state \<Rightarrow> netflow_state" where
  "update_netflow_v9_sampling_rate new_sampling_rate client st =
     (if new_sampling_rate = 0 then st
      else let st = nf_bump ''netflow9_custom_sampling_rate_received'' st
           in if map_find (netflow9_sampling_rates st) client = Some new_sampling_rate then st
              else nf_bump ''netflow9_sampling_rate_changes''
                     (st\<lparr>netflow9_sampling_rates := map_put client new_sampling_rate (netflow9_sampling_rates st)\<rparr>))"

section \<open>Fields of a flow\<close>

text \<open>
  The cases of the switch over the types of the fields, in its order. A group of cases returns nothing for
  types of other groups.
\<close>

definition v9_volume_field :: "u32 \<Rightarrow> nat \<Rightarrow> field_action option" where
  "v9_volume_field t n =
     (if t = 1 then Some (if n > 8 then v9_too_large else packet_field set_in_bytes)
      else if t = 2 then Some (if n > 8 then v9_too_large else packet_field set_in_packets)
      else if t = 4 then Some (if n > 4 then v9_too_large else packet_field set_protocol)
      else if t = 6 then Some (if n > 1 then v9_too_large else packet_field (\<lambda>d packet. packet\<lparr>flags := be_copy8 d (flags packet)\<rparr>))
      else None)"

definition v9_endpoint_field :: "u32 \<Rightarrow> nat \<Rightarrow> field_action option" where
  "v9_endpoint_field t n =
     (if t = 7 then Some (if n > 2 then v9_too_large else packet_field set_source_port)
      else if t = 11 then Some (if n > 2 then v9_too_large else packet_field set_destination_port)
      else if t = 8 then Some (if n > 4 then v9_too_large else packet_field (\<lambda>d packet. packet\<lparr>src_ip := front_copy32 d (src_ip packet)\<rparr>))
      else if t = 12 then Some (if n > 4 then v9_too_large else packet_field (\<lambda>d packet. packet\<lparr>dst_ip := front_copy32 d (dst_ip packet)\<rparr>))
      else None)"

definition v9_routing_field :: "u32 \<Rightarrow> nat \<Rightarrow> field_action option" where
  "v9_routing_field t n =
     (if t = 16 then Some (if n = 4 \<or> n = 2 then packet_field (\<lambda>d packet. packet\<lparr>src_asn := be_short_or_long d\<rparr>) else v9_too_large)
      else if t = 27 then Some (if n = 16 then packet_field (\<lambda>d packet. packet\<lparr>src_ipv6 := d, ip_protocol_version := 6\<rparr>) else v9_too_large)
      else if t = 28 then Some (if n = 16 then packet_field (\<lambda>d packet. packet\<lparr>dst_ipv6 := d, ip_protocol_version := 6\<rparr>) else v9_too_large)
      else if t = 17 then Some (if n = 4 \<or> n = 2 then packet_field (\<lambda>d packet. packet\<lparr>dst_asn := be_short_or_long d\<rparr>) else v9_too_large)
      else None)"

definition v9_interface_field :: "u32 \<Rightarrow> nat \<Rightarrow> field_action option" where
  "v9_interface_field t n =
     (if t = 10 then Some (if n = 4 \<or> n = 2 then packet_field (\<lambda>d packet. packet\<lparr>input_interface := be_short_or_long d\<rparr>) else v9_too_large)
      else if t = 14 then Some (if n = 4 \<or> n = 2 then packet_field (\<lambda>d packet. packet\<lparr>output_interface := be_short_or_long d\<rparr>) else v9_too_large)
      else if t = 22 then Some (if n = 4 then packet_field (\<lambda>d packet. packet\<lparr>flow_start := uint (be32_at d 0)\<rparr>) else v9_too_large)
      else if t = 21 then Some (if n = 4 then packet_field (\<lambda>d packet. packet\<lparr>flow_end := uint (be32_at d 0)\<rparr>) else v9_too_large)
      else None)"

definition v9_status_field :: "u32 \<Rightarrow> nat \<Rightarrow> field_action option" where
  "v9_status_field t n =
     (if t = 152 then Some (if n = 8 then packet_field (\<lambda>d packet. packet\<lparr>flow_start := sint (be64_at d 0)\<rparr>) else v9_too_large)
      else if t = 153 then Some (if n = 8 then packet_field (\<lambda>d packet. packet\<lparr>flow_end := sint (be64_at d 0)\<rparr>) else v9_too_large)
      else if t = 89 then Some (if n = 1
        then Read_field (\<lambda>d fl. Done (counted_as ''netflow_v9_forwarding_status''
               (fl\<lparr>dec_packet := (dec_packet fl)\<lparr>forwarding_status := forwarding_status_from_integer (drop_bit 6 (d ! 0))\<rparr>,
                   dec_meta := (dec_meta fl)\<lparr>received_forwarding_status := True\<rparr>\<rparr>)))
        else v9_too_large)
      else None)"

definition v9_parse_section :: "nat \<Rightarrow> field_action" where
  "v9_parse_section n = Read_field (\<lambda>d fl.
     let fl = counted_as ''netflow_v9_lite_headers'' fl;
         full_packet_length = (if data_link_frame_size (dec_meta fl) \<noteq> 0 then uint (data_link_frame_size (dec_meta fl)) else int n)
     in and_then (parse_raw_packet_to_simple_packet_full d full_packet_length (nested_packet (dec_meta fl))
          (parser_options_default\<lparr>read_packet_length_from_ip_header := True\<rparr>)) (\<lambda>(result, nested).
        let fl = fl\<lparr>dec_meta := (dec_meta fl)\<lparr>nested_packet := nested\<rparr>\<rparr>
        in if result \<noteq> success then Done (counted_as ''netflow_v9_lite_header_parser_error'' fl)
           else Done (counted_as ''netflow_v9_lite_header_parser_success'' (fl\<lparr>dec_meta := (dec_meta fl)\<lparr>nested_packet_parsed := True\<rparr>\<rparr>))))"

definition v9_lite_field :: "u32 \<Rightarrow> nat \<Rightarrow> field_action option" where
  "v9_lite_field t n =
     (if t = 318 then Some (if n = 8 then meta_field (\<lambda>d m. m\<lparr>observed_packets := be64_at d 0\<rparr>) else v9_too_large)
      else if t = 319 then Some (if n = 8 then meta_field (\<lambda>d m. m\<lparr>selected_packets := be64_at d 0\<rparr>) else v9_too_large)
      else if t = 312 then Some (if n = 2 then meta_field (\<lambda>d m. m\<lparr>data_link_frame_size := ucast (be16_at d 0)\<rparr>) else v9_too_large)
      else if t = 103 then Some (if n = 2 then meta_field (\<lambda>d m. m\<lparr>data_link_frame_size := ucast (be16_at d 0)\<rparr>) else v9_too_large)
      else if t = 104 then Some (v9_parse_section n)
      else None)"

definition v9_next_hop_field :: "u32 \<Rightarrow> nat \<Rightarrow> field_action option" where
  "v9_next_hop_field t n =
     (if t = 15 then Some (if n = 4 then meta_field (\<lambda>d m. m\<lparr>ip_next_hop_ipv4_set := True, ip_next_hop_ipv4 := load32_at d 0\<rparr>) else v9_too_large)
      else if t = 18 then Some (if n = 4 then meta_field (\<lambda>d m. m\<lparr>bgp_next_hop_ipv4_set := True, bgp_next_hop_ipv4 := load32_at d 0\<rparr>) else v9_too_large)
      else if t = 48 then Some (if n = 1 \<or> n = 2 \<or> n = 4 then meta_field (\<lambda>d m. m) else v9_too_large)
      else if t = 148 then Some (if n = 4 then meta_field (\<lambda>d m. m\<lparr>meta_flow_id := ucast (be32_at d 0)\<rparr>) else v9_too_large)
      else None)"

text \<open>A counter of two, four or eight bytes.\<close>

definition be_counter :: "bytes \<Rightarrow> u64" where
  "be_counter d = (if length d = 8 then be64_at d 0 else ucast (be_short_or_long d))"

definition v9_asa_field :: "u32 \<Rightarrow> nat \<Rightarrow> field_action option" where
  "v9_asa_field t n =
     (if t = 231 then Some (if n = 4 \<or> n = 8 then meta_field (\<lambda>d m. m\<lparr>bytes_from_source_to_destination := be_counter d\<rparr>) else v9_too_large)
      else if t = 232 then Some (if n = 2 \<or> n = 4 \<or> n = 8 then meta_field (\<lambda>d m. m\<lparr>bytes_from_destination_to_source := be_counter d\<rparr>) else v9_too_large)
      else if t = 298 then Some (if n = 4 \<or> n = 8 then meta_field (\<lambda>d m. m\<lparr>packets_from_source_to_destination := be_counter d\<rparr>) else v9_too_large)
      else if t = 299 then Some (if n = 4 \<or> n = 8 then meta_field (\<lambda>d m. m\<lparr>packets_from_destination_to_source := be_counter d\<rparr>) else v9_too_large)
      else None)"

definition v9_vendor_field :: "u32 \<Rightarrow> nat \<Rightarrow> field_action option" where
  "v9_vendor_field t n =
     (if t = 56 then Some (if n = 6 then packet_field (\<lambda>d packet. packet\<lparr>source_mac := d\<rparr>) else v9_too_large)
      else if t = 80 then Some (if n = 6 then packet_field (\<lambda>d packet. packet\<lparr>destination_mac := d\<rparr>) else v9_too_large)
      else if t = 34 then Some (if n = 4
        then Read_field (\<lambda>d fl. Done (counted_as ''netflow_v9_flows_with_sampling_encoded_in_data_packet_number''
               (fl\<lparr>dec_sampling_rate := be32_at d 0\<rparr>)))
        else No_read (counted_as ''netflow_v9_too_large_field'' \<circ> counted_as ''netflow_v9_flows_with_sampling_encoded_in_data_packet_number''))
      else if t = 86 then Some (if n = 8 then packet_field (\<lambda>d packet. packet\<lparr>number_of_packets := be64_at d 0\<rparr>) else v9_too_large)
      else if t = 85 then Some (if n = 8 then packet_field set_total_bytes else v9_too_large)
      else if t = 230 then Some (if n = 1
        then Read_field (\<lambda>d fl. Done (counted_as ''netflow_v9_nat_events'' (fl\<lparr>dec_meta := (dec_meta fl)\<lparr>nat_event := True\<rparr>\<rparr>)))
        else v9_too_large)
      else None)"

fun first_case :: "(u32 \<Rightarrow> nat \<Rightarrow> field_action option) list \<Rightarrow> u32 \<Rightarrow> nat \<Rightarrow> field_action" where
  "first_case [] t n = No_read id"
| "first_case (c # cs) t n = (case c t n of Some a \<Rightarrow> a | None \<Rightarrow> first_case cs t n)"

definition netflow9_field :: "u32 \<Rightarrow> nat \<Rightarrow> field_action" where
  "netflow9_field = first_case [v9_volume_field, v9_endpoint_field, v9_routing_field, v9_interface_field, v9_status_field,
     v9_lite_field, v9_next_hop_field, v9_asa_field, v9_vendor_field]"

definition netflow9_record_to_flow ::
    "string \<Rightarrow> template_record_t \<Rightarrow> bytes \<Rightarrow> nat \<Rightarrow> simple_packet_t \<Rightarrow> netflow_meta_info_t \<Rightarrow> netflow_state
     \<Rightarrow> (simple_packet_t \<times> netflow_meta_info_t \<times> netflow_state) outcome" where
  "netflow9_record_to_flow client r bs i packet flow_meta st =
     and_then (apply_field (netflow9_field (record_type r) (record_length r)) bs i (record_length r)
         \<lparr>dec_packet = packet, dec_meta = flow_meta, dec_sampling_rate = 0, dec_metrics = netflow_metrics st\<rparr>) (\<lambda>fl.
       Done (dec_packet fl, dec_meta fl,
         update_netflow_v9_sampling_rate (dec_sampling_rate fl) client (st\<lparr>netflow_metrics := dec_metrics fl\<rparr>)))"

section \<open>Options\<close>

text \<open>
  What is found while an options record is read. The names of interfaces are only logged; \<open>strnlen\<close> reads up to the
  first zero byte or the end of the field.
\<close>

record options_decoding =
  opt_sampling_rate :: u32
  opt_timeouts :: device_timeouts_t
  opt_metrics :: "netflow_counter metrics"

definition strnlen :: "bytes \<Rightarrow> nat \<Rightarrow> nat \<Rightarrow> nat outcome" where
  "strnlen bs i n =
     (let field = take n (drop i bs)
      in if length field = n \<or> 0 \<in> set field then Done (length (takeWhile (\<lambda>b. b \<noteq> 0) field)) else Undefined)"

definition opt_counted :: "netflow_counter \<Rightarrow> options_decoding \<Rightarrow> options_decoding" where
  "opt_counted c o' = o'\<lparr>opt_metrics := bump c (opt_metrics o')\<rparr>"

definition v9_options_field :: "template_record_t \<Rightarrow> bytes \<Rightarrow> nat \<Rightarrow> options_decoding \<Rightarrow> options_decoding outcome" where
  "v9_options_field r bs i opt =
     (let t = record_type r; n = record_length r; too_large = Done (opt_counted ''netflow_v9_too_large_field'' opt)
      in if t = 50 \<or> t = 34
         then if n = 2 \<or> n = 4 then and_then (deref n id bs i) (\<lambda>d. Done (opt\<lparr>opt_sampling_rate := be_short_or_long d\<rparr>)) else too_large
         else if t = 83
         then if n > 128 then too_large else and_then (strnlen bs i n) (\<lambda>_. Done opt)
         else if t = 10
         then if n = 4 \<or> n = 2 then and_then (deref n id bs i) (\<lambda>d. Done opt) else too_large
         else if t = 36
         then if n = 2
              then and_then (deref 2 (\<lambda>d. be16_at d 0) bs i) (\<lambda>active. Done (opt_counted ''netflow_v9_active_flow_timeout_received''
                     (opt\<lparr>opt_timeouts := (opt_timeouts opt)\<lparr>active_timeout := Some (ucast active)\<rparr>\<rparr>)))
              else too_large
         else if t = 37
         then if n = 2
              then and_then (deref 2 (\<lambda>d. be16_at d 0) bs i) (\<lambda>inactive. Done (opt_counted ''netflow_v9_inactive_flow_timeout_received''
                     (opt\<lparr>opt_timeouts := (opt_timeouts opt)\<lparr>inactive_timeout := Some (ucast inactive)\<rparr>\<rparr>)))
              else too_large
         else if t = 48
         then if n = 4 \<or> n = 2 then and_then (deref n id bs i) (\<lambda>d. Done opt) else too_large
         else Done opt)"

fun v9_options_fields :: "template_record_t list \<Rightarrow> bytes \<Rightarrow> nat \<Rightarrow> options_decoding \<Rightarrow> options_decoding outcome" where
  "v9_options_fields [] bs i opt = Done opt"
| "v9_options_fields (r # rs) bs i opt =
     and_then (v9_options_field r bs i opt) (v9_options_fields rs bs (i + record_length r))"

definition netflow9_options_flowset_to_store ::
    "netflow_environment \<Rightarrow> bytes \<Rightarrow> nat \<Rightarrow> template_t \<Rightarrow> netflow_state \<Rightarrow> netflow_state outcome" where
  "netflow9_options_flowset_to_store env bs pkt flow_template st =
     and_then (v9_options_fields (template_records flow_template) bs (pkt + option_scope_length flow_template)
        \<lparr>opt_sampling_rate = 0, opt_timeouts = device_timeouts_default, opt_metrics = netflow_metrics st\<rparr>) (\<lambda>opt.
       let st = update_netflow_v9_sampling_rate (opt_sampling_rate opt) (client_address env) (st\<lparr>netflow_metrics := opt_metrics opt\<rparr>)
       in Done (st\<lparr>netflow_v9_per_device_flow_timeouts :=
            update_device_flow_timeouts (opt_timeouts opt) (client_address env) (netflow_v9_per_device_flow_timeouts st)\<rparr>))"

section \<open>Flows\<close>

definition increment_duration_counters_netflow_v9 :: "int \<Rightarrow> netflow_state \<Rightarrow> netflow_state" where
  "increment_duration_counters_netflow_v9 duration =
     nf_bump (if duration = 0 then ''netflow9_duration_0_seconds''
       else if duration \<le> 1 then ''netflow9_duration_less_1_seconds''
       else if duration \<le> 2 then ''netflow9_duration_less_2_seconds''
       else if duration \<le> 3 then ''netflow9_duration_less_3_seconds''
       else if duration \<le> 5 then ''netflow9_duration_less_5_seconds''
       else if duration \<le> 10 then ''netflow9_duration_less_10_seconds''
       else if duration \<le> 15 then ''netflow9_duration_less_15_seconds''
       else if duration \<le> 30 then ''netflow9_duration_less_30_seconds''
       else if duration \<le> 60 then ''netflow9_duration_less_60_seconds''
       else if duration \<le> 90 then ''netflow9_duration_less_90_seconds''
       else if duration \<le> 180 then ''netflow9_duration_less_180_seconds''
       else ''netflow9_duration_exceed_180_seconds'')"

definition netflow9_sample_ratio :: "netflow_environment \<Rightarrow> netflow_state \<Rightarrow> u32" where
  "netflow9_sample_ratio env st =
     (case map_find (netflow9_sampling_rates st) (client_address env) of None \<Rightarrow> netflow_sampling_ratio env | Some rate \<Rightarrow> rate)"

fun netflow9_fields ::
    "string \<Rightarrow> template_record_t list \<Rightarrow> bytes \<Rightarrow> nat \<Rightarrow> simple_packet_t \<Rightarrow> netflow_meta_info_t \<Rightarrow> netflow_state
     \<Rightarrow> (simple_packet_t \<times> netflow_meta_info_t \<times> netflow_state) outcome" where
  "netflow9_fields client [] bs i packet flow_meta st = Done (packet, flow_meta, st)"
| "netflow9_fields client (r # rs) bs i packet flow_meta st =
     and_then (netflow9_record_to_flow client r bs i packet flow_meta st) (\<lambda>(packet, flow_meta, st).
       netflow9_fields client rs bs (i + record_length r) packet flow_meta st)"

text \<open>Fields of the sampled packet inside of a flow take the place of those of the flow.\<close>

definition apply_nested_packet :: "simple_packet_t \<Rightarrow> netflow_meta_info_t \<Rightarrow> simple_packet_t outcome" where
  "apply_nested_packet packet flow_meta =
     (if nested_packet_parsed flow_meta
      then let packet = override_packet_fields_from_nested_packet packet (nested_packet flow_meta)
           in if selected_packets flow_meta \<noteq> 0
              then and_then (to_uint32 (to_double (to_double (of_int (uint (observed_packets flow_meta)))
                     / to_double (of_int (uint (selected_packets flow_meta))))))
                     (\<lambda>ratio. Done (packet\<lparr>sample_ratio := ratio\<rparr>))
              else Done packet
      else Done packet)"

text \<open>A router may send zero IPv6 addresses together with IPv4 ones.\<close>

definition zero_ipv6_beside_ipv4 :: "simple_packet_t \<Rightarrow> bool" where
  "zero_ipv6_beside_ipv4 packet \<longleftrightarrow> ip_protocol_version packet = 6 \<and> is_zero_ipv6_address (src_ipv6 packet)
     \<and> is_zero_ipv6_address (dst_ipv6 packet) \<and> src_ip packet \<noteq> 0 \<and> dst_ip packet \<noteq> 0"

definition netflow9_adjust_version :: "simple_packet_t \<Rightarrow> netflow_state \<Rightarrow> simple_packet_t \<times> netflow_state" where
  "netflow9_adjust_version packet st =
     (let (packet, st) = (if zero_ipv6_beside_ipv4 packet
            then (packet\<lparr>ip_protocol_version := 4\<rparr>, nf_bump ''netflow9_protocol_version_adjustments'' st) else (packet, st))
      in (packet, if ip_protocol_version packet = 4 then nf_bump ''netflow_v9_total_ipv4_flows'' st
                  else if ip_protocol_version packet = 6 then nf_bump ''netflow_v9_total_ipv6_flows'' st else st))"

definition without_icmp_ports :: "simple_packet_t \<Rightarrow> simple_packet_t" where
  "without_icmp_ports packet = (if protocol packet = 1 then packet\<lparr>source_port := 0, destination_port := 0\<rparr> else packet)"

text \<open>The flows of a Cisco ASA go in both directions.\<close>

definition is_asa_flow :: "simple_packet_t \<Rightarrow> netflow_meta_info_t \<Rightarrow> bool" where
  "is_asa_flow packet flow_meta \<longleftrightarrow> length' packet = 0 \<and> number_of_packets packet = 0 \<and> meta_flow_id flow_meta \<noteq> 0"

definition asa_packets :: "simple_packet_t \<Rightarrow> netflow_meta_info_t \<Rightarrow> simple_packet_t \<times> simple_packet_t" where
  "asa_packets packet flow_meta =
     (let packet = packet\<lparr>length' := bytes_from_source_to_destination flow_meta, ip_length := bytes_from_source_to_destination flow_meta,
            number_of_packets := packets_from_source_to_destination flow_meta\<rparr>
      in (packet, packet\<lparr>length' := bytes_from_destination_to_source flow_meta, ip_length := bytes_from_destination_to_source flow_meta,
            number_of_packets := packets_from_destination_to_source flow_meta, src_ip := dst_ip packet, dst_ip := src_ip packet,
            src_ipv6 := dst_ipv6 packet, dst_ipv6 := src_ipv6 packet, source_port := destination_port packet,
            destination_port := source_port packet, input_interface := output_interface packet,
            output_interface := input_interface packet, src_asn := dst_asn packet, dst_asn := src_asn packet,
            src_country := dst_country packet, dst_country := src_country packet\<rparr>))"

definition netflow9_flowset_to_store ::
    "netflow_environment \<Rightarrow> u32 \<Rightarrow> bytes \<Rightarrow> nat \<Rightarrow> template_record_t list \<Rightarrow> netflow_state \<Rightarrow> netflow_state outcome" where
  "netflow9_flowset_to_store env time_sec bs pkt records st =
     (let packet = simple_packet_default\<lparr>source := NETFLOW, arrival_time := netflow_current_time env,
            agent_ipv4_address := client_ipv4_address env, number_of_packets := 0, ts := (uint time_sec, 0),
            ip_protocol_version := 4, sample_ratio := netflow9_sample_ratio env st\<rparr>
      in and_then (netflow9_fields (client_address env) records bs pkt packet netflow_meta_info_default st) (\<lambda>(packet, flow_meta, st).
         and_then (apply_nested_packet packet flow_meta) (\<lambda>packet.
         let st = nf_bump ''netflow_ipfix_all_protocols_total_flows'' (nf_bump ''netflow_v9_total_flows'' st)
         in if nat_event flow_meta then Done st
            else let (packet, st) = netflow9_adjust_version packet st
              in and_then (minus_int64 (flow_end packet) (flow_start packet)) (\<lambda>duration.
                 let st = increment_duration_counters_netflow_v9 (seconds_of duration) st;
                     packet = without_icmp_ports packet
                 in if is_asa_flow packet flow_meta
                    then let (packet, reverse_packet) = asa_packets packet flow_meta
                         in Done (nf_process reverse_packet (nf_process packet st))
                    else Done (nf_process packet st)))))"

section \<open>Datagrams\<close>

text \<open>The loop over the records of a data or options flowset, of which \<open>n\<close> are left, as far as they lie before \<open>packet_end\<close>.\<close>

fun v9_each_record :: "(nat \<Rightarrow> netflow_state \<Rightarrow> netflow_state outcome) \<Rightarrow> nat \<Rightarrow> nat \<Rightarrow> nat \<Rightarrow> nat \<Rightarrow> netflow_state
     \<Rightarrow> (bool \<times> netflow_state) outcome" where
  "v9_each_record store len packet_end i 0 st = Done (True, st)"
| "v9_each_record store len packet_end i (Suc n) st =
     (if i + len > packet_end then Done (False, st)
      else and_then (store i st) (v9_each_record store len packet_end (i + len) n))"

definition process_netflow_v9_data ::
    "netflow_environment \<Rightarrow> bytes \<Rightarrow> nat \<Rightarrow> nat \<Rightarrow> u32 \<Rightarrow> u32 \<Rightarrow> netflow_state \<Rightarrow> (bool \<times> netflow_state) outcome" where
  "process_netflow_v9_data env bs pkt flowset_length time_sec source_id st =
     (if flowset_length < 4 then Done (False, st)
      else and_then (deref 2 (\<lambda>d. be16_at d 0) bs pkt) (\<lambda>flowset_id.
        case peer_find_template (global_netflow9_templates st) source_id (ucast flowset_id) (client_address env) of
          None \<Rightarrow> Done (True, nf_bump ''netflow9_packets_with_unknown_templates'' st)
        | Some field_template \<Rightarrow>
            if template_records field_template = [] then Done (False, st)
            else if total_length field_template = 0 then Done (False, st)
            else let number_of_flows = (flowset_length - 4) div total_length field_template
              in if number_of_flows = 0 \<or> number_of_flows > flows_per_packet_maximum_number then Done (False, st)
                 else case template_type field_template of
                        Data \<Rightarrow> v9_each_record (\<lambda>i. netflow9_flowset_to_store env time_sec bs i (template_records field_template))
                                 (total_length field_template) (pkt + flowset_length) (pkt + 4) number_of_flows st
                      | Options \<Rightarrow> v9_each_record (\<lambda>i. netflow9_options_flowset_to_store env bs i field_template)
                                 (total_length field_template) (pkt + flowset_length) (pkt + 4) number_of_flows
                                 (nf_bump ''netflow9_options_packet_number'' st)
                      | Unknown_template \<Rightarrow> Done (True, st)))"

text \<open>One flowset: whether the packet is still sound, and the state after it.\<close>

definition process_netflow_v9_flowset ::
    "netflow_environment \<Rightarrow> bytes \<Rightarrow> nat \<Rightarrow> u16 \<Rightarrow> nat \<Rightarrow> u32 \<Rightarrow> u32 \<Rightarrow> netflow_state \<Rightarrow> (bool \<times> netflow_state) outcome" where
  "process_netflow_v9_flowset env bs offset flowset_id flowset_length time_sec source_id st =
     (if flowset_id = 0
      then process_netflow_v9_template env bs offset flowset_length source_id (nf_bump ''netflow9_data_templates_number'' st)
      else if flowset_id = 1
      then process_netflow_v9_options_template env bs offset flowset_length source_id (nf_bump ''netflow9_options_templates_number'' st)
      else and_then (process_netflow_v9_data env bs offset flowset_length time_sec source_id (nf_bump ''netflow9_data_packet_number'' st))
        (\<lambda>(ok, st). if ok then Done (True, st) else Done (False, nf_bump ''netflow_v9_broken_packets'' st)))"

text \<open>The loop over the flowsets, of which \<open>n\<close> are left; a flowset with a reserved number is read again at the same offset.\<close>

fun v9_flowsets_loop ::
    "netflow_environment \<Rightarrow> bytes \<Rightarrow> u32 \<Rightarrow> u32 \<Rightarrow> nat \<Rightarrow> nat \<Rightarrow> netflow_state \<Rightarrow> (bool \<times> netflow_state) outcome" where
  "v9_flowsets_loop env bs time_sec source_id offset 0 st = Done (True, st)"
| "v9_flowsets_loop env bs time_sec source_id offset (Suc n) st =
     (if offset \<ge> length bs then Done (False, st)
      else if offset + 4 > length bs then Done (False, st)
      else and_then (deref 4 (\<lambda>d. (be16_at d 0, unat (be16_at d 2))) bs offset) (\<lambda>(flowset_id, flowset_length).
        if offset + flowset_length > length bs then Done (False, st)
        else if 1 < flowset_id \<and> flowset_id < 256 then v9_flowsets_loop env bs time_sec source_id offset n st
        else and_then (process_netflow_v9_flowset env bs offset flowset_id flowset_length time_sec source_id st) (\<lambda>(ok, st).
          if \<not> ok then Done (False, st)
          else if offset + flowset_length = length bs then Done (True, st)
          else v9_flowsets_loop env bs time_sec source_id (offset + flowset_length) n st)))"

definition process_netflow_packet_v9 :: "netflow_environment \<Rightarrow> bytes \<Rightarrow> netflow_state \<Rightarrow> (bool \<times> netflow_state) outcome" where
  "process_netflow_packet_v9 env bs st =
     (let st = nf_bump ''netflow_v9_total_packets'' st
      in if length bs < 20 then Done (False, st)
         else and_then (deref 20 (\<lambda>d. (unat (be16_at d 2), be32_at d 8, be32_at d 16)) bs 0)
           (\<lambda>(flowset_count_total, time_sec, source_id).
           if flowset_count_total > sets_per_packet_maximum_number then Done (False, st)
           else v9_flowsets_loop env bs time_sec source_id 20 flowset_count_total st))"

end
