(* ===== verification/Ipfix_Collector.thy ===== *)
theory Ipfix_Collector
  imports Netflow_V9
begin

text \<open>
  The receiver of IPFIX (\<^verbatim>\<open>src/netflow_plugin/ipfix_collector.cpp\<close>) and the choice of the protocol by the version of a
  datagram (\<^verbatim>\<open>process_netflow_packet\<close> of \<^verbatim>\<open>netflow_collector.cpp\<close>). Branches under \<^verbatim>\<open>if (false)\<close> are left out. The loop over flows with
  fields of variable length has fuel; that the fuel is enough is part of what is shown about it, and running out of it counts as
  undefined.
\<close>

section \<open>Templates\<close>

definition IPFIX_ENTERPRISE :: u32 where "IPFIX_ENTERPRISE = 0x8000"

definition variable_length :: nat where "variable_length = 65535"

fun are_all_padding_bytes_are_zero :: "bytes \<Rightarrow> nat \<Rightarrow> nat \<Rightarrow> bool outcome" where
  "are_all_padding_bytes_are_zero bs i 0 = Done True"
| "are_all_padding_bytes_are_zero bs i (Suc n) =
     and_then (deref 1 (\<lambda>d. d ! 0) bs i) (\<lambda>b. if b \<noteq> 0 then Done False else are_all_padding_bytes_are_zero bs (i + 1) n)"

definition store_ipfix_template :: "netflow_environment \<Rightarrow> u32 \<Rightarrow> template_t \<Rightarrow> netflow_state \<Rightarrow> netflow_state" where
  "store_ipfix_template env source_id t st =
     (case add_update_peer_template (global_ipfix_templates st) source_id (ucast (template_id t)) (client_address env) t of
        (Added_template, table) \<Rightarrow> st\<lparr>global_ipfix_templates := table\<rparr>
      | (Changed_template, table) \<Rightarrow> nf_bump ''ipfix_template_data_updates'' (st\<lparr>global_ipfix_templates := table\<rparr>)
      | (Same_template, table) \<Rightarrow> nf_bump ''template_update_attempts_with_same_template_data'' st)"

text \<open>
  A field specifier at an offset of a set: the field, and the offset behind it, or nothing when it does not lie in the set. The number of
  an enterprise follows fields whose type has the enterprise bit.
\<close>

definition read_field_specifier :: "bytes \<Rightarrow> nat \<Rightarrow> nat \<Rightarrow> nat \<Rightarrow> (template_record_t \<times> nat) option outcome" where
  "read_field_specifier bs packet offset set_length =
     (if offset + 4 > set_length then Done None
      else and_then (deref 4 netflow9_template_flowset_record_of bs (packet + offset)) (\<lambda>r.
        if record_type r AND IPFIX_ENTERPRISE \<noteq> 0
        then if offset + 8 > set_length then Done None
             else and_then (deref 4 (\<lambda>d. be32_at d 0) bs (packet + offset + 4)) (\<lambda>number.
               Done (Some (r\<lparr>enterprise_bit := True, enterprise_number := number\<rparr>, offset + 8)))
        else Done (Some (r, offset + 4))))"

fun read_field_specifiers :: "bytes \<Rightarrow> nat \<Rightarrow> nat \<Rightarrow> nat \<Rightarrow> nat \<Rightarrow> (template_record_t list \<times> nat) option outcome" where
  "read_field_specifiers bs packet offset set_length 0 = Done (Some ([], offset))"
| "read_field_specifiers bs packet offset set_length (Suc n) =
     and_then (read_field_specifier bs packet offset set_length) (\<lambda>field.
       case field of None \<Rightarrow> Done None | Some (r, offset) \<Rightarrow>
       and_then (read_field_specifiers bs packet offset set_length n) (\<lambda>rest. Done (map_option (apfst (Cons r)) rest)))"

text \<open>The scope fields of an options template: the length of their contents and the offset behind them.\<close>

fun read_scope_specifiers :: "bytes \<Rightarrow> nat \<Rightarrow> nat \<Rightarrow> nat \<Rightarrow> nat \<Rightarrow> (nat \<times> nat) option outcome" where
  "read_scope_specifiers bs packet offset set_length 0 = Done (Some (0, offset))"
| "read_scope_specifiers bs packet offset set_length (Suc n) =
     (if offset + 4 > set_length then Done None
      else and_then (deref 4 netflow9_template_flowset_record_of bs (packet + offset)) (\<lambda>r.
        and_then (read_scope_specifiers bs packet (offset + 4) set_length n) (\<lambda>rest.
          Done (map_option (apfst ((+) (record_length r))) rest))))"

definition uses_variable_length :: "template_record_t list \<Rightarrow> bool" where
  "uses_variable_length rs \<longleftrightarrow> list_ex (\<lambda>r. record_length r = variable_length) rs"

text \<open>A template that has been read: whether it was accepted, the offset behind it and the state.\<close>

definition read_ipfix_options_template ::
    "netflow_environment \<Rightarrow> bytes \<Rightarrow> nat \<Rightarrow> nat \<Rightarrow> nat \<Rightarrow> u32 \<Rightarrow> netflow_state \<Rightarrow> (nat \<times> netflow_state) option outcome" where
  "read_ipfix_options_template env bs packet offset set_length source_id st =
     (if offset + 6 > set_length then Done None
      else and_then (deref 6 (\<lambda>d. (be16_at d 0, unat (be16_at d 2), unat (be16_at d 4))) bs (packet + offset))
        (\<lambda>(tid, field_count, scope_field_count).
        if tid \<le> 255 then Done None
        else if scope_field_count > field_count then Done None
        else and_then (read_scope_specifiers bs packet (offset + 6) set_length scope_field_count) (\<lambda>scopes.
        case scopes of None \<Rightarrow> Done None | Some (scopes_payload_total_size, offset) \<Rightarrow>
        and_then (read_field_specifiers bs packet offset set_length (field_count - scope_field_count)) (\<lambda>fields.
        case fields of None \<Rightarrow> Done None | Some (records, offset) \<Rightarrow>
        Done (Some (offset, store_ipfix_template env source_id
          \<lparr>template_id = tid, num_records = field_count - scope_field_count,
           total_length = total_record_length records + scopes_payload_total_size, option_scope_length = scopes_payload_total_size,
           ipfix_variable_length_elements_used = uses_variable_length records, timestamp = netflow_current_time env,
           template_type = Options, template_records = records\<rparr> st))))))"

lemma read_field_specifier_offset: "read_field_specifier bs packet i l = Done (Some (r, j)) \<Longrightarrow> i + 4 \<le> j \<and> j \<le> l"
  by (auto simp: read_field_specifier_def and_then_Done_iff split: if_splits)

lemma read_field_specifiers_offset: "read_field_specifiers bs packet i l n = Done (Some (rs, j)) \<Longrightarrow> i \<le> j \<and> length rs = n \<and> (i \<le> l \<longrightarrow> j \<le> l)"
proof (induction n arbitrary: i rs)
  case (Suc n)
  then show ?case
    by (fastforce simp: and_then_Done_iff split: option.splits dest: read_field_specifier_offset)
qed simp

lemma read_scope_specifiers_offset: "read_scope_specifiers bs packet i l n = Done (Some (k, j)) \<Longrightarrow> i \<le> j \<and> (i \<le> l \<longrightarrow> j \<le> l)"
proof (induction n arbitrary: i k)
  case (Suc n)
  then show ?case
    by (fastforce simp: and_then_Done_iff split: if_splits)
qed simp

lemma read_ipfix_options_template_offset:
  "read_ipfix_options_template env bs packet i l source_id st = Done (Some (j, st')) \<Longrightarrow> i < j \<and> j \<le> l"
  by (fastforce simp: read_ipfix_options_template_def and_then_Done_iff split: if_splits option.splits
      dest: read_field_specifiers_offset read_scope_specifiers_offset)

function ipfix_options_templates_loop ::
    "netflow_environment \<Rightarrow> bytes \<Rightarrow> nat \<Rightarrow> nat \<Rightarrow> nat \<Rightarrow> u32 \<Rightarrow> netflow_state \<Rightarrow> (bool \<times> netflow_state) outcome" where
  "ipfix_options_templates_loop env bs packet offset set_length source_id st =
     (if offset < set_length
      then and_then (read_ipfix_options_template env bs packet offset set_length source_id st) (\<lambda>res.
        case res of None \<Rightarrow> Done (False, st) | Some (offset', st') \<Rightarrow>
        if 1 \<le> set_length - offset' \<and> set_length - offset' \<le> 5
        then and_then (are_all_padding_bytes_are_zero bs (packet + offset') (set_length - offset')) (\<lambda>all_zero. Done (all_zero, st'))
        else ipfix_options_templates_loop env bs packet offset' set_length source_id st')
      else Done (True, st))"
  by pat_completeness auto
termination
  by (relation "measure (\<lambda>(env, bs, packet, offset, set_length, source_id, st). set_length - offset)")
    (auto dest!: read_ipfix_options_template_offset)

declare ipfix_options_templates_loop.simps [simp del]

definition process_ipfix_options_template_set ::
    "netflow_environment \<Rightarrow> bytes \<Rightarrow> nat \<Rightarrow> nat \<Rightarrow> u32 \<Rightarrow> netflow_state \<Rightarrow> (bool \<times> netflow_state) outcome" where
  "process_ipfix_options_template_set env bs packet set_length source_id st =
     (if set_length < 4 then Done (False, st)
      else and_then (deref 2 (\<lambda>d. be16_at d 0) bs packet) (\<lambda>set_id.
        if set_id \<noteq> 3 then Done (False, st) else ipfix_options_templates_loop env bs packet 4 set_length source_id st))"

text \<open>The total length of a data template leaves out the first field of variable length and everything behind it.\<close>

definition fixed_length_before_variable :: "template_record_t list \<Rightarrow> nat" where
  "fixed_length_before_variable rs = total_record_length (takeWhile (\<lambda>r. record_length r \<noteq> variable_length) rs)"

definition read_ipfix_data_template ::
    "netflow_environment \<Rightarrow> bytes \<Rightarrow> nat \<Rightarrow> nat \<Rightarrow> nat \<Rightarrow> u32 \<Rightarrow> netflow_state \<Rightarrow> (nat \<times> netflow_state) option outcome" where
  "read_ipfix_data_template env bs packet offset set_length source_id st =
     (if offset + 4 > set_length then Done None
      else and_then (deref 4 (\<lambda>d. (be16_at d 0, unat (be16_at d 2))) bs (packet + offset)) (\<lambda>(tid, record_count).
        and_then (read_field_specifiers bs packet (offset + 4) set_length record_count) (\<lambda>fields.
        case fields of None \<Rightarrow> Done None | Some (records, offset) \<Rightarrow>
        Done (Some (offset, store_ipfix_template env source_id
          \<lparr>template_id = tid, num_records = record_count, total_length = fixed_length_before_variable records, option_scope_length = 0,
           ipfix_variable_length_elements_used = uses_variable_length records, timestamp = netflow_current_time env,
           template_type = Data, template_records = records\<rparr> st)))))"

lemma read_ipfix_data_template_offset:
  "read_ipfix_data_template env bs packet i l source_id st = Done (Some (j, st')) \<Longrightarrow> i < j \<and> j \<le> l"
  by (fastforce simp: read_ipfix_data_template_def and_then_Done_iff split: if_splits option.splits dest: read_field_specifiers_offset)

function ipfix_data_templates_loop ::
    "netflow_environment \<Rightarrow> bytes \<Rightarrow> nat \<Rightarrow> nat \<Rightarrow> nat \<Rightarrow> u32 \<Rightarrow> netflow_state \<Rightarrow> (bool \<times> netflow_state) outcome" where
  "ipfix_data_templates_loop env bs packet offset set_length source_id st =
     (if offset < set_length
      then and_then (read_ipfix_data_template env bs packet offset set_length source_id st) (\<lambda>res.
        case res of None \<Rightarrow> Done (False, st) | Some (offset', st') \<Rightarrow>
        ipfix_data_templates_loop env bs packet offset' set_length source_id st')
      else Done (True, st))"
  by pat_completeness auto
termination
  by (relation "measure (\<lambda>(env, bs, packet, offset, set_length, source_id, st). set_length - offset)")
    (auto dest!: read_ipfix_data_template_offset)

declare ipfix_data_templates_loop.simps [simp del]

definition process_ipfix_data_template_set ::
    "netflow_environment \<Rightarrow> bytes \<Rightarrow> nat \<Rightarrow> nat \<Rightarrow> u32 \<Rightarrow> netflow_state \<Rightarrow> (bool \<times> netflow_state) outcome" where
  "process_ipfix_data_template_set env bs packet set_length source_id st =
     (if set_length < 4 then Done (False, st)
      else and_then (deref 2 (\<lambda>d. be16_at d 0) bs packet) (\<lambda>set_id.
        if set_id \<noteq> 2 then Done (False, st) else ipfix_data_templates_loop env bs packet 4 set_length source_id st))"

section \<open>Fields of a flow\<close>

definition ipfix_too_large :: field_action where
  "ipfix_too_large = No_read (counted_as ''ipfix_too_large_field'')"

definition when_length :: "bool \<Rightarrow> field_action \<Rightarrow> field_action" where
  "when_length ok a = (if ok then a else ipfix_too_large)"

text \<open>The cases of the switch over the types of the fields, in its order and in groups, as for NetFlow v9.\<close>

definition ipfix_volume_field :: "u32 \<Rightarrow> nat \<Rightarrow> field_action option" where
  "ipfix_volume_field t n =
     (if t = 1 then Some (when_length (n \<le> 8) (packet_field set_in_bytes))
      else if t = 2 then Some (when_length (n \<le> 8) (packet_field set_in_packets))
      else if t = 86 then Some (when_length (n = 8) (packet_field (\<lambda>d packet. packet\<lparr>number_of_packets := be64_at d 0\<rparr>)))
      else if t = 85 then Some (when_length (n = 8) (packet_field set_total_bytes))
      else if t = 4 then Some (when_length (n \<le> 4) (packet_field set_protocol))
      else if t = 6 then Some (when_length (n = 1 \<or> n = 2)
        (packet_field (\<lambda>d packet. packet\<lparr>flags := if n = 1 then be_copy8 d (flags packet) else d ! 1\<rparr>)))
      else None)"

text \<open>A port that counts only for the given protocol.\<close>

definition port_of_protocol :: "u32 \<Rightarrow> nat \<Rightarrow> (u16 \<Rightarrow> simple_packet_t \<Rightarrow> simple_packet_t) \<Rightarrow> field_action" where
  "port_of_protocol proto n set_port =
     (if n = 2
      then packet_field (\<lambda>d packet. if protocol packet = proto then set_port (be16_at d 0) packet else packet)
      else No_read (\<lambda>fl. if protocol (dec_packet fl) = proto then counted_as ''ipfix_too_large_field'' fl else fl))"

definition ipfix_port_field :: "u32 \<Rightarrow> nat \<Rightarrow> field_action option" where
  "ipfix_port_field t n =
     (if t = 7 then Some (when_length (n \<le> 2) (packet_field set_source_port))
      else if t = 11 then Some (when_length (n \<le> 2) (packet_field set_destination_port))
      else if t = 182 then Some (port_of_protocol 6 n (\<lambda>port packet. packet\<lparr>source_port := port\<rparr>))
      else if t = 183 then Some (port_of_protocol 6 n (\<lambda>port packet. packet\<lparr>destination_port := port\<rparr>))
      else if t = 180 then Some (port_of_protocol 17 n (\<lambda>port packet. packet\<lparr>source_port := port\<rparr>))
      else if t = 181 then Some (port_of_protocol 17 n (\<lambda>port packet. packet\<lparr>destination_port := port\<rparr>))
      else None)"

definition ipfix_address_field :: "u32 \<Rightarrow> nat \<Rightarrow> field_action option" where
  "ipfix_address_field t n =
     (if t = 8 then Some (when_length (n \<le> 4) (packet_field (\<lambda>d packet. packet\<lparr>src_ip := front_copy32 d (src_ip packet)\<rparr>)))
      else if t = 12 then Some (when_length (n \<le> 4) (packet_field (\<lambda>d packet. packet\<lparr>dst_ip := front_copy32 d (dst_ip packet)\<rparr>)))
      else if t = 15 then Some (when_length (n = 4) (meta_field (\<lambda>d m. m\<lparr>ip_next_hop_ipv4_set := True, ip_next_hop_ipv4 := load32_at d 0\<rparr>)))
      else if t = 18 then Some (when_length (n = 4) (meta_field (\<lambda>d m. m\<lparr>bgp_next_hop_ipv4_set := True, bgp_next_hop_ipv4 := load32_at d 0\<rparr>)))
      else if t = 62 then Some (when_length (n = 16) (meta_field (\<lambda>d m. m\<lparr>bgp_next_hop_ipv6_set := True, bgp_next_hop_ipv6 := d\<rparr>)))
      else None)"

definition ipfix_routing_field :: "u32 \<Rightarrow> nat \<Rightarrow> field_action option" where
  "ipfix_routing_field t n =
     (if t = 16 then Some (when_length (n = 4 \<or> n = 2) (packet_field (\<lambda>d packet. packet\<lparr>src_asn := be_short_or_long d\<rparr>)))
      else if t = 17 then Some (when_length (n = 4 \<or> n = 2) (packet_field (\<lambda>d packet. packet\<lparr>dst_asn := be_short_or_long d\<rparr>)))
      else if t = 56 then Some (when_length (n = 6) (packet_field (\<lambda>d packet. packet\<lparr>source_mac := d\<rparr>)))
      else if t = 80 then Some (when_length (n = 6) (packet_field (\<lambda>d packet. packet\<lparr>destination_mac := d\<rparr>)))
      else if t = 10 then Some (when_length (n = 4 \<or> n = 2) (packet_field (\<lambda>d packet. packet\<lparr>input_interface := be_short_or_long d\<rparr>)))
      else if t = 14 then Some (when_length (n = 4 \<or> n = 2) (packet_field (\<lambda>d packet. packet\<lparr>output_interface := be_short_or_long d\<rparr>)))
      else if t = 27 then Some (when_length (n = 16) (packet_field (\<lambda>d packet. packet\<lparr>src_ipv6 := d, ip_protocol_version := 6\<rparr>)))
      else if t = 28 then Some (when_length (n = 16) (packet_field (\<lambda>d packet. packet\<lparr>dst_ipv6 := d, ip_protocol_version := 6\<rparr>)))
      else None)"

text \<open>Nanoseconds to milliseconds, cut off towards zero.\<close>

definition nanoseconds_to_milliseconds :: "int \<Rightarrow> int" where
  "nanoseconds_to_milliseconds x = (if x < 0 then - (- x div 1000000) else x div 1000000)"

definition ipfix_time_field :: "u32 \<Rightarrow> nat \<Rightarrow> field_action option" where
  "ipfix_time_field t n =
     (if t = 22 then Some (when_length (n = 4) (packet_field (\<lambda>d packet. packet\<lparr>flow_start := uint (be32_at d 0)\<rparr>)))
      else if t = 21 then Some (when_length (n = 4) (packet_field (\<lambda>d packet. packet\<lparr>flow_end := uint (be32_at d 0)\<rparr>)))
      else if t = 152 then Some (when_length (n = 8) (packet_field (\<lambda>d packet. packet\<lparr>flow_start := sint (be64_at d 0)\<rparr>)))
      else if t = 153 then Some (when_length (n = 8) (packet_field (\<lambda>d packet. packet\<lparr>flow_end := sint (be64_at d 0)\<rparr>)))
      else if t = 156 then Some (when_length (n = 8) (packet_field (\<lambda>d packet. packet\<lparr>flow_start := nanoseconds_to_milliseconds (sint (be64_at d 0))\<rparr>)))
      else if t = 157 then Some (when_length (n = 8) (packet_field (\<lambda>d packet. packet\<lparr>flow_end := nanoseconds_to_milliseconds (sint (be64_at d 0))\<rparr>)))
      else None)"

definition end_reason_counter :: "u8 \<Rightarrow> netflow_counter option" where
  "end_reason_counter reason =
     (if reason = 1 then Some ''ipfix_flows_end_reason_idle_timeout''
      else if reason = 2 then Some ''ipfix_flows_end_reason_active_timeout''
      else if reason = 3 then Some ''ipfix_flows_end_reason_end_of_flow_timeout''
      else if reason = 4 then Some ''ipfix_flows_end_reason_force_end_timeout''
      else if reason = 5 then Some ''ipfix_flows_end_reason_lack_of_resource_timeout''
      else None)"

definition ipfix_status_field :: "u32 \<Rightarrow> nat \<Rightarrow> field_action option" where
  "ipfix_status_field t n =
     (if t = 89 then Some (when_length (n = 1 \<or> n = 4) (Read_field (\<lambda>d fl. Done (counted_as ''ipfix_forwarding_status''
        (fl\<lparr>dec_packet := (dec_packet fl)\<lparr>forwarding_status := forwarding_status_from_integer (drop_bit 6 (d ! (n - 1)))\<rparr>,
            dec_meta := (dec_meta fl)\<lparr>received_forwarding_status := True\<rparr>\<rparr>)))))
      else if t = 312 then Some (when_length (n = 2) (meta_field (\<lambda>d m. m\<lparr>data_link_frame_size := ucast (be16_at d 0)\<rparr>)))
      else if t = 61 then Some (when_length (n = 1) (meta_field (\<lambda>d m. m)))
      else if t = 136 then Some (when_length (n = 1) (Read_field (\<lambda>d fl. Done (case end_reason_counter (d ! 0) of
        None \<Rightarrow> fl | Some c \<Rightarrow> counted_as c fl))))
      else if t = 54 then Some (when_length (n = 4) (meta_field (\<lambda>d m. m)))
      else None)"

definition ipfix_field :: "u32 \<Rightarrow> nat \<Rightarrow> field_action" where
  "ipfix_field = first_case [ipfix_volume_field, ipfix_port_field, ipfix_address_field, ipfix_routing_field, ipfix_time_field,
     ipfix_status_field]"

text \<open>
  The section of a frame (type 315) uses the length found for the last field of variable length, which the flow remembers.
\<close>

definition ipfix_frame_section :: "bytes \<Rightarrow> nat \<Rightarrow> flow_decoding \<Rightarrow> flow_decoding outcome" where
  "ipfix_frame_section bs data fl =
     (let fl = counted_as ''ipfix_inline_headers'' fl; m = dec_meta fl
      in if variable_field_length_encoding m = unknown_encoding then Done (counted_as ''ipfix_inline_encoding_error'' fl)
         else if variable_field_length m = 0 then Done (counted_as ''ipfix_inline_encoding_error'' fl)
         else let payload_shift = data + (if variable_field_length_encoding m = single_byte then 1 else 3)
           in and_then (deref (variable_field_length m) id bs payload_shift) (\<lambda>payload.
              and_then (parse_raw_packet_to_simple_packet_full payload (int (variable_field_length m)) (nested_packet m)
                (parser_options_default\<lparr>unpack_gre := False, read_packet_length_from_ip_header := True\<rparr>)) (\<lambda>(result, nested).
              let fl = fl\<lparr>dec_meta := m\<lparr>nested_packet := nested\<rparr>\<rparr>
              in if result \<noteq> success then Done (counted_as ''ipfix_inline_header_parser_error'' fl)
                 else Done (counted_as ''ipfix_inline_header_parser_success''
                   (fl\<lparr>dec_meta := (dec_meta fl)\<lparr>nested_packet_parsed := True\<rparr>\<rparr>)))))"

definition ipfix_record_to_flow :: "u32 \<Rightarrow> nat \<Rightarrow> bytes \<Rightarrow> nat \<Rightarrow> flow_decoding \<Rightarrow> flow_decoding outcome" where
  "ipfix_record_to_flow t n bs data fl =
     (if t = 315 then ipfix_frame_section bs data fl else apply_field (ipfix_field t n) bs data n fl)"

section \<open>Options\<close>

text \<open>The sampling rate is kept in network byte order until it is stored.\<close>

definition update_ipfix_sampling_rate :: "u32 \<Rightarrow> string \<Rightarrow> netflow_state \<Rightarrow> netflow_state" where
  "update_ipfix_sampling_rate rate client st =
     (if rate = 0 then st
      else let new_sampling_rate = fast_ntoh32 rate; st = nf_bump ''ipfix_custom_sampling_rate_received'' st
           in if map_find (ipfix_sampling_rates st) client = Some new_sampling_rate then st
              else nf_bump ''ipfix_sampling_rate_changes''
                     (st\<lparr>ipfix_sampling_rates := map_put client new_sampling_rate (ipfix_sampling_rates st)\<rparr>))"

record ipfix_options_decoding = options_decoding +
  sampling_selector_algorithm :: u16
  sampling_packet_space :: u32
  sampling_packet_interval :: u32

definition ipfix_opt_counted :: "netflow_counter \<Rightarrow> ipfix_options_decoding \<Rightarrow> ipfix_options_decoding" where
  "ipfix_opt_counted c opt = opt\<lparr>opt_metrics := bump c (opt_metrics opt)\<rparr>"

definition ipfix_options_field :: "template_record_t \<Rightarrow> bytes \<Rightarrow> nat \<Rightarrow> ipfix_options_decoding \<Rightarrow> ipfix_options_decoding outcome" where
  "ipfix_options_field r bs data_shift opt =
     (let t = record_type r; n = record_length r; too_large = Done (ipfix_opt_counted ''ipfix_too_large_field'' opt)
      in if t = 34
         then if n = 4 then and_then (deref 4 (\<lambda>d. load32_at d 0) bs data_shift) (\<lambda>rate. Done (opt\<lparr>opt_sampling_rate := rate\<rparr>)) else too_large
         else if t = 305
         then if n = 4
              then and_then (deref 4 (\<lambda>d. be32_at d 0) bs data_shift) (\<lambda>interval.
                     Done (opt\<lparr>sampling_packet_interval := interval, opt_sampling_rate := htonl interval\<rparr>))
              else too_large
         else if t = 306
         then if n = 4 then and_then (deref 4 (\<lambda>d. be32_at d 0) bs data_shift) (\<lambda>space. Done (opt\<lparr>sampling_packet_space := space\<rparr>)) else too_large
         else if t = 304
         then if n = 2 then and_then (deref 2 (\<lambda>d. be16_at d 0) bs data_shift) (\<lambda>alg. Done (opt\<lparr>sampling_selector_algorithm := alg\<rparr>)) else too_large
         else if t = 36
         then if n = 2
              then and_then (deref 2 (\<lambda>d. be16_at d 0) bs data_shift) (\<lambda>active. Done (ipfix_opt_counted ''ipfix_active_flow_timeout_received''
                     (opt\<lparr>opt_timeouts := (opt_timeouts opt)\<lparr>active_timeout := Some (ucast active)\<rparr>\<rparr>)))
              else too_large
         else if t = 37
         then if n = 2
              then and_then (deref 2 (\<lambda>d. be16_at d 0) bs data_shift) (\<lambda>inactive. Done (ipfix_opt_counted ''ipfix_inactive_flow_timeout_received''
                     (opt\<lparr>opt_timeouts := (opt_timeouts opt)\<lparr>inactive_timeout := Some (ucast inactive)\<rparr>\<rparr>)))
              else too_large
         else Done opt)"

fun ipfix_options_fields :: "template_record_t list \<Rightarrow> bytes \<Rightarrow> nat \<Rightarrow> ipfix_options_decoding \<Rightarrow> ipfix_options_decoding outcome" where
  "ipfix_options_fields [] bs i opt = Done opt"
| "ipfix_options_fields (r # rs) bs i opt =
     and_then (ipfix_options_field r bs i opt) (ipfix_options_fields rs bs (i + record_length r))"

text \<open>A sampler that selects an interval of packets out of every space of packets.\<close>

definition systematic_sampling_rate :: "ipfix_options_decoding \<Rightarrow> u32 outcome" where
  "systematic_sampling_rate opt =
     (if sampling_selector_algorithm opt = 1 \<and> sampling_packet_interval opt \<noteq> 0
      then and_then (to_uint32 (to_double (to_double (of_int (uint (sampling_packet_space opt + sampling_packet_interval opt)))
             / to_double (of_int (uint (sampling_packet_interval opt)))))) (\<lambda>rate. Done (htonl rate))
      else Done (opt_sampling_rate opt))"

definition ipfix_options_set_to_store ::
    "netflow_environment \<Rightarrow> bytes \<Rightarrow> nat \<Rightarrow> template_t \<Rightarrow> netflow_state \<Rightarrow> netflow_state outcome" where
  "ipfix_options_set_to_store env bs packet flow_template st =
     and_then (ipfix_options_fields (template_records flow_template) bs (packet + option_scope_length flow_template)
        \<lparr>opt_sampling_rate = 0, opt_timeouts = device_timeouts_default, opt_metrics = netflow_metrics st,
         sampling_selector_algorithm = 0, sampling_packet_space = 0, sampling_packet_interval = 0\<rparr>) (\<lambda>opt.
     and_then (systematic_sampling_rate opt) (\<lambda>rate.
       let st = update_ipfix_sampling_rate rate (client_address env) (st\<lparr>netflow_metrics := opt_metrics opt\<rparr>)
       in Done (st\<lparr>ipfix_per_device_flow_timeouts :=
            update_device_flow_timeouts (opt_timeouts opt) (client_address env) (ipfix_per_device_flow_timeouts st)\<rparr>)))"

section \<open>Flows\<close>

definition increment_duration_counters_ipfix :: "int \<Rightarrow> netflow_state \<Rightarrow> netflow_state" where
  "increment_duration_counters_ipfix duration =
     nf_bump (if duration = 0 then ''ipfix_duration_0_seconds''
       else if duration \<le> 1 then ''ipfix_duration_less_1_seconds''
       else if duration \<le> 2 then ''ipfix_duration_less_2_seconds''
       else if duration \<le> 3 then ''ipfix_duration_less_3_seconds''
       else if duration \<le> 5 then ''ipfix_duration_less_5_seconds''
       else if duration \<le> 10 then ''ipfix_duration_less_10_seconds''
       else if duration \<le> 15 then ''ipfix_duration_less_15_seconds''
       else if duration \<le> 30 then ''ipfix_duration_less_30_seconds''
       else if duration \<le> 60 then ''ipfix_duration_less_60_seconds''
       else if duration \<le> 90 then ''ipfix_duration_less_90_seconds''
       else if duration \<le> 180 then ''ipfix_duration_less_180_seconds''
       else ''ipfix_duration_exceed_180_seconds'')"

record variable_length_encoding_info_t =
  info_length_encoding :: variable_length_encoding_t
  info_field_length :: nat
  info_record_full_length :: nat

text \<open>The length in front of a field of variable length, or nothing on an error; and whether the error is counted.\<close>

datatype variable_length_result = Field_length variable_length_encoding_info_t | Length_outside | Length_zero

definition read_ipfix_variable_length_field :: "bytes \<Rightarrow> nat \<Rightarrow> nat \<Rightarrow> nat \<Rightarrow> variable_length_result outcome" where
  "read_ipfix_variable_length_field bs packet offset set_length =
     (let checked = (\<lambda>info. if offset + info_record_full_length info > set_length then Done Length_outside else Done (Field_length info))
      in if offset + 1 > set_length then Done Length_outside
         else and_then (deref 1 (\<lambda>d. d ! 0) bs (packet + offset)) (\<lambda>b.
           if b = 0 then Done Length_zero
           else if b = 255
           then if offset + 3 > set_length then Done Length_outside
                else and_then (deref 2 (\<lambda>d. unat (be16_at d 0)) bs (packet + offset + 1)) (\<lambda>n.
                  checked \<lparr>info_length_encoding = two_byte, info_field_length = n, info_record_full_length = n + 3\<rparr>)
           else checked \<lparr>info_length_encoding = single_byte, info_field_length = unat b, info_record_full_length = unat b + 1\<rparr>))"

text \<open>
  The fields of a flow, from an offset behind its start: the offset behind them, or nothing when a field does not lie in the set, and what
  has been decoded. \<open>continue\<close> stands for the rest of the loop.
\<close>

definition ipfix_read_field ::
    "(nat \<Rightarrow> flow_decoding \<Rightarrow> (nat option \<times> flow_decoding) outcome) \<Rightarrow> u32 \<Rightarrow> nat \<Rightarrow> bytes \<Rightarrow> nat \<Rightarrow> nat \<Rightarrow> nat \<Rightarrow> flow_decoding
     \<Rightarrow> (nat option \<times> flow_decoding) outcome" where
  "ipfix_read_field continue t n bs packet_ptr offset set_maximum_length fl =
     (if offset + n > set_maximum_length then Done (None, fl)
      else and_then (ipfix_record_to_flow t n bs (packet_ptr + offset) fl) (continue (offset + n)))"

definition remember_length :: "variable_length_encoding_info_t \<Rightarrow> flow_decoding \<Rightarrow> flow_decoding" where
  "remember_length info fl = fl\<lparr>dec_meta := (dec_meta fl)\<lparr>variable_field_length_encoding := info_length_encoding info,
     variable_field_length := info_field_length info\<rparr>\<rparr>"

fun ipfix_fields :: "template_record_t list \<Rightarrow> bytes \<Rightarrow> nat \<Rightarrow> nat \<Rightarrow> nat \<Rightarrow> flow_decoding \<Rightarrow> (nat option \<times> flow_decoding) outcome" where
  "ipfix_fields [] bs packet_ptr offset set_maximum_length fl = Done (Some offset, fl)"
| "ipfix_fields (r # rs) bs packet_ptr offset set_maximum_length fl =
     (let continue = (\<lambda>offset fl. ipfix_fields rs bs packet_ptr offset set_maximum_length fl)
      in if record_length r = variable_length
         then and_then (read_ipfix_variable_length_field bs packet_ptr offset set_maximum_length) (\<lambda>res. case res of
             Length_outside \<Rightarrow> Done (None, fl)
           | Length_zero \<Rightarrow> Done (None, counted_as ''ipfix_inline_encoding_error'' fl)
           | Field_length info \<Rightarrow> ipfix_read_field continue (record_type r) (info_record_full_length info) bs packet_ptr offset
               set_maximum_length (remember_length info fl))
         else ipfix_read_field continue (record_type r) (record_length r) bs packet_ptr offset set_maximum_length fl)"

definition ipfix_sample_ratio :: "netflow_environment \<Rightarrow> netflow_state \<Rightarrow> u32" where
  "ipfix_sample_ratio env st =
     (case map_find (ipfix_sampling_rates st) (client_address env) of None \<Rightarrow> netflow_sampling_ratio env | Some rate \<Rightarrow> rate)"

definition ipfix_adjust_version :: "simple_packet_t \<Rightarrow> netflow_state \<Rightarrow> simple_packet_t \<times> netflow_state" where
  "ipfix_adjust_version packet st =
     (let (packet, st) = (if zero_ipv6_beside_ipv4 packet
            then (packet\<lparr>ip_protocol_version := 4\<rparr>, nf_bump ''ipfix_protocol_version_adjustments'' st) else (packet, st))
      in (packet, if ip_protocol_version packet = 4 then nf_bump ''ipfix_total_ipv4_flows'' st
                  else if ip_protocol_version packet = 6 then nf_bump ''ipfix_total_ipv6_flows'' st else st))"

text \<open>One flow: the length read, or nothing on an error, and the state.\<close>

definition ipfix_data_set_to_store ::
    "netflow_environment \<Rightarrow> u32 \<Rightarrow> bytes \<Rightarrow> nat \<Rightarrow> nat \<Rightarrow> template_t \<Rightarrow> netflow_state \<Rightarrow> (nat option \<times> netflow_state) outcome" where
  "ipfix_data_set_to_store env time_sec bs packet_ptr set_maximum_length field_template st =
     (let packet = simple_packet_default\<lparr>source := NETFLOW, arrival_time := netflow_current_time env,
            agent_ipv4_address := client_ipv4_address env, number_of_packets := 0, ts := (uint time_sec, 0),
            sample_ratio := ipfix_sample_ratio env st, ip_protocol_version := 4\<rparr>
      in and_then (ipfix_fields (template_records field_template) bs packet_ptr 0 set_maximum_length
           \<lparr>dec_packet = packet, dec_meta = netflow_meta_info_default, dec_sampling_rate = 0, dec_metrics = netflow_metrics st\<rparr>) (\<lambda>(read, fl).
         let st = st\<lparr>netflow_metrics := dec_metrics fl\<rparr>
         in case read of None \<Rightarrow> Done (None, st) | Some set_length \<Rightarrow>
            let packet = (if nested_packet_parsed (dec_meta fl)
                  then override_packet_fields_from_nested_packet (dec_packet fl) (nested_packet (dec_meta fl)) else dec_packet fl);
                st = nf_bump ''ipfix_total_flows'' (nf_bump ''netflow_ipfix_all_protocols_total_flows'' st);
                (packet, st) = ipfix_adjust_version packet st
            in and_then (minus_int64 (flow_end packet) (flow_start packet)) (\<lambda>duration.
               let st = (if duration < 0 then nf_bump ''ipfix_duration_negative'' st
                     else increment_duration_counters_ipfix (seconds_of duration) st)
               in Done (Some set_length, nf_process (without_icmp_ports packet) st))))"

section \<open>Sets\<close>

definition process_ipfix_options_data_set ::
    "netflow_environment \<Rightarrow> bytes \<Rightarrow> nat \<Rightarrow> nat \<Rightarrow> nat \<Rightarrow> template_t \<Rightarrow> netflow_state \<Rightarrow> (bool \<times> netflow_state) outcome" where
  "process_ipfix_options_data_set env bs packet offset set_end field_template st =
     (let st = nf_bump ''ipfix_options_packet_number'' st
      in if ipfix_variable_length_elements_used field_template then Done (True, st)
         else if packet + offset + total_length field_template > set_end then Done (False, st)
         else and_then (ipfix_options_set_to_store env bs (packet + offset) field_template st) (\<lambda>st. Done (True, st)))"

text \<open>Flows of variable length, one after the other, from an offset of the section on. \<open>available\<close> bytes are left.\<close>

fun ipfix_variable_flows ::
    "nat \<Rightarrow> netflow_environment \<Rightarrow> u32 \<Rightarrow> bytes \<Rightarrow> nat \<Rightarrow> nat \<Rightarrow> nat \<Rightarrow> nat \<Rightarrow> template_t \<Rightarrow> netflow_state \<Rightarrow> (bool \<times> netflow_state) outcome" where
  "ipfix_variable_flows 0 env time_sec bs flow_section_start flow_offset section_length available field_template st = Undefined"
| "ipfix_variable_flows (Suc fuel) env time_sec bs flow_section_start flow_offset section_length available field_template st =
     (if flow_offset < section_length
      then and_then (ipfix_data_set_to_store env time_sec bs (flow_section_start + flow_offset) available field_template st) (\<lambda>(read, st).
        case read of None \<Rightarrow> Done (False, st) | Some read_flow_length \<Rightarrow>
        let flow_offset = flow_offset + read_flow_length; available = available - read_flow_length
        in if available < total_length field_template
           then and_then (are_all_padding_bytes_are_zero bs (flow_section_start + flow_offset) available) (\<lambda>all_zero. Done (all_zero, st))
           else ipfix_variable_flows fuel env time_sec bs flow_section_start flow_offset section_length available field_template st)
      else Done (True, st))"

text \<open>Flows of fixed length. The result of a flow is not looked at.\<close>

fun ipfix_fixed_flows ::
    "netflow_environment \<Rightarrow> u32 \<Rightarrow> bytes \<Rightarrow> nat \<Rightarrow> template_t \<Rightarrow> nat \<Rightarrow> netflow_state \<Rightarrow> netflow_state outcome" where
  "ipfix_fixed_flows env time_sec bs i field_template 0 st = Done st"
| "ipfix_fixed_flows env time_sec bs i field_template (Suc n) st =
     and_then (ipfix_data_set_to_store env time_sec bs i (total_length field_template) field_template st) (\<lambda>(_, st).
       ipfix_fixed_flows env time_sec bs (i + total_length field_template) field_template n st)"

definition process_ipfix_regular_data_set ::
    "netflow_environment \<Rightarrow> u32 \<Rightarrow> bytes \<Rightarrow> nat \<Rightarrow> nat \<Rightarrow> nat \<Rightarrow> template_t \<Rightarrow> netflow_state \<Rightarrow> (bool \<times> netflow_state) outcome" where
  "process_ipfix_regular_data_set env time_sec bs packet offset set_length field_template st =
     (if ipfix_variable_length_elements_used field_template
      then ipfix_variable_flows (Suc set_length) env time_sec bs (packet + 4) 0 (set_length - 4) (set_length - 4) field_template st
      else if total_length field_template = 0 then Done (False, st)
      else let number_of_records = (set_length - offset) div total_length field_template;
               set_padding = (set_length - offset) mod total_length field_template;
               st = (if set_padding > 7 then nf_bump ''ipfix_sets_with_anomaly_padding'' st else st)
        in if number_of_records > 0x4000 then Done (False, st)
           else if number_of_records = 0 then Done (False, st)
           else and_then (ipfix_fixed_flows env time_sec bs (packet + offset) field_template number_of_records st) (\<lambda>st. Done (True, st)))"

definition process_ipfix_data_set ::
    "netflow_environment \<Rightarrow> u32 \<Rightarrow> bytes \<Rightarrow> nat \<Rightarrow> nat \<Rightarrow> u32 \<Rightarrow> netflow_state \<Rightarrow> (bool \<times> netflow_state) outcome" where
  "process_ipfix_data_set env time_sec bs packet set_length source_id st =
     (if set_length < 4 then Done (False, st)
      else and_then (deref 2 (\<lambda>d. be16_at d 0) bs packet) (\<lambda>set_id.
        case peer_find_template (global_ipfix_templates st) source_id (ucast set_id) (client_address env) of
          None \<Rightarrow> Done (False, nf_bump ''ipfix_packets_with_unknown_templates'' st)
        | Some field_template \<Rightarrow>
            if template_records field_template = [] then Done (False, st)
            else case template_type field_template of
                   Data \<Rightarrow> process_ipfix_regular_data_set env time_sec bs packet 4 set_length field_template st
                 | Options \<Rightarrow> process_ipfix_options_data_set env bs packet 4 (packet + set_length) field_template st
                 | Unknown_template \<Rightarrow> Done (True, st)))"

definition process_ipfix_set ::
    "netflow_environment \<Rightarrow> u32 \<Rightarrow> bytes \<Rightarrow> nat \<Rightarrow> u16 \<Rightarrow> nat \<Rightarrow> u32 \<Rightarrow> netflow_state \<Rightarrow> (bool \<times> netflow_state) outcome" where
  "process_ipfix_set env time_sec bs offset set_id set_length source_id st =
     (if set_id = 2
      then process_ipfix_data_template_set env bs offset set_length source_id (nf_bump ''ipfix_data_templates_number'' st)
      else if set_id = 3
      then process_ipfix_options_template_set env bs offset set_length source_id (nf_bump ''ipfix_options_templates_number'' st)
      else if set_id < 256 then Done (True, st)
      else process_ipfix_data_set env time_sec bs offset set_length source_id (nf_bump ''ipfix_data_packet_number'' st))"

text \<open>The loop over the sets of a packet, of which \<open>n\<close> may still be read.\<close>

fun process_ipfix_sets ::
    "nat \<Rightarrow> netflow_environment \<Rightarrow> u32 \<Rightarrow> bytes \<Rightarrow> nat \<Rightarrow> nat \<Rightarrow> u32 \<Rightarrow> netflow_state \<Rightarrow> (bool \<times> netflow_state) outcome" where
  "process_ipfix_sets 0 env time_sec bs offset ipfix_packet_length source_id st = Done (False, st)"
| "process_ipfix_sets (Suc n) env time_sec bs offset ipfix_packet_length source_id st =
     (if offset \<ge> ipfix_packet_length then Done (False, st)
      else if offset + 4 > ipfix_packet_length then Done (False, st)
      else and_then (deref 4 (\<lambda>d. (be16_at d 0, unat (be16_at d 2))) bs offset) (\<lambda>(set_id, set_length).
        if offset + set_length > ipfix_packet_length then Done (False, st)
        else and_then (process_ipfix_set env time_sec bs offset set_id set_length source_id st) (\<lambda>(ok, st).
          if \<not> ok then Done (False, st)
          else if offset + set_length = ipfix_packet_length then Done (True, st)
          else process_ipfix_sets n env time_sec bs (offset + set_length) ipfix_packet_length source_id st)))"

definition process_ipfix_packet :: "netflow_environment \<Rightarrow> bytes \<Rightarrow> netflow_state \<Rightarrow> (bool \<times> netflow_state) outcome" where
  "process_ipfix_packet env bs st =
     (let st = nf_bump ''ipfix_total_packets'' st
      in if length bs < 16 then Done (False, st)
         else and_then (deref 16 (\<lambda>d. (unat (be16_at d 2), be32_at d 4, be32_at d 12)) bs 0)
           (\<lambda>(ipfix_packet_length, time_sec, source_id).
           let st = (if length bs > ipfix_packet_length then nf_bump ''ipfix_packets_with_padding'' st else st)
           in if length bs < ipfix_packet_length then Done (False, st)
              else process_ipfix_sets sets_per_packet_maximum_number env time_sec bs 16 ipfix_packet_length source_id st))"

end
