(* ===== verification/Flow_Fields.thy ===== *)
theory Flow_Fields
  imports Netflow_V9
begin

text \<open>
  Rules for the fields of a flow that NetFlow v9 and IPFIX share. Reading a field is never undefined by itself; two later computations
  are: the difference of the times of a flow, and the sampling rate of a device that reports how many packets it selected. A flow is calm
  while neither can happen, and an action is calm when it keeps a flow calm and leaves the last variable length alone.
\<close>

definition calm_time :: "int \<Rightarrow> bool" where
  "calm_time t \<longleftrightarrow> - (2 ^ 62) \<le> t \<and> t < 2 ^ 62"

definition calm_flow :: "simple_packet_t \<Rightarrow> netflow_meta_info_t \<Rightarrow> bool" where
  "calm_flow packet flow_meta \<longleftrightarrow> calm_time (flow_start packet) \<and> calm_time (flow_end packet) \<and> selected_packets flow_meta = 0"

definition calm :: "flow_decoding \<Rightarrow> bool" where
  "calm fl \<longleftrightarrow> calm_flow (dec_packet fl) (dec_meta fl)"

lemmas calm_defs = calm_def calm_flow_def

definition calm_next :: "flow_decoding \<Rightarrow> flow_decoding \<Rightarrow> bool" where
  "calm_next fl fl' \<longleftrightarrow> (calm fl \<longrightarrow> calm fl')
     \<and> variable_field_length_encoding (dec_meta fl') = variable_field_length_encoding (dec_meta fl)"

definition calm_action :: "field_action \<Rightarrow> bool" where
  "calm_action a \<longleftrightarrow> (case a of No_read f \<Rightarrow> \<forall>fl. calm_next fl (f fl) | Read_field f \<Rightarrow> \<forall>d fl. ends (calm_next fl) (f d fl))"

lemma calm_counted [simp]: "calm_next fl (counted_as c fl')  \<longleftrightarrow> calm_next fl fl'" "calm_next (counted_as c fl) fl'  \<longleftrightarrow> calm_next fl fl'"
  by (simp_all add: calm_next_def calm_defs counted_as_def)

lemma calm_next_refl [simp]: "calm_next fl fl"
  by (simp add: calm_next_def)

lemma calm_actions [simp]:
  "calm_action (No_read (counted_as c))"
  "calm_action (No_read (counted_as c \<circ> counted_as c'))"
  "calm_action (No_read id)"
  by (simp_all add: calm_action_def)

lemma calm_packet_field:
  assumes "\<And>d p. (flow_start (f d p) = flow_start p \<or> calm_time (flow_start (f d p)))
    \<and> (flow_end (f d p) = flow_end p \<or> calm_time (flow_end (f d p)))"
  shows "calm_action (packet_field f)"
  unfolding calm_action_def packet_field_def calm_next_def calm_defs using assms by (auto simp: ends_def) metis+

lemma calm_meta_field:
  "(\<And>d m. selected_packets (f d m) = selected_packets m \<and> variable_field_length_encoding (f d m) = variable_field_length_encoding m) \<Longrightarrow>
    calm_action (meta_field f)"
  by (auto simp: calm_action_def meta_field_def calm_next_def calm_defs)

lemma parser_ends: "ends (\<lambda>_. True) (parse_raw_packet_to_simple_packet_full d k q c)"
  using parsers_done(1) by (simp add: ends_def)

lemma calm_first_case: "\<forall>c \<in> set cs. \<forall>a. c t n = Some a \<longrightarrow> calm_action a \<Longrightarrow> calm_action (first_case cs t n)"
  by (induction cs) (auto split: option.split)

lemma calm_apply_field: "calm_action a \<Longrightarrow> i + n \<le> length bs \<Longrightarrow> ends (calm_next fl) (apply_field a bs i n fl)"
  by (auto simp: calm_action_def apply_field_def split: field_action.splits)

lemma uint_below: "0 \<le> uint (w :: u32)" "uint (w :: u32) < 4294967296"
  using uint_lt2p [of w] by simp_all

lemma calm_uint [simp]: "calm_time (uint (w :: u32))"
proof -
  have "- 4611686018427387904 \<le> uint w" "uint w < 4611686018427387904"
    using uint_below [of w] by linarith+
  then show ?thesis
    by (simp add: calm_time_def)
qed

lemma calm_zero [simp]: "calm_time 0"
  by (simp add: calm_time_def)

lemma calm_difference: "calm_time a \<Longrightarrow> calm_time b \<Longrightarrow> minus_int64 a b = Done (a - b)"
  by (auto simp: calm_time_def minus_int64_def)

end
