(* ===== verification/Template_Store.thy ===== *)
theory Template_Store
  imports Netflow_Base
begin

text \<open>
  What the receivers of NetFlow v9 and IPFIX rely on about the storage of templates: a template that was added is found under its
  device, source and number, and no other one changes. The interpretation discharges this for
  \<open>peer_find_template\<close> and \<open>add_update_peer_template\<close>; that different devices never share an entry rests on the keys, which
  are texts.
\<close>

section \<open>The contract\<close>

locale template_store =
  fixes find_template :: "'s \<Rightarrow> 'k \<Rightarrow> template_t option"
    and add_template :: "'s \<Rightarrow> 'k \<Rightarrow> template_t \<Rightarrow> 's"
    and store_invar :: "'s \<Rightarrow> bool"
  assumes invar_add: "store_invar s \<Longrightarrow> store_invar (add_template s k t)"
    and find_added: "store_invar s \<Longrightarrow> \<exists>t'. find_template (add_template s k t) k = Some t' \<and> template_eq t' t"
    and find_other: "store_invar s \<Longrightarrow> k' \<noteq> k \<Longrightarrow> find_template (add_template s k t) k' = find_template s k'"
begin

definition stored_all :: "(template_t \<Rightarrow> bool) \<Rightarrow> 's \<Rightarrow> bool" where
  "stored_all P s \<longleftrightarrow> store_invar s \<and> (\<forall>k t. find_template s k = Some t \<longrightarrow> P t)"

lemma stored_allD: "stored_all P s \<Longrightarrow> find_template s k = Some t \<Longrightarrow> P t"
  by (auto simp: stored_all_def)

lemma stored_all_add:
  assumes "stored_all P s" "P t" "\<And>t t'. template_eq t' t \<Longrightarrow> P t \<Longrightarrow> P t'"
  shows "stored_all P (add_template s k t)"
  unfolding stored_all_def
proof (intro conjI allI impI)
  show "store_invar (add_template s k t)"
    using assms(1) by (simp add: stored_all_def invar_add)
  fix k' t'
  assume found: "find_template (add_template s k t) k' = Some t'"
  show "P t'"
  proof (cases "k' = k")
    case True
    then show ?thesis
      using found find_added [of s k t] assms by (auto simp: stored_all_def)
  next
    case False
    then show ?thesis
      using found find_other [of s k' k t] assms(1) by (auto simp: stored_all_def)
  qed
qed

end

section \<open>The keys\<close>

lemma underscore_not_digit: "CHR ''_'' \<notin> set (dec_string n)"
  using dec_string_digits [of n] by (auto simp: list_all_iff is_digit_def)

lemma template_key_inject: "template_key c s = template_key c' s' \<longleftrightarrow> c = c' \<and> s = s'"
proof
  have split_last: "xs @ [a] @ ys = xs' @ [a] @ ys' \<Longrightarrow> a \<notin> set ys \<Longrightarrow> a \<notin> set ys' \<Longrightarrow> xs = xs' \<and> ys = ys'"
    for a :: char and xs ys xs' ys'
    by (auto simp: append_eq_append_conv2 append_eq_Cons_conv Cons_eq_append_conv)
  assume "template_key c s = template_key c' s'"
  then have "c = c' \<and> dec_string (unat s) = dec_string (unat s')"
    unfolding template_key_def by (intro split_last) (auto simp: underscore_not_digit)
  then show "c = c' \<and> s = s'"
    by (simp add: dec_string_inj word_unat_eq_iff)
qed simp

section \<open>The model keeps the contract\<close>

type_synonym template_address = "string \<times> u32 \<times> u32"

definition find_stored :: "template_table \<Rightarrow> template_address \<Rightarrow> template_t option" where
  "find_stored table k = (case k of (client, source_id, tid) \<Rightarrow> peer_find_template table source_id tid client)"

definition add_stored :: "template_table \<Rightarrow> template_address \<Rightarrow> template_t \<Rightarrow> template_table" where
  "add_stored table k t = (case k of (client, source_id, tid) \<Rightarrow> snd (add_update_peer_template table source_id tid client t))"

definition table_ok :: "template_table \<Rightarrow> bool" where
  "table_ok table \<longleftrightarrow> ordered table \<and> (\<forall>key templates. map_find table key = Some templates \<longrightarrow> ordered templates)"

lemma table_ok_Nil [simp]: "table_ok []"
  by (simp add: table_ok_def)

lemma template_eq_refl [simp]: "template_eq t t"
  by (simp add: template_eq_def)

lemma table_ok_put: "table_ok table \<Longrightarrow> ordered templates \<Longrightarrow> table_ok (map_put key templates table)"
  by (auto simp: table_ok_def map_find_put ordered_map_put split: if_splits)

lemma find_put_templates:
  assumes "table_ok table" "templates = (case map_find table (template_key client source_id) of None \<Rightarrow> [] | Some m \<Rightarrow> m)"
  shows "peer_find_template (map_put (template_key client source_id) (map_put tid t templates) table) source_id' tid' client'
    = (if (client', source_id', tid') = (client, source_id, tid) then Some t else peer_find_template table source_id' tid' client')"
proof -
  have "ordered templates"
    using assms by (auto simp: table_ok_def split: option.split)
  then show ?thesis
    using assms by (auto simp: peer_find_template_def map_find_put table_ok_def template_key_inject split: option.split)
qed

interpretation templates: template_store find_stored add_stored table_ok
proof
  fix table :: template_table and k k' :: template_address and t :: template_t
  assume ok: "table_ok table"
  obtain client source_id tid where k: "k = (client, source_id, tid)"
    by (cases k)
  let ?key = "template_key client source_id"
  have ordered: "ordered templates" if "map_find table ?key = Some templates" for templates
    using ok that by (auto simp: table_ok_def)
  show "table_ok (add_stored table k t)"
    using ok ordered by (auto simp: k add_stored_def add_update_peer_template_def Let_def table_ok_put ordered_map_put split: option.split)
  show "\<exists>t'. find_stored (add_stored table k t) k = Some t' \<and> template_eq t' t"
    using find_put_templates [OF ok refl, of client source_id tid t source_id tid client]
    by (auto simp: k add_stored_def find_stored_def add_update_peer_template_def Let_def split: option.split)
      (auto simp: peer_find_template_def)
  show "k' \<noteq> k \<Longrightarrow> find_stored (add_stored table k t) k' = find_stored table k'"
    using find_put_templates [OF ok refl, of client source_id tid t]
    by (cases k') (auto simp: k add_stored_def find_stored_def add_update_peer_template_def Let_def split: option.split)
qed

section \<open>Devices do not interfere\<close>

text \<open>The templates of all devices but one are the same.\<close>

definition same_elsewhere :: "string \<Rightarrow> template_table \<Rightarrow> template_table \<Rightarrow> bool" where
  "same_elsewhere client table table' \<longleftrightarrow> (\<forall>client' source_id tid. client' \<noteq> client \<longrightarrow>
     peer_find_template table' source_id tid client' = peer_find_template table source_id tid client')"

lemma same_elsewhere_refl [simp]: "same_elsewhere client table table"
  by (simp add: same_elsewhere_def)

lemma same_elsewhere_trans: "same_elsewhere client t1 t2 \<Longrightarrow> same_elsewhere client t2 t3 \<Longrightarrow> same_elsewhere client t1 t3"
  by (simp add: same_elsewhere_def)

lemma same_elsewhere_add: "table_ok table \<Longrightarrow> same_elsewhere client table (add_stored table (client, source_id, tid) t)"
  using templates.find_other [of table "(client', s, i)" "(client, source_id, tid)" t for client' s i]
  by (auto simp: same_elsewhere_def find_stored_def)

end
