(* ===== verification/Netflow_V9_Spec.thy ===== *)
theory Netflow_V9_Spec
  imports Flow_Fields Template_Store
begin

text \<open>
  What the receiver of NetFlow v9 guarantees: an invariant of the templates it keeps, memory safety that rests on it, the
  flows of well-formed datagrams, and the places where the code departs from its intent.
\<close>

section \<open>Stored templates\<close>

text \<open>A template fits the records that are cut out for it.\<close>

definition v9_template_ok :: "template_t \<Rightarrow> bool" where
  "v9_template_ok t \<longleftrightarrow> total_length t \<noteq> 0 \<and> total_length t = option_scope_length t + total_record_length (template_records t)
     \<and> num_records t = length (template_records t) \<and> \<not> ipfix_variable_length_elements_used t
     \<and> (template_type t = Data \<and> option_scope_length t = 0 \<or> template_type t = Options)"

definition v9_templates_ok :: "netflow_state \<Rightarrow> bool" where
  "v9_templates_ok st \<longleftrightarrow> templates.stored_all v9_template_ok (global_netflow9_templates st)"

lemma v9_template_found_ok:
  "v9_templates_ok st \<Longrightarrow> peer_find_template (global_netflow9_templates st) source_id tid client = Some t \<Longrightarrow> v9_template_ok t"
  using templates.stored_allD [of v9_template_ok "global_netflow9_templates st" "(client, source_id, tid)"]
  by (simp add: v9_templates_ok_def find_stored_def)

lemma v9_templates_ok_bump [simp]: "v9_templates_ok (nf_bump c st) \<longleftrightarrow> v9_templates_ok st"
  by (simp add: v9_templates_ok_def nf_bump_def)

lemma template_eq_ok: "template_eq t' t \<Longrightarrow> v9_template_ok t \<Longrightarrow> v9_template_ok t'"
  by (auto simp: template_eq_def v9_template_ok_def)

lemma store_netflow9_template_adds:
  "global_netflow9_templates (store_netflow9_template env source_id t st)
    = add_stored (global_netflow9_templates st) (client_address env, source_id, ucast (template_id t)) t"
  by (auto simp: store_netflow9_template_def add_stored_def nf_bump_def add_update_peer_template_def Let_def
      split: template_update.split prod.split option.split)

lemma store_netflow9_template_ok:
  "v9_templates_ok st \<Longrightarrow> v9_template_ok t \<Longrightarrow> v9_templates_ok (store_netflow9_template env source_id t st)"
  using templates.stored_all_add [OF _ _ template_eq_ok] by (auto simp: v9_templates_ok_def store_netflow9_template_adds)

lemma store_netflow9_template_elsewhere:
  "v9_templates_ok st \<Longrightarrow> same_elsewhere (client_address env) (global_netflow9_templates st)
     (global_netflow9_templates (store_netflow9_template env source_id t st))"
  by (simp add: store_netflow9_template_adds same_elsewhere_add v9_templates_ok_def templates.stored_all_def)

lemma store_netflow9_template_keeps [simp]:
  "netflow_processed (store_netflow9_template env source_id t st) = netflow_processed st"
  "global_ipfix_templates (store_netflow9_template env source_id t st) = global_ipfix_templates st"
  by (auto simp: store_netflow9_template_def nf_bump_def split: template_update.split prod.split)

lemma v9_options_records_length: "v9_options_records bs i e n = Done (Some rs) \<Longrightarrow> length rs = n"
  by (induction bs i e n arbitrary: rs rule: v9_options_records.induct) (auto simp: and_then_Done_iff split: if_splits)

text \<open>Whatever is returned, the stored templates are sound and no packet has been handed on.\<close>

definition only_templates :: "netflow_environment \<Rightarrow> netflow_state \<Rightarrow> (bool \<times> netflow_state) outcome \<Rightarrow> bool" where
  "only_templates env st = returns (\<lambda>(ok, st'). v9_templates_ok st' \<and> netflow_processed st' = netflow_processed st
     \<and> global_ipfix_templates st' = global_ipfix_templates st
     \<and> same_elsewhere (client_address env) (global_netflow9_templates st) (global_netflow9_templates st'))"

lemma process_options_template_keeps:
  assumes "v9_templates_ok st"
  shows "only_templates env st (process_netflow_v9_options_template env bs pkt l source_id st)"
  using assms
  by (auto simp: process_netflow_v9_options_template_def Let_def store_netflow9_template_ok v9_template_ok_def only_templates_def
      intro!: returns_bind store_netflow9_template_elsewhere split: option.split)

lemma v9_templates_loop_keeps:
  "v9_templates_ok st \<Longrightarrow> only_templates env st (v9_templates_loop env bs pkt offset l source_id st)"
proof (induction env bs pkt offset l source_id st rule: v9_templates_loop.induct)
  case (1 env bs pkt offset l source_id st)
  have keeps: "only_templates env st (v9_templates_loop env bs pkt j l source_id st1)"
    if "offset < l" "total_record_length rs \<noteq> 0" "v9_template_records bs pkt (offset + 4) l n = Done (Some (rs, j))"
      "st1 = store_netflow9_template env source_id \<lparr>template_id = tid, num_records = n, total_length = total_record_length rs,
          option_scope_length = 0, ipfix_variable_length_elements_used = False, timestamp = netflow_current_time env,
          template_type = Data, template_records = rs\<rparr> st"
      "deref 4 (\<lambda>d. (be16_at d 0, unat (be16_at d 2))) bs (pkt + offset) = Done (tid, n)" for tid n rs j st1
  proof -
    have "v9_templates_ok st1"
      unfolding that(4) using v9_template_records_length [OF that(3)] that(2) "1.prems"
      by (intro store_netflow9_template_ok) (simp_all add: v9_template_ok_def)
    then have again: "only_templates env st1 (v9_templates_loop env bs pkt j l source_id st1)"
      using "1.IH" [OF that(1,5) refl that(3) refl refl that(2)] by (simp add: that(4))
    have "same_elsewhere (client_address env) (global_netflow9_templates st) (global_netflow9_templates st1)"
      unfolding that(4) by (rule store_netflow9_template_elsewhere [OF "1.prems"])
    from same_elsewhere_trans [OF this] show ?thesis
      unfolding only_templates_def by (intro returns_mono [OF again [unfolded only_templates_def]]) (auto simp: that(4))
  qed
  show ?case
    using "1.prems" by (subst v9_templates_loop.simps) (auto simp: only_templates_def intro!: returns_bind keeps [unfolded only_templates_def] split: option.split)
qed

lemma process_template_keeps:
  "v9_templates_ok st \<Longrightarrow> only_templates env st (process_netflow_v9_template env bs pkt l source_id st)"
  using v9_templates_loop_keeps by (auto simp: process_netflow_v9_template_def only_templates_def intro!: returns_bind)

section \<open>Flows and options\<close>

text \<open>At most \<open>n\<close> packets are handed on and the templates stay.\<close>

definition adds_packets :: "nat \<Rightarrow> netflow_state \<Rightarrow> netflow_state \<Rightarrow> bool" where
  "adds_packets n st st' \<longleftrightarrow> global_netflow9_templates st' = global_netflow9_templates st
     \<and> global_ipfix_templates st' = global_ipfix_templates st
     \<and> (\<exists>ps. netflow_processed st' = netflow_processed st @ ps \<and> length ps \<le> n)"

lemma adds_packets_refl [simp]: "adds_packets n st st"
  by (simp add: adds_packets_def)

lemma adds_packets_mono: "adds_packets n st st' \<Longrightarrow> n \<le> m \<Longrightarrow> adds_packets m st st'"
  by (auto simp: adds_packets_def)

lemma adds_packets_trans: "adds_packets n st st' \<Longrightarrow> adds_packets m st' st'' \<Longrightarrow> adds_packets (n + m) st st''"
  by (fastforce simp: adds_packets_def)

lemma adds_packets_simps [simp]:
  "adds_packets n (nf_bump c st) st' \<longleftrightarrow> adds_packets n st st'"
  "adds_packets n st (nf_bump c st') \<longleftrightarrow> adds_packets n st st'"
  "adds_packets n st (st'\<lparr>netflow_metrics := ms\<rparr>) \<longleftrightarrow> adds_packets n st st'"
  "adds_packets n st (st'\<lparr>netflow_v9_per_device_flow_timeouts := timeouts\<rparr>) \<longleftrightarrow> adds_packets n st st'"
  "adds_packets n st (update_netflow_v9_sampling_rate r client st') \<longleftrightarrow> adds_packets n st st'"
  by (auto simp: adds_packets_def update_netflow_v9_sampling_rate_def Let_def nf_bump_def)

lemma adds_packets_durations [simp]:
  "adds_packets n st (increment_duration_counters_netflow_v9 d st') \<longleftrightarrow> adds_packets n st st'"
  unfolding increment_duration_counters_netflow_v9_def by (rule adds_packets_simps)

lemma adds_packets_process: "adds_packets n st st' \<Longrightarrow> n < m \<Longrightarrow> adds_packets m st (nf_process p st')"
  by (auto simp: adds_packets_def nf_process_def)

lemma adds_packets_ok: "adds_packets n st st' \<Longrightarrow> v9_templates_ok st' \<longleftrightarrow> v9_templates_ok st"
  by (simp add: adds_packets_def v9_templates_ok_def)

lemma netflow9_record_to_flow_keeps: "returns (\<lambda>(_, _, st'). adds_packets 0 st st') (netflow9_record_to_flow client r bs i packet m st)"
  by (auto simp: netflow9_record_to_flow_def intro!: returns_bind)

lemma netflow9_fields_keep: "returns (\<lambda>(_, _, st'). adds_packets 0 st st') (netflow9_fields client rs bs i packet m st)"
proof (induction rs arbitrary: i packet m st)
  case (Cons r rs)
  have "returns (\<lambda>(_, _, st'). adds_packets 0 st st') (netflow9_fields client rs bs j packet' m' st1)"
    if "adds_packets 0 st st1" for j packet' m' st1
    using adds_packets_trans [OF that, of 0] by (auto intro: returns_mono [OF Cons.IH])
  then show ?case
    by (auto intro!: returns_bind' [OF netflow9_record_to_flow_keeps])
qed simp

lemma netflow9_adjust_version_keeps:
  "netflow9_adjust_version packet st' = (packet', st'') \<Longrightarrow> adds_packets n st st'' \<longleftrightarrow> adds_packets n st st'"
  by (auto simp: netflow9_adjust_version_def split: if_splits)

lemma netflow9_flowset_to_store_keeps: "returns (adds_packets 2 st) (netflow9_flowset_to_store env t bs i rs st)"
proof -
  have two: "adds_packets 2 st st1" "adds_packets 2 st (nf_process p st1)" "adds_packets 2 st (nf_process q (nf_process p st1))"
    if "adds_packets 0 st st1" for p q st1
    using adds_packets_mono [OF that, of 2] adds_packets_process [OF that, of 1 p] adds_packets_process [OF that, of 2 p] adds_packets_process [of 1 st _ 2 q] by simp_all
  show ?thesis
    unfolding netflow9_flowset_to_store_def Let_def
    by (intro returns_bind' [OF netflow9_fields_keep])
      (auto simp: netflow9_adjust_version_keeps intro!: returns_bind two intro: adds_packets_mono split: prod.split)
qed

lemma v9_options_store_keeps: "returns (adds_packets 0 st) (netflow9_options_flowset_to_store env bs i t st)"
  by (auto simp: netflow9_options_flowset_to_store_def Let_def intro!: returns_bind)

lemma v9_each_record_keeps:
  assumes "\<And>i st. returns (adds_packets m st) (store i st)"
  shows "returns (\<lambda>(_, st'). adds_packets (n * m) st st') (v9_each_record store l e i n st)"
proof (induction n arbitrary: i st)
  case (Suc n)
  have "returns (\<lambda>(_, st'). adds_packets (Suc n * m) st st') (v9_each_record store l e j n st1)" if "adds_packets m st st1" for j st1
    using adds_packets_trans [OF that] by (auto intro: returns_mono [OF Suc.IH])
  then show ?case
    by (auto intro: returns_bind' [OF assms])
qed simp

lemma process_netflow_v9_data_keeps:
  "returns (\<lambda>(_, st'). adds_packets 512 st st') (process_netflow_v9_data env bs pkt l time_sec source_id st)"
proof -
  have "returns (\<lambda>(_, st'). adds_packets 512 st st') (v9_each_record (\<lambda>i. netflow9_flowset_to_store env time_sec bs i rs) k e i n st)"
    if "n \<le> 256" for rs k e i n
    using that by (intro returns_mono [OF v9_each_record_keeps [OF netflow9_flowset_to_store_keeps]]) (auto intro: adds_packets_mono)
  moreover have "returns (\<lambda>(_, st'). adds_packets 512 st st') (v9_each_record (\<lambda>i. netflow9_options_flowset_to_store env bs i t) k e i n (nf_bump c st))"
    for t k e i n c
    by (intro returns_mono [OF v9_each_record_keeps [OF v9_options_store_keeps]]) (auto intro: adds_packets_mono)
  ultimately show ?thesis
    by (auto simp: process_netflow_v9_data_def Let_def flows_per_packet_maximum_number_def intro!: returns_bind
        split: option.split netflow_template_type_t.split)
qed

section \<open>The invariant\<close>

text \<open>The stored templates are sound and at most \<open>n\<close> packets have been handed on.\<close>

definition v9_sound_after :: "netflow_environment \<Rightarrow> nat \<Rightarrow> netflow_state \<Rightarrow> netflow_state \<Rightarrow> bool" where
  "v9_sound_after env n st st' \<longleftrightarrow> v9_templates_ok st' \<and> global_ipfix_templates st' = global_ipfix_templates st
     \<and> same_elsewhere (client_address env) (global_netflow9_templates st) (global_netflow9_templates st')
     \<and> (\<exists>ps. netflow_processed st' = netflow_processed st @ ps \<and> length ps \<le> n)"

lemma v9_sound_after_trans: "v9_sound_after env n st st' \<Longrightarrow> v9_sound_after env m st' st'' \<Longrightarrow> v9_sound_after env (n + m) st st''"
  by (fastforce simp: v9_sound_after_def intro: same_elsewhere_trans)

lemma v9_sound_after_mono: "v9_sound_after env n st st' \<Longrightarrow> n \<le> m \<Longrightarrow> v9_sound_after env m st st'"
  by (auto simp: v9_sound_after_def)

lemma v9_sound_after_refl [simp]: "v9_sound_after env n st st \<longleftrightarrow> v9_templates_ok st"
  by (simp add: v9_sound_after_def)

lemma v9_sound_after_bump [simp]:
  "v9_sound_after env n (nf_bump c st) st' \<longleftrightarrow> v9_sound_after env n st st'"
  "v9_sound_after env n st (nf_bump c st') \<longleftrightarrow> v9_sound_after env n st st'"
  by (simp_all add: v9_sound_after_def)

lemma only_templates_sound:
  "only_templates env (nf_bump c st) res \<Longrightarrow> returns (\<lambda>(_, st'). v9_sound_after env 512 st st') res"
  by (auto simp: only_templates_def v9_sound_after_def returns_def)

lemma process_netflow_v9_flowset_keeps:
  assumes "v9_templates_ok st"
  shows "returns (\<lambda>(_, st'). v9_sound_after env 512 st st') (process_netflow_v9_flowset env bs offset flowset_id l time_sec source_id st)"
proof -
  have "v9_sound_after env 512 st st'" if "adds_packets 512 (nf_bump c st) st'" for c st'
    using that assms adds_packets_ok [OF that] by (auto simp: adds_packets_def v9_sound_after_def)
  then have "returns (\<lambda>(_, st'). v9_sound_after env 512 st st')
      (and_then (process_netflow_v9_data env bs offset l time_sec source_id (nf_bump c st))
        (\<lambda>(ok, st). if ok then Done (True, st) else Done (False, nf_bump c' st)))" for c c'
    by (intro returns_bind' [OF process_netflow_v9_data_keeps]) auto
  with assms show ?thesis
    unfolding process_netflow_v9_flowset_def
    by (simp add: only_templates_sound [OF process_template_keeps] only_templates_sound [OF process_options_template_keeps])
qed

lemma v9_flowsets_loop_keeps:
  "v9_templates_ok st \<Longrightarrow> returns (\<lambda>(_, st'). v9_sound_after env (n * 512) st st') (v9_flowsets_loop env bs time_sec source_id offset n st)"
proof (induction n arbitrary: offset st)
  case (Suc n)
  note IH = returns_mono [OF Suc.IH]
  have again: "returns (\<lambda>(_, st'). v9_sound_after env (Suc n * 512) st st') (v9_flowsets_loop env bs time_sec source_id j n st1)"
    if "v9_sound_after env 512 st st1" for j st1
    using that by (intro IH) (auto simp: v9_sound_after_def intro: same_elsewhere_trans)
  have same: "v9_sound_after env 512 st st"
    using Suc.prems by simp
  show ?case
    using again [OF same] again v9_sound_after_mono [of env 512 st _ "Suc n * 512"] Suc.prems
    by (auto intro!: returns_bind returns_bind' [OF process_netflow_v9_flowset_keeps [OF Suc.prems]])
qed simp

lemma v9_templates_ok_init [simp]: "v9_templates_ok netflow_init"
  by (simp add: v9_templates_ok_def templates.stored_all_def netflow_init_def find_stored_def peer_find_template_def)

lemma process_netflow_packet_v9_keeps:
  assumes "v9_templates_ok st"
  shows "returns (\<lambda>(_, st'). v9_sound_after env 131072 st st') (process_netflow_packet_v9 env bs st)"
proof -
  have "returns (\<lambda>(_, st'). v9_sound_after env 131072 st st') (v9_flowsets_loop env bs t s 20 n (nf_bump c st))" if "n \<le> 256" for t s n c
    using that assms by (intro returns_mono [OF v9_flowsets_loop_keeps]) (auto intro: v9_sound_after_mono)
  with assms show ?thesis
    by (auto simp: process_netflow_packet_v9_def Let_def sets_per_packet_maximum_number_def intro!: returns_bind)
qed

section \<open>Memory safety\<close>

text \<open>The types of the fields that can make a later computation overflow.\<close>

definition risky_types :: "u32 list" where
  "risky_types = [152, 153, 319]"

lemma calm_v9_too_large [simp]: "calm_action v9_too_large"
  by (simp add: v9_too_large_def)

lemma calm_parse_section: "calm_action (v9_parse_section n)"
  unfolding calm_action_def v9_parse_section_def field_action.case Let_def
  by (intro allI impI ends_bind [OF parser_ends]) (simp add: calm_next_def calm_defs counted_as_def split: prod.split)

lemma calm_volume: "v9_volume_field t n = Some a \<Longrightarrow> calm_action a"
  by (auto simp: v9_volume_field_def set_in_bytes_def set_in_packets_def set_protocol_def Let_def intro!: calm_packet_field split: if_splits)

lemma calm_endpoint: "v9_endpoint_field t n = Some a \<Longrightarrow> calm_action a"
  by (auto simp: v9_endpoint_field_def set_source_port_def set_destination_port_def intro!: calm_packet_field split: if_splits)

lemma calm_routing: "v9_routing_field t n = Some a \<Longrightarrow> calm_action a"
  by (auto simp: v9_routing_field_def intro!: calm_packet_field split: if_splits)

lemma calm_interface: "v9_interface_field t n = Some a \<Longrightarrow> calm_action a"
  by (auto simp: v9_interface_field_def intro!: calm_packet_field split: if_splits)

lemma calm_status: "v9_status_field t n = Some a \<Longrightarrow> t \<notin> set risky_types \<Longrightarrow> calm_action a"
  by (auto simp: v9_status_field_def risky_types_def calm_action_def [of "Read_field f" for f] calm_next_def calm_defs counted_as_def split: if_splits)

lemma calm_lite: "v9_lite_field t n = Some a \<Longrightarrow> t \<notin> set risky_types \<Longrightarrow> calm_action a"
  by (auto simp: v9_lite_field_def risky_types_def calm_parse_section intro!: calm_meta_field split: if_splits)

lemma calm_next_hop: "v9_next_hop_field t n = Some a \<Longrightarrow> calm_action a"
  by (auto simp: v9_next_hop_field_def intro!: calm_meta_field split: if_splits)

lemma calm_asa: "v9_asa_field t n = Some a \<Longrightarrow> calm_action a"
  by (auto simp: v9_asa_field_def intro!: calm_meta_field split: if_splits)

lemma calm_vendor: "v9_vendor_field t n = Some a \<Longrightarrow> calm_action a"
  by (auto simp: v9_vendor_field_def set_total_bytes_def calm_action_def [of "Read_field f" for f] calm_next_def calm_defs counted_as_def
      intro!: calm_packet_field split: if_splits)

lemmas calm_groups = calm_volume calm_endpoint calm_routing calm_interface calm_status calm_lite calm_next_hop calm_asa calm_vendor

lemma calm_netflow9_field: "t \<notin> set risky_types \<Longrightarrow> calm_action (netflow9_field t n)"
  unfolding netflow9_field_def using calm_groups by (intro calm_first_case) auto

lemma netflow9_fields_end:
  assumes "i + total_record_length rs \<le> length bs" "list_all (\<lambda>r. record_type r \<notin> set risky_types) rs" "calm_flow packet m"
  shows "ends (\<lambda>(packet', m', _). calm_flow packet' m') (netflow9_fields client rs bs i packet m st)"
  using assms
proof (induction rs arbitrary: i packet m st)
  case (Cons r rs)
  let ?fl = "\<lparr>dec_packet = packet, dec_meta = m, dec_sampling_rate = 0, dec_metrics = netflow_metrics st\<rparr>"
  have "ends (calm_next ?fl) (apply_field (netflow9_field (record_type r) (record_length r)) bs i (record_length r) ?fl)"
    using Cons.prems(1,2) by (intro calm_apply_field calm_netflow9_field) (auto simp: total_record_length_def)
  then have "ends (\<lambda>(packet', m', _). calm_flow packet' m') (netflow9_record_to_flow client r bs i packet m st)"
    unfolding netflow9_record_to_flow_def using Cons.prems(3) by (elim ends_bind) (simp add: calm_next_def calm_def)
  then show ?case
    using Cons.IH Cons.prems(1,2) by (auto simp: total_record_length_def add.assoc elim!: ends_bind)
qed simp

lemma netflow9_flowset_to_store_end:
  assumes "i + total_record_length rs \<le> length bs" "list_all (\<lambda>r. record_type r \<notin> set risky_types) rs"
  shows "ends (\<lambda>_. True) (netflow9_flowset_to_store env t bs i rs st)"
proof -
  have nested: "ends (\<lambda>packet'. calm_flow packet' m) (apply_nested_packet packet m)" if "calm_flow packet m" for packet m
    using that by (auto simp: apply_nested_packet_def Let_def calm_flow_def override_packet_fields_from_nested_packet_def)
  have adjusted: "calm_flow packet' m" if "calm_flow packet m" "netflow9_adjust_version packet st = (packet', st')" for packet packet' m st st'
    using that by (auto simp: netflow9_adjust_version_def calm_flow_def split: if_splits)
  have duration: "ends (\<lambda>_. True) (minus_int64 (flow_end packet) (flow_start packet))" if "calm_flow packet m" for packet m
    using that by (simp add: calm_flow_def calm_difference)
  show ?thesis
    unfolding netflow9_flowset_to_store_def Let_def
    by (rule ends_bind [OF netflow9_fields_end [OF assms]])
      (auto simp: calm_flow_def simple_packet_default_def netflow_meta_info_default_def
        intro!: ends_bind [OF nested] ends_bind [OF duration [OF adjusted]] split: prod.split)
qed

lemma v9_options_fields_end:
  "i + total_record_length rs \<le> length bs \<Longrightarrow> ends (\<lambda>_. True) (v9_options_fields rs bs i opt)"
proof (induction rs arbitrary: i opt)
  case (Cons r rs)
  have inside: "i + record_length r \<le> length bs"
    using Cons.prems by (simp add: total_record_length_def)
  then have "ends (\<lambda>_. True) (v9_options_field r bs i opt)"
    by (auto simp: v9_options_field_def Let_def strnlen_def)
  then show ?case
    using Cons.IH Cons.prems by (auto simp: total_record_length_def add.assoc elim!: ends_bind)
qed simp

lemma v9_options_store_end:
  "i + option_scope_length t + total_record_length (template_records t) \<le> length bs \<Longrightarrow>
    ends (\<lambda>_. True) (netflow9_options_flowset_to_store env bs i t st)"
  by (auto simp: netflow9_options_flowset_to_store_def Let_def intro!: ends_bind [OF v9_options_fields_end])

lemma v9_each_record_end:
  assumes "\<And>i st. i + l \<le> e \<Longrightarrow> ends (\<lambda>_. True) (store i st)"
  shows "ends (\<lambda>_. True) (v9_each_record store l e i n st)"
  by (induction n arbitrary: i st) (auto intro!: ends_bind [OF assms])

definition calm_template :: "template_t \<Rightarrow> bool" where
  "calm_template t \<longleftrightarrow> (template_type t = Data \<longrightarrow> list_all (\<lambda>r. record_type r \<notin> set risky_types) (template_records t))"

lemma process_netflow_v9_data_end:
  assumes "v9_templates_ok st" "pkt + l \<le> length bs"
    "\<And>tid t. peer_find_template (global_netflow9_templates st) source_id tid (client_address env) = Some t \<Longrightarrow> calm_template t"
  shows "ends (\<lambda>_. True) (process_netflow_v9_data env bs pkt l time_sec source_id st)"
proof -
  have data: "ends (\<lambda>_. True) (v9_each_record (\<lambda>i. netflow9_flowset_to_store env time_sec bs i (template_records t)) (total_length t) (pkt + l) i n st)"
    if "v9_template_ok t" "calm_template t" "template_type t = Data" for t i n st
    using that assms(2) by (intro v9_each_record_end netflow9_flowset_to_store_end) (auto simp: v9_template_ok_def calm_template_def)
  have options: "ends (\<lambda>_. True) (v9_each_record (\<lambda>i. netflow9_options_flowset_to_store env bs i t) (total_length t) (pkt + l) i n st)"
    if "v9_template_ok t" for t i n st
    using that assms(2) by (intro v9_each_record_end v9_options_store_end) (auto simp: v9_template_ok_def)
  show ?thesis
    using assms(2,3) v9_template_found_ok [OF assms(1)]
    by (auto simp: process_netflow_v9_data_def Let_def data options split: option.split netflow_template_type_t.split)
qed

lemma v9_options_records_end: "e \<le> length bs \<Longrightarrow> ends (\<lambda>_. True) (v9_options_records bs i e n)"
proof (induction n arbitrary: i)
  case (Suc n)
  show ?case
    using Suc.prems by (auto intro!: ends_bind [OF Suc.IH])
qed simp

lemma process_netflow_v9_options_template_end:
  "pkt + l \<le> length bs \<Longrightarrow> ends (\<lambda>_. True) (process_netflow_v9_options_template env bs pkt l source_id st)"
  by (auto simp: process_netflow_v9_options_template_def Let_def intro!: ends_bind [OF v9_options_records_end] split: option.split)

text \<open>A field or a template header is read when its first byte lies in the flowset: up to three bytes more are read.\<close>

lemma v9_template_records_end:
  "pkt + l + slack \<le> length bs \<Longrightarrow> slack = 3 \<or> (l - i) mod 4 = 0 \<Longrightarrow> ends (\<lambda>_. True) (v9_template_records bs pkt i l n)"
proof (induction n arbitrary: i)
  case (Suc n)
  have inside: "pkt + i + 4 \<le> length bs" if "i < l"
    using Suc.prems that by presburger
  have "slack = 3 \<or> (l - (i + 4)) mod 4 = 0"
    using Suc.prems(2) by presburger
  note IH = ends_bind [OF Suc.IH [OF Suc.prems(1) this]]
  show ?case
    using inside by (auto intro!: IH)
qed simp

lemma v9_templates_loop_end:
  "pkt + l + slack \<le> length bs \<Longrightarrow> slack = 3 \<or> (l - offset) mod 4 = 0 \<Longrightarrow>
    ends (\<lambda>_. True) (v9_templates_loop env bs pkt offset l source_id st)"
proof (induction env bs pkt offset l source_id st rule: v9_templates_loop.induct)
  case (1 env bs pkt offset l source_id st)
  have inside: "pkt + offset + 4 \<le> length bs" if "offset < l"
    using "1.prems" that by presburger
  have aligned: "slack = 3 \<or> (l - (offset + 4 * k)) mod 4 = 0" for k
    using "1.prems"(2) by presburger
  have again: "ends (\<lambda>_. True) (v9_templates_loop env bs pkt j l source_id st1)"
    if "offset < l" "total_record_length rs \<noteq> 0" "v9_template_records bs pkt (offset + 4) l n = Done (Some (rs, j))"
      "st1 = store_netflow9_template env source_id \<lparr>template_id = tid, num_records = n, total_length = total_record_length rs,
          option_scope_length = 0, ipfix_variable_length_elements_used = False, timestamp = netflow_current_time env,
          template_type = Data, template_records = rs\<rparr> st"
      "deref 4 (\<lambda>d. (be16_at d 0, unat (be16_at d 2))) bs (pkt + offset) = Done (tid, n)" for tid n rs j st1
  proof -
    have "j = offset + 4 * Suc n"
      using v9_template_records_length [OF that(3)] by simp
    with "1.IH" [OF that(1,5) refl that(3) refl refl that(2)] aligned [of "Suc n"] "1.prems"(1) show ?thesis
      by (simp add: that(4))
  qed
  show ?case
    using inside aligned [of 1] "1.prems"(1)
    by (subst v9_templates_loop.simps) (auto intro!: again ends_bind [OF v9_template_records_end] split: option.split)
qed

text \<open>
  C22. Flowsets of NetFlow v9 are processed safely: while the stored templates are sound, a flowset inside of the datagram is
  processed to an end without reading outside of the datagram, whatever its bytes are, and leads to at most 512 packets.
  Two things have to be excluded: a template flowset whose length is not a multiple of four at the very end of a datagram, and
  data templates with the field types 152, 153 and 319, which feed computations that can overflow.
\<close>

theorem v9_flowset_safe:
  assumes "v9_templates_ok st" "offset + l \<le> length bs"
    "flowset_id = 0 \<longrightarrow> l mod 4 = 0 \<or> offset + l + 3 \<le> length bs"
    "\<forall>tid t. peer_find_template (global_netflow9_templates st) source_id tid (client_address env) = Some t \<longrightarrow> calm_template t"
  shows "\<exists>ok st' ps. process_netflow_v9_flowset env bs offset flowset_id l time_sec source_id st = Done (ok, st')
    \<and> v9_templates_ok st' \<and> netflow_processed st' = netflow_processed st @ ps \<and> length ps \<le> 512"
proof -
  have "\<exists>slack. offset + l + slack \<le> length bs \<and> (slack = 3 \<or> (l - 4) mod 4 = 0)" if "flowset_id = 0" "4 \<le> l"
  proof (cases "l mod 4 = 0")
    case True
    then have "(l - 4) mod 4 = 0"
      by presburger
    with assms(2) show ?thesis
      by (intro exI [of _ 0]) simp
  qed (use assms(3) that in auto)
  then have template: "ends (\<lambda>_. True) (process_netflow_v9_template env bs offset l source_id (nf_bump c st))" if "flowset_id = 0" for c
    using that assms(2) v9_templates_loop_end [of offset l _ bs 4] by (auto simp: process_netflow_v9_template_def not_less)
  have "peer_find_template (global_netflow9_templates (nf_bump c st)) source_id tid (client_address env) = Some t \<Longrightarrow> calm_template t" for c tid t
    using assms(4) by (simp add: nf_bump_def)
  then have data: "ends (\<lambda>_. True) (process_netflow_v9_data env bs offset l time_sec source_id (nf_bump c st))" for c
    using assms(1,2) by (intro process_netflow_v9_data_end) auto
  have "ends (\<lambda>_. True) (process_netflow_v9_flowset env bs offset flowset_id l time_sec source_id st)"
    using template process_netflow_v9_options_template_end [OF assms(2)]
    by (auto simp: process_netflow_v9_flowset_def intro!: ends_bind [OF data])
  from ends_returns [OF this process_netflow_v9_flowset_keeps [OF assms(1)]] show ?thesis
    by (auto simp: ends_def v9_sound_after_def)
qed

lemma v9_flowset_safe_witness:
  "\<exists>ok st' ps. process_netflow_v9_flowset \<lparr>netflow_current_time = 7, netflow_sampling_ratio = 1, client_address = ''10.0.0.1'',
       client_ipv4_address = 16777226\<rparr> [0, 0, 0, 12, 1, 0, 0, 1, 0, 8, 0, 4] 0 0 12 5 1 netflow_init = Done (ok, st')
    \<and> v9_templates_ok st' \<and> netflow_processed st' = netflow_processed netflow_init @ ps \<and> length ps \<le> 512"
  by (rule v9_flowset_safe [OF v9_templates_ok_init]) (simp_all add: netflow_init_def peer_find_template_def)

section \<open>Datagrams\<close>

text \<open>The header of a datagram and of a flowset, and how they are read back.\<close>

definition v9_header :: "u16 \<Rightarrow> u32 \<Rightarrow> u32 \<Rightarrow> u32 \<Rightarrow> u32 \<Rightarrow> bytes" where
  "v9_header flowset_number uptime time_sec seq_no source_id = be16_bytes 9 @ be16_bytes flowset_number @ be32_bytes uptime
     @ be32_bytes time_sec @ be32_bytes seq_no @ be32_bytes source_id"

lemma length_v9_header [simp]: "length (v9_header n u t q s) = 20"
  by (simp add: v9_header_def)

lemma v9_header_read:
  "process_netflow_packet_v9 env (v9_header n u t q s @ rest) st =
     (if unat n > 256 then Done (False, nf_bump ''netflow_v9_total_packets'' st)
      else v9_flowsets_loop env (v9_header n u t q s @ rest) t s 20 (unat n) (nf_bump ''netflow_v9_total_packets'' st))"
proof -
  have "deref 20 (\<lambda>d. (unat (be16_at d 2), be32_at d 8, be32_at d 16)) (v9_header n u t q s @ rest) 0 = Done (unat n, t, s)"
    by (subst deref_holds [where d = "v9_header n u t q s"]) (simp_all add: holds_at_def, simp add: v9_header_def be_at_skip)
  then show ?thesis
    by (simp add: process_netflow_packet_v9_def Let_def sets_per_packet_maximum_number_def)
qed

definition set_header :: "u16 \<Rightarrow> nat \<Rightarrow> bytes" where
  "set_header set_id len = be16_bytes set_id @ be16_bytes (of_nat len)"

lemma length_set_header [simp]: "length (set_header n l) = 4"
  by (simp add: set_header_def)

lemma set_header_read:
  assumes "holds_at bs i (set_header n l)" "l < 2 ^ 16"
  shows "deref 4 (\<lambda>d. (be16_at d 0, unat (be16_at d 2))) bs i = Done (n, l)" "deref 2 (\<lambda>d. be16_at d 0) bs i = Done n"
  using assms(1) unat_small(2) [OF assms(2)]
  by (simp_all add: deref_holds [OF assms(1)] set_header_def be_at_skip deref_holds [of bs i "be16_bytes n"])

lemma v9_flowset_step:
  assumes "holds_at bs offset (set_header flowset_id l)" "offset + l \<le> length bs" "l < 2 ^ 16"
  shows "v9_flowsets_loop env bs t s offset (Suc n) st =
    (if 1 < flowset_id \<and> flowset_id < 256 then v9_flowsets_loop env bs t s offset n st
     else and_then (process_netflow_v9_flowset env bs offset flowset_id l t s st) (\<lambda>(ok, st).
       if \<not> ok then Done (False, st) else if offset + l = length bs then Done (True, st)
       else v9_flowsets_loop env bs t s (offset + l) n st))"
proof -
  have "offset + 4 \<le> length bs"
    using assms(1) by (simp add: holds_at_def)
  then show ?thesis
    using assms(2) set_header_read [OF assms(1,3)] by (simp del: deref_inside)
qed

section \<open>Well-formed datagrams\<close>

text \<open>A flow as a router exports it, the template of such flows, and a datagram with the template and flows.\<close>

record exported_flow =
  exp_src :: u32
  exp_dst :: u32
  exp_src_port :: u16
  exp_dst_port :: u16
  exp_protocol :: u8
  exp_flags :: u8
  exp_octets :: u32
  exp_packets :: u32
  exp_input :: u16
  exp_output :: u16
  exp_first :: u32
  exp_last :: u32

definition exported_fields :: "(u16 \<times> nat) list" where
  "exported_fields = [(8, 4), (12, 4), (7, 2), (11, 2), (4, 1), (6, 1), (1, 4), (2, 4), (10, 2), (14, 2), (22, 4), (21, 4)]"

definition exported_bytes :: "exported_flow \<Rightarrow> bytes" where
  "exported_bytes f = mem32 (exp_src f) @ mem32 (exp_dst f) @ be16_bytes (exp_src_port f) @ be16_bytes (exp_dst_port f)
     @ [exp_protocol f] @ [exp_flags f] @ be32_bytes (exp_octets f) @ be32_bytes (exp_packets f) @ be16_bytes (exp_input f)
     @ be16_bytes (exp_output f) @ be32_bytes (exp_first f) @ be32_bytes (exp_last f)"

definition record_of_field :: "u16 \<times> nat \<Rightarrow> template_record_t" where
  "record_of_field f = \<lparr>record_type = ucast (fst f), record_length = snd f, enterprise_bit = False, enterprise_number = 0\<rparr>"

definition v9_template_set :: "u16 \<Rightarrow> bytes" where
  "v9_template_set tid = set_header 0 (8 + 4 * length exported_fields) @ set_header tid (length exported_fields)
     @ concat (map (\<lambda>(t, n). set_header t n) exported_fields)"

definition v9_data_set :: "u16 \<Rightarrow> exported_flow list \<Rightarrow> bytes \<Rightarrow> bytes" where
  "v9_data_set tid fs padding = set_header tid (4 + 34 * length fs + length padding) @ concat (map exported_bytes fs) @ padding"

definition v9_datagram :: "u32 \<Rightarrow> u32 \<Rightarrow> u32 \<Rightarrow> u32 \<Rightarrow> u16 \<Rightarrow> exported_flow list \<Rightarrow> bytes \<Rightarrow> bytes" where
  "v9_datagram uptime time_sec seq_no source_id tid fs padding =
     v9_header 2 uptime time_sec seq_no source_id @ v9_template_set tid @ v9_data_set tid fs padding"

definition exported_packet :: "netflow_environment \<Rightarrow> netflow_state \<Rightarrow> u32 \<Rightarrow> exported_flow \<Rightarrow> simple_packet_t" where
  "exported_packet env st time_sec f = without_icmp_ports (simple_packet_default\<lparr>source := NETFLOW,
     sample_ratio := netflow9_sample_ratio env st, src_ip := exp_src f, dst_ip := exp_dst f, source_port := exp_src_port f,
     destination_port := exp_dst_port f, protocol := ucast (exp_protocol f), flags := exp_flags f, length' := ucast (exp_octets f),
     ip_length := ucast (exp_octets f), number_of_packets := ucast (exp_packets f), input_interface := ucast (exp_input f),
     output_interface := ucast (exp_output f), flow_start := uint (exp_first f), flow_end := uint (exp_last f),
     arrival_time := netflow_current_time env, ts := (uint time_sec, 0), agent_ipv4_address := client_ipv4_address env,
     ip_protocol_version := 4\<rparr>)"

lemma length_exported_bytes [simp]: "length (exported_bytes f) = 34"
  by (simp add: exported_bytes_def)

lemma be_copies [simp]:
  "be64toh (be_copy64 (be32_bytes w) 0) = ucast w"
  "htonl (be_copy32 [b] 0) = ucast b"
  "htons (be_copy16 (be16_bytes v) a) = v"
  "be_copy8 [b] c = b"
  "front_copy32 (mem32 w) x = w"
proof -
  have load: "load32_at (be32_bytes w) 0 = htonl w" for w
    by (simp add: be32_bytes_def load_last)
  have "be_copy64 (be32_bytes w) 0 = push_bit 32 (ucast (htonl w))"
  proof -
    have "take 4 (mem64 0) = [0, 0, 0, 0]"
      by (simp add: mem64_def mem32_def)
    moreover have "load64_at ([0, 0, 0, 0] @ be32_bytes w) 0 = push_bit 32 (ucast (load32_at (be32_bytes w) 0))"
      by (simp add: load64_at_def load32_at_def of_mem32_def numeral_2_eq_2)
    ultimately show ?thesis
      by (simp add: be_copy64_def load)
  qed
  moreover have "ucast (push_bit 32 (x :: u64)) = (0 :: u32)" for x
    by (rule bit_word_eqI) (simp add: bit_simps)
  moreover have "ucast (drop_bit 32 (push_bit 32 (ucast (x :: u32)) :: u64)) = x" for x
    by (rule bit_word_eqI) (auto simp: bit_simps)
  ultimately show "be64toh (be_copy64 (be32_bytes w) 0) = ucast w"
    by (simp add: be64toh_def) (simp add: htonl_def of_mem32_def)
  show "htonl (be_copy32 [b] 0) = ucast b"
  proof -
    have "ucast (drop_bit k (ucast b :: u32)) = (0 :: u8)" if "8 \<le> k" for k
      using that by (intro bit_word_eqI) (auto simp: bit_simps dest: bit_imp_le_length)
    moreover have "ucast (ucast b :: u32) = b"
      by (rule bit_word_eqI) (simp add: bit_simps)
    ultimately have "mem32 (htonl (ucast b)) = [0, 0, 0, b]"
      by (simp add: mem32_htonl)
    then have "be_copy32 [b] 0 = htonl (ucast b)"
      using load_last(2) [of "htonl (ucast b)"] by (simp add: be_copy32_def) (simp add: mem32_def)
    then show ?thesis
      by simp
  qed
  show "htons (be_copy16 (be16_bytes v) a) = v"
    by (simp add: be_copy16_def be16_bytes_def load_last)
  show "be_copy8 [b] c = b" "front_copy32 (mem32 w) x = w"
    by (simp_all add: be_copy8_def front_copy32_def load_last)
qed

lemma read_holds: "holds_at bs i d \<Longrightarrow> length d = n \<Longrightarrow> deref n id bs i = Done d"
  by (simp add: deref_holds)

lemma exported_reads:
  assumes "holds_at bs i (exported_bytes f)"
  shows
    "deref 4 id bs i = Done (mem32 (exp_src f))"
    "deref 4 id bs (i + 4) = Done (mem32 (exp_dst f))"
    "deref 2 id bs (8 + i) = Done (be16_bytes (exp_src_port f))"
    "deref 2 id bs (10 + i) = Done (be16_bytes (exp_dst_port f))"
    "deref (Suc 0) id bs (12 + i) = Done [exp_protocol f]"
    "deref (Suc 0) id bs (13 + i) = Done [exp_flags f]"
    "deref 4 id bs (14 + i) = Done (be32_bytes (exp_octets f))"
    "deref 4 id bs (18 + i) = Done (be32_bytes (exp_packets f))"
    "deref 2 id bs (22 + i) = Done (be16_bytes (exp_input f))"
    "deref 2 id bs (24 + i) = Done (be16_bytes (exp_output f))"
    "deref 4 id bs (26 + i) = Done (be32_bytes (exp_first f))"
    "deref 4 id bs (30 + i) = Done (be32_bytes (exp_last f))"
  using assms [unfolded exported_bytes_def holds_at_append] by (simp_all add: read_holds add.commute del: deref_inside)

lemma exported_fields_read:
  assumes "holds_at bs i (exported_bytes f)" "packet = simple_packet_default\<lparr>source := NETFLOW, arrival_time := now,
            agent_ipv4_address := agent, number_of_packets := 0, ts := time', ip_protocol_version := 4, sample_ratio := ratio\<rparr>"
  shows "netflow9_fields client (map record_of_field exported_fields) bs i packet netflow_meta_info_default st
     = Done (packet\<lparr>src_ip := exp_src f, dst_ip := exp_dst f, source_port := exp_src_port f,
     destination_port := exp_dst_port f, protocol := ucast (exp_protocol f), flags := exp_flags f, length' := ucast (exp_octets f),
     ip_length := ucast (exp_octets f), number_of_packets := ucast (exp_packets f), input_interface := ucast (exp_input f),
     output_interface := ucast (exp_output f), flow_start := uint (exp_first f), flow_end := uint (exp_last f)\<rparr>, netflow_meta_info_default, st)"
proof -
  have fresh: "length' packet = 0" "number_of_packets packet = 0" "protocol packet = 0"
    by (simp_all add: assms(2) simple_packet_default_def)
  show ?thesis
    by (simp add: exported_fields_def record_of_field_def netflow9_record_to_flow_def apply_field_def netflow9_field_def v9_volume_field_def v9_endpoint_field_def
        v9_routing_field_def v9_interface_field_def packet_field_def update_netflow_v9_sampling_rate_def exported_reads [OF assms(1)] fresh set_in_bytes_def
        set_in_packets_def set_protocol_def set_source_port_def set_destination_port_def be_short_or_long_def Let_def del: deref_inside)
qed

lemma minus_int64_u32 [simp]: "minus_int64 (uint (a :: u32)) (uint (b :: u32)) = Done (uint a - uint b)"
  by (simp add: calm_difference)

lemma exported_flow_stored:
  assumes "holds_at bs i (exported_bytes f)"
  shows "\<exists>st'. netflow9_flowset_to_store env time_sec bs i (map record_of_field exported_fields) st = Done st'
    \<and> netflow_processed st' = netflow_processed st @ [exported_packet env st time_sec f]
    \<and> netflow9_sampling_rates st' = netflow9_sampling_rates st"
proof -
  let ?packet = "simple_packet_default\<lparr>source := NETFLOW, arrival_time := netflow_current_time env,
            agent_ipv4_address := client_ipv4_address env, number_of_packets := 0, ts := (uint time_sec, 0),
            ip_protocol_version := 4, sample_ratio := netflow9_sample_ratio env st\<rparr>"
  have "netflow9_sampling_rates (nf_bump c st) = netflow9_sampling_rates st"
      "netflow9_sampling_rates (nf_process p st) = netflow9_sampling_rates st"
      "netflow9_sampling_rates (increment_duration_counters_netflow_v9 d st) = netflow9_sampling_rates st"
      "netflow_processed (increment_duration_counters_netflow_v9 d st) = netflow_processed st" for c p d st
    by (simp_all add: nf_bump_def nf_process_def increment_duration_counters_netflow_v9_def)
  moreover have "\<not> nested_packet_parsed netflow_meta_info_default" "\<not> nat_event netflow_meta_info_default" "meta_flow_id netflow_meta_info_default = 0"
    by (simp_all add: netflow_meta_info_default_def)
  ultimately show ?thesis
    using exported_fields_read [OF assms refl, where client = "client_address env" and now = "netflow_current_time env" and st = st
        and agent = "client_ipv4_address env" and time' = "(uint time_sec, 0)" and ratio = "netflow9_sample_ratio env st"]
    by (simp add: netflow9_flowset_to_store_def Let_def apply_nested_packet_def netflow9_adjust_version_def
        zero_ipv6_beside_ipv4_def is_asa_flow_def exported_packet_def simple_packet_default_def)
qed

lemma exported_flows_stored:
  assumes "holds_at bs i (concat (map exported_bytes fs))" "i + 34 * length fs \<le> e"
  shows "\<exists>st'. v9_each_record (\<lambda>i. netflow9_flowset_to_store env time_sec bs i (map record_of_field exported_fields)) 34 e i (length fs) st
      = Done (True, st') \<and> netflow_processed st' = netflow_processed st @ map (exported_packet env st time_sec) fs"
  using assms
proof (induction fs arbitrary: i st)
  case (Cons f fs)
  obtain st1 where one: "netflow9_flowset_to_store env time_sec bs i (map record_of_field exported_fields) st = Done st1"
      "netflow_processed st1 = netflow_processed st @ [exported_packet env st time_sec f]"
      "netflow9_sampling_rates st1 = netflow9_sampling_rates st"
    using exported_flow_stored [of bs i f env time_sec st] Cons.prems(1) by auto
  then have "exported_packet env st1 time_sec = exported_packet env st time_sec"
    by (simp add: exported_packet_def netflow9_sample_ratio_def fun_eq_iff)
  with one Cons.IH [of "i + 34" st1] Cons.prems show ?case
    by auto
qed simp

lemma template_records_read:
  "holds_at bs (pkt + i) (concat (map (\<lambda>(t, n). set_header t n) fs)) \<Longrightarrow> i + 4 * length fs \<le> l \<Longrightarrow> \<forall>(t, n) \<in> set fs. n < 2 ^ 16 \<Longrightarrow>
    v9_template_records bs pkt i l (length fs) = Done (Some (map record_of_field fs, i + 4 * length fs))"
proof (induction fs arbitrary: i)
  case (Cons f fs)
  obtain t n where f: "f = (t, n)"
    by (cases f)
  have "deref 4 netflow9_template_flowset_record_of bs (pkt + i) = Done (record_of_field f)"
    using Cons.prems unat_small(2) [of n]
    by (subst deref_holds [where d = "set_header t n"])
      (simp_all add: f netflow9_template_flowset_record_of_def record_of_field_def set_header_def be_at_skip)
  then show ?case
    using Cons.IH [of "i + 4"] Cons.prems by (simp add: f add.assoc del: deref_inside)
qed simp

definition exported_template :: "netflow_environment \<Rightarrow> u16 \<Rightarrow> template_t" where
  "exported_template env tid = \<lparr>template_id = tid, num_records = 12, total_length = 34, option_scope_length = 0,
     ipfix_variable_length_elements_used = False, timestamp = netflow_current_time env, template_type = Data,
     template_records = map record_of_field exported_fields\<rparr>"

lemma template_set_stored:
  assumes "holds_at bs pkt (v9_template_set tid)"
  shows "process_netflow_v9_template env bs pkt 56 source_id st = Done (True, store_netflow9_template env source_id (exported_template env tid) st)"
proof -
  have l: "length exported_fields = 12"
    by (simp add: exported_fields_def)
  have parts: "holds_at bs pkt (set_header 0 56)" "holds_at bs (pkt + 4) (set_header tid 12)"
      "holds_at bs (pkt + 8) (concat (map (\<lambda>(t, n). set_header t n) exported_fields))"
    using assms unfolding v9_template_set_def holds_at_append l by (simp_all add: add.assoc)
  have "v9_template_records bs pkt 8 56 12 = Done (Some (map record_of_field exported_fields, 56))"
    using template_records_read [OF parts(3), of 56] unfolding l by (simp add: exported_fields_def)
  moreover have "total_record_length (map record_of_field exported_fields) = 34"
    by (simp add: total_record_length_def exported_fields_def record_of_field_def)
  ultimately have "v9_templates_loop env bs pkt 4 56 source_id st = Done (True, store_netflow9_template env source_id (exported_template env tid) st)"
    using set_header_read [OF parts(2)] v9_templates_loop.simps [of env bs pkt 56]
    by (simp add: v9_templates_loop.simps [of env bs pkt 4] exported_template_def del: deref_inside)
  then show ?thesis
    using set_header_read [OF parts(1)] by (simp add: process_netflow_v9_template_def del: deref_inside)
qed

lemma data_set_stored:
  assumes "holds_at bs pkt (v9_data_set tid fs padding)" "fs \<noteq> []" "length fs \<le> 256" "length padding < 34"
    "peer_find_template (global_netflow9_templates st) source_id (ucast tid) (client_address env) = Some t"
    "template_eq t (exported_template env' tid)"
  shows "\<exists>st'. process_netflow_v9_data env bs pkt (4 + 34 * length fs + length padding) time_sec source_id st = Done (True, st')
    \<and> netflow_processed st' = netflow_processed st @ map (exported_packet env st time_sec) fs"
proof -
  define l where "l = 4 + 34 * length fs + length padding"
  have parts: "holds_at bs pkt (set_header tid l)" "holds_at bs (pkt + 4) (concat (map exported_bytes fs))"
    using assms(1) unfolding v9_data_set_def holds_at_append l_def by simp_all
  have count: "(34 * length fs + length padding) div 34 = length fs"
    using assms(4) by simp
  have t: "template_records t = map record_of_field exported_fields" "total_length t = 34" "template_type t = Data"
    using assms(6) by (auto simp: template_eq_def exported_template_def)
  have some: "exported_fields \<noteq> []"
    by (simp add: exported_fields_def)
  obtain st' where "v9_each_record (\<lambda>i. netflow9_flowset_to_store env time_sec bs i (map record_of_field exported_fields)) 34 (pkt + l) (pkt + 4)
      (length fs) st = Done (True, st')" "netflow_processed st' = netflow_processed st @ map (exported_packet env st time_sec) fs"
    using exported_flows_stored [OF parts(2), of "pkt + l" env time_sec st] by (auto simp: l_def)
  then show ?thesis
    using set_header_read(2) [OF parts(1)] assms(2-5) t some
    by (simp add: process_netflow_v9_data_def flows_per_packet_maximum_number_def Let_def count l_def del: deref_inside)
qed

text \<open>
  C23. The flows of a NetFlow v9 exporter are delivered: a datagram that carries a template with the usual fields and up to 256
  flows in its layout, with or without padding, makes the receiver learn the template and hand on exactly the flows,
  in order, each as the packet with its addresses, ports, protocol, flags, octets, packets, interfaces and times, with the sampling
  rate of the device, and without ports when it is ICMP.
\<close>

theorem v9_flows_delivered:
  assumes "table_ok (global_netflow9_templates st)" "256 \<le> tid" "fs \<noteq> []" "length fs \<le> 256" "length padding < 34"
  shows "\<exists>st'. process_netflow_packet_v9 env (v9_datagram uptime time_sec seq_no source_id tid fs padding) st = Done (True, st')
    \<and> netflow_processed st' = netflow_processed st @ map (exported_packet env st time_sec) fs"
proof -
  define bs l where "bs = v9_datagram uptime time_sec seq_no source_id tid fs padding" and "l = 4 + 34 * length fs + length padding"
  define st1 where "st1 = nf_bump ''netflow9_data_templates_number'' (nf_bump ''netflow_v9_total_packets'' st)"
  define st2 where "st2 = store_netflow9_template env source_id (exported_template env tid) st1"
  define st3 where "st3 = nf_bump ''netflow9_data_packet_number'' st2"
  have template_length: "length (v9_template_set tid) = 56"
    by (simp add: v9_template_set_def exported_fields_def)
  have data_length: "length (v9_data_set tid fs padding) = l"
    by (simp add: v9_data_set_def l_def sum_list_triv length_concat comp_def)
  have length: "length bs = 76 + l"
    by (simp add: bs_def v9_datagram_def template_length data_length)
  have "holds_at bs 0 bs"
    by simp
  then have sets: "holds_at bs 20 (v9_template_set tid)" "holds_at bs 76 (v9_data_set tid fs padding)"
    unfolding bs_def by (simp_all only: v9_datagram_def holds_at_append template_length) simp_all
  then have headers: "holds_at bs 20 (set_header 0 56)" "holds_at bs 76 (set_header tid l)"
    by (simp_all add: v9_template_set_def exported_fields_def v9_data_set_def l_def)
  have small: "l < 2 ^ 16" and positive: "l \<noteq> 0"
    using assms(4,5) by (simp_all add: l_def)
  have "table_ok (global_netflow9_templates st1)"
    using assms(1) by (simp add: st1_def nf_bump_def)
  then obtain t where t: "peer_find_template (global_netflow9_templates st3) source_id (ucast tid) (client_address env) = Some t"
      "template_eq t (exported_template env tid)"
    using templates.find_added [of "global_netflow9_templates st1" "(client_address env, source_id, ucast tid)" "exported_template env tid"]
    by (auto simp: st3_def st2_def nf_bump_def store_netflow9_template_adds find_stored_def exported_template_def)
  have "netflow9_sampling_rates st3 = netflow9_sampling_rates st"
    by (auto simp: st3_def st2_def st1_def nf_bump_def store_netflow9_template_def split: template_update.split prod.split)
  then have same: "exported_packet env st3 time_sec = exported_packet env st time_sec" "netflow_processed st3 = netflow_processed st"
    by (simp_all add: exported_packet_def netflow9_sample_ratio_def fun_eq_iff st3_def st2_def st1_def)
  obtain st' where st': "process_netflow_v9_data env bs 76 l time_sec source_id st3 = Done (True, st')"
      "netflow_processed st' = netflow_processed st @ map (exported_packet env st time_sec) fs"
    using data_set_stored [OF sets(2) assms(3,4,5) t, of time_sec] by (auto simp: same l_def [symmetric])
  have first: "process_netflow_v9_flowset env bs 20 0 56 time_sec source_id (nf_bump ''netflow_v9_total_packets'' st) = Done (True, st2)"
    using template_set_stored [OF sets(1)] by (simp add: process_netflow_v9_flowset_def st1_def st2_def)
  have "tid \<noteq> 0" "tid \<noteq> 1" "\<not> tid < 256"
    using assms(2) by (auto simp: word_le_nat_alt word_less_nat_alt)
  then have second: "process_netflow_v9_flowset env bs 76 tid l time_sec source_id st2 = Done (True, st')" "\<not> (1 < tid \<and> tid < 256)"
    using st'(1) by (simp_all add: process_netflow_v9_flowset_def st3_def)
  have "v9_flowsets_loop env bs time_sec source_id 20 (Suc (Suc 0)) (nf_bump ''netflow_v9_total_packets'' st) = Done (True, st')"
    using v9_flowset_step [OF headers(1), of env time_sec source_id "Suc 0"] v9_flowset_step [OF headers(2) _ small, of env time_sec source_id 0]
    by (simp add: length first second positive del: v9_flowsets_loop.simps)
  then show ?thesis
    using st'(2) by (auto simp: bs_def v9_datagram_def v9_header_read simp flip: numeral_2_eq_2)
qed

definition example_flow :: exported_flow where
  "example_flow = \<lparr>exp_src = 16777226, exp_dst = 33554442, exp_src_port = 53, exp_dst_port = 40000, exp_protocol = 17, exp_flags = 0,
     exp_octets = 1500, exp_packets = 2, exp_input = 3, exp_output = 7, exp_first = 1000, exp_last = 4000\<rparr>"

definition exporter_environment :: netflow_environment where
  "exporter_environment = \<lparr>netflow_current_time = 7, netflow_sampling_ratio = 100, client_address = ''10.0.0.1'', client_ipv4_address = 16777226\<rparr>"

lemma v9_flows_delivered_witness:
  "\<exists>packet st'. process_netflow_packet_v9 exporter_environment (v9_datagram 1 2 3 4 260 [example_flow, example_flow] [0, 0]) netflow_init
       = Done (True, st') \<and> netflow_processed st' = [packet, packet] \<and> length' packet = 1500 \<and> destination_port packet = 40000"
proof -
  have "netflow_processed netflow_init = []" "table_ok (global_netflow9_templates netflow_init)"
    by (simp_all add: netflow_init_def)
  then show ?thesis
    using v9_flows_delivered [of netflow_init 260 "[example_flow, example_flow]" "[0, 0]" exporter_environment 1 2 3 4]
    by (intro exI [of _ "exported_packet exporter_environment netflow_init 2 example_flow"])
      (simp add: exported_packet_def without_icmp_ports_def example_flow_def)
qed

section \<open>Where the code departs from its intent\<close>

text \<open>
  C25. A template flowset is read beyond its end: with a single stray byte behind the header of the last flowset, the code reads
  three bytes behind the datagram, because it only checks that the first byte of a template lies inside.
\<close>

theorem v9_template_overread:
  "process_netflow_packet_v9 env (v9_header 1 uptime time_sec seq_no source_id @ set_header 0 5 @ [x]) st = Undefined"
proof -
  let ?bs = "v9_header 1 uptime time_sec seq_no source_id @ set_header 0 5 @ [x]"
  have header: "holds_at ?bs 20 (set_header 0 5)"
    by (simp add: holds_at_def)
  have "deref 4 (\<lambda>d. (be16_at d 0, unat (be16_at d 2))) ?bs 24 = Undefined"
    by (simp add: deref_def)
  then have "process_netflow_v9_template env ?bs 20 5 source_id st' = Undefined" for st'
    using set_header_read [OF header] by (simp add: process_netflow_v9_template_def v9_templates_loop.simps)
  then show ?thesis
    using v9_flowset_step [OF header, of env time_sec source_id 0] by (simp add: v9_header_read process_netflow_v9_flowset_def)
qed

text \<open>
  A flowset with a reserved number hides the rest of the datagram: where the code means to skip such a flowset and to move
  on, it reads the same flowset again until the announced number of flowsets is used up. Nothing behind it is
  processed, and the datagram counts as processed.
\<close>

lemma v9_reserved_flowset_hides_rest:
  assumes "holds_at bs offset (set_header flowset_id l)" "1 < flowset_id" "flowset_id < 256" "l < 2 ^ 16" "offset + l \<le> length bs"
  shows "v9_flowsets_loop env bs time_sec source_id offset n st = Done (True, st)"
proof (induction n)
  case (Suc n)
  then show ?case
    unfolding v9_flowset_step [OF assms(1,5,4)] using assms by simp
qed simp

lemma v9_reserved_flowset_hides_rest_witness:
  "v9_flowsets_loop \<lparr>netflow_current_time = 7, netflow_sampling_ratio = 1, client_address = ''10.0.0.1'', client_ipv4_address = 16777226\<rparr>
     (v9_header 2 0 0 0 0 @ set_header 2 4 @ set_header 1 4) 0 0 20 2 netflow_init = Done (True, netflow_init)"
  by (rule v9_reserved_flowset_hides_rest [where flowset_id = 2 and l = 4]) (simp_all add: holds_at_def)

text \<open>
  Options without timeouts erase the timeouts of the device: when a device sends options that carry no flow timeouts, the
  collector stores zero for both, whatever it learnt before. The check for options without timeouts never succeeds as
  the two optional values are created with a zero in them.
\<close>

lemma v9_options_erase_timeouts:
  assumes "netflow9_options_flowset_to_store env bs i t st = Done st'" "ordered (netflow_v9_per_device_flow_timeouts st)"
    "list_all (\<lambda>r. record_type r \<noteq> 36 \<and> record_type r \<noteq> 37) (template_records t)"
  shows "map_find (netflow_v9_per_device_flow_timeouts st') (client_address env) = Some \<lparr>active_timeout = Some 0, inactive_timeout = Some 0\<rparr>"
proof -
  have field: "returns (\<lambda>opt'. opt_timeouts opt' = opt_timeouts opt) (v9_options_field r bs i opt)"
    if "record_type r \<noteq> 36" "record_type r \<noteq> 37" for r i opt
    using that by (auto simp: v9_options_field_def Let_def opt_counted_def intro!: returns_bind)
  have fields: "list_all (\<lambda>r. record_type r \<noteq> 36 \<and> record_type r \<noteq> 37) rs \<Longrightarrow>
      returns (\<lambda>opt'. opt_timeouts opt' = opt_timeouts opt) (v9_options_fields rs bs i opt)" for rs i opt
  proof (induction rs arbitrary: i opt)
    case (Cons r rs)
    have "returns (\<lambda>opt'. opt_timeouts opt' = opt_timeouts opt) (v9_options_fields rs bs j opt1)"
      if "opt_timeouts opt1 = opt_timeouts opt" for j opt1
      using Cons.IH [where i = j and opt = opt1] Cons.prems that by simp
    then show ?case
      using Cons.prems by (auto intro: returns_bind' [OF field])
  qed simp
  have "netflow_v9_per_device_flow_timeouts (update_netflow_v9_sampling_rate rate client st1) = netflow_v9_per_device_flow_timeouts st1" for rate client st1
    by (simp add: update_netflow_v9_sampling_rate_def Let_def nf_bump_def)
  with assms fields [OF assms(3)] show ?thesis
    by (fastforce simp: netflow9_options_flowset_to_store_def and_then_Done_iff Let_def returns_def update_device_flow_timeouts_def
        device_timeouts_default_def map_find_put split: option.split)
qed

definition learnt_timeouts :: netflow_state where
  "learnt_timeouts = netflow_init\<lparr>netflow_v9_per_device_flow_timeouts := [(''10.0.0.1'', \<lparr>active_timeout = Some 60, inactive_timeout = Some 15\<rparr>)]\<rparr>"

lemma v9_options_erase_timeouts_witness:
  "\<exists>st'. netflow9_options_flowset_to_store \<lparr>netflow_current_time = 7, netflow_sampling_ratio = 1, client_address = ''10.0.0.1'',
       client_ipv4_address = 16777226\<rparr> [0, 100] 0 \<lparr>template_id = 256, num_records = 1, total_length = 2, option_scope_length = 0,
       ipfix_variable_length_elements_used = False, timestamp = 0, template_type = Options,
       template_records = [\<lparr>record_type = 34, record_length = 2, enterprise_bit = False, enterprise_number = 0\<rparr>]\<rparr> learnt_timeouts = Done st'
    \<and> map_find (netflow_v9_per_device_flow_timeouts st') ''10.0.0.1'' = Some \<lparr>active_timeout = Some 0, inactive_timeout = Some 0\<rparr>"
proof -
  let ?env = "\<lparr>netflow_current_time = 7, netflow_sampling_ratio = 1, client_address = ''10.0.0.1'', client_ipv4_address = 16777226\<rparr>"
  let ?t = "\<lparr>template_id = 256, num_records = 1, total_length = 2, option_scope_length = 0,
       ipfix_variable_length_elements_used = False, timestamp = 0, template_type = Options,
       template_records = [\<lparr>record_type = 34, record_length = 2, enterprise_bit = False, enterprise_number = 0\<rparr>]\<rparr>"
  have "ends (\<lambda>_. True) (netflow9_options_flowset_to_store ?env [0, 100] 0 ?t learnt_timeouts)"
    by (rule v9_options_store_end) (simp add: total_record_length_def)
  then obtain st' where "netflow9_options_flowset_to_store ?env [0, 100] 0 ?t learnt_timeouts = Done st'"
    by (auto simp: ends_def)
  with v9_options_erase_timeouts [OF this] show ?thesis
    by (simp add: learnt_timeouts_def)
qed

end
