(* ===== verification/Ipfix_Spec.thy ===== *)
theory Ipfix_Spec
  imports Ipfix_Collector Netflow_V9_Spec
begin

text \<open>
  What the receiver of IPFIX guarantees: an invariant of the templates it keeps, memory safety and an end of the loop over flows of
  variable length, both of which rest on the invariant, and the places where the code departs from its intent.
\<close>

section \<open>Stored templates\<close>

definition ipfix_template_ok :: "template_t \<Rightarrow> bool" where
  "ipfix_template_ok t \<longleftrightarrow> num_records t = length (template_records t)
     \<and> ipfix_variable_length_elements_used t = uses_variable_length (template_records t)
     \<and> (template_type t = Data \<and> option_scope_length t = 0 \<and> total_length t = fixed_length_before_variable (template_records t)
        \<or> template_type t = Options \<and> total_length t = option_scope_length t + total_record_length (template_records t))"

definition ipfix_templates_ok :: "netflow_state \<Rightarrow> bool" where
  "ipfix_templates_ok st \<longleftrightarrow> templates.stored_all ipfix_template_ok (global_ipfix_templates st)"

lemma ipfix_template_found_ok:
  "ipfix_templates_ok st \<Longrightarrow> peer_find_template (global_ipfix_templates st) source_id tid client = Some t \<Longrightarrow> ipfix_template_ok t"
  using templates.stored_allD [of ipfix_template_ok "global_ipfix_templates st" "(client, source_id, tid)"]
  by (simp add: ipfix_templates_ok_def find_stored_def)

lemma ipfix_templates_ok_bump [simp]: "ipfix_templates_ok (nf_bump c st) \<longleftrightarrow> ipfix_templates_ok st"
  by (simp add: ipfix_templates_ok_def)

lemma ipfix_templates_ok_init [simp]: "ipfix_templates_ok netflow_init"
  by (simp add: ipfix_templates_ok_def templates.stored_all_def netflow_init_def find_stored_def peer_find_template_def)

lemma ipfix_template_eq_ok: "template_eq t' t \<Longrightarrow> ipfix_template_ok t \<Longrightarrow> ipfix_template_ok t'"
  by (auto simp: template_eq_def ipfix_template_ok_def)

lemma store_ipfix_template_adds:
  "global_ipfix_templates (store_ipfix_template env source_id t st)
    = add_stored (global_ipfix_templates st) (client_address env, source_id, ucast (template_id t)) t"
  by (auto simp: store_ipfix_template_def add_stored_def add_update_peer_template_def Let_def
      split: template_update.split prod.split option.split)

lemma store_ipfix_template_ok:
  "ipfix_templates_ok st \<Longrightarrow> ipfix_template_ok t \<Longrightarrow> ipfix_templates_ok (store_ipfix_template env source_id t st)"
  using templates.stored_all_add [OF _ _ ipfix_template_eq_ok] by (auto simp: ipfix_templates_ok_def store_ipfix_template_adds)

lemma store_ipfix_template_elsewhere:
  "ipfix_templates_ok st \<Longrightarrow> same_elsewhere (client_address env) (global_ipfix_templates st)
     (global_ipfix_templates (store_ipfix_template env source_id t st))"
  by (simp add: store_ipfix_template_adds same_elsewhere_add ipfix_templates_ok_def templates.stored_all_def)

lemma store_ipfix_template_keeps [simp]:
  "netflow_processed (store_ipfix_template env source_id t st) = netflow_processed st"
  "global_netflow9_templates (store_ipfix_template env source_id t st) = global_netflow9_templates st"
  by (auto simp: store_ipfix_template_def split: template_update.split prod.split)

text \<open>The templates of IPFIX are sound, those of NetFlow v9 untouched, and at most \<open>n\<close> packets have been handed on.\<close>

definition ipfix_sound_after :: "netflow_environment \<Rightarrow> nat \<Rightarrow> netflow_state \<Rightarrow> netflow_state \<Rightarrow> bool" where
  "ipfix_sound_after env n st st' \<longleftrightarrow> ipfix_templates_ok st' \<and> global_netflow9_templates st' = global_netflow9_templates st
     \<and> same_elsewhere (client_address env) (global_ipfix_templates st) (global_ipfix_templates st')
     \<and> (\<exists>ps. netflow_processed st' = netflow_processed st @ ps \<and> length ps \<le> n)"

lemma ipfix_sound_after_refl [simp]: "ipfix_sound_after env n st st \<longleftrightarrow> ipfix_templates_ok st"
  by (simp add: ipfix_sound_after_def)

lemma ipfix_sound_after_bump [simp]:
  "ipfix_sound_after env n (nf_bump c st) st' \<longleftrightarrow> ipfix_sound_after env n st st'"
  "ipfix_sound_after env n st (nf_bump c st') \<longleftrightarrow> ipfix_sound_after env n st st'"
  by (simp_all add: ipfix_sound_after_def)

lemma ipfix_sound_after_trans: "ipfix_sound_after env n st st' \<Longrightarrow> ipfix_sound_after env m st' st'' \<Longrightarrow> ipfix_sound_after env (n + m) st st''"
  by (fastforce simp: ipfix_sound_after_def intro: same_elsewhere_trans)

lemma ipfix_sound_after_mono: "ipfix_sound_after env n st st' \<Longrightarrow> n \<le> m \<Longrightarrow> ipfix_sound_after env m st st'"
  by (auto simp: ipfix_sound_after_def)

lemma ipfix_sound_after_ok: "ipfix_sound_after env n st st' \<Longrightarrow> ipfix_templates_ok st'"
  by (simp add: ipfix_sound_after_def)

lemma read_ipfix_options_template_keeps:
  assumes "ipfix_templates_ok st"
  shows "returns (\<lambda>res. \<forall>j st'. res = Some (j, st') \<longrightarrow> ipfix_sound_after env 0 st st') (read_ipfix_options_template env bs packet i l source_id st)"
  using assms
  by (auto simp: read_ipfix_options_template_def ipfix_sound_after_def ipfix_template_ok_def
      dest!: read_field_specifiers_offset intro!: returns_bind store_ipfix_template_ok store_ipfix_template_elsewhere split: option.split)

lemma read_ipfix_data_template_keeps:
  assumes "ipfix_templates_ok st"
  shows "returns (\<lambda>res. \<forall>j st'. res = Some (j, st') \<longrightarrow> ipfix_sound_after env 0 st st') (read_ipfix_data_template env bs packet i l source_id st)"
  using assms
  by (auto simp: read_ipfix_data_template_def ipfix_sound_after_def ipfix_template_ok_def
      dest!: read_field_specifiers_offset intro!: returns_bind store_ipfix_template_ok store_ipfix_template_elsewhere split: option.split)

lemma ipfix_options_templates_loop_keeps:
  "ipfix_templates_ok st \<Longrightarrow> returns (\<lambda>(_, st'). ipfix_sound_after env 0 st st') (ipfix_options_templates_loop env bs packet i l source_id st)"
proof (induction env bs packet i l source_id st rule: ipfix_options_templates_loop.induct)
  case (1 env bs packet i l source_id st)
  have again: "returns (\<lambda>(_, st'). ipfix_sound_after env 0 st st') (ipfix_options_templates_loop env bs packet j l source_id st1)"
    if "i < l" "read_ipfix_options_template env bs packet i l source_id st = Done (Some (j, st1))" "\<not> (1 \<le> l - j \<and> l - j \<le> 5)"
      "ipfix_sound_after env 0 st st1" for j st1
    using "1.IH" [OF that(1,2) refl refl that(3) ipfix_sound_after_ok [OF that(4)]] ipfix_sound_after_trans [OF that(4), of 0]
    by (auto elim!: returns_mono)
  have keeps: "ipfix_sound_after env 0 st st1" if "read_ipfix_options_template env bs packet i l source_id st = Done (Some (j, st1))" for j st1
    using read_ipfix_options_template_keeps [OF "1.prems", of env bs packet i l source_id] that by simp
  show ?case
    using "1.prems" keeps
    by (subst ipfix_options_templates_loop.simps) (auto intro!: again returns_bind split: option.split)
qed

lemma ipfix_data_templates_loop_keeps:
  "ipfix_templates_ok st \<Longrightarrow> returns (\<lambda>(_, st'). ipfix_sound_after env 0 st st') (ipfix_data_templates_loop env bs packet i l source_id st)"
proof (induction env bs packet i l source_id st rule: ipfix_data_templates_loop.induct)
  case (1 env bs packet i l source_id st)
  have again: "returns (\<lambda>(_, st'). ipfix_sound_after env 0 st st') (ipfix_data_templates_loop env bs packet j l source_id st1)"
    if "i < l" "read_ipfix_data_template env bs packet i l source_id st = Done (Some (j, st1))" "ipfix_sound_after env 0 st st1" for j st1
    using "1.IH" [OF that(1,2) refl refl ipfix_sound_after_ok [OF that(3)]] ipfix_sound_after_trans [OF that(3), of 0]
    by (auto elim!: returns_mono)
  have keeps: "ipfix_sound_after env 0 st st1" if "read_ipfix_data_template env bs packet i l source_id st = Done (Some (j, st1))" for j st1
    using read_ipfix_data_template_keeps [OF "1.prems", of env bs packet i l source_id] that by simp
  show ?case
    using "1.prems" keeps
    by (subst ipfix_data_templates_loop.simps) (auto intro!: again returns_bind split: option.split)
qed

section \<open>Flows and options\<close>

lemma adds_packets_ipfix [simp]:
  "adds_packets n st (update_ipfix_sampling_rate r client st') \<longleftrightarrow> adds_packets n st st'"
  "adds_packets n st (st'\<lparr>ipfix_per_device_flow_timeouts := timeouts\<rparr>) \<longleftrightarrow> adds_packets n st st'"
  by (auto simp: adds_packets_def update_ipfix_sampling_rate_def Let_def nf_bump_def)

lemma adds_packets_ipfix_durations [simp]:
  "adds_packets n st (increment_duration_counters_ipfix d st') \<longleftrightarrow> adds_packets n st st'"
  unfolding increment_duration_counters_ipfix_def by (rule adds_packets_simps)

lemma ipfix_adjust_version_keeps:
  "ipfix_adjust_version packet st' = (packet', st'') \<Longrightarrow> adds_packets n st st'' \<longleftrightarrow> adds_packets n st st'"
  by (auto simp: ipfix_adjust_version_def split: if_splits)

lemma ipfix_data_set_to_store_keeps:
  "returns (\<lambda>(_, st'). adds_packets 1 st st') (ipfix_data_set_to_store env time_sec bs i m t st)"
  unfolding ipfix_data_set_to_store_def Let_def
  by (auto simp: ipfix_adjust_version_keeps intro!: returns_bind adds_packets_process [where n = 0] split: option.split prod.split)

lemma ipfix_fixed_flows_keep: "returns (adds_packets n st) (ipfix_fixed_flows env time_sec bs i t n st)"
proof (induction n arbitrary: i st)
  case (Suc n)
  have "returns (adds_packets (Suc n) st) (ipfix_fixed_flows env time_sec bs j t n st1)" if "adds_packets 1 st st1" for j st1
    using adds_packets_trans [OF that] by (auto intro: returns_mono [OF Suc.IH])
  then show ?case
    by (auto intro!: returns_bind' [OF ipfix_data_set_to_store_keeps])
qed simp

lemma ipfix_variable_flows_keep:
  "returns (\<lambda>(_, st'). adds_packets fuel st st') (ipfix_variable_flows fuel env time_sec bs s i l a t st)"
proof (induction fuel arbitrary: i a st)
  case (Suc fuel)
  have "returns (\<lambda>(_, st'). adds_packets (Suc fuel) st st') (ipfix_variable_flows fuel env time_sec bs s i l a t st1)"
    if "adds_packets 1 st st1" for i a st1
    using adds_packets_trans [OF that] by (auto intro: returns_mono [OF Suc.IH])
  moreover have "adds_packets (Suc fuel) st st1" if "adds_packets 1 st st1" for st1
    using that by (rule adds_packets_mono) simp
  ultimately show ?case
    by (auto intro!: returns_bind returns_bind' [OF ipfix_data_set_to_store_keeps] simp: Let_def split: option.split)
qed simp

lemma ipfix_options_set_to_store_keeps: "returns (adds_packets 0 st) (ipfix_options_set_to_store env bs i t st)"
  by (auto simp: ipfix_options_set_to_store_def Let_def intro!: returns_bind)

lemma process_ipfix_options_data_set_keeps:
  "returns (\<lambda>(_, st'). adds_packets n st st') (process_ipfix_options_data_set env bs i offset e t st)"
proof -
  have "adds_packets n st st'" if "adds_packets 0 (nf_bump c st) st'" for c st'
    using that adds_packets_mono [of 0 st st' n] by simp
  then show ?thesis
    by (auto simp: process_ipfix_options_data_set_def Let_def intro!: returns_bind' [OF ipfix_options_set_to_store_keeps])
qed

lemma process_ipfix_regular_data_set_keeps:
  "returns (\<lambda>(_, st'). adds_packets (Suc l) st st') (process_ipfix_regular_data_set env time_sec bs i offset l t st)"
proof -
  have "(l - offset) div total_length t \<le> Suc l"
    by (meson div_le_dividend diff_le_self le_SucI order_trans)
  then have "adds_packets (Suc l) st st'" if "adds_packets ((l - offset) div total_length t) st st'" for st'
    using that adds_packets_mono by blast
  then show ?thesis
    using ipfix_variable_flows_keep [of "Suc l" st]
    by (auto simp: process_ipfix_regular_data_set_def Let_def intro!: returns_bind' [OF ipfix_fixed_flows_keep] simp del: ipfix_variable_flows.simps)
qed

lemma process_ipfix_data_set_keeps:
  "returns (\<lambda>(_, st'). adds_packets (Suc l) st st') (process_ipfix_data_set env time_sec bs i l source_id st)"
  using process_ipfix_options_data_set_keeps [of "Suc l" st] process_ipfix_regular_data_set_keeps [of l st]
  by (auto simp: process_ipfix_data_set_def intro!: returns_bind split: option.split netflow_template_type_t.split)

lemma adds_packets_ipfix_sound: "adds_packets n st st' \<Longrightarrow> ipfix_templates_ok st \<Longrightarrow> ipfix_sound_after env n st st'"
  by (auto simp: adds_packets_def ipfix_sound_after_def ipfix_templates_ok_def)

lemma process_ipfix_template_sets_keep:
  assumes "ipfix_templates_ok st"
  shows "returns (\<lambda>(_, st'). ipfix_sound_after env n st st') (process_ipfix_data_template_set env bs i l source_id (nf_bump c st))"
    "returns (\<lambda>(_, st'). ipfix_sound_after env n st st') (process_ipfix_options_template_set env bs i l source_id (nf_bump c st))"
  using assms ipfix_sound_after_mono [of env 0 st _ n]
  by (auto simp: process_ipfix_data_template_set_def process_ipfix_options_template_set_def intro!: returns_bind
      returns_mono [OF ipfix_data_templates_loop_keeps] returns_mono [OF ipfix_options_templates_loop_keeps])

lemma process_ipfix_set_keeps:
  assumes "ipfix_templates_ok st"
  shows "returns (\<lambda>(_, st'). ipfix_sound_after env (Suc l) st st') (process_ipfix_set env time_sec bs i set_id l source_id st)"
proof -
  have "returns (\<lambda>(_, st'). ipfix_sound_after env (Suc l) st st') (process_ipfix_data_set env time_sec bs i l source_id (nf_bump c st))" for c
    using assms adds_packets_ipfix_sound by (intro returns_mono [OF process_ipfix_data_set_keeps]) auto
  then show ?thesis
    using assms process_ipfix_template_sets_keep [OF assms] by (simp add: process_ipfix_set_def)
qed

lemma u16_below: "unat (w :: u16) < 65536"
  using unsigned_less [of w] by simp

lemma process_ipfix_sets_keep:
  "ipfix_templates_ok st \<Longrightarrow> returns (\<lambda>(_, st'). ipfix_sound_after env (n * 65537) st st')
    (process_ipfix_sets n env time_sec bs offset packet_length source_id st)"
proof (induction n arbitrary: offset st)
  case (Suc n)
  have again: "returns (\<lambda>(_, st'). ipfix_sound_after env (Suc n * 65537) st st') (process_ipfix_sets n env time_sec bs j packet_length source_id st1)"
    if "ipfix_sound_after env 65537 st st1" for j st1
    using ipfix_sound_after_trans [OF that] by (intro returns_mono [OF Suc.IH [OF ipfix_sound_after_ok [OF that]]]) auto
  have stop: "ipfix_sound_after env (Suc n * 65537) st st1" if "ipfix_sound_after env 65537 st st1" for st1
    using that by (rule ipfix_sound_after_mono) simp
  have "returns (\<lambda>(_, st'). ipfix_sound_after env 65537 st st') (process_ipfix_set env time_sec bs offset set_id l source_id st)" if "l < 65536" for set_id l
    using that by (intro returns_mono [OF process_ipfix_set_keeps [OF Suc.prems]]) (auto intro: ipfix_sound_after_mono)
  note one = returns_bind' [OF this]
  have "returns (\<lambda>(set_id, l). l < 65536) (deref 4 (\<lambda>d. (be16_at d 0, unat (be16_at d 2))) bs offset)"
    using u16_below by (simp add: returns_def deref_def)
  then show ?case
    using Suc.prems again stop by (auto intro!: one elim!: returns_bind')
qed simp

lemma process_ipfix_packet_keeps:
  assumes "ipfix_templates_ok st"
  shows "returns (\<lambda>(_, st'). ipfix_sound_after env (256 * 65537) st st') (process_ipfix_packet env bs st)"
proof -
  have sets: "returns (\<lambda>(_, st'). ipfix_sound_after env (256 * 65537) st st')
      (process_ipfix_sets 256 env time_sec bs i l source_id (if b then nf_bump d (nf_bump c st) else nf_bump c st))"
    for time_sec i l source_id b c d
    using assms process_ipfix_sets_keep [of "nf_bump c st" env 256 time_sec bs i l source_id]
      process_ipfix_sets_keep [of "nf_bump d (nf_bump c st)" env 256 time_sec bs i l source_id]
    by (cases b) (simp_all del: process_ipfix_sets.simps)
  show ?thesis
    unfolding process_ipfix_packet_def Let_def sets_per_packet_maximum_number_def
    by (intro returns_if returns_bind returns_prod sets) (use assms in simp_all)
qed

section \<open>Memory safety and termination\<close>

definition ipfix_risky_types :: "u32 list" where
  "ipfix_risky_types = [152, 153]"

lemma calm_when_length: "calm_action a \<Longrightarrow> calm_action (when_length ok a)"
  by (simp add: when_length_def ipfix_too_large_def)

lemma calm_port: "(\<And>w p. flow_start (set_port w p) = flow_start p \<and> flow_end (set_port w p) = flow_end p) \<Longrightarrow>
    calm_action (port_of_protocol proto n set_port)"
  by (auto simp: port_of_protocol_def calm_action_def [of "No_read f" for f] intro!: calm_packet_field)

lemma calm_nanoseconds: "calm_time (nanoseconds_to_milliseconds (sint (w :: u64)))"
proof -
  have "- 9223372036854775808 \<le> sint w" "sint w < 9223372036854775808"
    using sint_range_size [of w] by (simp_all add: word_size)
  then show ?thesis
    by (auto simp: calm_time_def nanoseconds_to_milliseconds_def)
qed

lemma calm_ipfix_field: "t \<notin> set ipfix_risky_types \<Longrightarrow> calm_action (ipfix_field t n)"
proof -
  assume "t \<notin> set ipfix_risky_types"
  moreover have "ipfix_volume_field t n = Some a \<Longrightarrow> calm_action a" for a
    by (auto simp: ipfix_volume_field_def set_in_bytes_def set_in_packets_def set_protocol_def set_total_bytes_def Let_def
        intro!: calm_when_length calm_packet_field split: if_splits)
  moreover have "ipfix_port_field t n = Some a \<Longrightarrow> calm_action a" for a
    by (auto simp: ipfix_port_field_def set_source_port_def set_destination_port_def intro!: calm_when_length calm_packet_field calm_port split: if_splits)
  moreover have "ipfix_address_field t n = Some a \<Longrightarrow> calm_action a" for a
    by (auto simp: ipfix_address_field_def intro!: calm_when_length calm_packet_field calm_meta_field split: if_splits)
  moreover have "ipfix_routing_field t n = Some a \<Longrightarrow> calm_action a" for a
    by (auto simp: ipfix_routing_field_def intro!: calm_when_length calm_packet_field split: if_splits)
  moreover have "ipfix_time_field t n = Some a \<Longrightarrow> t \<notin> set ipfix_risky_types \<Longrightarrow> calm_action a" for a
    by (auto simp: ipfix_time_field_def ipfix_risky_types_def calm_nanoseconds intro!: calm_when_length calm_packet_field split: if_splits)
  moreover have "ipfix_status_field t n = Some a \<Longrightarrow> calm_action a" for a
    by (auto simp: ipfix_status_field_def calm_action_def [of "Read_field f" for f] calm_next_def calm_defs counted_as_def
        intro!: calm_when_length calm_meta_field split: if_splits option.splits)
  ultimately show ?thesis
    unfolding ipfix_field_def by (intro calm_first_case) auto
qed

text \<open>The section of a frame is read safely when no variable length is remembered or the remembered one fits.\<close>

lemma ipfix_frame_section_end:
  assumes "variable_field_length_encoding (dec_meta fl) = unknown_encoding
    \<or> i + variable_field_length (dec_meta fl) + (if variable_field_length_encoding (dec_meta fl) = single_byte then 1 else 3) \<le> length bs"
  shows "ends (calm_next fl) (ipfix_frame_section bs i fl)"
  unfolding ipfix_frame_section_def Let_def
  using assms by (auto intro!: ends_bind [OF parser_ends] simp: calm_next_def calm_defs counted_as_def ac_simps)

definition length_fits :: "variable_length_encoding_info_t \<Rightarrow> bool" where
  "length_fits info \<longleftrightarrow> 2 \<le> info_record_full_length info \<and> info_length_encoding info \<noteq> unknown_encoding
     \<and> info_record_full_length info = info_field_length info + (if info_length_encoding info = single_byte then 1 else 3)"

lemma read_ipfix_variable_length_field_end:
  assumes "packet_ptr + m \<le> length bs"
  shows "ends (\<lambda>res. \<forall>info. res = Field_length info \<longrightarrow> length_fits info) (read_ipfix_variable_length_field bs packet_ptr offset m)"
proof -
  have "1 \<le> unat b" if "b \<noteq> 0" for b :: u8
    using that by (simp add: Suc_le_eq unat_gt_0)
  then show ?thesis
    using assms by (auto simp: read_ipfix_variable_length_field_def Let_def length_fits_def)
qed

text \<open>
  A frame section with a fixed length behind a field of variable length would be read with a length that is not its own.
\<close>

definition sections_have_length :: "template_record_t list \<Rightarrow> bool" where
  "sections_have_length rs \<longleftrightarrow> list_all (\<lambda>r. record_type r = 315 \<longrightarrow> record_length r = variable_length) rs"

definition read_to :: "nat \<Rightarrow> nat \<Rightarrow> bool \<Rightarrow> nat option \<Rightarrow> bool" where
  "read_to offset m variable res \<longleftrightarrow> (\<forall>j. res = Some j \<longrightarrow> offset \<le> j \<and> j \<le> m \<and> (variable \<longrightarrow> offset + 2 \<le> j))"

lemma ipfix_record_to_flow_end:
  assumes "t \<notin> set ipfix_risky_types" "i + n \<le> length bs"
    "t = 315 \<longrightarrow> variable_field_length_encoding (dec_meta fl) = unknown_encoding
      \<or> i + variable_field_length (dec_meta fl) + (if variable_field_length_encoding (dec_meta fl) = single_byte then 1 else 3) \<le> length bs"
  shows "ends (calm_next fl) (ipfix_record_to_flow t n bs i fl)"
  using assms ipfix_frame_section_end calm_apply_field [OF calm_ipfix_field] by (simp add: ipfix_record_to_flow_def)

lemma ipfix_read_field_end:
  assumes "packet_ptr + m \<le> length bs" "t \<notin> set ipfix_risky_types" "calm fl" "variable \<longrightarrow> 2 \<le> n"
    "offset + n \<le> m \<Longrightarrow> t = 315 \<Longrightarrow> variable_field_length_encoding (dec_meta fl) = unknown_encoding \<or> packet_ptr + offset
      + variable_field_length (dec_meta fl) + (if variable_field_length_encoding (dec_meta fl) = single_byte then 1 else 3) \<le> length bs"
    "\<And>fl'. calm_next fl fl' \<Longrightarrow> calm fl' \<Longrightarrow> offset + n \<le> m \<Longrightarrow>
      ends (\<lambda>(res, fl''). calm fl'' \<and> read_to (offset + n) m rest_variable res) (continue (offset + n) fl')"
  shows "ends (\<lambda>(res, fl'). calm fl' \<and> read_to offset m (variable \<or> rest_variable) res) (ipfix_read_field continue t n bs packet_ptr offset m fl)"
proof (cases "offset + n > m")
  case False
  have "ends (calm_next fl) (ipfix_record_to_flow t n bs (packet_ptr + offset) fl)"
    using assms(1,2,5) False by (intro ipfix_record_to_flow_end) auto
  moreover have "ends (\<lambda>(res, fl'). calm fl' \<and> read_to offset m (variable \<or> rest_variable) res) (continue (offset + n) fl')"
    if "calm_next fl fl'" for fl'
  proof -
    have "calm fl'" "offset + n \<le> m"
      using that assms(3) False by (simp_all add: calm_next_def)
    note rest = assms(6) [OF that this]
    show ?thesis
      by (rule ends_mono [OF rest]) (use assms(4) in \<open>auto simp: read_to_def\<close>)
  qed
  ultimately show ?thesis
    using False by (auto simp: ipfix_read_field_def elim!: ends_bind)
qed (simp add: assms ipfix_read_field_def read_to_def)

lemma uses_variable_length_Cons [simp]:
  "uses_variable_length (r # rs) \<longleftrightarrow> record_length r = variable_length \<or> uses_variable_length rs"
  by (simp add: uses_variable_length_def)

lemma read_to_None [simp]: "read_to offset m variable None"
  by (simp add: read_to_def)

lemma calm_counted_flow [simp]: "calm (counted_as c fl) \<longleftrightarrow> calm fl"
  by (simp add: calm_defs counted_as_def)

lemma ipfix_fields_end:
  assumes "packet_ptr + m \<le> length bs" "offset \<le> m" "list_all (\<lambda>r. record_type r \<notin> set ipfix_risky_types) rs"
    "sections_have_length rs \<or> \<not> uses_variable_length rs \<and> variable_field_length_encoding (dec_meta fl) = unknown_encoding" "calm fl"
  shows "ends (\<lambda>(res, fl'). calm fl' \<and> read_to offset m (uses_variable_length rs) res) (ipfix_fields rs bs packet_ptr offset m fl)"
  using assms(2-)
proof (induction rs arbitrary: offset fl)
  case (Cons r rs)
  have rest: "ends (\<lambda>(res, fl''). calm fl'' \<and> read_to j m (uses_variable_length rs) res) (ipfix_fields rs bs packet_ptr j m fl')"
    if "calm fl'" "j \<le> m" "sections_have_length rs \<or> \<not> uses_variable_length (r # rs)
      \<and> variable_field_length_encoding (dec_meta fl') = unknown_encoding" for j fl'
    using that Cons.prems(2) by (intro Cons.IH) auto
  show ?case
  proof (cases "record_length r = variable_length")
    case True
    then have sections: "sections_have_length rs"
      using Cons.prems(3) by (simp add: sections_have_length_def)
    have calm': "calm (remember_length info fl)" for info
      using Cons.prems(4) by (simp add: remember_length_def calm_defs)
    have "ends (\<lambda>(res, fl'). calm fl' \<and> read_to offset m (True \<or> uses_variable_length rs) res) (ipfix_read_field (\<lambda>j. ipfix_fields rs bs packet_ptr j m)
        (record_type r) (info_record_full_length info) bs packet_ptr offset m (remember_length info fl))" if "length_fits info" for info
      using assms(1) Cons.prems(2) that calm' sections rest
      by (intro ipfix_read_field_end) (auto simp: remember_length_def length_fits_def)
    then show ?thesis
      using True Cons.prems(4)
      by (auto simp: Let_def intro!: ends_bind [OF read_ipfix_variable_length_field_end [OF assms(1)]] split: variable_length_result.split)
  next
    case False
    have "ends (\<lambda>(res, fl'). calm fl' \<and> read_to offset m (False \<or> uses_variable_length rs) res) (ipfix_read_field (\<lambda>j. ipfix_fields rs bs packet_ptr j m)
        (record_type r) (record_length r) bs packet_ptr offset m fl)"
      using assms(1) Cons.prems(2-4) False rest
      by (intro ipfix_read_field_end) (auto simp: sections_have_length_def calm_next_def)
    with False show ?thesis
      by (simp add: Let_def)
  qed
qed (simp add: read_to_def uses_variable_length_def)

lemma ipfix_data_set_to_store_end:
  assumes "i + m \<le> length bs" "list_all (\<lambda>r. record_type r \<notin> set ipfix_risky_types) (template_records t)"
    "sections_have_length (template_records t) \<or> \<not> uses_variable_length (template_records t)"
  shows "ends (\<lambda>(res, _). read_to 0 m (uses_variable_length (template_records t)) res) (ipfix_data_set_to_store env time_sec bs i m t st)"
proof -
  have fields: "ends (\<lambda>(res, fl'). calm fl' \<and> read_to 0 m (uses_variable_length (template_records t)) res)
      (ipfix_fields (template_records t) bs i 0 m \<lparr>dec_packet = packet, dec_meta = netflow_meta_info_default, dec_sampling_rate = 0,
         dec_metrics = metrics\<rparr>)"
    if "flow_start packet = 0" "flow_end packet = 0" for packet metrics
    using assms that by (intro ipfix_fields_end) (auto simp: calm_defs netflow_meta_info_default_def)
  have times: "calm_time (flow_end packet') \<and> calm_time (flow_start packet')"
    if "calm fl" "ipfix_adjust_version (if b then override_packet_fields_from_nested_packet (dec_packet fl) nested else dec_packet fl) st = (packet', st')"
    for fl b nested st packet' st'
    using that by (auto simp: ipfix_adjust_version_def calm_defs override_packet_fields_from_nested_packet_def split: if_splits)
  show ?thesis
    unfolding ipfix_data_set_to_store_def Let_def
    by (rule ends_bind [OF fields]) (auto simp: simple_packet_default_def calm_difference dest: times split: option.split prod.split)
qed

lemma padding_end: "i + n \<le> length bs \<Longrightarrow> ends (\<lambda>_. True) (are_all_padding_bytes_are_zero bs i n)"
proof (induction n arbitrary: i)
  case (Suc n)
  then show ?case
    by simp
qed simp

text \<open>Every flow with a field of variable length takes at least two bytes, so a fuel above the number of bytes is enough.\<close>

lemma ipfix_variable_flows_end:
  assumes "section_start + section_length \<le> length bs" "list_all (\<lambda>r. record_type r \<notin> set ipfix_risky_types) (template_records t)"
    "sections_have_length (template_records t)" "uses_variable_length (template_records t)"
  shows "offset \<le> section_length \<Longrightarrow> section_length - offset < fuel \<Longrightarrow> available = section_length - offset \<Longrightarrow>
    ends (\<lambda>_. True) (ipfix_variable_flows fuel env time_sec bs section_start offset section_length available t st)"
proof (induction fuel arbitrary: offset available st)
  case (Suc fuel)
  show ?case
  proof (cases "offset < section_length")
    case True
    have "ends (\<lambda>(res, _). read_to 0 available True res) (ipfix_data_set_to_store env time_sec bs (section_start + offset) available t st)"
      using ipfix_data_set_to_store_end [of "section_start + offset" available bs t env time_sec st] assms Suc.prems by simp
    moreover have "ends (\<lambda>_. True) (ipfix_variable_flows fuel env time_sec bs section_start (offset + j) section_length (available - j) t st1)"
      if "read_to 0 available True (Some j)" for j st1
      using that Suc.prems True by (intro Suc.IH) (auto simp: read_to_def)
    moreover have "ends (\<lambda>_. True) (and_then (are_all_padding_bytes_are_zero bs (section_start + (offset + j)) (available - j)) (\<lambda>z. Done (z, st1)))"
      if "read_to 0 available True (Some j)" for j and st1 :: netflow_state
      using that Suc.prems assms(1) by (intro ends_bind [OF padding_end]) (auto simp: read_to_def)
    ultimately show ?thesis
      using True by (auto simp: Let_def elim!: ends_bind split: option.split)
  qed simp
qed simp

lemma ipfix_fixed_flows_end:
  assumes "list_all (\<lambda>r. record_type r \<notin> set ipfix_risky_types) (template_records t)" "\<not> uses_variable_length (template_records t)"
  shows "i + n * total_length t \<le> length bs \<Longrightarrow> ends (\<lambda>_. True) (ipfix_fixed_flows env time_sec bs i t n st)"
proof (induction n arbitrary: i st)
  case (Suc n)
  have "ends (\<lambda>(res, _). read_to 0 (total_length t) False res) (ipfix_data_set_to_store env time_sec bs i (total_length t) t st)"
    using ipfix_data_set_to_store_end [of i "total_length t" bs t env time_sec st] assms Suc.prems by simp
  then show ?case
    using Suc.IH Suc.prems by (auto simp: add.assoc elim!: ends_bind)
qed simp

definition calm_ipfix_template :: "template_t \<Rightarrow> bool" where
  "calm_ipfix_template t \<longleftrightarrow> (template_type t = Data \<longrightarrow>
     list_all (\<lambda>r. record_type r \<notin> set ipfix_risky_types) (template_records t)
     \<and> (uses_variable_length (template_records t) \<longrightarrow> sections_have_length (template_records t)))"

lemma process_ipfix_regular_data_set_end:
  assumes "ipfix_template_ok t" "calm_ipfix_template t" "template_type t = Data" "packet + l \<le> length bs" "4 \<le> l"
  shows "ends (\<lambda>_. True) (process_ipfix_regular_data_set env time_sec bs packet 4 l t st)"
proof (cases "uses_variable_length (template_records t)")
  case True
  then have "ends (\<lambda>_. True) (ipfix_variable_flows (Suc l) env time_sec bs (packet + 4) 0 (l - 4) (l - 4) t st)"
    using assms by (intro ipfix_variable_flows_end) (auto simp: calm_ipfix_template_def)
  with True assms(1) show ?thesis
    by (simp add: process_ipfix_regular_data_set_def ipfix_template_ok_def del: ipfix_variable_flows.simps)
next
  case False
  have "packet + 4 + (l - 4) div total_length t * total_length t \<le> length bs"
    using assms(4,5) div_times_less_eq_dividend [of "l - 4" "total_length t"] by linarith
  then have "ends (\<lambda>_. True) (ipfix_fixed_flows env time_sec bs (packet + 4) t ((l - 4) div total_length t) st1)" for st1
    using assms False by (intro ipfix_fixed_flows_end) (auto simp: calm_ipfix_template_def)
  note flows = ends_bind [OF this]
  from False assms(1) show ?thesis
    by (auto simp: process_ipfix_regular_data_set_def ipfix_template_ok_def Let_def intro!: flows)
qed

lemma systematic_sampling_rate_end: "ends (\<lambda>_. True) (systematic_sampling_rate opt)"
proof -
  have "ends (\<lambda>_. True) (to_uint32 (to_double (to_double (of_int (uint a)) / to_double (of_int (uint b)))))" if "b \<noteq> 0" for a b :: u32
  proof -
    have exact: "to_double (of_int (uint w)) = of_int (uint w)" for w :: u32
      using uint_below [of w] by (intro to_double_int) auto
    have "1 \<le> uint b"
      using that uint_ge_0 [of b] by (simp add: int_one_le_iff_zero_less uint_0_iff less_le)
    then have b: "(1 :: rat) \<le> of_int (uint b)"
      by (simp only: of_int_1_le_iff)
    have "(of_int (uint a) :: rat) \<le> of_int 4294967295"
      using uint_below [of a] by (subst of_int_le_iff) simp
    then have "of_int (uint a) / of_int (uint b) \<le> (of_int 4294967295 :: rat)"
      using b by (simp add: divide_le_eq)
    from to_double_mono [OF this] have "to_double (of_int (uint a) / of_int (uint b)) \<le> 4294967295"
      using to_double_int [of 4294967295] by simp
    moreover have "(0 :: rat) \<le> of_int (uint a) / of_int (uint b)"
      using b by (intro divide_nonneg_nonneg) (simp_all only: of_int_0_le_iff uint_ge_0)
    then have "to_double 0 \<le> to_double (of_int (uint a) / of_int (uint b))"
      by (rule to_double_mono)
    moreover have "to_double 0 = 0"
      by (simp add: to_double_def)
    ultimately show ?thesis
      unfolding exact by (simp add: to_uint32_def)
  qed
  note rate = ends_bind [OF this]
  show ?thesis
  proof (cases "sampling_selector_algorithm opt = 1 \<and> sampling_packet_interval opt \<noteq> 0")
    case True
    show ?thesis
      unfolding systematic_sampling_rate_def if_P [OF True] by (rule rate) (use True in simp_all)
  qed (auto simp: systematic_sampling_rate_def)
qed

lemma ipfix_options_fields_end:
  "i + total_record_length rs \<le> length bs \<Longrightarrow> ends (\<lambda>_. True) (ipfix_options_fields rs bs i opt)"
proof (induction rs arbitrary: i opt)
  case (Cons r rs)
  have "i + record_length r \<le> length bs"
    using Cons.prems by (simp add: total_record_length_def)
  then have "ends (\<lambda>_. True) (ipfix_options_field r bs i opt)"
    by (auto simp: ipfix_options_field_def Let_def)
  then show ?case
    using Cons.IH Cons.prems by (auto simp: total_record_length_def add.assoc elim!: ends_bind)
qed simp

lemma process_ipfix_options_data_set_end:
  assumes "ipfix_template_ok t" "template_type t = Options" "set_end \<le> length bs"
  shows "ends (\<lambda>_. True) (process_ipfix_options_data_set env bs packet 4 set_end t st)"
proof -
  have "ends (\<lambda>_. True) (ipfix_options_set_to_store env bs (packet + 4) t st1)" if "\<not> packet + 4 + total_length t > set_end" for st1
    using that assms
    by (auto simp: ipfix_options_set_to_store_def ipfix_template_ok_def Let_def
        intro!: ends_bind [OF ipfix_options_fields_end] ends_bind [OF systematic_sampling_rate_end])
  note store = ends_bind [OF this]
  show ?thesis
    by (auto simp: process_ipfix_options_data_set_def Let_def intro!: store)
qed

lemma process_ipfix_data_set_end:
  assumes "ipfix_templates_ok st" "packet + l \<le> length bs"
    "\<And>tid t. peer_find_template (global_ipfix_templates st) source_id tid (client_address env) = Some t \<Longrightarrow> calm_ipfix_template t"
  shows "ends (\<lambda>_. True) (process_ipfix_data_set env time_sec bs packet l source_id st)"
  using assms(2,3) ipfix_template_found_ok [OF assms(1)]
  by (auto simp: process_ipfix_data_set_def intro!: process_ipfix_regular_data_set_end process_ipfix_options_data_set_end
      split: option.split netflow_template_type_t.split)

lemma read_field_specifiers_end: "packet + l \<le> length bs \<Longrightarrow> ends (\<lambda>_. True) (read_field_specifiers bs packet i l n)"
proof (induction n arbitrary: i)
  case (Suc n)
  have "ends (\<lambda>_. True) (read_field_specifier bs packet i l)"
    using Suc.prems by (auto simp: read_field_specifier_def)
  then show ?case
    using Suc.prems by (auto intro!: ends_bind [OF Suc.IH] elim!: ends_bind split: option.split)
qed simp

lemma read_scope_specifiers_end: "packet + l \<le> length bs \<Longrightarrow> ends (\<lambda>_. True) (read_scope_specifiers bs packet i l n)"
proof (induction n arbitrary: i)
  case (Suc n)
  then show ?case
    by (auto intro!: ends_bind [OF Suc.IH])
qed simp

lemma read_ipfix_templates_end:
  assumes "packet + l \<le> length bs"
  shows "ends (\<lambda>_. True) (read_ipfix_options_template env bs packet i l source_id st)"
    "ends (\<lambda>_. True) (read_ipfix_data_template env bs packet i l source_id st)"
  using assms
  by (auto simp: read_ipfix_options_template_def read_ipfix_data_template_def split: option.split
      intro!: ends_bind [OF read_scope_specifiers_end] ends_bind [OF read_field_specifiers_end])

lemma ipfix_options_templates_loop_end:
  "packet + l \<le> length bs \<Longrightarrow> ends (\<lambda>_. True) (ipfix_options_templates_loop env bs packet i l source_id st)"
proof (induction env bs packet i l source_id st rule: ipfix_options_templates_loop.induct)
  case (1 env bs packet i l source_id st)
  have padding: "ends (\<lambda>_. True) (and_then (are_all_padding_bytes_are_zero bs (packet + j) (l - j)) (\<lambda>z. Done (z, st1)))"
    if "read_ipfix_options_template env bs packet i l source_id st = Done (Some (j, st1))" for j st1
    using "1.prems" read_ipfix_options_template_offset [OF that] by (intro ends_bind [OF padding_end]) auto
  show ?case
    using "1.IH" "1.prems" padding
    by (subst ipfix_options_templates_loop.simps) (auto intro!: ends_bind [OF read_ipfix_templates_end(1)] split: option.split)
qed

lemma ipfix_data_templates_loop_end:
  "packet + l \<le> length bs \<Longrightarrow> ends (\<lambda>_. True) (ipfix_data_templates_loop env bs packet i l source_id st)"
proof (induction env bs packet i l source_id st rule: ipfix_data_templates_loop.induct)
  case (1 env bs packet i l source_id st)
  then show ?case
    by (subst ipfix_data_templates_loop.simps) (auto intro!: ends_bind [OF read_ipfix_templates_end(2)] split: option.split)
qed

text \<open>
  C20. Sets of IPFIX are processed safely and to an end: while the stored templates are sound, a set inside of the packet is processed without
  reading outside of the packet, whatever its bytes are, the loop over flows of variable length ends included, and leads to no more
  packets than it has bytes, and one. Data templates with the field types 152 and 153, whose difference can overflow, and
  those in which a frame section of fixed length stands beside fields of variable length have to be excluded.
\<close>

theorem ipfix_set_safe:
  assumes "ipfix_templates_ok st" "offset + l \<le> length bs"
    "\<forall>tid t. peer_find_template (global_ipfix_templates st) source_id tid (client_address env) = Some t \<longrightarrow> calm_ipfix_template t"
  shows "\<exists>ok st' ps. process_ipfix_set env time_sec bs offset set_id l source_id st = Done (ok, st')
    \<and> ipfix_templates_ok st' \<and> netflow_processed st' = netflow_processed st @ ps \<and> length ps \<le> Suc l"
proof -
  have data: "ends (\<lambda>_. True) (process_ipfix_data_set env time_sec bs offset l source_id (nf_bump c st))" for c
    using assms by (intro process_ipfix_data_set_end) auto
  have templates: "ends (\<lambda>_. True) (process_ipfix_data_template_set env bs offset l source_id st1)"
      "ends (\<lambda>_. True) (process_ipfix_options_template_set env bs offset l source_id st1)" for st1
    using assms(2) ipfix_data_templates_loop_end [OF assms(2)] ipfix_options_templates_loop_end [OF assms(2)]
    by (auto simp: process_ipfix_data_template_set_def process_ipfix_options_template_set_def)
  have "ends (\<lambda>_. True) (process_ipfix_set env time_sec bs offset set_id l source_id st)"
    using data templates by (simp add: process_ipfix_set_def)
  from ends_returns [OF this process_ipfix_set_keeps [OF assms(1)]] show ?thesis
    by (auto simp: ends_def ipfix_sound_after_def)
qed

lemma ipfix_set_safe_witness:
  "\<exists>ok st' ps. process_ipfix_set exporter_environment 5 [0, 2, 0, 12, 1, 0, 0, 1, 0, 8, 0, 4] 0 2 12 1 netflow_init = Done (ok, st')
    \<and> ipfix_templates_ok st' \<and> netflow_processed st' = netflow_processed netflow_init @ ps \<and> length ps \<le> Suc 12"
  by (rule ipfix_set_safe [OF ipfix_templates_ok_init]) (simp_all add: netflow_init_def peer_find_template_def)

section \<open>Well-formed packets\<close>

definition ipfix_header :: "nat \<Rightarrow> u32 \<Rightarrow> u32 \<Rightarrow> u32 \<Rightarrow> bytes" where
  "ipfix_header packet_length time_sec seq_no source_id = be16_bytes 10 @ be16_bytes (of_nat packet_length) @ be32_bytes time_sec
     @ be32_bytes seq_no @ be32_bytes source_id"

lemma length_ipfix_header [simp]: "length (ipfix_header n t q s) = 16"
  by (simp add: ipfix_header_def)

lemma ipfix_header_read:
  assumes "n < 2 ^ 16" "length rest + 16 = n"
  shows "process_ipfix_packet env (ipfix_header n t q s @ rest) st
    = process_ipfix_sets 256 env t (ipfix_header n t q s @ rest) 16 n s (nf_bump ''ipfix_total_packets'' st)"
proof -
  have "deref 16 (\<lambda>d. (unat (be16_at d 2), be32_at d 4, be32_at d 12)) (ipfix_header n t q s @ rest) 0 = Done (n, t, s)"
    using unat_small(2) [OF assms(1)]
    by (subst deref_holds [where d = "ipfix_header n t q s"]) (simp_all add: holds_at_def, simp add: ipfix_header_def be_at_skip)
  with assms(2) show ?thesis
    by (simp add: process_ipfix_packet_def Let_def sets_per_packet_maximum_number_def del: process_ipfix_sets.simps)
qed

lemma ipfix_set_step:
  assumes "holds_at bs offset (set_header set_id l)" "offset + l \<le> packet_length" "4 \<le> l" "l < 2 ^ 16"
  shows "process_ipfix_sets (Suc n) env t bs offset packet_length s st =
    and_then (process_ipfix_set env t bs offset set_id l s st) (\<lambda>(ok, st).
      if \<not> ok then Done (False, st) else if offset + l = packet_length then Done (True, st)
      else process_ipfix_sets n env t bs (offset + l) packet_length s st)"
  using assms(2,3) set_header_read [OF assms(1,4)] by (simp del: deref_inside)

definition plain_field :: "u16 \<times> nat \<Rightarrow> bool" where
  "plain_field f \<longleftrightarrow> (ucast (fst f) :: u32) AND IPFIX_ENTERPRISE = 0 \<and> snd f < 2 ^ 16"

lemma field_specifiers_read:
  "holds_at bs (pkt + i) (concat (map (\<lambda>(t, n). set_header t n) fs)) \<Longrightarrow> i + 4 * length fs \<le> l \<Longrightarrow> list_all plain_field fs \<Longrightarrow>
    read_field_specifiers bs pkt i l (length fs) = Done (Some (map record_of_field fs, i + 4 * length fs))"
proof (induction fs arbitrary: i)
  case (Cons f fs)
  obtain t n where f: "f = (t, n)"
    by (cases f)
  have "deref 4 netflow9_template_flowset_record_of bs (pkt + i) = Done (record_of_field f)"
    using Cons.prems unat_small(2) [of n]
    by (subst deref_holds [where d = "set_header t n"])
      (simp_all add: f plain_field_def netflow9_template_flowset_record_of_def record_of_field_def set_header_def be_at_skip)
  then have "read_field_specifier bs pkt i l = Done (Some (record_of_field f, i + 4))"
    using Cons.prems by (simp add: read_field_specifier_def plain_field_def record_of_field_def del: deref_inside)
  then show ?case
    using Cons.IH [of "i + 4"] Cons.prems by (simp add: f add.assoc)
qed simp

definition ipfix_template_set :: "u16 \<Rightarrow> (u16 \<times> nat) list \<Rightarrow> bytes" where
  "ipfix_template_set tid fs = set_header 2 (8 + 4 * length fs) @ set_header tid (length fs) @ concat (map (\<lambda>(t, n). set_header t n) fs)"

definition ipfix_template_of :: "netflow_environment \<Rightarrow> u16 \<Rightarrow> (u16 \<times> nat) list \<Rightarrow> template_t" where
  "ipfix_template_of env tid fs = \<lparr>template_id = tid, num_records = length fs,
     total_length = fixed_length_before_variable (map record_of_field fs), option_scope_length = 0,
     ipfix_variable_length_elements_used = uses_variable_length (map record_of_field fs), timestamp = netflow_current_time env,
     template_type = Data, template_records = map record_of_field fs\<rparr>"

lemma length_ipfix_template_set [simp]: "length (ipfix_template_set tid fs) = 8 + 4 * length fs"
  by (simp add: ipfix_template_set_def length_concat comp_def case_prod_beta sum_list_triv)

lemma ipfix_template_set_stored:
  assumes "holds_at bs pkt (ipfix_template_set tid fs)" "list_all plain_field fs" "length fs < 1000"
  shows "process_ipfix_set env t bs pkt 2 (8 + 4 * length fs) source_id st
    = Done (True, store_ipfix_template env source_id (ipfix_template_of env tid fs) (nf_bump ''ipfix_data_templates_number'' st))"
proof -
  have parts: "holds_at bs pkt (set_header 2 (8 + 4 * length fs))" "holds_at bs (pkt + 4) (set_header tid (length fs))"
      "holds_at bs (pkt + 8) (concat (map (\<lambda>(t, n). set_header t n) fs))"
    using assms(1) unfolding ipfix_template_set_def holds_at_append by (simp_all add: add.assoc)
  have "read_field_specifiers bs pkt 8 (8 + 4 * length fs) (length fs) = Done (Some (map record_of_field fs, 8 + 4 * length fs))"
    using field_specifiers_read [OF parts(3) _ assms(2)] by simp
  then have "read_ipfix_data_template env bs pkt 4 (8 + 4 * length fs) source_id st1
      = Done (Some (8 + 4 * length fs, store_ipfix_template env source_id (ipfix_template_of env tid fs) st1))" for st1
    using set_header_read [OF parts(2)] assms(3) by (simp add: read_ipfix_data_template_def ipfix_template_of_def del: deref_inside)
  then have "ipfix_data_templates_loop env bs pkt 4 (8 + 4 * length fs) source_id st1
      = Done (True, store_ipfix_template env source_id (ipfix_template_of env tid fs) st1)" for st1
    by (simp add: ipfix_data_templates_loop.simps [of env bs pkt 4] ipfix_data_templates_loop.simps [of env bs pkt "8 + 4 * length fs"])
  then show ?thesis
    using set_header_read [OF parts(1)] assms(3) by (simp add: process_ipfix_set_def process_ipfix_data_template_set_def del: deref_inside)
qed

text \<open>A packet with a template and a set of data for it: the set is processed with the template.\<close>

definition ipfix_packet :: "u32 \<Rightarrow> u32 \<Rightarrow> u32 \<Rightarrow> u16 \<Rightarrow> (u16 \<times> nat) list \<Rightarrow> bytes \<Rightarrow> bytes" where
  "ipfix_packet time_sec seq_no source_id tid fs payload = ipfix_header (28 + 4 * length fs + length payload) time_sec seq_no source_id
     @ ipfix_template_set tid fs @ set_header tid (4 + length payload) @ payload"

lemma ipfix_packet_parts:
  assumes "bs = ipfix_packet time_sec seq_no source_id tid fs payload"
  shows "length bs = 28 + 4 * length fs + length payload" "holds_at bs 16 (ipfix_template_set tid fs)"
    "holds_at bs (24 + 4 * length fs) (set_header tid (4 + length payload))" "holds_at bs (28 + 4 * length fs) payload"
proof -
  show "length bs = 28 + 4 * length fs + length payload"
    by (simp add: assms ipfix_packet_def)
  have "holds_at bs 0 bs"
    by simp
  then show "holds_at bs 16 (ipfix_template_set tid fs)"
    "holds_at bs (24 + 4 * length fs) (set_header tid (4 + length payload))" "holds_at bs (28 + 4 * length fs) payload"
    unfolding assms by (simp_all only: ipfix_packet_def holds_at_append) (simp_all add: ac_simps)
qed

lemma ipfix_template_then_data:
  assumes "table_ok (global_ipfix_templates st)" "256 \<le> tid" "list_all plain_field fs" "fs \<noteq> []" "length fs < 1000" "length payload < 60000"
    and bs: "bs = ipfix_packet time_sec seq_no source_id tid fs payload"
  shows "\<exists>st2 t. template_eq t (ipfix_template_of env tid fs) \<and> netflow_processed st2 = netflow_processed st
    \<and> ipfix_sampling_rates st2 = ipfix_sampling_rates st
    \<and> process_ipfix_packet env bs st = process_ipfix_regular_data_set env time_sec bs (24 + 4 * length fs) 4 (4 + length payload) t st2"
proof -
  define n where "n = 28 + 4 * length fs + length payload"
  define st1 where "st1 = nf_bump ''ipfix_data_templates_number'' (nf_bump ''ipfix_total_packets'' st)"
  define st2 where "st2 = nf_bump ''ipfix_data_packet_number'' (store_ipfix_template env source_id (ipfix_template_of env tid fs) st1)"
  note parts = ipfix_packet_parts [OF bs]
  obtain t where t: "peer_find_template (global_ipfix_templates st2) source_id (ucast tid) (client_address env) = Some t"
      "template_eq t (ipfix_template_of env tid fs)"
    using templates.find_added [of "global_ipfix_templates st1" "(client_address env, source_id, ucast tid)" "ipfix_template_of env tid fs"] assms(1)
    by (auto simp: st2_def st1_def store_ipfix_template_adds find_stored_def ipfix_template_of_def)
  then have known: "template_records t \<noteq> []" "template_type t = Data"
    using assms(4) by (auto simp: template_eq_def ipfix_template_of_def)
  have "tid \<noteq> 2" "tid \<noteq> 3" "\<not> tid < 256"
    using assms(2) by (auto simp: word_le_nat_alt word_less_nat_alt)
  moreover have "deref 2 (\<lambda>d. be16_at d 0) bs (24 + 4 * length fs) = Done tid"
    using set_header_read(2) [OF parts(3)] assms(6) by simp
  ultimately have data: "process_ipfix_set env time_sec bs (24 + 4 * length fs) tid (4 + length payload) source_id
      (store_ipfix_template env source_id (ipfix_template_of env tid fs) st1)
      = process_ipfix_regular_data_set env time_sec bs (24 + 4 * length fs) 4 (4 + length payload) t st2"
    using t(1) known by (simp add: process_ipfix_set_def process_ipfix_data_set_def st2_def del: deref_inside)
  have same: "and_then m (\<lambda>(ok, st). if \<not> ok then Done (False, st) else if i = n then Done (True, st) else rest st) = m"
    if "i = n" for i rest and m :: "(bool \<times> netflow_state) outcome"
    using that by (cases m) auto
  have "holds_at bs 16 (set_header 2 (8 + 4 * length fs))"
    using parts(2) by (simp add: ipfix_template_set_def)
  note first = ipfix_set_step [OF this, of n 255 env time_sec source_id]
  have sizes: "24 + 4 * length fs + (4 + length payload) \<le> n" "4 \<le> 4 + length payload" "4 + length payload < 2 ^ 16"
    using assms(6) by (simp_all add: n_def)
  have "process_ipfix_packet env bs st = process_ipfix_sets 256 env time_sec bs 16 n source_id (nf_bump ''ipfix_total_packets'' st)"
    using ipfix_header_read [of n] assms(5,6) by (simp add: bs ipfix_packet_def n_def del: process_ipfix_sets.simps)
  also have "\<dots> = process_ipfix_sets (Suc 254) env time_sec bs (24 + 4 * length fs) n source_id
      (store_ipfix_template env source_id (ipfix_template_of env tid fs) st1)"
    using first ipfix_template_set_stored [OF parts(2) assms(3,5)] assms(5,6) by (simp add: n_def st1_def del: process_ipfix_sets.simps)
  also have "\<dots> = process_ipfix_regular_data_set env time_sec bs (24 + 4 * length fs) 4 (4 + length payload) t st2"
    unfolding ipfix_set_step [OF parts(3) sizes] data by (rule same) (simp add: n_def)
  finally show ?thesis
    using t(2) by (intro exI [of _ st2] exI [of _ t])
      (auto simp: st2_def st1_def nf_bump_def store_ipfix_template_def split: template_update.split prod.split)
qed

text \<open>The flows of an exporter, with the fields and the layout used for NetFlow v9.\<close>

definition ipfix_exported_packet :: "netflow_environment \<Rightarrow> netflow_state \<Rightarrow> u32 \<Rightarrow> exported_flow \<Rightarrow> simple_packet_t" where
  "ipfix_exported_packet env st time_sec f = (exported_packet env st time_sec f)\<lparr>sample_ratio := ipfix_sample_ratio env st\<rparr>"

lemma ipfix_exported_fields_read:
  assumes "holds_at bs i (exported_bytes f)" "packet = simple_packet_default\<lparr>source := NETFLOW, arrival_time := now,
            agent_ipv4_address := agent, number_of_packets := 0, ts := time', sample_ratio := ratio, ip_protocol_version := 4\<rparr>"
  shows "ipfix_fields (map record_of_field exported_fields) bs i 0 34
       \<lparr>dec_packet = packet, dec_meta = netflow_meta_info_default, dec_sampling_rate = 0, dec_metrics = metrics\<rparr>
     = Done (Some 34, \<lparr>dec_packet = packet\<lparr>src_ip := exp_src f, dst_ip := exp_dst f, source_port := exp_src_port f,
     destination_port := exp_dst_port f, protocol := ucast (exp_protocol f), flags := exp_flags f, length' := ucast (exp_octets f),
     ip_length := ucast (exp_octets f), number_of_packets := ucast (exp_packets f), input_interface := ucast (exp_input f),
     output_interface := ucast (exp_output f), flow_start := uint (exp_first f), flow_end := uint (exp_last f)\<rparr>,
     dec_meta = netflow_meta_info_default, dec_sampling_rate = 0, dec_metrics = metrics\<rparr>)"
proof -
  have fresh: "length' packet = 0" "number_of_packets packet = 0" "protocol packet = 0"
    by (simp_all add: assms(2) simple_packet_default_def)
  show ?thesis
    by (simp add: exported_fields_def record_of_field_def variable_length_def ipfix_read_field_def ipfix_record_to_flow_def apply_field_def
        ipfix_field_def ipfix_volume_field_def ipfix_port_field_def ipfix_address_field_def ipfix_routing_field_def ipfix_time_field_def
        when_length_def packet_field_def exported_reads [OF assms(1)] exported_reads [OF assms(1), unfolded add.commute [of _ i]] fresh set_in_bytes_def
        set_in_packets_def set_protocol_def set_source_port_def set_destination_port_def be_short_or_long_def Let_def del: deref_inside)
qed

lemma ipfix_exported_flow_stored:
  assumes "holds_at bs i (exported_bytes f)" "template_records t = map record_of_field exported_fields"
  shows "\<exists>st'. ipfix_data_set_to_store env time_sec bs i 34 t st = Done (Some 34, st')
    \<and> netflow_processed st' = netflow_processed st @ [ipfix_exported_packet env st time_sec f]
    \<and> ipfix_sampling_rates st' = ipfix_sampling_rates st"
proof -
  have "ipfix_sampling_rates (nf_bump c st) = ipfix_sampling_rates st" "ipfix_sampling_rates (nf_process p st) = ipfix_sampling_rates st"
      "ipfix_sampling_rates (increment_duration_counters_ipfix d st) = ipfix_sampling_rates st"
      "netflow_processed (increment_duration_counters_ipfix d st) = netflow_processed st" for c p d st
    by (simp_all add: nf_bump_def nf_process_def increment_duration_counters_ipfix_def)
  moreover have "\<not> nested_packet_parsed netflow_meta_info_default"
    by (simp add: netflow_meta_info_default_def)
  ultimately show ?thesis
    using ipfix_exported_fields_read [OF assms(1) refl, where now = "netflow_current_time env" and metrics = "netflow_metrics st"
        and agent = "client_ipv4_address env" and time' = "(uint time_sec, 0)" and ratio = "ipfix_sample_ratio env st"] assms(2)
    by (simp add: ipfix_data_set_to_store_def Let_def ipfix_adjust_version_def zero_ipv6_beside_ipv4_def ipfix_exported_packet_def
        exported_packet_def without_icmp_ports_def simple_packet_default_def)
qed

lemma ipfix_exported_flows_stored:
  assumes "template_records t = map record_of_field exported_fields" "total_length t = 34"
  shows "holds_at bs i (concat (map exported_bytes fs)) \<Longrightarrow>
    \<exists>st'. ipfix_fixed_flows env time_sec bs i t (length fs) st = Done st'
      \<and> netflow_processed st' = netflow_processed st @ map (ipfix_exported_packet env st time_sec) fs"
proof (induction fs arbitrary: i st)
  case (Cons f fs)
  obtain st1 where one: "ipfix_data_set_to_store env time_sec bs i 34 t st = Done (Some 34, st1)"
      "netflow_processed st1 = netflow_processed st @ [ipfix_exported_packet env st time_sec f]"
      "ipfix_sampling_rates st1 = ipfix_sampling_rates st"
    using ipfix_exported_flow_stored [of bs i f t env time_sec st] Cons.prems assms(1) by auto
  then have "ipfix_exported_packet env st1 time_sec = ipfix_exported_packet env st time_sec"
    by (simp add: ipfix_exported_packet_def exported_packet_def without_icmp_ports_def ipfix_sample_ratio_def fun_eq_iff simple_packet_default_def)
  with one Cons.IH [of "i + 34" st1] Cons.prems assms(2) show ?case
    by auto
qed simp

text \<open>
  C21. The flows of an IPFIX exporter are delivered: a packet that carries a template with the usual fields and up to 1700
  flows in its layout, with or without padding, makes the receiver learn the template and hand on exactly the flows, in
  order, each as the packet with its addresses, ports, protocol, flags, octets, packets, interfaces and times, with the sampling
  rate of the device, and without ports when it is ICMP.
\<close>

theorem ipfix_flows_delivered:
  assumes "table_ok (global_ipfix_templates st)" "256 \<le> tid" "fs \<noteq> []" "length fs \<le> 1700" "length padding < 34"
  shows "\<exists>st'. process_ipfix_packet env (ipfix_packet time_sec seq_no source_id tid exported_fields (concat (map exported_bytes fs) @ padding)) st
      = Done (True, st')
    \<and> netflow_processed st' = netflow_processed st @ map (ipfix_exported_packet env st time_sec) fs"
proof -
  define payload where "payload = concat (map exported_bytes fs) @ padding"
  define bs where "bs = ipfix_packet time_sec seq_no source_id tid exported_fields payload"
  have l: "length exported_fields = 12" "exported_fields \<noteq> []" "list_all plain_field exported_fields"
    by (simp_all add: exported_fields_def plain_field_def IPFIX_ENTERPRISE_def)
  have size: "length payload = 34 * length fs + length padding"
    by (simp add: payload_def length_concat comp_def sum_list_triv)
  then have count: "length payload div 34 = length fs"
    using assms(5) by simp
  have small: "length payload < 60000"
    using size assms(4,5) by simp
  obtain st2 t where t: "template_eq t (ipfix_template_of env tid exported_fields)" "netflow_processed st2 = netflow_processed st"
      "ipfix_sampling_rates st2 = ipfix_sampling_rates st"
      "process_ipfix_packet env bs st = process_ipfix_regular_data_set env time_sec bs 72 4 (4 + length payload) t st2"
    using ipfix_template_then_data [OF assms(1,2) l(3,2) _ small bs_def, of env] unfolding l(1) by auto
  have records: "template_records t = map record_of_field exported_fields" "total_length t = 34" "\<not> ipfix_variable_length_elements_used t"
    using t(1) by (auto simp: template_eq_def ipfix_template_of_def fixed_length_before_variable_def uses_variable_length_def
        total_record_length_def exported_fields_def record_of_field_def variable_length_def)
  have "holds_at bs 76 (concat (map exported_bytes fs))"
    using ipfix_packet_parts(4) [OF bs_def] by (simp add: l(1) payload_def)
  note stored = ipfix_exported_flows_stored [OF records(1,2) this, of env time_sec]
  define st3 where "st3 = (if length payload mod 34 > 7 then nf_bump ''ipfix_sets_with_anomaly_padding'' st2 else st2)"
  have "ipfix_sampling_rates st3 = ipfix_sampling_rates st" "netflow_processed st3 = netflow_processed st"
    using t(2,3) by (simp_all add: st3_def nf_bump_def)
  then have same: "ipfix_exported_packet env st3 time_sec = ipfix_exported_packet env st time_sec" "netflow_processed st3 = netflow_processed st"
    by (simp_all add: ipfix_exported_packet_def exported_packet_def without_icmp_ports_def ipfix_sample_ratio_def fun_eq_iff simple_packet_default_def)
  obtain st' where st': "ipfix_fixed_flows env time_sec bs 76 t (length fs) st3 = Done st'"
      "netflow_processed st' = netflow_processed st @ map (ipfix_exported_packet env st time_sec) fs"
    using stored [of st3] unfolding same by blast
  have "process_ipfix_regular_data_set env time_sec bs 72 4 (4 + length payload) t st2 = Done (True, st')"
    using st'(1) records(2,3) assms(3,4) by (simp add: process_ipfix_regular_data_set_def Let_def count st3_def [symmetric])
  with t(4) st'(2) show ?thesis
    unfolding payload_def [symmetric] bs_def [symmetric] by simp
qed

lemma ipfix_flows_delivered_witness:
  "\<exists>packet st'. process_ipfix_packet exporter_environment (ipfix_packet 1 2 3 260 exported_fields
       (concat (map exported_bytes [example_flow, example_flow]) @ [0, 0])) netflow_init = Done (True, st')
     \<and> netflow_processed st' = [packet, packet] \<and> length' packet = 1500 \<and> sample_ratio packet = 100"
proof -
  have "netflow_processed netflow_init = []" "table_ok (global_ipfix_templates netflow_init)" "ipfix_sample_ratio exporter_environment netflow_init = 100"
    by (simp_all add: netflow_init_def ipfix_sample_ratio_def exporter_environment_def)
  then show ?thesis
    using ipfix_flows_delivered [of netflow_init 260 "[example_flow, example_flow]" "[0, 0]" exporter_environment 1 2 3]
    by (intro exI [of _ "ipfix_exported_packet exporter_environment netflow_init 1 example_flow"])
      (simp add: ipfix_exported_packet_def exported_packet_def without_icmp_ports_def example_flow_def)
qed

section \<open>Where the code departs from its intent\<close>

text \<open>
  A frame section of fixed length is read with a foreign length: the receiver remembers the length of the last field of
  variable length for the whole flow. When a frame section (type 315) with a fixed length follows such a field, the
  remembered length is taken for it and the bytes behind the packet are parsed.
\<close>

lemma ipfix_stale_length_overread:
  assumes "table_ok (global_ipfix_templates st)" "256 \<le> tid"
  shows "process_ipfix_packet env (ipfix_packet time_sec seq_no source_id tid [(1, 65535), (315, 1)] [5, a, b, c, d, e, x]) st = Undefined"
proof -
  let ?fs = "[(1, 65535), (315, 1)] :: (u16 \<times> nat) list" and ?payload = "[5, a, b, c, d, e, x]"
  define bs where "bs = ipfix_packet time_sec seq_no source_id tid ?fs ?payload"
  have "list_all plain_field ?fs"
    by (simp add: plain_field_def IPFIX_ENTERPRISE_def)
  then obtain st2 t where t: "template_eq t (ipfix_template_of env tid ?fs)"
      "process_ipfix_packet env bs st = process_ipfix_regular_data_set env time_sec bs 32 4 11 t st2"
    using ipfix_template_then_data [OF assms _ _ _ _ bs_def, of env] by auto
  have records: "template_records t = map record_of_field ?fs" "ipfix_variable_length_elements_used t"
    using t(1) by (auto simp: template_eq_def ipfix_template_of_def uses_variable_length_def record_of_field_def variable_length_def)
  have length: "length bs = 43" and held: "holds_at bs 36 ?payload"
    using ipfix_packet_parts(1,4) [OF bs_def] by simp_all
  have "deref 1 (\<lambda>d. d ! 0) bs 36 = Done 5"
    using deref_holds [of bs 36 "[5]" 1 "\<lambda>d. d ! 0"] holds_at_append [of bs 36 "[5]" "[a, b, c, d, e, x]"] held by simp
  then have "read_ipfix_variable_length_field bs 36 0 7
      = Done (Field_length \<lparr>info_length_encoding = single_byte, info_field_length = 5, info_record_full_length = 6\<rparr>)"
    by (simp add: read_ipfix_variable_length_field_def Let_def del: deref_inside)
  moreover have "deref 5 id bs 43 = Undefined"
    by (simp add: deref_def length)
  ultimately have "ipfix_fields (map record_of_field ?fs) bs 36 0 7 fl = Undefined" for fl
    by (simp add: record_of_field_def variable_length_def ipfix_read_field_def ipfix_record_to_flow_def apply_field_def ipfix_field_def
        ipfix_volume_field_def when_length_def packet_field_def ipfix_frame_section_def remember_length_def counted_as_def Let_def length)
  then have "ipfix_data_set_to_store env time_sec bs 36 7 t st2 = Undefined"
    by (simp only: ipfix_data_set_to_store_def records(1) Let_def and_then.simps)
  then have "ipfix_variable_flows (Suc fuel) env time_sec bs 36 0 7 7 t st2 = Undefined" for fuel
    by simp
  from this [of 11] show ?thesis
    unfolding bs_def [symmetric] t(2) using records(2) by (simp add: process_ipfix_regular_data_set_def)
qed

lemma ipfix_stale_length_overread_witness:
  "process_ipfix_packet exporter_environment (ipfix_packet 1 2 3 256 [(1, 65535), (315, 1)] [5, 0, 0, 0, 0, 0, 0]) netflow_init = Undefined"
  by (rule ipfix_stale_length_overread) (simp_all add: netflow_init_def)

text \<open>A set without a known template ends the processing of the packet: the sets behind it are lost.\<close>

lemma ipfix_unknown_template_drops_rest:
  assumes "holds_at bs offset (set_header tid l)" "offset + l \<le> packet_length" "4 \<le> l" "l < 2 ^ 16" "256 \<le> tid"
    "peer_find_template (global_ipfix_templates st) source_id (ucast tid) (client_address env) = None"
  shows "process_ipfix_sets (Suc n) env time_sec bs offset packet_length source_id st
    = Done (False, nf_bump ''ipfix_packets_with_unknown_templates'' (nf_bump ''ipfix_data_packet_number'' st))"
proof -
  have "tid \<noteq> 2" "tid \<noteq> 3" "\<not> tid < 256"
    using assms(5) by (auto simp: word_le_nat_alt word_less_nat_alt)
  then have "process_ipfix_set env time_sec bs offset tid l source_id st
      = Done (False, nf_bump ''ipfix_packets_with_unknown_templates'' (nf_bump ''ipfix_data_packet_number'' st))"
    using assms(3,6) set_header_read(2) [OF assms(1,4)] by (simp add: process_ipfix_set_def process_ipfix_data_set_def del: deref_inside)
  then show ?thesis
    using ipfix_set_step [OF assms(1-4)] by simp
qed

end
