(* ===== verification/Netflow_Receiver.thy ===== *)
theory Netflow_Receiver
  imports Netflow_V5 Ipfix_Spec
begin

text \<open>
  The entry point of the collector (\<^verbatim>\<open>process_netflow_packet\<close> of \<^verbatim>\<open>src/netflow_plugin/netflow_collector.cpp\<close>), which chooses the
  protocol by the version of a datagram, and what holds for any sequence of datagrams of any of the protocols.
\<close>

definition process_netflow_packet :: "netflow_environment \<Rightarrow> bytes \<Rightarrow> netflow_state \<Rightarrow> (bool \<times> netflow_state) outcome" where
  "process_netflow_packet env bs st =
     and_then (deref 2 (\<lambda>d. be16_at d 0) bs 0) (\<lambda>version.
       if version = 5 then process_netflow_packet_v5 env bs st
       else if version = 9 then process_netflow_packet_v9 env bs st
       else if version = 10 then process_ipfix_packet env bs (nf_bump ''netflow_ipfix_total_packets'' st)
       else Done (False, nf_bump ''netflow_ipfix_unknown_protocol_version'' st))"

text \<open>The datagrams received one after the other, each with the state of its environment; a failed datagram does not stop the receiver.\<close>

fun receive_datagrams :: "(netflow_environment \<times> bytes) list \<Rightarrow> netflow_state \<Rightarrow> netflow_state outcome" where
  "receive_datagrams [] st = Done st"
| "receive_datagrams ((env, bs) # ds) st = and_then (process_netflow_packet env bs st) (\<lambda>(_, st). receive_datagrams ds st)"

definition collector_ok :: "netflow_state \<Rightarrow> bool" where
  "collector_ok st \<longleftrightarrow> v9_templates_ok st \<and> ipfix_templates_ok st"

text \<open>
  A later state of the collector: sound templates, the packets handed on before and maybe more, and no change to the templates of
  other devices.
\<close>

definition extends :: "netflow_environment \<Rightarrow> netflow_state \<Rightarrow> netflow_state \<Rightarrow> bool" where
  "extends env st st' \<longleftrightarrow> collector_ok st' \<and> (\<exists>ps. netflow_processed st' = netflow_processed st @ ps)
     \<and> same_elsewhere (client_address env) (global_netflow9_templates st) (global_netflow9_templates st')
     \<and> same_elsewhere (client_address env) (global_ipfix_templates st) (global_ipfix_templates st')"

lemma extends_bump [simp]: "extends env (nf_bump c st) st' \<longleftrightarrow> extends env st st'"
  by (simp add: extends_def)

lemma adds_packets_extends: "adds_packets n st st' \<Longrightarrow> collector_ok st \<Longrightarrow> extends env st st'"
  by (auto simp: adds_packets_def extends_def collector_ok_def v9_templates_ok_def ipfix_templates_ok_def)

lemma netflow5_flows_loop_keeps:
  "returns (\<lambda>(_, st'). adds_packets n st st') (netflow5_flows_loop env h bs i n st)"
proof (induction n arbitrary: i st)
  case (Suc n)
  have "returns (\<lambda>(_, st'). adds_packets (Suc n) st st') (netflow5_flows_loop env h bs j n st1)" if "adds_packets 1 st st1" for j st1
    using adds_packets_trans [OF that] by (auto intro: returns_mono [OF Suc.IH])
  moreover have "adds_packets 1 st (nf_process p (increment_duration_counters_netflow_v5 d (nf_bump c (nf_bump c' st))))" for p d c c'
    unfolding increment_duration_counters_netflow_v5_def by (rule adds_packets_process [of 0]) simp_all
  ultimately show ?case
    by (auto simp: Let_def intro!: returns_bind)
qed simp

lemma process_netflow_packet_keeps:
  assumes "collector_ok st"
  shows "returns (\<lambda>(_, st'). extends env st st') (process_netflow_packet env bs st)"
proof -
  have bumped: "extends env st (nf_bump c st)" for c
    using assms by (simp add: extends_def collector_ok_def)
  have "returns (\<lambda>(_, st'). extends env st st') (netflow5_flows_loop env h bs i n (nf_bump c st))" for h i n c
    using assms by (intro returns_mono [OF netflow5_flows_loop_keeps]) (auto intro: adds_packets_extends)
  with bumped have "returns (\<lambda>(_, st'). extends env st st') (process_netflow_packet_v5 env bs st)"
    by (simp add: process_netflow_packet_v5_def Let_def returns_bind)
  moreover have "returns (\<lambda>(_, st'). extends env st st') (process_netflow_packet_v9 env bs st)"
    using assms by (intro returns_mono [OF process_netflow_packet_v9_keeps])
      (auto simp: extends_def collector_ok_def v9_sound_after_def ipfix_templates_ok_def)
  moreover have "returns (\<lambda>(_, st'). extends env st st') (process_ipfix_packet env bs (nf_bump c st))" for c
    using assms by (intro returns_mono [OF process_ipfix_packet_keeps])
      (auto simp: extends_def collector_ok_def ipfix_sound_after_def v9_templates_ok_def)
  ultimately show ?thesis
    unfolding process_netflow_packet_def using bumped by (intro returns_bind) simp
qed

lemma receive_datagrams_keep:
  "collector_ok st \<Longrightarrow> returns (\<lambda>st'. collector_ok st' \<and> (\<exists>ps. netflow_processed st' = netflow_processed st @ ps)) (receive_datagrams ds st)"
proof (induction ds arbitrary: st)
  case (Cons d ds)
  obtain env bs where d: "d = (env, bs)"
    by (cases d)
  have "returns (\<lambda>st'. collector_ok st' \<and> (\<exists>ps. netflow_processed st' = netflow_processed st @ ps)) (receive_datagrams ds st1)"
    if "extends env st st1" for st1
    using that by (intro returns_mono [OF Cons.IH]) (auto simp: extends_def)
  then show ?case
    unfolding d by (auto intro!: returns_bind' [OF process_netflow_packet_keeps [OF Cons.prems]])
qed simp

text \<open>
  C18. The collector keeps only sound templates: after any sequence of datagrams of any of the protocols from any devices,
  every stored template of NetFlow v9 has a total length that is not zero and is the sum of the lengths of its scope and fields, and every stored
  template of IPFIX knows whether it has fields of variable length, has the length of its fields before the first of them, or
  of scope and fields for options, and as many fields as it announces.
\<close>

theorem collector_invariant:
  assumes "receive_datagrams ds netflow_init = Done st"
  shows "collector_ok st"
  using receive_datagrams_keep [of netflow_init ds] assms by (simp add: collector_ok_def)

lemma collector_invariant_witness:
  "\<exists>st. receive_datagrams [(exporter_environment, [0, 7]), (exporter_environment, [0, 9, 0, 1]), (exporter_environment, [0, 10])] netflow_init = Done st
     \<and> collector_ok st"
proof -
  have "\<exists>st. receive_datagrams [(exporter_environment, [0, 7]), (exporter_environment, [0, 9, 0, 1]), (exporter_environment, [0, 10])] netflow_init = Done st"
    by (simp add: process_netflow_packet_def process_netflow_packet_v9_def process_ipfix_packet_def Let_def
        be16_at_def load16_at_def of_mem16_def htons_def)
  then show ?thesis
    using collector_invariant by blast
qed

text \<open>
  C19. Devices do not interfere: whatever bytes a device sends, the templates found for every other device stay the same,
  although the templates of all devices share tables whose keys are texts made of the address and a number.
\<close>

theorem devices_isolated:
  assumes "collector_ok st" "process_netflow_packet env bs st = Done (ok, st')" "client \<noteq> client_address env"
  shows "peer_find_template (global_netflow9_templates st') source_id tid client = peer_find_template (global_netflow9_templates st) source_id tid client
    \<and> peer_find_template (global_ipfix_templates st') source_id tid client = peer_find_template (global_ipfix_templates st) source_id tid client"
  using process_netflow_packet_keeps [OF assms(1), of env bs] assms(2,3) by (simp add: extends_def same_elsewhere_def)

lemma devices_isolated_witness:
  "\<exists>st'. process_netflow_packet exporter_environment [0, 7] netflow_init = Done (False, st')
     \<and> peer_find_template (global_netflow9_templates st') 1 256 ''10.0.0.2'' = None"
proof -
  have run: "\<exists>st'. process_netflow_packet exporter_environment [0, 7] netflow_init = Done (False, st')"
    by (simp add: process_netflow_packet_def be16_at_def load16_at_def of_mem16_def htons_def)
  then obtain st' where "process_netflow_packet exporter_environment [0, 7] netflow_init = Done (False, st')"
    by blast
  moreover have "collector_ok netflow_init" "''10.0.0.2'' \<noteq> client_address exporter_environment"
      "peer_find_template (global_netflow9_templates netflow_init) 1 256 ''10.0.0.2'' = None"
    by (simp_all add: collector_ok_def exporter_environment_def) (simp add: netflow_init_def peer_find_template_def)
  ultimately show ?thesis
    using devices_isolated [of netflow_init exporter_environment "[0, 7]" False st' "''10.0.0.2''" 1 256] by auto
qed

text \<open>A datagram of one byte has no version; the code reads two bytes for it.\<close>

lemma short_datagram_overread: "process_netflow_packet env [x] st = Undefined"
  by (simp add: process_netflow_packet_def deref_def)

end
