(* ===== verification/Spec2Isabelle.thy ===== *)
theory Spec2Isabelle
  imports Mitigation_Runs Lifecycle_Spec Port_Classifier Packet_Filter Packet_Parser Ban_Mitigation Received_Traffic Netflow_Receiver
begin

text \<open>
  \<^bold>\<open>Attack detection and FlowSpec mitigation of FastNetMon, verified in Isabelle/HOL\<close>

  FastNetMon watches the traffic of the networks it protects, decides that a host is under attack, and
  this fork announces BGP FlowSpec rules through a GoBGP daemon that make the routers drop, rate limit or
  redirect the attack. The development follows a packet from the wire to the router and back:
  captured bytes, and the datagrams in which routers export sampled packets and flows (sFlow, NetFlow v5 and v9, IPFIX), are read
  into simple packets, packets are counted per host, network and flow, speeds are
  averaged and compared with thresholds, the packets of a host that exceeds one are captured, a filled capture
  bans the host, the captured samples are classified by destination port, rules are built and encoded, the
  lifecycle decides which rules may be announced or withdrawn, several threads send the requests to
  GoBGP, and the ban and its rules end when the attack is over.

  \<^bold>\<open>Conventions.\<close> Integers of the sources keep their width as words, so that addition wraps as it does in the
  program; \<^verbatim>\<open>int\<close> and \<^verbatim>\<open>time_t\<close> values are integers. Bytes are 8 bit words and 16 and 32 bit
  members of packed classes hold the value a little-endian host loads. A call that may fail or whose
  behaviour C++ leaves undefined (a read outside of a buffer, a shift by the whole width) returns an
  \<open>outcome\<close>: \<open>Done\<close>, \<open>Failed\<close> or \<open>Undefined\<close> (Fnm_Prelude). A \<^verbatim>\<open>std::map\<close> is its ascending
  list of entries (Ordered_Map). A method that holds its mutex is one step; threads are interleavings of
  such steps. A \<^verbatim>\<open>double\<close> is the rational it denotes; every operation rounds to 53 bits, without a bound
  on the exponent and without fused operations. The clock is an argument of the operations that read it. Log messages
  are left out. In the receivers of flow protocols a pointer into a datagram is an index and a metric is known by the name of its
  variable; lengths are natural numbers, because no sum of them reaches \<open>2 ^ 32\<close> in a datagram. A read outside of the
  received bytes counts as undefined, whether or not the receive buffer is longer: what is there belongs to an earlier
  datagram or was never written. The loop over IPFIX flows of variable length runs on fuel, one more than the length of its
  set; every flow has at least one field of variable length with two bytes, so that the fuel suffices, which the proof of
  the safety of sets includes (running out of it would be undefined). Where the sources call code that is not theirs, the model takes it as
  a parameter: \<^verbatim>\<open>boost::split\<close>, \<^verbatim>\<open>inet_pton\<close>, \<^verbatim>\<open>inet_ntop\<close>, \<^verbatim>\<open>exp\<close>, the remote calls of GoBGP and
  the lookups in a Patricia tree.

  \<^bold>\<open>Theories and sources\<close> (paths under \<^verbatim>\<open>src/src\<close>).

  \<^item> Fnm_Prelude, Ordered_Map, Reachability: words and byte order, outcomes, \<^verbatim>\<open>std::map\<close>, step relations,
    invariants and refinement as locales.
  \<^item> Flow_Spec_Types: \<^verbatim>\<open>fastnetmon_networks.hpp\<close>, \<^verbatim>\<open>fastnetmon_simple_packet.hpp\<close>,
    \<^verbatim>\<open>attack_details.hpp\<close>, the data of \<^verbatim>\<open>bgp_protocol_flow_spec.hpp\<close>.
  \<^item> Packet_Headers, Packet_Parser: \<^verbatim>\<open>network_data_structures.hpp\<close>, \<^verbatim>\<open>simple_packet_parser_ng.cpp\<close>,
    \<^verbatim>\<open>fixed_size_packet_storage.hpp\<close>. The parsers never read outside of the captured bytes, read what was
    written, and read a packet the same with and without its frame; two deviations are proved
    (payload of fragments read as ports, cropped packets stored beyond their end).
  \<^item> Port_Classifier: \<^verbatim>\<open>actions/gobgp_flowspec_port_classifier.cpp\<close>. The saturating counters and the
    overflow-free percentage tests decide as exact arithmetic does.
  \<^item> Rule_Builder: \<^verbatim>\<open>actions/gobgp_flowspec_rule_builder.cpp\<close> and
    \<^verbatim>\<open>gobgp_flowspec_protocol_admission.cpp\<close>.
  \<^item> Lifecycle, Lifecycle_Spec: \<^verbatim>\<open>actions/gobgp_flowspec_lifecycle.cpp\<close>. An invariant of every sequence of calls,
    what UNBAN and refresh achieve, and a refinement of a specification in which each rule is a state machine.
  \<^item> Binary_Buffer, Bgp_Protocol, Flow_Spec_Codec: \<^verbatim>\<open>dynamic_binary_buffer.hpp\<close>, \<^verbatim>\<open>bgp_protocol.cpp\<close>,
    \<^verbatim>\<open>bgp_protocol_flow_spec.cpp\<close>. Round trips of prefixes, attributes, announces and rules, safety of the
    decoders, and the inputs on which they fail. The loop that reads values in
    \<^verbatim>\<open>read_one_or_more_values_encoded_with_operator_byte\<close> stops after 100 values as in the code.
  \<^item> Ip_Protocols, Ip_Text, Gobgp_Format, Flow_Spec_Text: \<^verbatim>\<open>iana_ip_protocols.cpp\<close>, the address texts of
    \<^verbatim>\<open>fast_library.cpp\<close>, the log and notification formatters, names, comparison and validation of rules.
  \<^item> Packet_Filter: \<^verbatim>\<open>filter.cpp\<close>.
  \<^item> Gobgp_Client, Gobgp_Config, Gobgp_Action: \<^verbatim>\<open>gobgp_client/gobgp_client.cpp\<close> and
    \<^verbatim>\<open>actions/gobgp_action.cpp\<close>: the requests, the configuration, and the handlers as lists of tasks that are
    separated at every access to shared state.
  \<^item> Path_Ownership, Mitigation, Mitigation_Runs: any number of these handlers as threads over one lifecycle and one
    GoBGP daemon. No confirmed path is forgotten, no answer of GoBGP is ignored, no step is undefined
    and every thread ends, for all interleavings and all answers.

  \<^item> Double_Arith, Traffic_Counters, Attack_Detection, Detection_Spec: \<^verbatim>\<open>subnet_counter.hpp\<close>,
    \<^verbatim>\<open>speed_counters.cpp\<close>, \<^verbatim>\<open>abstract_subnet_counters.hpp\<close> and the thresholds of
    \<^verbatim>\<open>fastnetmon_logic.cpp\<close>. The decision in floating point numbers is the one of exact arithmetic, a quiet
    host is never banned and a sustained attack is detected after a bounded number of measurements.
  \<^item> Packet_Buckets, Ban_List, Flow_Tracking: \<^verbatim>\<open>packet_bucket.hpp\<close>, \<^verbatim>\<open>ban_list.hpp\<close> and the flow
    counters of \<^verbatim>\<open>fastnetmon_logic.cpp\<close>. A capture keeps the first packets of its host, and the number of flows
    is the number of distinct flows.
  \<^item> Ban_Manager, Ipv6_Bans: captures, bans, refreshes and unbans of \<^verbatim>\<open>fastnetmon_logic.cpp\<close> as they run alone.
    Every filled capture is handled once and exactly the bans that have run out are lifted.
  \<^item> Ban_Runs, Ban_Races, Ban_Mitigation: the same operations, and \<^verbatim>\<open>ExecuteBan\<close> and
    \<^verbatim>\<open>ExecuteUnBan\<close> of \<^verbatim>\<open>api.cpp\<close> for IPv4, as threads that are separated where their mutexes are.
    The manager bans no host twice, and every run keeps to the contract of the
    mitigation, so that no confirmed path is forgotten. Two runs show what it does not guarantee: a refresh that
    was planned from an old copy of the ban list leaves a rule behind, and a manual ban is replaced by an automatic
    one.
  \<^item> Traffic_Processing, Traffic_Spec: \<^verbatim>\<open>process_packet\<close> and \<^verbatim>\<open>recalculate_speed\<close> of
    \<^verbatim>\<open>fastnetmon_logic.cpp\<close>. All counters are exact for every sequence of packets, and a recalculation opens captures
    for exactly the hosts whose new average exceeds a threshold and that are neither whitelisted nor banned.

  \<^item> Collector_Base, Sflow_Decoder, Sflow_Spec: \<^verbatim>\<open>libsflow/libsflow.cpp\<close> and
    \<^verbatim>\<open>sflow_plugin/sflow_collector.cpp\<close>. No datagram makes the receiver read outside of it, and the sampled frames
    of a well-formed one are handed on in order.
  \<^item> Netflow_Base, Template_Store, Netflow_V5: \<^verbatim>\<open>netflow_plugin/netflow_template.cpp\<close>,
    \<^verbatim>\<open>netflow_template_storage.cpp\<close> and \<^verbatim>\<open>netflow_v5_collector.cpp\<close>. The storage of templates is a locale,
    interpreted on the tables whose keys are texts; NetFlow v5 hands on exactly the flows received.
  \<^item> Outcome_Rules, Netflow_V9, Flow_Fields, Netflow_V9_Spec: \<^verbatim>\<open>netflow_plugin/netflow_v9_collector.cpp\<close>.
    Flowsets are processed safely under the conditions the theorem names, exported flows are delivered field by field, and
    three deviations are proved (templates read beyond their end, reserved flowsets that hide the rest of a datagram, options that
    erase timeouts).
  \<^item> Ipfix_Collector, Ipfix_Spec: \<^verbatim>\<open>netflow_plugin/ipfix_collector.cpp\<close>. The same for IPFIX, with fields of variable
    length; a frame section can be read with a foreign length.
  \<^item> Netflow_Receiver: \<^verbatim>\<open>process_netflow_packet\<close> of \<^verbatim>\<open>netflow_plugin/netflow_collector.cpp\<close>. Any sequence of datagrams
    keeps the templates sound, and devices do not change the templates of each other.
  \<^item> Received_Traffic: the receivers of sFlow and NetFlow v5 in front of \<^verbatim>\<open>process_packet\<close>. What the processing relies on is a
    locale; whatever bytes arrive, the counters grow by exactly the packets found in them.

  This theory holds the property that spans the chain: the announced rule, decoded by a router, matches exactly the
  packets of the attack as the parser reads them.

  \<^bold>\<open>Not modelled.\<close> JSON forms of rules (over a third-party JSON library), the sockets, threads and metric
  listings of the flow collectors, the capture plugins and exporters, the console, statistics and start of the program, the actions that run
  scripts or talk to ExaBGP, Redis and MongoDB, the calls of the API for IPv6 hosts, and memory
  exhaustion.
\<close>

section \<open>From the packet to the router\<close>

text \<open>
  C30. The announced rule stops the flood and nothing else: for a UDP or TCP attack the rule is sent to
  GoBGP as one request, its match is decodable from the request, and of all UDP and TCP packets as the
  parser reads them from the wire it matches exactly those of the protocol of the attack to the victim and, when a port
  was chosen, to that port.
\<close>

theorem announced_rule_matches_flood:
  assumes "configurable_action a rt_as rt_value" "4 * unat (get_ihl h) = 20 + length options"
    and "ip4_protocol h \<in> {IpProtocolNumberUDP, IpProtocolNumberTCP}"
      "attack_protocol attack \<in> {ucast IpProtocolNumberUDP, ucast IpProtocolNumberTCP}"
    and "(l4, dport) = (if ip4_protocol h = IpProtocolNumberUDP then (udp_bytes u, udp_destination_port u)
           else (tcp_bytes t, tcp_destination_port t))"
    and "r = build_gobgp_flowspec_ipv4_rule victim attack hop port a rt_as rt_value"
  shows "AnnounceFlowSpecIPv4 add_path r = (case add_path (flowspec_request r) of Some uuid \<Rightarrow> Done uuid | None \<Rightarrow> Failed)
    \<and> (\<exists>announced packet.
        flow_spec_decode_nlri_value (tl (nlri_binary (flowspec_request r))) flow_spec_rule_default = Done announced
      \<and> parse_raw_ipv4_packet_to_simple_packet_full (ipv4_bytes h @ options @ l4 @ payload) n p c = Done (success, packet)
      \<and> (filter_packet_by_flowspec_rule lookup_ip packet announced
          \<longleftrightarrow> ip4_destination h = victim \<and> attack_protocol attack = ucast (ip4_protocol h)
              \<and> (port = None \<or> port = Some (fast_ntoh16 dport))))"
proof -
  obtain packet where packet: "parse_raw_ipv4_packet_to_simple_packet_full (ipv4_bytes h @ options @ l4 @ payload) n p c
      = Done (success, packet)"
    and fields: "dst_ip packet = ip4_destination h" "protocol packet = ucast (ip4_protocol h)"
      "destination_port packet = fast_ntoh16 dport"
    using ipv4_packet_parsed [OF assms(2), of "l4 @ payload" n p c] assms(3,5)
      udp_at [of "20 + length options" "ipv4_bytes h @ options @ udp_bytes u @ payload" u payload]
      tcp_at [of "20 + length options" "ipv4_bytes h @ options @ tcp_bytes t @ payload" t payload]
    by (auto simp: parse_l4_of_ip_def with_ipv4_header_def with_tcp_header_def protocol_number_defs split: if_splits)
  have "filter_packet_by_flowspec_rule lookup_ip packet (matched_part r)
      \<longleftrightarrow> ip4_destination h = victim \<and> attack_protocol attack = ucast (ip4_protocol h) \<and> (port = None \<or> port = Some (fast_ntoh16 dport))"
    using assms(3,4) by (auto simp: assms(6) filter_matched_part [OF built_rule_fields(4,5) built_rule_unrestricted(1) built_rule_fields(3) built_rule_unrestricted(2)] built_rule_filter fields protocol_number_defs protocol_defs)
  moreover have "flow_spec_decode_nlri_value (tl (nlri_binary (flowspec_request r))) flow_spec_rule_default = Done (matched_part r)"
    using decode_nlri_bytes [OF built_rule_decodable] by (simp add: flowspec_request_def assms(6))
  ultimately show ?thesis
    using announce_built_rule [OF assms(1)] packet assms(6) by blast
qed

lemma announced_rule_matches_flood_witness:
  "\<exists>announced packet.
     flow_spec_decode_nlri_value (tl (nlri_binary (flowspec_request
       (build_gobgp_flowspec_ipv4_rule 0x0200000A example_attack 0 (Some 4000) FLOW_SPEC_ACTION_DISCARD 0 0))))
       flow_spec_rule_default = Done announced
   \<and> parse_raw_ipv4_packet_to_simple_packet_full (ipv4_bytes (example_ip4 0) @ [] @ udp_bytes example_udp @ [7]) 29
       simple_packet_default parser_options_default = Done (success, packet)
   \<and> filter_packet_by_flowspec_rule (\<lambda>_ _. False) packet announced"
proof -
  have "attack_protocol example_attack = ucast (ip4_protocol (example_ip4 0))"
    by (simp add: example_attack_def example_ip4_def protocol_defs)
  moreover have "ip4_destination (example_ip4 0) = 0x0200000A" "fast_ntoh16 (udp_destination_port example_udp) = 4000"
    by (simp_all add: example_ip4_def example_udp_def)
  ultimately show ?thesis
    using announced_rule_matches_flood [of FLOW_SPEC_ACTION_DISCARD 0 0 "example_ip4 0" "[]" example_attack
      "udp_bytes example_udp" "udp_destination_port example_udp" example_udp _ _ "0x0200000A" 0 "Some 4000" Map.empty "[7]" 29
      simple_packet_default parser_options_default "\<lambda>_ _. False", OF _ _ _ _ _ refl]
    by (simp add: configurable_action_def example_header)
qed
end
